(* ===== verification/Prelude.thy ===== *)
theory Prelude
  imports Main "HOL-Library.Word"
begin

text \<open>
  Shared vocabulary of the development: the theorem collections the component
  theories fill, the JavaScript idioms that the sources use everywhere
  (\<open>a || b\<close>, \<open>a ?? b\<close>, results that are a value or a thrown error) and
  generic list lemmas.
\<close>

named_theorems queue_defs "definitions of the job queue operations"
named_theorems queue_simps "observations of the job queue operations"
named_theorems gate_defs "definitions of the admission gates"
named_theorems limiter_defs "definitions of the rate limiter operations"
named_theorems store_defs "definitions of the artifact store operations"
named_theorems lex_progress "how far each lexer routine moves"

section \<open>JavaScript values that may be absent\<close>

text \<open>
  A property that may be \<open>null\<close> or \<open>undefined\<close> is an \<open>option\<close>. The operator
  \<open>||\<close> also skips the falsy values of the type: the empty string and the number 0.
\<close>

abbreviation truthy_str :: "string option \<Rightarrow> bool" where
  "truthy_str s \<equiv> (case s of None \<Rightarrow> False | Some x \<Rightarrow> x \<noteq> [])"

definition js_or_str :: "string option \<Rightarrow> string option \<Rightarrow> string option" where
  "js_or_str a b = (if truthy_str a then a else b)"

definition js_or_num :: "'a::zero option \<Rightarrow> 'a \<Rightarrow> 'a" where
  "js_or_num a d = (case a of None \<Rightarrow> d | Some n \<Rightarrow> if n = 0 then d else n)"

definition js_nullish :: "'a option \<Rightarrow> 'a \<Rightarrow> 'a" where
  "js_nullish a d = (case a of None \<Rightarrow> d | Some n \<Rightarrow> n)"

lemma js_or_num_pos: "0 < (d::nat) \<Longrightarrow> 0 < js_or_num a d"
  by (auto simp: js_or_num_def split: option.splits)

lemma js_or_num_None [simp]: "js_or_num None d = d"
  by (simp add: js_or_num_def)

lemma js_or_num_Some [simp]: "n \<noteq> 0 \<Longrightarrow> js_or_num (Some n) d = n"
  by (simp add: js_or_num_def)

section \<open>Results that may be a thrown error\<close>

type_synonym ('e, 'a) outcome = "'e + 'a"

abbreviation throw :: "'e \<Rightarrow> ('e, 'a) outcome" where
  "throw e \<equiv> Inl e"

abbreviation return :: "'a \<Rightarrow> ('e, 'a) outcome" where
  "return a \<equiv> Inr a"

definition and_then :: "('e, 'a) outcome \<Rightarrow> ('a \<Rightarrow> ('e, 'b) outcome) \<Rightarrow> ('e, 'b) outcome" where
  "and_then r k = (case r of Inl e \<Rightarrow> Inl e | Inr a \<Rightarrow> k a)"

lemma and_then_simps [simp]:
  "and_then (Inl e) k = Inl e"
  "and_then (Inr a) k = k a"
  by (simp_all add: and_then_def)

lemma and_then_eq_Inr:
  "and_then r k = Inr b \<longleftrightarrow> (\<exists>a. r = Inr a \<and> k a = Inr b)"
  by (cases r) simp_all

lemma and_then_cong [fundef_cong]:
  "r = r' \<Longrightarrow> (\<And>a. r' = Inr a \<Longrightarrow> k a = k' a) \<Longrightarrow> and_then r k = and_then r' k'"
  by (cases r') simp_all

section \<open>Strings as code units\<close>

text \<open>
  A JavaScript string is a sequence of 16-bit code units. Components that only compare and
  concatenate strings use \<open>string\<close>; text that is scanned unit by unit (Lua source, where
  units above 255 occur) is a list of numbers, and \<open>units\<close> turns a literal into one.
\<close>

type_synonym js_string = "nat list"

definition units :: "string \<Rightarrow> js_string" where
  "units s = map of_char s"

lemma units_simps [simp]:
  "units [] = []" "units (c # s) = of_char c # units s" "units (s @ t) = units s @ units t"
  by (simp_all add: units_def)

lemma length_units [simp]: "length (units s) = length s"
  by (simp add: units_def)

abbreviation is_digit :: "nat \<Rightarrow> bool" where
  "is_digit c \<equiv> 48 \<le> c \<and> c \<le> 57"

definition is_hex_digit :: "nat \<Rightarrow> bool" where
  "is_hex_digit c \<longleftrightarrow> is_digit c \<or> 97 \<le> c \<and> c \<le> 102 \<or> 65 \<le> c \<and> c \<le> 70"

definition hex_value :: "nat \<Rightarrow> nat" where
  "hex_value c = (if is_digit c then c - 48 else if 97 \<le> c then c - 87 else c - 55)"

section \<open>Lists\<close>

lemma distinct_filter_neq: "distinct xs \<Longrightarrow> x \<notin> set (filter (\<lambda>y. y \<noteq> x) xs)"
  by simp

lemma length_filter_conv_sum:
  "length (filter P xs) = (\<Sum>x\<leftarrow>xs. if P x then 1 else 0)"
  by (induction xs) auto

lemma foldl_invariant:
  assumes "P s" and "\<And>s x. P s \<Longrightarrow> x \<in> set xs \<Longrightarrow> P (f s x)"
  shows "P (foldl f s xs)"
  using assms by (induction xs arbitrary: s) auto

lemma takeWhile_all_iff: "takeWhile P xs = xs \<longleftrightarrow> (\<forall>x\<in>set xs. P x)"
  by (simp add: takeWhile_eq_all_conv)

end
