(* ===== verification/JS_Map.thy ===== *)
theory JS_Map
  imports Prelude
begin

text \<open>
  The JavaScript \<open>Map\<close>: an association list in insertion order. \<open>set\<close> on a key
  that is present keeps the key's place, on a new key appends it; \<open>delete\<close> removes
  it; iteration visits the entries in the order of the list. The clients in this
  development rely on the contract \<open>keyed_store\<close>, which the association list satisfies.
\<close>

type_synonym ('k, 'v) js_map = "('k \<times> 'v) list"

definition map_get :: "('k, 'v) js_map \<Rightarrow> 'k \<Rightarrow> 'v option" where
  "map_get m k = map_of m k"

fun map_set :: "('k, 'v) js_map \<Rightarrow> 'k \<Rightarrow> 'v \<Rightarrow> ('k, 'v) js_map" where
  "map_set [] k v = [(k, v)]"
| "map_set ((k', v') # m) k v = (if k' = k then (k, v) # m else (k', v') # map_set m k v)"

definition map_delete :: "('k, 'v) js_map \<Rightarrow> 'k \<Rightarrow> ('k, 'v) js_map" where
  "map_delete m k = filter (\<lambda>e. fst e \<noteq> k) m"

definition map_keys :: "('k, 'v) js_map \<Rightarrow> 'k list" where
  "map_keys m = map fst m"

definition map_values :: "('k, 'v) js_map \<Rightarrow> 'v list" where
  "map_values m = map snd m"

definition map_wf :: "('k, 'v) js_map \<Rightarrow> bool" where
  "map_wf m \<longleftrightarrow> distinct (map_keys m)"

section \<open>The contract\<close>

locale keyed_store =
  fixes get :: "'m \<Rightarrow> 'k \<Rightarrow> 'v option"
    and put :: "'m \<Rightarrow> 'k \<Rightarrow> 'v \<Rightarrow> 'm"
    and del :: "'m \<Rightarrow> 'k \<Rightarrow> 'm"
    and ok :: "'m \<Rightarrow> bool"
  assumes get_put: "get (put m k v) k' = (if k' = k then Some v else get m k')"
    and get_del: "get (del m k) k' = (if k' = k then None else get m k')"
    and ok_put: "ok m \<Longrightarrow> ok (put m k v)"
    and ok_del: "ok m \<Longrightarrow> ok (del m k)"
begin

lemma put_shadows: "get (put (put m k v) k w) k' = get (put m k w) k'"
  by (simp add: get_put)

lemma put_commute: "k1 \<noteq> k2 \<Longrightarrow>
    get (put (put m k1 v) k2 w) k' = get (put (put m k2 w) k1 v) k'"
  by (simp add: get_put)

lemma del_put: "get (del (put m k v) k) k' = get (del m k) k'"
  by (simp add: get_put get_del)

lemma get_put_dom: "get (put m k v) k' \<noteq> None \<longleftrightarrow> k' = k \<or> get m k' \<noteq> None"
  by (simp add: get_put)

end

lemma map_get_set: "map_get (map_set m k v) k' = (if k' = k then Some v else map_get m k')"
  by (induction m k v rule: map_set.induct) (auto simp: map_get_def)

lemma map_get_delete: "map_get (map_delete m k) k' = (if k' = k then None else map_get m k')"
  by (induction m) (auto simp: map_get_def map_delete_def)

lemma map_keys_set:
  "map_keys (map_set m k v) = (if k \<in> set (map_keys m) then map_keys m else map_keys m @ [k])"
  by (induction m k v rule: map_set.induct) (auto simp: map_keys_def)

lemma map_keys_delete: "map_keys (map_delete m k) = filter (\<lambda>x. x \<noteq> k) (map_keys m)"
  by (induction m) (auto simp: map_keys_def map_delete_def)

lemma map_wf_set: "map_wf m \<Longrightarrow> map_wf (map_set m k v)"
  by (simp add: map_wf_def map_keys_set)

lemma map_wf_delete: "map_wf m \<Longrightarrow> map_wf (map_delete m k)"
  by (simp add: map_wf_def map_keys_delete)

lemma map_wf_Nil [simp]: "map_wf []"
  by (simp add: map_wf_def map_keys_def)

interpretation js: keyed_store map_get map_set map_delete map_wf
  by unfold_locales
    (auto simp: map_get_set map_get_delete intro: map_wf_set map_wf_delete)

lemmas js_map_simps [simp] = js.get_put js.get_del

lemmas js_map_wf [simp, intro] = map_wf_set map_wf_delete

lemma map_get_Nil [simp]: "map_get [] k = None"
  by (simp add: map_get_def)

section \<open>Entries, sizes and iteration\<close>

lemma map_get_keys: "map_get m k \<noteq> None \<longleftrightarrow> k \<in> set (map_keys m)"
  by (simp add: map_get_def map_keys_def map_of_eq_None_iff)

lemma map_get_None_keys: "map_get m k = None \<longleftrightarrow> k \<notin> set (map_keys m)"
  using map_get_keys by fastforce

lemma map_get_entries: "map_wf m \<Longrightarrow> (k, v) \<in> set m \<longleftrightarrow> map_get m k = Some v"
  by (auto simp: map_wf_def map_get_def map_keys_def)

lemma map_get_mem: "map_get m k = Some v \<Longrightarrow> (k, v) \<in> set m"
  by (simp add: map_get_def map_of_SomeD)

lemma length_map_set:
  "length (map_set m k v) = (if map_get m k = None then Suc (length m) else length m)"
  by (induction m k v rule: map_set.induct) (auto simp: map_get_def)

lemma length_map_delete:
  "map_wf m \<Longrightarrow> length (map_delete m k) = (if map_get m k = None then length m else length m - 1)"
proof (induction m)
  case Nil
  then show ?case by (simp add: map_delete_def)
next
  case (Cons e m)
  then have wf: "map_wf m" and new: "fst e \<notin> set (map_keys m)"
    by (auto simp: map_wf_def map_keys_def)
  have "map_delete m (fst e) = m"
    unfolding map_delete_def filter_id_conv using new unfolding map_keys_def
    by (metis image_eqI set_map)
  moreover have "map_get m k \<noteq> None \<Longrightarrow> 0 < length m"
    by (cases m) auto
  ultimately show ?case using Cons.IH[OF wf]
    by (auto simp: map_delete_def map_get_def split: if_splits)
qed

lemma length_map_delete_le: "length (map_delete m k) \<le> length m"
  by (simp add: map_delete_def)

lemma map_delete_absent [simp]: "map_get m k = None \<Longrightarrow> map_delete m k = m"
  by (induction m) (auto simp: map_delete_def map_get_def split: if_splits)

end
