(* ===== verification/Redis_Client.thy ===== *)
theory Redis_Client
  imports JS_Map
begin

text \<open>
  The Redis client of the queue (\<open>packages/queue/src/redis-queue-adapter.js\<close>): the commands it
  is given, the store of \<open>SynchronousRedisClient\<close>, and programs that issue commands. A command
  is atomic; between two commands of a program other clients may run.
\<close>

section \<open>Commands and replies\<close>

text \<open>\<open>SET\<close> carries the seconds of its \<open>EX\<close> option, when it has one. \<open>Other\<close> is any command that
  the synchronous client answers with \<open>OK\<close>.\<close>

datatype 'v command =
  GET string
| SET string 'v "int option"
| DEL string
| LPUSH string string
| RPUSH string string
| RPOP string
| LLEN string
| LREM string string
| Other "string list"

datatype 'v reply = Null | Found 'v | Item string | Count nat | OK

section \<open>The synchronous client\<close>

text \<open>The two maps of the store; the third, \<open>ttls\<close>, is never read or written.\<close>

record 'v redis =
  strings :: "(string, 'v) js_map"
  lists :: "(string, string list) js_map"

definition empty_redis :: "'v redis" where
  "empty_redis = \<lparr>strings = [], lists = []\<rparr>"

definition list_at :: "'v redis \<Rightarrow> string \<Rightarrow> string list" where
  "list_at s k = (case map_get (lists s) k of None \<Rightarrow> [] | Some xs \<Rightarrow> xs)"

definition execCommand :: "'v command \<Rightarrow> 'v redis \<Rightarrow> 'v redis \<times> 'v reply" where
  "execCommand cmd s =
     (case cmd of
        GET k \<Rightarrow> (s, case map_get (strings s) k of None \<Rightarrow> Null | Some v \<Rightarrow> Found v)
      | SET k v ex \<Rightarrow> (s\<lparr>strings := map_set (strings s) k v\<rparr>, OK)
      | DEL k \<Rightarrow>
          (s\<lparr>strings := map_delete (strings s) k, lists := map_delete (lists s) k\<rparr>,
           Count (if map_get (strings s) k \<noteq> None \<or> map_get (lists s) k \<noteq> None then 1 else 0))
      | LPUSH k v \<Rightarrow>
          (s\<lparr>lists := map_set (lists s) k (v # list_at s k)\<rparr>, Count (Suc (length (list_at s k))))
      | RPUSH k v \<Rightarrow>
          (s\<lparr>lists := map_set (lists s) k (list_at s k @ [v])\<rparr>, Count (Suc (length (list_at s k))))
      | RPOP k \<Rightarrow>
          (if list_at s k = [] then (s, Null)
           else (s\<lparr>lists := map_set (lists s) k (butlast (list_at s k))\<rparr>, Item (last (list_at s k))))
      | LLEN k \<Rightarrow> (s, Count (length (list_at s k)))
      | LREM k v \<Rightarrow>
          (if map_get (lists s) k = None then s
           else s\<lparr>lists := map_set (lists s) k (filter (\<lambda>x. x \<noteq> v) (list_at s k))\<rparr>, Count 1)
      | Other args \<Rightarrow> (s, OK))"

section \<open>What a client promises\<close>

text \<open>
  The part of the Redis semantics that the adapter relies on, as long as no key expires: \<open>get\<close>
  observes the string at a key and \<open>items\<close> the list. A command leaves other keys alone.
\<close>

locale redis_commands =
  fixes exec :: "'v command \<Rightarrow> 's \<Rightarrow> 's \<times> 'v reply"
    and get :: "'s \<Rightarrow> string \<Rightarrow> 'v option"
    and items :: "'s \<Rightarrow> string \<Rightarrow> string list"
  assumes exec_GET: "exec (GET k) s = (s, case get s k of None \<Rightarrow> Null | Some v \<Rightarrow> Found v)"
    and exec_LLEN: "exec (LLEN k) s = (s, Count (length (items s k)))"
    and get_SET: "get (fst (exec (SET k v ex) s)) k' = (if k' = k then Some v else get s k')"
    and items_SET: "k' \<noteq> k \<Longrightarrow> items (fst (exec (SET k v ex) s)) k' = items s k'"
    and get_DEL: "get (fst (exec (DEL k) s)) k' = (if k' = k then None else get s k')"
    and items_DEL: "k' \<noteq> k \<Longrightarrow> items (fst (exec (DEL k) s)) k' = items s k'"
    and get_LPUSH: "k' \<noteq> k \<Longrightarrow> get (fst (exec (LPUSH k x) s)) k' = get s k'"
    and items_LPUSH: "items (fst (exec (LPUSH k x) s)) k' = (if k' = k then x # items s k else items s k')"
    and get_RPUSH: "k' \<noteq> k \<Longrightarrow> get (fst (exec (RPUSH k x) s)) k' = get s k'"
    and items_RPUSH: "items (fst (exec (RPUSH k x) s)) k' = (if k' = k then items s k @ [x] else items s k')"
    and exec_RPOP_empty: "items s k = [] \<Longrightarrow> exec (RPOP k) s = (s, Null)"
    and RPOP_reply: "items s k \<noteq> [] \<Longrightarrow> snd (exec (RPOP k) s) = Item (last (items s k))"
    and get_RPOP: "k' \<noteq> k \<Longrightarrow> get (fst (exec (RPOP k) s)) k' = get s k'"
    and items_RPOP: "items (fst (exec (RPOP k) s)) k' = (if k' = k then butlast (items s k) else items s k')"
begin

lemmas effects = get_SET items_SET get_DEL items_DEL get_LPUSH items_LPUSH get_RPUSH items_RPUSH
  get_RPOP items_RPOP

text \<open>The list is a queue: what is pushed on the left comes out on the right after everything
  that was there, what is pushed on the right comes out next.\<close>

lemma push_order:
  "items (fst (exec (RPOP k) (fst (exec (RPUSH k x) s)))) k = items s k"
  "snd (exec (RPOP k) (fst (exec (RPUSH k x) s))) = Item x"
  "items s k \<noteq> [] \<Longrightarrow> snd (exec (RPOP k) (fst (exec (LPUSH k x) s))) = Item (last (items s k))"
  by (simp_all add: effects RPOP_reply)

end

interpretation sync: redis_commands execCommand "\<lambda>s k. map_get (strings s) k" list_at
  by unfold_locales (auto simp: execCommand_def list_at_def split: option.splits)

section \<open>Programs\<close>

text \<open>A program is done or waits for the reply to a command. The synchronous methods of the
  adapter run a program without a break; the asynchronous ones yield at every command.\<close>

datatype ('v, 'a) prog = Done 'a | Do "'v command" "'v reply \<Rightarrow> ('v, 'a) prog"

primrec run :: "('v command \<Rightarrow> 's \<Rightarrow> 's \<times> 'v reply) \<Rightarrow> ('v, 'a) prog \<Rightarrow> 's \<Rightarrow> 's \<times> 'a" where
  "run exec (Done a) s = (s, a)"
| "run exec (Do c k) s = run exec (k (snd (exec c s))) (fst (exec c s))"

text \<open>Several programs on one store: a schedule names, in order, whose command is next.\<close>

definition step_at ::
  "('v command \<Rightarrow> 's \<Rightarrow> 's \<times> 'v reply) \<Rightarrow> nat \<Rightarrow> 's \<times> ('v, 'a) prog list \<Rightarrow> 's \<times> ('v, 'a) prog list" where
  "step_at exec i c =
     (case c of (s, ps) \<Rightarrow>
       if i < length ps then
         (case ps ! i of
            Done a \<Rightarrow> (s, ps)
          | Do cmd k \<Rightarrow> (fst (exec cmd s), ps[i := k (snd (exec cmd s))]))
       else (s, ps))"

definition run_schedule ::
  "('v command \<Rightarrow> 's \<Rightarrow> 's \<times> 'v reply) \<Rightarrow> nat list \<Rightarrow> 's \<times> ('v, 'a) prog list \<Rightarrow> 's \<times> ('v, 'a) prog list" where
  "run_schedule exec sched c = fold (step_at exec) sched c"

lemma run_schedule_invariant:
  assumes "P c" and "\<And>i c. P c \<Longrightarrow> P (step_at exec i c)"
  shows "P (run_schedule exec sched c)"
  unfolding run_schedule_def using assms by (induction sched arbitrary: c) auto

end
