(* ===== verification/Job_State.thy ===== *)
theory Job_State
  imports Prelude
begin

text \<open>
  The two job state machines: the queue's own (\<open>packages/queue/src/types.js\<close>) and the
  one shown to users (\<open>packages/api/src/state-machine.js\<close>), and the map between them.
  A state is one of the strings of the source's enumeration; the product machine also
  receives strings that name no state, so its operations take any string.
\<close>

section \<open>The queue's machine\<close>

datatype job_state =
  QUEUED | RUNNING | COMPLETED | FAILED | CANCELLED | TIMED_OUT | RESOURCE_LIMIT

definition TERMINAL_STATES :: "job_state list" where
  "TERMINAL_STATES = [COMPLETED, FAILED, CANCELLED, TIMED_OUT, RESOURCE_LIMIT]"

definition isValidTransition :: "job_state \<Rightarrow> job_state \<Rightarrow> bool" where
  "isValidTransition fromState toState =
     (if fromState = toState then True
      else if fromState \<in> set TERMINAL_STATES then False
      else if fromState = QUEUED then toState \<in> set [RUNNING, CANCELLED, TIMED_OUT]
      else if fromState = RUNNING
        then toState \<in> set [COMPLETED, FAILED, CANCELLED, TIMED_OUT, RESOURCE_LIMIT, QUEUED]
      else False)"

abbreviation terminal :: "job_state \<Rightarrow> bool" where
  "terminal s \<equiv> s \<in> set TERMINAL_STATES"

lemma terminal_iff: "terminal s \<longleftrightarrow> s \<noteq> QUEUED \<and> s \<noteq> RUNNING"
  by (cases s) (simp_all add: TERMINAL_STATES_def)

lemma transition_refl [simp]: "isValidTransition s s"
  by (simp add: isValidTransition_def)

lemma transition_terminal: "terminal s \<Longrightarrow> isValidTransition s t \<longleftrightarrow> t = s"
  by (auto simp: isValidTransition_def)

lemma transition_queued:
  "isValidTransition QUEUED t \<longleftrightarrow> t \<in> {QUEUED, RUNNING, CANCELLED, TIMED_OUT}"
  by (cases t) (simp_all add: isValidTransition_def TERMINAL_STATES_def)

lemma transition_running: "isValidTransition RUNNING t"
  by (cases t) (simp_all add: isValidTransition_def TERMINAL_STATES_def)

lemmas transition_simps = transition_queued transition_running transition_terminal terminal_iff

section \<open>The product machine\<close>

datatype product_state =
  P_QUEUED | P_LEASED | P_RUNNING | P_SUCCEEDED | P_FAILED | P_TIMED_OUT | P_CANCELLED

text \<open>
  The enumeration object: a state is its name, and a lookup of a string that is no name
  is \<open>undefined\<close>. (A name that every JavaScript object inherits, such as
  \<open>constructor\<close>, is looked up on the prototype and found: \<open>inherited_names\<close>.)
\<close>

fun state_name :: "product_state \<Rightarrow> string" where
  "state_name P_QUEUED = ''QUEUED''"
| "state_name P_LEASED = ''LEASED''"
| "state_name P_RUNNING = ''RUNNING''"
| "state_name P_SUCCEEDED = ''SUCCEEDED''"
| "state_name P_FAILED = ''FAILED''"
| "state_name P_TIMED_OUT = ''TIMED_OUT''"
| "state_name P_CANCELLED = ''CANCELLED''"

definition inherited_names :: "string list" where
  "inherited_names =
     [''constructor'', ''toString'', ''valueOf'', ''toLocaleString'', ''hasOwnProperty'',
      ''isPrototypeOf'', ''propertyIsEnumerable'', ''__proto__'', ''__defineGetter__'',
      ''__defineSetter__'', ''__lookupGetter__'', ''__lookupSetter__'']"

definition ProductJobState :: "string list" where
  "ProductJobState = map state_name
     [P_QUEUED, P_LEASED, P_RUNNING, P_SUCCEEDED, P_FAILED, P_TIMED_OUT, P_CANCELLED]"

definition in_ProductJobState :: "string \<Rightarrow> bool" where
  "in_ProductJobState s \<longleftrightarrow> s \<in> set ProductJobState \<or> s \<in> set inherited_names"

definition TERMINAL_PRODUCT_STATES :: "string list" where
  "TERMINAL_PRODUCT_STATES = [''SUCCEEDED'', ''FAILED'', ''TIMED_OUT'', ''CANCELLED'']"

definition ACTIVE_PRODUCT_STATES :: "string list" where
  "ACTIVE_PRODUCT_STATES = [''QUEUED'', ''LEASED'', ''RUNNING'']"

definition CANCELLABLE_PRODUCT_STATES :: "string list" where
  "CANCELLABLE_PRODUCT_STATES = [''QUEUED'', ''LEASED'', ''RUNNING'']"

definition isValidProductTransition :: "string \<Rightarrow> string \<Rightarrow> bool" where
  "isValidProductTransition fromState toState =
     (if \<not> in_ProductJobState fromState \<or> \<not> in_ProductJobState toState then False
      else if fromState = toState then True
      else if fromState \<in> set TERMINAL_PRODUCT_STATES then False
      else if fromState = ''QUEUED'' then
        toState \<in> set [''LEASED'', ''RUNNING'', ''CANCELLED'', ''TIMED_OUT'', ''FAILED'']
      else if fromState = ''LEASED'' then
        toState \<in> set [''RUNNING'', ''QUEUED'', ''CANCELLED'', ''TIMED_OUT'', ''FAILED'']
      else if fromState = ''RUNNING'' then
        toState \<in> set [''SUCCEEDED'', ''FAILED'', ''TIMED_OUT'', ''CANCELLED'', ''QUEUED'']
      else False)"

definition assertValidTransition :: "string \<Rightarrow> string \<Rightarrow> (string, unit) outcome" where
  "assertValidTransition fromState toState =
     (if \<not> isValidProductTransition fromState toState
      then throw ''ILLEGAL_STATE_TRANSITION'' else return ())"

text \<open>The queue's states as the strings the queue stores.\<close>

fun job_state_name :: "job_state \<Rightarrow> string" where
  "job_state_name QUEUED = ''QUEUED''"
| "job_state_name RUNNING = ''RUNNING''"
| "job_state_name COMPLETED = ''COMPLETED''"
| "job_state_name FAILED = ''FAILED''"
| "job_state_name CANCELLED = ''CANCELLED''"
| "job_state_name TIMED_OUT = ''TIMED_OUT''"
| "job_state_name RESOURCE_LIMIT = ''RESOURCE_LIMIT''"

definition mapInternalToProductState :: "string \<Rightarrow> string" where
  "mapInternalToProductState s =
     (if s = ''QUEUED'' then ''QUEUED''
      else if s = ''LEASED'' then ''LEASED''
      else if s = ''RUNNING'' then ''RUNNING''
      else if s = ''COMPLETED'' then ''SUCCEEDED''
      else if s = ''FAILED'' then ''FAILED''
      else if s = ''TIMED_OUT'' then ''TIMED_OUT''
      else if s = ''CANCELLED'' then ''CANCELLED''
      else if s = ''RESOURCE_LIMIT'' then ''FAILED''
      else ''FAILED'')"

abbreviation to_product :: "job_state \<Rightarrow> string" where
  "to_product s \<equiv> mapInternalToProductState (job_state_name s)"

text \<open>C5. The map from the queue's machine to the product machine is a simulation: every
  transition the queue allows is, after the map, one the product machine allows, and a
  queue state is terminal exactly when the product state shown for it is.\<close>

theorem product_simulates_queue:
  "(isValidTransition s t \<longrightarrow> isValidProductTransition (to_product s) (to_product t)) \<and>
   (terminal s \<longleftrightarrow> to_product s \<in> set TERMINAL_PRODUCT_STATES)"
  by (cases s; cases t)
    (simp_all add: isValidTransition_def TERMINAL_STATES_def isValidProductTransition_def
      mapInternalToProductState_def TERMINAL_PRODUCT_STATES_def in_ProductJobState_def
      ProductJobState_def)

theorem product_simulates_queue_witness:
  "isValidTransition RUNNING RESOURCE_LIMIT \<and> to_product RESOURCE_LIMIT = ''FAILED'' \<and>
   isValidProductTransition (to_product RUNNING) (to_product RESOURCE_LIMIT)"
proof -
  have step: "isValidTransition RUNNING RESOURCE_LIMIT"
    by (simp add: transition_running)
  have "isValidProductTransition (to_product RUNNING) (to_product RESOURCE_LIMIT)"
    using product_simulates_queue [of RUNNING RESOURCE_LIMIT] step by blast
  with step show ?thesis by (simp add: mapInternalToProductState_def)
qed

end
