(* ===== verification/Job_Queue.thy ===== *)
theory Job_Queue
  imports JS_Map Job_State
begin

text \<open>
  The in-memory job queue (\<open>packages/queue/src/in-memory-queue.js\<close>): leases, heartbeats,
  retries and idempotency. The three \<open>Map\<close>s keep insertion order, the waiting queue is a
  list whose head is next. Each operation runs to completion without interleaving, so
  every reading of the clock within a call is the parameter \<open>now\<close> (milliseconds); the
  random tokens and identifiers it draws are parameters too. Emitted events are appended
  to \<open>emitted\<close>.
\<close>

section \<open>State\<close>

record job_error =
  err_code :: string
  err_message :: string

record ('p, 'r) job =
  jobId :: string
  idempotencyKey :: "string option"
  principalId :: string
  state :: job_state
  createdAt :: int
  updatedAt :: int
  attempts :: nat
  maxRetries :: nat
  payload :: 'p
  result :: "'r option"
  error :: "job_error option"

record lease =
  token :: string
  workerId :: string
  expiresAt :: int
  leaseDurationMs :: int

datatype queue_event =
  Ev_enqueued string
| Ev_leased string string string int
| Ev_heartbeat string int
| Ev_completed string
| Ev_retried string
| Ev_failed string
| Ev_cancelled string
| Ev_lease_reclaimed string bool

record ('p, 'r) queue =
  maxQueueDepth :: nat
  maxRunningJobs :: nat
  defaultLeaseDurationMs :: int
  q_maxRetries :: nat
  jobs :: "(string, ('p, 'r) job) js_map"
  idempotencyMap :: "(string, string) js_map"
  waitingQueue :: "string list"
  leases :: "(string, lease) js_map"
  emitted :: "queue_event list"

record queue_options =
  opt_maxQueueDepth :: "nat option"
  opt_maxRunningJobs :: "nat option"
  opt_defaultLeaseDurationMs :: "int option"
  opt_maxRetries :: "nat option"

definition new_queue :: "queue_options \<Rightarrow> ('p, 'r) queue" where
  "new_queue opts =
     \<lparr>maxQueueDepth = js_or_num (opt_maxQueueDepth opts) 100,
      maxRunningJobs = js_or_num (opt_maxRunningJobs opts) 10,
      defaultLeaseDurationMs = js_or_num (opt_defaultLeaseDurationMs opts) 30000,
      q_maxRetries = js_nullish (opt_maxRetries opts) 2,
      jobs = [], idempotencyMap = [], waitingQueue = [], leases = [], emitted = []\<rparr>"

record 'p job_data =
  jd_jobId :: "string option"
  jd_idempotencyKey :: "string option"
  jd_principalId :: "string option"
  jd_payload :: 'p

datatype queue_error = BACKPRESSURE_EXCEEDED nat

definition emit :: "queue_event \<Rightarrow> ('p, 'r) queue \<Rightarrow> ('p, 'r) queue" where
  "emit ev q = q\<lparr>emitted := emitted q @ [ev]\<rparr>"

text \<open>A job is a shared object: writing its fields updates the entry of its \<open>Map\<close>.\<close>

definition put_job :: "string \<Rightarrow> ('p, 'r) job \<Rightarrow> ('p, 'r) queue \<Rightarrow> ('p, 'r) queue" where
  "put_job jid j q = q\<lparr>jobs := map_set (jobs q) jid j\<rparr>"

definition drop_lease :: "string \<Rightarrow> ('p, 'r) queue \<Rightarrow> ('p, 'r) queue" where
  "drop_lease jid q = q\<lparr>leases := map_delete (leases q) jid\<rparr>"

section \<open>Operations\<close>

text \<open>
  \<open>enqueue\<close>: the idempotency key of the request, the job already recorded under it, the
  identifier and the record of a new job, and the operation itself.
\<close>

definition request_key :: "'p job_data \<Rightarrow> string option" where
  "request_key jd = js_or_str (jd_idempotencyKey jd) (jd_jobId jd)"

definition existing_job :: "('p, 'r) queue \<Rightarrow> string option \<Rightarrow> ('p, 'r) job option" where
  "existing_job q key =
     (case key of
        None \<Rightarrow> None
      | Some k \<Rightarrow>
          if k = [] then None
          else case map_get (idempotencyMap q) k of
            None \<Rightarrow> None
          | Some ejid \<Rightarrow> map_get (jobs q) ejid)"

definition new_id :: "'p job_data \<Rightarrow> string \<Rightarrow> string" where
  "new_id jd uuid = (if truthy_str (jd_jobId jd) then the (jd_jobId jd) else ''job-'' @ uuid)"

definition new_job :: "('p, 'r) queue \<Rightarrow> 'p job_data \<Rightarrow> string \<Rightarrow> int \<Rightarrow> ('p, 'r) job" where
  "new_job q jd uuid now =
     \<lparr>jobId = new_id jd uuid, idempotencyKey = request_key jd,
      principalId = (if truthy_str (jd_principalId jd)
                     then the (jd_principalId jd) else ''anonymous''),
      state = QUEUED, createdAt = now, updatedAt = now, attempts = 0,
      maxRetries = q_maxRetries q, payload = jd_payload jd,
      result = None, error = None\<rparr>"

definition record_key ::
  "string option \<Rightarrow> string \<Rightarrow> ('p, 'r) queue \<Rightarrow> ('p, 'r) queue" where
  "record_key key jid q =
     (if truthy_str key
      then q\<lparr>idempotencyMap := map_set (idempotencyMap q) (the key) jid\<rparr> else q)"

definition enqueue ::
  "('p, 'r) queue \<Rightarrow> 'p job_data \<Rightarrow> string \<Rightarrow> int
    \<Rightarrow> (queue_error, ('p, 'r) queue \<times> ('p, 'r) job \<times> bool) outcome" where
  "enqueue q jd uuid now =
     (case existing_job q (request_key jd) of
        Some j \<Rightarrow> return (q, j, True)
      | None \<Rightarrow>
         if length (waitingQueue q) \<ge> maxQueueDepth q
         then throw (BACKPRESSURE_EXCEEDED (maxQueueDepth q))
         else
           let jid = new_id jd uuid;
               j = new_job q jd uuid now;
               q1 = record_key (request_key jd) jid (put_job jid j q);
               q2 = q1\<lparr>waitingQueue := waitingQueue q1 @ [jid]\<rparr>
           in return (emit (Ev_enqueued jid) q2, j, False))"

definition reclaim_lease ::
  "int \<Rightarrow> ('p, 'r) queue \<Rightarrow> string \<times> lease \<Rightarrow> ('p, 'r) queue" where
  "reclaim_lease now q e =
     (case e of (jid, l) \<Rightarrow>
       if now > expiresAt l then
         let q1 = drop_lease jid q
         in case map_get (jobs q1) jid of
              None \<Rightarrow> q1
            | Some j \<Rightarrow>
                if state j = RUNNING then
                  if attempts j < maxRetries j then
                    let q2 = put_job jid (j\<lparr>state := QUEUED, updatedAt := now\<rparr>) q1
                    in emit (Ev_lease_reclaimed jid True)
                         (q2\<lparr>waitingQueue := jid # waitingQueue q2\<rparr>)
                  else
                    emit (Ev_lease_reclaimed jid False)
                      (put_job jid (j\<lparr>state := TIMED_OUT,
                         error := Some \<lparr>err_code = ''LEASE_EXPIRED'',
                           err_message = ''Worker lease expired and retry limit reached''\<rparr>,
                         updatedAt := now\<rparr>) q1)
                else q1
       else q)"

definition reclaimStaleLeases :: "int \<Rightarrow> ('p, 'r) queue \<Rightarrow> ('p, 'r) queue" where
  "reclaimStaleLeases now q = foldl (reclaim_lease now) q (leases q)"

definition getActiveLeaseCount :: "('p, 'r) queue \<Rightarrow> nat" where
  "getActiveLeaseCount q = length (leases q)"

definition leaseNextJob ::
  "('p, 'r) queue \<Rightarrow> string \<Rightarrow> int option \<Rightarrow> string \<Rightarrow> int
    \<Rightarrow> ('p, 'r) queue \<times> (('p, 'r) job \<times> string \<times> int) option" where
  "leaseNextJob q0 wid durationMs rnd now =
     (let q = reclaimStaleLeases now q0
      in if getActiveLeaseCount q \<ge> maxRunningJobs q then (q, None)
         else case waitingQueue q of
           [] \<Rightarrow> (q, None)
         | jid # rest \<Rightarrow>
             let q1 = q\<lparr>waitingQueue := rest\<rparr>
             in case map_get (jobs q1) jid of
                  None \<Rightarrow> (q1, None)
                | Some j \<Rightarrow>
                    if state j \<noteq> QUEUED then (q1, None)
                    else
                      let duration = js_or_num durationMs (defaultLeaseDurationMs q1);
                          expiry = now + duration;
                          j' = j\<lparr>state := RUNNING, attempts := attempts j + 1,
                                 updatedAt := now\<rparr>;
                          l = \<lparr>token = rnd, workerId = wid, expiresAt = expiry,
                               leaseDurationMs = duration\<rparr>;
                          q2 = put_job jid j' q1;
                          q3 = q2\<lparr>leases := map_set (leases q2) jid l\<rparr>
                      in (emit (Ev_leased jid wid rnd expiry) q3, Some (j', rnd, expiry)))"

definition heartbeat ::
  "('p, 'r) queue \<Rightarrow> string \<Rightarrow> string \<Rightarrow> int option \<Rightarrow> int \<Rightarrow> ('p, 'r) queue \<times> bool" where
  "heartbeat q jid tok extensionMs now =
     (case map_get (leases q) jid of
        None \<Rightarrow> (q, False)
      | Some l \<Rightarrow>
          if token l \<noteq> tok then (q, False)
          else if now > expiresAt l then (q, False)
          else
            let duration = js_or_num extensionMs
                  (js_or_num (Some (leaseDurationMs l)) (defaultLeaseDurationMs q));
                l' = l\<lparr>expiresAt := now + duration\<rparr>;
                q1 = q\<lparr>leases := map_set (leases q) jid l'\<rparr>;
                q2 = (case map_get (jobs q1) jid of
                        None \<Rightarrow> q1
                      | Some j \<Rightarrow> put_job jid (j\<lparr>updatedAt := now\<rparr>) q1)
            in (emit (Ev_heartbeat jid (now + duration)) q2, True))"

definition completeJob ::
  "('p, 'r) queue \<Rightarrow> string \<Rightarrow> string \<Rightarrow> 'r \<Rightarrow> int \<Rightarrow> ('p, 'r) queue \<times> bool" where
  "completeJob q jid tok res now =
     (case map_get (leases q) jid of
        None \<Rightarrow> (q, False)
      | Some l \<Rightarrow>
          if token l \<noteq> tok then (q, False)
          else case map_get (jobs q) jid of
            None \<Rightarrow> (q, False)
          | Some j \<Rightarrow>
              if \<not> isValidTransition (state j) COMPLETED then (q, False)
              else (emit (Ev_completed jid) (drop_lease jid
                     (put_job jid (j\<lparr>state := COMPLETED, result := Some res,
                        updatedAt := now\<rparr>) q)), True))"

definition failJob ::
  "('p, 'r) queue \<Rightarrow> string \<Rightarrow> string \<Rightarrow> job_error option \<Rightarrow> int \<Rightarrow> ('p, 'r) queue \<times> bool" where
  "failJob q jid tok err now =
     (case map_get (leases q) jid of
        None \<Rightarrow> (q, False)
      | Some l \<Rightarrow>
          if token l \<noteq> tok then (q, False)
          else case map_get (jobs q) jid of
            None \<Rightarrow> (q, False)
          | Some j \<Rightarrow>
              if attempts j < maxRetries j then
                let q1 = drop_lease jid (put_job jid (j\<lparr>state := QUEUED, updatedAt := now\<rparr>) q)
                in (emit (Ev_retried jid) (q1\<lparr>waitingQueue := jid # waitingQueue q1\<rparr>), True)
              else
                (emit (Ev_failed jid) (drop_lease jid
                   (put_job jid (j\<lparr>state := FAILED, error := err, updatedAt := now\<rparr>) q)),
                 True))"

definition cancelJob ::
  "('p, 'r) queue \<Rightarrow> string \<Rightarrow> string option \<Rightarrow> int \<Rightarrow> ('p, 'r) queue \<times> bool" where
  "cancelJob q jid reason now =
     (case map_get (jobs q) jid of
        None \<Rightarrow> (q, False)
      | Some j \<Rightarrow>
          if state j \<in> set TERMINAL_STATES then (q, False)
          else
            let q1 = drop_lease jid (put_job jid (j\<lparr>state := CANCELLED,
                       error := Some \<lparr>err_code = ''CANCELLED'',
                         err_message = js_nullish reason ''Cancelled by user''\<rparr>,
                       updatedAt := now\<rparr>) q)
            in (emit (Ev_cancelled jid)
                  (q1\<lparr>waitingQueue := filter (\<lambda>i. i \<noteq> jid) (waitingQueue q1)\<rparr>), True))"

definition getJob :: "('p, 'r) queue \<Rightarrow> string \<Rightarrow> ('p, 'r) job option" where
  "getJob q jid = map_get (jobs q) jid"

record stats =
  totalJobs :: nat
  n_queued :: nat
  n_running :: nat
  n_completed :: nat
  n_failed :: nat
  n_cancelled :: nat
  n_timedOut :: nat

definition count_state :: "job_state \<Rightarrow> ('p, 'r) queue \<Rightarrow> nat" where
  "count_state s q = length (filter (\<lambda>j. state j = s) (map_values (jobs q)))"

definition getStats :: "('p, 'r) queue \<Rightarrow> int \<Rightarrow> ('p, 'r) queue \<times> stats" where
  "getStats q0 now =
     (let q = reclaimStaleLeases now q0
      in (q, \<lparr>totalJobs = length (jobs q),
              n_queued = count_state QUEUED q, n_running = count_state RUNNING q,
              n_completed = count_state COMPLETED q, n_failed = count_state FAILED q,
              n_cancelled = count_state CANCELLED q, n_timedOut = count_state TIMED_OUT q\<rparr>))"

end
