(* ===== verification/Redis_Queue.thy ===== *)
theory Redis_Queue
  imports Redis_Client Job_Queue
begin

text \<open>
  The Redis queue adapter (\<open>packages/queue/src/redis-queue-adapter.js\<close>): each operation as the
  program of commands it issues. The methods ending in \<open>Sync\<close> issue the same commands as their
  asynchronous twins, without the \<open>EX\<close> options. JSON texts are represented by the value they
  are the text of. The clock is read after the last reply that precedes the reading.
\<close>

section \<open>Stored values\<close>

datatype ('p, 'r) stored =
  Id_text string
| Job_json "('p, 'r) job"
| Lease_json lease

record adapter =
  prefix :: string
  ad_maxQueueDepth :: nat
  ad_defaultLeaseDurationMs :: int
  ad_maxRetries :: nat

record adapter_options =
  opt_prefix :: "string option"
  opt_keyPrefix :: "string option"
  ao_maxQueueDepth :: "nat option"
  ao_defaultLeaseDurationMs :: "int option"
  ao_maxRetries :: "nat option"

definition RedisQueueAdapter :: "adapter_options \<Rightarrow> adapter" where
  "RedisQueueAdapter opts =
     \<lparr>prefix = (case js_or_str (opt_prefix opts) (opt_keyPrefix opts) of
          None \<Rightarrow> ''valax:queue:'' | Some p \<Rightarrow> if p = [] then ''valax:queue:'' else p),
      ad_maxQueueDepth = js_or_num (ao_maxQueueDepth opts) 500,
      ad_defaultLeaseDurationMs = js_or_num (ao_defaultLeaseDurationMs opts) 30000,
      ad_maxRetries = js_nullish (ao_maxRetries opts) 2\<rparr>"

definition kJob :: "adapter \<Rightarrow> string \<Rightarrow> string" where
  "kJob ad jid = prefix ad @ ''job:'' @ jid"

definition kWaiting :: "adapter \<Rightarrow> string" where
  "kWaiting ad = prefix ad @ ''waiting''"

definition kIdemp :: "adapter \<Rightarrow> string \<Rightarrow> string" where
  "kIdemp ad key = prefix ad @ ''idemp:'' @ key"

definition kLease :: "adapter \<Rightarrow> string \<Rightarrow> string" where
  "kLease ad jid = prefix ad @ ''lease:'' @ jid"

datatype adapter_error = Backpressure nat nat | Malformed

text \<open>A result with the events the operation emits.\<close>

type_synonym ('p, 'r, 'a) op_prog =
  "(('p, 'r) stored, (adapter_error, 'a) outcome \<times> queue_event list) prog"

section \<open>Reading a job and a lease\<close>

text \<open>\<open>GET\<close> and \<open>JSON.parse\<close>; the continuation is given \<open>None\<close> when the key is absent.\<close>

definition get_job ::
  "adapter \<Rightarrow> string \<Rightarrow> (('p, 'r) job option \<Rightarrow> ('p, 'r, 'a) op_prog) \<Rightarrow> ('p, 'r, 'a) op_prog" where
  "get_job ad jid k =
     Do (GET (kJob ad jid)) (\<lambda>r. case r of
        Found (Job_json j) \<Rightarrow> k (Some j)
      | Null \<Rightarrow> k None
      | _ \<Rightarrow> Done (throw Malformed, []))"

definition get_lease ::
  "adapter \<Rightarrow> string \<Rightarrow> (lease option \<Rightarrow> ('p, 'r, 'a) op_prog) \<Rightarrow> ('p, 'r, 'a) op_prog" where
  "get_lease ad jid k =
     Do (GET (kLease ad jid)) (\<lambda>r. case r of
        Found (Lease_json l) \<Rightarrow> k (Some l)
      | Null \<Rightarrow> k None
      | _ \<Rightarrow> Done (throw Malformed, []))"

definition put_job_json ::
  "adapter \<Rightarrow> string \<Rightarrow> ('p, 'r) job \<Rightarrow> ('p, 'r, 'a) op_prog \<Rightarrow> ('p, 'r, 'a) op_prog" where
  "put_job_json ad jid j k = Do (SET (kJob ad jid) (Job_json j) None) (\<lambda>_. k)"

section \<open>Operations\<close>

text \<open>The job recorded under the idempotency key of the request.\<close>

definition find_existing ::
  "adapter \<Rightarrow> string option \<Rightarrow> (('p, 'r) job option \<Rightarrow> ('p, 'r, 'a) op_prog) \<Rightarrow> ('p, 'r, 'a) op_prog" where
  "find_existing ad key k =
     (if \<not> truthy_str key then k None
      else Do (GET (kIdemp ad (the key))) (\<lambda>r. case r of
             Found (Id_text jid) \<Rightarrow> if jid = [] then k None else get_job ad jid k
           | Null \<Rightarrow> k None
           | _ \<Rightarrow> Done (throw Malformed, [])))"

definition adapter_job :: "adapter \<Rightarrow> 'p job_data \<Rightarrow> string \<Rightarrow> int \<Rightarrow> ('p, 'r) job" where
  "adapter_job ad jd uuid now =
     \<lparr>jobId = new_id jd uuid, idempotencyKey = request_key jd,
      principalId = (if truthy_str (jd_principalId jd)
                     then the (jd_principalId jd) else ''anonymous''),
      state = QUEUED, createdAt = now, updatedAt = now, attempts = 0,
      maxRetries = ad_maxRetries ad, payload = jd_payload jd, result = None, error = None\<rparr>"

definition count_of :: "'v reply \<Rightarrow> nat" where
  "count_of r = (case r of Count n \<Rightarrow> n | _ \<Rightarrow> 0)"

definition record_idemp ::
  "adapter \<Rightarrow> bool \<Rightarrow> string option \<Rightarrow> string \<Rightarrow> ('p, 'r, 'a) op_prog \<Rightarrow> ('p, 'r, 'a) op_prog" where
  "record_idemp ad async key jid k =
     (if truthy_str key then
        Do (SET (kIdemp ad (the key)) (Id_text jid) (if async then Some 86400 else None)) (\<lambda>_. k)
      else k)"

definition enqueue_new ::
  "adapter \<Rightarrow> bool \<Rightarrow> 'p job_data \<Rightarrow> string \<Rightarrow> int \<Rightarrow> ('p, 'r, ('p, 'r) job \<times> bool) op_prog" where
  "enqueue_new ad async jd uuid now =
     Do (LLEN (kWaiting ad)) (\<lambda>r.
       if count_of r \<ge> ad_maxQueueDepth ad
       then Done (throw (Backpressure (count_of r) (ad_maxQueueDepth ad)), [])
       else
         let jid = new_id jd uuid; j = adapter_job ad jd uuid now
         in put_job_json ad jid j
              (Do (LPUSH (kWaiting ad) jid) (\<lambda>_.
                 record_idemp ad async (request_key jd) jid
                   (Done (return (j, False), [Ev_enqueued jid])))))"

definition enqueue ::
  "adapter \<Rightarrow> bool \<Rightarrow> 'p job_data \<Rightarrow> string \<Rightarrow> int \<Rightarrow> ('p, 'r, ('p, 'r) job \<times> bool) op_prog" where
  "enqueue ad async jd uuid now =
     find_existing ad (request_key jd) (\<lambda>found.
       case found of
         Some j \<Rightarrow> Done (return (j, True), [])
       | None \<Rightarrow> enqueue_new ad async jd uuid now)"

definition grant ::
  "adapter \<Rightarrow> bool \<Rightarrow> string \<Rightarrow> int \<Rightarrow> string \<Rightarrow> int \<Rightarrow> string \<Rightarrow> ('p, 'r) job \<Rightarrow>
   ('p, 'r, (('p, 'r) job \<times> string \<times> int) option) op_prog" where
  "grant ad async wid duration rnd now jid j =
     (let j' = j\<lparr>state := RUNNING, attempts := attempts j + 1, updatedAt := now\<rparr>;
          l = \<lparr>token = rnd, workerId = wid, expiresAt = now + duration, leaseDurationMs = duration\<rparr>
      in put_job_json ad jid j'
           (Do (SET (kLease ad jid) (Lease_json l) (if async then Some (- (- duration div 1000)) else None))
              (\<lambda>_. Done (return (Some (j', rnd, now + duration)), [Ev_leased jid wid rnd (now + duration)]))))"

text \<open>\<open>leaseNextJob\<close> after an identifier has been taken from the list.\<close>

definition claim ::
  "adapter \<Rightarrow> bool \<Rightarrow> string \<Rightarrow> int \<Rightarrow> string \<Rightarrow> int \<Rightarrow> string \<Rightarrow>
   ('p, 'r, (('p, 'r) job \<times> string \<times> int) option) op_prog" where
  "claim ad async wid duration rnd now jid =
     get_job ad jid (\<lambda>found. case found of
         None \<Rightarrow> Done (return None, [])
       | Some j \<Rightarrow>
           if state j \<noteq> QUEUED then Done (return None, [])
           else grant ad async wid duration rnd now jid j)"

definition leaseNextJob ::
  "adapter \<Rightarrow> bool \<Rightarrow> string \<Rightarrow> int option \<Rightarrow> string \<Rightarrow> int \<Rightarrow>
   ('p, 'r, (('p, 'r) job \<times> string \<times> int) option) op_prog" where
  "leaseNextJob ad async wid durationMs rnd now =
     Do (RPOP (kWaiting ad)) (\<lambda>r. case r of
       Item jid \<Rightarrow>
         if jid = [] then Done (return None, [])
         else claim ad async wid (js_or_num durationMs (ad_defaultLeaseDurationMs ad)) rnd now jid
     | _ \<Rightarrow> Done (return None, []))"

definition completeJob ::
  "adapter \<Rightarrow> string \<Rightarrow> string \<Rightarrow> 'r \<Rightarrow> int \<Rightarrow> ('p, 'r, bool) op_prog" where
  "completeJob ad jid tok res now =
     get_lease ad jid (\<lambda>lease. case lease of
         None \<Rightarrow> Done (return False, [])
       | Some l \<Rightarrow>
           if token l \<noteq> tok then Done (return False, [])
           else get_job ad jid (\<lambda>found. case found of
               None \<Rightarrow> Done (return False, [])
             | Some j \<Rightarrow>
                 if \<not> isValidTransition (state j) COMPLETED then Done (return False, [])
                 else put_job_json ad jid (j\<lparr>state := COMPLETED, result := Some res, updatedAt := now\<rparr>)
                        (Do (DEL (kLease ad jid)) (\<lambda>_. Done (return True, [Ev_completed jid])))))"

text \<open>\<open>failJob\<close> does not look at the lease token.\<close>

definition failJob ::
  "adapter \<Rightarrow> string \<Rightarrow> string \<Rightarrow> job_error option \<Rightarrow> int \<Rightarrow> ('p, 'r, bool) op_prog" where
  "failJob ad jid tok err now =
     get_job ad jid (\<lambda>found. case found of
         None \<Rightarrow> Done (return False, [])
       | Some j \<Rightarrow>
           Do (DEL (kLease ad jid)) (\<lambda>_.
             if attempts j < maxRetries j then
               put_job_json ad jid (j\<lparr>state := QUEUED, updatedAt := now\<rparr>)
                 (Do (RPUSH (kWaiting ad) jid) (\<lambda>_. Done (return True, [Ev_retried jid])))
             else
               put_job_json ad jid (j\<lparr>state := FAILED, error := err, updatedAt := now\<rparr>)
                 (Done (return True, [Ev_failed jid]))))"

definition getJob :: "adapter \<Rightarrow> string \<Rightarrow> ('p, 'r, ('p, 'r) job option) op_prog" where
  "getJob ad jid = get_job ad jid (\<lambda>found. Done (return found, []))"

end
