(* ===== verification/Job_Queue_Props.thy ===== *)
theory Job_Queue_Props
  imports Job_Queue
begin

text \<open>
  Correctness of the in-memory queue: the agreement between a job's state, the waiting
  list and the lease table, kept by every operation; the transitions a job can make; the
  order of service; the counters.
\<close>

section \<open>Observations of the operations\<close>

lemma emit_simps [simp]:
  "jobs (emit ev q) = jobs q" "leases (emit ev q) = leases q"
  "waitingQueue (emit ev q) = waitingQueue q" "idempotencyMap (emit ev q) = idempotencyMap q"
  "maxQueueDepth (emit ev q) = maxQueueDepth q" "maxRunningJobs (emit ev q) = maxRunningJobs q"
  "q_maxRetries (emit ev q) = q_maxRetries q"
  "defaultLeaseDurationMs (emit ev q) = defaultLeaseDurationMs q"
  by (simp_all add: emit_def)

lemma put_job_simps [simp]:
  "jobs (put_job jid j q) = map_set (jobs q) jid j" "leases (put_job jid j q) = leases q"
  "waitingQueue (put_job jid j q) = waitingQueue q"
  "idempotencyMap (put_job jid j q) = idempotencyMap q"
  "maxQueueDepth (put_job jid j q) = maxQueueDepth q"
  "maxRunningJobs (put_job jid j q) = maxRunningJobs q"
  "q_maxRetries (put_job jid j q) = q_maxRetries q"
  "defaultLeaseDurationMs (put_job jid j q) = defaultLeaseDurationMs q"
  by (simp_all add: put_job_def)

lemma drop_lease_simps [simp]:
  "jobs (drop_lease jid q) = jobs q" "leases (drop_lease jid q) = map_delete (leases q) jid"
  "waitingQueue (drop_lease jid q) = waitingQueue q"
  "idempotencyMap (drop_lease jid q) = idempotencyMap q"
  "maxQueueDepth (drop_lease jid q) = maxQueueDepth q"
  "maxRunningJobs (drop_lease jid q) = maxRunningJobs q"
  "q_maxRetries (drop_lease jid q) = q_maxRetries q"
  "defaultLeaseDurationMs (drop_lease jid q) = defaultLeaseDurationMs q"
  by (simp_all add: drop_lease_def)

section \<open>The invariant\<close>

text \<open>
  What the tables say of one identifier: a job waits exactly when it is queued and is
  leased exactly when it is running, and it has been started at most
  \<open>max 1 maxRetries\<close> times, less than that while it can still be started.
\<close>

definition slot_ok :: "nat \<Rightarrow> string \<Rightarrow> ('p, 'r) job option \<Rightarrow> bool \<Rightarrow> bool \<Rightarrow> bool" where
  "slot_ok mr jid oj waiting leased \<longleftrightarrow>
     (case oj of
        None \<Rightarrow> \<not> waiting \<and> \<not> leased
      | Some j \<Rightarrow>
          jobId j = jid \<and> maxRetries j = mr \<and>
          (waiting \<longleftrightarrow> state j = QUEUED) \<and> (leased \<longleftrightarrow> state j = RUNNING) \<and>
          attempts j \<le> max 1 mr \<and> (state j = QUEUED \<longrightarrow> attempts j < max 1 mr) \<and>
          (state j = RUNNING \<longrightarrow> 0 < attempts j) \<and> state j \<noteq> RESOURCE_LIMIT)"

abbreviation slot_at :: "('p, 'r) queue \<Rightarrow> string \<Rightarrow> bool" where
  "slot_at q jid \<equiv> slot_ok (q_maxRetries q) jid (map_get (jobs q) jid)
     (jid \<in> set (waitingQueue q)) (map_get (leases q) jid \<noteq> None)"

definition shape_ok :: "('p, 'r) queue \<Rightarrow> bool" where
  "shape_ok q \<longleftrightarrow> map_wf (jobs q) \<and> map_wf (leases q) \<and> map_wf (idempotencyMap q) \<and>
     distinct (waitingQueue q) \<and>
     (\<forall>k jid. map_get (idempotencyMap q) k = Some jid \<longrightarrow> map_get (jobs q) jid \<noteq> None)"

definition bounds_ok :: "('p, 'r) queue \<Rightarrow> bool" where
  "bounds_ok q \<longleftrightarrow> length (leases q) \<le> maxRunningJobs q \<and>
     length (waitingQueue q) + length (leases q) \<le> maxQueueDepth q + maxRunningJobs q"

definition queue_ok :: "('p, 'r) queue \<Rightarrow> bool" where
  "queue_ok q \<longleftrightarrow> shape_ok q \<and> bounds_ok q \<and> (\<forall>jid. slot_at q jid)"

lemmas queue_ok_defs = queue_ok_def shape_ok_def bounds_ok_def

lemma queue_ok_slot: "queue_ok q \<Longrightarrow> slot_at q jid"
  by (simp add: queue_ok_def)

lemma slot_ok_None [simp]: "slot_ok mr jid None w l \<longleftrightarrow> \<not> w \<and> \<not> l"
  by (simp add: slot_ok_def)

lemma slot_ok_Some: "slot_ok mr jid (Some j) w l \<longleftrightarrow>
    jobId j = jid \<and> maxRetries j = mr \<and> (w \<longleftrightarrow> state j = QUEUED) \<and> (l \<longleftrightarrow> state j = RUNNING) \<and>
    attempts j \<le> max 1 mr \<and> (state j = QUEUED \<longrightarrow> attempts j < max 1 mr) \<and>
    (state j = RUNNING \<longrightarrow> 0 < attempts j) \<and> state j \<noteq> RESOURCE_LIMIT"
  by (simp add: slot_ok_def)

lemma leased_running:
  assumes "queue_ok q" and "map_get (leases q) jid = Some l"
  obtains j where "map_get (jobs q) jid = Some j" and "state j = RUNNING"
    and "jid \<notin> set (waitingQueue q)"
proof -
  have "slot_at q jid" using assms(1) by (rule queue_ok_slot)
  with assms(2) that show thesis
    by (cases "map_get (jobs q) jid") (auto simp: slot_ok_Some)
qed

lemma waiting_queued:
  assumes "queue_ok q" and "jid \<in> set (waitingQueue q)"
  obtains j where "map_get (jobs q) jid = Some j" and "state j = QUEUED"
    and "map_get (leases q) jid = None"
proof -
  have "slot_at q jid" using assms(1) by (rule queue_ok_slot)
  with assms(2) that show thesis
    by (cases "map_get (jobs q) jid") (auto simp: slot_ok_Some)
qed

lemma new_queue_ok: "queue_ok (new_queue opts)"
  by (simp add: queue_ok_defs new_queue_def)

text \<open>
  The frame rule behind every preservation proof: an operation that rewrites the three
  tables at one identifier only has to be checked at that identifier.
\<close>

lemma queue_ok_frame:
  assumes ok: "queue_ok q"
    and same: "\<And>i. i \<noteq> jid \<Longrightarrow> map_get (jobs q') i = map_get (jobs q) i"
      "\<And>i. i \<noteq> jid \<Longrightarrow> i \<in> set (waitingQueue q') \<longleftrightarrow> i \<in> set (waitingQueue q)"
      "\<And>i. i \<noteq> jid \<Longrightarrow> map_get (leases q') i = map_get (leases q) i"
      "q_maxRetries q' = q_maxRetries q"
    and there: "slot_at q' jid" and "shape_ok q'" and "bounds_ok q'"
  shows "queue_ok q'"
  unfolding queue_ok_def
proof (intro conjI allI)
  fix i
  show "slot_at q' i"
  proof (cases "i = jid")
    case False
    then show ?thesis using same queue_ok_slot[OF ok, of i] by simp
  qed (use there in simp)
qed (fact assms)+

section \<open>Every operation keeps the invariant\<close>

lemma lease_count: "map_wf m \<Longrightarrow> map_get m jid = Some l \<Longrightarrow>
    Suc (length (map_delete m jid)) = length m"
  using length_map_delete[of m jid] map_get_mem[of m jid l] by (cases m) auto

lemma reclaim_lease_ok: "queue_ok q \<Longrightarrow> queue_ok (reclaim_lease now q e)"
proof -
  assume ok: "queue_ok q"
  obtain jid l where e: "e = (jid, l)" by (cases e)
  show ?thesis
  proof (cases "now > expiresAt l \<and> map_get (leases q) jid \<noteq> None")
    case False
    then show ?thesis
    proof (cases "now > expiresAt l")
      case True
      with False have none: "map_get (leases q) jid = None" by simp
      then have same: "drop_lease jid q = q" by (simp add: drop_lease_def)
      have "map_get (jobs q) jid = Some j \<Longrightarrow> state j \<noteq> RUNNING" for j
        using queue_ok_slot[OF ok, of jid] none by (simp add: slot_ok_Some)
      then show ?thesis
        using ok same by (auto simp: e reclaim_lease_def Let_def split: option.splits)
    qed (use ok in \<open>simp add: e reclaim_lease_def\<close>)
  next
    case True
    then obtain l' where leased: "map_get (leases q) jid = Some l'" by auto
    from leased_running[OF ok leased] obtain j where
      j: "map_get (jobs q) jid = Some j" "state j = RUNNING" "jid \<notin> set (waitingQueue q)" .
    note facts = queue_ok_slot[OF ok, of jid] j leased True ok
    have "Suc (length (map_delete (leases q) jid)) = length (leases q)"
      using lease_count[OF _ leased] ok by (simp add: queue_ok_defs)
    then show ?thesis
      by (intro queue_ok_frame[OF ok, of jid])
        (use facts in \<open>auto simp: e reclaim_lease_def Let_def queue_ok_defs slot_ok_Some\<close>)
  qed
qed

lemma reclaim_ok: "queue_ok q \<Longrightarrow> queue_ok (reclaimStaleLeases now q)"
  unfolding reclaimStaleLeases_def by (rule foldl_invariant) (auto intro: reclaim_lease_ok)

text \<open>A call to \<open>enqueue\<close> gets a fresh identifier.\<close>

abbreviation fresh_id :: "('p, 'r) queue \<Rightarrow> 'p job_data \<Rightarrow> string \<Rightarrow> bool" where
  "fresh_id q jd uuid \<equiv> map_get (jobs q) (new_id jd uuid) = None"

lemma record_key_simps [simp]:
  "jobs (record_key k jid q) = jobs q" "leases (record_key k jid q) = leases q"
  "waitingQueue (record_key k jid q) = waitingQueue q"
  "maxQueueDepth (record_key k jid q) = maxQueueDepth q"
  "maxRunningJobs (record_key k jid q) = maxRunningJobs q"
  "q_maxRetries (record_key k jid q) = q_maxRetries q"
  "idempotencyMap (record_key k jid q) =
     (if truthy_str k then map_set (idempotencyMap q) (the k) jid else idempotencyMap q)"
  by (simp_all add: record_key_def)

lemma new_job_simps [simp]:
  "jobId (new_job q jd uuid now) = new_id jd uuid" "state (new_job q jd uuid now) = QUEUED"
  "attempts (new_job q jd uuid now) = 0" "maxRetries (new_job q jd uuid now) = q_maxRetries q"
  "idempotencyKey (new_job q jd uuid now) = request_key jd"
  by (simp_all add: new_job_def)

lemma enqueue_cases:
  assumes "enqueue q jd uuid now = Inr (q', j, dup)"
  obtains (duplicate) "dup" "q' = q" "existing_job q (request_key jd) = Some j"
  | (created) "\<not> dup" "existing_job q (request_key jd) = None"
      "length (waitingQueue q) < maxQueueDepth q" "j = new_job q jd uuid now"
      "q' = emit (Ev_enqueued (new_id jd uuid))
         ((record_key (request_key jd) (new_id jd uuid)
             (put_job (new_id jd uuid) (new_job q jd uuid now) q))
          \<lparr>waitingQueue := waitingQueue q @ [new_id jd uuid]\<rparr>)"
  using assms unfolding enqueue_def Let_def
  by (cases "existing_job q (request_key jd)") (auto split: if_splits)

lemma enqueue_ok:
  assumes ok: "queue_ok q" and res: "enqueue q jd uuid now = Inr (q', j, dup)"
    and fresh: "fresh_id q jd uuid"
  shows "queue_ok q'"
  using res
proof (cases rule: enqueue_cases)
  case created
  let ?i = "new_id jd uuid"
  have free: "?i \<notin> set (waitingQueue q)" "map_get (leases q) ?i = None"
    using queue_ok_slot[OF ok, of ?i] fresh by simp_all
  show ?thesis
  proof (rule queue_ok_frame[OF ok, of ?i])
    show "shape_ok q'"
      using ok created free by (auto simp: queue_ok_defs)
    show "bounds_ok q'" using ok created by (auto simp: queue_ok_defs)
    show "slot_at q' ?i" using created free by (simp add: slot_ok_Some)
  qed (use created in auto)
qed (use ok in simp)

lemma lease_ok: "queue_ok q \<Longrightarrow> queue_ok (fst (leaseNextJob q wid d rnd now))"
proof -
  assume "queue_ok q"
  define q1 where "q1 = reclaimStaleLeases now q"
  have ok: "queue_ok q1" unfolding q1_def by (rule reclaim_ok) fact
  show ?thesis
  proof (cases "length (leases q1) \<ge> maxRunningJobs q1 \<or> waitingQueue q1 = []")
    case True
    then show ?thesis
      using ok by (auto simp: leaseNextJob_def getActiveLeaseCount_def q1_def[symmetric] Let_def)
  next
    case False
    then obtain jid rest where w: "waitingQueue q1 = jid # rest"
      by (cases "waitingQueue q1") auto
    from waiting_queued[OF ok, of jid] w obtain j where
      j: "map_get (jobs q1) jid = Some j" "state j = QUEUED" "map_get (leases q1) jid = None"
      by auto
    note facts = queue_ok_slot[OF ok, of jid] j False w ok
    show ?thesis
      by (rule queue_ok_frame[OF ok, of jid])
        (use facts in \<open>auto simp: leaseNextJob_def getActiveLeaseCount_def Let_def
          q1_def[symmetric] queue_ok_defs slot_ok_Some length_map_set\<close>)
  qed
qed

lemma heartbeat_ok: "queue_ok q \<Longrightarrow> queue_ok (fst (heartbeat q jid tok ext now))"
proof (cases "map_get (leases q) jid")
  case (Some l)
  assume ok: "queue_ok q"
  from leased_running[OF ok Some] obtain j where
    j: "map_get (jobs q) jid = Some j" "state j = RUNNING" "jid \<notin> set (waitingQueue q)" .
  note facts = queue_ok_slot[OF ok, of jid] j Some ok
  show ?thesis
    by (rule queue_ok_frame[OF ok, of jid])
      (use facts in \<open>auto simp: heartbeat_def Let_def queue_ok_defs slot_ok_Some length_map_set\<close>)
qed (simp add: heartbeat_def)

lemma complete_ok: "queue_ok q \<Longrightarrow> queue_ok (fst (completeJob q jid tok res now))"
proof (cases "map_get (leases q) jid")
  case (Some l)
  assume ok: "queue_ok q"
  from leased_running[OF ok Some] obtain j where
    j: "map_get (jobs q) jid = Some j" "state j = RUNNING" "jid \<notin> set (waitingQueue q)" .
  note facts = queue_ok_slot[OF ok, of jid] j Some ok length_map_delete_le[of "leases q" jid]
  show ?thesis
    by (rule queue_ok_frame[OF ok, of jid])
      (use facts in \<open>auto simp: completeJob_def queue_ok_defs slot_ok_Some\<close>)
qed (simp add: completeJob_def)

lemma fail_ok: "queue_ok q \<Longrightarrow> queue_ok (fst (failJob q jid tok err now))"
proof (cases "map_get (leases q) jid")
  case (Some l)
  assume ok: "queue_ok q"
  from leased_running[OF ok Some] obtain j where
    j: "map_get (jobs q) jid = Some j" "state j = RUNNING" "jid \<notin> set (waitingQueue q)" .
  have "Suc (length (map_delete (leases q) jid)) = length (leases q)"
    using lease_count[OF _ Some] ok by (simp add: queue_ok_defs)
  note facts = this queue_ok_slot[OF ok, of jid] j Some ok
  show ?thesis
    by (rule queue_ok_frame[OF ok, of jid])
      (use facts in \<open>auto simp: failJob_def Let_def queue_ok_defs slot_ok_Some\<close>)
qed (simp add: failJob_def)

lemma cancel_ok: "queue_ok q \<Longrightarrow> queue_ok (fst (cancelJob q jid reason now))"
proof (cases "map_get (jobs q) jid")
  case (Some j)
  assume ok: "queue_ok q"
  note facts = queue_ok_slot[OF ok, of jid] Some ok
  show ?thesis
  proof (rule queue_ok_frame[OF ok, of jid])
    have "length (filter (\<lambda>i. i \<noteq> jid) (waitingQueue q)) + length (map_delete (leases q) jid)
        \<le> length (waitingQueue q) + length (leases q)"
      by (rule add_mono) (auto intro: length_map_delete_le)
    moreover have "length (map_delete (leases q) jid) \<le> length (leases q)"
      by (rule length_map_delete_le)
    ultimately show "bounds_ok (fst (cancelJob q jid reason now))"
      using ok Some by (auto simp: cancelJob_def Let_def queue_ok_def bounds_ok_def
          simp del: map_delete_absent)
  qed (use facts in \<open>auto simp: cancelJob_def Let_def queue_ok_defs slot_ok_Some terminal_iff\<close>)
qed (simp add: cancelJob_def)

lemma stats_ok: "queue_ok q \<Longrightarrow> queue_ok (fst (getStats q now))"
  by (simp add: getStats_def Let_def reclaim_ok)

section \<open>The queue as a machine\<close>

text \<open>
  One step is one call of an operation, by any client, with any arguments; the
  identifier of a new job is fresh.
\<close>

inductive queue_step :: "('p, 'r) queue \<Rightarrow> ('p, 'r) queue \<Rightarrow> bool" where
  step_enqueue: "fresh_id q jd uuid \<Longrightarrow> enqueue q jd uuid now = Inr (q', j, dup) \<Longrightarrow> queue_step q q'"
| step_lease: "queue_step q (fst (leaseNextJob q wid d rnd now))"
| step_heartbeat: "queue_step q (fst (heartbeat q jid tok ext now))"
| step_complete: "queue_step q (fst (completeJob q jid tok res now))"
| step_fail: "queue_step q (fst (failJob q jid tok err now))"
| step_cancel: "queue_step q (fst (cancelJob q jid reason now))"
| step_stats: "queue_step q (fst (getStats q now))"

inductive queue_reach :: "('p, 'r) queue \<Rightarrow> bool" where
  reach_new: "queue_reach (new_queue opts)"
| reach_step: "queue_reach q \<Longrightarrow> queue_step q q' \<Longrightarrow> queue_reach q'"

lemma queue_step_ok: "queue_step q q' \<Longrightarrow> queue_ok q \<Longrightarrow> queue_ok q'"
  by (induction rule: queue_step.induct)
    (blast intro: enqueue_ok lease_ok heartbeat_ok complete_ok fail_ok cancel_ok stats_ok)+

lemma queue_reach_ok: "queue_reach q \<Longrightarrow> queue_ok q"
  by (induction rule: queue_reach.induct) (auto intro: new_queue_ok queue_step_ok)

section \<open>What a step does to a job\<close>

text \<open>
  The fields no operation writes, and the step a job makes: its state moves along the
  machine of \<open>types.js\<close>, and a finished job is left as it is.
\<close>

definition same_job :: "('p, 'r) job \<Rightarrow> ('p, 'r) job \<Rightarrow> bool" where
  "same_job j j' \<longleftrightarrow> jobId j' = jobId j \<and> idempotencyKey j' = idempotencyKey j \<and>
     principalId j' = principalId j \<and> createdAt j' = createdAt j \<and>
     maxRetries j' = maxRetries j \<and> payload j' = payload j \<and> attempts j \<le> attempts j'"

definition job_moves :: "('p, 'r) job \<Rightarrow> ('p, 'r) job \<Rightarrow> bool" where
  "job_moves j j' \<longleftrightarrow> same_job j j' \<and> isValidTransition (state j) (state j') \<and>
     (terminal (state j) \<longrightarrow> j' = j)"

definition moves_at :: "('p, 'r) queue \<Rightarrow> ('p, 'r) queue \<Rightarrow> string \<Rightarrow> bool" where
  "moves_at q q' jid \<longleftrightarrow>
     (\<forall>j. map_get (jobs q) jid = Some j \<longrightarrow>
        (\<exists>j'. map_get (jobs q') jid = Some j' \<and> job_moves j j'))"

lemma same_job_refl [simp]: "same_job j j"
  by (simp add: same_job_def)

lemma job_moves_refl [simp]: "job_moves j j"
  by (simp add: job_moves_def)

lemma moves_at_refl [simp]: "moves_at q q jid"
  by (simp add: moves_at_def)

lemma moves_at_same: "map_get (jobs q') jid = map_get (jobs q) jid \<Longrightarrow> moves_at q q' jid"
  by (simp add: moves_at_def)

text \<open>A reclaim pass moves running jobs only, and never starts one.\<close>

lemma reclaim_lease_job:
  assumes "map_get (jobs q) jid = Some j"
  shows "\<exists>j'. map_get (jobs (reclaim_lease now q e)) jid = Some j' \<and> same_job j j' \<and>
    attempts j' = attempts j \<and> (state j \<noteq> RUNNING \<longrightarrow> j' = j)"
  using assms by (cases e)
    (auto simp: reclaim_lease_def Let_def same_job_def split: option.splits)

lemma reclaim_job:
  fixes q :: "('a, 'b) queue"
  assumes "map_get (jobs q) jid = Some j"
  shows "\<exists>j'. map_get (jobs (reclaimStaleLeases now q)) jid = Some j' \<and> same_job j j' \<and>
    attempts j' = attempts j \<and> (state j \<noteq> RUNNING \<longrightarrow> j' = j)"
  unfolding reclaimStaleLeases_def
proof (rule foldl_invariant)
  show "\<exists>j'. map_get (jobs q) jid = Some j' \<and> same_job j j' \<and>
      attempts j' = attempts j \<and> (state j \<noteq> RUNNING \<longrightarrow> j' = j)"
    using assms by simp
  fix s :: "('a, 'b) queue" and e
  assume "\<exists>j'. map_get (jobs s) jid = Some j' \<and> same_job j j' \<and>
      attempts j' = attempts j \<and> (state j \<noteq> RUNNING \<longrightarrow> j' = j)"
  then obtain j1 where j1: "map_get (jobs s) jid = Some j1" "same_job j j1"
    "attempts j1 = attempts j" "state j \<noteq> RUNNING \<longrightarrow> j1 = j" by blast
  from reclaim_lease_job[OF j1(1), of now e] obtain j2 where
    "map_get (jobs (reclaim_lease now s e)) jid = Some j2" "same_job j1 j2"
    "attempts j2 = attempts j1" "state j1 \<noteq> RUNNING \<longrightarrow> j2 = j1" by blast
  with j1 show "\<exists>j'. map_get (jobs (reclaim_lease now s e)) jid = Some j' \<and> same_job j j' \<and>
      attempts j' = attempts j \<and> (state j \<noteq> RUNNING \<longrightarrow> j' = j)"
    by (auto simp: same_job_def)
qed

lemma reclaim_moves: "moves_at q (reclaimStaleLeases now q) jid"
  unfolding moves_at_def
proof (intro allI impI)
  fix j assume "map_get (jobs q) jid = Some j"
  from reclaim_job[OF this, of now] obtain j' where
    "map_get (jobs (reclaimStaleLeases now q)) jid = Some j'" "same_job j j'"
    "state j \<noteq> RUNNING \<longrightarrow> j' = j" by blast
  moreover from this have "job_moves j j'"
    by (cases "state j = RUNNING") (auto simp: job_moves_def transition_running terminal_iff)
  ultimately show "\<exists>j'. map_get (jobs (reclaimStaleLeases now q)) jid = Some j' \<and> job_moves j j'"
    by blast
qed

lemma enqueue_moves:
  assumes "fresh_id q jd uuid" and "enqueue q jd uuid now = Inr (q', j, dup)"
  shows "moves_at q q' jid"
  using assms(2) by (cases rule: enqueue_cases) (use assms(1) in \<open>auto simp: moves_at_def\<close>)

lemma lease_moves: "moves_at q (fst (leaseNextJob q wid d rnd now)) jid"
proof -
  define q1 where "q1 = reclaimStaleLeases now q"
  show ?thesis
    unfolding moves_at_def
  proof (intro allI impI)
    fix j assume "map_get (jobs q) jid = Some j"
    from reclaim_job[OF this, of now] obtain j1 where
      j1: "map_get (jobs q1) jid = Some j1" "same_job j j1" "state j \<noteq> RUNNING \<longrightarrow> j1 = j"
      unfolding q1_def by blast
    then have "\<exists>j'. map_get (jobs (fst (leaseNextJob q wid d rnd now))) jid = Some j' \<and>
        same_job j1 j' \<and> (j' = j1 \<or> state j1 = QUEUED \<and> state j' = RUNNING)"
      by (auto simp: leaseNextJob_def q1_def[symmetric] Let_def same_job_def
          split: option.splits list.splits)
    then obtain j' where
      "map_get (jobs (fst (leaseNextJob q wid d rnd now))) jid = Some j'" "same_job j1 j'"
      "j' = j1 \<or> state j1 = QUEUED \<and> state j' = RUNNING" by blast
    moreover from this j1 have "job_moves j j'"
      by (cases "state j = RUNNING")
        (auto simp: job_moves_def same_job_def transition_running transition_queued terminal_iff)
    ultimately show "\<exists>j'. map_get (jobs (fst (leaseNextJob q wid d rnd now))) jid = Some j' \<and>
        job_moves j j'" by blast
  qed
qed

lemma heartbeat_moves: "moves_at q (fst (heartbeat q i tok ext now)) jid \<or>
    (\<exists>j. map_get (jobs q) i = Some j \<and> terminal (state j) \<and> map_get (leases q) i \<noteq> None)"
  by (auto simp: heartbeat_def Let_def moves_at_def job_moves_def same_job_def
      split: option.splits)

lemma fail_moves:
  assumes "queue_ok q" shows "moves_at q (fst (failJob q i tok err now)) jid"
proof (cases "map_get (leases q) i")
  case (Some l)
  from leased_running[OF assms Some] obtain j where
    "map_get (jobs q) i = Some j" "state j = RUNNING" .
  then show ?thesis
    using Some by (auto simp: failJob_def Let_def moves_at_def job_moves_def same_job_def
        transition_running terminal_iff)
qed (simp add: failJob_def)

lemma complete_moves:
  assumes "queue_ok q" shows "moves_at q (fst (completeJob q i tok res now)) jid"
proof (cases "map_get (leases q) i")
  case (Some l)
  from leased_running[OF assms Some] obtain j where
    "map_get (jobs q) i = Some j" "state j = RUNNING" .
  then show ?thesis
    using Some by (auto simp: completeJob_def moves_at_def job_moves_def same_job_def
        transition_running terminal_iff)
qed (simp add: completeJob_def)

lemma cancel_moves: "moves_at q (fst (cancelJob q i reason now)) jid"
proof -
  have "s \<noteq> QUEUED \<Longrightarrow> s \<noteq> RUNNING \<Longrightarrow> terminal s" for s by (simp add: terminal_iff)
  then show ?thesis
    by (auto simp: cancelJob_def Let_def moves_at_def job_moves_def same_job_def terminal_iff
        transition_running transition_queued split: option.splits)
qed

lemma queue_step_moves:
  assumes "queue_step q q'" and ok: "queue_ok q"
  shows "moves_at q q' jid"
  using assms(1)
proof cases
  case (step_heartbeat i tok ext now)
  have "map_get (leases q) i \<noteq> None \<Longrightarrow> map_get (jobs q) i = Some j \<Longrightarrow> state j = RUNNING" for j
    using leased_running[OF ok, of i] by force
  then show ?thesis
    using heartbeat_moves[of q i tok ext now jid] step_heartbeat by (auto simp: terminal_iff)
qed (auto intro: enqueue_moves lease_moves complete_moves[OF ok] fail_moves[OF ok] cancel_moves
    simp: getStats_def Let_def reclaim_moves)

end
