(* ===== verification/Redis_Queue_Props.thy ===== *)
theory Redis_Queue_Props
  imports Redis_Queue Job_Queue_Props
begin

text \<open>
  The Redis adapter refines the in-memory queue: run without interruption on any client that
  keeps the contract of \<open>redis_commands\<close>, its operations give the answers of the in-memory
  operations wherever no lease is stale, a slot is free and a failing worker shows its token.
\<close>

section \<open>Keys\<close>

lemma key_simps [simp]:
  "kJob ad i = kJob ad j \<longleftrightarrow> i = j" "kLease ad i = kLease ad j \<longleftrightarrow> i = j" "kIdemp ad i = kIdemp ad j \<longleftrightarrow> i = j"
  "kJob ad i \<noteq> kLease ad j" "kLease ad j \<noteq> kJob ad i" "kJob ad i \<noteq> kIdemp ad j" "kIdemp ad j \<noteq> kJob ad i"
  "kLease ad i \<noteq> kIdemp ad j" "kIdemp ad j \<noteq> kLease ad i" "kJob ad i \<noteq> kWaiting ad" "kWaiting ad \<noteq> kJob ad i"
  "kLease ad i \<noteq> kWaiting ad" "kWaiting ad \<noteq> kLease ad i" "kIdemp ad i \<noteq> kWaiting ad" "kWaiting ad \<noteq> kIdemp ad i"
  by (simp_all add: kJob_def kLease_def kIdemp_def kWaiting_def)

section \<open>The relation\<close>

text \<open>The store holds the tables of the queue, each under its own keys; the list of waiting jobs
  is reversed, because jobs are pushed on the left and taken from the right.\<close>

definition stored_as ::
  "('s \<Rightarrow> string \<Rightarrow> ('p, 'r) stored option) \<Rightarrow> ('s \<Rightarrow> string \<Rightarrow> string list) \<Rightarrow> adapter \<Rightarrow> 's \<Rightarrow>
   ('p, 'r) queue \<Rightarrow> bool" where
  "stored_as get items ad s q \<longleftrightarrow>
     (\<forall>i. get s (kJob ad i) = map_option Job_json (map_get (jobs q) i)) \<and>
     (\<forall>i. get s (kLease ad i) = map_option Lease_json (map_get (leases q) i)) \<and>
     (\<forall>k. get s (kIdemp ad k) = map_option Id_text (map_get (idempotencyMap q) k)) \<and>
     items s (kWaiting ad) = rev (waitingQueue q) \<and>
     map_get (jobs q) [] = None \<and> [] \<notin> set (waitingQueue q) \<and> (\<forall>k. map_get (idempotencyMap q) k \<noteq> Some []) \<and>
     ad_maxQueueDepth ad = maxQueueDepth q \<and> ad_maxRetries ad = q_maxRetries q \<and>
     ad_defaultLeaseDurationMs ad = defaultLeaseDurationMs q"

section \<open>Calls\<close>

datatype ('p, 'r) call =
  Enqueue "'p job_data" string
| Lease_next string "int option" string
| Complete string string 'r
| Fail string string "job_error option"
| Get_job string

datatype ('p, 'r) answer =
  Rejected
| Accepted "('p, 'r) job" bool
| Leased "(('p, 'r) job \<times> string \<times> int) option"
| Flag bool
| Job_found "('p, 'r) job option"

definition memory_call ::
  "('p, 'r) queue \<Rightarrow> int \<Rightarrow> ('p, 'r) call \<Rightarrow> ('p, 'r) queue \<times> ('p, 'r) answer" where
  "memory_call q now c =
     (case c of
        Enqueue jd uuid \<Rightarrow>
          (case Job_Queue.enqueue q jd uuid now of
             Inl e \<Rightarrow> (q, Rejected) | Inr (q', j, dup) \<Rightarrow> (q', Accepted j dup))
      | Lease_next wid dur rnd \<Rightarrow>
          (case Job_Queue.leaseNextJob q wid dur rnd now of (q', r) \<Rightarrow> (q', Leased r))
      | Complete jid tok res \<Rightarrow>
          (case Job_Queue.completeJob q jid tok res now of (q', b) \<Rightarrow> (q', Flag b))
      | Fail jid tok err \<Rightarrow>
          (case Job_Queue.failJob q jid tok err now of (q', b) \<Rightarrow> (q', Flag b))
      | Get_job jid \<Rightarrow> (q, Job_found (Job_Queue.getJob q jid)))"

definition to_answer :: "('a \<Rightarrow> ('p, 'r) answer) \<Rightarrow> (adapter_error, 'a) outcome \<times> queue_event list \<Rightarrow> ('p, 'r) answer" where
  "to_answer f r = (case fst r of Inl e \<Rightarrow> Rejected | Inr a \<Rightarrow> f a)"

definition redis_call ::
  "(('p, 'r) stored command \<Rightarrow> 's \<Rightarrow> 's \<times> ('p, 'r) stored reply) \<Rightarrow> adapter \<Rightarrow> bool \<Rightarrow> 's \<Rightarrow> int \<Rightarrow>
   ('p, 'r) call \<Rightarrow> 's \<times> ('p, 'r) answer" where
  "redis_call exec ad async s now c =
     (case c of
        Enqueue jd uuid \<Rightarrow>
          map_prod id (to_answer (\<lambda>(j, dup). Accepted j dup)) (run exec (enqueue ad async jd uuid now) s)
      | Lease_next wid dur rnd \<Rightarrow>
          map_prod id (to_answer Leased) (run exec (leaseNextJob ad async wid dur rnd now) s)
      | Complete jid tok res \<Rightarrow>
          map_prod id (to_answer Flag) (run exec (completeJob ad jid tok res now) s)
      | Fail jid tok err \<Rightarrow>
          map_prod id (to_answer Flag) (run exec (failJob ad jid tok err now) s)
      | Get_job jid \<Rightarrow> map_prod id (to_answer Job_found) (run exec (getJob ad jid) s))"

text \<open>Where the two queues are meant to agree.\<close>

definition agreed :: "('p, 'r) queue \<Rightarrow> int \<Rightarrow> ('p, 'r) call \<Rightarrow> bool" where
  "agreed q now c =
     (case c of
        Lease_next wid dur rnd \<Rightarrow>
          (\<forall>(i, l) \<in> set (leases q). now \<le> expiresAt l) \<and> length (leases q) < maxRunningJobs q
      | Fail jid tok err \<Rightarrow> (case map_get (leases q) jid of None \<Rightarrow> False | Some l \<Rightarrow> token l = tok)
      | _ \<Rightarrow> True)"

lemma nothing_stale:
  assumes "\<forall>(i, l) \<in> set (leases q). now \<le> expiresAt l" shows "reclaimStaleLeases now q = q"
proof -
  have "foldl (reclaim_lease now) q ls = q" if "\<forall>(i, l) \<in> set ls. now \<le> expiresAt l" for ls
    using that by (induction ls) (auto simp: reclaim_lease_def)
  with assms show ?thesis by (simp add: reclaimStaleLeases_def)
qed

lemma new_id_nonempty [simp]: "new_id jd uuid \<noteq> []"
  by (auto simp: new_id_def split: option.splits)

lemma record_key_waiting:
  "record_key key jid (q\<lparr>waitingQueue := w\<rparr>) = (record_key key jid q)\<lparr>waitingQueue := w\<rparr>"
  "waitingQueue (record_key key jid q) = waitingQueue q"
  by (simp_all add: record_key_def)

lemma put_job_drop_lease: "put_job i j (drop_lease k q) = drop_lease k (put_job i j q)"
  by (simp add: put_job_def drop_lease_def)

text \<open>A sequence of calls, each with the time at which it is made.\<close>

primrec redis_calls ::
  "(('p, 'r) stored command \<Rightarrow> 's \<Rightarrow> 's \<times> ('p, 'r) stored reply) \<Rightarrow> adapter \<Rightarrow> bool \<Rightarrow> 's \<Rightarrow>
   (int \<times> ('p, 'r) call) list \<Rightarrow> 's \<times> ('p, 'r) answer list" where
  "redis_calls exec ad async s [] = (s, [])"
| "redis_calls exec ad async s (c # cs) =
     (let (s1, a) = redis_call exec ad async s (fst c) (snd c);
          (s2, as) = redis_calls exec ad async s1 cs
      in (s2, a # as))"

primrec memory_calls ::
  "('p, 'r) queue \<Rightarrow> (int \<times> ('p, 'r) call) list \<Rightarrow> ('p, 'r) queue \<times> ('p, 'r) answer list" where
  "memory_calls q [] = (q, [])"
| "memory_calls q (c # cs) =
     (let (q1, a) = memory_call q (fst c) (snd c); (q2, as) = memory_calls q1 cs in (q2, a # as))"

primrec all_agreed :: "('p, 'r) queue \<Rightarrow> (int \<times> ('p, 'r) call) list \<Rightarrow> bool" where
  "all_agreed q [] \<longleftrightarrow> True"
| "all_agreed q (c # cs) \<longleftrightarrow>
     agreed q (fst c) (snd c) \<and> all_agreed (fst (memory_call q (fst c) (snd c))) cs"

section \<open>Each operation\<close>

text \<open>A client whose stored texts are those of the adapter.\<close>

locale queue_client = redis_commands exec get items
  for exec :: "('p, 'r) stored command \<Rightarrow> 's \<Rightarrow> 's \<times> ('p, 'r) stored reply"
    and get :: "'s \<Rightarrow> string \<Rightarrow> ('p, 'r) stored option"
    and items :: "'s \<Rightarrow> string \<Rightarrow> string list"
begin

abbreviation holds :: "adapter \<Rightarrow> 's \<Rightarrow> ('p, 'r) queue \<Rightarrow> bool" where
  "holds \<equiv> stored_as get items"

lemma run_get_job:
  "holds ad s q \<Longrightarrow> run exec (get_job ad jid k) s = run exec (k (map_get (jobs q) jid)) s"
  by (cases "map_get (jobs q) jid") (auto simp: get_job_def exec_GET stored_as_def)

lemma run_get_lease:
  "holds ad s q \<Longrightarrow> run exec (get_lease ad jid k) s = run exec (k (map_get (leases q) jid)) s"
  by (cases "map_get (leases q) jid") (auto simp: get_lease_def exec_GET stored_as_def)

lemma run_find_existing:
  assumes "holds ad s q"
  shows "run exec (find_existing ad key k) s = run exec (k (existing_job q key)) s"
proof (cases "truthy_str key")
  case True
  then obtain t where t: "key = Some t" "t \<noteq> []" by (auto split: option.splits)
  show ?thesis
  proof (cases "map_get (idempotencyMap q) t")
    case None
    with t assms show ?thesis by (simp add: find_existing_def existing_job_def exec_GET stored_as_def)
  next
    case (Some i)
    then have "i \<noteq> []" "get s (kIdemp ad t) = Some (Id_text i)" using assms by (auto simp: stored_as_def)
    with t Some run_get_job[OF assms] show ?thesis
      by (simp add: find_existing_def existing_job_def exec_GET)
  qed
next
  case False
  then show ?thesis by (auto simp: find_existing_def existing_job_def split: option.splits)
qed

text \<open>A command changes the store as the corresponding table update changes the queue.\<close>

lemma run_put_job:
  assumes "holds ad s q" and "jid \<noteq> []"
  shows "\<exists>s'. run exec (put_job_json ad jid j k) s = run exec k s' \<and> holds ad s' (put_job jid j q)"
  using assms by (intro exI[of _ "fst (exec (SET (kJob ad jid) (Job_json j) None) s)"])
    (simp add: put_job_json_def stored_as_def effects)

lemma holds_SET_lease:
  "holds ad s q \<Longrightarrow> holds ad (fst (exec (SET (kLease ad jid) (Lease_json l) ex) s))
     (q\<lparr>leases := map_set (leases q) jid l\<rparr>)"
  by (simp add: stored_as_def effects)

lemma holds_DEL_lease:
  "holds ad s q \<Longrightarrow> holds ad (fst (exec (DEL (kLease ad jid)) s)) (drop_lease jid q)"
  by (simp add: stored_as_def effects)

lemma holds_SET_idemp:
  "holds ad s q \<Longrightarrow> jid \<noteq> [] \<Longrightarrow> holds ad (fst (exec (SET (kIdemp ad k) (Id_text jid) ex) s))
     (q\<lparr>idempotencyMap := map_set (idempotencyMap q) k jid\<rparr>)"
  by (simp add: stored_as_def effects)

lemma holds_push:
  "holds ad s q \<Longrightarrow> jid \<noteq> [] \<Longrightarrow> holds ad (fst (exec (LPUSH (kWaiting ad) jid) s))
     (q\<lparr>waitingQueue := waitingQueue q @ [jid]\<rparr>)"
  "holds ad s q \<Longrightarrow> jid \<noteq> [] \<Longrightarrow> holds ad (fst (exec (RPUSH (kWaiting ad) jid) s))
     (q\<lparr>waitingQueue := jid # waitingQueue q\<rparr>)"
  by (simp_all add: stored_as_def effects)

lemma holds_pop:
  assumes "holds ad s q" and "waitingQueue q = jid # rest"
  shows "snd (exec (RPOP (kWaiting ad)) s) = Item jid"
    and "holds ad (fst (exec (RPOP (kWaiting ad)) s)) (q\<lparr>waitingQueue := rest\<rparr>)"
proof -
  have i: "items s (kWaiting ad) = rev rest @ [jid]" using assms by (simp add: stored_as_def)
  then show "snd (exec (RPOP (kWaiting ad)) s) = Item jid" by (simp add: RPOP_reply)
  show "holds ad (fst (exec (RPOP (kWaiting ad)) s)) (q\<lparr>waitingQueue := rest\<rparr>)"
    using assms i by (simp add: stored_as_def effects)
qed

lemma holds_job: "holds ad s q \<Longrightarrow> map_get (jobs q) jid = Some j \<Longrightarrow> jid \<noteq> []"
  by (auto simp: stored_as_def)

lemma holds_emit [simp]: "holds ad s (emit ev q) \<longleftrightarrow> holds ad s q"
  by (simp add: stored_as_def)

definition follows :: "adapter \<Rightarrow> bool \<Rightarrow> 's \<Rightarrow> ('p, 'r) queue \<Rightarrow> int \<Rightarrow> ('p, 'r) call \<Rightarrow> bool" where
  "follows ad async s q now c \<longleftrightarrow>
     (\<exists>s'. redis_call exec ad async s now c = (s', snd (memory_call q now c)) \<and>
        holds ad s' (fst (memory_call q now c)))"

lemma new_jobs_agree: "holds ad s q \<Longrightarrow> adapter_job ad jd uuid now = new_job q jd uuid now"
  by (simp add: adapter_job_def new_job_def stored_as_def)

lemma run_record_idemp:
  assumes "holds ad s q" and "jid \<noteq> []"
  shows "\<exists>s'. run exec (record_idemp ad async key jid k) s = run exec k s' \<and> holds ad s' (record_key key jid q)"
  using assms holds_SET_idemp[OF assms]
  by (auto simp: record_idemp_def record_key_def split: option.splits)

lemma enqueue_follows:
  assumes h: "holds ad s q" shows "follows ad async s q now (Enqueue jd uuid)"
proof (cases "existing_job q (request_key jd)")
  case (Some j)
  with h show ?thesis
    by (simp add: follows_def redis_call_def memory_call_def enqueue_def Job_Queue.enqueue_def
        run_find_existing to_answer_def)
next
  case None
  have e: "run exec (enqueue ad async jd uuid now) s = run exec (enqueue_new ad async jd uuid now) s"
    using h None by (simp add: enqueue_def run_find_existing)
  have n: "exec (LLEN (kWaiting ad)) s = (s, Count (length (waitingQueue q)))"
    "ad_maxQueueDepth ad = maxQueueDepth q"
    using h by (simp_all add: exec_LLEN stored_as_def)
  show ?thesis
  proof (cases "maxQueueDepth q \<le> length (waitingQueue q)")
    case True
    with h e n None show ?thesis
      by (simp add: follows_def redis_call_def memory_call_def enqueue_new_def Job_Queue.enqueue_def
          to_answer_def count_of_def)
  next
    case False
    let ?jid = "new_id jd uuid" and ?j = "new_job q jd uuid now" and ?key = "request_key jd"
    let ?done = "Done (return (?j, False), [Ev_enqueued ?jid])"
    have "run exec (enqueue_new ad async jd uuid now) s =
        run exec (put_job_json ad ?jid ?j (Do (LPUSH (kWaiting ad) ?jid)
          (\<lambda>_. record_idemp ad async ?key ?jid ?done))) s"
      using False n new_jobs_agree[OF h] by (simp add: enqueue_new_def count_of_def Let_def)
    moreover obtain s1 where s1: "run exec (put_job_json ad ?jid ?j (Do (LPUSH (kWaiting ad) ?jid)
          (\<lambda>_. record_idemp ad async ?key ?jid ?done))) s = run exec (Do (LPUSH (kWaiting ad) ?jid)
          (\<lambda>_. record_idemp ad async ?key ?jid ?done)) s1" "holds ad s1 (put_job ?jid ?j q)"
      using run_put_job[OF h new_id_nonempty] by blast
    moreover
    let ?s2 = "fst (exec (LPUSH (kWaiting ad) ?jid) s1)"
    obtain s3 where s3: "run exec (record_idemp ad async ?key ?jid ?done) ?s2 = run exec ?done s3"
      "holds ad s3 (record_key ?key ?jid ((put_job ?jid ?j q)
         \<lparr>waitingQueue := waitingQueue (put_job ?jid ?j q) @ [?jid]\<rparr>))"
      using run_record_idemp[OF holds_push(1)[OF s1(2)]] by (metis new_id_nonempty)
    ultimately have "run exec (enqueue ad async jd uuid now) s = (s3, (return (?j, False), [Ev_enqueued ?jid]))"
      using e s1(1) s3(1) by simp
    with s3(2) None False show ?thesis
      by (simp add: follows_def redis_call_def memory_call_def Job_Queue.enqueue_def to_answer_def
          Let_def record_key_waiting)
  qed
qed

lemma lease_follows:
  assumes h: "holds ad s q" and a: "agreed q now (Lease_next wid dur rnd)"
  shows "follows ad async s q now (Lease_next wid dur rnd)"
proof -
  have re: "reclaimStaleLeases now q = q" and slot: "\<not> maxRunningJobs q \<le> getActiveLeaseCount q"
    using a nothing_stale by (auto simp: agreed_def getActiveLeaseCount_def)
  show ?thesis
  proof (cases "waitingQueue q")
    case Nil
    then have "exec (RPOP (kWaiting ad)) s = (s, Null)" using h exec_RPOP_empty by (simp add: stored_as_def)
    with Nil h re slot show ?thesis
      by (simp add: follows_def redis_call_def memory_call_def leaseNextJob_def
          Job_Queue.leaseNextJob_def to_answer_def)
  next
    case (Cons jid rest)
    note pop = holds_pop[OF h Cons]
    let ?q1 = "q\<lparr>waitingQueue := rest\<rparr>" and ?s1 = "fst (exec (RPOP (kWaiting ad)) s)"
    have "jid \<noteq> []" using h Cons by (auto simp: stored_as_def)
    then have r: "run exec (leaseNextJob ad async wid dur rnd now) s =
        run exec (case map_get (jobs q) jid of
             None \<Rightarrow> Done (return None, [])
           | Some j \<Rightarrow>
               if state j \<noteq> QUEUED then Done (return None, [])
               else grant ad async wid (js_or_num dur (ad_defaultLeaseDurationMs ad)) rnd now jid j) ?s1"
      using pop(1) run_get_job[OF pop(2)] by (simp add: leaseNextJob_def claim_def)
    show ?thesis
    proof (cases "\<exists>j. map_get (jobs q) jid = Some j \<and> state j = QUEUED")
      case False
      with r pop(2) Cons re slot show ?thesis
        by (cases "map_get (jobs q) jid")
          (auto simp: follows_def redis_call_def memory_call_def Job_Queue.leaseNextJob_def to_answer_def Let_def)
    next
      case True
      then obtain j where j: "map_get (jobs q) jid = Some j" "state j = QUEUED" by blast
      let ?d = "js_or_num dur (defaultLeaseDurationMs q)"
      let ?j = "j\<lparr>state := RUNNING, attempts := attempts j + 1, updatedAt := now\<rparr>"
      let ?l = "\<lparr>token = rnd, workerId = wid, expiresAt = now + ?d, leaseDurationMs = ?d\<rparr>"
      let ?ex = "if async then Some (- (- ?d div 1000)) else None"
      let ?done = "Done (return (Some (?j, rnd, now + ?d)), [Ev_leased jid wid rnd (now + ?d)])"
      have d: "ad_defaultLeaseDurationMs ad = defaultLeaseDurationMs q" using h by (simp add: stored_as_def)
      obtain s2 where s2: "run exec (put_job_json ad jid ?j
            (Do (SET (kLease ad jid) (Lease_json ?l) ?ex) (\<lambda>_. ?done))) ?s1 =
          run exec (Do (SET (kLease ad jid) (Lease_json ?l) ?ex) (\<lambda>_. ?done)) s2"
        "holds ad s2 (put_job jid ?j ?q1)"
        using run_put_job[OF pop(2) \<open>jid \<noteq> []\<close>] by blast
      let ?s3 = "fst (exec (SET (kLease ad jid) (Lease_json ?l) ?ex) s2)"
      have "run exec (leaseNextJob ad async wid dur rnd now) s =
          (?s3, (return (Some (?j, rnd, now + ?d)), [Ev_leased jid wid rnd (now + ?d)]))"
        using r j s2(1) by (simp add: grant_def d Let_def)
      with holds_SET_lease[OF s2(2), of jid ?l ?ex] j Cons re slot show ?thesis
        by (simp add: follows_def redis_call_def memory_call_def Job_Queue.leaseNextJob_def to_answer_def Let_def)
    qed
  qed
qed

lemma complete_follows:
  assumes h: "holds ad s q" shows "follows ad async s q now (Complete jid tok res)"
proof (cases "\<exists>l j. map_get (leases q) jid = Some l \<and> token l = tok \<and> map_get (jobs q) jid = Some j \<and>
    isValidTransition (state j) COMPLETED")
  case True
  then obtain l j where lj: "map_get (leases q) jid = Some l" "token l = tok" "map_get (jobs q) jid = Some j"
    "isValidTransition (state j) COMPLETED" by blast
  let ?j = "j\<lparr>state := COMPLETED, result := Some res, updatedAt := now\<rparr>"
  obtain s1 where s1: "run exec (put_job_json ad jid ?j
        (Do (DEL (kLease ad jid)) (\<lambda>_. Done (return True, [Ev_completed jid])))) s =
      run exec (Do (DEL (kLease ad jid)) (\<lambda>_. Done (return True, [Ev_completed jid]))) s1"
    "holds ad s1 (put_job jid ?j q)"
    using run_put_job[OF h holds_job[OF h lj(3)]] by blast
  with lj holds_DEL_lease[OF s1(2), of jid] show ?thesis
    by (simp add: follows_def redis_call_def memory_call_def completeJob_def Job_Queue.completeJob_def
        run_get_lease[OF h] run_get_job[OF h] to_answer_def)
next
  case False
  with h show ?thesis
    by (cases "map_get (leases q) jid"; cases "map_get (jobs q) jid")
      (auto simp: follows_def redis_call_def memory_call_def completeJob_def Job_Queue.completeJob_def
        run_get_lease[OF h] run_get_job[OF h] to_answer_def)
qed

lemma fail_follows:
  assumes h: "holds ad s q" and a: "agreed q now (Fail jid tok err)"
  shows "follows ad async s q now (Fail jid tok err)"
proof -
  obtain l where l: "map_get (leases q) jid = Some l" "token l = tok"
    using a by (auto simp: agreed_def split: option.splits)
  show ?thesis
  proof (cases "map_get (jobs q) jid")
    case None
    with l h show ?thesis
      by (simp add: follows_def redis_call_def memory_call_def failJob_def Job_Queue.failJob_def
          run_get_job[OF h] to_answer_def)
  next
    case (Some j)
    let ?s1 = "fst (exec (DEL (kLease ad jid)) s)"
    note h1 = holds_DEL_lease[OF h, of jid] and n = holds_job[OF h Some]
    show ?thesis
    proof (cases "attempts j < maxRetries j")
      case True
      let ?j = "j\<lparr>state := QUEUED, updatedAt := now\<rparr>"
      let ?push = "Do (RPUSH (kWaiting ad) jid) (\<lambda>_. Done (return True, [Ev_retried jid]))"
      obtain s2 where s2: "run exec (put_job_json ad jid ?j ?push) ?s1 = run exec ?push s2"
        "holds ad s2 (drop_lease jid (put_job jid ?j q))"
        using run_put_job[OF h1 n] unfolding put_job_drop_lease by blast
      from holds_push(2)[OF s2(2) n] s2(1) True l Some show ?thesis
        by (simp add: follows_def redis_call_def memory_call_def failJob_def Job_Queue.failJob_def
            run_get_job[OF h] to_answer_def Let_def)
    next
      case False
      let ?j = "j\<lparr>state := FAILED, error := err, updatedAt := now\<rparr>"
      let ?done = "Done (return True, [Ev_failed jid])"
      obtain s2 where "run exec (put_job_json ad jid ?j ?done) ?s1 = run exec ?done s2"
        "holds ad s2 (drop_lease jid (put_job jid ?j q))"
        using run_put_job[OF h1 n] unfolding put_job_drop_lease by blast
      with False l Some show ?thesis
        by (simp add: follows_def redis_call_def memory_call_def failJob_def Job_Queue.failJob_def
            run_get_job[OF h] to_answer_def)
    qed
  qed
qed

lemma get_follows: "holds ad s q \<Longrightarrow> follows ad async s q now (Get_job jid)"
  by (simp add: follows_def redis_call_def memory_call_def getJob_def Job_Queue.getJob_def
      run_get_job to_answer_def)

lemma call_follows: "holds ad s q \<Longrightarrow> agreed q now c \<Longrightarrow> follows ad async s q now c"
  by (cases c) (simp_all add: enqueue_follows lease_follows complete_follows fail_follows get_follows)

lemma calls_follow:
  assumes "holds ad s q" and "all_agreed q cs"
  shows "\<exists>s'. redis_calls exec ad async s cs = (s', snd (memory_calls q cs)) \<and>
    holds ad s' (fst (memory_calls q cs))"
  using assms
proof (induction cs arbitrary: s q)
  case (Cons c cs)
  let ?m = "memory_call q (fst c) (snd c)"
  from call_follows[OF Cons.prems(1), of "fst c" "snd c" async] Cons.prems(2) obtain s1 where
    s1: "redis_call exec ad async s (fst c) (snd c) = (s1, snd ?m)" "holds ad s1 (fst ?m)"
    by (auto simp: follows_def)
  with Cons.IH[OF s1(2)] Cons.prems(2) show ?case by (auto simp: Let_def split: prod.splits)
qed simp

end

section \<open>The adapter on the synchronous client\<close>

interpretation sync_queue: queue_client execCommand "\<lambda>s k. map_get (strings s) k" list_at
  by unfold_locales

text \<open>An empty queue with the adapter's settings; it has no limit on running jobs of its own.\<close>

definition queue_of :: "adapter \<Rightarrow> nat \<Rightarrow> ('p, 'r) queue" where
  "queue_of ad running =
     \<lparr>maxQueueDepth = ad_maxQueueDepth ad, maxRunningJobs = running,
      defaultLeaseDurationMs = ad_defaultLeaseDurationMs ad, q_maxRetries = ad_maxRetries ad,
      jobs = [], idempotencyMap = [], waitingQueue = [], leases = [], emitted = []\<rparr>"


definition demo_calls :: "(int \<times> (nat, nat) call) list" where
  "demo_calls =
     [(1, Enqueue \<lparr>jd_jobId = Some ''a'', jd_idempotencyKey = None, jd_principalId = None, jd_payload = 7\<rparr> ''x''),
      (2, Lease_next ''w'' None ''t''), (3, Fail ''a'' ''t'' None),
      (4, Lease_next ''w'' None ''u''), (5, Complete ''a'' ''u'' 9), (6, Get_job ''a'')]"

definition demo_adapter :: adapter where
  "demo_adapter = RedisQueueAdapter
     \<lparr>opt_prefix = None, opt_keyPrefix = None, ao_maxQueueDepth = None,
      ao_defaultLeaseDurationMs = None, ao_maxRetries = None\<rparr>"

lemma demo_agreed: "all_agreed (queue_of demo_adapter 1) demo_calls"
  by code_simp


end
