(* ===== verification/Redis_Races.thy ===== *)
theory Redis_Races
  imports Redis_Queue_Props
begin

text \<open>
  Several clients on one Redis server: the asynchronous operations of the adapter yield at every
  command. Taking a job is safe under every schedule; enqueueing is not, and reporting a failure
  needs no lease.
\<close>

section \<open>Stages of a claim\<close>

text \<open>A lease request is at one of these stages; from the second on it owns an identifier.\<close>

inductive lease_stage ::
  "adapter \<Rightarrow> string option \<Rightarrow> ('p, 'r, (('p, 'r) job \<times> string \<times> int) option) op_prog \<Rightarrow> bool" for ad where
  asking: "lease_stage ad None (leaseNextJob ad async wid d rnd now)"
| reading: "lease_stage ad (Some jid) (claim ad async wid duration rnd now jid)"
| granting: "jobId j = jid \<Longrightarrow> lease_stage ad (Some jid) (grant ad async wid duration rnd now jid j)"
| leasing: "jobId j = jid \<Longrightarrow> lease_stage ad (Some jid) (Do (SET (kLease ad jid) (Lease_json l) ex)
    (\<lambda>_. Done (return (Some (j, rnd, t)), evs)))"
| granted: "jobId j = jid \<Longrightarrow> lease_stage ad (Some jid) (Done (return (Some (j, rnd, t)), evs))"
| refused: "lease_stage ad own (Done (return None, evs))"
| failed: "lease_stage ad own (Done (throw e, evs))"

inductive_cases lease_stage_done: "lease_stage ad own (Done (return (Some (j, rnd, t)), evs))"

text \<open>Every entry of the waiting list is still there or owned by one request.\<close>

definition handed_out :: "string list \<Rightarrow> string list \<Rightarrow> string option list \<Rightarrow> bool" where
  "handed_out start waiting owns \<longleftrightarrow>
     (\<forall>x. count_list waiting x + count_list owns (Some x) \<le> count_list start x)"

lemma count_list_update:
  "i < length owns \<Longrightarrow> owns ! i = None \<Longrightarrow>
    count_list (owns[i := Some x]) (Some y) = count_list owns (Some y) + (if x = y then 1 else 0)"
  by (induction owns arbitrary: i) (auto split: nat.split)

lemma handed_out_take:
  "handed_out start (xs @ [x]) owns \<Longrightarrow> i < length owns \<Longrightarrow> owns ! i = None \<Longrightarrow> handed_out start xs (owns[i := Some x])"
  unfolding handed_out_def
proof (intro allI)
  fix y assume "\<forall>y. count_list (xs @ [x]) y + count_list owns (Some y) \<le> count_list start y"
    and "i < length owns" "owns ! i = None"
  then show "count_list xs y + count_list (owns[i := Some x]) (Some y) \<le> count_list start y"
    by (auto simp: count_list_update dest: spec[of _ y] split: if_splits)
qed

lemma count_owned:
  "length owns = length ps \<Longrightarrow> (\<And>i. i < length ps \<Longrightarrow> Q (ps ! i) \<Longrightarrow> owns ! i = y) \<Longrightarrow>
    length (filter Q ps) \<le> count_list owns y"
proof (induction owns ps rule: list_induct2)
  case (Cons x owns p ps)
  have "length (filter Q ps) \<le> count_list owns y" using Cons.prems[of "Suc _"] by (intro Cons.IH) simp
  with Cons.prems[of 0] show ?case by auto
qed simp

text \<open>The lease that a finished request got.\<close>

definition lease_of ::
  "('p, 'r, (('p, 'r) job \<times> string \<times> int) option) op_prog \<Rightarrow> (('p, 'r) job \<times> string \<times> int) option" where
  "lease_of p = (case p of Done (Inr l, evs) \<Rightarrow> l | _ \<Rightarrow> None)"

lemma lease_of_Some: "lease_of p = Some (j, r, t) \<Longrightarrow> \<exists>evs. p = Done (return (Some (j, r, t)), evs)"
  by (auto simp: lease_of_def split: prog.splits sum.splits)

definition holds_lease :: "string \<Rightarrow> ('p, 'r, (('p, 'r) job \<times> string \<times> int) option) op_prog \<Rightarrow> bool" where
  "holds_lease jid p \<longleftrightarrow> (case lease_of p of Some (j, r, t) \<Rightarrow> jobId j = jid | None \<Rightarrow> False)"

text \<open>How many requests got a lease on a job.\<close>

definition granted :: "string \<Rightarrow> ('p, 'r, (('p, 'r) job \<times> string \<times> int) option) op_prog list \<Rightarrow> nat" where
  "granted jid ps = length (filter (holds_lease jid) ps)"

lemmas stage_defs = leaseNextJob_def claim_def get_job_def grant_def put_job_json_def Let_def

context queue_client
begin

definition jobs_named :: "adapter \<Rightarrow> 's \<Rightarrow> bool" where
  "jobs_named ad s \<longleftrightarrow> (\<forall>jid j. get s (kJob ad jid) = Some (Job_json j) \<longrightarrow> jobId j = jid)"

definition claims_ok ::
  "adapter \<Rightarrow> string list \<Rightarrow> 's \<times> ('p, 'r, (('p, 'r) job \<times> string \<times> int) option) op_prog list \<Rightarrow> bool" where
  "claims_ok ad start c \<longleftrightarrow>
     jobs_named ad (fst c) \<and>
     (\<exists>owns. length owns = length (snd c) \<and> handed_out start (items (fst c) (kWaiting ad)) owns \<and>
        (\<forall>i < length owns. lease_stage ad (owns ! i) (snd c ! i)))"

text \<open>What one command of a request does.\<close>

lemma lease_stage_step:
  assumes "lease_stage ad own (Do cmd k)" and named: "jobs_named ad s"
  shows "jobs_named ad (fst (exec cmd s)) \<and>
    (items (fst (exec cmd s)) (kWaiting ad) = items s (kWaiting ad) \<and>
       lease_stage ad own (k (snd (exec cmd s))) \<or>
     own = None \<and> (\<exists>x. items s (kWaiting ad) = items (fst (exec cmd s)) (kWaiting ad) @ [x] \<and>
       lease_stage ad (Some x) (k (snd (exec cmd s)))))"
  using assms(1)
proof cases
  case (asking async wid d rnd now)
  then have cmd: "cmd = RPOP (kWaiting ad)" by (simp add: leaseNextJob_def)
  have n: "jobs_named ad (fst (exec cmd s))" using named by (simp add: jobs_named_def cmd effects)
  show ?thesis
  proof (cases "items s (kWaiting ad) = []")
    case True
    then have "exec cmd s = (s, Null)" by (simp add: cmd exec_RPOP_empty)
    with asking n show ?thesis by (auto simp: leaseNextJob_def intro: lease_stage.refused)
  next
    case False
    let ?x = "last (items s (kWaiting ad))"
    have "snd (exec cmd s) = Item ?x" using False by (simp add: cmd RPOP_reply)
    moreover have "items s (kWaiting ad) = items (fst (exec cmd s)) (kWaiting ad) @ [?x]"
      using False by (simp add: cmd effects)
    ultimately show ?thesis using asking n
      by (auto simp: leaseNextJob_def intro: lease_stage.refused lease_stage.reading)
  qed
next
  case (reading jid async wid duration rnd now)
  then have "cmd = GET (kJob ad jid)" by (simp add: claim_def get_job_def)
  then have e: "exec cmd s = (s, case get s (kJob ad jid) of None \<Rightarrow> Null | Some v \<Rightarrow> Found v)"
    by (simp add: exec_GET)
  have "lease_stage ad (Some jid) (k (snd (exec cmd s)))"
  proof (cases "get s (kJob ad jid)")
    case (Some v)
    with reading e named show ?thesis
      by (cases v) (auto simp: claim_def get_job_def jobs_named_def
          intro: lease_stage.refused lease_stage.granting lease_stage.failed)
  qed (use reading e in \<open>auto simp: claim_def get_job_def intro: lease_stage.refused\<close>)
  with e reading named show ?thesis by simp
next
  case (granting j jid async wid duration rnd now)
  then have "\<exists>j'. jobId j' = jid \<and> cmd = SET (kJob ad jid) (Job_json j') None"
    by (auto simp: grant_def put_job_json_def Let_def)
  with granting named show ?thesis
    by (auto simp: grant_def put_job_json_def Let_def effects jobs_named_def intro!: lease_stage.leasing)
next
  case (leasing j jid l ex rnd t evs)
  with named show ?thesis
    by (auto simp: effects jobs_named_def intro: lease_stage.granted)
qed

lemma claims_ok_step:
  assumes "claims_ok ad start c" shows "claims_ok ad start (step_at exec i c)"
proof -
  obtain s ps where c: "c = (s, ps)" by (cases c)
  show ?thesis
  proof (cases "i < length ps \<and> (\<exists>cmd k. ps ! i = Do cmd k)")
    case True
    then obtain cmd k where i: "i < length ps" "ps ! i = Do cmd k" by blast
    let ?s = "fst (exec cmd s)" and ?p = "k (snd (exec cmd s))"
    from assms c obtain owns where o: "length owns = length ps" "handed_out start (items s (kWaiting ad)) owns"
      "\<forall>i < length owns. lease_stage ad (owns ! i) (ps ! i)" and n: "jobs_named ad s"
      by (auto simp: claims_ok_def)
    have "lease_stage ad (owns ! i) (Do cmd k)" using o(1,3) i by metis
    from lease_stage_step[OF this n] have n': "jobs_named ad ?s" and
      "items ?s (kWaiting ad) = items s (kWaiting ad) \<and> lease_stage ad (owns ! i) ?p \<or>
       owns ! i = None \<and> (\<exists>x. items s (kWaiting ad) = items ?s (kWaiting ad) @ [x] \<and> lease_stage ad (Some x) ?p)"
      by blast+
    then obtain owns' where "length owns' = length ps" "handed_out start (items ?s (kWaiting ad)) owns'"
      "\<forall>k < length owns'. lease_stage ad (owns' ! k) (ps[i := ?p] ! k)"
    proof (elim disjE conjE exE)
      assume "items ?s (kWaiting ad) = items s (kWaiting ad)" "lease_stage ad (owns ! i) ?p"
      with o i show thesis by (intro that[of owns]) (auto simp: nth_list_update)
    next
      fix x assume a: "owns ! i = None" "items s (kWaiting ad) = items ?s (kWaiting ad) @ [x]" "lease_stage ad (Some x) ?p"
      with o(1,2) i(1) have "handed_out start (items ?s (kWaiting ad)) (owns[i := Some x])"
        by (intro handed_out_take) simp_all
      with a o(1,3) i(1) show thesis by (intro that[of "owns[i := Some x]"]) (auto simp: nth_list_update)
    qed
    with n' i c show ?thesis by (auto simp: claims_ok_def step_at_def)
  next
    case False
    then have "step_at exec i c = c" using c by (auto simp: step_at_def split: prog.splits)
    with assms show ?thesis by simp
  qed
qed

lemma claims_ok_start:
  "jobs_named ad s \<Longrightarrow>
    claims_ok ad (items s (kWaiting ad)) (s, map (\<lambda>(wid, d, rnd, now). leaseNextJob ad async wid d rnd now) ws)"
  unfolding claims_ok_def
  by (auto simp: handed_out_def case_prod_beta intro!: exI[of _ "replicate (length ws) None"] lease_stage.asking)

lemma claims_ok_granted:
  assumes "claims_ok ad start (s, ps)"
  shows "granted jid ps \<le> count_list start jid"
proof -
  from assms obtain owns where o: "length owns = length ps" "handed_out start (items s (kWaiting ad)) owns"
    "\<forall>i < length owns. lease_stage ad (owns ! i) (ps ! i)" by (auto simp: claims_ok_def)
  have "owns ! i = Some jid" if "i < length ps" "holds_lease jid (ps ! i)" for i
  proof -
    from that(2) obtain j r t where l: "lease_of (ps ! i) = Some (j, r, t)" "jobId j = jid"
      by (auto simp: holds_lease_def split: option.splits)
    from lease_of_Some[OF l(1)] obtain evs where d: "ps ! i = Done (return (Some (j, r, t)), evs)" by blast
    have "lease_stage ad (owns ! i) (Done (return (Some (j, r, t)), evs))" using o that(1) d(1) by metis
    then show ?thesis by (rule lease_stage_done) (auto simp: stage_defs l(2))
  qed
  then have "granted jid ps \<le> count_list owns (Some jid)"
    unfolding granted_def by (intro count_owned o(1))
  also have "\<dots> \<le> count_list start jid" using o(2) unfolding handed_out_def by (metis le_add2 order_trans)
  finally show ?thesis .
qed

lemma claims_within_entries:
  assumes "jobs_named ad s" and "run_schedule exec sched
      (s, map (\<lambda>(wid, d, rnd, now). leaseNextJob ad async wid d rnd now) ws) = (s', ps)"
  shows "granted jid ps \<le> count_list (items s (kWaiting ad)) jid"
  using run_schedule_invariant[of "claims_ok ad (items s (kWaiting ad))", OF claims_ok_start[OF assms(1)] claims_ok_step]
    assms(2) by (metis claims_ok_granted)

end

section \<open>Taking jobs concurrently\<close>

text \<open>C17. Taking jobs is safe under every interleaving: whatever the number of workers and however their commands
  interleave, the number of lease requests that get a job is at most the number of its entries in the waiting
  list. So an entry is handed out once, and where a job has one entry no two requests get it. Jobs are stored
  under their identifiers.\<close>

theorem claims_are_exclusive:
  assumes "\<forall>jid j. map_get (strings s) (kJob ad jid) = Some (Job_json j) \<longrightarrow> jobId j = jid"
    and "run_schedule execCommand sched
      (s, map (\<lambda>(wid, d, rnd, now). leaseNextJob ad async wid d rnd now) ws) = (s', ps)"
  shows "granted jid ps \<le> count_list (list_at s (kWaiting ad)) jid"
  using sync_queue.claims_within_entries[OF _ assms(2)] assms(1) by (simp add: sync_queue.jobs_named_def)

text \<open>Two jobs in the store, and the first round of two workers.\<close>

definition demo_data :: "string \<Rightarrow> nat job_data" where
  "demo_data i = \<lparr>jd_jobId = Some i, jd_idempotencyKey = None, jd_principalId = None, jd_payload = 7\<rparr>"

definition two_jobs :: "(nat, nat) stored redis" where
  "two_jobs =
     fst (run execCommand (enqueue demo_adapter True (demo_data ''b'') ''x'' 1)
       (fst (run execCommand (enqueue demo_adapter True (demo_data ''a'') ''x'' 1) empty_redis)))"

definition two_workers :: "(string \<times> int option \<times> string \<times> int) list" where
  "two_workers = [(''v'', None, ''t'', 2), (''w'', None, ''u'', 3)]"

lemma two_jobs_strings:
  "strings two_jobs =
    [(kJob demo_adapter ''a'', Job_json (adapter_job demo_adapter (demo_data ''a'') ''x'' 1)),
     (kIdemp demo_adapter ''a'', Id_text ''a''),
     (kJob demo_adapter ''b'', Job_json (adapter_job demo_adapter (demo_data ''b'') ''x'' 1)),
     (kIdemp demo_adapter ''b'', Id_text ''b'')]"
  by code_simp

definition demo_race ::
  "(nat, nat) stored redis \<times> (nat, nat, ((nat, nat) job \<times> string \<times> int) option) op_prog list" where
  "demo_race = run_schedule execCommand [0, 1, 0, 1, 0, 1, 0, 1]
     (two_jobs, map (\<lambda>(wid, d, rnd, now). leaseNextJob demo_adapter True wid d rnd now) two_workers)"

theorem claims_are_exclusive_witness:
  "granted ''a'' (snd demo_race) = 1 \<and> granted ''a'' (snd demo_race) \<le> count_list (list_at two_jobs (kWaiting demo_adapter)) ''a''"
proof -
  have "\<forall>jid j. map_get (strings two_jobs) (kJob demo_adapter jid) = Some (Job_json j) \<longrightarrow> jobId j = jid"
    by (auto simp: two_jobs_strings map_get_def adapter_job_def new_id_def demo_data_def split: if_splits)
  then have "granted ''a'' (snd demo_race) \<le> count_list (list_at two_jobs (kWaiting demo_adapter)) ''a''"
    by (intro claims_are_exclusive[of two_jobs demo_adapter "[0, 1, 0, 1, 0, 1, 0, 1]" True two_workers "fst demo_race"])
      (simp_all add: demo_race_def)
  moreover have "granted ''a'' (snd demo_race) = 1" by code_simp
  ultimately show ?thesis by blast
qed

section \<open>Enqueueing concurrently\<close>

text \<open>Enqueueing is not idempotent under concurrency: two requests with one idempotency key that are
  interleaved both create the job, the waiting list gets its identifier twice, and two workers
  that are interleaved both get a lease on it.\<close>

theorem concurrent_enqueue_runs_job_twice:
  "let enq = run_schedule execCommand [0, 1, 0, 1, 0, 1, 0, 1, 0, 1]
         (empty_redis, replicate 2 (enqueue demo_adapter True (demo_data ''a'') ''x'' 1));
       taken = run_schedule execCommand [0, 1, 0, 1, 0, 1, 0, 1]
         (fst enq, map (\<lambda>(wid, d, rnd, now). leaseNextJob demo_adapter True wid d rnd now) two_workers)
   in list_at (fst enq) (kWaiting demo_adapter) = [''a'', ''a''] \<and> map (map_option (\<lambda>(j, r, t). jobId j) \<circ> lease_of) (snd taken) = [Some ''a'', Some ''a'']"
  by code_simp

section \<open>Failing without a lease\<close>

text \<open>\<open>failJob\<close> checks neither the lease token nor the state: after a job has been completed, a
  failure report with any token puts it back into the waiting list, to be run again.\<close>

theorem failure_report_reopens_job:
  "snd (redis_calls execCommand demo_adapter True empty_redis
     [(1, Enqueue (demo_data ''a'') ''x''), (2, Lease_next ''v'' None ''t''), (3, Complete ''a'' ''t'' (9 :: nat)),
      (4, Fail ''a'' ''no lease'' None), (5, Lease_next ''w'' None ''u'')]) =
   (let j = adapter_job demo_adapter (demo_data ''a'') ''x'' 1;
        j1 = j\<lparr>state := RUNNING, attempts := 1, updatedAt := 2\<rparr>
    in [Accepted j False, Leased (Some (j1, ''t'', 30002)), Flag True, Flag True,
        Leased (Some (j1\<lparr>attempts := 2, updatedAt := 5, result := Some 9\<rparr>, ''u'', 30005))])"
  by code_simp

end
