(* ===== verification/JS_Number.thy ===== *)
theory JS_Number
  imports Complex_Main Prelude
begin

text \<open>
  JavaScript numbers as the front end uses them: IEEE doubles (exact rationals, infinities,
  NaN and a negative zero, with every result rounded to nearest, ties to even), the
  conversion \<open>Number(raw)\<close> of the literals the lexer collects, and the conversion
  \<open>String(value)\<close> of the values the constant folder prints. \<open>Math.pow\<close>, whose result the
  language leaves to the implementation, is a parameter where it is used.
\<close>

datatype jsnum = NaN | Inf bool | NegZero | Num rat

text \<open>\<open>Inf True\<close> is minus infinity; \<open>Num 0\<close> is plus zero.\<close>

section \<open>Rounding to a double\<close>

fun log2_floor :: "nat \<Rightarrow> nat" where
  "log2_floor n = (if n < 2 then 0 else Suc (log2_floor (n div 2)))"

declare log2_floor.simps [simp del]

definition pow2 :: "int \<Rightarrow> rat" where
  "pow2 e = (if e \<ge> 0 then 2 ^ nat e else 1 / 2 ^ nat (- e))"

definition exponent2 :: "rat \<Rightarrow> int" where
  "exponent2 x =
     (if x \<ge> 1 then int (log2_floor (nat \<lfloor>x\<rfloor>))
      else - int (Suc (log2_floor (nat (\<lceil>1 / x\<rceil> - 1)))))"

definition round_half_even :: "rat \<Rightarrow> int" where
  "round_half_even x =
     (let f = \<lfloor>x\<rfloor>; d = x - of_int f
      in if d < 1 / 2 then f else if d > 1 / 2 then f + 1 else if even f then f else f + 1)"

text \<open>The magnitude of a positive rational as a double; \<open>None\<close> is overflow.\<close>

definition round_pos :: "rat \<Rightarrow> rat option" where
  "round_pos x =
     (let e = max (exponent2 x - 52) (- 1074);
          v = of_int (round_half_even (x / pow2 e)) * pow2 e
      in if v \<ge> 2 ^ 1024 then None else Some v)"

definition signed_zero :: "bool \<Rightarrow> jsnum" where
  "signed_zero neg = (if neg then NegZero else Num 0)"

definition round_double :: "rat \<Rightarrow> jsnum" where
  "round_double x =
     (if x = 0 then Num 0
      else case round_pos \<bar>x\<bar> of
        None \<Rightarrow> Inf (x < 0)
      | Some v \<Rightarrow> if v = 0 then signed_zero (x < 0) else Num (if x < 0 then - v else v))"

section \<open>Arithmetic and comparison\<close>

definition is_neg :: "jsnum \<Rightarrow> bool" where
  "is_neg a = (case a of NaN \<Rightarrow> False | Inf s \<Rightarrow> s | NegZero \<Rightarrow> True | Num x \<Rightarrow> x < 0)"

definition is_zero :: "jsnum \<Rightarrow> bool" where
  "is_zero a = (case a of NegZero \<Rightarrow> True | Num x \<Rightarrow> x = 0 | _ \<Rightarrow> False)"

definition isFinite :: "jsnum \<Rightarrow> bool" where
  "isFinite a = (case a of NegZero \<Rightarrow> True | Num x \<Rightarrow> True | _ \<Rightarrow> False)"

definition value_of :: "jsnum \<Rightarrow> rat" where
  "value_of a = (case a of Num x \<Rightarrow> x | _ \<Rightarrow> 0)"

definition num_neg :: "jsnum \<Rightarrow> jsnum" where
  "num_neg a = (case a of
     NaN \<Rightarrow> NaN | Inf s \<Rightarrow> Inf (\<not> s) | NegZero \<Rightarrow> Num 0
   | Num x \<Rightarrow> if x = 0 then NegZero else Num (- x))"

definition num_add :: "jsnum \<Rightarrow> jsnum \<Rightarrow> jsnum" where
  "num_add a b =
     (case (a, b) of
        (NaN, _) \<Rightarrow> NaN | (_, NaN) \<Rightarrow> NaN
      | (Inf s, Inf t) \<Rightarrow> if s = t then Inf s else NaN
      | (Inf s, _) \<Rightarrow> Inf s | (_, Inf t) \<Rightarrow> Inf t
      | (NegZero, NegZero) \<Rightarrow> NegZero
      | _ \<Rightarrow> round_double (value_of a + value_of b))"

definition num_sub :: "jsnum \<Rightarrow> jsnum \<Rightarrow> jsnum" where
  "num_sub a b = num_add a (num_neg b)"

definition num_mul :: "jsnum \<Rightarrow> jsnum \<Rightarrow> jsnum" where
  "num_mul a b =
     (if a = NaN \<or> b = NaN then NaN
      else if isFinite a \<and> isFinite b then
        (if is_zero a \<or> is_zero b then signed_zero (is_neg a \<noteq> is_neg b)
         else round_double (value_of a * value_of b))
      else if is_zero a \<or> is_zero b then NaN
      else Inf (is_neg a \<noteq> is_neg b))"

definition num_div :: "jsnum \<Rightarrow> jsnum \<Rightarrow> jsnum" where
  "num_div a b =
     (if a = NaN \<or> b = NaN then NaN
      else if isFinite a \<and> isFinite b then
        (if is_zero b then (if is_zero a then NaN else Inf (is_neg a \<noteq> is_neg b))
         else if is_zero a then signed_zero (is_neg a \<noteq> is_neg b)
         else round_double (value_of a / value_of b))
      else if isFinite a then signed_zero (is_neg a \<noteq> is_neg b)
      else if isFinite b then Inf (is_neg a \<noteq> is_neg b)
      else NaN)"

definition num_floor :: "jsnum \<Rightarrow> jsnum" where
  "num_floor a = (case a of Num x \<Rightarrow> Num (of_int \<lfloor>x\<rfloor>) | _ \<Rightarrow> a)"

definition num_abs :: "jsnum \<Rightarrow> jsnum" where
  "num_abs a = (case a of
     NaN \<Rightarrow> NaN | Inf s \<Rightarrow> Inf False | NegZero \<Rightarrow> Num 0 | Num x \<Rightarrow> Num \<bar>x\<bar>)"

definition num_lt :: "jsnum \<Rightarrow> jsnum \<Rightarrow> bool" where
  "num_lt a b =
     (case (a, b) of
        (NaN, _) \<Rightarrow> False | (_, NaN) \<Rightarrow> False
      | (Inf s, Inf t) \<Rightarrow> s \<and> \<not> t
      | (Inf s, _) \<Rightarrow> s | (_, Inf t) \<Rightarrow> \<not> t
      | _ \<Rightarrow> value_of a < value_of b)"

definition num_eq :: "jsnum \<Rightarrow> jsnum \<Rightarrow> bool" where
  "num_eq a b =
     (case (a, b) of
        (NaN, _) \<Rightarrow> False | (_, NaN) \<Rightarrow> False
      | (Inf s, Inf t) \<Rightarrow> s = t
      | (Inf s, _) \<Rightarrow> False | (_, Inf t) \<Rightarrow> False
      | _ \<Rightarrow> value_of a = value_of b)"

definition num_le :: "jsnum \<Rightarrow> jsnum \<Rightarrow> bool" where
  "num_le a b \<longleftrightarrow> num_lt a b \<or> num_eq a b"

section \<open>From text to number\<close>

abbreviation digits_prefix :: "js_string \<Rightarrow> js_string" where
  "digits_prefix s \<equiv> takeWhile (\<lambda>c. is_digit c) s"

definition nat_of_digits :: "js_string \<Rightarrow> nat" where
  "nat_of_digits ds = foldl (\<lambda>a d. 10 * a + (d - 48)) 0 ds"

definition nat_of_hex :: "js_string \<Rightarrow> nat" where
  "nat_of_hex ds = foldl (\<lambda>a d. 16 * a + hex_value d) 0 ds"

definition pow10 :: "int \<Rightarrow> rat" where
  "pow10 e = (if e \<ge> 0 then 10 ^ nat e else 1 / 10 ^ nat (- e))"

text \<open>An exponent part: nothing, or \<open>e\<close>, an optional sign and at least one digit.\<close>

definition parse_exponent :: "js_string \<Rightarrow> int option" where
  "parse_exponent s =
     (case s of
        [] \<Rightarrow> Some 0
      | c # r \<Rightarrow>
          if c = 101 \<or> c = 69 then
            (let neg = (r \<noteq> [] \<and> hd r = 45);
                 ds = (if r \<noteq> [] \<and> (hd r = 43 \<or> hd r = 45) then tl r else r)
             in if ds \<noteq> [] \<and> list_all (\<lambda>c. is_digit c) ds
                then Some (if neg then - int (nat_of_digits ds) else int (nat_of_digits ds))
                else None)
          else None)"

definition js_Number :: "js_string \<Rightarrow> jsnum" where
  "js_Number s =
     (if length s \<ge> 2 \<and> hd s = 48 \<and> (s ! 1 = 120 \<or> s ! 1 = 88) then
        (let ds = drop 2 s
         in if ds \<noteq> [] \<and> list_all is_hex_digit ds
            then round_double (of_nat (nat_of_hex ds)) else NaN)
      else
        (let ip = digits_prefix s; r = drop (length ip) s;
             dot = (r \<noteq> [] \<and> hd r = 46);
             r1 = (if dot then tl r else r);
             fp = (if dot then digits_prefix r1 else []);
             r2 = drop (length fp) r1
         in if ip = [] \<and> fp = [] then NaN
            else case parse_exponent r2 of
              None \<Rightarrow> NaN
            | Some e \<Rightarrow> round_double (of_nat (nat_of_digits (ip @ fp)) * pow10 (e - int (length fp)))))"

section \<open>From number to text\<close>

fun decimal :: "nat \<Rightarrow> js_string" where
  "decimal n = (if n < 10 then [48 + n] else decimal (n div 10) @ [48 + n mod 10])"

declare decimal.simps [simp del]

fun log10_floor :: "nat \<Rightarrow> nat" where
  "log10_floor n = (if n < 10 then 0 else Suc (log10_floor (n div 10)))"

declare log10_floor.simps [simp del]

definition exponent10 :: "rat \<Rightarrow> int" where
  "exponent10 x =
     (if x \<ge> 1 then int (log10_floor (nat \<lfloor>x\<rfloor>)) else - int (Suc (log10_floor (nat (\<lceil>1 / x\<rceil> - 1)))))"

text \<open>
  The shortest decimal that rounds back to the (positive) value: the digits \<open>s\<close> and the
  exponent \<open>n\<close> with value \<open>s * 10 ^ (n - k)\<close> for a \<open>k\<close>-digit \<open>s\<close>; seventeen digits are
  always enough for a double.
\<close>

definition candidates :: "rat \<Rightarrow> int \<Rightarrow> nat \<Rightarrow> nat list" where
  "candidates x n k =
     (let y = x / pow10 (n - int k); lo = \<lfloor>y\<rfloor>; hi = lo + 1;
          ok = (\<lambda>s. round_double (of_int s * pow10 (n - int k)) = Num x)
      in map nat (filter ok (if y - of_int lo \<le> of_int hi - y then [lo, hi] else [hi, lo])))"

fun shortest :: "rat \<Rightarrow> int \<Rightarrow> nat \<Rightarrow> nat \<Rightarrow> nat \<times> int \<times> nat" where
  "shortest x n k 0 = (nat \<lfloor>x / pow10 (n - int k)\<rfloor>, n, k)"
| "shortest x n k (Suc fuel) =
     (case candidates x n k of
        s # _ \<Rightarrow> if s = 10 ^ k then (10 ^ (k - 1), n + 1, k) else (s, n, k)
      | [] \<Rightarrow> shortest x n (Suc k) fuel)"

definition format_decimal :: "nat \<Rightarrow> int \<Rightarrow> nat \<Rightarrow> js_string" where
  "format_decimal s n k =
     (let ds = decimal s; e = n - 1;
          etext = (if e < 0 then 45 # decimal (nat (- e)) else 43 # decimal (nat e))
      in if int k \<le> n \<and> n \<le> 21 then ds @ replicate (nat (n - int k)) 48
         else if 0 < n \<and> n \<le> 21 then take (nat n) ds @ 46 # drop (nat n) ds
         else if - 6 < n \<and> n \<le> 0 then [48, 46] @ replicate (nat (- n)) 48 @ ds
         else if k = 1 then ds @ 101 # etext
         else take 1 ds @ 46 # drop 1 ds @ 101 # etext)"

definition pos_to_string :: "rat \<Rightarrow> js_string" where
  "pos_to_string x = (case shortest x (exponent10 x + 1) 1 17 of (s, n, k) \<Rightarrow> format_decimal s n k)"

definition js_num_to_string :: "jsnum \<Rightarrow> js_string" where
  "js_num_to_string a =
     (case a of
        NaN \<Rightarrow> units ''NaN''
      | Inf s \<Rightarrow> (if s then units ''-Infinity'' else units ''Infinity'')
      | NegZero \<Rightarrow> units ''0''
      | Num x \<Rightarrow> if x = 0 then units ''0''
                 else if x < 0 then 45 # pos_to_string (- x) else pos_to_string x)"

end
