(* ===== verification/Resp.thy ===== *)
theory Resp
  imports JS_Number
begin

text \<open>
  The wire protocol of \<open>MinimalRedisClient\<close> (\<open>packages/queue/src/redis-queue-adapter.js\<close>): the
  text of a command, the parser of replies and the hand-over of replies to the waiting
  callbacks. The buffer is a JavaScript string. A recursion deeper than the given bound is the
  engine's stack overflow. Connecting and the socket itself are not modelled.
\<close>

section \<open>Strings\<close>

text \<open>\<open>Buffer.byteLength(s, 'utf8')\<close>: a surrogate pair takes four bytes, a lone surrogate the
  three of its replacement.\<close>

fun utf8_length :: "js_string \<Rightarrow> nat" where
  "utf8_length [] = 0"
| "utf8_length (c # s) =
     (if c < 128 then 1 + utf8_length s
      else if c < 2048 then 2 + utf8_length s
      else if 55296 \<le> c \<and> c < 56320 then
        (case s of
           d # t \<Rightarrow> if 56320 \<le> d \<and> d < 57344 then 4 + utf8_length t else 3 + utf8_length s
         | [] \<Rightarrow> 3)
      else 3 + utf8_length s)"

text \<open>\<open>s.slice(a, b)\<close>: a negative position counts from the end, \<open>NaN\<close> (\<open>None\<close>) is 0.\<close>

definition slice_index :: "int option \<Rightarrow> js_string \<Rightarrow> nat" where
  "slice_index a s =
     (case a of
        None \<Rightarrow> 0
      | Some i \<Rightarrow> if i < 0 then nat (int (length s) + i) else min (nat i) (length s))"

definition slice :: "int option \<Rightarrow> int option \<Rightarrow> js_string \<Rightarrow> js_string" where
  "slice a b s = drop (slice_index a s) (take (slice_index b s) s)"

definition slice_from :: "int option \<Rightarrow> js_string \<Rightarrow> js_string" where
  "slice_from a s = drop (slice_index a s) s"

text \<open>\<open>s.indexOf('\r\n')\<close>.\<close>

fun crlf_index :: "js_string \<Rightarrow> nat option" where
  "crlf_index (a # b # s) =
     (if a = 13 \<and> b = 10 then Some 0 else map_option Suc (crlf_index (b # s)))"
| "crlf_index _ = None"

definition js_space :: "nat \<Rightarrow> bool" where
  "js_space c \<longleftrightarrow> c \<in> set [9, 10, 11, 12, 13, 32, 160, 5760, 8232, 8233, 8239, 8287, 12288, 65279] \<or>
     8192 \<le> c \<and> c \<le> 8202"

text \<open>\<open>parseInt(s, 10)\<close>: the sign and the magnitude; \<open>None\<close> is \<open>NaN\<close>.\<close>

definition parse_int :: "js_string \<Rightarrow> (bool \<times> nat) option" where
  "parse_int s =
     (let t = dropWhile js_space s;
          neg = (t \<noteq> [] \<and> hd t = 45);
          u = (case t of c # u \<Rightarrow> if c = 45 \<or> c = 43 then u else t | [] \<Rightarrow> []);
          ds = digits_prefix u
      in if ds = [] then None else Some (neg, nat_of_digits ds))"

definition int_of :: "bool \<times> nat \<Rightarrow> int" where
  "int_of n = (if fst n then - int (snd n) else int (snd n))"

definition num_of_int :: "(bool \<times> nat) option \<Rightarrow> jsnum" where
  "num_of_int n =
     (case n of
        None \<Rightarrow> NaN
      | Some m \<Rightarrow> if fst m \<and> snd m = 0 then NegZero else round_double (of_int (int_of m)))"

section \<open>Sending\<close>

definition crlf :: js_string where
  "crlf = [13, 10]"

definition bulk_text :: "js_string \<Rightarrow> js_string" where
  "bulk_text s = 36 # decimal (utf8_length s) @ crlf @ s @ crlf"

definition command_text :: "js_string list \<Rightarrow> js_string" where
  "command_text args = 42 # decimal (length args) @ crlf @ concat (map bulk_text args)"

section \<open>Parsing a reply\<close>

datatype resp_value = V_null | V_text js_string | V_num jsnum | V_array "resp_value list"

record parsed =
  p_value :: resp_value
  p_isError :: bool
  bytesConsumed :: "int option"

definition parsed_line :: "resp_value \<Rightarrow> bool \<Rightarrow> nat \<Rightarrow> (string, parsed option) outcome" where
  "parsed_line v e c = return (Some \<lparr>p_value = v, p_isError = e, bytesConsumed = Some (int c + 2)\<rparr>)"

definition parse_bulk :: "js_string \<Rightarrow> nat \<Rightarrow> js_string \<Rightarrow> (string, parsed option) outcome" where
  "parse_bulk buf c line =
     (let dataStart = int c + 2
      in case parse_int line of
           None \<Rightarrow>
             return (Some \<lparr>p_value = V_text (slice (Some dataStart) None buf), p_isError = False,
               bytesConsumed = None\<rparr>)
         | Some n \<Rightarrow>
             let len = int_of n; dataEnd = dataStart + len
             in if len = - 1 then parsed_line V_null False c
                else if int (length buf) < dataEnd + 2 then return None
                else return (Some \<lparr>p_value = V_text (slice (Some dataStart) (Some dataEnd) buf),
                       p_isError = False, bytesConsumed = Some (dataEnd + 2)\<rparr>))"

type_synonym resp_parser = "js_string \<Rightarrow> (string, parsed option) outcome"

primrec items_loop ::
  "resp_parser \<Rightarrow> nat \<Rightarrow> int option \<Rightarrow> resp_value list \<Rightarrow> js_string \<Rightarrow> (string, parsed option) outcome" where
  "items_loop parse 0 offset arr buf =
     return (Some \<lparr>p_value = V_array arr, p_isError = False, bytesConsumed = offset\<rparr>)"
| "items_loop parse (Suc n) offset arr buf =
     and_then (parse (slice_from offset buf)) (\<lambda>item.
       case item of
         None \<Rightarrow> return None
       | Some p \<Rightarrow>
           items_loop parse n
             (case (offset, bytesConsumed p) of (Some a, Some b) \<Rightarrow> Some (a + b) | _ \<Rightarrow> None)
             (arr @ [p_value p]) buf)"

primrec parseResp :: "nat \<Rightarrow> resp_parser" where
  "parseResp 0 buf = throw ''RangeError''"
| "parseResp (Suc n) buf =
     (if length buf < 3 then return None
      else case crlf_index buf of
        None \<Rightarrow> return None
      | Some c \<Rightarrow>
          let ty = hd buf; line = slice (Some 1) (Some (int c)) buf
          in if ty = 43 then parsed_line (V_text line) False c
             else if ty = 45 then parsed_line (V_text line) True c
             else if ty = 58 then parsed_line (V_num (num_of_int (parse_int line))) False c
             else if ty = 36 then parse_bulk buf c line
             else if ty = 42 then
               (case parse_int line of
                  None \<Rightarrow> parsed_line (V_array []) False c
                | Some m \<Rightarrow>
                    if int_of m = - 1 then parsed_line V_null False c
                    else items_loop (parseResp n) (nat (int_of m)) (Some (int c + 2)) [] buf)
             else return None)"

section \<open>The connection\<close>

text \<open>A callback is settled with an error or with a value.\<close>

record 'c connection =
  buffer :: js_string
  pendingCallbacks :: "'c list"
  written :: js_string
  settled :: "('c \<times> (js_string, resp_value) outcome) list"

definition new_connection :: "'c connection" where
  "new_connection = \<lparr>buffer = [], pendingCallbacks = [], written = [], settled = []\<rparr>"

text \<open>\<open>sendCommand\<close> on an open connection.\<close>

definition sendCommand :: "'c \<Rightarrow> js_string list \<Rightarrow> 'c connection \<Rightarrow> 'c connection" where
  "sendCommand cb args t =
     t\<lparr>pendingCallbacks := pendingCallbacks t @ [cb], written := written t @ command_text args\<rparr>"

text \<open>\<open>String(value)\<close> of an error value is only needed for a text: an error line.\<close>

definition settle :: "'c \<Rightarrow> parsed \<Rightarrow> 'c \<times> (js_string, resp_value) outcome" where
  "settle cb p =
     (cb, if p_isError p then throw (case p_value p of V_text s \<Rightarrow> s | _ \<Rightarrow> []) else return (p_value p))"

primrec process_loop ::
  "nat \<Rightarrow> 'c list \<Rightarrow> js_string \<Rightarrow> ('c \<times> (js_string, resp_value) outcome) list \<Rightarrow>
   (string, js_string \<times> 'c list \<times> ('c \<times> (js_string, resp_value) outcome) list) outcome" where
  "process_loop n [] buf out = return (buf, [], out)"
| "process_loop n (cb # cbs) buf out =
     (if buf = [] then return (buf, cb # cbs, out)
      else and_then (parseResp n buf) (\<lambda>r.
        case r of
          None \<Rightarrow> return (buf, cb # cbs, out)
        | Some p \<Rightarrow> process_loop n cbs (slice_from (bytesConsumed p) buf) (out @ [settle cb p])))"

definition processBuffer :: "nat \<Rightarrow> 'c connection \<Rightarrow> (string, 'c connection) outcome" where
  "processBuffer n t =
     and_then (process_loop n (pendingCallbacks t) (buffer t) (settled t))
       (\<lambda>(buf, cbs, out). return (t\<lparr>buffer := buf, pendingCallbacks := cbs, settled := out\<rparr>))"

text \<open>The socket's \<open>data\<close> and \<open>error\<close> events.\<close>

definition on_data :: "nat \<Rightarrow> js_string \<Rightarrow> 'c connection \<Rightarrow> (string, 'c connection) outcome" where
  "on_data n chunk t = processBuffer n (t\<lparr>buffer := buffer t @ chunk\<rparr>)"

definition on_error :: "js_string \<Rightarrow> 'c connection \<Rightarrow> 'c connection" where
  "on_error err t =
     (case pendingCallbacks t of
        [] \<Rightarrow> t
      | cb # cbs \<Rightarrow> t\<lparr>pendingCallbacks := cbs, settled := settled t @ [(cb, throw err)]\<rparr>)"

end
