(* ===== verification/JS_Number_Props.thy ===== *)
theory JS_Number_Props
  imports JS_Number
begin

text \<open>
  Facts on doubles that the components share: the order on numbers, and arithmetic that does not
  round because its result is half an integer of moderate size.
\<close>

section \<open>Order\<close>

lemma num_lt_le_trans: "num_lt a b \<Longrightarrow> num_le b c \<Longrightarrow> num_lt a c"
  by (cases a; cases b; cases c) (auto simp: num_lt_def num_le_def num_eq_def value_of_def)

lemma num_le_lt_trans: "num_le a b \<Longrightarrow> num_lt b c \<Longrightarrow> num_lt a c"
  by (cases a; cases b; cases c) (auto simp: num_lt_def num_le_def num_eq_def value_of_def)

lemma num_le_trans: "num_le a b \<Longrightarrow> num_le b c \<Longrightarrow> num_le a c"
  by (cases a; cases b; cases c) (auto simp: num_lt_def num_le_def num_eq_def value_of_def)

lemma num_lt_irrefl [simp]: "\<not> num_lt a a"
  by (cases a) (auto simp: num_lt_def value_of_def)

lemma num_lt_imp_le: "num_lt a b \<Longrightarrow> num_le a b"
  by (simp add: num_le_def)

lemma num_le_refl: "a \<noteq> NaN \<Longrightarrow> num_le a a"
  by (cases a) (auto simp: num_le_def num_eq_def value_of_def)

lemma num_not_lt: "a \<noteq> NaN \<Longrightarrow> b \<noteq> NaN \<Longrightarrow> \<not> num_lt a b \<longleftrightarrow> num_le b a"
  by (cases a; cases b) (auto simp: num_lt_def num_le_def num_eq_def value_of_def)

lemma num_order_NaN [simp]: "\<not> num_lt NaN a" "\<not> num_lt a NaN" "\<not> num_le NaN a" "\<not> num_le a NaN"
  by (cases a; simp add: num_lt_def num_le_def num_eq_def)+

lemma num_order_Num [simp]:
  "num_lt (Num x) (Num y) \<longleftrightarrow> x < y" "num_le (Num x) (Num y) \<longleftrightarrow> x \<le> y"
  "num_lt (Inf s) (Num y) \<longleftrightarrow> s" "num_le (Inf s) (Num y) \<longleftrightarrow> s"
  "num_lt (Num x) (Inf s) \<longleftrightarrow> \<not> s" "num_le (Num x) (Inf s) \<longleftrightarrow> \<not> s"
  by (auto simp: num_lt_def num_le_def num_eq_def value_of_def)

section \<open>Exact results\<close>

lemma log2_floor_bound: "n < 2 ^ Suc k \<Longrightarrow> log2_floor n \<le> k"
proof (induction k arbitrary: n)
  case 0 then show ?case by (simp add: log2_floor.simps)
next
  case (Suc k)
  from Suc.prems have "n div 2 < 2 ^ Suc k" by auto
  from Suc.IH[OF this] show ?case by (subst log2_floor.simps) simp
qed

lemma round_half_even_int [simp]: "round_half_even (of_int k) = k"
  by (simp add: round_half_even_def Let_def)

lemma exponent2_bound:
  assumes "0 < x" and "x < 2 ^ Suc k" shows "exponent2 x \<le> int k"
proof (cases "x \<ge> 1")
  case True
  have "nat \<lfloor>x\<rfloor> < 2 ^ Suc k" using assms True by (simp add: nat_less_iff floor_less_iff)
  from log2_floor_bound[OF this] True show ?thesis by (simp add: exponent2_def)
qed (simp add: exponent2_def)

lemma round_pos_half:
  assumes "0 < m" and "m < 2 ^ 53" shows "round_pos (of_int m / 2) = Some (of_int m / 2)"
proof -
  let ?x = "of_int m / 2 :: rat"
  define e where "e = max (exponent2 ?x - 52) (- 1074)"
  have "of_int m < (of_int (2 ^ 53) :: rat)" using assms(2) unfolding of_int_less_iff .
  then have "exponent2 ?x \<le> 51" using exponent2_bound[of ?x 51] assms(1) by simp
  then have e: "e < 0" by (simp add: e_def)
  then obtain d where "nat (- e) = Suc d" by (cases "nat (- e)") auto
  then have p: "pow2 e = 1 / 2 ^ Suc d" using e by (simp add: pow2_def)
  have q: "?x / pow2 e = of_int (m * 2 ^ d)" by (simp add: p)
  have "of_int (round_half_even (?x / pow2 e)) * pow2 e = ?x"
    unfolding q round_half_even_int by (simp add: p)
  moreover have "?x < 2 ^ 1024"
  proof -
    have "of_int m < (of_int (2 ^ 53) :: rat)" using assms(2) unfolding of_int_less_iff .
    then show ?thesis by simp
  qed
  ultimately show ?thesis unfolding round_pos_def Let_def e_def[symmetric] by simp
qed

lemma round_double_half:
  assumes "\<bar>m\<bar> < 2 ^ 53" shows "round_double (of_int m / 2) = Num (of_int m / 2)"
proof (cases "m = 0")
  case False
  have "\<bar>of_int m / 2\<bar> = (of_int \<bar>m\<bar> / 2 :: rat)" by simp
  with round_pos_half[of "\<bar>m\<bar>"] False assms show ?thesis
    by (auto simp: round_double_def)
qed (simp add: round_double_def)

lemma round_double_int:
  assumes "\<bar>k\<bar> < 2 ^ 52" shows "round_double (of_int k) = Num (of_int k)"
  using round_double_half[of "2 * k"] assms by simp

end
