(* ===== verification/Resp_Props.thy ===== *)
theory Resp_Props
  imports Resp JS_Number_Props
begin

text \<open>
  Replies arrive whole and in order, however the network cuts the text into chunks, as long as
  bulk strings are ASCII; with other characters the lengths do not fit and the client gets stuck.
\<close>

section \<open>What the server sends\<close>

datatype reply =
  R_simple js_string
| R_error js_string
| R_int int
| R_bulk js_string
| R_null
| R_array "reply list"

definition decimal_int :: "int \<Rightarrow> js_string" where
  "decimal_int i = (if i < 0 then 45 # decimal (nat (- i)) else decimal (nat i))"

text \<open>The length of a bulk string counts its bytes.\<close>

primrec reply_text :: "reply \<Rightarrow> js_string" where
  "reply_text (R_simple s) = 43 # s @ crlf"
| "reply_text (R_error s) = 45 # s @ crlf"
| "reply_text (R_int i) = 58 # decimal_int i @ crlf"
| "reply_text (R_bulk s) = bulk_text s"
| "reply_text R_null = 36 # decimal_int (- 1) @ crlf"
| "reply_text (R_array rs) = 42 # decimal (length rs) @ crlf @ concat (map reply_text rs)"

primrec reply_value :: "reply \<Rightarrow> resp_value" where
  "reply_value (R_simple s) = V_text s"
| "reply_value (R_error s) = V_text s"
| "reply_value (R_int i) = V_num (Num (of_int i))"
| "reply_value (R_bulk s) = V_text s"
| "reply_value R_null = V_null"
| "reply_value (R_array rs) = V_array (map reply_value rs)"

definition reply_outcome :: "reply \<Rightarrow> (js_string, resp_value) outcome" where
  "reply_outcome r = (case r of R_error s \<Rightarrow> throw s | _ \<Rightarrow> return (reply_value r))"

definition is_error_reply :: "reply \<Rightarrow> bool" where
  "is_error_reply r = (case r of R_error s \<Rightarrow> True | _ \<Rightarrow> False)"

text \<open>Lines without a carriage return, integers that are exact as doubles, ASCII strings.\<close>

fun sendable :: "reply \<Rightarrow> bool" where
  "sendable (R_simple s) \<longleftrightarrow> 13 \<notin> set s \<and> 10 \<notin> set s"
| "sendable (R_error s) \<longleftrightarrow> 13 \<notin> set s \<and> 10 \<notin> set s"
| "sendable (R_int i) \<longleftrightarrow> \<bar>i\<bar> < 2 ^ 52"
| "sendable (R_bulk s) \<longleftrightarrow> (\<forall>c \<in> set s. c < 128)"
| "sendable R_null \<longleftrightarrow> True"
| "sendable (R_array rs) \<longleftrightarrow> (\<forall>r \<in> set rs. sendable r)"

primrec nesting :: "reply \<Rightarrow> nat" where
  "nesting (R_simple s) = 1"
| "nesting (R_error s) = 1"
| "nesting (R_int i) = 1"
| "nesting (R_bulk s) = 1"
| "nesting R_null = 1"
| "nesting (R_array rs) = Suc (foldr max (map nesting rs) 0)"

section \<open>Numbers in a line\<close>

lemma decimal_digits_ok: "decimal n \<noteq> [] \<and> (\<forall>c \<in> set (decimal n). is_digit c) \<and> nat_of_digits (decimal n) = n"
proof (induction n rule: decimal.induct)
  case (1 n)
  show ?case
  proof (cases "n < 10")
    case True
    then show ?thesis by (subst (1 2 3) decimal.simps) (simp add: nat_of_digits_def)
  next
    case False
    then have d: "decimal n = decimal (n div 10) @ [48 + n mod 10]" by (subst decimal.simps) simp
    have "nat_of_digits (xs @ [c]) = 10 * nat_of_digits xs + (c - 48)" for xs c
      by (simp add: nat_of_digits_def)
    then show ?thesis using 1[OF False] unfolding d by auto
  qed
qed

lemma decimal_simps [simp]: "decimal n \<noteq> []" "10 \<notin> set (decimal n)" "13 \<notin> set (decimal n)"
  using decimal_digits_ok[of n] by auto

lemma digits_prefix_decimal [simp]: "digits_prefix (decimal n) = decimal n"
  and nat_of_digits_decimal [simp]: "nat_of_digits (decimal n) = n"
  using decimal_digits_ok[of n] by (simp_all add: takeWhile_eq_all_conv)

lemma digits_not_space: "is_digit c \<Longrightarrow> \<not> js_space c"
  by (auto simp: js_space_def)

lemma parse_decimal: "parse_int (decimal n) = Some (False, n)"
proof -
  obtain c ds where d: "decimal n = c # ds" by (cases "decimal n") simp_all
  have c: "is_digit c" using decimal_digits_ok[of n] d by simp
  have "dropWhile js_space (decimal n) = decimal n"
    using digits_not_space[OF c] by (simp add: d)
  moreover have "hd (decimal n) \<noteq> 45" "(case decimal n of [] \<Rightarrow> [] | c # u \<Rightarrow> if c = 45 \<or> c = 43 then u else decimal n) = decimal n"
    using c d by auto
  ultimately show ?thesis by (simp add: parse_int_def Let_def)
qed

lemma parse_negative: "parse_int (45 # decimal n) = Some (True, n)"
  by (simp add: parse_int_def Let_def js_space_def)

lemma parse_decimal_int: "parse_int (decimal_int i) = Some (i < 0, nat \<bar>i\<bar>)"
  by (simp add: decimal_int_def parse_decimal parse_negative)

lemma decimal_int_simps [simp]: "10 \<notin> set (decimal_int i)" "13 \<notin> set (decimal_int i)"
  by (simp_all add: decimal_int_def)

lemma num_of_decimal_int: "\<bar>i\<bar> < 2 ^ 52 \<Longrightarrow> num_of_int (Some (i < 0, nat \<bar>i\<bar>)) = Num (of_int i)"
  using round_double_int[of i] by (simp add: num_of_int_def int_of_def)

section \<open>Lines\<close>

lemma no_newline_no_crlf: "10 \<notin> set s \<Longrightarrow> crlf_index s = None"
  by (induction s rule: crlf_index.induct) auto

lemma crlf_index_line: "13 \<notin> set s \<Longrightarrow> crlf_index (s @ 13 # 10 # t) = Some (length s)"
proof (induction s)
  case (Cons a s)
  then show ?case by (cases s) auto
qed simp

lemma slice_line: "slice (Some 1) (Some (int (Suc (length s)))) (a # s @ t) = s"
  by (simp add: slice_def slice_index_def nat_add_distrib)

lemma slice_from_append: "slice_from (Some (int (length s))) (s @ t) = t"
  by (simp add: slice_from_def slice_index_def)

text \<open>A head line: a type, a text, and the line end.\<close>

lemma parseResp_line:
  assumes "13 \<notin> set s" and "ty \<noteq> 13"
  shows "parseResp (Suc n) (ty # s @ crlf @ t) =
    (let c = Suc (length s); buf = ty # s @ crlf @ t
     in if ty = 43 then parsed_line (V_text s) False c
        else if ty = 45 then parsed_line (V_text s) True c
        else if ty = 58 then parsed_line (V_num (num_of_int (parse_int s))) False c
        else if ty = 36 then parse_bulk buf c s
        else if ty = 42 then
          (case parse_int s of
             None \<Rightarrow> parsed_line (V_array []) False c
           | Some m \<Rightarrow>
               if int_of m = - 1 then parsed_line V_null False c
               else items_loop (parseResp n) (nat (int_of m)) (Some (int c + 2)) [] buf)
        else return None)"
proof -
  have "crlf_index (ty # s @ crlf @ t) = Some (Suc (length s))"
    using crlf_index_line[of "ty # s" t] assms by (simp add: crlf_def)
  moreover have "\<not> length (ty # s @ crlf @ t) < 3" by (simp add: crlf_def)
  ultimately show ?thesis by (simp add: slice_line Let_def del: of_nat_Suc)
qed

lemma parseResp_cut_line:
  assumes "10 \<notin> set s" and "ty \<noteq> 10" and "k < length (ty # s @ crlf)"
  shows "parseResp (Suc n) (take k (ty # s @ crlf @ t)) = return None"
proof -
  have "take k ((ty # s @ [13]) @ 10 # t) = take k (ty # s @ [13])"
    using assms(3) by (subst take_append) (simp add: crlf_def)
  then have "take k (ty # s @ crlf @ t) = take k (ty # s @ [13])" by (simp add: crlf_def)
  moreover have "10 \<notin> set (ty # s @ [13])" using assms by simp
  then have "10 \<notin> set (take k (ty # s @ [13]))" by (meson in_set_takeD)
  ultimately have "crlf_index (take k (ty # s @ crlf @ t)) = None" by (simp add: no_newline_no_crlf)
  then show ?thesis by simp
qed

section \<open>One reply\<close>

definition parsed_reply :: "reply \<Rightarrow> (string, parsed option) outcome" where
  "parsed_reply r = return (Some \<lparr>p_value = reply_value r, p_isError = is_error_reply r,
     bytesConsumed = Some (int (length (reply_text r)))\<rparr>)"

text \<open>A parser reads a reply when it takes exactly the reply off the front of a text and waits on
  every proper prefix of it.\<close>

definition reads_reply :: "resp_parser \<Rightarrow> reply \<Rightarrow> bool" where
  "reads_reply parse r \<longleftrightarrow>
     (\<forall>t. parse (reply_text r @ t) = parsed_reply r) \<and>
     (\<forall>k < length (reply_text r). parse (take k (reply_text r)) = return None)"

lemma utf8_length_ascii: "\<forall>c \<in> set s. c < 128 \<Longrightarrow> utf8_length s = length s"
  by (induction s rule: utf8_length.induct) auto

lemma slice_middle: "slice (Some (int (length a))) (Some (int (length a) + int (length s))) (a @ s @ t) = s"
  by (simp add: slice_def slice_index_def nat_add_distrib)

lemma reads_line:
  assumes "reply_text r = ty # s @ crlf" and "10 \<notin> set s" and "13 \<notin> set s" and "ty \<noteq> 10" and "ty \<noteq> 13"
    and "\<And>t. parseResp (Suc n) (ty # s @ crlf @ t) = parsed_reply r"
  shows "reads_reply (parseResp (Suc n)) r"
  using assms parseResp_cut_line[of s ty _ n "[]"]
  by (simp add: reads_reply_def del: parseResp.simps)

lemma reads_bulk:
  assumes "\<forall>c \<in> set s. c < 128" shows "reads_reply (parseResp (Suc n)) (R_bulk s)"
proof -
  let ?l = "decimal (length s)" and ?c = "Suc (length (decimal (length s)))"
  let ?h = "36 # ?l @ crlf"
  have form: "reply_text (R_bulk s) = ?h @ s @ crlf"
    using assms by (simp add: bulk_text_def utf8_length_ascii)
  have parse: "parseResp (Suc n) (?h @ t) = parse_bulk (?h @ t) ?c ?l" for t
    using parseResp_line[of ?l 36 n t] by (simp add: Let_def del: parseResp.simps)
  have h: "int (length ?h) = int ?c + 2" by (simp add: crlf_def)
  have full: "parseResp (Suc n) (?h @ s @ crlf @ t) = parsed_reply (R_bulk s)" for t
  proof -
    have "slice (Some (int ?c + 2)) (Some (int ?c + 2 + int (length s))) (?h @ s @ crlf @ t) = s"
      using slice_middle[of ?h s "crlf @ t"] unfolding h .
    moreover have "\<not> int (length (?h @ s @ crlf @ t)) < int ?c + 2 + int (length s) + 2"
      by (simp add: crlf_def)
    ultimately show ?thesis
      unfolding parse parse_bulk_def Let_def
      by (simp add: parse_decimal int_of_def parsed_reply_def bulk_text_def utf8_length_ascii[OF assms] is_error_reply_def crlf_def)
  qed
  have cut: "parseResp (Suc n) (take k (?h @ s @ crlf)) = return None" if k: "k < length (?h @ s @ crlf)" for k
  proof (cases "k < length ?h")
    case True
    then show ?thesis using parseResp_cut_line[of ?l 36 k n "s @ crlf"] by simp
  next
    case False
    then have e: "take k (?h @ s @ crlf) = ?h @ take (k - length ?h) (s @ crlf)" unfolding take_append by simp
    have "int (length (?h @ take (k - length ?h) (s @ crlf))) < int ?c + 2 + int (length s) + 2"
      using k False by (simp add: crlf_def)
    then show ?thesis unfolding e parse parse_bulk_def Let_def
      by (simp add: parse_decimal int_of_def)
  qed
  show ?thesis unfolding reads_reply_def form using full cut by (simp del: parseResp.simps)
qed

lemma items_loop_reads:
  assumes "\<forall>r \<in> set rs. reads_reply parse r"
  shows "items_loop parse (length rs) (Some (int (length pre))) arr (pre @ concat (map reply_text rs) @ t) =
    return (Some \<lparr>p_value = V_array (arr @ map reply_value rs), p_isError = False,
      bytesConsumed = Some (int (length (pre @ concat (map reply_text rs))))\<rparr>)"
  using assms
proof (induction rs arbitrary: pre arr)
  case (Cons r rs)
  have "parse (reply_text r @ concat (map reply_text rs) @ t) = parsed_reply r"
    using Cons.prems by (simp add: reads_reply_def)
  moreover have "int (length pre) + int (length (reply_text r)) = int (length (pre @ reply_text r))" by simp
  ultimately show ?case
    using Cons.IH[of "pre @ reply_text r" "arr @ [reply_value r]"] Cons.prems
    by (simp add: slice_from_append parsed_reply_def del: of_nat_add length_append)
qed simp

lemma items_loop_waits:
  assumes "\<forall>r \<in> set rs. reads_reply parse r" and "k < length (concat (map reply_text rs))"
  shows "items_loop parse (length rs) (Some (int (length pre))) arr (pre @ take k (concat (map reply_text rs))) =
    return None"
  using assms
proof (induction rs arbitrary: pre arr k)
  case (Cons r rs)
  show ?case
  proof (cases "k < length (reply_text r)")
    case True
    with Cons.prems show ?thesis by (simp add: slice_from_append reads_reply_def)
  next
    case False
    have "parse (reply_text r @ take (k - length (reply_text r)) (concat (map reply_text rs))) = parsed_reply r"
      using Cons.prems by (simp add: reads_reply_def)
    moreover have "int (length pre) + int (length (reply_text r)) = int (length (pre @ reply_text r))" by simp
    ultimately show ?thesis
      using Cons.IH[of "k - length (reply_text r)" "pre @ reply_text r" "arr @ [reply_value r]"] Cons.prems False
      by (simp add: slice_from_append parsed_reply_def del: of_nat_add length_append)
        (simp add: length_append less_diff_conv2)
  qed
qed simp

lemma reads_array:
  assumes "\<forall>r \<in> set rs. reads_reply (parseResp n) r" shows "reads_reply (parseResp (Suc n)) (R_array rs)"
proof -
  let ?l = "decimal (length rs)" and ?c = "Suc (length (decimal (length rs)))" and ?b = "concat (map reply_text rs)"
  let ?h = "42 # ?l @ crlf"
  have parse: "parseResp (Suc n) (?h @ t) = items_loop (parseResp n) (length rs) (Some (int (length ?h))) [] (?h @ t)" for t
    using parseResp_line[of ?l 42 n t]
    by (simp add: Let_def parse_decimal int_of_def crlf_def del: parseResp.simps)
  have full: "parseResp (Suc n) (?h @ ?b @ t) = parsed_reply (R_array rs)" for t
    unfolding parse items_loop_reads[OF assms] by (simp add: parsed_reply_def is_error_reply_def)
  have cut: "parseResp (Suc n) (take k (?h @ ?b)) = return None" if k: "k < length (?h @ ?b)" for k
  proof (cases "k < length ?h")
    case True
    then show ?thesis using parseResp_cut_line[of ?l 42 k n ?b] by simp
  next
    case False
    then have e: "take k (?h @ ?b) = ?h @ take (k - length ?h) ?b" unfolding take_append by simp
    have "k - length ?h < length ?b" using k False by simp
    then show ?thesis unfolding e parse by (rule items_loop_waits[OF assms])
  qed
  show ?thesis unfolding reads_reply_def using full cut by (simp del: parseResp.simps)
qed

lemma nesting_items: "r \<in> set rs \<Longrightarrow> nesting r \<le> foldr max (map nesting rs) 0"
  by (induction rs) auto

lemma parseResp_reads: "sendable r \<Longrightarrow> nesting r \<le> n \<Longrightarrow> reads_reply (parseResp n) r"
proof (induction n arbitrary: r)
  case 0
  then show ?case by (cases r) simp_all
next
  case (Suc n)
  note line = parseResp_line[where n = n] and defs = parsed_reply_def parsed_line_def is_error_reply_def Let_def crlf_def
  show ?case
  proof (cases r)
    case (R_simple s)
    with Suc.prems show ?thesis
      using line[of s 43] by (intro reads_line[of _ 43 s]) (simp_all add: defs del: parseResp.simps)
  next
    case (R_error s)
    with Suc.prems show ?thesis
      using line[of s 45] by (intro reads_line[of _ 45 s]) (simp_all add: defs del: parseResp.simps)
  next
    case (R_int i)
    with Suc.prems show ?thesis
      using line[of "decimal_int i" 58] num_of_decimal_int[of i]
      by (intro reads_line[of _ 58 "decimal_int i"]) (simp_all add: defs parse_decimal_int del: parseResp.simps)
  next
    case R_null
    then show ?thesis
      using line[of "decimal_int (- 1)" 36] parse_decimal_int[of "- 1"]
      by (intro reads_line[of _ 36 "decimal_int (- 1)"])
        (simp_all add: defs parse_bulk_def int_of_def del: parseResp.simps)
  next
    case (R_bulk s)
    with Suc.prems show ?thesis using reads_bulk by (simp del: parseResp.simps)
  next
    case (R_array rs)
    have "reads_reply (parseResp n) x" if "x \<in> set rs" for x
      using Suc.IH[of x] Suc.prems R_array that nesting_items[OF that] by simp
    with R_array show ?thesis using reads_array by (simp del: parseResp.simps)
  qed
qed

section \<open>A stream of replies\<close>

lemma settle_reply:
  "settle cb \<lparr>p_value = reply_value r, p_isError = is_error_reply r, bytesConsumed = b\<rparr> = (cb, reply_outcome r)"
  by (cases r) (simp_all add: settle_def is_error_reply_def reply_outcome_def)

text \<open>A buffer that holds less than the next reply.\<close>

definition waits_for :: "js_string \<Rightarrow> reply list \<Rightarrow> bool" where
  "waits_for buf rs \<longleftrightarrow>
     (case rs of [] \<Rightarrow> buf = [] | r # _ \<Rightarrow> \<exists>k < length (reply_text r). buf = take k (reply_text r))"

lemma process_loop_reads:
  assumes "\<forall>r \<in> set rs. reads_reply (parseResp n) r \<and> reply_text r \<noteq> []" and "length rs \<le> length cbs"
    and "buf @ rest = concat (map reply_text rs)"
  shows "\<exists>k buf'. process_loop n cbs buf out = return (buf', drop k cbs, out @ zip cbs (map reply_outcome (take k rs))) \<and>
    k \<le> length rs \<and> waits_for buf' (drop k rs) \<and> buf' @ rest = concat (map reply_text (drop k rs))"
  using assms
proof (induction rs arbitrary: cbs buf out)
  case Nil
  then show ?case by (cases cbs) (auto simp: waits_for_def)
next
  case (Cons r rs)
  then obtain cb cbs' where c: "cbs = cb # cbs'" by (cases cbs) auto
  have r: "reads_reply (parseResp n) r" "reply_text r \<noteq> []" using Cons.prems(1) by simp_all
  show ?case
  proof (cases "length buf < length (reply_text r)")
    case True
    have "buf = take (length buf) (buf @ rest)" by simp
    then have b: "buf = take (length buf) (reply_text r)" using Cons.prems(3) True by simp
    have "process_loop n cbs buf out = return (buf, cbs, out)"
    proof (cases "buf = []")
      case False
      have "parseResp n buf = return None" using r(1) True b unfolding reads_reply_def by metis
      with False c show ?thesis by simp
    qed (simp add: c)
    with True b Cons.prems(3) show ?thesis
      by (intro exI[of _ 0] exI[of _ buf]) (auto simp: waits_for_def)
  next
    case False
    have "take (length (reply_text r)) buf = reply_text r"
      using arg_cong[OF Cons.prems(3), of "take (length (reply_text r))"] False by simp
    then obtain buf1 where b1: "buf = reply_text r @ buf1" by (metis append_take_drop_id)
    with Cons.prems(3) have b: "buf = reply_text r @ buf1" "buf1 @ rest = concat (map reply_text rs)"
      by simp_all
    let ?o = "out @ [(cb, reply_outcome r)]"
    have "process_loop n cbs buf out = process_loop n cbs' buf1 ?o"
      using r b(1) by (simp add: c reads_reply_def parsed_reply_def settle_reply slice_from_append)
    moreover obtain k buf' where "process_loop n cbs' buf1 ?o =
        return (buf', drop k cbs', ?o @ zip cbs' (map reply_outcome (take k rs)))" "k \<le> length rs"
      "waits_for buf' (drop k rs)" "buf' @ rest = concat (map reply_text (drop k rs))"
      using Cons.IH[of cbs' buf1 ?o] Cons.prems(1,2) b(2) c by auto
    ultimately show ?thesis
      by (intro exI[of _ "Suc k"] exI[of _ buf']) (simp add: c)
  qed
qed

lemma zip_split: "zip xs ys = zip xs (take k ys) @ zip (drop k xs) (drop k ys)"
proof (induction k arbitrary: xs ys)
  case (Suc k)
  show ?case by (cases xs; cases ys) (simp_all flip: Suc.IH)
qed simp

primrec feed :: "nat \<Rightarrow> js_string list \<Rightarrow> 'c connection \<Rightarrow> (string, 'c connection) outcome" where
  "feed n [] t = return t"
| "feed n (chunk # chunks) t = and_then (on_data n chunk t) (feed n chunks)"

lemma feed_reads:
  assumes "\<forall>r \<in> set rs. reads_reply (parseResp n) r \<and> reply_text r \<noteq> []"
    and "length rs \<le> length (pendingCallbacks t)" and "waits_for (buffer t) rs"
    and "buffer t @ concat chunks = concat (map reply_text rs)"
  shows "\<exists>t'. feed n chunks t = return t' \<and> buffer t' = [] \<and>
    pendingCallbacks t' = drop (length rs) (pendingCallbacks t) \<and>
    settled t' = settled t @ zip (pendingCallbacks t) (map reply_outcome rs)"
  using assms
proof (induction chunks arbitrary: t rs)
  case Nil
  then have "length (buffer t) = length (concat (map reply_text rs))" by simp
  with Nil.prems(3) have "rs = []" by (cases rs) (auto simp: waits_for_def)
  with Nil show ?case by (simp add: waits_for_def)
next
  case (Cons chunk chunks)
  let ?cbs = "pendingCallbacks t"
  have "(buffer t @ chunk) @ concat chunks = concat (map reply_text rs)" using Cons.prems(4) by simp
  from process_loop_reads[OF Cons.prems(1,2) this, of "settled t"] obtain k buf' where
    p: "process_loop n ?cbs (buffer t @ chunk) (settled t) =
      return (buf', drop k ?cbs, settled t @ zip ?cbs (map reply_outcome (take k rs)))" "k \<le> length rs"
      "waits_for buf' (drop k rs)" "buf' @ concat chunks = concat (map reply_text (drop k rs))"
    by blast
  let ?t = "t\<lparr>buffer := buf', pendingCallbacks := drop k ?cbs,
      settled := settled t @ zip ?cbs (map reply_outcome (take k rs))\<rparr>"
  have d: "on_data n chunk t = return ?t" using p(1) by (simp add: on_data_def processBuffer_def)
  have "\<forall>r \<in> set (drop k rs). reads_reply (parseResp n) r \<and> reply_text r \<noteq> []"
    using Cons.prems(1) by (meson in_set_dropD)
  moreover have "length (drop k rs) \<le> length (pendingCallbacks ?t)"
    using Cons.prems(2) diff_le_mono by simp
  ultimately obtain t' where
    t': "feed n chunks ?t = return t'" "buffer t' = []"
      "pendingCallbacks t' = drop (length rs - k) (drop k ?cbs)"
      "settled t' = settled ?t @ zip (drop k ?cbs) (map reply_outcome (drop k rs))"
    using Cons.IH[of "drop k rs" ?t] p(3,4) by auto
  have "zip ?cbs (map reply_outcome rs) =
      zip ?cbs (map reply_outcome (take k rs)) @ zip (drop k ?cbs) (map reply_outcome (drop k rs))"
    using zip_split[of ?cbs "map reply_outcome rs" k] by (simp add: take_map drop_map)
  with t' d p(2) show ?case by simp
qed

lemma reply_text_nonempty [simp]: "reply_text r \<noteq> []"
  by (cases r) (simp_all add: bulk_text_def)

text \<open>C18. Replies arrive whole, in order and once, however the network cuts them into chunks: for
  replies of ASCII strings, integers below \<open>2^52\<close> and lines without line breaks, nested no deeper than the stack allows, and at least as many waiting callbacks,
  the callbacks are settled with the outcomes of the replies in order, the others keep waiting,
  and the buffer is empty again.\<close>

theorem replies_arrive_in_order:
  assumes "\<forall>r \<in> set rs. sendable r \<and> nesting r \<le> n" and "length rs \<le> length (pendingCallbacks t)"
    and "buffer t = []" and "concat chunks = concat (map reply_text rs)"
  shows "\<exists>t'. feed n chunks t = return t' \<and> buffer t' = [] \<and>
    pendingCallbacks t' = drop (length rs) (pendingCallbacks t) \<and>
    settled t' = settled t @ zip (pendingCallbacks t) (map reply_outcome rs)"
proof -
  have "\<forall>r \<in> set rs. reads_reply (parseResp n) r \<and> reply_text r \<noteq> []"
    using assms(1) parseResp_reads by simp
  moreover have "waits_for (buffer t) rs"
    using assms(3) by (auto simp: waits_for_def split: list.splits)
  ultimately show ?thesis using feed_reads[of rs n t chunks] assms(2-4) by simp
qed

text \<open>A status line and a nested array, one character at a time.\<close>

definition demo_replies :: "reply list" where
  "demo_replies = [R_simple (units ''OK''), R_array [R_bulk (units ''ab''), R_null, R_int 7]]"

definition two_commands :: "nat connection" where
  "two_commands = sendCommand 2 [units ''LLEN'', units ''q''] (sendCommand 1 [units ''GET'', units ''k''] new_connection)"

theorem replies_arrive_in_order_witness:
  "\<exists>t'. feed 2 (map (\<lambda>c. [c]) (concat (map reply_text demo_replies))) two_commands = return t' \<and>
    settled t' = [(1, return (V_text (units ''OK''))),
      (2, return (V_array [V_text (units ''ab''), V_null, V_num (Num 7)]))]"
proof -
  have c: "concat (map (\<lambda>c. [c]) xs) = xs" for xs :: js_string by (induction xs) simp_all
  have t: "pendingCallbacks two_commands = [1, 2]" "settled two_commands = []" "buffer two_commands = []"
    by (simp_all add: two_commands_def sendCommand_def new_connection_def)
  have "\<forall>r \<in> set demo_replies. sendable r \<and> nesting r \<le> 2" by (simp add: demo_replies_def)
  moreover have "length demo_replies \<le> length (pendingCallbacks two_commands)"
    by (simp add: t demo_replies_def)
  ultimately obtain t' where
    "feed 2 (map (\<lambda>c. [c]) (concat (map reply_text demo_replies))) two_commands = return t'"
    "settled t' = settled two_commands @ zip (pendingCallbacks two_commands) (map reply_outcome demo_replies)"
    using replies_arrive_in_order[of demo_replies 2 two_commands, OF _ _ t(3) c] by blast
  moreover have "settled two_commands @ zip (pendingCallbacks two_commands) (map reply_outcome demo_replies) =
      [(1, return (V_text (units ''OK''))), (2, return (V_array [V_text (units ''ab''), V_null, V_num (Num 7)]))]"
    by (simp add: t demo_replies_def reply_outcome_def)
  ultimately show ?thesis by metis
qed

text \<open>The length of a bulk string counts bytes but is used on the decoded text: a bulk reply with a
  character outside ASCII is not delivered when it has arrived completely.\<close>

theorem non_ascii_reply_stalls:
  assumes "length s < utf8_length s" and "buffer t = []"
  shows "feed (Suc n) [bulk_text s] t = return (t\<lparr>buffer := bulk_text s\<rparr>)"
proof (cases "pendingCallbacks t")
  case (Cons cb cbs)
  let ?l = "decimal (utf8_length s)"
  have "parseResp (Suc n) (bulk_text s) = parse_bulk (bulk_text s) (Suc (length ?l)) ?l"
    using parseResp_line[of ?l 36 n "s @ crlf"] by (simp add: bulk_text_def Let_def del: parseResp.simps)
  also have "\<dots> = return None"
    using assms(1) by (simp add: parse_bulk_def parse_decimal int_of_def bulk_text_def crlf_def Let_def)
  finally show ?thesis
    using Cons assms(2) by (simp add: on_data_def processBuffer_def bulk_text_def del: parseResp.simps)
qed (use assms(2) in \<open>simp add: on_data_def processBuffer_def\<close>)

theorem non_ascii_reply_stalls_witness:
  "feed 1 [bulk_text [233]] two_commands = return (two_commands\<lparr>buffer := bulk_text [233]\<rparr>)"
  using non_ascii_reply_stalls[of "[233]" two_commands 0]
  by (simp add: two_commands_def sendCommand_def new_connection_def del: feed.simps)

end
