(* ===== verification/Rate_Limiter.thy ===== *)
theory Rate_Limiter
  imports Redis_Client
begin

text \<open>
  The rate limiters of the gateway (\<open>packages/gateway/src/rate-limiter.js\<close>): the sliding window and
  the concurrency slots of one process, and the Redis-backed counter with its local fallback.
  Times are milliseconds of \<open>Date.now()\<close>; one call reads the clock once.
\<close>

section \<open>State\<close>

record limiter =
  windowMs :: int
  maxRequests :: nat
  burstLimit :: nat
  maxConcurrent :: nat
  requestTimestamps :: "(string, int list) js_map"
  activeJobs :: "(string, nat) js_map"

record limiter_options =
  lo_windowMs :: "int option"
  lo_maxRequestsPerWindow :: "nat option"
  lo_burstLimit :: "nat option"
  lo_maxConcurrentPerPrincipal :: "nat option"

definition RateLimiter :: "limiter_options \<Rightarrow> limiter" where
  "RateLimiter opts =
     \<lparr>windowMs = js_or_num (lo_windowMs opts) 60000,
      maxRequests = js_or_num (lo_maxRequestsPerWindow opts) 60,
      burstLimit = js_or_num (lo_burstLimit opts) 10,
      maxConcurrent = js_or_num (lo_maxConcurrentPerPrincipal opts) 2,
      requestTimestamps = [], activeJobs = []\<rparr>"

datatype limit_reason = BURST_LIMIT_EXCEEDED | WINDOW_RATE_LIMIT_EXCEEDED

text \<open>\<open>remaining\<close> can be \<open>NaN\<close>, which is \<open>None\<close>.\<close>

record decision =
  allowed :: bool
  remaining :: "int option"
  resetMs :: int
  reason :: "limit_reason option"

definition limit_key :: "string \<Rightarrow> string \<Rightarrow> string" where
  "limit_key principalId action = principalId @ '':'' @ action"

section \<open>The sliding window\<close>

definition live :: "limiter \<Rightarrow> int \<Rightarrow> int list \<Rightarrow> int list" where
  "live l now ts = filter (\<lambda>t. now - t < windowMs l) ts"

text \<open>The decision from the timestamps inside the window.\<close>

definition decide :: "limiter \<Rightarrow> int \<Rightarrow> int list \<Rightarrow> decision" where
  "decide l now timestamps =
     (if length (filter (\<lambda>t. now - t < 1000) timestamps) \<ge> burstLimit l then
        \<lparr>allowed = False, remaining = Some 0, resetMs = 1000, reason = Some BURST_LIMIT_EXCEEDED\<rparr>
      else if length timestamps \<ge> maxRequests l then
        \<lparr>allowed = False, remaining = Some 0,
         resetMs = max 0 (windowMs l - (now - (case timestamps of oldest # _ \<Rightarrow> oldest | [] \<Rightarrow> now))),
         reason = Some WINDOW_RATE_LIMIT_EXCEEDED\<rparr>
      else
        \<lparr>allowed = True, remaining = Some (int (maxRequests l) - int (length timestamps + 1)),
         resetMs = windowMs l, reason = None\<rparr>)"

definition checkLimit :: "string \<Rightarrow> string \<Rightarrow> int \<Rightarrow> limiter \<Rightarrow> limiter \<times> decision" where
  "checkLimit principalId action now l =
     (let key = limit_key principalId action;
          timestamps = live l now (case map_get (requestTimestamps l) key of None \<Rightarrow> [] | Some ts \<Rightarrow> ts);
          d = decide l now timestamps
      in (l\<lparr>requestTimestamps := map_set (requestTimestamps l) key
              (if allowed d then timestamps @ [now] else timestamps)\<rparr>, d))"

section \<open>Concurrency slots\<close>

record acquisition =
  acquired :: bool
  activeCount :: nat
  maxAllowed :: nat

definition active_count :: "limiter \<Rightarrow> string \<Rightarrow> nat" where
  "active_count l principalId =
     (case map_get (activeJobs l) principalId of None \<Rightarrow> 0 | Some n \<Rightarrow> n)"

definition acquireConcurrency :: "string \<Rightarrow> limiter \<Rightarrow> limiter \<times> acquisition" where
  "acquireConcurrency principalId l =
     (let current = active_count l principalId
      in if current \<ge> maxConcurrent l then
           (l, \<lparr>acquired = False, activeCount = current, maxAllowed = maxConcurrent l\<rparr>)
         else
           (l\<lparr>activeJobs := map_set (activeJobs l) principalId (current + 1)\<rparr>,
            \<lparr>acquired = True, activeCount = current + 1, maxAllowed = maxConcurrent l\<rparr>))"

definition releaseConcurrency :: "string \<Rightarrow> limiter \<Rightarrow> limiter" where
  "releaseConcurrency principalId l =
     (let current = active_count l principalId
      in if current \<le> 1 then l\<lparr>activeJobs := map_delete (activeJobs l) principalId\<rparr>
         else l\<lparr>activeJobs := map_set (activeJobs l) principalId (current - 1)\<rparr>)"

definition reset :: "limiter \<Rightarrow> limiter" where
  "reset l = l\<lparr>requestTimestamps := [], activeJobs := []\<rparr>"

section \<open>The Redis-backed counter\<close>

text \<open>A reply is an integer or something else (a status text); a failing command throws.\<close>

datatype counter_reply = R_num int | R_other

type_synonym 's sender = "string list \<Rightarrow> 's \<Rightarrow> 's \<times> (unit, counter_reply) outcome"

definition is_num :: "(int \<Rightarrow> bool) \<Rightarrow> counter_reply \<Rightarrow> bool" where
  "is_num P r = (case r of R_num n \<Rightarrow> P n | R_other \<Rightarrow> False)"

definition blocked_reset :: "limiter \<Rightarrow> counter_reply \<Rightarrow> int" where
  "blocked_reset l ttl = max 1000 (case ttl of R_num n \<Rightarrow> js_or_num (Some n) (windowMs l) | R_other \<Rightarrow> windowMs l)"

text \<open>The commands of one check; \<open>None\<close> is a thrown command.\<close>

definition count_request ::
  "'s sender \<Rightarrow> string \<Rightarrow> (int \<Rightarrow> string) \<Rightarrow> limiter \<Rightarrow> 's \<Rightarrow> 's \<times> decision option" where
  "count_request send key show_ms l s0 =
     (case send [''INCR'', key] s0 of
        (s1, Inl _) \<Rightarrow> (s1, None)
      | (s1, Inr count) \<Rightarrow>
          (case (if is_num (\<lambda>n. n = 1) count then send [''PEXPIRE'', key, show_ms (windowMs l)] s1
                 else (s1, Inr R_other)) of
             (s2, Inl _) \<Rightarrow> (s2, None)
           | (s2, Inr _) \<Rightarrow>
               if is_num (\<lambda>n. n > int (maxRequests l)) count then
                 (case send [''PTTL'', key] s2 of
                    (s3, Inl _) \<Rightarrow> (s3, None)
                  | (s3, Inr ttl) \<Rightarrow>
                      (s3, Some \<lparr>allowed = False, remaining = Some 0, resetMs = blocked_reset l ttl,
                         reason = Some WINDOW_RATE_LIMIT_EXCEEDED\<rparr>))
               else
                 (s2, Some \<lparr>allowed = True,
                    remaining = (case count of R_num n \<Rightarrow> Some (int (maxRequests l) - n) | R_other \<Rightarrow> None),
                    resetMs = windowMs l, reason = None\<rparr>)))"

definition checkLimitSync :: "string \<Rightarrow> string \<Rightarrow> int \<Rightarrow> limiter \<Rightarrow> limiter \<times> decision" where
  "checkLimitSync = checkLimit"

definition checkLimitAsync ::
  "'s sender option \<Rightarrow> string \<Rightarrow> (int \<Rightarrow> string) \<Rightarrow> string \<Rightarrow> string \<Rightarrow> int \<Rightarrow> limiter \<times> 's \<Rightarrow>
   (limiter \<times> 's) \<times> decision" where
  "checkLimitAsync client prefix show_ms principalId action now p =
     (case client of
        None \<Rightarrow> (case checkLimit principalId action now (fst p) of (l, d) \<Rightarrow> ((l, snd p), d))
      | Some send \<Rightarrow>
          (case count_request send (prefix @ principalId @ '':'' @ action) show_ms (fst p) (snd p) of
             (s, Some d) \<Rightarrow> ((fst p, s), d)
           | (s, None) \<Rightarrow>
               (case checkLimit principalId action now (fst p) of (l, d) \<Rightarrow> ((l, s), d))))"

text \<open>The synchronous client of the queue answers every command it does not know with \<open>OK\<close>.\<close>

definition sync_send :: "'v redis sender" where
  "sync_send args s =
     (case execCommand (Other args) s of
        (s', Count n) \<Rightarrow> (s', return (R_num (int n)))
      | (s', _) \<Rightarrow> (s', return R_other))"

end
