(* ===== verification/Rate_Limiter_Props.thy ===== *)
theory Rate_Limiter_Props
  imports Rate_Limiter
begin

text \<open>
  The sliding window decides as if every granted request were remembered, and so never grants
  more than its limits in any window; the slots stay within their limit; the Redis counter
  grants exactly the first requests of its window.
\<close>

section \<open>Traces of requests\<close>

type_synonym request = "int \<times> string \<times> string"

abbreviation key_of :: "request \<Rightarrow> string" where
  "key_of r \<equiv> limit_key (fst (snd r)) (snd (snd r))"

primrec check_all :: "request list \<Rightarrow> limiter \<Rightarrow> limiter \<times> decision list" where
  "check_all [] l = (l, [])"
| "check_all (r # rs) l =
     (let (l1, d) = checkLimit (fst (snd r)) (snd (snd r)) (fst r) l; (l2, ds) = check_all rs l1
      in (l2, d # ds))"

text \<open>The reference keeps the times of all granted requests.\<close>

definition remember :: "request \<Rightarrow> decision \<Rightarrow> (string \<Rightarrow> int list) \<Rightarrow> string \<Rightarrow> int list" where
  "remember r d h = (if allowed d then h(key_of r := h (key_of r) @ [fst r]) else h)"

definition reference_decision :: "limiter \<Rightarrow> (string \<Rightarrow> int list) \<Rightarrow> request \<Rightarrow> decision" where
  "reference_decision l h r = decide l (fst r) (live l (fst r) (h (key_of r)))"

primrec reference_decisions :: "limiter \<Rightarrow> (string \<Rightarrow> int list) \<Rightarrow> request list \<Rightarrow> decision list" where
  "reference_decisions l h [] = []"
| "reference_decisions l h (r # rs) =
     reference_decision l h r # reference_decisions l (remember r (reference_decision l h r) h) rs"

text \<open>The times granted to a key.\<close>

definition granted :: "string \<Rightarrow> request list \<Rightarrow> decision list \<Rightarrow> int list" where
  "granted k rs ds = map (fst \<circ> fst) (filter (\<lambda>(r, d). allowed d \<and> key_of r = k) (zip rs ds))"

section \<open>The window forgets nothing that matters\<close>

definition stored :: "limiter \<Rightarrow> string \<Rightarrow> int list" where
  "stored l k = (case map_get (requestTimestamps l) k of None \<Rightarrow> [] | Some ts \<Rightarrow> ts)"

definition remembers :: "limiter \<Rightarrow> int \<Rightarrow> (string \<Rightarrow> int list) \<Rightarrow> bool" where
  "remembers l now h \<longleftrightarrow> (\<forall>k. \<forall>t \<ge> now. live l t (stored l k) = live l t (h k))"

definition same_limits :: "limiter \<Rightarrow> limiter \<Rightarrow> bool" where
  "same_limits l l' \<longleftrightarrow> windowMs l' = windowMs l \<and> maxRequests l' = maxRequests l \<and> burstLimit l' = burstLimit l"

lemma same_limits_decide: "same_limits l l' \<Longrightarrow> decide l' = decide l \<and> live l' = live l"
  by (auto simp: same_limits_def decide_def live_def fun_eq_iff)

lemma live_live: "t \<le> t' \<Longrightarrow> live l t' (live l t xs) = live l t' xs"
  by (auto simp: live_def intro: filter_cong)

lemma live_append: "live l t (xs @ ys) = live l t xs @ live l t ys"
  by (simp add: live_def)

lemma checkLimit_step:
  assumes "remembers l now h" and "now \<le> fst r"
  shows "\<exists>l1. checkLimit (fst (snd r)) (snd (snd r)) (fst r) l = (l1, reference_decision l h r) \<and>
    same_limits l l1 \<and> remembers l1 (fst r) (remember r (reference_decision l h r) h)"
proof -
  let ?t = "fst r" and ?d = "reference_decision l h r"
  let ?l1 = "fst (checkLimit (fst (snd r)) (snd (snd r)) ?t l)"
  have live: "live l ?t (stored l (key_of r)) = live l ?t (h (key_of r))"
    using assms by (simp add: remembers_def)
  then have d: "snd (checkLimit (fst (snd r)) (snd (snd r)) ?t l) = ?d"
    by (simp add: checkLimit_def reference_decision_def stored_def Let_def)
  have lim: "same_limits l ?l1" by (simp add: same_limits_def checkLimit_def Let_def)
  have st: "stored ?l1 k = (if k = key_of r then
      (if allowed ?d then live l ?t (h k) @ [?t] else live l ?t (h k)) else stored l k)" for k
    using live d by (auto simp: stored_def checkLimit_def Let_def)
  have "live ?l1 t (stored ?l1 k) = live ?l1 t (remember r ?d h k)" if "?t \<le> t" for t k
    using assms that same_limits_decide[OF lim]
    by (auto simp: st remember_def live_live live_append remembers_def)
  with d lim show ?thesis
    by (intro exI[of _ ?l1]) (auto simp: remembers_def prod_eq_iff)
qed

lemma same_limits_reference:
  assumes "same_limits l l'"
  shows "reference_decision l' = reference_decision l" "reference_decisions l' h rs = reference_decisions l h rs"
proof -
  show d: "reference_decision l' = reference_decision l"
    using same_limits_decide[OF assms] by (simp add: reference_decision_def fun_eq_iff)
  show "reference_decisions l' h rs = reference_decisions l h rs"
    by (induction rs arbitrary: h) (simp_all add: d)
qed

lemma check_all_reference:
  "remembers l now h \<Longrightarrow> sorted (now # map fst rs) \<Longrightarrow>
   snd (check_all rs l) = reference_decisions l h rs"
proof (induction rs arbitrary: l now h)
  case (Cons r rs)
  have "now \<le> fst r" using Cons.prems(2) by simp
  from checkLimit_step[OF Cons.prems(1) this] obtain l1 where
    l1: "checkLimit (fst (snd r)) (snd (snd r)) (fst r) l = (l1, reference_decision l h r)"
    "same_limits l l1" "remembers l1 (fst r) (remember r (reference_decision l h r) h)" by blast
  have "snd (check_all rs l1) = reference_decisions l (remember r (reference_decision l h r) h) rs"
    using Cons.IH[OF l1(3)] Cons.prems(2) same_limits_reference[OF l1(2)] by simp
  with l1(1) show ?case by (simp add: case_prod_beta)
qed simp

lemma fresh_reference:
  assumes "requestTimestamps l = []" and "sorted (map fst rs)"
  shows "snd (check_all rs l) = reference_decisions l (\<lambda>k. []) rs"
proof -
  have "remembers l now (\<lambda>k. [])" for now using assms(1) by (simp add: remembers_def stored_def)
  moreover have "\<exists>now. sorted (now # map fst rs)"
    using assms(2) by (cases rs) (auto intro: exI[of _ "fst (hd rs)"])
  ultimately show ?thesis using check_all_reference by blast
qed

text \<open>C19. The sliding window is exact: for requests in the order of the clock, a fresh limiter decides
  each one as a reference that remembers every granted request for ever, although it only stores
  those inside the window.\<close>

theorem limiter_equals_history:
  assumes "requestTimestamps l = []" and "sorted (map fst rs)"
  shows "snd (check_all rs l) = reference_decisions l (\<lambda>k. []) rs"
  using assms by (rule fresh_reference)

section \<open>No window exceeds the limits\<close>

definition in_window :: "int \<Rightarrow> int \<Rightarrow> int list \<Rightarrow> nat" where
  "in_window x w ts = length (filter (\<lambda>t. x \<le> t \<and> t < x + w) ts)"

definition within_limits :: "limiter \<Rightarrow> int list \<Rightarrow> bool" where
  "within_limits l ts \<longleftrightarrow>
     (\<forall>x. in_window x (windowMs l) ts \<le> maxRequests l \<and>
        in_window x (min 1000 (windowMs l)) ts \<le> burstLimit l)"

lemma length_filter_le: "(\<And>x. x \<in> set xs \<Longrightarrow> P x \<Longrightarrow> Q x) \<Longrightarrow> length (filter P xs) \<le> length (filter Q xs)"
  by (induction xs) (auto simp: le_SucI)

lemma within_limits_grant:
  assumes "within_limits l ts" and "\<forall>t \<in> set ts. t \<le> now" and "allowed (decide l now (live l now ts))"
  shows "within_limits l (ts @ [now])"
proof -
  have room: "length (filter (\<lambda>t. now - t < 1000) (live l now ts)) < burstLimit l" "length (live l now ts) < maxRequests l"
    using assms(3) by (auto simp: decide_def split: if_splits)
  have "in_window x (windowMs l) (ts @ [now]) \<le> maxRequests l" for x
  proof (cases "x \<le> now \<and> now < x + windowMs l")
    case True
    then have "in_window x (windowMs l) ts \<le> length (live l now ts)"
      unfolding in_window_def live_def by (intro length_filter_le) auto
    with True room(2) show ?thesis by (simp add: in_window_def)
  qed (use assms(1) in \<open>auto simp: in_window_def within_limits_def\<close>)
  moreover have "in_window x (min 1000 (windowMs l)) (ts @ [now]) \<le> burstLimit l" for x
  proof (cases "x \<le> now \<and> now < x + min 1000 (windowMs l)")
    case True
    then have "in_window x (min 1000 (windowMs l)) ts \<le> length (filter (\<lambda>t. now - t < 1000) (live l now ts))"
      unfolding in_window_def live_def filter_filter by (intro length_filter_le) auto
    with True room(1) show ?thesis by (simp add: in_window_def)
  qed (use assms(1) in \<open>auto simp: in_window_def within_limits_def\<close>)
  ultimately show ?thesis by (simp add: within_limits_def)
qed

lemma reference_within_limits:
  assumes "\<forall>k. within_limits l (h k) \<and> (\<forall>t \<in> set (h k). t \<le> now)" and "sorted (now # map fst rs)"
  shows "within_limits l (h k @ granted k rs (reference_decisions l h rs))"
  using assms
proof (induction rs arbitrary: h now)
  case Nil
  then show ?case by (simp add: granted_def)
next
  case (Cons r rs)
  let ?d = "reference_decision l h r"
  let ?h = "remember r ?d h"
  have le: "now \<le> fst r" using Cons.prems(2) by simp
  have "\<forall>k. within_limits l (?h k) \<and> (\<forall>t \<in> set (?h k). t \<le> fst r)"
  proof
    fix k
    show "within_limits l (?h k) \<and> (\<forall>t \<in> set (?h k). t \<le> fst r)"
    proof (cases "allowed ?d \<and> k = key_of r")
      case True
      then have "?h k = h k @ [fst r]" by (simp add: remember_def)
      moreover have "within_limits l (h k @ [fst r])"
        using Cons.prems(1) le True
        by (intro within_limits_grant) (auto simp: reference_decision_def intro: order_trans)
      ultimately show ?thesis using Cons.prems(1) le by (auto intro: order_trans)
    next
      case False
      then have "?h k = h k" by (auto simp: remember_def)
      then show ?thesis using Cons.prems(1) le by (auto intro: order_trans)
    qed
  qed
  from Cons.IH[OF this] Cons.prems(2)
  have "within_limits l (?h k @ granted k rs (reference_decisions l ?h rs))" by simp
  moreover have "?h k @ granted k rs ds = h k @ granted k (r # rs) (?d # ds)" for ds
    by (auto simp: remember_def granted_def)
  ultimately show ?case by simp
qed

text \<open>C20. The limits hold in every window: of the requests that a fresh limiter grants to one principal and
  action, no interval of the window's length contains more than the window's limit, and no
  interval of a second (or of the window, if it is shorter) more than the burst limit.\<close>

theorem granted_within_limits:
  assumes "requestTimestamps l = []" and "sorted (map fst rs)"
  shows "within_limits l (granted k rs (snd (check_all rs l)))"
proof -
  obtain now where "sorted (now # map fst rs)"
    using assms(2) by (cases rs) (auto intro: that[of "fst (hd rs)"])
  moreover have "within_limits l []" by (simp add: within_limits_def in_window_def)
  ultimately show ?thesis
    using reference_within_limits[of l "\<lambda>k. []" now rs k] fresh_reference[OF assms] by simp
qed

definition demo_limiter :: limiter where
  "demo_limiter = RateLimiter
     \<lparr>lo_windowMs = None, lo_maxRequestsPerWindow = Some 2, lo_burstLimit = None,
      lo_maxConcurrentPerPrincipal = None\<rparr>"

definition demo_requests :: "request list" where
  "demo_requests = [(0, ''p'', ''submit''), (5, ''p'', ''submit''), (70, ''p'', ''submit''), (60003, ''p'', ''submit'')]"

theorem limiter_equals_history_witness:
  "snd (check_all demo_requests demo_limiter) = reference_decisions demo_limiter (\<lambda>k. []) demo_requests"
  by (rule limiter_equals_history) (simp_all add: demo_limiter_def RateLimiter_def demo_requests_def)

theorem granted_within_limits_witness:
  "within_limits demo_limiter
     (granted (limit_key ''p'' ''submit'') demo_requests (snd (check_all demo_requests demo_limiter)))"
  by (rule granted_within_limits) (simp_all add: demo_limiter_def RateLimiter_def demo_requests_def)

lemma demo_granted:
  "granted (limit_key ''p'' ''submit'') demo_requests (snd (check_all demo_requests demo_limiter)) = [0, 5, 60003]"
  by code_simp

text \<open>Principals have separate windows as long as no action contains a colon; with one they can share.\<close>

lemma limit_key_separate:
  assumes "CHR '':'' \<notin> set a" and "CHR '':'' \<notin> set b" and "limit_key p a = limit_key q b"
  shows "p = q \<and> a = b"
proof -
  have "rev a @ CHR '':'' # rev p = rev b @ CHR '':'' # rev q"
    using arg_cong[OF assms(3), of rev] by (simp add: limit_key_def)
  moreover have "takeWhile (\<lambda>c. c \<noteq> CHR '':'') (rev x @ CHR '':'' # y) = rev x" if "CHR '':'' \<notin> set x" for x y
    using that by (subst takeWhile_append2) auto
  ultimately have "rev a = rev b" using assms(1,2) by metis
  then show ?thesis using assms(3) by (simp add: limit_key_def)
qed

lemma limit_key_shared: "limit_key ''a'' ''b:c'' = limit_key ''a:b'' ''c''"
  by (simp add: limit_key_def)

section \<open>Slots\<close>

datatype slot_op = Acquire string | Release string

definition slot_step :: "slot_op \<Rightarrow> limiter \<Rightarrow> limiter" where
  "slot_step op l =
     (case op of Acquire p \<Rightarrow> fst (acquireConcurrency p l) | Release p \<Rightarrow> releaseConcurrency p l)"

text \<open>The slots of one principal as a counter that stops at zero and at the limit.\<close>

definition slot_counter :: "nat \<Rightarrow> string \<Rightarrow> slot_op \<Rightarrow> nat \<Rightarrow> nat" where
  "slot_counter m p op n =
     (case op of
        Acquire q \<Rightarrow> if q = p \<and> n < m then n + 1 else n
      | Release q \<Rightarrow> if q = p then n - 1 else n)"

lemma slot_step_counter:
  "active_count (slot_step op l) p = slot_counter (maxConcurrent l) p op (active_count l p) \<and>
   maxConcurrent (slot_step op l) = maxConcurrent l"
  by (auto simp: slot_step_def slot_counter_def acquireConcurrency_def releaseConcurrency_def
      active_count_def Let_def split: slot_op.splits option.splits)

lemma slot_steps_counter:
  "active_count (fold slot_step ops l) p = fold (slot_counter (maxConcurrent l) p) ops (active_count l p) \<and>
   maxConcurrent (fold slot_step ops l) = maxConcurrent l"
  by (induction ops arbitrary: l) (simp_all add: slot_step_counter)

lemma slot_counter_bounded: "n \<le> m \<Longrightarrow> fold (slot_counter m p) ops n \<le> m"
proof (induction ops arbitrary: n)
  case (Cons op ops)
  have "slot_counter m p op n \<le> m" using Cons.prems by (auto simp: slot_counter_def split: slot_op.splits)
  with Cons.IH show ?case by simp
qed simp

text \<open>The slots of every principal behave as a counter of its own between zero and the limit, and a
  request for a slot succeeds exactly when the counter is below the limit.\<close>

theorem slots_are_counters:
  assumes "activeJobs l = []"
  shows "active_count (fold slot_step ops l) p = fold (slot_counter (maxConcurrent l) p) ops 0 \<and>
    active_count (fold slot_step ops l) p \<le> maxConcurrent l \<and>
    (acquired (snd (acquireConcurrency p (fold slot_step ops l))) \<longleftrightarrow>
       active_count (fold slot_step ops l) p < maxConcurrent l)"
proof -
  have "active_count l p = 0" using assms by (simp add: active_count_def)
  with slot_steps_counter[of ops l p] slot_counter_bounded[of 0 "maxConcurrent l" p ops] show ?thesis
    by (auto simp: acquireConcurrency_def Let_def)
qed

theorem slots_are_counters_witness:
  "active_count (fold slot_step [Acquire ''p'', Acquire ''p'', Acquire ''p'', Release ''p''] demo_limiter) ''p'' = 1"
  using slots_are_counters[of demo_limiter "[Acquire ''p'', Acquire ''p'', Acquire ''p'', Release ''p'']" "''p''"]
  by (simp add: demo_limiter_def RateLimiter_def slot_counter_def)

section \<open>The Redis counter\<close>

text \<open>Checks in a row, by one principal and action.\<close>

primrec redis_checks ::
  "'s sender \<Rightarrow> string \<Rightarrow> (int \<Rightarrow> string) \<Rightarrow> string \<Rightarrow> string \<Rightarrow> int list \<Rightarrow> limiter \<times> 's \<Rightarrow> bool list" where
  "redis_checks send prefix show_ms p a [] st = []"
| "redis_checks send prefix show_ms p a (now # ts) st =
     (case checkLimitAsync (Some send) prefix show_ms p a now st of
        (st', d) \<Rightarrow> allowed d # redis_checks send prefix show_ms p a ts st')"

text \<open>What the counter relies on of the server between two expiries of the key: \<open>INCR\<close> adds one and
  answers the new value, \<open>PEXPIRE\<close> and \<open>PTTL\<close> leave the value alone.\<close>

definition counts :: "'s sender \<Rightarrow> ('s \<Rightarrow> string \<Rightarrow> int) \<Rightarrow> bool" where
  "counts send val \<longleftrightarrow>
     (\<forall>k s. snd (send [''INCR'', k] s) = return (R_num (val s k + 1)) \<and>
        val (fst (send [''INCR'', k] s)) k = val s k + 1) \<and>
     (\<forall>k ms s. \<exists>r. snd (send [''PEXPIRE'', k, ms] s) = return r \<and> val (fst (send [''PEXPIRE'', k, ms] s)) k = val s k) \<and>
     (\<forall>k s. \<exists>r. snd (send [''PTTL'', k] s) = return r \<and> val (fst (send [''PTTL'', k] s)) k = val s k)"

lemma count_request_counts:
  assumes "counts send val"
  shows "\<exists>s' d. count_request send key show_ms l s = (s', Some d) \<and> val s' key = val s key + 1 \<and>
    (allowed d \<longleftrightarrow> val s key + 1 \<le> int (maxRequests l))"
proof -
  obtain s1 where i: "send [''INCR'', key] s = (s1, return (R_num (val s key + 1)))" "val s1 key = val s key + 1"
    using assms unfolding counts_def by (metis prod.collapse)
  obtain s2 r where e: "(if is_num (\<lambda>n. n = 1) (R_num (val s key + 1))
      then send [''PEXPIRE'', key, show_ms (windowMs l)] s1 else (s1, Inr R_other)) = (s2, Inr r)"
    "val s2 key = val s key + 1"
    using assms i(2) unfolding counts_def by (metis prod.collapse)
  obtain s3 r' where "send [''PTTL'', key] s2 = (s3, Inr r')" "val s3 key = val s key + 1"
    using assms e(2) unfolding counts_def by (metis prod.collapse)
  with i(1) e show ?thesis
    by (auto simp: count_request_def is_num_def)
qed

text \<open>On a server that counts, and until the key expires, the Redis-backed limiter grants exactly the
  first requests up to the window's limit and refuses all later ones, whatever the times.\<close>

theorem redis_counter_grants_first:
  assumes "counts send val" and "val s (prefix @ p @ '':'' @ a) = 0"
  shows "redis_checks send prefix show_ms p a ts (l, s) = map (\<lambda>i. i < maxRequests l) [0..<length ts]"
proof -
  let ?k = "prefix @ p @ '':'' @ a"
  have "redis_checks send prefix show_ms p a ts (l, s) = map (\<lambda>i. i < maxRequests l) [n..<n + length ts]"
    if "val s ?k = int n" for n s
    using that
  proof (induction ts arbitrary: s n)
    case (Cons t ts)
    from count_request_counts[OF assms(1), of ?k show_ms l s] obtain s' d where
      d: "count_request send ?k show_ms l s = (s', Some d)" "val s' ?k = int (Suc n)"
      "allowed d \<longleftrightarrow> n < maxRequests l" using Cons.prems by auto
    have "[n..<n + length (t # ts)] = n # [Suc n..<Suc n + length ts]" by (subst upt_conv_Cons) simp_all
    with d Cons.IH[OF d(2)] show ?case by (simp add: checkLimitAsync_def)
  qed simp
  from this[of s 0] assms(2) show ?thesis by simp
qed

text \<open>A server that keeps a number for every key.\<close>

definition toy_server :: "(string \<Rightarrow> int) sender" where
  "toy_server args s =
     (case args of
        [c, k] \<Rightarrow> if c = ''INCR'' then (s(k := s k + 1), return (R_num (s k + 1))) else (s, return (R_num (- 1)))
      | _ \<Rightarrow> (s, return (R_num 1)))"

theorem redis_counter_grants_first_witness:
  "redis_checks toy_server ''l:'' (\<lambda>n. []) ''p'' ''a'' [10, 20, 30] (demo_limiter, \<lambda>k. 0) = [True, True, False]"
proof -
  have "counts toy_server (\<lambda>s k. s k)" by (simp add: counts_def toy_server_def)
  from redis_counter_grants_first[OF this, of "\<lambda>k. 0" "''l:''" "''p''" "''a''" "\<lambda>n. []" "[10, 20, 30]" demo_limiter]
  show ?thesis by (simp add: demo_limiter_def RateLimiter_def upt_rec)
qed

text \<open>On the synchronous client, which answers \<open>INCR\<close> with a status text, the Redis-backed limiter
  refuses nothing.\<close>

theorem sync_client_never_limits:
  "redis_checks sync_send prefix show_ms p a ts (l, s) = replicate (length ts) True"
proof (induction ts)
  case (Cons t ts)
  then show ?case
    by (simp add: checkLimitAsync_def count_request_def sync_send_def execCommand_def is_num_def)
qed simp

end
