(* ===== verification/Job_Queue_Claims.thy ===== *)
theory Job_Queue_Claims
  imports Job_Queue_Props
begin

text \<open>
  The properties of the in-memory queue, each a few steps over the lemmas of
  \<open>Job_Queue_Props\<close>, with a run of the queue that serves as witness for all of them.
\<close>

section \<open>More about the lease table and the idempotency table\<close>

lemma reclaim_lease_leases:
  "leases (reclaim_lease now q (jid, l)) =
     (if now > expiresAt l then map_delete (leases q) jid else leases q)"
  by (auto simp: reclaim_lease_def Let_def split: option.splits)

lemma reclaim_fold_leases:
  "map_get (leases (foldl (reclaim_lease now) q es)) jid =
     (if \<exists>l. (jid, l) \<in> set es \<and> now > expiresAt l then None else map_get (leases q) jid)"
  by (induction es arbitrary: q) (auto simp: reclaim_lease_leases)

lemma reclaim_drops_expired:
  "map_get (leases q) jid = Some l \<Longrightarrow> now > expiresAt l \<Longrightarrow>
   map_get (leases (reclaimStaleLeases now q)) jid = None"
  by (auto simp: reclaimStaleLeases_def reclaim_fold_leases dest: map_get_mem)

lemma no_lease_refused:
  "map_get (leases q) jid = None \<Longrightarrow>
   completeJob q jid tok res now = (q, False) \<and> failJob q jid tok err now = (q, False) \<and>
   heartbeat q jid tok ext now = (q, False)"
  by (simp add: completeJob_def failJob_def heartbeat_def)

lemma reclaim_lease_idem [simp]: "idempotencyMap (reclaim_lease now q e) = idempotencyMap q"
  by (cases e) (auto simp: reclaim_lease_def Let_def split: option.splits)

lemma reclaim_idem [simp]: "idempotencyMap (reclaimStaleLeases now q) = idempotencyMap q"
  unfolding reclaimStaleLeases_def
  by (rule foldl_invariant [where P = "\<lambda>s. idempotencyMap s = idempotencyMap q"]) auto

lemma existing_job_iff: "existing_job q key = Some j \<longleftrightarrow>
    (\<exists>k jid. key = Some k \<and> k \<noteq> [] \<and> map_get (idempotencyMap q) k = Some jid \<and>
       map_get (jobs q) jid = Some j)"
  by (auto simp: existing_job_def split: option.splits)

lemma step_keeps_key:
  assumes "queue_step q q'" and "queue_ok q" and "map_get (idempotencyMap q) k = Some jid"
  shows "map_get (idempotencyMap q') k = Some jid \<or> k = []"
  using assms(1)
proof cases
  case (step_enqueue jd uuid now j dup)
  from step_enqueue(2) show ?thesis
  proof (cases rule: enqueue_cases)
    case created
    have "map_get (jobs q) jid \<noteq> None" using assms(2,3) by (auto simp: queue_ok_defs)
    with created(2) assms(3) have "request_key jd \<noteq> Some k \<or> k = []"
      by (auto simp: existing_job_def split: if_splits)
    with created(5) assms(3) show ?thesis by (auto split: option.splits)
  qed (use assms(3) in simp)
qed (use assms(3) in \<open>auto simp: leaseNextJob_def heartbeat_def completeJob_def failJob_def
    cancelJob_def getStats_def Let_def split: option.splits list.splits\<close>)

lemma steps_keep:
  assumes "queue_step\<^sup>*\<^sup>* q q'" and "queue_ok q" and "map_get (idempotencyMap q) k = Some jid"
    and "k \<noteq> []" and "map_get (jobs q) jid = Some j"
  shows "queue_ok q' \<and> map_get (idempotencyMap q') k = Some jid \<and>
    (\<exists>j'. map_get (jobs q') jid = Some j' \<and> same_job j j')"
  using assms(1)
proof (induction rule: rtranclp_induct)
  case (step q1 q2)
  then obtain j1 where j1: "map_get (jobs q1) jid = Some j1" "same_job j j1" by blast
  from queue_step_moves[OF step(2), of jid] step j1 obtain j2 where
    "map_get (jobs q2) jid = Some j2" "job_moves j1 j2" by (auto simp: moves_at_def)
  with j1 have "\<exists>j'. map_get (jobs q2) jid = Some j' \<and> same_job j j'"
    by (auto simp: job_moves_def same_job_def)
  with step queue_step_ok step_keeps_key[OF step(2)] assms(4) show ?case by blast
qed (use assms in auto)

section \<open>A run used as witness\<close>

definition demo_queue :: "(nat, nat) queue" where
  "demo_queue = new_queue \<lparr>opt_maxQueueDepth = Some 3, opt_maxRunningJobs = Some 1,
     opt_defaultLeaseDurationMs = Some 100, opt_maxRetries = None\<rparr>"

definition demo_data :: "nat job_data" where
  "demo_data = \<lparr>jd_jobId = None, jd_idempotencyKey = Some ''k'', jd_principalId = Some ''u'',
     jd_payload = 7\<rparr>"

definition demo_waiting :: "(nat, nat) queue" where
  "demo_waiting = (case enqueue demo_queue demo_data ''1'' 0 of Inr (q, _) \<Rightarrow> q)"

definition demo_running :: "(nat, nat) queue" where
  "demo_running = fst (leaseNextJob demo_waiting ''w'' None ''t'' 10)"

lemmas demo_eval = demo_queue_def demo_data_def demo_waiting_def demo_running_def
  new_queue_def enqueue_def existing_job_def request_key_def new_id_def new_job_def
  record_key_def put_job_def drop_lease_def emit_def Let_def leaseNextJob_def
  reclaimStaleLeases_def reclaim_lease_def getActiveLeaseCount_def js_or_str_def
  js_nullish_def map_get_def map_delete_def

lemma demo_reach: "queue_reach demo_queue" "queue_reach demo_waiting" "queue_reach demo_running"
proof -
  show new: "queue_reach demo_queue"
    unfolding demo_queue_def by (rule reach_new)
  have "enqueue demo_queue demo_data ''1'' 0 =
      Inr (demo_waiting, new_job demo_queue demo_data ''1'' 0, False)"
    by (simp add: demo_eval)
  moreover have "fresh_id demo_queue demo_data ''1''" by (simp add: demo_eval)
  ultimately show wait: "queue_reach demo_waiting"
    using new by (blast intro: reach_step step_enqueue)
  show "queue_reach demo_running"
    unfolding demo_running_def by (rule reach_step[OF wait step_lease])
qed

section \<open>Properties\<close>

text \<open>C6. In every queue that clients can bring about, the three tables agree with the
  states of the jobs: a job waits (once) exactly when it is queued, holds a lease exactly
  when it is running, so no job is lost, waits twice or is run by two workers, and a job is
  started at most \<open>max 1 maxRetries\<close> times.\<close>

theorem reachable_tables_agree:
  assumes "queue_reach q" and "map_get (jobs q) jid = Some j"
  shows "distinct (waitingQueue q) \<and> (jid \<in> set (waitingQueue q) \<longleftrightarrow> state j = QUEUED) \<and>
    (map_get (leases q) jid \<noteq> None \<longleftrightarrow> state j = RUNNING) \<and> attempts j \<le> max 1 (maxRetries j)"
proof -
  have ok: "queue_ok q" by (rule queue_reach_ok) fact
  then have "distinct (waitingQueue q)" by (simp add: queue_ok_defs)
  with queue_ok_slot[OF ok, of jid] assms(2) show ?thesis by (simp add: slot_ok_Some)
qed

theorem reachable_tables_agree_witness:
  "waitingQueue demo_waiting = [''job-1''] \<and> map_get (leases demo_running) ''job-1'' \<noteq> None"
proof -
  have "\<exists>j. map_get (jobs demo_waiting) ''job-1'' = Some j \<and> state j = QUEUED"
    "\<exists>j. map_get (jobs demo_running) ''job-1'' = Some j \<and> state j = RUNNING"
    by (simp_all add: demo_eval)
  then show ?thesis
    using reachable_tables_agree[OF demo_reach(3)] by (auto simp: demo_eval)
qed

text \<open>C7. Whatever operation a client calls, a recorded job stays recorded, its identity, owner
  and payload do not change, its state moves along a transition that \<open>isValidTransition\<close>
  allows (though only \<open>completeJob\<close> checks it), and a finished job is left untouched.\<close>

theorem step_follows_state_machine:
  assumes "queue_reach q" and "queue_step q q'" and "map_get (jobs q) jid = Some j"
  shows "\<exists>j'. map_get (jobs q') jid = Some j' \<and> same_job j j' \<and>
    isValidTransition (state j) (state j') \<and> (terminal (state j) \<longrightarrow> j' = j)"
  using queue_step_moves[OF assms(2) queue_reach_ok[OF assms(1)], of jid] assms(3)
  by (auto simp: moves_at_def job_moves_def)

theorem step_follows_state_machine_witness:
  "\<exists>j'. map_get (jobs demo_running) ''job-1'' = Some j' \<and> isValidTransition QUEUED (state j')"
proof -
  have step: "queue_step demo_waiting demo_running"
    unfolding demo_running_def by (rule step_lease)
  have "map_get (jobs demo_waiting) ''job-1'' = Some (new_job demo_queue demo_data ''1'' 0)"
    by (simp add: demo_eval)
  from step_follows_state_machine[OF demo_reach(2) step this] show ?thesis by auto
qed

text \<open>Backpressure holds at all times: at most \<open>maxRunningJobs\<close> leases are out, and
  although retried and reclaimed jobs go back without a depth check, the jobs that wait or
  run never exceed \<open>maxQueueDepth + maxRunningJobs\<close>.\<close>

theorem reachable_load_bounded:
  assumes "queue_reach q"
  shows "getActiveLeaseCount q \<le> maxRunningJobs q \<and>
    length (waitingQueue q) + getActiveLeaseCount q \<le> maxQueueDepth q + maxRunningJobs q"
  using queue_reach_ok[OF assms] by (simp add: queue_ok_defs getActiveLeaseCount_def)

theorem reachable_load_bounded_witness:
  "getActiveLeaseCount demo_running = 1 \<and> maxRunningJobs demo_running = 1 \<and>
   getActiveLeaseCount demo_running \<le> maxRunningJobs demo_running"
proof -
  have "getActiveLeaseCount demo_running \<le> maxRunningJobs demo_running"
    using reachable_load_bounded[OF demo_reach(3)] by blast
  then show ?thesis by (simp add: demo_eval)
qed

text \<open>Progress: when a slot is free after reclaiming and a job waits, \<open>leaseNextJob\<close> hands
  out the job at the head of the waiting list, running, one attempt older, under a lease that
  carries the drawn token and expires after the requested (or default) duration.\<close>

theorem lease_serves_head:
  assumes "queue_reach q" and "reclaimStaleLeases now q = q1"
    and "getActiveLeaseCount q1 < maxRunningJobs q1" and "waitingQueue q1 = jid # rest"
  shows "\<exists>q' j. leaseNextJob q wid d rnd now =
      (q', Some (j, rnd, now + js_or_num d (defaultLeaseDurationMs q1))) \<and>
    jobId j = jid \<and> state j = RUNNING \<and> waitingQueue q' = rest \<and>
    map_get (jobs q') jid = Some j \<and>
    (\<exists>l. map_get (leases q') jid = Some l \<and> token l = rnd \<and> workerId l = wid \<and>
       expiresAt l = now + js_or_num d (defaultLeaseDurationMs q1))"
proof -
  have ok: "queue_ok q1" using reclaim_ok queue_reach_ok assms(1,2) by blast
  from waiting_queued[OF ok, of jid] assms(4) obtain j where
    "map_get (jobs q1) jid = Some j" "state j = QUEUED" by auto
  moreover from this have "jobId j = jid" using queue_ok_slot[OF ok, of jid]
    by (simp add: slot_ok_Some)
  ultimately show ?thesis using assms(2-4) by (simp add: leaseNextJob_def Let_def)
qed

theorem lease_serves_head_witness:
  "\<exists>q' j. leaseNextJob demo_waiting ''w'' None ''t'' 10 = (q', Some (j, ''t'', 110)) \<and>
     jobId j = ''job-1''"
proof -
  have "reclaimStaleLeases 10 demo_waiting = demo_waiting"
    "getActiveLeaseCount demo_waiting < maxRunningJobs demo_waiting"
    "waitingQueue demo_waiting = [''job-1'']" "defaultLeaseDurationMs demo_waiting = 100"
    by (simp_all add: demo_eval)
  with lease_serves_head[OF demo_reach(2), of 10 demo_waiting "''job-1''" "[]" "''w''" None "''t''"]
  show ?thesis by auto
qed

text \<open>A worker whose lease ran out is shut out: once a reclaim pass has run after the
  expiry, no token completes, fails or refreshes the job, and the queue is left unchanged
  until the job is leased again.\<close>

theorem expired_lease_refused:
  assumes "map_get (leases q) jid = Some l" and "now > expiresAt l"
  shows "completeJob (reclaimStaleLeases now q) jid tok res now' =
      (reclaimStaleLeases now q, False) \<and>
    failJob (reclaimStaleLeases now q) jid tok err now' = (reclaimStaleLeases now q, False) \<and>
    heartbeat (reclaimStaleLeases now q) jid tok ext now' = (reclaimStaleLeases now q, False)"
  by (rule no_lease_refused[OF reclaim_drops_expired[OF assms]])

theorem expired_lease_refused_witness:
  "snd (completeJob (reclaimStaleLeases 111 demo_running) ''job-1'' ''t'' 5 112) = False \<and>
   snd (completeJob (reclaimStaleLeases 110 demo_running) ''job-1'' ''t'' 5 112) = True"
proof -
  define l where "l = \<lparr>token = ''t'', workerId = ''w'', expiresAt = 110, leaseDurationMs = 100\<rparr>"
  have "map_get (leases demo_running) ''job-1'' = Some l" "111 > expiresAt l"
    by (simp_all add: demo_eval l_def)
  from expired_lease_refused[OF this] show ?thesis
    by (simp add: demo_eval completeJob_def transition_running)
qed

text \<open>C8. Idempotency: after a request with an idempotency key has been accepted, and after any
  number of further calls by any clients, a request with the same key changes nothing and
  answers with the job first created for it.\<close>

theorem enqueue_idempotent:
  assumes "queue_reach q" and "fresh_id q jd uuid" and "enqueue q jd uuid now = Inr (q1, j, dup)"
    and "truthy_str (request_key jd)" and "queue_step\<^sup>*\<^sup>* q1 q2"
    and "request_key jd2 = request_key jd"
  shows "\<exists>j'. enqueue q2 jd2 uuid2 now2 = Inr (q2, j', True) \<and> same_job j j'"
proof -
  obtain k where k: "request_key jd = Some k" "k \<noteq> []"
    using assms(4) by (auto split: option.splits)
  have "\<exists>jid. map_get (idempotencyMap q1) k = Some jid \<and> map_get (jobs q1) jid = Some j"
    using assms(3)
    by (cases rule: enqueue_cases) (use k in \<open>auto simp: existing_job_iff\<close>)
  then obtain jid where jid: "map_get (idempotencyMap q1) k = Some jid"
    "map_get (jobs q1) jid = Some j" by blast
  have "queue_ok q1" by (rule enqueue_ok[OF queue_reach_ok[OF assms(1)] assms(3,2)])
  from steps_keep[OF assms(5) this jid(1) k(2) jid(2)] obtain j' where
    "map_get (idempotencyMap q2) k = Some jid" "map_get (jobs q2) jid = Some j'" "same_job j j'"
    by blast
  with k assms(6) show ?thesis by (auto simp: enqueue_def existing_job_def)
qed

theorem enqueue_idempotent_witness:
  "\<exists>j'. enqueue demo_running demo_data ''2'' 50 = Inr (demo_running, j', True) \<and>
     jobId j' = ''job-1''"
proof -
  have e: "enqueue demo_queue demo_data ''1'' 0 =
      Inr (demo_waiting, new_job demo_queue demo_data ''1'' 0, False)"
    and f: "fresh_id demo_queue demo_data ''1''" and t: "truthy_str (request_key demo_data)"
    and i: "jobId (new_job demo_queue demo_data ''1'' 0) = ''job-1''"
    by (simp_all add: demo_eval)
  have "queue_step\<^sup>*\<^sup>* demo_waiting demo_running"
    unfolding demo_running_def by (rule r_into_rtranclp) (rule step_lease)
  from enqueue_idempotent[OF demo_reach(1) f e t this refl] i show ?thesis
    unfolding same_job_def by metis
qed

section \<open>Counters\<close>

lemma sum_by_state:
  assumes "\<And>j. j \<in> set js \<Longrightarrow> state j \<noteq> RESOURCE_LIMIT"
  shows "length js = length (filter (\<lambda>j. state j = QUEUED) js) +
    length (filter (\<lambda>j. state j = RUNNING) js) + length (filter (\<lambda>j. state j = COMPLETED) js) +
    length (filter (\<lambda>j. state j = FAILED) js) + length (filter (\<lambda>j. state j = CANCELLED) js) +
    length (filter (\<lambda>j. state j = TIMED_OUT) js)"
  using assms
proof (induction js)
  case (Cons j js)
  then show ?case by (cases "state j") auto
qed simp

text \<open>The statistics account for every job: the six counters add up to the number of
  recorded jobs, and after the reclaim pass the queued and running counters are the lengths
  of the waiting list and of the lease table.\<close>

theorem stats_account_for_all_jobs:
  assumes "queue_reach q" and "getStats q now = (q', st)"
  shows "totalJobs st = n_queued st + n_running st + n_completed st + n_failed st +
      n_cancelled st + n_timedOut st \<and> totalJobs st = length (jobs q')"
proof -
  have ok: "queue_ok q'"
    using stats_ok[OF queue_reach_ok[OF assms(1)], of now] assms(2) by simp
  have "state j \<noteq> RESOURCE_LIMIT" if "j \<in> set (map_values (jobs q'))" for j
  proof -
    from that obtain jid where "(jid, j) \<in> set (jobs q')" by (auto simp: map_values_def)
    then have "map_get (jobs q') jid = Some j"
      using ok by (simp add: map_get_entries queue_ok_defs)
    with queue_ok_slot[OF ok, of jid] show ?thesis by (simp add: slot_ok_Some)
  qed
  then have "length (map_values (jobs q')) = n_queued st + n_running st + n_completed st +
      n_failed st + n_cancelled st + n_timedOut st"
    using assms(2) sum_by_state[of "map_values (jobs q')"]
    by (auto simp: getStats_def Let_def count_state_def)
  then show ?thesis using assms(2) by (auto simp: getStats_def Let_def map_values_def)
qed

theorem stats_account_for_all_jobs_witness:
  "totalJobs (snd (getStats demo_running 50)) = 1 \<and> n_running (snd (getStats demo_running 50)) = 1"
proof -
  obtain q' st where s: "getStats demo_running 50 = (q', st)" by (cases "getStats demo_running 50")
  have "n_running st = 1" "n_queued st + n_completed st + n_failed st + n_cancelled st + n_timedOut st = 0"
    using s by (auto simp: getStats_def count_state_def map_values_def demo_eval)
  with stats_account_for_all_jobs[OF demo_reach(3) s] s show ?thesis by simp
qed

text \<open>The freshness of identifiers is needed: a client that submits a second job under the
  identifier of a running one (and another idempotency key) replaces its record, and the job
  then waits in the queue while the old lease is still out.\<close>

theorem reused_id_breaks_agreement:
  "\<exists>q jd q' j. queue_reach (q :: (nat, nat) queue) \<and> \<not> fresh_id q jd ''x'' \<and>
     enqueue q jd ''x'' 20 = Inr (q', j, False) \<and> state j = QUEUED \<and>
     map_get (jobs q') (jobId j) = Some j \<and> map_get (leases q') (jobId j) \<noteq> None \<and>
     \<not> queue_ok q'"
proof -
  define jd :: "nat job_data" where "jd = \<lparr>jd_jobId = Some ''job-1'',
    jd_idempotencyKey = Some ''other'', jd_principalId = Some ''v'', jd_payload = 8\<rparr>"
  define q' where "q' = fst (projr (enqueue demo_running jd ''x'' 20))"
  define j where "j = new_job demo_running jd ''x'' 20"
  have e: "enqueue demo_running jd ''x'' 20 = Inr (q', j, False)"
    by (simp add: demo_eval jd_def q'_def j_def)
  have at: "map_get (jobs q') (jobId j) = Some j" "map_get (leases q') (jobId j) \<noteq> None"
    "state j = QUEUED" "\<not> fresh_id demo_running jd ''x''"
    by (simp_all add: demo_eval jd_def q'_def j_def)
  have "\<not> queue_ok q'"
    using queue_ok_slot[of q' "jobId j"] at by (auto simp: slot_ok_Some)
  with e at demo_reach(3) show ?thesis by blast
qed

end
