(* ===== verification/Byte_String.thy ===== *)
theory Byte_String
  imports Prelude
begin

text \<open>
  Lua strings as byte buffers (\<open>packages/shared/src/bytestring.js\<close>): concatenation and
  equality, the printer of Lua string literals, the decoder of their escapes, and the
  round trip between the two.
\<close>

type_synonym byte_string = "8 word list"

definition latin1 :: "js_string \<Rightarrow> byte_string" where
  "latin1 s = map word_of_nat s"

section \<open>Operations\<close>

definition bs_length :: "byte_string \<Rightarrow> nat" where
  "bs_length b = length b"

definition bs_concat :: "byte_string \<Rightarrow> byte_string \<Rightarrow> byte_string" where
  "bs_concat a b = a @ b"

definition bs_equals :: "byte_string \<Rightarrow> byte_string \<Rightarrow> bool" where
  "bs_equals a b \<longleftrightarrow> a = b"

definition isPrintableAscii :: "byte_string \<Rightarrow> bool" where
  "isPrintableAscii bs =
     list_all (\<lambda>b. b = 9 \<or> b = 10 \<or> b = 13 \<or> \<not> (unat b < 32 \<or> unat b > 126)) bs"

text \<open>\<open>toLuaLiteral\<close>: one byte, then the buffer between two quotes.\<close>

definition dec3 :: "nat \<Rightarrow> js_string" where
  "dec3 n = [48 + n div 100, 48 + n div 10 mod 10, 48 + n mod 10]"

definition escape_byte :: "nat \<Rightarrow> 8 word \<Rightarrow> js_string" where
  "escape_byte quote w =
     (let b = unat w in
      if b = 0 then units [CHR 0x5C, CHR ''0'']
      else if b = 7 then units [CHR 0x5C, CHR ''a'']
      else if b = 8 then units [CHR 0x5C, CHR ''b'']
      else if b = 9 then units [CHR 0x5C, CHR ''t'']
      else if b = 10 then units [CHR 0x5C, CHR ''n'']
      else if b = 11 then units [CHR 0x5C, CHR ''v'']
      else if b = 12 then units [CHR 0x5C, CHR ''f'']
      else if b = 13 then units [CHR 0x5C, CHR ''r'']
      else if b = 92 then units [CHR 0x5C, CHR 0x5C]
      else if b = quote then [92, quote]
      else if b \<ge> 32 \<and> b \<le> 126 then [b]
      else 92 # dec3 b)"

definition escape_bytes :: "nat \<Rightarrow> byte_string \<Rightarrow> js_string" where
  "escape_bytes quote bs = concat (map (escape_byte quote) bs)"

definition toLuaLiteral :: "nat \<Rightarrow> byte_string \<Rightarrow> js_string" where
  "toLuaLiteral quote bs = quote # escape_bytes quote bs @ [quote]"

text \<open>
  \<open>fromLuaLiteral\<close>. The regular expression for long brackets counts the equals signs after
  the first bracket; its lazy content ends at the closing bracket that ends the string.
\<close>

definition match_long_bracket :: "js_string \<Rightarrow> js_string option" where
  "match_long_bracket s =
     (case s of
        [] \<Rightarrow> None
      | c # r \<Rightarrow>
          if c \<noteq> 91 then None
          else
            let n = length (takeWhile (\<lambda>x. x = 61) r); r1 = drop n r
            in case r1 of
                 [] \<Rightarrow> None
               | c1 # r2 \<Rightarrow>
                   if c1 \<noteq> 91 then None
                   else
                     let close = 93 # replicate n 61 @ [93]; k = length r2 - length close
                     in if length close \<le> length r2 \<and> drop k r2 = close
                        then Some (take k r2) else None)"

definition js_space :: "nat \<Rightarrow> bool" where
  "js_space c \<longleftrightarrow> 9 \<le> c \<and> c \<le> 13 \<or> c \<in> {32, 160, 5760, 8232, 8233, 8239, 8287, 12288, 65279} \<or>
     8192 \<le> c \<and> c \<le> 8202"

definition decimal_digits :: "js_string \<Rightarrow> nat" where
  "decimal_digits ds = foldl (\<lambda>a d. 10 * a + (d - 48)) 0 ds"

text \<open>The digits of a decimal escape after the first: at most two more.\<close>

definition more_digits :: "js_string \<Rightarrow> js_string" where
  "more_digits r = take 2 (takeWhile (\<lambda>c. is_digit c) r)"

text \<open>
  One escape: \<open>next\<close> is the unit after the backslash and \<open>r\<close> what follows it; the result is
  the bytes pushed and the text left.
\<close>

definition decode_escape :: "nat \<Rightarrow> js_string \<Rightarrow> byte_string \<times> js_string" where
  "decode_escape next r =
     (if is_digit next then
        let ds = more_digits r
        in ([word_of_nat (decimal_digits (next # ds))], drop (length ds) r)
      else if next = 120 \<or> next = 88 then
        (case r of
           h1 # h2 # r' \<Rightarrow>
             if is_hex_digit h1 \<and> is_hex_digit h2
             then ([word_of_nat (16 * hex_value h1 + hex_value h2)], r')
             else ([120], r)
         | _ \<Rightarrow> ([120], r))
      else if next = 97 then ([7], r)
      else if next = 98 then ([8], r)
      else if next = 102 then ([12], r)
      else if next = 110 then ([10], r)
      else if next = 114 then ([13], r)
      else if next = 116 then ([9], r)
      else if next = 118 then ([11], r)
      else if next = 92 then ([92], r)
      else if next = 34 then ([34], r)
      else if next = 39 then ([39], r)
      else if next = 122 then ([], dropWhile js_space r)
      else ([word_of_nat next], r))"

lemma decode_escape_shorter: "length (snd (decode_escape next r)) \<le> length r"
  using length_dropWhile_le[of js_space r]
  by (auto simp: decode_escape_def Let_def split: list.splits)

function decode_units :: "js_string \<Rightarrow> byte_string" where
  "decode_units [] = []"
| "decode_units (c # r) =
     (if c = 92 \<and> r \<noteq> [] then
        (let e = decode_escape (hd r) (tl r) in fst e @ decode_units (snd e))
      else word_of_nat c # decode_units r)"
  by pat_completeness auto
termination
proof (relation "measure length", simp, goal_cases)
  case (1 c r e)
  then show ?case
    using decode_escape_shorter[of "hd r" "tl r"] by (cases r) auto
qed simp

definition slice1 :: "js_string \<Rightarrow> js_string" where
  "slice1 s = butlast (tl s)"

definition wrapped_in :: "nat \<Rightarrow> nat \<Rightarrow> js_string \<Rightarrow> bool" where
  "wrapped_in a b s \<longleftrightarrow> s \<noteq> [] \<and> hd s = a \<and> last s = b"

definition fromLuaLiteral :: "js_string \<Rightarrow> byte_string" where
  "fromLuaLiteral raw =
     (if wrapped_in 34 34 raw \<or> wrapped_in 39 39 raw then decode_units (slice1 raw)
      else if wrapped_in 91 93 raw then
        (case match_long_bracket raw of
           Some content \<Rightarrow>
             latin1 (case content of c # r \<Rightarrow> if c = 10 then r else content | [] \<Rightarrow> content)
         | None \<Rightarrow> decode_units raw)
      else decode_units raw)"

section \<open>Decoding what was printed\<close>

text \<open>
  A zero byte is printed as \<open>\0\<close>, which swallows decimal digits that follow it. A buffer is
  safe when no zero byte is directly followed by an ASCII digit.
\<close>

fun zero_safe :: "byte_string \<Rightarrow> bool" where
  "zero_safe (a # b # bs) = (\<not> (a = 0 \<and> is_digit (unat b)) \<and> zero_safe (b # bs))"
| "zero_safe bs = True"

lemma unat_byte: "unat (w :: 8 word) < 256"
  using unsigned_less[of w] by simp

lemma byte_eq_iff: "(w :: 8 word) = v \<longleftrightarrow> unat w = unat v"
  by (simp add: word_unat_eq_iff)

lemma decimal_dec3: "decimal_digits (dec3 n) = n"
proof -
  have "10 * (10 * (n div 10 div 10) + n div 10 mod 10) + n mod 10 = n"
    by (simp only: mult_div_mod_eq)
  then show ?thesis
    by (simp add: decimal_digits_def dec3_def div_mult2_eq [of n 10 10, simplified])
qed

lemma escape_bytes_simps [simp]:
  "escape_bytes q [] = []" "escape_bytes q (b # bs) = escape_byte q b @ escape_bytes q bs"
  by (simp_all add: escape_bytes_def)

lemma more_digits_dec3: "n < 1000 \<Longrightarrow> more_digits (tl (dec3 n) @ r) = tl (dec3 n)"
proof -
  have "48 + n div 10 mod 10 \<le> 57" "48 + n mod 10 \<le> 57"
    using mod_less_divisor[of 10 n] mod_less_divisor[of 10 "n div 10"] by linarith+
  then show ?thesis by (simp add: dec3_def more_digits_def)
qed

text \<open>The head of what a byte prints as: a digit exactly for the ten ASCII digits.\<close>

lemma escape_byte_head:
  assumes "q = 34 \<or> q = 39"
  shows "escape_byte q b = unat b # [] \<and> is_digit (unat b) \<or>
    (\<exists>c r. escape_byte q b = c # r \<and> \<not> is_digit c \<and> \<not> is_digit (unat b))"
  using assms by (auto simp: escape_byte_def Let_def)

lemma decode_named:
  assumes "b \<in> {7, 8, 9, 10, 11, 12, 13, 92}"
  shows "decode_units (escape_byte q b @ r) = b # decode_units r"
  using assms by (auto simp: escape_byte_def decode_escape_def)

lemma decode_quote:
  assumes "q = 34 \<or> q = 39" and "unat b = q"
  shows "decode_units (escape_byte q b @ r) = b # decode_units r"
proof -
  from assms have "b = 34 \<and> q = 34 \<or> b = 39 \<and> q = 39" by (auto simp: byte_eq_iff)
  then show ?thesis by (auto simp: escape_byte_def decode_escape_def)
qed

lemma decode_decimal:
  "decode_units (92 # dec3 (unat (b :: 8 word)) @ r) = b # decode_units r"
proof -
  have lt: "unat b < 256" by (rule unat_byte)
  obtain h t where d3: "dec3 (unat b) = h # t" by (simp add: dec3_def)
  have "is_digit h" using lt d3 by (auto simp: dec3_def)
  moreover have "decimal_digits (h # t) = unat b"
    using decimal_dec3[of "unat b"] d3 by simp
  moreover have "more_digits (t @ r) = t"
    using more_digits_dec3[of "unat b" r] lt d3 by simp
  ultimately have "decode_escape h (t @ r) = ([b], r)"
    by (simp add: decode_escape_def Let_def)
  then show ?thesis by (simp add: d3)
qed

text \<open>The bytes that print as themselves or as a decimal escape are the remaining ones.\<close>

lemma escape_byte_other:
  assumes "b \<notin> {0, 7, 8, 9, 10, 11, 12, 13, 92}" and "unat b \<noteq> q"
  shows "escape_byte q b =
    (if unat b \<ge> 32 \<and> unat b \<le> 126 then [unat b] else 92 # dec3 (unat b))"
  using assms by (simp add: escape_byte_def Let_def byte_eq_iff)

lemma decode_nonzero:
  assumes "q = 34 \<or> q = 39" and "b \<noteq> 0"
  shows "decode_units (escape_byte q b @ r) = b # decode_units r"
proof (cases "b \<in> {7, 8, 9, 10, 11, 12, 13, 92} \<or> unat b = q")
  case True
  with assms show ?thesis using decode_named decode_quote by blast
next
  case False
  moreover from False have "unat b \<noteq> 92" by (auto simp: byte_eq_iff)
  ultimately show ?thesis
    using assms(2) decode_decimal[of b r] by (simp add: escape_byte_other)
qed

lemma decode_zero: "decode_units (escape_byte q 0 @ r) =
    word_of_nat (decimal_digits (48 # more_digits r)) # decode_units (drop (length (more_digits r)) r)"
  by (simp add: escape_byte_def decode_escape_def Let_def)

lemma more_digits_none: "r = [] \<or> \<not> is_digit (hd r) \<Longrightarrow> more_digits r = []"
  by (cases r) (auto simp: more_digits_def)

lemma escape_bytes_head:
  assumes "q = 34 \<or> q = 39"
  shows "escape_bytes q bs = [] \<longleftrightarrow> bs = []"
    and "bs \<noteq> [] \<Longrightarrow> is_digit (hd (escape_bytes q bs)) \<longleftrightarrow> is_digit (unat (hd bs))"
  using escape_byte_head[OF assms, of "hd bs"] by (cases bs; auto)+

lemma decode_escape_safe:
  assumes "q = 34 \<or> q = 39" and "zero_safe bs"
  shows "decode_units (escape_bytes q bs) = bs"
  using assms(2)
proof (induction bs)
  case (Cons b bs)
  then have IH: "decode_units (escape_bytes q bs) = bs" by (cases bs) auto
  show ?case
  proof (cases "b = 0")
    case True
    have "more_digits (escape_bytes q bs) = []"
      using Cons.prems True escape_bytes_head[OF assms(1), of bs]
      by (intro more_digits_none) (cases bs; auto)
    with True IH show ?thesis by (simp add: decode_zero decimal_digits_def)
  next
    case False
    with IH assms(1) show ?thesis by (simp add: decode_nonzero)
  qed
qed simp

section \<open>When the round trip fails\<close>

lemma escape_byte_digit: "q = 34 \<or> q = 39 \<Longrightarrow> is_digit (unat b) \<Longrightarrow> escape_byte q b = [unat b]"
  using escape_byte_head[of q b] by auto

lemma swallowed_digits:
  assumes "q = 34 \<or> q = 39"
  shows "\<exists>k\<le>length bs. length (more_digits (escape_bytes q bs)) = k \<and>
    drop k (escape_bytes q bs) = escape_bytes q (drop k bs) \<and>
    (bs \<noteq> [] \<and> is_digit (unat (hd bs)) \<longrightarrow> 0 < k)"
proof (cases bs)
  case (Cons b bs1)
  show ?thesis
  proof (cases "is_digit (unat b)")
    case d1: True
    note e1 = escape_byte_digit[OF assms d1]
    show ?thesis
    proof (cases "bs1 \<noteq> [] \<and> is_digit (unat (hd bs1))")
      case True
      then obtain c bs2 where "bs1 = c # bs2" "is_digit (unat c)" by (cases bs1) auto
      with Cons d1 e1 escape_byte_digit[OF assms] show ?thesis
        by (intro exI[of _ 2]) (auto simp: more_digits_def)
    next
      case False
      then have "escape_bytes q bs1 = [] \<or> \<not> is_digit (hd (escape_bytes q bs1))"
        using escape_bytes_head[OF assms, of bs1] by blast
      then have "takeWhile (\<lambda>c. is_digit c) (escape_bytes q bs1) = []"
        by (cases "escape_bytes q bs1") auto
      with Cons d1 e1 show ?thesis
        by (intro exI[of _ 1]) (simp add: more_digits_def)
    qed
  next
    case False
    then have "more_digits (escape_bytes q bs) = []"
      using Cons escape_bytes_head[OF assms, of bs] by (intro more_digits_none) auto
    with Cons False show ?thesis by (intro exI[of _ 0]) auto
  qed
qed (simp add: more_digits_def)

lemma decode_escape_length:
  assumes "q = 34 \<or> q = 39"
  shows "length (decode_units (escape_bytes q bs)) \<le> length bs \<and>
    (\<not> zero_safe bs \<longrightarrow> length (decode_units (escape_bytes q bs)) < length bs)"
proof (induction bs rule: length_induct)
  case (1 bs)
  show ?case
  proof (cases bs)
    case (Cons b bs1)
    show ?thesis
    proof (cases "b = 0")
      case False
      have "\<not> zero_safe bs \<Longrightarrow> \<not> zero_safe bs1" using Cons False by (cases bs1) auto
      with 1 Cons False assms show ?thesis by (auto simp: decode_nonzero)
    next
      case True
      from swallowed_digits[OF assms, of bs1] obtain k where
        k: "k \<le> length bs1" "length (more_digits (escape_bytes q bs1)) = k"
        "drop k (escape_bytes q bs1) = escape_bytes q (drop k bs1)"
        "bs1 \<noteq> [] \<and> is_digit (unat (hd bs1)) \<longrightarrow> 0 < k" by blast
      have IH: "length (decode_units (escape_bytes q (drop k bs1))) \<le> length (drop k bs1)"
        "\<not> zero_safe (drop k bs1) \<Longrightarrow>
         length (decode_units (escape_bytes q (drop k bs1))) < length (drop k bs1)"
        using 1[rule_format, of "drop k bs1"] Cons by auto
      have "zero_safe bs \<or> 0 < k \<or> \<not> zero_safe bs1"
        using True Cons k(4) by (cases bs1) auto
      moreover have "length (decode_units (escape_bytes q bs)) =
          Suc (length (decode_units (escape_bytes q (drop k bs1))))"
        using True Cons by (simp add: decode_zero k(2,3))
      moreover have "length bs = Suc (length bs1)" using Cons by simp
      ultimately show ?thesis
        using IH k(1) by (cases "k = 0") auto
    qed
  qed simp
qed

lemma literal_body: "q = 34 \<or> q = 39 \<Longrightarrow>
    fromLuaLiteral (toLuaLiteral q bs) = decode_units (escape_bytes q bs)"
  by (auto simp: fromLuaLiteral_def toLuaLiteral_def wrapped_in_def slice1_def butlast_append)

text \<open>C2. Printing a byte string as a Lua literal and decoding the literal gives the bytes
  back exactly when no zero byte is directly followed by an ASCII digit; in the other case
  the decoded string is shorter.\<close>

theorem literal_roundtrip:
  assumes "q = 34 \<or> q = 39"
  shows "(fromLuaLiteral (toLuaLiteral q bs) = bs \<longleftrightarrow> zero_safe bs) \<and>
    length (fromLuaLiteral (toLuaLiteral q bs)) \<le> length bs"
  using decode_escape_safe[OF assms, of bs] decode_escape_length[OF assms, of bs]
  by (auto simp: literal_body[OF assms])

theorem literal_roundtrip_witness:
  "fromLuaLiteral (toLuaLiteral 34 [0, 65, 200, 34]) = [0, 65, 200, 34]"
  using literal_roundtrip [of 34 "[0, 65, 200, 34]"] by simp

text \<open>The failing case is reachable: the buffer of a zero byte and the character 1 prints
  as a literal that denotes the single byte 1.\<close>

theorem literal_zero_digit_corrupted:
  "toLuaLiteral 34 [0, 49] = [34, 92, 48, 49, 34] \<and> fromLuaLiteral (toLuaLiteral 34 [0, 49]) = [1]"
  by (simp add: literal_body) (simp add: toLuaLiteral_def escape_byte_def decode_escape_def
      more_digits_def decimal_digits_def)

text \<open>Source text is decoded from UTF-8 before it is scanned, but a literal keeps only the low
  byte of each code unit: every unit that is no backslash is decoded to its value modulo 256,
  so a character beyond U+00FF is replaced by an unrelated byte.\<close>

theorem literal_truncates_units:
  assumes "\<And>c. c \<in> set s \<Longrightarrow> c \<noteq> 92"
  shows "map unat (fromLuaLiteral (34 # s @ [34])) = map (\<lambda>c. c mod 256) s"
proof -
  have "decode_units s = map word_of_nat s"
    using assms by (induction s) auto
  moreover have "unat (word_of_nat c :: 8 word) = c mod 256" for c
    by (simp add: unat_of_nat)
  ultimately show ?thesis
    by (simp add: fromLuaLiteral_def wrapped_in_def slice1_def butlast_append)
qed

theorem literal_truncates_units_witness:
  "map unat (fromLuaLiteral [34, 20013, 34]) = [45]"
  using literal_truncates_units [of "[20013]"] by simp

end
