(* ===== verification/Tokens.thy ===== *)
theory Tokens
  imports JS_Number Byte_String
begin

text \<open>
  Tokens (\<open>packages/core/src/lexer/tokens.js\<close>) and the parse error
  (\<open>packages/shared/src/errors.js\<close>). The token types are the entries of \<open>TokenType\<close>, plus
  the objects that a lookup of an identifier in the keyword table finds on the prototype
  of every JavaScript object (\<open>T_INHERITED\<close>).
\<close>

datatype token_type =
  T_AND | T_BREAK | T_DO | T_ELSE | T_ELSEIF | T_END | T_FALSE | T_FOR | T_FUNCTION | T_IF
| T_IN | T_LOCAL | T_NIL | T_NOT | T_OR | T_REPEAT | T_RETURN | T_THEN | T_TRUE | T_UNTIL
| T_WHILE | T_CONTINUE | T_IDENT | T_NUMBER | T_STRING
| T_PLUS | T_MINUS | T_STAR | T_SLASH | T_PERCENT | T_CARET | T_HASH | T_EQ_EQ | T_TILDE_EQ
| T_LT_EQ | T_GT_EQ | T_LT | T_GT | T_ASSIGN | T_LPAREN | T_RPAREN | T_LBRACE | T_RBRACE
| T_LBRACKET | T_RBRACKET | T_SEMICOLON | T_COLON | T_COMMA | T_DOT | T_DOT_DOT
| T_DOT_DOT_DOT | T_PLUS_EQ | T_MINUS_EQ | T_STAR_EQ | T_SLASH_EQ | T_CONCAT_EQ | T_EOF
| T_INHERITED string

text \<open>The string that \<open>TokenType\<close> holds for a type.\<close>

definition keyword_types :: "(string \<times> token_type) list" where
  "keyword_types =
     [(''AND'', T_AND), (''BREAK'', T_BREAK), (''DO'', T_DO), (''ELSE'', T_ELSE),
      (''ELSEIF'', T_ELSEIF), (''END'', T_END), (''FALSE'', T_FALSE), (''FOR'', T_FOR),
      (''FUNCTION'', T_FUNCTION), (''IF'', T_IF), (''IN'', T_IN), (''LOCAL'', T_LOCAL),
      (''NIL'', T_NIL), (''NOT'', T_NOT), (''OR'', T_OR), (''REPEAT'', T_REPEAT),
      (''RETURN'', T_RETURN), (''THEN'', T_THEN), (''TRUE'', T_TRUE), (''UNTIL'', T_UNTIL),
      (''WHILE'', T_WHILE), (''CONTINUE'', T_CONTINUE), (''IDENT'', T_IDENT),
      (''NUMBER'', T_NUMBER), (''STRING'', T_STRING), (''EOF'', T_EOF)]"

definition operator_types :: "(string \<times> token_type) list" where
  "operator_types =
     [(''+'', T_PLUS), (''-'', T_MINUS), (''*'', T_STAR), (''/'', T_SLASH), (''%'', T_PERCENT),
      (''^'', T_CARET), (''#'', T_HASH), (''=='', T_EQ_EQ), (''~='', T_TILDE_EQ),
      (''<='', T_LT_EQ), (''>='', T_GT_EQ), (''<'', T_LT), (''>'', T_GT), (''='', T_ASSIGN),
      (''('', T_LPAREN), ('')'', T_RPAREN), (''{'', T_LBRACE), (''}'', T_RBRACE),
      (''['', T_LBRACKET), ('']'', T_RBRACKET), ('';'', T_SEMICOLON), ('':'', T_COLON),
      ('','', T_COMMA), (''.'', T_DOT), (''..'', T_DOT_DOT), (''...'', T_DOT_DOT_DOT),
      (''+='', T_PLUS_EQ), (''-='', T_MINUS_EQ), (''*='', T_STAR_EQ), (''/='', T_SLASH_EQ),
      (''..='', T_CONCAT_EQ)]"

definition type_text :: "token_type \<Rightarrow> string" where
  "type_text t =
     (case map_of (map prod.swap (keyword_types @ operator_types)) t of
        Some s \<Rightarrow> s
      | None \<Rightarrow> (case t of T_INHERITED s \<Rightarrow> s | _ \<Rightarrow> []))"

definition KEYWORDS :: "(string \<times> token_type) list" where
  "KEYWORDS =
     [(''and'', T_AND), (''break'', T_BREAK), (''do'', T_DO), (''else'', T_ELSE),
      (''elseif'', T_ELSEIF), (''end'', T_END), (''false'', T_FALSE), (''for'', T_FOR),
      (''function'', T_FUNCTION), (''if'', T_IF), (''in'', T_IN), (''local'', T_LOCAL),
      (''nil'', T_NIL), (''not'', T_NOT), (''or'', T_OR), (''repeat'', T_REPEAT),
      (''return'', T_RETURN), (''then'', T_THEN), (''true'', T_TRUE), (''until'', T_UNTIL),
      (''while'', T_WHILE), (''continue'', T_CONTINUE)]"

text \<open>The properties every object literal inherits from \<open>Object.prototype\<close>.\<close>

definition inherited_properties :: "string list" where
  "inherited_properties =
     [''constructor'', ''toString'', ''valueOf'', ''toLocaleString'', ''hasOwnProperty'',
      ''isPrototypeOf'', ''propertyIsEnumerable'', ''__proto__'', ''__defineGetter__'',
      ''__defineSetter__'', ''__lookupGetter__'', ''__lookupSetter__'']"

definition keyword_table :: "(js_string \<times> token_type) list" where
  "keyword_table = map (\<lambda>(s, t). (units s, t)) KEYWORDS @
     map (\<lambda>s. (units s, T_INHERITED s)) inherited_properties"

text \<open>\<open>KEYWORDS[name]\<close>.\<close>

definition lookup_keyword :: "js_string \<Rightarrow> token_type option" where
  "lookup_keyword name = map_of keyword_table name"

datatype token_value = V_null | V_bool bool | V_text js_string | V_bytes byte_string | V_num jsnum

record token =
  ttype :: token_type
  tvalue :: token_value
  tline :: nat
  tcolumn :: nat
  toffset :: nat
  traw :: js_string

definition Token :: "token_type \<Rightarrow> token_value \<Rightarrow> nat \<Rightarrow> nat \<Rightarrow> nat \<Rightarrow> js_string \<Rightarrow> token" where
  "Token ty v l c off raw =
     \<lparr>ttype = ty, tvalue = v, tline = l, tcolumn = c, toffset = off, traw = raw\<rparr>"

lemma Token_simps [simp]:
  "ttype (Token ty v l c off raw) = ty" "tvalue (Token ty v l c off raw) = v"
  "tline (Token ty v l c off raw) = l" "tcolumn (Token ty v l c off raw) = c"
  "toffset (Token ty v l c off raw) = off" "traw (Token ty v l c off raw) = raw"
  by (simp_all add: Token_def)

text \<open>
  \<open>ParseError\<close>: the message, kept apart from the numbers it is formatted with, and the
  position. A message that names what was found holds the type found.
\<close>

datatype parse_message =
  Message string
| UnexpectedCharacter nat
| UnexpectedToken string token_type
| NotCallable string

datatype parse_error = ParseError parse_message nat nat nat | TypeError string

end
