(* ===== verification/AST.thy ===== *)
theory AST
  imports Tokens
begin

text \<open>
  The syntax tree (\<open>packages/core/src/ast/nodes.js\<close>) and its rewriting
  (\<open>packages/core/src/ast/visitor.js\<close>). A node is a constructor with the properties of its
  builder; positions that hold an identifier node are expressions, as a rewrite may put
  another node there. The flag \<open>inParens\<close> is kept where it is read: on \<open>...\<close>. Locations are
  not kept: the parser never sets them. Trees share no nodes.
\<close>

datatype expr =
  Identifier js_string
| NumericLiteral jsnum js_string
| StringLiteral byte_string js_string
| BooleanLiteral bool
| NilLiteral
| VarargLiteral bool
| UnaryExpression string expr
| BinaryExpression string expr expr
| LogicalExpression string expr expr
| CallExpression expr "expr list"
| MethodCallExpression expr expr "expr list"
| MemberExpression expr expr
| IndexExpression expr expr
| FunctionExpression "expr list" bool "stmt list"
| TableConstructor "table_field list"
and table_field =
  TableKey expr expr
| TableKeyString expr expr
| TableValue expr
and stmt =
  LocalStatement "expr list" "expr list"
| AssignmentStatement "expr list" "expr list"
| LocalFunctionStatement expr "expr list" bool "stmt list"
| FunctionDeclaration expr "expr list" bool "stmt list" bool
| CallStatement expr
| IfStatement "clause list" "stmt list option"
| WhileStatement expr "stmt list"
| RepeatStatement expr "stmt list"
| NumericForStatement expr expr expr "expr option" "stmt list"
| GenericForStatement "expr list" "expr list" "stmt list"
| DoStatement "stmt list"
| ReturnStatement "expr list"
| BreakStatement
| ContinueStatement
| EmptyStatement
and clause = Clause expr "stmt list"

type_synonym chunk = "stmt list"

fun is_identifier :: "expr \<Rightarrow> bool" where
  "is_identifier (Identifier n) = True" | "is_identifier _ = False"

fun is_number :: "expr \<Rightarrow> bool" where
  "is_number (NumericLiteral v r) = True" | "is_number _ = False"

fun is_string :: "expr \<Rightarrow> bool" where
  "is_string (StringLiteral v r) = True" | "is_string _ = False"

fun is_boolean :: "expr \<Rightarrow> bool" where
  "is_boolean (BooleanLiteral b) = True" | "is_boolean _ = False"

fun is_nil :: "expr \<Rightarrow> bool" where
  "is_nil NilLiteral = True" | "is_nil _ = False"

fun is_function :: "expr \<Rightarrow> bool" where
  "is_function (FunctionExpression ps va b) = True" | "is_function _ = False"

fun is_table :: "expr \<Rightarrow> bool" where
  "is_table (TableConstructor fs) = True" | "is_table _ = False"

fun is_call :: "expr \<Rightarrow> bool" where
  "is_call (CallExpression b args) = True" |
  "is_call (MethodCallExpression b m args) = True" |
  "is_call _ = False"

text \<open>The property \<open>name\<close> of a node; other nodes have none.\<close>

fun node_name :: "expr \<Rightarrow> js_string option" where
  "node_name (Identifier n) = Some n" | "node_name _ = None"

definition numericLiteral :: "jsnum \<Rightarrow> js_string \<Rightarrow> expr" where
  "numericLiteral v raw = NumericLiteral v (if raw = [] then js_num_to_string v else raw)"

definition stringLiteral :: "byte_string \<Rightarrow> js_string \<Rightarrow> expr" where
  "stringLiteral v raw = StringLiteral v (if raw = [] then toLuaLiteral 34 v else raw)"

section \<open>Rewriting\<close>

text \<open>
  \<open>transform\<close> rewrites children first, in the order of the properties, then offers the node
  to the transformer. The transformers of the passes act on expressions and statements;
  \<open>None\<close> is \<open>undefined\<close>. A statement may be replaced by several (the array is spliced into the
  block). The state is what the callback closes over.
\<close>

record 's transformer =
  on_expr :: "expr \<Rightarrow> 's \<Rightarrow> expr option \<times> 's"
  on_stmt :: "stmt \<Rightarrow> 's \<Rightarrow> stmt list option \<times> 's"

definition finish_expr :: "'s transformer \<Rightarrow> expr \<times> 's \<Rightarrow> expr \<times> 's" where
  "finish_expr F p =
     (case p of (e, s) \<Rightarrow> (case on_expr F e s of
        (Some e', s') \<Rightarrow> (e', s')
      | (None, s') \<Rightarrow> (e, s')))"

definition finish_stmt :: "'s transformer \<Rightarrow> stmt \<times> 's \<Rightarrow> stmt list \<times> 's" where
  "finish_stmt F p =
     (case p of (st, s) \<Rightarrow> (case on_stmt F st s of
        (Some ss, s') \<Rightarrow> (ss, s')
      | (None, s') \<Rightarrow> ([st], s')))"

fun transform_expr :: "'s transformer \<Rightarrow> expr \<Rightarrow> 's \<Rightarrow> expr \<times> 's"
and transform_exprs :: "'s transformer \<Rightarrow> expr list \<Rightarrow> 's \<Rightarrow> expr list \<times> 's"
and transform_field :: "'s transformer \<Rightarrow> table_field \<Rightarrow> 's \<Rightarrow> table_field \<times> 's"
and transform_fields :: "'s transformer \<Rightarrow> table_field list \<Rightarrow> 's \<Rightarrow> table_field list \<times> 's"
and transform_stmt :: "'s transformer \<Rightarrow> stmt \<Rightarrow> 's \<Rightarrow> stmt list \<times> 's"
and transform_block :: "'s transformer \<Rightarrow> stmt list \<Rightarrow> 's \<Rightarrow> stmt list \<times> 's"
and transform_clause :: "'s transformer \<Rightarrow> clause \<Rightarrow> 's \<Rightarrow> clause \<times> 's"
and transform_clauses :: "'s transformer \<Rightarrow> clause list \<Rightarrow> 's \<Rightarrow> clause list \<times> 's"
where
  "transform_expr F (UnaryExpression op a) s =
     (let (a', s1) = transform_expr F a s in finish_expr F (UnaryExpression op a', s1))"
| "transform_expr F (BinaryExpression op l r) s =
     (let (l', s1) = transform_expr F l s; (r', s2) = transform_expr F r s1
      in finish_expr F (BinaryExpression op l' r', s2))"
| "transform_expr F (LogicalExpression op l r) s =
     (let (l', s1) = transform_expr F l s; (r', s2) = transform_expr F r s1
      in finish_expr F (LogicalExpression op l' r', s2))"
| "transform_expr F (CallExpression b args) s =
     (let (b', s1) = transform_expr F b s; (args', s2) = transform_exprs F args s1
      in finish_expr F (CallExpression b' args', s2))"
| "transform_expr F (MethodCallExpression b m args) s =
     (let (b', s1) = transform_expr F b s; (m', s2) = transform_expr F m s1;
          (args', s3) = transform_exprs F args s2
      in finish_expr F (MethodCallExpression b' m' args', s3))"
| "transform_expr F (MemberExpression b p) s =
     (let (b', s1) = transform_expr F b s; (p', s2) = transform_expr F p s1
      in finish_expr F (MemberExpression b' p', s2))"
| "transform_expr F (IndexExpression b i) s =
     (let (b', s1) = transform_expr F b s; (i', s2) = transform_expr F i s1
      in finish_expr F (IndexExpression b' i', s2))"
| "transform_expr F (FunctionExpression ps va body) s =
     (let (ps', s1) = transform_exprs F ps s; (body', s2) = transform_block F body s1
      in finish_expr F (FunctionExpression ps' va body', s2))"
| "transform_expr F (TableConstructor fs) s =
     (let (fs', s1) = transform_fields F fs s in finish_expr F (TableConstructor fs', s1))"
| "transform_expr F e s = finish_expr F (e, s)"
| "transform_exprs F [] s = ([], s)"
| "transform_exprs F (e # es) s =
     (let (e', s1) = transform_expr F e s; (es', s2) = transform_exprs F es s1 in (e' # es', s2))"
| "transform_field F (TableKey k v) s =
     (let (k', s1) = transform_expr F k s; (v', s2) = transform_expr F v s1 in (TableKey k' v', s2))"
| "transform_field F (TableKeyString k v) s =
     (let (k', s1) = transform_expr F k s; (v', s2) = transform_expr F v s1
      in (TableKeyString k' v', s2))"
| "transform_field F (TableValue v) s =
     (let (v', s1) = transform_expr F v s in (TableValue v', s1))"
| "transform_fields F [] s = ([], s)"
| "transform_fields F (f # fs) s =
     (let (f', s1) = transform_field F f s; (fs', s2) = transform_fields F fs s1
      in (f' # fs', s2))"
| "transform_stmt F (LocalStatement vs es) s =
     (let (vs', s1) = transform_exprs F vs s; (es', s2) = transform_exprs F es s1
      in finish_stmt F (LocalStatement vs' es', s2))"
| "transform_stmt F (AssignmentStatement vs es) s =
     (let (vs', s1) = transform_exprs F vs s; (es', s2) = transform_exprs F es s1
      in finish_stmt F (AssignmentStatement vs' es', s2))"
| "transform_stmt F (LocalFunctionStatement i ps va b) s =
     (let (i', s1) = transform_expr F i s; (ps', s2) = transform_exprs F ps s1;
          (b', s3) = transform_block F b s2
      in finish_stmt F (LocalFunctionStatement i' ps' va b', s3))"
| "transform_stmt F (FunctionDeclaration n ps va b im) s =
     (let (n', s1) = transform_expr F n s; (ps', s2) = transform_exprs F ps s1;
          (b', s3) = transform_block F b s2
      in finish_stmt F (FunctionDeclaration n' ps' va b' im, s3))"
| "transform_stmt F (CallStatement e) s =
     (let (e', s1) = transform_expr F e s in finish_stmt F (CallStatement e', s1))"
| "transform_stmt F (IfStatement cs None) s =
     (let (cs', s1) = transform_clauses F cs s in finish_stmt F (IfStatement cs' None, s1))"
| "transform_stmt F (IfStatement cs (Some b)) s =
     (let (cs', s1) = transform_clauses F cs s; (b', s2) = transform_block F b s1
      in finish_stmt F (IfStatement cs' (Some b'), s2))"
| "transform_stmt F (WhileStatement c b) s =
     (let (c', s1) = transform_expr F c s; (b', s2) = transform_block F b s1
      in finish_stmt F (WhileStatement c' b', s2))"
| "transform_stmt F (RepeatStatement c b) s =
     (let (c', s1) = transform_expr F c s; (b', s2) = transform_block F b s1
      in finish_stmt F (RepeatStatement c' b', s2))"
| "transform_stmt F (NumericForStatement v e1 e2 None b) s =
     (let (v', s1) = transform_expr F v s; (a1, s2) = transform_expr F e1 s1;
          (a2, s3) = transform_expr F e2 s2; (b', s4) = transform_block F b s3
      in finish_stmt F (NumericForStatement v' a1 a2 None b', s4))"
| "transform_stmt F (NumericForStatement v e1 e2 (Some e3) b) s =
     (let (v', s1) = transform_expr F v s; (a1, s2) = transform_expr F e1 s1;
          (a2, s3) = transform_expr F e2 s2; (a3, s4) = transform_expr F e3 s3;
          (b', s5) = transform_block F b s4
      in finish_stmt F (NumericForStatement v' a1 a2 (Some a3) b', s5))"
| "transform_stmt F (GenericForStatement vs es b) s =
     (let (vs', s1) = transform_exprs F vs s; (es', s2) = transform_exprs F es s1;
          (b', s3) = transform_block F b s2
      in finish_stmt F (GenericForStatement vs' es' b', s3))"
| "transform_stmt F (DoStatement b) s =
     (let (b', s1) = transform_block F b s in finish_stmt F (DoStatement b', s1))"
| "transform_stmt F (ReturnStatement es) s =
     (let (es', s1) = transform_exprs F es s in finish_stmt F (ReturnStatement es', s1))"
| "transform_stmt F BreakStatement s = finish_stmt F (BreakStatement, s)"
| "transform_stmt F ContinueStatement s = finish_stmt F (ContinueStatement, s)"
| "transform_stmt F EmptyStatement s = finish_stmt F (EmptyStatement, s)"
| "transform_block F [] s = ([], s)"
| "transform_block F (st # ss) s =
     (let (st', s1) = transform_stmt F st s; (ss', s2) = transform_block F ss s1
      in (st' @ ss', s2))"
| "transform_clause F (Clause c b) s =
     (let (c', s1) = transform_expr F c s; (b', s2) = transform_block F b s1
      in (Clause c' b', s2))"
| "transform_clauses F [] s = ([], s)"
| "transform_clauses F (c # cs) s =
     (let (c', s1) = transform_clause F c s; (cs', s2) = transform_clauses F cs s1
      in (c' # cs', s2))"

text \<open>What the callbacks keep of the state, the whole rewrite keeps.\<close>

lemma finish_keeps:
  assumes "\<And>e s. I s \<Longrightarrow> I (snd (on_expr F e s))"
    and "\<And>st s. I s \<Longrightarrow> I (snd (on_stmt F st s))"
  shows "I (snd p) \<Longrightarrow> I (snd (finish_expr F p))" and "I (snd q) \<Longrightarrow> I (snd (finish_stmt F q))"
  using assms(1)[of "snd p" "fst p"] assms(2)[of "snd q" "fst q"]
  by (auto simp: finish_expr_def finish_stmt_def split: prod.splits option.splits)

lemma transform_lists_keep:
  "(\<And>e s. e \<in> set es \<Longrightarrow> I s \<Longrightarrow> I (snd (transform_expr F e s))) \<Longrightarrow>
    I s \<Longrightarrow> I (snd (transform_exprs F es s))"
  "(\<And>f s. f \<in> set fs \<Longrightarrow> I s \<Longrightarrow> I (snd (transform_field F f s))) \<Longrightarrow>
    I s \<Longrightarrow> I (snd (transform_fields F fs s))"
  "(\<And>st s. st \<in> set b \<Longrightarrow> I s \<Longrightarrow> I (snd (transform_stmt F st s))) \<Longrightarrow>
    I s \<Longrightarrow> I (snd (transform_block F b s))"
  "(\<And>c s. c \<in> set cs \<Longrightarrow> I s \<Longrightarrow> I (snd (transform_clause F c s))) \<Longrightarrow>
    I s \<Longrightarrow> I (snd (transform_clauses F cs s))"
  subgoal by (induction es arbitrary: s) (simp_all add: split_beta)
  subgoal by (induction fs arbitrary: s) (simp_all add: split_beta)
  subgoal by (induction b arbitrary: s) (simp_all add: split_beta)
  subgoal by (induction cs arbitrary: s) (simp_all add: split_beta)
  done

lemma transform_keeps:
  assumes "\<And>e s. I s \<Longrightarrow> I (snd (on_expr F e s))"
    and "\<And>st s. I s \<Longrightarrow> I (snd (on_stmt F st s))"
  shows "I s \<Longrightarrow> I (snd (transform_expr F e s))"
    and "I s \<Longrightarrow> I (snd (transform_field F fl s))"
    and "I s \<Longrightarrow> I (snd (transform_stmt F st s))"
    and "I s \<Longrightarrow> I (snd (transform_clause F c s))"
proof (induction e and fl and st and c arbitrary: s and s and s and s)
  case (IfStatement cs o_body)
  then show ?case
    by (cases o_body) (simp_all add: finish_keeps[OF assms] transform_lists_keep split_beta)
next
  case (NumericForStatement v e1 e2 o_step b)
  then show ?case
    by (cases o_step) (simp_all add: finish_keeps[OF assms] transform_lists_keep split_beta)
qed (simp_all add: finish_keeps[OF assms] transform_lists_keep split_beta)

end
