(* ===== verification/Evaluator.thy ===== *)
theory Evaluator
  imports AST
begin

text \<open>
  The constant folder (\<open>packages/core/src/evaluator/constant-evaluator.js\<close>). \<open>Math.pow\<close> is the
  parameter \<open>pow\<close>: the language leaves its result to the implementation. Lua strings are byte
  strings throughout, as the parser builds them.
\<close>

record eval_stats =
  expressionsInspected :: nat
  expressionsSimplified :: nat
  constantsPropagated :: nat
  unsafeExpressionsSkipped :: nat

definition resetStats :: eval_stats where
  "resetStats = \<lparr>expressionsInspected = 0, expressionsSimplified = 0, constantsPropagated = 0,
     unsafeExpressionsSkipped = 0\<rparr>"

fun isFoldable :: "expr \<Rightarrow> bool" where
  "isFoldable (UnaryExpression op a) = True"
| "isFoldable (BinaryExpression op l r) = True"
| "isFoldable (LogicalExpression op l r) = True"
| "isFoldable e = False"

definition num_result :: "jsnum \<Rightarrow> expr" where
  "num_result v = numericLiteral v (js_num_to_string v)"

definition evalUnary :: "string \<Rightarrow> expr \<Rightarrow> expr option" where
  "evalUnary op arg =
     (case arg of
        NumericLiteral v raw \<Rightarrow>
          if op = ''-'' then Some (num_result (num_neg v))
          else if op = ''not'' then Some (BooleanLiteral False) else None
      | BooleanLiteral b \<Rightarrow> if op = ''not'' then Some (BooleanLiteral (\<not> b)) else None
      | NilLiteral \<Rightarrow> if op = ''not'' then Some (BooleanLiteral True) else None
      | StringLiteral s raw \<Rightarrow>
          if op = ''not'' then Some (BooleanLiteral False)
          else if op = ''#'' then Some (num_result (Num (of_nat (bs_length s)))) else None
      | TableConstructor fs \<Rightarrow> if op = ''not'' then Some (BooleanLiteral False) else None
      | _ \<Rightarrow> None)"

definition if_finite :: "jsnum \<Rightarrow> expr option" where
  "if_finite res = (if isFinite res then Some (num_result res) else None)"

definition js_mod :: "jsnum \<Rightarrow> jsnum \<Rightarrow> jsnum" where
  "js_mod l r = num_sub l (num_mul (num_floor (num_div l r)) r)"

definition evalNumbers ::
  "(jsnum \<Rightarrow> jsnum \<Rightarrow> jsnum) \<Rightarrow> string \<Rightarrow> jsnum \<Rightarrow> jsnum \<Rightarrow> expr option" where
  "evalNumbers pow op l r =
     (if op = ''+'' then if_finite (num_add l r)
      else if op = ''-'' then if_finite (num_sub l r)
      else if op = ''*'' then if_finite (num_mul l r)
      else if op = ''/'' then (if \<not> num_eq r (Num 0) then if_finite (num_div l r) else None)
      else if op = ''%'' then (if \<not> num_eq r (Num 0) then if_finite (js_mod l r) else None)
      else if op = ''^'' then
        (if num_le (num_abs r) (Num 64) \<and> num_le (num_abs l) (Num (10 ^ 9))
         then if_finite (pow l r) else None)
      else if op = ''<'' then Some (BooleanLiteral (num_lt l r))
      else if op = ''<='' then Some (BooleanLiteral (num_le l r))
      else if op = ''>'' then Some (BooleanLiteral (num_lt r l))
      else if op = ''>='' then Some (BooleanLiteral (num_le r l))
      else if op = ''=='' then Some (BooleanLiteral (num_eq l r))
      else if op = ''~='' then Some (BooleanLiteral (\<not> num_eq l r))
      else None)"

definition literal_value :: "expr \<Rightarrow> bool" where
  "literal_value e \<longleftrightarrow> is_number e \<or> is_string e \<or> is_boolean e"

text \<open>The tests for \<open>==\<close> and \<open>~=\<close> that follow the number and concatenation cases.\<close>

definition evalEquality :: "bool \<Rightarrow> expr \<Rightarrow> expr \<Rightarrow> expr option" where
  "evalEquality isEq left right =
     (case (left, right) of
        (BooleanLiteral a, BooleanLiteral b) \<Rightarrow>
          Some (BooleanLiteral (if isEq then a = b else a \<noteq> b))
      | (NilLiteral, NilLiteral) \<Rightarrow> Some (BooleanLiteral isEq)
      | (StringLiteral a ra, StringLiteral b rb) \<Rightarrow>
          Some (BooleanLiteral (if isEq then bs_equals a b else \<not> bs_equals a b))
      | _ \<Rightarrow>
          if is_nil left \<and> literal_value right \<or> is_nil right \<and> literal_value left
            \<or> is_number left \<and> is_string right \<or> is_string left \<and> is_number right
            \<or> is_boolean left \<and> is_number right \<or> is_number left \<and> is_boolean right
          then Some (BooleanLiteral (\<not> isEq)) else None)"

definition evalRest :: "string \<Rightarrow> expr \<Rightarrow> expr \<Rightarrow> expr option" where
  "evalRest op left right =
     (if op = ''..'' then
        (case (left, right) of
           (StringLiteral a ra, StringLiteral b rb) \<Rightarrow> Some (stringLiteral (bs_concat a b) [])
         | _ \<Rightarrow> None)
      else if op = ''=='' \<or> op = ''~='' then evalEquality (op = ''=='') left right
      else None)"

definition evalBinary ::
  "(jsnum \<Rightarrow> jsnum \<Rightarrow> jsnum) \<Rightarrow> string \<Rightarrow> expr \<Rightarrow> expr \<Rightarrow> expr option" where
  "evalBinary pow op left right =
     (case (left, right) of
        (NumericLiteral l rl, NumericLiteral r rr) \<Rightarrow>
          (case evalNumbers pow op l r of
             Some e \<Rightarrow> Some e
           | None \<Rightarrow> evalRest op left right)
      | _ \<Rightarrow> evalRest op left right)"

definition isStaticallyTruthy :: "expr \<Rightarrow> bool option" where
  "isStaticallyTruthy e =
     (case e of
        BooleanLiteral b \<Rightarrow> Some b
      | NilLiteral \<Rightarrow> Some False
      | NumericLiteral v raw \<Rightarrow> Some True
      | StringLiteral s raw \<Rightarrow> Some True
      | TableConstructor fs \<Rightarrow> Some True
      | FunctionExpression ps va body \<Rightarrow> Some True
      | _ \<Rightarrow> None)"

definition evalLogical :: "string \<Rightarrow> expr \<Rightarrow> expr \<Rightarrow> expr option" where
  "evalLogical op left right =
     (case isStaticallyTruthy left of
        Some t \<Rightarrow>
          if op = ''and'' then Some (if t then right else left)
          else if op = ''or'' then Some (if t then left else right)
          else None
      | None \<Rightarrow> None)"

definition tryEvaluate :: "(jsnum \<Rightarrow> jsnum \<Rightarrow> jsnum) \<Rightarrow> expr \<Rightarrow> expr option" where
  "tryEvaluate pow e =
     (case e of
        UnaryExpression op a \<Rightarrow> evalUnary op a
      | BinaryExpression op l r \<Rightarrow> evalBinary pow op l r
      | LogicalExpression op l r \<Rightarrow> evalLogical op l r
      | _ \<Rightarrow> None)"

text \<open>The callback of \<open>fold\<close>.\<close>

definition fold_expr ::
  "(jsnum \<Rightarrow> jsnum \<Rightarrow> jsnum) \<Rightarrow> expr \<Rightarrow> eval_stats \<Rightarrow> expr option \<times> eval_stats" where
  "fold_expr pow current s =
     (if \<not> isFoldable current then (None, s)
      else
        let s1 = s\<lparr>expressionsInspected := expressionsInspected s + 1\<rparr>
        in case tryEvaluate pow current of
             Some folded \<Rightarrow>
               (Some folded, s1\<lparr>expressionsSimplified := expressionsSimplified s1 + 1\<rparr>)
           | None \<Rightarrow>
               (None, s1\<lparr>unsafeExpressionsSkipped := unsafeExpressionsSkipped s1 + 1\<rparr>))"

definition fold_transformer :: "(jsnum \<Rightarrow> jsnum \<Rightarrow> jsnum) \<Rightarrow> eval_stats transformer" where
  "fold_transformer pow = \<lparr>on_expr = fold_expr pow, on_stmt = (\<lambda>st s. (None, s))\<rparr>"

definition fold_node ::
  "(jsnum \<Rightarrow> jsnum \<Rightarrow> jsnum) \<Rightarrow> expr \<Rightarrow> eval_stats \<Rightarrow> expr \<times> eval_stats" where
  "fold_node pow e s = transform_expr (fold_transformer pow) e s"

definition fold_chunk ::
  "(jsnum \<Rightarrow> jsnum \<Rightarrow> jsnum) \<Rightarrow> chunk \<Rightarrow> eval_stats \<Rightarrow> chunk \<times> eval_stats" where
  "fold_chunk pow c s = transform_block (fold_transformer pow) c s"

definition foldConstants ::
  "(jsnum \<Rightarrow> jsnum \<Rightarrow> jsnum) \<Rightarrow> chunk \<Rightarrow> chunk \<times> eval_stats" where
  "foldConstants pow c = fold_chunk pow c resetStats"

end
