(* ===== verification/Evaluator_Props.thy ===== *)
theory Evaluator_Props
  imports Evaluator
begin

text \<open>
  Constant folding against Lua's meaning of expressions: \<open>leval\<close> evaluates an expression to
  one Lua value. What the folder never decides (variables, calls, arithmetic on other types,
  metamethods) is left to the parameters of the semantics.
\<close>

section \<open>The value of an expression\<close>

datatype lvalue = LNil | LBool bool | LNum jsnum | LStr byte_string | LRef nat

fun truthy :: "lvalue \<Rightarrow> bool" where
  "truthy LNil = False" | "truthy (LBool b) = b" | "truthy _ = True"

record lua_semantics =
  sem_pow :: "jsnum \<Rightarrow> jsnum \<Rightarrow> jsnum"
  sem_var :: "js_string \<Rightarrow> lvalue"
  sem_unop :: "string \<Rightarrow> lvalue \<Rightarrow> lvalue option"
  sem_binop :: "string \<Rightarrow> lvalue \<Rightarrow> lvalue \<Rightarrow> lvalue option"
  sem_other :: "expr \<Rightarrow> lvalue option"

definition lua_unop :: "lua_semantics \<Rightarrow> string \<Rightarrow> lvalue \<Rightarrow> lvalue option" where
  "lua_unop S op v =
     (if op = ''not'' then Some (LBool (\<not> truthy v))
      else case v of
        LNum x \<Rightarrow> if op = ''-'' then Some (LNum (num_neg x)) else sem_unop S op v
      | LStr s \<Rightarrow> if op = ''#'' then Some (LNum (Num (of_nat (length s)))) else sem_unop S op v
      | _ \<Rightarrow> sem_unop S op v)"

definition lua_mod :: "jsnum \<Rightarrow> jsnum \<Rightarrow> jsnum" where
  "lua_mod a b = num_sub a (num_mul (num_floor (num_div a b)) b)"

text \<open>Equality of primitive values; two references may be compared by a metamethod.\<close>

definition lua_equal :: "lua_semantics \<Rightarrow> lvalue \<Rightarrow> lvalue \<Rightarrow> bool option" where
  "lua_equal S a b =
     (case (a, b) of
        (LNum x, LNum y) \<Rightarrow> Some (num_eq x y)
      | (LRef x, LRef y) \<Rightarrow> map_option truthy (sem_binop S ''=='' a b)
      | _ \<Rightarrow> Some (a = b))"

definition lua_number_op ::
  "(jsnum \<Rightarrow> jsnum \<Rightarrow> jsnum) \<Rightarrow> string \<Rightarrow> jsnum \<Rightarrow> jsnum \<Rightarrow> lvalue option" where
  "lua_number_op pow op x y =
     (if op = ''+'' then Some (LNum (num_add x y))
      else if op = ''-'' then Some (LNum (num_sub x y))
      else if op = ''*'' then Some (LNum (num_mul x y))
      else if op = ''/'' then Some (LNum (num_div x y))
      else if op = ''%'' then Some (LNum (lua_mod x y))
      else if op = ''^'' then Some (LNum (pow x y))
      else if op = ''<'' then Some (LBool (num_lt x y))
      else if op = ''<='' then Some (LBool (num_le x y))
      else if op = ''>'' then Some (LBool (num_lt y x))
      else if op = ''>='' then Some (LBool (num_le y x))
      else None)"

definition lua_binop :: "lua_semantics \<Rightarrow> string \<Rightarrow> lvalue \<Rightarrow> lvalue \<Rightarrow> lvalue option" where
  "lua_binop S op a b =
     (if op = ''=='' then map_option LBool (lua_equal S a b)
      else if op = ''~='' then map_option (\<lambda>e. LBool (\<not> e)) (lua_equal S a b)
      else case (a, b) of
        (LNum x, LNum y) \<Rightarrow>
          (case lua_number_op (sem_pow S) op x y of
             Some v \<Rightarrow> Some v | None \<Rightarrow> sem_binop S op a b)
      | (LStr x, LStr y) \<Rightarrow> if op = ''..'' then Some (LStr (x @ y)) else sem_binop S op a b
      | _ \<Rightarrow> sem_binop S op a b)"

text \<open>\<open>and\<close> and \<open>or\<close> evaluate their right side only when the left does not decide.\<close>

fun leval :: "lua_semantics \<Rightarrow> expr \<Rightarrow> lvalue option" where
  "leval S (Identifier n) = Some (sem_var S n)"
| "leval S (NumericLiteral v raw) = Some (LNum v)"
| "leval S (StringLiteral s raw) = Some (LStr s)"
| "leval S (BooleanLiteral b) = Some (LBool b)"
| "leval S NilLiteral = Some LNil"
| "leval S (UnaryExpression op a) =
     (case leval S a of None \<Rightarrow> None | Some v \<Rightarrow> lua_unop S op v)"
| "leval S (BinaryExpression op l r) =
     (case leval S l of None \<Rightarrow> None
      | Some a \<Rightarrow> (case leval S r of None \<Rightarrow> None | Some b \<Rightarrow> lua_binop S op a b))"
| "leval S (LogicalExpression op l r) =
     (case leval S l of None \<Rightarrow> None
      | Some a \<Rightarrow>
          if op = ''and'' then (if truthy a then leval S r else Some a)
          else if op = ''or'' then (if truthy a then Some a else leval S r)
          else None)"
| "leval S e = sem_other S e"

section \<open>Folding one node\<close>

lemma leval_literals [simp]:
  "leval S (num_result v) = Some (LNum v)"
  "leval S (stringLiteral s raw) = Some (LStr s)"
  by (simp_all add: num_result_def numericLiteral_def stringLiteral_def)

text \<open>What the folder assumes of the two kinds of expression it treats as truthy without
  looking inside: a function expression always yields a reference; a table constructor is
  excluded (its fields may fail or have effects).\<close>

definition functions_are_values :: "lua_semantics \<Rightarrow> bool" where
  "functions_are_values S \<longleftrightarrow>
     (\<forall>ps va body. \<exists>r. sem_other S (FunctionExpression ps va body) = Some (LRef r))"

definition no_table_operand :: "expr \<Rightarrow> bool" where
  "no_table_operand e =
     (case e of
        UnaryExpression op a \<Rightarrow> \<not> is_table a
      | LogicalExpression op l r \<Rightarrow> \<not> is_table l
      | _ \<Rightarrow> True)"

lemma evalUnary_sound:
  assumes "evalUnary op a = Some e" and "\<not> is_table a"
  shows "leval S e = leval S (UnaryExpression op a)"
  using assms by (cases a) (auto simp: evalUnary_def lua_unop_def bs_length_def split: if_splits)

lemma evalNumbers_sound:
  assumes "evalNumbers (sem_pow S) op l r = Some e"
  shows "leval S e = lua_binop S op (LNum l) (LNum r)"
  using assms
  by (auto simp: evalNumbers_def if_finite_def lua_binop_def lua_equal_def lua_number_op_def
      lua_mod_def js_mod_def split: if_splits)

lemma evalEquality_sound:
  assumes "evalEquality isEq l r = Some e" and "\<not> (is_number l \<and> is_number r)"
  shows "leval S e = leval S (BinaryExpression (if isEq then ''=='' else ''~='') l r)"
  using assms
  by (cases l; cases r)
    (auto simp: evalEquality_def literal_value_def lua_binop_def lua_equal_def bs_equals_def)

lemma isStaticallyTruthy_sound:
  assumes "isStaticallyTruthy e = Some t" and "\<not> is_table e" and "functions_are_values S"
  shows "\<exists>v. leval S e = Some v \<and> truthy v = t"
  using assms by (cases e) (auto simp: isStaticallyTruthy_def functions_are_values_def, metis truthy.simps(5))

lemma evalLogical_sound:
  assumes "evalLogical op l r = Some e" and "\<not> is_table l" and "functions_are_values S"
  shows "leval S e = leval S (LogicalExpression op l r)"
proof -
  from assms(1) obtain t where "isStaticallyTruthy l = Some t"
    and e: "op = ''and'' \<and> e = (if t then r else l) \<or> op = ''or'' \<and> e = (if t then l else r)"
    by (auto simp: evalLogical_def split: option.splits if_splits)
  with isStaticallyTruthy_sound[OF _ assms(2,3)] obtain v where
    "leval S l = Some v" "truthy v = t" by blast
  with e show ?thesis by auto
qed

lemma evalRest_sound:
  assumes "evalRest op l r = Some e" and "\<not> (is_number l \<and> is_number r)"
  shows "leval S e = leval S (BinaryExpression op l r)"
proof (cases "op = ''..''")
  case True
  with assms(1) show ?thesis
    by (cases l; cases r) (auto simp: evalRest_def lua_binop_def bs_concat_def)
next
  case False
  with assms(1) have "op = ''=='' \<or> op = ''~=''" and eq: "evalEquality (op = ''=='') l r = Some e"
    by (auto simp: evalRest_def split: if_splits)
  with evalEquality_sound[OF eq assms(2)] show ?thesis by auto
qed

lemma evalBinary_sound:
  assumes "evalBinary (sem_pow S) op l r = Some e"
  shows "leval S e = leval S (BinaryExpression op l r)"
proof (cases "is_number l \<and> is_number r")
  case False
  then have "evalBinary (sem_pow S) op l r = evalRest op l r"
    by (cases l; cases r) (auto simp: evalBinary_def)
  with assms False show ?thesis by (simp add: evalRest_sound)
next
  case True
  then obtain a ra b rb where n: "l = NumericLiteral a ra" "r = NumericLiteral b rb"
    by (cases l; cases r) auto
  have "evalRest op l r = None \<or> evalNumbers (sem_pow S) op a b \<noteq> None"
    by (auto simp: n evalRest_def evalNumbers_def)
  with assms n have "evalNumbers (sem_pow S) op a b = Some e"
    by (auto simp: evalBinary_def split: option.splits)
  from evalNumbers_sound[OF this] n show ?thesis by simp
qed


definition demo_semantics :: lua_semantics where
  "demo_semantics = \<lparr>sem_pow = num_mul, sem_var = (\<lambda>n. LNum (Num 3)), sem_unop = (\<lambda>op v. None),
     sem_binop = (\<lambda>op a b. None), sem_other = (\<lambda>e. Some (LRef 0))\<rparr>"


section \<open>Folding a whole expression\<close>

text \<open>Expressions of literals, variables and operators.\<close>

fun operator_expr :: "expr \<Rightarrow> bool" where
  "operator_expr (UnaryExpression op a) = operator_expr a"
| "operator_expr (BinaryExpression op l r) = (operator_expr l \<and> operator_expr r)"
| "operator_expr (LogicalExpression op l r) = (operator_expr l \<and> operator_expr r)"
| "operator_expr (Identifier n) = True"
| "operator_expr (NumericLiteral v raw) = True"
| "operator_expr (StringLiteral v raw) = True"
| "operator_expr (BooleanLiteral b) = True"
| "operator_expr NilLiteral = True"
| "operator_expr e = False"

lemma operator_expr_no_table: "operator_expr e \<Longrightarrow> \<not> is_table e"
  by (cases e) auto

lemma isStaticallyTruthy_operator:
  "operator_expr e \<Longrightarrow> isStaticallyTruthy e = Some t \<Longrightarrow> \<exists>v. leval S e = Some v \<and> truthy v = t"
  by (cases e) (auto simp: isStaticallyTruthy_def)

lemma tryEvaluate_operator:
  assumes "operator_expr e" and "tryEvaluate (sem_pow S) e = Some e'"
  shows "operator_expr e' \<and> leval S e' = leval S e"
proof (cases e)
  case (UnaryExpression op a)
  with assms have u: "evalUnary op a = Some e'" "\<not> is_table a"
    by (auto simp: tryEvaluate_def operator_expr_no_table)
  moreover have "operator_expr e'"
    using u(1) by (cases a) (auto simp: evalUnary_def num_result_def numericLiteral_def split: if_splits)
  ultimately show ?thesis using UnaryExpression evalUnary_sound by simp
next
  case (BinaryExpression op l r)
  with assms(2) have b: "evalBinary (sem_pow S) op l r = Some e'" by (simp add: tryEvaluate_def)
  moreover have "operator_expr e'"
    using b by (auto simp: evalBinary_def evalRest_def evalEquality_def evalNumbers_def if_finite_def
        num_result_def numericLiteral_def stringLiteral_def split: expr.splits if_splits option.splits)
  ultimately show ?thesis using BinaryExpression evalBinary_sound by simp
next
  case (LogicalExpression op l r)
  with assms obtain t where t: "isStaticallyTruthy l = Some t"
    and e: "op = ''and'' \<and> e' = (if t then r else l) \<or> op = ''or'' \<and> e' = (if t then l else r)"
    by (auto simp: tryEvaluate_def evalLogical_def split: option.splits if_splits)
  from LogicalExpression assms(1) have op: "operator_expr l" "operator_expr r" by auto
  obtain v where "leval S l = Some v" "truthy v = t"
    using isStaticallyTruthy_operator[OF op(1) t] by blast
  with e op LogicalExpression show ?thesis by auto
qed (use assms in \<open>simp_all add: tryEvaluate_def\<close>)

lemma finish_fold:
  "operator_expr e \<Longrightarrow>
    operator_expr (fst (finish_expr (fold_transformer (sem_pow S)) (e, s))) \<and>
    leval S (fst (finish_expr (fold_transformer (sem_pow S)) (e, s))) = leval S e"
  using tryEvaluate_operator[of e S]
  by (auto simp: finish_expr_def fold_transformer_def fold_expr_def Let_def split: option.splits)

lemma leval_operands:
  assumes "leval S l' = leval S l" and "leval S r' = leval S r"
  shows "leval S (BinaryExpression op l' r') = leval S (BinaryExpression op l r)"
    and "leval S (LogicalExpression op l' r') = leval S (LogicalExpression op l r)"
  by (simp_all only: leval.simps assms)

lemma fold_operator_expr:
  "operator_expr e \<Longrightarrow>
    operator_expr (fst (fold_node (sem_pow S) e s)) \<and>
    leval S (fst (fold_node (sem_pow S) e s)) = leval S e"
proof (induction e arbitrary: s)
  case (UnaryExpression op a)
  let ?p = "fold_node (sem_pow S) a s"
  have IH: "operator_expr (fst ?p)" "leval S (fst ?p) = leval S a" using UnaryExpression by simp_all
  have "fold_node (sem_pow S) (UnaryExpression op a) s =
      finish_expr (fold_transformer (sem_pow S)) (UnaryExpression op (fst ?p), snd ?p)"
    by (simp add: fold_node_def split_beta)
  with finish_fold[of "UnaryExpression op (fst ?p)" S "snd ?p"] IH show ?case by simp
next
  case (BinaryExpression op l r)
  let ?p = "fold_node (sem_pow S) l s" let ?q = "fold_node (sem_pow S) r (snd ?p)"
  have IH: "operator_expr (fst ?p)" "leval S (fst ?p) = leval S l"
    "operator_expr (fst ?q)" "leval S (fst ?q) = leval S r" using BinaryExpression by simp_all
  have "fold_node (sem_pow S) (BinaryExpression op l r) s =
      finish_expr (fold_transformer (sem_pow S)) (BinaryExpression op (fst ?p) (fst ?q), snd ?q)"
    by (simp add: fold_node_def split_beta)
  with finish_fold[of "BinaryExpression op (fst ?p) (fst ?q)" S "snd ?q"] IH leval_operands[OF IH(2,4)]
  show ?case by (simp only: operator_expr.simps)
next
  case (LogicalExpression op l r)
  let ?p = "fold_node (sem_pow S) l s" let ?q = "fold_node (sem_pow S) r (snd ?p)"
  have IH: "operator_expr (fst ?p)" "leval S (fst ?p) = leval S l"
    "operator_expr (fst ?q)" "leval S (fst ?q) = leval S r" using LogicalExpression by simp_all
  have "fold_node (sem_pow S) (LogicalExpression op l r) s =
      finish_expr (fold_transformer (sem_pow S)) (LogicalExpression op (fst ?p) (fst ?q), snd ?q)"
    by (simp add: fold_node_def split_beta)
  with finish_fold[of "LogicalExpression op (fst ?p) (fst ?q)" S "snd ?q"] IH leval_operands[OF IH(2,4)]
  show ?case by (simp only: operator_expr.simps)
qed (simp_all add: fold_node_def finish_fold)

text \<open>C10. Folding a whole expression of literals, variables and operators yields such an
  expression with the same value in every environment.\<close>

theorem fold_preserves_value:
  assumes "operator_expr e"
  shows "operator_expr (fst (fold_node (sem_pow S) e s)) \<and>
    leval S (fst (fold_node (sem_pow S) e s)) = leval S e"
  using assms by (rule fold_operator_expr)

theorem fold_preserves_value_witness:
  "leval demo_semantics (fst (fold_node (sem_pow demo_semantics)
     (LogicalExpression ''or'' (UnaryExpression ''not'' NilLiteral) (Identifier [120])) resetStats)) =
   Some (LBool True)"
  using fold_preserves_value [of "LogicalExpression ''or'' (UnaryExpression ''not'' NilLiteral)
    (Identifier [120])" demo_semantics resetStats]
  by (simp add: lua_unop_def)

section \<open>What the folder counts\<close>

definition counters_agree :: "eval_stats \<Rightarrow> bool" where
  "counters_agree s \<longleftrightarrow>
     expressionsInspected s = expressionsSimplified s + unsafeExpressionsSkipped s"

text \<open>Every expression the folder inspects is counted once, as simplified or as skipped.\<close>

lemma fold_expr_counters:
  "counters_agree s \<Longrightarrow> counters_agree (snd (on_expr (fold_transformer pow) e s))"
  "counters_agree s \<Longrightarrow> counters_agree (snd (on_stmt (fold_transformer pow) st s))"
  by (auto simp: counters_agree_def fold_transformer_def fold_expr_def Let_def split: option.splits)

text \<open>The statistics of folding a chunk add up: inspected is simplified plus skipped.\<close>

theorem fold_statistics_add_up:
  "expressionsInspected (snd (foldConstants pow c)) =
     expressionsSimplified (snd (foldConstants pow c)) +
     unsafeExpressionsSkipped (snd (foldConstants pow c))"
proof -
  have "counters_agree (snd (foldConstants pow c))"
    unfolding foldConstants_def fold_chunk_def
    by (rule transform_lists_keep(3)[where I = counters_agree],
        rule transform_keeps(3)[where I = counters_agree], erule fold_expr_counters(1),
        erule fold_expr_counters(2), assumption, simp add: counters_agree_def resetStats_def)
  then show ?thesis by (simp add: counters_agree_def)
qed

section \<open>What folding may change\<close>

text \<open>An expression that can yield any number of values where a list is expected.\<close>

fun multi_valued :: "expr \<Rightarrow> bool" where
  "multi_valued (CallExpression b args) = True"
| "multi_valued (MethodCallExpression b m args) = True"
| "multi_valued (VarargLiteral par) = (\<not> par)"
| "multi_valued e = False"

text \<open>\<open>and\<close> and \<open>or\<close> yield one value, but the folder replaces them by a bare operand: for every
  call, \<open>return true and f(...)\<close> becomes \<open>return f(...)\<close>, which returns all results of the call.\<close>

theorem folding_leaks_values:
  "tryEvaluate pow (LogicalExpression ''and'' (BooleanLiteral True) (CallExpression f args)) =
     Some (CallExpression f args) \<and>
   multi_valued (CallExpression f args) \<and>
   \<not> multi_valued (LogicalExpression ''and'' (BooleanLiteral True) (CallExpression f args))"
  by (simp add: tryEvaluate_def evalLogical_def isStaticallyTruthy_def)

text \<open>A table constructor counts as a constant whatever its fields are: \<open>not { f() }\<close> becomes
  \<open>false\<close> and the call is gone.\<close>

theorem folding_drops_calls:
  "fst (foldConstants pow
     [ReturnStatement [UnaryExpression ''not'' (TableConstructor [TableValue (CallExpression (Identifier f) [])])]])
   = [ReturnStatement [BooleanLiteral False]]"
  by (simp add: foldConstants_def fold_chunk_def fold_transformer_def finish_expr_def finish_stmt_def
      fold_expr_def tryEvaluate_def evalUnary_def)

text \<open>Negating the literal zero gives a negative zero whose text is that of plus zero, so the
  printed literal denotes another number than the folded node.\<close>

theorem folding_prints_negative_zero:
  "fst (fold_node pow (UnaryExpression ''-'' (NumericLiteral (Num 0) raw)) s) =
     NumericLiteral NegZero [48] \<and> js_Number [48] = Num 0"
  by (simp add: fold_node_def finish_expr_def fold_transformer_def fold_expr_def tryEvaluate_def
      evalUnary_def num_result_def numericLiteral_def num_neg_def js_num_to_string_def)
    (simp add: js_Number_def parse_exponent_def nat_of_digits_def pow10_def round_double_def Let_def)

end
