(* ===== verification/Lexer.thy ===== *)
theory Lexer
  imports Tokens
begin

text \<open>
  The scanner (\<open>packages/core/src/lexer/lexer.js\<close>). The state holds the source from the
  current position on (\<open>rest\<close>, the source's \<open>source.slice(pos)\<close>), the position, line and
  column, and the tokens so far. A read past the end yields the unit 0, as in the source.
\<close>

record lexer =
  rest :: js_string
  pos :: nat
  line :: nat
  col :: nat
  tokens :: "token list"

definition new_lexer :: "js_string \<Rightarrow> lexer" where
  "new_lexer src = \<lparr>rest = src, pos = 0, line = 1, col = 1, tokens = []\<rparr>"

definition peek :: "lexer \<Rightarrow> nat \<Rightarrow> nat" where
  "peek s k = (if k < length (rest s) then rest s ! k else 0)"

definition advance :: "lexer \<Rightarrow> lexer" where
  "advance s =
     (case rest s of
        [] \<Rightarrow> s
      | c # r \<Rightarrow>
          if c = 10 then s\<lparr>rest := r, pos := pos s + 1, line := line s + 1, col := 1\<rparr>
          else s\<lparr>rest := r, pos := pos s + 1, col := col s + 1\<rparr>)"

fun advance_by :: "nat \<Rightarrow> lexer \<Rightarrow> lexer" where
  "advance_by 0 s = s"
| "advance_by (Suc n) s = advance_by n (advance s)"

text \<open>A loop \<open>while (P(this.peek())) raw += this.advance()\<close>: what it reads, what it leaves.\<close>

definition span_of :: "(nat \<Rightarrow> bool) \<Rightarrow> lexer \<Rightarrow> js_string" where
  "span_of P s = takeWhile P (rest s)"

definition skip_while :: "(nat \<Rightarrow> bool) \<Rightarrow> lexer \<Rightarrow> lexer" where
  "skip_while P s = advance_by (length (span_of P s)) s"

definition push :: "token_type \<Rightarrow> token_value \<Rightarrow> lexer \<Rightarrow> js_string \<Rightarrow> lexer \<Rightarrow> lexer" where
  "push ty v start raw s =
     s\<lparr>tokens := tokens s @ [Token ty v (line start) (col start) (pos start) raw]\<rparr>"

section \<open>Long brackets and comments\<close>

definition close_seq :: "nat \<Rightarrow> js_string" where
  "close_seq n = 93 # replicate n 61 @ [93]"

definition starts_with :: "js_string \<Rightarrow> js_string \<Rightarrow> bool" where
  "starts_with p s \<longleftrightarrow> take (length p) s = p"

text \<open>Where the closing sequence first occurs.\<close>

fun find_close :: "js_string \<Rightarrow> js_string \<Rightarrow> nat option" where
  "find_close p [] = None"
| "find_close p (c # r) =
     (if starts_with p (c # r) then Some 0 else map_option Suc (find_close p r))"

definition skip_line :: "lexer \<Rightarrow> lexer" where
  "skip_line s = skip_while (\<lambda>c. c \<noteq> 10) s"

definition skipComment :: "lexer \<Rightarrow> lexer" where
  "skipComment s0 =
     (let s = advance (advance s0)
      in if peek s 0 = 91 \<and> (peek s 1 = 91 \<or> peek s 1 = 61) then
           let s1 = advance s;
               eqCount = length (span_of (\<lambda>c. c = 61) s1);
               s2 = skip_while (\<lambda>c. c = 61) s1
           in if peek s2 0 = 91 then
                let s3 = advance s2
                in case find_close (close_seq eqCount) (rest s3) of
                     Some k \<Rightarrow> advance_by (length (close_seq eqCount)) (advance_by k s3)
                   | None \<Rightarrow> advance_by (length (rest s3)) s3
              else skip_line (s2\<lparr>pos := pos s, rest := rest s\<rparr>)
         else skip_line s)"

text \<open>The raw text of a long string, or \<open>None\<close> after backtracking (line and column are not
  restored).\<close>

definition tryReadLongStringOrComment ::
  "lexer \<Rightarrow> (parse_error, lexer \<times> js_string option) outcome" where
  "tryReadLongStringOrComment s =
     (let s1 = advance s;
          eqCount = length (span_of (\<lambda>c. c = 61) s1);
          s2 = skip_while (\<lambda>c. c = 61) s1
      in if peek s2 0 = 91 then
           let s3 = advance s2
           in case find_close (close_seq eqCount) (rest s3) of
                Some k \<Rightarrow>
                  let s4 = advance_by (length (close_seq eqCount)) (advance_by k s3)
                  in return (s4, Some (take (pos s4 - pos s) (rest s)))
              | None \<Rightarrow>
                  let s4 = advance_by (length (rest s3)) s3
                  in throw (ParseError (Message ''Unterminated long bracket string'')
                              (line s4) (col s4) (pos s))
         else return (s2\<lparr>pos := pos s, rest := rest s\<rparr>, None))"

section \<open>Strings, numbers, identifiers\<close>

datatype string_scan = Closed nat | Newline | AtEnd

text \<open>The loop of \<open>readString\<close>: how many units up to and with the closing quote.\<close>

fun scan_string :: "nat \<Rightarrow> js_string \<Rightarrow> nat \<Rightarrow> string_scan" where
  "scan_string q [] n = AtEnd"
| "scan_string q (c # r) n =
     (if c = 92 then (case r of [] \<Rightarrow> AtEnd | d # r' \<Rightarrow> scan_string q r' (n + 2))
      else if c = q then Closed (n + 1)
      else if c = 10 \<or> c = 13 then Newline
      else scan_string q r (n + 1))"

definition readString :: "nat \<Rightarrow> lexer \<Rightarrow> (parse_error, lexer) outcome" where
  "readString quote s =
     (case scan_string quote (tl (rest s)) 1 of
        Closed n \<Rightarrow>
          let raw = take n (rest s)
          in return (push T_STRING (V_bytes (fromLuaLiteral raw)) s raw (advance_by n s))
      | Newline \<Rightarrow>
          throw (ParseError (Message ''Unfinished string literal before newline'')
                   (line s) (col s) (pos s))
      | AtEnd \<Rightarrow>
          throw (ParseError (Message ''Unterminated string literal at EOF'')
                   (line s) (col s) (pos s)))"

definition dec_digit :: "nat \<Rightarrow> bool" where "dec_digit c \<longleftrightarrow> is_digit c"

text \<open>The optional parts of a number: each returns the text read and the state after it.\<close>

definition take_digits :: "(nat \<Rightarrow> bool) \<Rightarrow> js_string \<times> lexer \<Rightarrow> js_string \<times> lexer" where
  "take_digits P p = (case p of (raw, s) \<Rightarrow> (raw @ span_of P s, skip_while P s))"

definition take_unit :: "js_string \<times> lexer \<Rightarrow> js_string \<times> lexer" where
  "take_unit p = (case p of (raw, s) \<Rightarrow> (raw @ [peek s 0], advance s))"

definition take_exponent :: "nat \<Rightarrow> nat \<Rightarrow> js_string \<times> lexer \<Rightarrow> js_string \<times> lexer" where
  "take_exponent e1 e2 p =
     (if peek (snd p) 0 = e1 \<or> peek (snd p) 0 = e2 then
        (let p1 = take_unit p;
             p2 = (if peek (snd p1) 0 = 43 \<or> peek (snd p1) 0 = 45 then take_unit p1 else p1)
         in take_digits dec_digit p2)
      else p)"

definition readNumber :: "lexer \<Rightarrow> lexer" where
  "readNumber s =
     (let r =
        (if peek s 0 = 48 \<and> (peek s 1 = 120 \<or> peek s 1 = 88) then
           let p1 = take_digits is_hex_digit (take_unit (take_unit ([], s)));
               p2 = (if peek (snd p1) 0 = 46
                     then take_digits is_hex_digit (take_unit p1) else p1)
           in take_exponent 112 80 p2
         else
           let p1 = take_digits dec_digit ([], s);
               p2 = (if peek (snd p1) 0 = 46 \<and> peek (snd p1) 1 \<noteq> 46
                     then take_digits dec_digit (take_unit p1) else p1)
           in take_exponent 101 69 p2)
      in push T_NUMBER (V_num (js_Number (fst r))) s (fst r) (snd r))"

definition ident_unit :: "nat \<Rightarrow> bool" where
  "ident_unit c \<longleftrightarrow> 97 \<le> c \<and> c \<le> 122 \<or> 65 \<le> c \<and> c \<le> 90 \<or> is_digit c \<or> c = 95"

definition ident_start :: "nat \<Rightarrow> bool" where
  "ident_start c \<longleftrightarrow> 97 \<le> c \<and> c \<le> 122 \<or> 65 \<le> c \<and> c \<le> 90 \<or> c = 95"

definition identifier_token :: "js_string \<Rightarrow> token_type \<times> token_value" where
  "identifier_token name =
     (case lookup_keyword name of
        Some kw \<Rightarrow>
          if kw = T_TRUE then (T_TRUE, V_bool True)
          else if kw = T_FALSE then (T_FALSE, V_bool False)
          else if kw = T_NIL then (T_NIL, V_null)
          else (kw, V_text name)
      | None \<Rightarrow> (T_IDENT, V_text name))"

definition readIdentifier :: "lexer \<Rightarrow> lexer" where
  "readIdentifier s =
     (let name = span_of ident_unit s; tv = identifier_token name
      in push (fst tv) (snd tv) s name (skip_while ident_unit s))"

section \<open>Operators and delimiters\<close>

definition single_tokens :: "(nat \<times> token_type) list" where
  "single_tokens =
     [(43, T_PLUS), (45, T_MINUS), (42, T_STAR), (47, T_SLASH), (37, T_PERCENT), (94, T_CARET),
      (35, T_HASH), (61, T_ASSIGN), (60, T_LT), (62, T_GT), (40, T_LPAREN), (41, T_RPAREN),
      (123, T_LBRACE), (125, T_RBRACE), (91, T_LBRACKET), (93, T_RBRACKET), (59, T_SEMICOLON),
      (58, T_COLON), (44, T_COMMA), (46, T_DOT)]"

text \<open>The operator at the head of the text: its type and how many units follow the first.\<close>

definition punctuation :: "nat \<Rightarrow> nat \<Rightarrow> nat \<Rightarrow> (token_type \<times> nat) option" where
  "punctuation ch n1 n2 =
     (if ch = 46 \<and> n1 = 46 \<and> n2 = 46 then Some (T_DOT_DOT_DOT, 2)
      else if ch = 46 \<and> n1 = 46 \<and> n2 = 61 then Some (T_CONCAT_EQ, 2)
      else if ch = 61 \<and> n1 = 61 then Some (T_EQ_EQ, 1)
      else if ch = 126 \<and> n1 = 61 then Some (T_TILDE_EQ, 1)
      else if ch = 60 \<and> n1 = 61 then Some (T_LT_EQ, 1)
      else if ch = 62 \<and> n1 = 61 then Some (T_GT_EQ, 1)
      else if ch = 46 \<and> n1 = 46 then Some (T_DOT_DOT, 1)
      else if ch = 43 \<and> n1 = 61 then Some (T_PLUS_EQ, 1)
      else if ch = 45 \<and> n1 = 61 then Some (T_MINUS_EQ, 1)
      else if ch = 42 \<and> n1 = 61 then Some (T_STAR_EQ, 1)
      else if ch = 47 \<and> n1 = 61 then Some (T_SLASH_EQ, 1)
      else map_option (\<lambda>t. (t, 0)) (map_of single_tokens ch))"

definition readPunctuation :: "lexer \<Rightarrow> (parse_error, lexer) outcome" where
  "readPunctuation s =
     (let ch = peek s 0; s1 = advance s
      in case punctuation ch (peek s1 0) (peek s1 1) of
           Some (t, n) \<Rightarrow>
             return (push t (V_text (units (type_text t))) s (units (type_text t)) (advance_by n s1))
         | None \<Rightarrow> throw (ParseError (UnexpectedCharacter ch) (line s) (col s) (pos s)))"

section \<open>The main loop\<close>

definition white :: "nat \<Rightarrow> bool" where
  "white c \<longleftrightarrow> c = 32 \<or> c = 9 \<or> c = 13 \<or> c = 10"

text \<open>The part of the loop body after the long-string attempt.\<close>

definition lex_word :: "lexer \<Rightarrow> (parse_error, lexer) outcome" where
  "lex_word s =
     (if is_digit (peek s 0) \<or> peek s 0 = 46 \<and> is_digit (peek s 1) then return (readNumber s)
      else if ident_start (peek s 0) then return (readIdentifier s)
      else readPunctuation s)"

definition lex_step :: "lexer \<Rightarrow> (parse_error, lexer) outcome" where
  "lex_step s =
     (let ch = peek s 0
      in if white ch then return (advance s)
         else if ch = 45 \<and> peek s 1 = 45 then return (skipComment s)
         else if ch = 34 \<or> ch = 39 then readString ch s
         else if ch = 91 \<and> (peek s 1 = 91 \<or> peek s 1 = 61) then
           and_then (tryReadLongStringOrComment s) (\<lambda>(s1, longStr).
             case longStr of
               Some raw \<Rightarrow> return (push T_STRING (V_bytes (fromLuaLiteral raw)) s raw s1)
             | None \<Rightarrow> lex_word s1)
         else lex_word s)"

section \<open>How far a routine moves\<close>

text \<open>
  \<open>moves n s s'\<close>: \<open>n\<close> units are consumed, position and line follow, no token is pushed. All
  routines are bounds on such moves, so termination and position facts share these lemmas.
\<close>

definition newlines :: "js_string \<Rightarrow> nat" where
  "newlines s = length (filter (\<lambda>c. c = 10) s)"

definition moves :: "nat \<Rightarrow> lexer \<Rightarrow> lexer \<Rightarrow> bool" where
  "moves n s s' \<longleftrightarrow> n \<le> length (rest s) \<and> rest s' = drop n (rest s) \<and> pos s' = pos s + n \<and>
     line s' = line s + newlines (take n (rest s)) \<and> tokens s' = tokens s"

lemma newlines_simps [simp]:
  "newlines [] = 0" "newlines (c # s) = (if c = 10 then 1 else 0) + newlines s"
  "newlines (s @ t) = newlines s + newlines t"
  by (simp_all add: newlines_def)

lemma moves_refl [lex_progress]: "moves 0 s s"
  by (simp add: moves_def)

lemma moves_trans: "moves m s s1 \<Longrightarrow> moves n s1 s2 \<Longrightarrow> moves (m + n) s s2"
  by (auto simp: moves_def take_add drop_drop add.commute)

lemma moves_advance: "rest s \<noteq> [] \<Longrightarrow> moves 1 s (advance s)"
  by (cases "rest s") (auto simp: moves_def advance_def)

lemma advance_at_end [simp]: "rest s = [] \<Longrightarrow> advance s = s"
  by (simp add: advance_def)

lemma moves_advance_by: "n \<le> length (rest s) \<Longrightarrow> moves n s (advance_by n s)"
proof (induction n arbitrary: s)
  case (Suc n)
  then have "moves 1 s (advance s)" by (intro moves_advance) auto
  moreover from this Suc.prems have "n \<le> length (rest (advance s))" by (auto simp: moves_def)
  ultimately show ?case using Suc.IH moves_trans[of 1 s "advance s" n] by simp
qed (simp add: moves_refl)

lemma span_length: "length (span_of P s) \<le> length (rest s)"
  by (simp add: span_of_def length_takeWhile_le)

lemma moves_skip_while: "moves (length (span_of P s)) s (skip_while P s)"
  by (simp add: skip_while_def moves_advance_by span_length)

lemma moves_rest: "moves n s s' \<Longrightarrow> rest s' = drop n (rest s)"
  by (simp add: moves_def)

lemma moves_rewound:
  "moves n s s' \<Longrightarrow> newlines (take n (rest s)) = 0 \<Longrightarrow>
    moves 0 s (s'\<lparr>pos := pos s, rest := rest s\<rparr>)"
  by (simp add: moves_def)

lemma find_close_Some: "find_close p xs = Some k \<Longrightarrow> k + length p \<le> length xs \<or> p = []"
  by (induction xs arbitrary: k)
    (auto simp: starts_with_def split: if_splits dest: arg_cong[of _ _ length])

lemma close_seq_not_Nil [simp]: "close_seq n \<noteq> []"
  by (simp add: close_seq_def)

lemma peek_nonzero: "peek s k \<noteq> 0 \<Longrightarrow> k < length (rest s)"
  by (auto simp: peek_def split: if_splits)

text \<open>The type and value a token may have, given the text it was read from.\<close>

definition denotes :: "js_string \<Rightarrow> token_type \<Rightarrow> token_value \<Rightarrow> bool" where
  "denotes raw ty v \<longleftrightarrow>
     ty = T_NUMBER \<and> v = V_num (js_Number raw) \<or>
     ty = T_STRING \<and> v = V_bytes (fromLuaLiteral raw) \<or>
     list_all ident_unit raw \<and> (ty, v) = identifier_token raw \<or>
     raw = units (type_text ty) \<and> v = V_text raw"

text \<open>\<open>emits n s s'\<close>: one token is pushed, its raw text is the \<open>n\<close> units consumed.\<close>

definition emits :: "nat \<Rightarrow> lexer \<Rightarrow> lexer \<Rightarrow> bool" where
  "emits n s s' \<longleftrightarrow> 0 < n \<and> n \<le> length (rest s) \<and> rest s' = drop n (rest s) \<and> pos s' = pos s + n \<and>
     line s' = line s + newlines (take n (rest s)) \<and>
     (\<exists>ty v c. denotes (take n (rest s)) ty v \<and>
        tokens s' = tokens s @ [Token ty v (line s) c (pos s) (take n (rest s))])"

lemma emits_push:
  "moves n s s' \<Longrightarrow> raw = take n (rest s) \<Longrightarrow> 0 < n \<Longrightarrow> denotes raw ty v \<Longrightarrow>
    emits n s (push ty v s raw s')"
  by (auto simp: moves_def emits_def push_def)

lemma emits_after_rewind:
  "emits n s1 s' \<Longrightarrow> moves 0 s s1 \<Longrightarrow> emits n s s'"
  by (simp add: emits_def moves_def)

text \<open>What lies between tokens: blanks, and comments that reach to the end of their line or
  are long comments.\<close>

definition comment_text :: "js_string \<Rightarrow> bool" where
  "comment_text c \<longleftrightarrow> (\<exists>t. c = 45 # 45 # t \<and>
     (newlines t = 0 \<or> (\<exists>n. starts_with (91 # replicate n 61 @ [91]) t)))"

definition gap_text :: "js_string \<Rightarrow> bool" where
  "gap_text g \<longleftrightarrow> (\<exists>c. g = [c] \<and> white c) \<or> comment_text g"

lemma newlines_take_le: "newlines xs = 0 \<Longrightarrow> newlines (take n xs) = 0"
  by (auto simp: newlines_def filter_empty_conv dest: in_set_takeD)

lemma newlines_takeWhile: "(\<And>c. P c \<Longrightarrow> c \<noteq> 10) \<Longrightarrow> newlines (takeWhile P xs) = 0"
  by (auto simp: newlines_def filter_empty_conv dest: set_takeWhileD)

lemma span_prefix: "take (length (span_of P s)) (rest s) = span_of P s"
  by (simp add: span_of_def takeWhile_eq_take[symmetric])

lemma takeWhile_eq_replicate: "takeWhile (\<lambda>c. c = x) xs = replicate (length (takeWhile (\<lambda>c. c = x) xs)) x"
  by (induction xs) auto

text \<open>The opening of a long bracket: the bracket, the equals signs, the second bracket.\<close>

lemma open_bracket:
  assumes "rest s = 91 # r"
  defines "s1 \<equiv> advance s"
  defines "n \<equiv> length (span_of (\<lambda>c. c = 61) s1)"
  defines "s2 \<equiv> skip_while (\<lambda>c. c = 61) s1"
  shows "moves (Suc n) s s2" and "newlines (take (Suc n) (rest s)) = 0"
    and "peek s2 0 = 91 \<Longrightarrow> moves (n + 2) s (advance s2)"
    and "peek s2 0 = 91 \<Longrightarrow> starts_with (91 # replicate n 61 @ [91]) (rest s)"
proof -
  have m1: "moves 1 s s1" using assms(1) unfolding s1_def by (intro moves_advance) simp
  then have r1: "rest s1 = r" using assms(1) by (simp add: moves_def)
  show m2: "moves (Suc n) s s2"
    using moves_trans[OF m1 moves_skip_while] by (simp add: n_def s2_def)
  have t: "take n r = replicate n 61"
    using span_prefix[of "\<lambda>c. c = 61" s1] r1 takeWhile_eq_replicate[of 61 r]
    by (simp add: n_def span_of_def)
  show "newlines (take (Suc n) (rest s)) = 0" by (simp add: assms(1) t newlines_def)
  assume pk: "peek s2 0 = 91"
  then have ne: "rest s2 \<noteq> []" and hd: "hd (rest s2) = 91"
    using peek_nonzero[of s2 0] by (auto simp: peek_def hd_conv_nth split: if_splits)
  then show "moves (n + 2) s (advance s2)"
    using moves_trans[OF m2 moves_advance] by simp
  have "rest s2 = drop n r" using m2 assms(1) by (simp add: moves_def)
  then have "take (Suc n) r = replicate n 61 @ [91]"
    using ne hd t by (simp add: take_Suc_conv_app_nth hd_drop_conv_nth)
  then show "starts_with (91 # replicate n 61 @ [91]) (rest s)"
    by (simp add: starts_with_def assms(1))
qed

lemma moves_to_close:
  assumes "find_close (close_seq n) (rest s) = Some k"
  shows "moves (k + length (close_seq n)) s (advance_by (length (close_seq n)) (advance_by k s))"
proof -
  have le: "k + length (close_seq n) \<le> length (rest s)"
    using find_close_Some[OF assms] by simp
  then have m: "moves k s (advance_by k s)" by (intro moves_advance_by) simp
  with le have "length (close_seq n) \<le> length (rest (advance_by k s))"
    by (simp add: moves_rest)
  from moves_trans[OF m moves_advance_by[OF this]] show ?thesis .
qed

lemma starts_with_take:
  "starts_with p xs \<Longrightarrow> length p \<le> n \<Longrightarrow> starts_with p (take n xs)"
  by (simp add: starts_with_def min_absorb1)

lemma comment_moves:
  assumes r: "rest s = 45 # 45 # r"
  shows "\<exists>n\<ge>2. moves n s (skipComment s) \<and> comment_text (take n (rest s))"
proof -
  define s1 where "s1 = advance (advance s)"
  have m1: "moves 2 s s1" using moves_trans[OF moves_advance[of s] moves_advance[of "advance s"]] r
    by (simp add: s1_def advance_def numeral_2_eq_2)
  then have r1: "rest s1 = r" using r by (simp add: moves_def)
  have line: "\<exists>n\<ge>2. moves n s (skip_line s') \<and> comment_text (take n (rest s))"
    if "moves 0 s1 s'" for s'
  proof -
    have m: "moves (2 + (0 + length (span_of (\<lambda>c. c \<noteq> 10) s'))) s (skip_line s')"
      unfolding skip_line_def by (intro moves_trans[OF m1] moves_trans[OF that] moves_skip_while)
    moreover have "rest s' = r" using that r1 by (simp add: moves_def)
    ultimately show ?thesis
      by (intro exI[of _ "2 + length (span_of (\<lambda>c. c \<noteq> 10) s')"])
        (auto simp: comment_text_def r span_prefix[unfolded span_of_def] span_of_def
          newlines_takeWhile takeWhile_eq_take[symmetric])
  qed
  show ?thesis
  proof (cases "peek s1 0 = 91 \<and> (peek s1 1 = 91 \<or> peek s1 1 = 61)")
    case False
    then have "skipComment s = skip_line s1"
      unfolding skipComment_def Let_def s1_def[symmetric] by (rule if_not_P)
    then show ?thesis using line[OF moves_refl] by simp
  next
    case True
    then obtain t where t: "rest s1 = 91 # t"
      using peek_nonzero[of s1 0] by (cases "rest s1") (auto simp: peek_def)
    note ob = open_bracket[OF t]
    define n where "n = length (span_of (\<lambda>c. c = 61) (advance s1))"
    define s2 where "s2 = skip_while (\<lambda>c. c = 61) (advance s1)"
    show ?thesis
    proof (cases "peek s2 0 = 91")
      case False
      with True have "skipComment s = skip_line (s2\<lparr>pos := pos s1, rest := rest s1\<rparr>)"
        by (simp add: skipComment_def s1_def s2_def Let_def)
      with line[OF moves_rewound[OF ob(1,2)]] show ?thesis by (simp add: s2_def)
    next
      case pk: True
      define s3 where "s3 = advance s2"
      have m3: "moves (n + 2) s1 s3" and op: "starts_with (91 # replicate n 61 @ [91]) r"
        using ob(3,4) pk r1 by (simp_all add: s3_def s2_def n_def)
      define s4 where "s4 = (case find_close (close_seq n) (rest s3) of
          Some k \<Rightarrow> advance_by (length (close_seq n)) (advance_by k s3)
        | None \<Rightarrow> advance_by (length (rest s3)) s3)"
      have "\<exists>k. moves k s3 s4"
        unfolding s4_def using moves_to_close[of n s3] moves_advance_by[of "length (rest s3)" s3]
        by (auto split: option.splits)
      then obtain k where "moves k s3 s4" ..
      from moves_trans[OF m1 moves_trans[OF m3 this]]
      have m: "moves (2 + (n + 2 + k)) s s4" .
      moreover have "skipComment s = s4"
        unfolding skipComment_def Let_def s1_def[symmetric] s2_def[symmetric] n_def[symmetric]
          s3_def[symmetric] s4_def
        using True pk by simp
      moreover have "comment_text (take (2 + (n + 2 + k)) (rest s))"
        using starts_with_take[OF op, of "n + 2 + k"] by (auto simp: comment_text_def r)
      ultimately show ?thesis by (intro exI[of _ "2 + (n + 2 + k)"]) simp
    qed
  qed
qed

lemma long_string_emits:
  assumes r: "rest s = 91 # r" and ok: "tryReadLongStringOrComment s = Inr (s', raw)"
  shows "case raw of Some t \<Rightarrow> \<exists>n>0. moves n s s' \<and> t = take n (rest s) | None \<Rightarrow> moves 0 s s'"
proof -
  note ob = open_bracket[OF r]
  define n where "n = length (span_of (\<lambda>c. c = 61) (advance s))"
  define s2 where "s2 = skip_while (\<lambda>c. c = 61) (advance s)"
  show ?thesis
  proof (cases "peek s2 0 = 91")
    case False
    then have "raw = None" "s' = s2\<lparr>pos := pos s, rest := rest s\<rparr>"
      using ok by (simp_all add: tryReadLongStringOrComment_def s2_def Let_def)
    then show ?thesis using moves_rewound[OF ob(1,2)] by (simp add: s2_def)
  next
    case True
    define s3 where "s3 = advance s2"
    have m3: "moves (n + 2) s s3" using ob(3) True by (simp add: s3_def s2_def n_def)
    from ok True obtain k where k: "find_close (close_seq n) (rest s3) = Some k"
      and s': "s' = advance_by (length (close_seq n)) (advance_by k s3)"
      and raw: "raw = Some (take (pos s' - pos s) (rest s))"
      by (auto simp: tryReadLongStringOrComment_def s2_def s3_def n_def Let_def split: option.splits)
    have m: "moves (n + 2 + (k + length (close_seq n))) s s'"
      unfolding s' by (rule moves_trans[OF m3 moves_to_close[OF k]])
    moreover have "pos s' = pos s + (n + 2 + (k + length (close_seq n)))"
      using m by (simp add: moves_def)
    ultimately show ?thesis
      using raw by (auto intro!: exI[of _ "n + 2 + (k + length (close_seq n))"])
  qed
qed

lemma scan_string_Closed:
  "scan_string q r n = Closed m \<Longrightarrow> n < m \<and> m \<le> n + length r"
  by (induction q r n arbitrary: m rule: scan_string.induct)
    (fastforce split: if_splits list.splits)+

lemma string_emits:
  assumes "rest s \<noteq> []" and ok: "readString q s = Inr s'"
  shows "\<exists>n. emits n s s'"
proof -
  from ok obtain n where n: "scan_string q (tl (rest s)) 1 = Closed n"
    and s': "s' = push T_STRING (V_bytes (fromLuaLiteral (take n (rest s)))) s
      (take n (rest s)) (advance_by n s)"
    by (auto simp: readString_def Let_def split: string_scan.splits)
  from scan_string_Closed[OF n] assms(1) have "0 < n" "n \<le> length (rest s)"
    by (cases "rest s"; simp)+
  then have "emits n s s'" unfolding s'
    by (intro emits_push moves_advance_by) (simp_all add: denotes_def)
  then show ?thesis ..
qed

text \<open>What a part of a number has read is what it has consumed.\<close>

definition reads :: "lexer \<Rightarrow> js_string \<times> lexer \<Rightarrow> bool" where
  "reads s p \<longleftrightarrow> (\<exists>n. moves n s (snd p) \<and> fst p = take n (rest s))"

lemma reads_start [lex_progress]: "reads s ([], s)"
  by (auto simp: reads_def intro: moves_refl)

lemma take_drop_append: "take m xs @ take n (drop m xs) = take (m + n) xs"
  by (simp add: take_add)

lemma take_parts:
  "take_digits P p = (fst p @ span_of P (snd p), skip_while P (snd p))"
  "take_unit p = (fst p @ [peek (snd p) 0], advance (snd p))"
  by (simp_all add: take_digits_def take_unit_def split: prod.splits)

lemma reads_digits [lex_progress]:
  assumes "reads s p"
  shows "reads s (take_digits P p)"
proof -
  from assms obtain n where m: "moves n s (snd p)" and t: "fst p = take n (rest s)"
    by (auto simp: reads_def)
  let ?k = "length (span_of P (snd p))"
  have "span_of P (snd p) = take ?k (drop n (rest s))"
    using span_prefix[of P "snd p"] moves_rest[OF m] by simp
  then have "fst p @ span_of P (snd p) = take (n + ?k) (rest s)"
    by (simp only: t take_drop_append[symmetric])
  with moves_trans[OF m moves_skip_while, of P] show ?thesis
    by (auto simp: reads_def take_parts)
qed

lemma reads_unit [lex_progress]:
  assumes "reads s p" and "peek (snd p) 0 \<noteq> 0"
  shows "reads s (take_unit p)"
proof -
  from assms(1) obtain n where m: "moves n s (snd p)" and t: "fst p = take n (rest s)"
    by (auto simp: reads_def)
  from assms(2) have ne: "0 < length (rest (snd p))" by (rule peek_nonzero)
  then have "n < length (rest s)" "peek (snd p) 0 = rest s ! n"
    using m by (auto simp: moves_def peek_def)
  moreover have "moves (n + 1) s (advance (snd p))"
    using ne by (intro moves_trans[OF m moves_advance]) simp
  ultimately show ?thesis
    by (auto simp: reads_def take_parts t take_Suc_conv_app_nth intro!: exI[of _ "n + 1"])
qed

lemma reads_exponent [lex_progress]:
  "e1 \<noteq> 0 \<Longrightarrow> e2 \<noteq> 0 \<Longrightarrow> reads s p \<Longrightarrow> reads s (take_exponent e1 e2 p)"
  unfolding take_exponent_def Let_def by (auto intro!: lex_progress)

lemma parts_grow:
  "fst (take_unit p) \<noteq> []"
  "fst p \<noteq> [] \<Longrightarrow> fst (take_digits P p) \<noteq> []"
  "fst p \<noteq> [] \<Longrightarrow> fst (take_exponent e1 e2 p) \<noteq> []"
  by (simp_all add: take_parts take_exponent_def Let_def)

lemma reads_emits:
  assumes "reads s p" and "fst p \<noteq> []" and "denotes (fst p) ty v"
  shows "\<exists>n. emits n s (push ty v s (fst p) (snd p))"
proof -
  from assms obtain n where "moves n s (snd p)" "fst p = take n (rest s)" by (auto simp: reads_def)
  moreover from this assms(2) have "0 < n" by (cases n) auto
  ultimately show ?thesis using assms(3) by (blast intro: emits_push)
qed

lemma span_head: "peek s 0 \<noteq> 0 \<Longrightarrow> span_of P s = [] \<longleftrightarrow> \<not> P (peek s 0)"
  by (cases "rest s") (auto simp: peek_def span_of_def)

lemma number_emits:
  assumes start: "is_digit (peek s 0) \<or> peek s 0 = 46 \<and> is_digit (peek s 1)"
  shows "\<exists>n. emits n s (readNumber s)"
proof -
  define hex where "hex = take_digits is_hex_digit (take_unit (take_unit ([], s)))"
  define dec where "dec = take_digits dec_digit ([], s)"
  define r where "r = (if peek s 0 = 48 \<and> (peek s 1 = 120 \<or> peek s 1 = 88) then
      take_exponent 112 80 (if peek (snd hex) 0 = 46
        then take_digits is_hex_digit (take_unit hex) else hex)
    else take_exponent 101 69 (if peek (snd dec) 0 = 46 \<and> peek (snd dec) 1 \<noteq> 46
        then take_digits dec_digit (take_unit dec) else dec))"
  have rn: "readNumber s = push T_NUMBER (V_num (js_Number (fst r))) s (fst r) (snd r)"
    by (simp only: readNumber_def r_def hex_def dec_def Let_def)
  have second: "peek (snd (take_unit ([], s))) 0 = peek s 1" if "peek s 0 \<noteq> 0"
    using that peek_nonzero[OF that] by (cases "rest s") (auto simp: take_parts peek_def advance_def)
  have rh: "reads s hex" if "peek s 0 = 48 \<and> (peek s 1 = 120 \<or> peek s 1 = 88)"
    unfolding hex_def by (rule reads_digits reads_unit reads_start | use that second in force)+
  have rd: "reads s dec" unfolding dec_def by (intro lex_progress)
  have "reads s r" using rh rd unfolding r_def by (auto intro!: lex_progress)
  moreover have "fst r \<noteq> []"
  proof (cases "is_digit (peek s 0)")
    case True
    then have "fst dec \<noteq> []"
      using span_head[of s dec_digit] by (auto simp: dec_def take_parts dec_digit_def)
    then show ?thesis by (simp add: r_def hex_def parts_grow)
  next
    case False
    then have "span_of dec_digit s = []"
      using start span_head[of s dec_digit] by (auto simp: dec_digit_def)
    then have "dec = ([], s)" by (simp add: dec_def take_parts skip_while_def)
    with start False show ?thesis by (simp add: r_def parts_grow)
  qed
  ultimately show ?thesis unfolding rn
    by (intro reads_emits) (simp_all add: denotes_def)
qed

lemma identifier_emits:
  assumes "ident_start (peek s 0)"
  shows "\<exists>n. emits n s (readIdentifier s)"
proof -
  have "span_of ident_unit s \<noteq> []"
    using assms by (subst span_head) (auto simp: ident_start_def ident_unit_def)
  moreover have "denotes (span_of ident_unit s) (fst (identifier_token (span_of ident_unit s)))
      (snd (identifier_token (span_of ident_unit s)))"
    by (auto simp: denotes_def span_of_def list_all_iff dest: set_takeWhileD)
  ultimately show ?thesis unfolding readIdentifier_def Let_def
    using emits_push[OF moves_skip_while, where raw = "span_of ident_unit s"]
    by (force simp: span_prefix)
qed

lemma type_text_operators:
  "map (units \<circ> type_text) [T_DOT_DOT_DOT, T_CONCAT_EQ, T_EQ_EQ, T_TILDE_EQ, T_LT_EQ, T_GT_EQ,
     T_DOT_DOT, T_PLUS_EQ, T_MINUS_EQ, T_STAR_EQ, T_SLASH_EQ] =
   [[46, 46, 46], [46, 46, 61], [61, 61], [126, 61], [60, 61], [62, 61], [46, 46], [43, 61],
    [45, 61], [42, 61], [47, 61]]"
  by code_simp

lemma type_text_single: "\<forall>(c, t) \<in> set single_tokens. units (type_text t) = [c]"
  by code_simp

text \<open>The text of an operator token is the units it was recognised by.\<close>

lemma punctuation_text:
  assumes "punctuation ch n1 n2 = Some (t, n)"
  shows "n \<le> 2 \<and> (0 < n \<longrightarrow> n1 \<noteq> 0) \<and> (n = 2 \<longrightarrow> n2 \<noteq> 0) \<and>
    units (type_text t) = take (Suc n) [ch, n1, n2]"
proof -
  have s: "map_of single_tokens ch = Some t' \<Longrightarrow> units (type_text t') = [ch]" for t'
    using type_text_single by (force dest: map_of_SomeD)
  show ?thesis
    using assms type_text_operators s
    by (simp add: punctuation_def numeral_2_eq_2 split: if_splits) (auto dest: s)
qed

lemma punctuation_emits:
  assumes ne: "rest s \<noteq> []" and ok: "readPunctuation s = Inr s'"
  shows "\<exists>n. emits n s s'"
proof -
  define s1 where "s1 = advance s"
  from ok obtain t n where p: "punctuation (peek s 0) (peek s1 0) (peek s1 1) = Some (t, n)"
    and s': "s' = push t (V_text (units (type_text t))) s (units (type_text t)) (advance_by n s1)"
    by (auto simp: readPunctuation_def s1_def Let_def split: option.splits)
  have m1: "moves 1 s s1" unfolding s1_def using ne by (rule moves_advance)
  note pt = punctuation_text[OF p]
  obtain c r where r: "rest s = c # r" using ne by (cases "rest s") auto
  with m1 have r1: "rest s1 = r" by (simp add: moves_def)
  have n3: "n = 0 \<or> n = 1 \<or> n = 2" using pt by auto
  have nl: "n \<le> length (rest s1)"
    using n3 pt peek_nonzero[of s1 0] peek_nonzero[of s1 1] by (auto simp: Suc_le_eq)
  then have m: "moves (1 + n) s (advance_by n s1)"
    by (intro moves_trans[OF m1 moves_advance_by])
  moreover have "units (type_text t) = take (1 + n) (rest s)"
  proof -
    have "take n r = take n [peek s1 0, peek s1 1]"
      using n3 nl r1 by (cases r; cases "tl r") (auto simp: peek_def numeral_2_eq_2)
    then show ?thesis using pt r by (simp add: peek_def)
  qed
  ultimately show ?thesis unfolding s'
    by (intro exI[of _ "1 + n"] emits_push) (simp_all add: denotes_def)
qed

text \<open>Every round of the main loop emits one token or skips one gap.\<close>

lemma lex_word_emits:
  "rest s \<noteq> [] \<Longrightarrow> lex_word s = Inr s' \<Longrightarrow> \<exists>n. emits n s s'"
  by (auto simp: lex_word_def number_emits identifier_emits punctuation_emits split: if_splits)

lemma lex_step_moves:
  assumes ne: "rest s \<noteq> []" and ok: "lex_step s = Inr s'"
  shows "(\<exists>n. emits n s s') \<or> (\<exists>n>0. moves n s s' \<and> gap_text (take n (rest s)))"
proof -
  obtain c r where r: "rest s = c # r" using ne by (cases "rest s") auto
  then have pk: "peek s 0 = c" by (simp add: peek_def)
  consider "white c" | "\<not> white c" "c = 45 \<and> peek s 1 = 45"
    | "\<not> white c" "c \<noteq> 45 \<or> peek s 1 \<noteq> 45" "c = 34 \<or> c = 39"
    | "c = 91 \<and> (peek s 1 = 91 \<or> peek s 1 = 61)"
    | "\<not> white c" "\<not> (c = 45 \<and> peek s 1 = 45)" "\<not> (c = 34 \<or> c = 39)"
      "\<not> (c = 91 \<and> (peek s 1 = 91 \<or> peek s 1 = 61))"
    by blast
  then show ?thesis
  proof cases
    case 1
    then have "s' = advance s" using ok by (simp add: lex_step_def pk)
    moreover have "gap_text (take 1 (rest s))" using 1 r by (simp add: gap_text_def)
    ultimately show ?thesis using moves_advance[OF ne] by (intro disjI2 exI[of _ 1]) simp
  next
    case 2
    then obtain r' where "rest s = 45 # 45 # r'"
      using r peek_nonzero[of s 1] by (cases r) (auto simp: peek_def)
    from comment_moves[OF this] obtain n where "n \<ge> 2" "moves n s (skipComment s)"
      "comment_text (take n (rest s))" by blast
    moreover have "s' = skipComment s" using ok 2 by (simp add: lex_step_def pk)
    ultimately show ?thesis by (intro disjI2 exI[of _ n]) (simp add: gap_text_def)
  next
    case 3
    then have "readString c s = Inr s'" using ok by (auto simp: lex_step_def pk)
    with string_emits[OF ne] show ?thesis by blast
  next
    case 4
    then obtain s1 raw where long: "tryReadLongStringOrComment s = Inr (s1, raw)"
      and s': "(case raw of Some t \<Rightarrow> return (push T_STRING (V_bytes (fromLuaLiteral t)) s t s1)
        | None \<Rightarrow> lex_word s1) = Inr s'"
      using ok by (auto simp: lex_step_def pk white_def and_then_eq_Inr)
    show ?thesis
    proof (cases raw)
      case None
      then have m: "moves 0 s s1" using long_string_emits[OF _ long, of r] r 4 by simp
      with ne have "rest s1 \<noteq> []" by (simp add: moves_def)
      with s' None m show ?thesis using lex_word_emits emits_after_rewind by fastforce
    next
      case (Some t)
      then obtain n where "n > 0" "moves n s s1" "t = take n (rest s)"
        using long_string_emits[OF _ long, of r] r 4 by auto
      then have "emits n s s'"
        using s' Some emits_push[of n s s1 t T_STRING "V_bytes (fromLuaLiteral t)"]
        by (auto simp: denotes_def)
      then show ?thesis by blast
    qed
  next
    case 5
    then have "lex_word s = Inr s'" using ok unfolding lex_step_def Let_def pk by (simp only: if_False)
    with lex_word_emits[OF ne] show ?thesis by blast
  qed
qed

lemma lex_step_shorter:
  "rest s \<noteq> [] \<Longrightarrow> lex_step s = Inr s' \<Longrightarrow> length (rest s') < length (rest s)"
  using lex_step_moves[of s s'] by (auto simp: emits_def moves_def)

function lex_loop :: "lexer \<Rightarrow> (parse_error, lexer) outcome" where
  "lex_loop s = (if rest s = [] then return s else and_then (lex_step s) lex_loop)"
  by pat_completeness auto
termination
  by (relation "measure (\<lambda>s. length (rest s))") (auto intro: lex_step_shorter)

declare lex_loop.simps [simp del]

definition tokenize :: "js_string \<Rightarrow> (parse_error, token list) outcome" where
  "tokenize source =
     and_then (lex_loop (new_lexer source)) (\<lambda>s.
       return (tokens s @ [Token T_EOF V_null (line s) (col s) (pos s) []]))"

end
