(* ===== verification/Lexer_Props.thy ===== *)
theory Lexer_Props
  imports Lexer
begin

text \<open>
  What the scanner guarantees: the tokens and the gaps between them are the source, each at
  its offset and line; a printed string literal is read back as one token; the keyword table
  answers for names it does not hold; a hexadecimal float has no value.
\<close>

section \<open>The token list covers the source\<close>

text \<open>
  \<open>tiling p l r ts\<close>: the text \<open>r\<close>, which starts at offset \<open>p\<close> in line \<open>l\<close>, is the texts of the
  tokens \<open>ts\<close> in order, with gaps (blanks and comments) between them, up to the EOF token.
\<close>

inductive tiling :: "nat \<Rightarrow> nat \<Rightarrow> js_string \<Rightarrow> token list \<Rightarrow> bool" where
  tiling_end: "tiling p l [] [Token T_EOF V_null l c p []]"
| tiling_gap:
    "gap_text g \<Longrightarrow> tiling (p + length g) (l + newlines g) r ts \<Longrightarrow> tiling p l (g @ r) ts"
| tiling_token:
    "raw \<noteq> [] \<Longrightarrow> denotes raw ty v \<Longrightarrow> tiling (p + length raw) (l + newlines raw) r ts \<Longrightarrow>
     tiling p l (raw @ r) (Token ty v l c p raw # ts)"

lemma lex_loop_tiling:
  "lex_loop s = Inr s' \<Longrightarrow>
    \<exists>ts. tokens s' @ [Token T_EOF V_null (line s') (col s') (pos s') []] = tokens s @ ts \<and>
      tiling (pos s) (line s) (rest s) ts"
proof (induction s rule: lex_loop.induct)
  case (1 s)
  show ?case
  proof (cases "rest s = []")
    case True
    with 1(2) show ?thesis by (auto simp: lex_loop.simps intro: tiling_end)
  next
    case False
    with 1(2) obtain s1 where st: "lex_step s = Inr s1" and lp: "lex_loop s1 = Inr s'"
      by (auto simp: lex_loop.simps[of s] and_then_eq_Inr)
    from 1(1)[OF False _ lp] st obtain ts where
      ts: "tokens s' @ [Token T_EOF V_null (line s') (col s') (pos s') []] = tokens s1 @ ts"
      and tl: "tiling (pos s1) (line s1) (rest s1) ts" by auto
    from lex_step_moves[OF False st] show ?thesis
    proof (elim disjE exE conjE)
      fix n assume "emits n s s1"
      then obtain ty v c where n: "0 < n" "n \<le> length (rest s)" "denotes (take n (rest s)) ty v"
        and s1: "rest s1 = drop n (rest s)" "pos s1 = pos s + n"
          "line s1 = line s + newlines (take n (rest s))"
          "tokens s1 = tokens s @ [Token ty v (line s) c (pos s) (take n (rest s))]"
        by (auto simp: emits_def)
      have "tiling (pos s) (line s) (take n (rest s) @ drop n (rest s))
          (Token ty v (line s) c (pos s) (take n (rest s)) # ts)"
        using tl n s1 False by (intro tiling_token) (auto simp: min_absorb2)
      then show ?thesis using ts s1 by auto
    next
      fix n assume m: "moves n s s1" and g: "gap_text (take n (rest s))"
      have "tiling (pos s) (line s) (take n (rest s) @ drop n (rest s)) ts"
        using tl m g by (intro tiling_gap) (auto simp: moves_def min_absorb2)
      then show ?thesis using ts m by (auto simp: moves_def)
    qed
  qed
qed

text \<open>An error names the offset where the text at fault starts.\<close>

lemma lex_step_error:
  assumes "rest s \<noteq> []" and "lex_step s = Inl e"
  shows "\<exists>m l c. e = ParseError m l c (pos s)"
proof -
  have word: "\<exists>m l c. e' = ParseError m l c (pos t)" if "lex_word t = Inl e'" for t e'
    using that by (auto simp: lex_word_def readPunctuation_def Let_def
        split: if_splits option.splits)
  have str: "\<exists>m l c. e' = ParseError m l c (pos s)" if "readString q s = Inl e'" for q e'
    using that by (auto simp: readString_def Let_def split: string_scan.splits)
  have long: "\<exists>m l c. e' = ParseError m l c (pos s)" if "tryReadLongStringOrComment s = Inl e'" for e'
    using that by (auto simp: tryReadLongStringOrComment_def Let_def split: if_splits option.splits)
  have rewound: "pos t = pos s" if "tryReadLongStringOrComment s = Inr (t, None)" and "peek s 0 = 91" for t
  proof -
    note hyp = that
    obtain r where "rest s = 91 # r" using hyp(2) assms(1) by (cases "rest s") (auto simp: peek_def)
    from long_string_emits[OF this hyp(1)] show ?thesis by (simp add: moves_def)
  qed
  from assms(2) consider "lex_word s = Inl e" | q where "readString q s = Inl e"
    | "tryReadLongStringOrComment s = Inl e"
    | t where "tryReadLongStringOrComment s = Inr (t, None)" "peek s 0 = 91" "lex_word t = Inl e"
    by (auto simp: lex_step_def and_then_def Let_def split: if_splits sum.splits option.splits)
  then show ?thesis by cases (use word str long rewound in \<open>metis+\<close>)
qed

lemma lex_loop_error:
  "lex_loop s = Inl e \<Longrightarrow> \<exists>m l c k. e = ParseError m l c (pos s + k) \<and> k < length (rest s)"
proof (induction s rule: lex_loop.induct)
  case (1 s)
  then have False: "rest s \<noteq> []" by (auto simp: lex_loop.simps[of s])
  show ?case
  proof (cases "lex_step s")
    case (Inl e')
    then have "e' = e" using 1(2) False by (simp add: lex_loop.simps[of s])
    with lex_step_error[OF False Inl] False show ?thesis by (auto intro!: exI[of _ 0])
  next
    case (Inr s1)
    then have "lex_loop s1 = Inl e" using 1(2) False by (simp add: lex_loop.simps[of s])
    from 1(1)[OF False Inr this] obtain m l c k where
      e: "e = ParseError m l c (pos s1 + k)" "k < length (rest s1)" by blast
    from lex_step_moves[OF False Inr] obtain n where
      "n \<le> length (rest s)" "rest s1 = drop n (rest s)" "pos s1 = pos s + n"
      by (auto simp: emits_def moves_def)
    with e show ?thesis by (intro exI[of _ m] exI[of _ l] exI[of _ c] exI[of _ "n + k"]) auto
  qed
qed

lemma tokens_end: "tokenize src = Inr ts \<Longrightarrow> tiling 0 1 src ts"
  using lex_loop_tiling[of "new_lexer src"]
  by (auto simp: tokenize_def and_then_eq_Inr new_lexer_def)

text \<open>C1. Scanning ends for every text. When it succeeds, the source is the raw texts of the
  tokens in order with only blanks and comments between them, each token carries the offset
  and the line of its text and a value its text denotes, and the EOF token stands at the end;
  otherwise it throws a parse error whose offset lies inside the source.\<close>

theorem tokens_cover_source:
  "case tokenize src of
     Inr ts \<Rightarrow> tiling 0 1 src ts
   | Inl e \<Rightarrow> \<exists>m l c k. e = ParseError m l c k \<and> k < length src"
  using lex_loop_tiling[of "new_lexer src"] lex_loop_error[of "new_lexer src"]
  by (cases "lex_loop (new_lexer src)")
    (auto simp: tokenize_def and_then_eq_Inr new_lexer_def)

section \<open>Printed literals\<close>

lemma escape_byte_shape:
  assumes "q = 34 \<or> q = 39"
  shows "(\<exists>x. escape_byte q b = [92, x] \<and> x \<noteq> 10) \<or>
    (\<exists>c. escape_byte q b = [c] \<and> 32 \<le> c \<and> c \<noteq> 92 \<and> c \<noteq> q) \<or>
    escape_byte q b = 92 # dec3 (unat b)"
  using assms unfolding escape_byte_def Let_def by (simp split: if_split)

lemma dec3_units: "\<exists>x y z. dec3 n = [48 + x, 48 + y, 48 + z] \<and> y < 10 \<and> z < 10"
  by (simp add: dec3_def)

lemma scan_escape:
  assumes "q = 34 \<or> q = 39"
  shows "scan_string q (escape_byte q b @ r) n = scan_string q r (n + length (escape_byte q b))"
  using escape_byte_shape[OF assms, of b] dec3_units[of "unat b"] assms by fastforce

lemma scan_escapes_before:
  "q = 34 \<or> q = 39 \<Longrightarrow>
    scan_string q (escape_bytes q bs @ [q] @ r) n = Closed (n + length (escape_bytes q bs) + 1)"
  by (induction bs arbitrary: n) (auto simp: scan_escape)

lemmas scan_escapes = scan_escapes_before[where r = "[]", simplified]

lemma escape_byte_newlines: "q = 34 \<or> q = 39 \<Longrightarrow> newlines (escape_byte q b) = 0"
  using escape_byte_shape[of q b] dec3_units[of "unat b"] by fastforce

lemma escape_no_newline: "q = 34 \<or> q = 39 \<Longrightarrow> newlines (escape_bytes q bs) = 0"
  by (induction bs) (simp_all add: escape_byte_newlines)

text \<open>The scanner on a text that one round consumes.\<close>

lemma one_token:
  assumes "src \<noteq> []" and st: "lex_step (new_lexer src) = Inr s" and "rest s = []"
    and t: "tokens s = [t]" and nl: "newlines src = 0"
  shows "\<exists>c. tokenize src = Inr [t, Token T_EOF V_null 1 c (length src) []]"
proof -
  have ne: "rest (new_lexer src) \<noteq> []" using assms(1) by (simp add: new_lexer_def)
  from lex_step_moves[OF ne st] obtain n where n: "n \<le> length src" "drop n src = []"
    "pos s = n" "line s = 1 + newlines (take n src)"
    using assms(3) by (auto simp: emits_def moves_def new_lexer_def)
  then have "pos s = length src" "line s = 1" using nl by auto
  moreover have "lex_loop (new_lexer src) = Inr s"
    using ne st assms(3) by (simp add: lex_loop.simps)
  ultimately show ?thesis using t by (auto simp: tokenize_def)
qed

text \<open>A byte string printed as a Lua literal is scanned as exactly one STRING token, which
  holds the same bytes whenever no zero byte is directly followed by a digit.\<close>

theorem literal_scans_as_one_token:
  assumes "q = 34 \<or> q = 39" and "zero_safe bs"
  shows "\<exists>c. tokenize (toLuaLiteral q bs) =
    Inr [Token T_STRING (V_bytes bs) 1 1 0 (toLuaLiteral q bs),
         Token T_EOF V_null 1 c (length (toLuaLiteral q bs)) []]"
proof -
  let ?L = "toLuaLiteral q bs"
  define s where "s = advance_by (length ?L) (new_lexer ?L)"
  have "scan_string q (tl ?L) 1 = Closed (length ?L)"
    using scan_escapes[OF assms(1)] by (simp add: toLuaLiteral_def)
  then have "readString q (new_lexer ?L) =
      return (push T_STRING (V_bytes (fromLuaLiteral ?L)) (new_lexer ?L) ?L s)"
    by (simp add: readString_def new_lexer_def s_def Let_def)
  moreover have "peek (new_lexer ?L) 0 = q" by (simp add: peek_def new_lexer_def toLuaLiteral_def)
  ultimately have st: "lex_step (new_lexer ?L) =
      Inr (push T_STRING (V_bytes (fromLuaLiteral ?L)) (new_lexer ?L) ?L s)"
    using assms(1) by (auto simp: lex_step_def white_def)
  have m: "moves (length ?L) (new_lexer ?L) s"
    unfolding s_def by (intro moves_advance_by) (simp add: new_lexer_def)
  have "fromLuaLiteral ?L = bs"
    using assms by (simp add: literal_body decode_escape_safe)
  moreover have "newlines ?L = 0"
    using escape_no_newline[OF assms(1), of bs] assms(1) by (auto simp: toLuaLiteral_def)
  ultimately show ?thesis using m
    by (intro one_token[OF _ st]) (auto simp: toLuaLiteral_def push_def moves_def new_lexer_def)
qed

theorem literal_scans_as_one_token_witness:
  "\<exists>c. tokenize (toLuaLiteral 34 [97, 0, 34]) =
    Inr [Token T_STRING (V_bytes [97, 0, 34]) 1 1 0 (toLuaLiteral 34 [97, 0, 34]),
         Token T_EOF V_null 1 c (length (toLuaLiteral 34 [97, 0, 34])) []]"
  by (rule literal_scans_as_one_token) simp_all

section \<open>Words\<close>

definition word_text :: "js_string \<Rightarrow> bool" where
  "word_text w \<longleftrightarrow> w \<noteq> [] \<and> ident_start (hd w) \<and> list_all ident_unit w"

lemma word_one_token:
  assumes "word_text w"
  shows "\<exists>c. tokenize w = Inr [Token (fst (identifier_token w)) (snd (identifier_token w)) 1 1 0 w,
    Token T_EOF V_null 1 c (length w) []]"
proof -
  obtain a r where w: "w = a # r" "ident_start a" using assms by (cases w) (auto simp: word_text_def)
  let ?s = "new_lexer w"
  have pk: "peek ?s 0 = a" by (simp add: new_lexer_def peek_def w)
  have "\<not> white a" "\<not> (a = 45 \<and> peek ?s 1 = 45)" "\<not> (a = 34 \<or> a = 39)"
    "\<not> (a = 91 \<and> (peek ?s 1 = 91 \<or> peek ?s 1 = 61))"
    "\<not> (is_digit a \<or> a = 46 \<and> is_digit (peek ?s 1))"
    using w(2) by (auto simp: ident_start_def white_def)
  then have st: "lex_step ?s = Inr (readIdentifier ?s)"
    using w(2) unfolding lex_step_def lex_word_def Let_def pk by (simp only: if_False if_True)
  have all: "\<forall>c \<in> set w. ident_unit c" using assms by (simp add: word_text_def list_all_iff)
  then have sp: "span_of ident_unit ?s = w"
    by (simp add: span_of_def new_lexer_def takeWhile_all_iff)
  have m: "moves (length w) ?s (skip_while ident_unit ?s)"
    using moves_skip_while[of ident_unit ?s] sp by simp
  have "10 \<notin> set w" using all by (auto simp: ident_unit_def)
  then have "newlines w = 0" by (auto simp: newlines_def filter_empty_conv)
  moreover have "readIdentifier ?s = push (fst (identifier_token w)) (snd (identifier_token w)) ?s w
      (skip_while ident_unit ?s)"
    by (simp only: readIdentifier_def sp Let_def)
  ultimately show ?thesis using m w(1)
    by (intro one_token[OF _ st]) (auto simp: push_def moves_def new_lexer_def)
qed

lemma plain_name:
  assumes "w \<notin> fst ` set keyword_table"
  shows "identifier_token w = (T_IDENT, V_text w)"
  using assms by (simp add: identifier_token_def lookup_keyword_def map_of_eq_None_iff[symmetric])

text \<open>A name that is no keyword and no property that every JavaScript object inherits is
  scanned as one identifier token.\<close>

theorem names_scan_as_identifiers:
  assumes "word_text w" and "w \<notin> fst ` set keyword_table"
  shows "\<exists>c. tokenize w =
    Inr [Token T_IDENT (V_text w) 1 1 0 w, Token T_EOF V_null 1 c (length w) []]"
  using word_one_token[OF assms(1)] plain_name[OF assms(2)] by simp

theorem names_scan_as_identifiers_witness:
  "\<exists>c. tokenize (units ''state_1'') =
    Inr [Token T_IDENT (V_text (units ''state_1'')) 1 1 0 (units ''state_1''),
         Token T_EOF V_null 1 c (length (units ''state_1'')) []]"
proof (rule names_scan_as_identifiers)
  show "word_text (units ''state_1'')" by code_simp
  show "units ''state_1'' \<notin> fst ` set keyword_table" by code_simp
qed

text \<open>The exceptions are real: the Lua names \<open>constructor\<close>, \<open>toString\<close> and \<open>valueOf\<close> are scanned
  as tokens of no declared type, because the keyword table is an object and the lookup finds
  the property it inherits.\<close>

theorem inherited_names_scan_wrong:
  "list_all (\<lambda>n. \<exists>c. tokenize (units n) =
      Inr [Token (T_INHERITED n) (V_text (units n)) 1 1 0 (units n),
           Token T_EOF V_null 1 c (length n) []])
    [''constructor'', ''toString'', ''valueOf'']"
proof -
  have "\<exists>c. tokenize (units n) = Inr [Token (T_INHERITED n) (V_text (units n)) 1 1 0 (units n),
      Token T_EOF V_null 1 c (length n) []]"
    if "word_text (units n)" "identifier_token (units n) = (T_INHERITED n, V_text (units n))" for n
    using word_one_token[OF that(1)] that(2) by simp
  moreover have "list_all (\<lambda>n. word_text (units n) \<and>
      identifier_token (units n) = (T_INHERITED n, V_text (units n)))
      [''constructor'', ''toString'', ''valueOf'']"
    by code_simp
  ultimately show ?thesis by (simp only: list_all_iff) blast
qed

text \<open>A hexadecimal number with a binary exponent is one token without a value: the scanner
  accepts \<open>0x1p4\<close> and gives it the value NaN.\<close>

theorem hex_float_has_no_value:
  "case tokenize (units ''0x1p4'') of
     Inr ts \<Rightarrow> map (\<lambda>t. (ttype t, tvalue t, length (traw t))) ts =
       [(T_NUMBER, V_num NaN, 5), (T_EOF, V_null, 0)]
   | Inl e \<Rightarrow> False"
  by code_simp

end
