(* ===== verification/Generator.thy ===== *)
theory Generator
  imports AST
begin

text \<open>
  The printer (\<open>packages/core/src/generator/lua-generator.js\<close>). The text a method appends to
  \<open>out\<close> is its result; \<open>ind\<close> is the indentation string and \<open>lvl\<close> the indentation level. The
  precedences are ten times those of the source, which adds 0.1 to one of them.
\<close>

definition indent_text :: "js_string \<Rightarrow> nat \<Rightarrow> js_string" where
  "indent_text ind lvl = concat (replicate lvl ind)"

definition writeln :: "js_string \<Rightarrow> nat \<Rightarrow> js_string \<Rightarrow> js_string" where
  "writeln ind lvl str = (if str \<noteq> [] then indent_text ind lvl @ str @ [10] else [10])"

text \<open>\<open>join\<close>; an absent element is the empty text.\<close>

fun js_join :: "js_string \<Rightarrow> js_string list \<Rightarrow> js_string" where
  "js_join sep [] = []"
| "js_join sep [x] = x"
| "js_join sep (x # y # ys) = x @ sep @ js_join sep (y # ys)"

text \<open>The name of a node in a template text, and in a joined list.\<close>

definition name_text :: "expr \<Rightarrow> js_string" where
  "name_text e = (case node_name e of Some n \<Rightarrow> n | None \<Rightarrow> units ''undefined'')"

definition name_item :: "expr \<Rightarrow> js_string" where
  "name_item e = (case node_name e of Some n \<Rightarrow> n | None \<Rightarrow> [])"

definition param_list :: "expr list \<Rightarrow> bool \<Rightarrow> js_string" where
  "param_list ps isVararg =
     js_join (units '', '') (map name_item ps @ (if isVararg then [units ''...''] else []))"

definition getPrecedence :: "expr \<Rightarrow> nat" where
  "getPrecedence e =
     (case e of
        LogicalExpression op l r \<Rightarrow> if op = ''or'' then 10 else 20
      | BinaryExpression op l r \<Rightarrow>
          if op \<in> {''<'', ''>'', ''<='', ''>='', ''~='', ''==''} then 30
          else if op = ''..'' then 40
          else if op \<in> {''+'', ''-''} then 50
          else if op \<in> {''*'', ''/'', ''%''} then 60
          else if op = ''^'' then 80
          else 0
      | UnaryExpression op a \<Rightarrow> 70
      | _ \<Rightarrow> 990)"

definition right_assoc :: "string \<Rightarrow> bool" where
  "right_assoc op \<longleftrightarrow> op = ''..'' \<or> op = ''^''"

definition parens :: "js_string \<Rightarrow> js_string" where
  "parens s = 40 # s @ [41]"

definition wrap :: "nat \<Rightarrow> nat \<Rightarrow> js_string \<Rightarrow> js_string" where
  "wrap cur parent result = (if cur < parent then parens result else result)"

definition wrap_base :: "expr \<Rightarrow> js_string \<Rightarrow> js_string" where
  "wrap_base base s = (if is_function base then parens s else s)"

fun is_value_field :: "table_field \<Rightarrow> bool" where
  "is_value_field (TableValue v) = True" | "is_value_field _ = False"

function (sequential) exprToString :: "js_string \<Rightarrow> nat \<Rightarrow> expr \<Rightarrow> nat \<Rightarrow> js_string"
and exprs_text :: "js_string \<Rightarrow> nat \<Rightarrow> expr list \<Rightarrow> js_string list"
and values_text :: "js_string \<Rightarrow> nat \<Rightarrow> table_field list \<Rightarrow> js_string list"
and field_text :: "js_string \<Rightarrow> nat \<Rightarrow> table_field \<Rightarrow> js_string"
and fields_text :: "js_string \<Rightarrow> nat \<Rightarrow> table_field list \<Rightarrow> js_string list"
and generateNode :: "js_string \<Rightarrow> nat \<Rightarrow> stmt \<Rightarrow> js_string"
and generateBlock :: "js_string \<Rightarrow> nat \<Rightarrow> stmt list \<Rightarrow> js_string"
and generateClauses :: "js_string \<Rightarrow> nat \<Rightarrow> bool \<Rightarrow> clause list \<Rightarrow> js_string"
where
  "exprToString ind lvl (Identifier n) pp = wrap 990 pp n"
| "exprToString ind lvl (NumericLiteral v raw) pp =
     wrap 990 pp (if raw \<noteq> [] then raw else js_num_to_string v)"
| "exprToString ind lvl (StringLiteral s raw) pp = wrap 990 pp (toLuaLiteral 34 s)"
| "exprToString ind lvl (BooleanLiteral b) pp =
     wrap 990 pp (if b then units ''true'' else units ''false'')"
| "exprToString ind lvl NilLiteral pp = wrap 990 pp (units ''nil'')"
| "exprToString ind lvl (VarargLiteral inParens) pp =
     wrap 990 pp (if inParens then units ''(...)'' else units ''...'')"
| "exprToString ind lvl (UnaryExpression op a) pp =
     wrap 70 pp (units op @ (if op = ''not'' then [32] else []) @ exprToString ind lvl a 70)"
| "exprToString ind lvl (BinaryExpression op l r) pp =
     (let cur = getPrecedence (BinaryExpression op l r);
          leftPrec = (if right_assoc op then cur + 1 else cur);
          rightPrec = (if right_assoc op then cur else cur + 1)
      in wrap cur pp (exprToString ind lvl l leftPrec @ [32] @ units op @ [32] @
           exprToString ind lvl r rightPrec))"
| "exprToString ind lvl (LogicalExpression op l r) pp =
     (let cur = getPrecedence (LogicalExpression op l r);
          leftPrec = (if right_assoc op then cur + 1 else cur);
          rightPrec = (if right_assoc op then cur else cur + 1)
      in wrap cur pp (exprToString ind lvl l leftPrec @ [32] @ units op @ [32] @
           exprToString ind lvl r rightPrec))"
| "exprToString ind lvl (CallExpression base args) pp =
     wrap 990 pp (wrap_base base (exprToString ind lvl base 990) @
       parens (js_join (units '', '') (exprs_text ind lvl args)))"
| "exprToString ind lvl (MethodCallExpression base m args) pp =
     wrap 990 pp (wrap_base base (exprToString ind lvl base 990) @ [58] @ name_text m @
       parens (js_join (units '', '') (exprs_text ind lvl args)))"
| "exprToString ind lvl (MemberExpression base p) pp =
     wrap 990 pp (wrap_base base (exprToString ind lvl base 990) @ [46] @ name_text p)"
| "exprToString ind lvl (IndexExpression base i) pp =
     wrap 990 pp (wrap_base base (exprToString ind lvl base 990) @
       [91] @ exprToString ind lvl i 0 @ [93])"
| "exprToString ind lvl (FunctionExpression ps isVararg body) pp =
     wrap 990 pp (units ''function('' @ param_list ps isVararg @ [41, 10] @
       generateBlock ind (lvl + 1) body @ indent_text ind lvl @ units ''end'')"
| "exprToString ind lvl (TableConstructor fs) pp =
     wrap 990 pp
       (if fs = [] then units ''{}''
        else if length fs \<le> 4 \<and> list_all is_value_field fs then
          units ''{ '' @ js_join (units '', '') (values_text ind lvl fs) @ units '' }''
        else [123, 10] @ js_join [44, 10] (fields_text ind lvl fs) @
          [10] @ indent_text ind lvl @ [125])"
| "exprs_text ind lvl [] = []"
| "exprs_text ind lvl (e # es) = exprToString ind lvl e 0 # exprs_text ind lvl es"
| "values_text ind lvl [] = []"
| "values_text ind lvl (TableValue v # fs) = exprToString ind lvl v 0 # values_text ind lvl fs"
| "values_text ind lvl (TableKey k v # fs) = exprToString ind lvl v 0 # values_text ind lvl fs"
| "values_text ind lvl (TableKeyString k v # fs) = exprToString ind lvl v 0 # values_text ind lvl fs"
| "field_text ind lvl (TableKey k v) =
     indent_text ind (lvl + 1) @ [91] @ exprToString ind lvl k 0 @ units ''] = '' @
       exprToString ind lvl v 0"
| "field_text ind lvl (TableKeyString k v) =
     indent_text ind (lvl + 1) @ name_text k @ units '' = '' @ exprToString ind lvl v 0"
| "field_text ind lvl (TableValue v) = indent_text ind (lvl + 1) @ exprToString ind lvl v 0"
| "fields_text ind lvl [] = []"
| "fields_text ind lvl (f # fs) = field_text ind lvl f # fields_text ind lvl fs"
| "generateNode ind lvl (LocalStatement vs es) =
     (let vars = js_join (units '', '') (exprs_text ind lvl vs)
      in if es \<noteq> [] then
           writeln ind lvl (units ''local '' @ vars @ units '' = '' @
             js_join (units '', '') (exprs_text ind lvl es))
         else writeln ind lvl (units ''local '' @ vars))"
| "generateNode ind lvl (AssignmentStatement vs es) =
     writeln ind lvl (js_join (units '', '') (exprs_text ind lvl vs) @ units '' = '' @
       js_join (units '', '') (exprs_text ind lvl es))"
| "generateNode ind lvl (LocalFunctionStatement i ps va body) =
     writeln ind lvl (units ''local function '' @ name_text i @ parens (param_list ps va)) @
     generateBlock ind (lvl + 1) body @ writeln ind lvl (units ''end'')"
| "generateNode ind lvl (FunctionDeclaration n ps va body isMethod) =
     writeln ind lvl (units ''function '' @ exprToString ind lvl n 0 @ parens (param_list ps va)) @
     generateBlock ind (lvl + 1) body @ writeln ind lvl (units ''end'')"
| "generateNode ind lvl (CallStatement e) = writeln ind lvl (exprToString ind lvl e 0)"
| "generateNode ind lvl (IfStatement cs None) =
     generateClauses ind lvl True cs @ writeln ind lvl (units ''end'')"
| "generateNode ind lvl (IfStatement cs (Some b)) =
     generateClauses ind lvl True cs @
     (if b \<noteq> [] then writeln ind lvl (units ''else'') @ generateBlock ind (lvl + 1) b else []) @
     writeln ind lvl (units ''end'')"
| "generateNode ind lvl (WhileStatement c b) =
     writeln ind lvl (units ''while '' @ exprToString ind lvl c 0 @ units '' do'') @
     generateBlock ind (lvl + 1) b @ writeln ind lvl (units ''end'')"
| "generateNode ind lvl (RepeatStatement c b) =
     writeln ind lvl (units ''repeat'') @ generateBlock ind (lvl + 1) b @
     writeln ind lvl (units ''until '' @ exprToString ind lvl c 0)"
| "generateNode ind lvl (NumericForStatement v e1 e2 None b) =
     writeln ind lvl (units ''for '' @ name_text v @ units '' = '' @ exprToString ind lvl e1 0 @
       units '', '' @ exprToString ind lvl e2 0 @ units '' do'') @
     generateBlock ind (lvl + 1) b @ writeln ind lvl (units ''end'')"
| "generateNode ind lvl (NumericForStatement v e1 e2 (Some e3) b) =
     writeln ind lvl (units ''for '' @ name_text v @ units '' = '' @ exprToString ind lvl e1 0 @
       units '', '' @ exprToString ind lvl e2 0 @ units '', '' @ exprToString ind lvl e3 0 @
       units '' do'') @
     generateBlock ind (lvl + 1) b @ writeln ind lvl (units ''end'')"
| "generateNode ind lvl (GenericForStatement vs es b) =
     writeln ind lvl (units ''for '' @ js_join (units '', '') (map name_item vs) @ units '' in '' @
       js_join (units '', '') (exprs_text ind lvl es) @ units '' do'') @
     generateBlock ind (lvl + 1) b @ writeln ind lvl (units ''end'')"
| "generateNode ind lvl (DoStatement b) =
     writeln ind lvl (units ''do'') @ generateBlock ind (lvl + 1) b @ writeln ind lvl (units ''end'')"
| "generateNode ind lvl (ReturnStatement es) =
     (if es = [] then writeln ind lvl (units ''return'')
      else writeln ind lvl (units ''return '' @ js_join (units '', '') (exprs_text ind lvl es)))"
| "generateNode ind lvl BreakStatement = writeln ind lvl (units ''break'')"
| "generateNode ind lvl ContinueStatement = writeln ind lvl (units ''continue'')"
| "generateNode ind lvl EmptyStatement = []"
| "generateBlock ind lvl [] = []"
| "generateBlock ind lvl (st # ss) = generateNode ind lvl st @ generateBlock ind lvl ss"
| "generateClauses ind lvl first [] = []"
| "generateClauses ind lvl first (Clause c b # cs) =
     writeln ind lvl ((if first then units ''if '' else units ''elseif '') @
       exprToString ind lvl c 0 @ units '' then'') @
     generateBlock ind (lvl + 1) b @ generateClauses ind lvl False cs"

  by pat_completeness auto
termination
  by (relation "measure (\<lambda>x. case x of
      Inl (Inl (Inl (ind, lvl, e, pp))) \<Rightarrow> size e
    | Inl (Inl (Inr (ind, lvl, es))) \<Rightarrow> size_list size es
    | Inl (Inr (Inl (ind, lvl, fs))) \<Rightarrow> size_list size fs
    | Inl (Inr (Inr (ind, lvl, f))) \<Rightarrow> size f
    | Inr (Inl (Inl (ind, lvl, fs))) \<Rightarrow> size_list size fs
    | Inr (Inl (Inr (ind, lvl, st))) \<Rightarrow> size st
    | Inr (Inr (Inl (ind, lvl, b))) \<Rightarrow> size_list size b
    | Inr (Inr (Inr (ind, lvl, first, cs))) \<Rightarrow> size_list size cs)") simp_all

definition trim_end :: "js_string \<Rightarrow> js_string" where
  "trim_end s = rev (dropWhile js_space (rev s))"

definition generate :: "chunk \<Rightarrow> js_string" where
  "generate c = trim_end (generateBlock [32, 32] 0 c) @ [10]"

end
