(* ===== verification/Print_Lex.thy ===== *)
theory Print_Lex
  imports Lexer_Props Generator
begin

text \<open>
  What the scanner makes of printed expressions: the tokens of an operator expression, each
  where the printer puts it, with parentheses exactly where it puts them.
\<close>

type_synonym content = "token_type \<times> token_value \<times> js_string"

definition content :: "token \<Rightarrow> content" where
  "content t = (ttype t, tvalue t, traw t)"

lemma content_Token [simp]: "content (Token ty v l c p raw) = (ty, v, raw)"
  by (simp add: content_def)

section \<open>Texts and the tokens they scan to\<close>

text \<open>\<open>lexes ok txt cs\<close>: whatever stands before it, and before any text \<open>r\<close> with \<open>ok r\<close>, the
  text is scanned to tokens with the contents \<open>cs\<close>.\<close>

definition lexes :: "(js_string \<Rightarrow> bool) \<Rightarrow> js_string \<Rightarrow> content list \<Rightarrow> bool" where
  "lexes ok txt cs \<longleftrightarrow>
     (\<forall>s r. rest s = txt @ r \<longrightarrow> ok r \<longrightarrow>
        (\<exists>s'. rest s' = r \<and> lex_loop s = lex_loop s' \<and>
          map content (tokens s') = map content (tokens s) @ cs))"

lemma lexes_append:
  assumes "lexes ok1 a ca" and "lexes ok2 b cb" and "\<And>r. ok2 r \<Longrightarrow> ok1 (b @ r)"
  shows "lexes ok2 (a @ b) (ca @ cb)"
  unfolding lexes_def
proof (intro allI impI)
  fix s :: lexer and r assume "rest s = (a @ b) @ r" "ok2 r"
  then obtain s1 where s1: "rest s1 = b @ r" "lex_loop s = lex_loop s1"
    "map content (tokens s1) = map content (tokens s) @ ca"
    using assms(1,3) unfolding lexes_def by (metis append.assoc)
  with assms(2) \<open>ok2 r\<close> obtain s2 where "rest s2 = r" "lex_loop s1 = lex_loop s2"
    "map content (tokens s2) = map content (tokens s1) @ cb"
    unfolding lexes_def by metis
  with s1 show "\<exists>s'. rest s' = r \<and> lex_loop s = lex_loop s' \<and>
      map content (tokens s') = map content (tokens s) @ ca @ cb"
    by (intro exI[of _ s2]) simp
qed

lemma lexes_weaken: "lexes ok a c \<Longrightarrow> (\<And>r. ok' r \<Longrightarrow> ok r) \<Longrightarrow> lexes ok' a c"
  by (auto simp: lexes_def)

text \<open>A text that one round of the loop consumes.\<close>

lemma lexes_round:
  assumes "txt \<noteq> []"
    and "\<And>s r. rest s = txt @ r \<Longrightarrow> ok r \<Longrightarrow>
      \<exists>s'. lex_step s = Inr s' \<and> rest s' = r \<and> map content (tokens s') = map content (tokens s) @ cs"
  shows "lexes ok txt cs"
  unfolding lexes_def
proof (intro allI impI)
  fix s :: lexer and r assume s: "rest s = txt @ r" "ok r"
  from assms(2)[OF this] obtain s' where "lex_step s = Inr s'" "rest s' = r"
    "map content (tokens s') = map content (tokens s) @ cs" by blast
  moreover from this s(1) assms(1) have "lex_loop s = lex_loop s'" by (simp add: lex_loop.simps[of s])
  ultimately show "\<exists>s'. rest s' = r \<and> lex_loop s = lex_loop s' \<and>
      map content (tokens s') = map content (tokens s) @ cs" by blast
qed

lemma peek_Cons: "rest s = c # r \<Longrightarrow> peek s 0 = c"
  by (simp add: peek_def)

lemma lexes_space: "lexes (\<lambda>r. True) [32] []"
proof (rule lexes_round)
  fix s :: lexer and r assume s: "rest s = [32] @ r"
  then have "lex_step s = Inr (advance s)" by (simp add: lex_step_def white_def peek_def)
  then show "\<exists>s'. lex_step s = Inr s' \<and> rest s' = r \<and>
      map content (tokens s') = map content (tokens s) @ []"
    using s by (intro exI[of _ "advance s"]) (simp add: advance_def)
qed simp

text \<open>Words, numbers and strings.\<close>

definition no_ident :: "js_string \<Rightarrow> bool" where
  "no_ident r \<longleftrightarrow> r = [] \<or> \<not> ident_unit (hd r)"

lemma takeWhile_stop:
  "list_all P w \<Longrightarrow> r = [] \<or> \<not> P (hd r) \<Longrightarrow> takeWhile P (w @ r) = w"
  by (cases r) (auto simp: list_all_iff takeWhile_append1 takeWhile_append2 takeWhile_all_iff)

lemma word_round:
  assumes "word_text w" and "rest s = w @ r" and "no_ident r"
  shows "lex_step s = Inr (push (fst (identifier_token w)) (snd (identifier_token w)) s w
      (skip_while ident_unit s)) \<and> rest (skip_while ident_unit s) = r"
proof -
  obtain a w' where w: "w = a # w'" "ident_start a" using assms(1) by (cases w) (auto simp: word_text_def)
  have pk: "peek s 0 = a" using assms(2) w by (simp add: peek_def)
  have "\<not> white a" "\<not> (a = 45 \<and> peek s 1 = 45)" "\<not> (a = 34 \<or> a = 39)"
    "\<not> (a = 91 \<and> (peek s 1 = 91 \<or> peek s 1 = 61))"
    "\<not> (is_digit a \<or> a = 46 \<and> is_digit (peek s 1))"
    using w(2) by (auto simp: ident_start_def white_def)
  then have "lex_step s = Inr (readIdentifier s)"
    using w(2) unfolding lex_step_def lex_word_def Let_def pk by (simp only: if_False if_True)
  moreover have sp: "span_of ident_unit s = w"
    using assms by (simp add: span_of_def takeWhile_stop word_text_def no_ident_def)
  moreover have "rest (skip_while ident_unit s) = r"
    using moves_rest[OF moves_skip_while[of ident_unit s]] sp assms(2) by simp
  ultimately show ?thesis by (simp add: readIdentifier_def Let_def)
qed

lemma tokens_skip_while [simp]: "tokens (skip_while P s) = tokens s"
  using moves_skip_while[of P s] by (simp add: moves_def)

lemma lexes_word:
  assumes "word_text w" and "identifier_token w = (ty, v)"
  shows "lexes no_ident w [(ty, v, w)]"
proof (rule lexes_round)
  fix s :: lexer and r assume "rest s = w @ r" "no_ident r"
  from word_round[OF assms(1) this] assms(2)
  show "\<exists>s'. lex_step s = Inr s' \<and> rest s' = r \<and>
      map content (tokens s') = map content (tokens s) @ [(ty, v, w)]"
    by (intro exI conjI, blast) (simp_all add: push_def)
qed (use assms in \<open>simp add: word_text_def\<close>)

definition numeral_text :: "js_string \<Rightarrow> bool" where
  "numeral_text raw \<longleftrightarrow> raw \<noteq> [] \<and> list_all dec_digit raw"

text \<open>What may follow a number: nothing that continues it.\<close>

definition ends :: "js_string \<Rightarrow> bool" where
  "ends r \<longleftrightarrow> r = [] \<or> hd r \<in> {32, 41, 44, 93, 10}"

lemma ends_no_ident: "ends r \<Longrightarrow> no_ident r"
  by (auto simp: ends_def no_ident_def ident_unit_def)

lemma number_round:
  assumes "numeral_text raw" and "rest s = raw @ r" and "ends r"
  shows "lex_step s = Inr (push T_NUMBER (V_num (js_Number raw)) s raw (skip_while dec_digit s)) \<and>
    rest (skip_while dec_digit s) = r"
proof -
  obtain a w where raw: "raw = a # w" "is_digit a"
    using assms(1) by (cases raw) (auto simp: numeral_text_def dec_digit_def)
  have pk: "peek s 0 = a" using assms(2) raw by (simp add: peek_def)
  have sp: "span_of dec_digit s = raw"
    using assms by (simp add: span_of_def, intro takeWhile_stop)
      (auto simp: numeral_text_def ends_def dec_digit_def)
  have rs: "rest (skip_while dec_digit s) = r"
    using moves_rest[OF moves_skip_while[of dec_digit s]] sp assms(2) by simp
  have stop: "peek (skip_while dec_digit s) 0 \<notin> {46, 101, 69}"
    using assms(3) rs by (cases r) (auto simp: peek_def ends_def)
  have "peek s 1 \<noteq> 120 \<and> peek s 1 \<noteq> 88"
  proof (cases w)
    case Nil
    then show ?thesis using assms(2,3) raw by (cases r) (auto simp: peek_def ends_def)
  next
    case (Cons b w')
    then have "is_digit b" using assms(1) raw by (auto simp: numeral_text_def dec_digit_def)
    then show ?thesis using Cons assms(2) raw by (auto simp: peek_def)
  qed
  then have "readNumber s = push T_NUMBER (V_num (js_Number raw)) s raw (skip_while dec_digit s)"
    using stop by (simp add: readNumber_def take_parts sp take_exponent_def Let_def)
  moreover have "lex_step s = Inr (readNumber s)"
    using raw(2) by (auto simp: lex_step_def lex_word_def pk white_def)
  ultimately show ?thesis using rs by simp
qed

lemma lexes_number:
  assumes "numeral_text raw"
  shows "lexes ends raw [(T_NUMBER, V_num (js_Number raw), raw)]"
proof (rule lexes_round)
  fix s :: lexer and r assume "rest s = raw @ r" "ends r"
  from number_round[OF assms this]
  show "\<exists>s'. lex_step s = Inr s' \<and> rest s' = r \<and> map content (tokens s') =
      map content (tokens s) @ [(T_NUMBER, V_num (js_Number raw), raw)]"
    by (intro exI conjI, blast) (simp_all add: push_def)
qed (use assms in \<open>simp add: numeral_text_def\<close>)

lemma lexes_string:
  assumes "zero_safe bs"
  shows "lexes (\<lambda>r. True) (toLuaLiteral 34 bs) [(T_STRING, V_bytes bs, toLuaLiteral 34 bs)]"
proof (rule lexes_round)
  let ?L = "toLuaLiteral 34 bs"
  fix s :: lexer and r assume r: "rest s = ?L @ r"
  have "scan_string 34 (escape_bytes 34 bs @ [34] @ r) 1 = Closed (length ?L)"
    using scan_escapes_before[of 34 bs r 1] by (simp add: toLuaLiteral_def)
  then have "readString 34 s =
      return (push T_STRING (V_bytes (fromLuaLiteral ?L)) s ?L (advance_by (length ?L) s))"
    using r by (simp add: readString_def toLuaLiteral_def Let_def)
  moreover have "peek s 0 = 34" using r by (simp add: peek_def toLuaLiteral_def)
  moreover have "fromLuaLiteral ?L = bs" using assms by (simp add: literal_body decode_escape_safe)
  moreover have "moves (length ?L) s (advance_by (length ?L) s)"
    using r by (intro moves_advance_by) simp
  ultimately show "\<exists>s'. lex_step s = Inr s' \<and> rest s' = r \<and>
      map content (tokens s') = map content (tokens s) @ [(T_STRING, V_bytes bs, ?L)]"
    using r by (auto simp: lex_step_def white_def push_def moves_def)
qed (simp add: toLuaLiteral_def)

text \<open>Operators and delimiters.\<close>

definition sym :: "token_type \<Rightarrow> content" where
  "sym t = (t, V_text (units (type_text t)), units (type_text t))"

definition unit_at :: "nat \<Rightarrow> js_string \<Rightarrow> nat" where
  "unit_at k u = (if k < length u then u ! k else 0)"

lemma unit_at_simps [simp]:
  "unit_at 0 (c # u) = c" "unit_at (Suc k) (c # u) = unit_at k u" "unit_at k [] = 0"
  by (simp_all add: unit_at_def)

text \<open>The text \<open>c # w\<close> is the operator \<open>t\<close> when \<open>r\<close> follows.\<close>

definition symbol_before :: "nat \<Rightarrow> js_string \<Rightarrow> token_type \<Rightarrow> js_string \<Rightarrow> bool" where
  "symbol_before c w t r \<longleftrightarrow>
     punctuation c (unit_at 0 (w @ r)) (unit_at 1 (w @ r)) = Some (t, length w) \<and>
     \<not> white c \<and> c \<noteq> 34 \<and> c \<noteq> 39 \<and> \<not> is_digit c \<and> \<not> ident_start c \<and>
     \<not> (c = 45 \<and> unit_at 0 (w @ r) = 45) \<and>
     \<not> (c = 91 \<and> (unit_at 0 (w @ r) = 91 \<or> unit_at 0 (w @ r) = 61)) \<and>
     \<not> (c = 46 \<and> is_digit (unit_at 0 (w @ r)))"

lemma lexes_symbol:
  assumes sb: "\<And>r. ok r \<Longrightarrow> symbol_before c w t r"
  shows "lexes ok (c # w) [sym t]"
proof (rule lexes_round)
  fix s :: lexer and r assume r: "rest s = (c # w) @ r" "ok r"
  define s1 where "s1 = advance s"
  have m1: "moves 1 s s1" unfolding s1_def using r(1) by (intro moves_advance) simp
  then have r1: "rest s1 = w @ r" using r(1) by (simp add: moves_def)
  have pk: "peek s 0 = c" "peek s 1 = unit_at 0 (w @ r)" "peek s1 0 = unit_at 0 (w @ r)"
    "peek s1 1 = unit_at 1 (w @ r)"
    using r(1) r1 by (simp_all add: peek_def unit_at_def)
  from sb[OF r(2)] have p: "punctuation c (unit_at 0 (w @ r)) (unit_at 1 (w @ r)) = Some (t, length w)"
    and c: "\<not> white c" "\<not> (c = 45 \<and> peek s 1 = 45)" "\<not> (c = 34 \<or> c = 39)"
      "\<not> (c = 91 \<and> (peek s 1 = 91 \<or> peek s 1 = 61))"
      "\<not> (is_digit c \<or> c = 46 \<and> is_digit (peek s 1))" "\<not> ident_start c"
    unfolding symbol_before_def pk by blast+
  have "lex_step s = readPunctuation s"
    unfolding lex_step_def lex_word_def Let_def pk(1) using c by (simp only: if_False)
  also have "\<dots> = return (push t (V_text (units (type_text t))) s (units (type_text t))
      (advance_by (length w) s1))"
    using p pk by (simp add: readPunctuation_def s1_def[symmetric] Let_def)
  finally have st: "lex_step s = return (push t (V_text (units (type_text t))) s (units (type_text t))
      (advance_by (length w) s1))" .
  have "moves (length w) s1 (advance_by (length w) s1)" using r1 by (intro moves_advance_by) simp
  moreover have "tokens s1 = tokens s" using m1 by (simp add: moves_def)
  ultimately have "rest (advance_by (length w) s1) = r" "tokens (advance_by (length w) s1) = tokens s"
    using r1 by (simp_all add: moves_def)
  with st show "\<exists>s'. lex_step s = Inr s' \<and> rest s' = r \<and>
      map content (tokens s') = map content (tokens s) @ [sym t]"
    by (simp add: push_def sym_def)
qed simp

definition before_space :: "js_string \<Rightarrow> bool" where
  "before_space r \<longleftrightarrow> (\<exists>r'. r = 32 # r')"

definition operator_tokens :: "(string \<times> token_type) list" where
  "operator_tokens =
     [(''+'', T_PLUS), (''-'', T_MINUS), (''*'', T_STAR), (''/'', T_SLASH), (''%'', T_PERCENT),
      (''^'', T_CARET), (''=='', T_EQ_EQ), (''~='', T_TILDE_EQ), (''<='', T_LT_EQ), (''>='', T_GT_EQ),
      (''<'', T_LT), (''>'', T_GT), (''..'', T_DOT_DOT)]"

lemma operator_symbol_before:
  assumes "(op, t) \<in> set operator_tokens"
  shows "symbol_before (hd (units op)) (tl (units op)) t (32 # r)"
proof -
  have "\<forall>(op, t) \<in> set operator_tokens. symbol_before (hd (units op)) (tl (units op)) t (32 # r)"
    by (simp add: operator_tokens_def symbol_before_def punctuation_def single_tokens_def white_def
        ident_start_def)
  with assms show ?thesis by blast
qed

section \<open>The tokens of a printed expression\<close>

definition plain_word :: "js_string \<Rightarrow> bool" where
  "plain_word n \<longleftrightarrow> word_text n \<and> n \<notin> fst ` set keyword_table"

definition ident_content :: "js_string \<Rightarrow> content" where
  "ident_content n = (T_IDENT, V_text n, n)"

definition binop_content :: "string \<Rightarrow> content" where
  "binop_content op =
     (if op = ''and'' then (T_AND, V_text (units ''and''), units ''and'')
      else if op = ''or'' then (T_OR, V_text (units ''or''), units ''or'')
      else sym (the (map_of operator_tokens op)))"

definition unop_content :: "string \<Rightarrow> content" where
  "unop_content op =
     (if op = ''not'' then (T_NOT, V_text (units ''not''), units ''not'')
      else if op = ''#'' then sym T_HASH else sym T_MINUS)"

definition wrap_toks :: "nat \<Rightarrow> nat \<Rightarrow> content list \<Rightarrow> content list" where
  "wrap_toks cur pp cs = (if cur < pp then sym T_LPAREN # cs @ [sym T_RPAREN] else cs)"

fun commas :: "content list list \<Rightarrow> content list" where
  "commas [] = []"
| "commas [x] = x"
| "commas (x # y # ys) = x @ sym T_COMMA # commas (y # ys)"

definition left_prec :: "string \<Rightarrow> nat \<Rightarrow> nat" where
  "left_prec op cur = (if right_assoc op then cur + 1 else cur)"

definition right_prec :: "string \<Rightarrow> nat \<Rightarrow> nat" where
  "right_prec op cur = (if right_assoc op then cur else cur + 1)"

fun toks :: "expr \<Rightarrow> nat \<Rightarrow> content list" where
  "toks (Identifier n) pp = [ident_content n]"
| "toks (NumericLiteral v raw) pp = [(T_NUMBER, V_num v, raw)]"
| "toks (StringLiteral b raw) pp = [(T_STRING, V_bytes b, raw)]"
| "toks (BooleanLiteral b) pp =
     [if b then (T_TRUE, V_bool True, units ''true'') else (T_FALSE, V_bool False, units ''false'')]"
| "toks NilLiteral pp = [(T_NIL, V_null, units ''nil'')]"
| "toks (VarargLiteral b) pp =
     (if b then [sym T_LPAREN, sym T_DOT_DOT_DOT, sym T_RPAREN] else [sym T_DOT_DOT_DOT])"
| "toks (UnaryExpression op a) pp = wrap_toks 70 pp (unop_content op # toks a 70)"
| "toks (BinaryExpression op l r) pp =
     (let cur = getPrecedence (BinaryExpression op l r)
      in wrap_toks cur pp (toks l (left_prec op cur) @ binop_content op # toks r (right_prec op cur)))"
| "toks (LogicalExpression op l r) pp =
     (let cur = getPrecedence (LogicalExpression op l r)
      in wrap_toks cur pp (toks l (left_prec op cur) @ binop_content op # toks r (right_prec op cur)))"
| "toks (CallExpression b args) pp =
     toks b 990 @ sym T_LPAREN # commas (map (\<lambda>a. toks a 0) args) @ [sym T_RPAREN]"
| "toks (MethodCallExpression b m args) pp =
     toks b 990 @ sym T_COLON # ident_content (name_text m) # sym T_LPAREN #
       commas (map (\<lambda>a. toks a 0) args) @ [sym T_RPAREN]"
| "toks (MemberExpression b p) pp = toks b 990 @ [sym T_DOT, ident_content (name_text p)]"
| "toks (IndexExpression b i) pp = toks b 990 @ sym T_LBRACKET # toks i 0 @ [sym T_RBRACKET]"
| "toks e pp = []"

text \<open>
  The expressions considered: names that are no keywords, decimal integers, strings whose
  printed form is faithful, constants, operators, calls, members and indices. A base must not
  be a bare literal, and a minus must not be applied to a minus: the printer drops the
  parentheses there.
\<close>

fun base_ok :: "expr \<Rightarrow> bool" where
  "base_ok (NumericLiteral v raw) = False"
| "base_ok (StringLiteral b raw) = False"
| "base_ok (BooleanLiteral b) = False"
| "base_ok NilLiteral = False"
| "base_ok (VarargLiteral b) = b"
| "base_ok e = True"

fun is_minus :: "expr \<Rightarrow> bool" where
  "is_minus (UnaryExpression op a) = (op = ''-'')" | "is_minus e = False"

fun plain_identifier :: "expr \<Rightarrow> bool" where
  "plain_identifier (Identifier n) = plain_word n" | "plain_identifier e = False"

fun printable :: "expr \<Rightarrow> bool" where
  "printable (Identifier n) = plain_word n"
| "printable (NumericLiteral v raw) = (numeral_text raw \<and> v = js_Number raw)"
| "printable (StringLiteral b raw) = (zero_safe b \<and> raw = toLuaLiteral 34 b)"
| "printable (BooleanLiteral b) = True"
| "printable NilLiteral = True"
| "printable (VarargLiteral b) = True"
| "printable (UnaryExpression op a) =
     (op \<in> {''not'', ''#'', ''-''} \<and> printable a \<and> \<not> (op = ''-'' \<and> is_minus a))"
| "printable (BinaryExpression op l r) =
     (op \<in> set (map fst operator_tokens) \<and> printable l \<and> printable r)"
| "printable (LogicalExpression op l r) = (op \<in> {''and'', ''or''} \<and> printable l \<and> printable r)"
| "printable (CallExpression b args) =
     (base_ok b \<and> printable b \<and> (\<forall>a \<in> set args. printable a))"
| "printable (MethodCallExpression b m args) =
     (base_ok b \<and> printable b \<and> plain_identifier m \<and> (\<forall>a \<in> set args. printable a))"
| "printable (MemberExpression b p) = (base_ok b \<and> printable b \<and> plain_identifier p)"
| "printable (IndexExpression b i) = (base_ok b \<and> printable b \<and> printable i)"
| "printable e = False"

lemma printable_not_function: "printable e \<Longrightarrow> wrap_base e t = t"
  by (cases e) (auto simp: wrap_base_def)

lemma plain_identifier_name: "plain_identifier m \<Longrightarrow> \<exists>n. m = Identifier n \<and> name_text m = n \<and> plain_word n"
  by (cases m) (auto simp: name_text_def)

lemma exprs_text_map: "exprs_text ind lvl es = map (\<lambda>e. exprToString ind lvl e 0) es"
  by (induction es) simp_all

section \<open>How printed expressions begin\<close>

lemma escape_head: "\<exists>r. toLuaLiteral 34 b = 34 # r"
  by (simp add: toLuaLiteral_def)

lemma word_head: "word_text n \<Longrightarrow> \<exists>c r. n = c # r \<and> c \<notin> {45, 61, 91}"
  by (cases n) (auto simp: word_text_def ident_start_def)

lemma numeral_head: "numeral_text n \<Longrightarrow> \<exists>c r. n = c # r \<and> c \<notin> {45, 61, 91}"
  by (cases n) (auto simp: numeral_text_def dec_digit_def)

definition starts_well :: "expr \<Rightarrow> nat \<Rightarrow> js_string \<Rightarrow> bool" where
  "starts_well e pp t \<longleftrightarrow> (\<exists>c r. t = c # r \<and> c \<notin> {61, 91} \<and>
     (c = 45 \<longrightarrow> pp \<le> 70 \<and> (pp = 70 \<longrightarrow> is_minus e)))"

lemma starts_well_parens: "starts_well e pp (parens t)"
  by (auto simp: starts_well_def parens_def)

lemma starts_well_append: "starts_well e pp t \<Longrightarrow> starts_well e pp (t @ u)"
  by (auto simp: starts_well_def)

lemma starts_well_base: "starts_well b 990 t \<Longrightarrow> starts_well e pp t"
  by (auto simp: starts_well_def)

lemma starts_well_on_base: "starts_well b 990 t \<Longrightarrow> starts_well e pp (wrap 990 pp (t @ u))"
  by (auto simp: wrap_def starts_well_parens, auto simp: starts_well_def)

lemma starts_well_word: "plain_word n \<Longrightarrow> starts_well e pp n"
  using word_head[of n] by (auto simp: starts_well_def plain_word_def)

lemma starts_well_numeral: "numeral_text n \<Longrightarrow> starts_well e pp n"
  using numeral_head[of n] by (auto simp: starts_well_def)

lemma getPrecedence_binary:
  "op \<in> set (map fst operator_tokens) \<Longrightarrow>
    getPrecedence (BinaryExpression op l r) \<in> {30, 40, 50, 60, 80} \<and>
    (getPrecedence (BinaryExpression op l r) = 80 \<longleftrightarrow> op = ''^'')"
  by (auto simp: operator_tokens_def getPrecedence_def)

lemma printed_start: "printable e \<Longrightarrow> starts_well e pp (exprToString ind lvl e pp)"
proof (induction e arbitrary: pp rule: printable.induct)
  case (8 op l r)
  let ?cur = "getPrecedence (BinaryExpression op l r)"
  have cur: "?cur \<in> {30, 40, 50, 60, 80}" "?cur = 80 \<longleftrightarrow> op = ''^''"
    using getPrecedence_binary[of op l r] 8(3) by auto
  show ?case
  proof (cases "?cur < pp")
    case True
    then show ?thesis by (simp add: wrap_def starts_well_parens Let_def)
  next
    case False
    have "starts_well l (if right_assoc op then ?cur + 1 else ?cur)
        (exprToString ind lvl l (if right_assoc op then ?cur + 1 else ?cur))"
      using 8 by simp
    then have "starts_well (BinaryExpression op l r) pp
        (exprToString ind lvl l (if right_assoc op then ?cur + 1 else ?cur))"
      using False cur by (auto simp: starts_well_def right_assoc_def)
    then show ?thesis using False by (simp add: wrap_def Let_def starts_well_append)
  qed
next
  case (9 op l r)
  let ?cur = "getPrecedence (LogicalExpression op l r)"
  show ?case
  proof (cases "?cur < pp")
    case True
    then show ?thesis by (simp add: wrap_def starts_well_parens Let_def)
  next
    case False
    have "\<not> right_assoc op" using 9(3) by (auto simp: right_assoc_def)
    then have "starts_well l ?cur (exprToString ind lvl l ?cur)" using 9 by simp
    then have "starts_well (LogicalExpression op l r) pp (exprToString ind lvl l ?cur)"
      using False by (auto simp: starts_well_def getPrecedence_def split: if_splits)
    then show ?thesis using False \<open>\<not> right_assoc op\<close> by (simp add: wrap_def Let_def starts_well_append)
  qed
next
  case (7 op a)
  then show ?case
    by (cases "70 < pp") (auto simp: wrap_def starts_well_parens, auto simp: starts_well_def)
next
  case (10 b args)
  then have "starts_well b 990 (exprToString ind lvl b 990)" by simp
  with 10 show ?case
    by (simp add: printable_not_function starts_well_on_base[of b])
next
  case (11 b m args)
  then have "starts_well b 990 (exprToString ind lvl b 990)" by simp
  with 11 show ?case
    by (simp add: printable_not_function starts_well_on_base[of b])
next
  case (12 b p)
  then have "starts_well b 990 (exprToString ind lvl b 990)" by simp
  with 12 show ?case
    by (simp add: printable_not_function starts_well_on_base[of b])
next
  case (13 b i)
  then have "starts_well b 990 (exprToString ind lvl b 990)" by simp
  with 13 show ?case
    by (simp add: printable_not_function starts_well_on_base[of b])
next
  case (2 v raw)
  then show ?case
    by (simp add: wrap_def starts_well_parens starts_well_numeral) (simp add: numeral_text_def)
qed (auto simp: wrap_def starts_well_parens starts_well_word, auto simp: starts_well_def toLuaLiteral_def)

section \<open>Scanning a printed expression\<close>

lemma keyword_words:
  "word_text (units ''and'') \<and> identifier_token (units ''and'') = (T_AND, V_text (units ''and''))"
  "word_text (units ''or'') \<and> identifier_token (units ''or'') = (T_OR, V_text (units ''or''))"
  "word_text (units ''not'') \<and> identifier_token (units ''not'') = (T_NOT, V_text (units ''not''))"
  "word_text (units ''true'') \<and> identifier_token (units ''true'') = (T_TRUE, V_bool True)"
  "word_text (units ''false'') \<and> identifier_token (units ''false'') = (T_FALSE, V_bool False)"
  "word_text (units ''nil'') \<and> identifier_token (units ''nil'') = (T_NIL, V_null)"
  by code_simp+

lemma lexes_keyword: "word_text w \<and> identifier_token w = (ty, v) \<Longrightarrow> lexes no_ident w [(ty, v, w)]"
  by (blast intro: lexes_word)

lemmas lexes_keywords = keyword_words[THEN lexes_keyword]

lemma lexes_plain_word: "plain_word n \<Longrightarrow> lexes no_ident n [ident_content n]"
  unfolding ident_content_def plain_word_def by (blast intro: lexes_word plain_name)

lemma symbols_before:
  "symbol_before 40 [] T_LPAREN r" "symbol_before 41 [] T_RPAREN r" "symbol_before 93 [] T_RBRACKET r"
  "symbol_before 58 [] T_COLON r" "symbol_before 35 [] T_HASH r" "symbol_before 44 [] T_COMMA r"
  "symbol_before 46 [46, 46] T_DOT_DOT_DOT r"
  "unit_at 0 r \<notin> {45, 61} \<Longrightarrow> symbol_before 45 [] T_MINUS r"
  "unit_at 0 r \<notin> {91, 61} \<Longrightarrow> symbol_before 91 [] T_LBRACKET r"
  "unit_at 0 r \<notin> {46, 61} \<and> \<not> is_digit (unit_at 0 r) \<Longrightarrow> symbol_before 46 [] T_DOT r"
  by (auto simp: symbol_before_def punctuation_def single_tokens_def white_def ident_start_def)

abbreviation anything :: "js_string \<Rightarrow> bool" where
  "anything \<equiv> \<lambda>r. True"

lemma lexes_symbols:
  "lexes anything [40] [sym T_LPAREN]" "lexes anything [41] [sym T_RPAREN]"
  "lexes anything [93] [sym T_RBRACKET]" "lexes anything [58] [sym T_COLON]"
  "lexes anything [35] [sym T_HASH]" "lexes anything [44] [sym T_COMMA]"
  "lexes anything [46, 46, 46] [sym T_DOT_DOT_DOT]"
  "lexes (\<lambda>r. unit_at 0 r \<notin> {45, 61}) [45] [sym T_MINUS]"
  "lexes (\<lambda>r. unit_at 0 r \<notin> {91, 61}) [91] [sym T_LBRACKET]"
  "lexes (\<lambda>r. unit_at 0 r \<notin> {46, 61} \<and> \<not> is_digit (unit_at 0 r)) [46] [sym T_DOT]"
  by (rule lexes_symbol, simp add: symbols_before)+

lemma lexes_any: "lexes anything a c \<Longrightarrow> lexes ok a c"
  by (rule lexes_weaken) auto

lemma lexes_parens:
  assumes "lexes ends t cs"
  shows "lexes ok (parens t) (sym T_LPAREN # cs @ [sym T_RPAREN])"
proof -
  have "lexes anything ([40] @ t @ [41]) ([sym T_LPAREN] @ cs @ [sym T_RPAREN])"
    by (intro lexes_append[OF lexes_symbols(1)] lexes_append[OF assms] lexes_symbols(2))
      (simp_all add: ends_def)
  then show ?thesis by (auto simp: parens_def intro: lexes_any)
qed

lemma lexes_wrap:
  assumes "lexes ends t cs"
  shows "lexes ends (wrap cur pp t) (wrap_toks cur pp cs)"
  using assms lexes_parens[OF assms] by (simp add: wrap_def wrap_toks_def)

lemma lexes_args:
  assumes "\<And>t c. (t, c) \<in> set ps \<Longrightarrow> lexes ends t c"
  shows "lexes ends (js_join [44, 32] (map fst ps)) (commas (map snd ps))"
  using assms
proof (induction ps rule: induct_list012)
  case 1
  then show ?case by (auto simp: lexes_def)
next
  case (3 p q ps)
  have IH: "lexes ends (js_join [44, 32] (map fst (q # ps))) (commas (map snd (q # ps)))"
    using 3 by simp
  let ?J = "js_join [44, 32] (map fst (q # ps))" and ?C = "commas (map snd (q # ps))"
  have "lexes ends ([32] @ ?J) ([] @ ?C)" by (rule lexes_append[OF lexes_space IH]) simp
  then have J: "lexes ends ([44] @ [32] @ ?J) ([sym T_COMMA] @ [] @ ?C)"
    by (rule lexes_append[OF lexes_symbols(6)]) simp
  have "lexes ends (fst p) (snd p)" using 3(3) by simp
  from lexes_append[OF this J] have
    "lexes ends (fst p @ [44] @ [32] @ ?J) (snd p @ [sym T_COMMA] @ [] @ ?C)"
    by (simp add: ends_def)
  then show ?case by simp
qed simp

lemma lexes_arg_list:
  assumes "\<And>a. a \<in> set args \<Longrightarrow> lexes ends (exprToString ind lvl a 0) (toks a 0)"
  shows "lexes ok (parens (js_join (units '', '') (exprs_text ind lvl args)))
    (sym T_LPAREN # commas (map (\<lambda>a. toks a 0) args) @ [sym T_RPAREN])"
  using lexes_parens[OF lexes_args[of "map (\<lambda>a. (exprToString ind lvl a 0, toks a 0)) args"]] assms
  by (auto simp: exprs_text_map comp_def)

lemma operator_tokens_table:
  "distinct (map fst operator_tokens) \<and> (\<forall>(op, t) \<in> set operator_tokens. op \<noteq> [])"
  by code_simp

lemma lexes_operator:
  assumes "op \<in> set (map fst operator_tokens) \<or> op \<in> {''and'', ''or''}"
  shows "lexes before_space (units op) [binop_content op]"
proof (cases "op \<in> {''and'', ''or''}")
  case True
  have space: "before_space r \<Longrightarrow> no_ident r" for r
    by (auto simp: before_space_def no_ident_def ident_unit_def)
  from True lexes_weaken[OF lexes_keywords(1) space] lexes_weaken[OF lexes_keywords(2) space]
  show ?thesis by (auto simp: binop_content_def simp del: units_simps)
next
  case False
  then obtain t where t: "(op, t) \<in> set operator_tokens" using assms by auto
  then have mo: "map_of operator_tokens op = Some t" and ne: "op \<noteq> []"
    using operator_tokens_table by (auto intro: map_of_is_SomeI)
  have "lexes before_space (hd (units op) # tl (units op)) [sym t]"
    using operator_symbol_before[OF t] by (intro lexes_symbol) (auto simp: before_space_def)
  moreover have "hd (units op) # tl (units op) = units op" using ne by (cases op) simp_all
  ultimately show ?thesis using mo False by (simp add: binop_content_def)
qed

lemma lexes_infix:
  assumes "lexes ends a ca" and "lexes ends b cb"
    and "op \<in> set (map fst operator_tokens) \<or> op \<in> {''and'', ''or''}"
  shows "lexes ends (a @ [32] @ units op @ [32] @ b) (ca @ binop_content op # cb)"
proof -
  have "lexes ends ([32] @ b) ([] @ cb)" by (rule lexes_append[OF lexes_space assms(2)]) simp
  then have "lexes ends (units op @ [32] @ b) ([binop_content op] @ [] @ cb)"
    by (rule lexes_append[OF lexes_operator[OF assms(3)]]) (simp add: before_space_def)
  then have "lexes ends ([32] @ units op @ [32] @ b) ([] @ [binop_content op] @ [] @ cb)"
    by (rule lexes_append[OF lexes_space]) simp
  then have "lexes ends (a @ [32] @ units op @ [32] @ b) (ca @ [] @ [binop_content op] @ [] @ cb)"
    by (rule lexes_append[OF assms(1)]) (simp add: ends_def)
  then show ?thesis by simp
qed

text \<open>A unary operator before its operand, a suffix after its base.\<close>

lemma lexes_unary:
  assumes "printable a" and "op \<in> {''not'', ''#'', ''-''}" and "\<not> (op = ''-'' \<and> is_minus a)"
    and a: "lexes ends (exprToString ind lvl a 70) (toks a 70)"
  shows "lexes ends (units op @ (if op = ''not'' then [32] else []) @ exprToString ind lvl a 70)
    (unop_content op # toks a 70)"
proof -
  from printed_start[OF assms(1), of 70 ind lvl] obtain c r where
    t: "exprToString ind lvl a 70 = c # r" "c \<notin> {61, 91}" "c = 45 \<longrightarrow> is_minus a"
    by (auto simp: starts_well_def)
  from assms(2) consider "op = ''not''" | "op = ''#''" | "op = ''-''" by auto
  then show ?thesis
  proof cases
    case 1
    have "lexes ends ([32] @ exprToString ind lvl a 70) ([] @ toks a 70)"
      by (rule lexes_append[OF lexes_space a]) simp
    from lexes_append[OF lexes_keywords(3) this] 1 show ?thesis
      by (simp add: no_ident_def ident_unit_def unop_content_def)
  next
    case 2
    from lexes_append[OF lexes_symbols(5) a] 2 show ?thesis by (simp add: unop_content_def)
  next
    case 3
    with assms(3) t have "c \<noteq> 45" by simp
    with lexes_append[OF lexes_symbols(8) a] 3 t show ?thesis by (simp add: unop_content_def)
  qed
qed

lemma lexes_member:
  assumes "lexes no_ident t cs" and "plain_word n"
  shows "lexes no_ident (t @ [46] @ n) (cs @ [sym T_DOT, ident_content n])"
proof -
  obtain c r where n: "n = c # r" "ident_start c"
    using assms(2) by (cases n) (auto simp: plain_word_def word_text_def)
  have "lexes no_ident ([46] @ n) ([sym T_DOT] @ [ident_content n])"
    by (rule lexes_append[OF lexes_symbols(10) lexes_plain_word[OF assms(2)]])
      (use n in \<open>auto simp: ident_start_def\<close>)
  from lexes_append[OF assms(1) this] show ?thesis by (simp add: no_ident_def ident_unit_def)
qed

lemma lexes_index:
  assumes "lexes no_ident t cs" and "lexes ends u ds" and "\<exists>c r. u = c # r \<and> c \<notin> {61, 91}"
  shows "lexes ok (t @ [91] @ u @ [93]) (cs @ sym T_LBRACKET # ds @ [sym T_RBRACKET])"
proof -
  have "lexes anything (u @ [93]) (ds @ [sym T_RBRACKET])"
    by (rule lexes_append[OF assms(2) lexes_symbols(3)]) (simp add: ends_def)
  then have "lexes anything ([91] @ u @ [93]) ([sym T_LBRACKET] @ ds @ [sym T_RBRACKET])"
    by (rule lexes_append[OF lexes_symbols(9)]) (use assms(3) in auto)
  from lexes_append[OF assms(1) this] show ?thesis
    by (auto simp: no_ident_def ident_unit_def intro: lexes_any)
qed

lemma lexes_call:
  assumes "lexes no_ident t cs" and "lexes anything (parens u) ds"
  shows "lexes ok (t @ parens u) (cs @ ds)"
  using lexes_append[OF assms]
  by (auto simp: no_ident_def ident_unit_def parens_def intro: lexes_any)

lemma lexes_method:
  assumes "lexes no_ident t cs" and "plain_word n" and "lexes anything (parens u) ds"
  shows "lexes ok (t @ [58] @ n @ parens u) (cs @ sym T_COLON # ident_content n # ds)"
proof -
  have "lexes anything (n @ parens u) ([ident_content n] @ ds)"
    by (rule lexes_append[OF lexes_plain_word[OF assms(2)] assms(3)])
      (simp add: no_ident_def ident_unit_def parens_def)
  then have "lexes anything ([58] @ n @ parens u) ([sym T_COLON] @ [ident_content n] @ ds)"
    by (rule lexes_append[OF lexes_symbols(4)]) simp
  from lexes_append[OF assms(1) this] show ?thesis
    by (auto simp: no_ident_def ident_unit_def intro: lexes_any)
qed

lemma ends_lexes: "lexes no_ident t cs \<Longrightarrow> lexes ends t cs"
  by (erule lexes_weaken) (rule ends_no_ident)

text \<open>An operator expression as a base stands in parentheses.\<close>

lemma wrap_990 [simp]: "wrap 990 pp t = (if 990 < pp then parens t else t)"
  by (simp add: wrap_def)

lemma lexes_wrapped_base:
  assumes "lexes ends t cs" and "cur < 990"
  shows "lexes no_ident (wrap cur 990 t) (wrap_toks cur 990 cs)"
  using lexes_parens[OF assms(1)] assms(2) by (simp add: wrap_def wrap_toks_def)

lemma getPrecedence_less: "getPrecedence (BinaryExpression op l r) < 990"
  "getPrecedence (LogicalExpression op l r) < 990"
  by (simp_all add: getPrecedence_def)

lemma printed_expression_lexes:
  "printable e \<Longrightarrow> pp \<le> 990 \<Longrightarrow>
    lexes ends (exprToString ind lvl e pp) (toks e pp) \<and>
    (base_ok e \<longrightarrow> lexes no_ident (exprToString ind lvl e 990) (toks e 990))"
proof (induction e arbitrary: pp rule: printable.induct)
  case (1 n)
  then show ?case using lexes_plain_word[of n] by (simp add: ends_lexes)
next
  case (2 v raw)
  then show ?case using lexes_number[of raw] by (auto simp: numeral_text_def)
next
  case (3 b raw)
  then show ?case using lexes_string[of b] by (auto intro: lexes_any)
next
  case (4 b)
  then show ?case using lexes_keywords(4,5) by (auto intro: ends_lexes simp del: units_simps)
next
  case 5
  then show ?case using lexes_keywords(6) by (auto intro: ends_lexes simp del: units_simps)
next
  case (6 b)
  have dots: "lexes ok [46, 46, 46] [sym T_DOT_DOT_DOT]" for ok by (rule lexes_any[OF lexes_symbols(7)])
  show ?case using 6 dots[of ends] lexes_parens[OF dots, of ends] lexes_parens[OF dots, of no_ident]
    by (simp add: parens_def)
next
  case (7 op a)
  then have "lexes ends (exprToString ind lvl a 70) (toks a 70)" by simp
  with 7 lexes_unary[of a op ind lvl] have
    u: "lexes ends (units op @ (if op = ''not'' then [32] else []) @ exprToString ind lvl a 70)
      (unop_content op # toks a 70)" by simp
  show ?case using lexes_wrap[OF u, of 70 pp] lexes_wrapped_base[OF u, of 70] by simp
next
  case (8 op l r)
  let ?cur = "getPrecedence (BinaryExpression op l r)"
  have "left_prec op ?cur \<le> 990" "right_prec op ?cur \<le> 990"
    using getPrecedence_less(1)[of op l r] by (auto simp: left_prec_def right_prec_def)
  with 8 have u: "lexes ends (exprToString ind lvl l (left_prec op ?cur) @ [32] @ units op @ [32] @
      exprToString ind lvl r (right_prec op ?cur))
      (toks l (left_prec op ?cur) @ binop_content op # toks r (right_prec op ?cur))"
    by (intro lexes_infix) simp_all
  show ?case
    using lexes_wrap[OF u, of ?cur pp] lexes_wrapped_base[OF u getPrecedence_less(1)[of op l r]]
    by (simp add: left_prec_def right_prec_def Let_def)
next
  case (9 op l r)
  let ?cur = "getPrecedence (LogicalExpression op l r)"
  have "left_prec op ?cur \<le> 990" "right_prec op ?cur \<le> 990"
    using getPrecedence_less(2)[of op l r] by (auto simp: left_prec_def right_prec_def)
  with 9 have u: "lexes ends (exprToString ind lvl l (left_prec op ?cur) @ [32] @ units op @ [32] @
      exprToString ind lvl r (right_prec op ?cur))
      (toks l (left_prec op ?cur) @ binop_content op # toks r (right_prec op ?cur))"
    by (intro lexes_infix) simp_all
  show ?case
    using lexes_wrap[OF u, of ?cur pp] lexes_wrapped_base[OF u getPrecedence_less(2)[of op l r]]
    by (simp add: left_prec_def right_prec_def Let_def)
next
  case (10 b args)
  then have "lexes no_ident (exprToString ind lvl b 990) (toks b 990)" by simp
  moreover have "lexes anything (parens (js_join (units '', '') (exprs_text ind lvl args)))
      (sym T_LPAREN # commas (map (\<lambda>a. toks a 0) args) @ [sym T_RPAREN])"
    using 10 by (intro lexes_arg_list) simp
  ultimately show ?case using 10 by (simp add: printable_not_function lexes_call del: units_simps)
next
  case (11 b m args)
  then obtain n where "m = Identifier n" "name_text m = n" "plain_word n"
    using plain_identifier_name by force
  moreover from 11 have "lexes no_ident (exprToString ind lvl b 990) (toks b 990)" by simp
  moreover have "lexes anything (parens (js_join (units '', '') (exprs_text ind lvl args)))
      (sym T_LPAREN # commas (map (\<lambda>a. toks a 0) args) @ [sym T_RPAREN])"
    using 11 by (intro lexes_arg_list) simp
  ultimately show ?case using 11 lexes_method[of "exprToString ind lvl b 990" "toks b 990" n]
    by (simp add: printable_not_function del: units_simps)
next
  case (12 b p)
  then obtain n where "p = Identifier n" "name_text p = n" "plain_word n"
    using plain_identifier_name by force
  moreover from 12 have "lexes no_ident (exprToString ind lvl b 990) (toks b 990)" by simp
  ultimately show ?case using 12 lexes_member[of "exprToString ind lvl b 990" "toks b 990" n]
    by (simp add: printable_not_function ends_lexes)
next
  case (13 b i)
  then have "lexes no_ident (exprToString ind lvl b 990) (toks b 990)"
    "lexes ends (exprToString ind lvl i 0) (toks i 0)" by simp_all
  moreover have "\<exists>c r. exprToString ind lvl i 0 = c # r \<and> c \<notin> {61, 91}"
    using printed_start[of i 0 ind lvl] 13 by (auto simp: starts_well_def)
  ultimately show ?case using 13 lexes_index[of "exprToString ind lvl b 990" "toks b 990"]
    by (simp add: printable_not_function)
qed simp_all

lemma printed_expression_tokens:
  assumes "printable e"
  shows "\<exists>ts t. tokenize (exprToString ind lvl e 0) = Inr (ts @ [t]) \<and>
    map content ts = toks e 0 \<and> ttype t = T_EOF"
proof -
  let ?s = "new_lexer (exprToString ind lvl e 0)"
  have "lexes ends (exprToString ind lvl e 0) (toks e 0)"
    using printed_expression_lexes[OF assms, of 0] by simp
  then obtain s' where "rest s' = []" "lex_loop ?s = lex_loop s'"
    "map content (tokens s') = map content (tokens ?s) @ toks e 0"
    unfolding lexes_def by (metis append.right_neutral ends_def lexer.select_convs(1) new_lexer_def)
  then show ?thesis
    by (intro exI[of _ "tokens s'"]) (simp add: tokenize_def lex_loop.simps[of s'] new_lexer_def)
qed

end
