(* ===== verification/Parser.thy ===== *)
theory Parser
  imports AST Lexer
begin

text \<open>
  The recursive-descent parser (\<open>packages/core/src/parser/parser.js\<close>). The state is the tokens
  from the current position on (\<open>tokens.slice(pos)\<close>; the last token is never passed). A parser
  yields \<open>None\<close> when its fuel ran out, an error, or a result with the tokens left.

  Each method is a definition over the record \<open>this\<close> of the methods it calls recursively and
  of the loops; \<open>parsers_upto n\<close> ties the knot for a depth of \<open>n\<close> such calls.
\<close>

type_synonym 'a parser = "token list \<Rightarrow> (parse_error, 'a \<times> token list) outcome option"

definition p_return :: "'a \<Rightarrow> 'a parser" where
  "p_return a ts = Some (return (a, ts))"

definition p_throw :: "parse_error \<Rightarrow> 'a parser" where
  "p_throw e ts = Some (throw e)"

definition p_bind :: "'a parser \<Rightarrow> ('a \<Rightarrow> 'b parser) \<Rightarrow> 'b parser" where
  "p_bind p k ts =
     (case p ts of
        None \<Rightarrow> None
      | Some (Inl e) \<Rightarrow> Some (Inl e)
      | Some (Inr (a, ts')) \<Rightarrow> k a ts')"

definition p_then :: "'a parser \<Rightarrow> 'b parser \<Rightarrow> 'b parser" where
  "p_then p q = p_bind p (\<lambda>_. q)"

section \<open>Token access\<close>

definition peek_tok :: "nat \<Rightarrow> token list \<Rightarrow> token" where
  "peek_tok k ts = (if k < length ts then ts ! k else last ts)"

definition is_tok :: "token_type \<Rightarrow> token list \<Rightarrow> bool" where
  "is_tok ty ts \<longleftrightarrow> ttype (peek_tok 0 ts) = ty"

definition adv :: "token list \<Rightarrow> token list" where
  "adv ts = (if length ts > 1 then tl ts else ts)"

definition p_advance :: "token parser" where
  "p_advance ts = Some (return (peek_tok 0 ts, adv ts))"

definition error_at :: "parse_message \<Rightarrow> token \<Rightarrow> parse_error" where
  "error_at m t = ParseError m (tline t) (tcolumn t) (toffset t)"

definition p_fail :: "(token \<Rightarrow> parse_message) \<Rightarrow> 'a parser" where
  "p_fail m ts = p_throw (error_at (m (peek_tok 0 ts)) (peek_tok 0 ts)) ts"

definition p_consume :: "token_type \<Rightarrow> string \<Rightarrow> token parser" where
  "p_consume ty msg ts = (if is_tok ty ts then p_advance ts else p_fail (\<lambda>t. Message msg) ts)"

text \<open>\<open>if (this.match(ty)) p else q\<close>; \<open>match\<close> for its effect; \<open>if (this.is(ty)) p else q\<close>.\<close>

definition p_match :: "token_type \<Rightarrow> 'a parser \<Rightarrow> 'a parser \<Rightarrow> 'a parser" where
  "p_match ty p q ts = (if is_tok ty ts then p (adv ts) else q ts)"

definition p_skip :: "token_type \<Rightarrow> unit parser" where
  "p_skip ty = p_match ty (p_return ()) (p_return ())"

definition p_if :: "token_type set \<Rightarrow> 'a parser \<Rightarrow> 'a parser \<Rightarrow> 'a parser" where
  "p_if tys p q ts = (if ttype (peek_tok 0 ts) \<in> tys then p ts else q ts)"

text \<open>The value of a token, by the kind of token (the scanner gives each kind its values).\<close>

definition token_text :: "token \<Rightarrow> js_string" where
  "token_text t = (case tvalue t of V_text s \<Rightarrow> s | _ \<Rightarrow> [])"

definition token_op :: "token \<Rightarrow> string" where
  "token_op t = map char_of (token_text t)"

definition token_num :: "token \<Rightarrow> jsnum" where
  "token_num t = (case tvalue t of V_num v \<Rightarrow> v | _ \<Rightarrow> NaN)"

definition token_bytes :: "token \<Rightarrow> byte_string" where
  "token_bytes t = (case tvalue t of V_bytes b \<Rightarrow> b | _ \<Rightarrow> [])"

definition token_bool :: "token \<Rightarrow> bool" where
  "token_bool t = (tvalue t = V_bool True)"

definition p_ident :: "string \<Rightarrow> expr parser" where
  "p_ident msg = p_bind (p_consume T_IDENT msg) (\<lambda>t. p_return (Identifier (token_text t)))"

section \<open>The recursive methods and loops\<close>

record parsers =
  p_block :: "stmt list \<Rightarrow> stmt list parser"
  p_sub :: "nat \<Rightarrow> expr parser"
  p_ops :: "nat \<Rightarrow> expr \<Rightarrow> expr parser"
  p_suffixes :: "expr \<Rightarrow> expr parser"
  p_exprs :: "expr list \<Rightarrow> expr list parser"
  p_fields :: "table_field list \<Rightarrow> table_field list parser"
  p_params :: "expr list \<Rightarrow> (expr list \<times> bool) parser"
  p_names :: "string \<Rightarrow> expr list \<Rightarrow> expr list parser"
  p_path :: "expr \<Rightarrow> expr parser"
  p_targets :: "expr list \<Rightarrow> expr list parser"
  p_clauses :: "clause list \<Rightarrow> clause list parser"

definition parseBlock :: "parsers \<Rightarrow> stmt list parser" where
  "parseBlock this = p_block this []"

definition parseExpression :: "parsers \<Rightarrow> expr parser" where
  "parseExpression this = p_sub this 0"

section \<open>Expressions\<close>

definition getBinaryPrecedence :: "token_type \<Rightarrow> nat" where
  "getBinaryPrecedence ty =
     (case ty of
        T_OR \<Rightarrow> 1
      | T_AND \<Rightarrow> 2
      | T_LT \<Rightarrow> 3 | T_GT \<Rightarrow> 3 | T_LT_EQ \<Rightarrow> 3 | T_GT_EQ \<Rightarrow> 3 | T_TILDE_EQ \<Rightarrow> 3 | T_EQ_EQ \<Rightarrow> 3
      | T_DOT_DOT \<Rightarrow> 4
      | T_PLUS \<Rightarrow> 5 | T_MINUS \<Rightarrow> 5
      | T_STAR \<Rightarrow> 6 | T_SLASH \<Rightarrow> 6 | T_PERCENT \<Rightarrow> 6
      | T_CARET \<Rightarrow> 8
      | _ \<Rightarrow> 0)"

definition isRightAssociative :: "token_type \<Rightarrow> bool" where
  "isRightAssociative ty \<longleftrightarrow> ty = T_DOT_DOT \<or> ty = T_CARET"

text \<open>\<open>while (this.match(COMMA)) args.push(this.parseExpression())\<close>.\<close>

definition exprs_loop :: "parsers \<Rightarrow> expr list \<Rightarrow> expr list parser" where
  "exprs_loop this es =
     p_match T_COMMA (p_bind (parseExpression this) (\<lambda>e. p_exprs this (es @ [e]))) (p_return es)"

definition p_expr_list :: "parsers \<Rightarrow> expr list parser" where
  "p_expr_list this = p_bind (parseExpression this) (\<lambda>e. p_exprs this [e])"

definition fields_loop :: "parsers \<Rightarrow> table_field list \<Rightarrow> table_field list parser" where
  "fields_loop this fs =
     p_if {T_RBRACE, T_EOF} (p_return fs)
       (p_bind
          (p_match T_LBRACKET
             (p_bind (parseExpression this) (\<lambda>key.
                p_then (p_consume T_RBRACKET ''Expected ']' after table key'')
                (p_then (p_consume T_ASSIGN ''Expected '=' after table key'')
                (p_bind (parseExpression this) (\<lambda>val. p_return (TableKey key val))))))
             (\<lambda>ts.
                if is_tok T_IDENT ts \<and> ttype (peek_tok 1 ts) = T_ASSIGN then
                  p_bind p_advance (\<lambda>t.
                    p_then (p_consume T_ASSIGN ''Expected '=' after field name'')
                    (p_bind (parseExpression this) (\<lambda>val.
                       p_return (TableKeyString (Identifier (token_text t)) val)))) ts
                else p_bind (parseExpression this) (\<lambda>val. p_return (TableValue val)) ts))
          (\<lambda>f.
             p_match T_COMMA (p_fields this (fs @ [f]))
               (p_match T_SEMICOLON (p_fields this (fs @ [f])) (p_return (fs @ [f])))))"

definition parseTableConstructor :: "parsers \<Rightarrow> expr parser" where
  "parseTableConstructor this =
     p_then (p_consume T_LBRACE (''Expected '{'' @ [CHR 0x27]))
       (p_bind (p_fields this []) (\<lambda>fs.
          p_then (p_consume T_RBRACE ''Expected '}' to close table constructor'')
            (p_return (TableConstructor fs))))"

definition parseCallArgs :: "parsers \<Rightarrow> expr list parser" where
  "parseCallArgs this =
     p_match T_LPAREN
       (p_bind (p_if {T_RPAREN} (p_return []) (p_expr_list this)) (\<lambda>args.
          p_then (p_consume T_RPAREN ''Expected ')' to close function arguments'')
            (p_return args)))
       (p_if {T_STRING}
          (p_bind p_advance (\<lambda>t. p_return [stringLiteral (token_bytes t) (traw t)]))
          (p_if {T_LBRACE}
             (p_bind (parseTableConstructor this) (\<lambda>e. p_return [e]))
             (p_fail (\<lambda>t. UnexpectedToken ''Expected function arguments'' (ttype t)))))"

text \<open>The suffix loop of \<open>parsePrefixExp\<close>.\<close>

definition suffixes_loop :: "parsers \<Rightarrow> expr \<Rightarrow> expr parser" where
  "suffixes_loop this base =
     p_match T_LBRACKET
       (p_bind (parseExpression this) (\<lambda>index.
          p_then (p_consume T_RBRACKET ''Expected ']' after indexing expression'')
            (p_suffixes this (IndexExpression base index))))
     (p_match T_DOT
       (p_bind (p_ident ''Expected property name after .'') (\<lambda>prop.
          p_suffixes this (MemberExpression base prop)))
     (p_match T_COLON
       (p_bind (p_ident ''Expected method name after :'') (\<lambda>method.
          p_bind (parseCallArgs this) (\<lambda>args.
            p_suffixes this (MethodCallExpression base method args))))
     (p_if {T_LPAREN, T_STRING, T_LBRACE}
       (p_bind (parseCallArgs this) (\<lambda>args. p_suffixes this (CallExpression base args)))
       (p_return base))))"

text \<open>\<open>base.inParens = true\<close>.\<close>

fun in_parens :: "expr \<Rightarrow> expr" where
  "in_parens (VarargLiteral b) = VarargLiteral True"
| "in_parens e = e"

definition parsePrefixExp :: "parsers \<Rightarrow> expr parser" where
  "parsePrefixExp this =
     p_bind
       (p_match T_LPAREN
          (p_bind (parseExpression this) (\<lambda>base.
             p_then (p_consume T_RPAREN ''Expected ')' after parenthesized expression'')
               (p_return (in_parens base))))
          (p_if {T_IDENT}
             (p_bind p_advance (\<lambda>t. p_return (Identifier (token_text t))))
             (p_fail (\<lambda>t. UnexpectedToken ''Unexpected token in expression'' (ttype t)))))
       (p_suffixes this)"

text \<open>The parameter loop of \<open>parseFunctionBody\<close>.\<close>

definition params_loop :: "parsers \<Rightarrow> expr list \<Rightarrow> (expr list \<times> bool) parser" where
  "params_loop this params =
     p_match T_COMMA
       (p_match T_DOT_DOT_DOT (p_return (params, True))
          (p_bind (p_ident ''Expected parameter name after comma'') (\<lambda>p.
             p_params this (params @ [p]))))
       (p_return (params, False))"

definition parseFunctionBody :: "parsers \<Rightarrow> (expr list \<times> bool \<times> stmt list) parser" where
  "parseFunctionBody this =
     p_then (p_consume T_LPAREN ''Expected '(' for parameter list'')
       (p_bind
          (p_if {T_RPAREN} (p_return ([], False))
             (p_match T_DOT_DOT_DOT (p_return ([], True))
                (p_bind (p_ident ''Expected parameter name'') (\<lambda>p. p_params this [p]))))
          (\<lambda>(params, isVararg).
             p_then (p_consume T_RPAREN ''Expected ')' to close parameter list'')
               (p_bind (parseBlock this) (\<lambda>body.
                  p_then (p_consume T_END ''Expected 'end' to close function body'')
                    (p_return (params, isVararg, body))))))"

definition parseSimpleExpression :: "parsers \<Rightarrow> expr parser" where
  "parseSimpleExpression this =
     p_match T_NOT (p_bind (p_sub this 7) (\<lambda>e. p_return (UnaryExpression ''not'' e)))
     (p_match T_HASH (p_bind (p_sub this 7) (\<lambda>e. p_return (UnaryExpression ''#'' e)))
     (p_match T_MINUS (p_bind (p_sub this 7) (\<lambda>e. p_return (UnaryExpression ''-'' e)))
     (p_if {T_NUMBER} (p_bind p_advance (\<lambda>t. p_return (numericLiteral (token_num t) (traw t))))
     (p_if {T_STRING} (p_bind p_advance (\<lambda>t. p_return (stringLiteral (token_bytes t) (traw t))))
     (p_if {T_TRUE, T_FALSE} (p_bind p_advance (\<lambda>t. p_return (BooleanLiteral (token_bool t))))
     (p_if {T_NIL} (p_bind p_advance (\<lambda>t. p_return NilLiteral))
     (p_if {T_DOT_DOT_DOT} (p_bind p_advance (\<lambda>t. p_return (VarargLiteral False)))
     (p_if {T_LBRACE} (parseTableConstructor this)
     (p_match T_FUNCTION
        (p_bind (parseFunctionBody this) (\<lambda>(params, isVararg, body).
           p_return (FunctionExpression params isVararg body)))
        (parsePrefixExp this))))))))))"

text \<open>The operator loop of \<open>parseSubExpression\<close>, and the method.\<close>

definition ops_loop :: "parsers \<Rightarrow> nat \<Rightarrow> expr \<Rightarrow> expr parser" where
  "ops_loop this minPrec left ts =
     (let opToken = peek_tok 0 ts; prec = getBinaryPrecedence (ttype opToken)
      in if prec = 0 \<or> prec < minPrec then p_return left ts
         else
           let nextMinPrec = (if isRightAssociative (ttype opToken) then prec else prec + 1)
           in p_bind p_advance (\<lambda>_. p_bind (p_sub this nextMinPrec) (\<lambda>right.
                p_ops this minPrec
                  (if ttype opToken = T_AND \<or> ttype opToken = T_OR
                   then LogicalExpression (token_op opToken) left right
                   else BinaryExpression (token_op opToken) left right))) ts)"

definition parseSubExpression :: "parsers \<Rightarrow> nat \<Rightarrow> expr parser" where
  "parseSubExpression this minPrec =
     p_bind (parseSimpleExpression this) (\<lambda>left. p_ops this minPrec left)"

section \<open>Statements\<close>

text \<open>\<open>while (this.match(COMMA)) ids.push(identifier(this.consume(IDENT, msg)))\<close>.\<close>

definition names_loop :: "parsers \<Rightarrow> string \<Rightarrow> expr list \<Rightarrow> expr list parser" where
  "names_loop this msg ids =
     p_match T_COMMA (p_bind (p_ident msg) (\<lambda>i. p_names this msg (ids @ [i]))) (p_return ids)"

definition parseLocalFunction :: "parsers \<Rightarrow> stmt parser" where
  "parseLocalFunction this =
     p_bind (p_ident ''Expected function name after local function'') (\<lambda>i.
       p_bind (parseFunctionBody this) (\<lambda>(params, isVararg, body).
         p_return (LocalFunctionStatement i params isVararg body)))"

definition parseLocalVariables :: "parsers \<Rightarrow> stmt parser" where
  "parseLocalVariables this =
     p_bind (p_ident ''Expected variable name in local statement'') (\<lambda>v.
     p_bind (p_names this ''Expected variable name after comma in local statement'' [v]) (\<lambda>variables.
     p_bind (p_match T_ASSIGN (p_expr_list this) (p_return [])) (\<lambda>init.
     p_then (p_skip T_SEMICOLON) (p_return (LocalStatement variables init)))))"

text \<open>The dotted part of a function name.\<close>

definition path_loop :: "parsers \<Rightarrow> expr \<Rightarrow> expr parser" where
  "path_loop this name =
     p_match T_DOT
       (p_bind (p_ident ''Expected property name after .'') (\<lambda>prop.
          p_path this (MemberExpression name prop)))
       (p_return name)"

definition parseFunctionDeclaration :: "parsers \<Rightarrow> stmt parser" where
  "parseFunctionDeclaration this =
     p_bind (p_ident ''Expected function name'') (\<lambda>n0.
     p_bind (p_path this n0) (\<lambda>n1.
     p_bind
       (p_match T_COLON
          (p_bind (p_ident ''Expected method name after :'') (\<lambda>method.
             p_return (MemberExpression n1 method, True)))
          (p_return (n1, False)))
       (\<lambda>(name, isMethod).
     p_bind (parseFunctionBody this) (\<lambda>(params, isVararg, body).
     p_return (FunctionDeclaration name params isVararg body isMethod)))))"

definition clause_body :: "parsers \<Rightarrow> string \<Rightarrow> clause parser" where
  "clause_body this msg =
     p_bind (parseExpression this) (\<lambda>condition.
     p_then (p_consume T_THEN msg)
       (p_bind (parseBlock this) (\<lambda>body. p_return (Clause condition body))))"

definition clauses_loop :: "parsers \<Rightarrow> clause list \<Rightarrow> clause list parser" where
  "clauses_loop this clauses =
     p_match T_ELSEIF
       (p_bind (clause_body this ''Expected 'then' after elseif condition'') (\<lambda>c.
          p_clauses this (clauses @ [c])))
       (p_return clauses)"

definition parseIfStatement :: "parsers \<Rightarrow> stmt parser" where
  "parseIfStatement this =
     p_bind (clause_body this ''Expected 'then' after if condition'') (\<lambda>c.
     p_bind (p_clauses this [c]) (\<lambda>clauses.
     p_bind (p_match T_ELSE (p_bind (parseBlock this) (\<lambda>b. p_return (Some b))) (p_return None))
       (\<lambda>elseBody.
     p_then (p_consume T_END ''Expected 'end' to close if statement'')
       (p_return (IfStatement clauses elseBody)))))"

definition parseWhileStatement :: "parsers \<Rightarrow> stmt parser" where
  "parseWhileStatement this =
     p_bind (parseExpression this) (\<lambda>condition.
     p_then (p_consume T_DO ''Expected 'do' after while condition'')
       (p_bind (parseBlock this) (\<lambda>body.
     p_then (p_consume T_END ''Expected 'end' to close while loop'')
       (p_return (WhileStatement condition body)))))"

definition parseRepeatStatement :: "parsers \<Rightarrow> stmt parser" where
  "parseRepeatStatement this =
     p_bind (parseBlock this) (\<lambda>body.
     p_then (p_consume T_UNTIL ''Expected 'until' after repeat block'')
       (p_bind (parseExpression this) (\<lambda>condition.
     p_then (p_skip T_SEMICOLON) (p_return (RepeatStatement condition body)))))"

definition parseForStatement :: "parsers \<Rightarrow> stmt parser" where
  "parseForStatement this =
     p_bind (p_ident ''Expected variable name after for'') (\<lambda>firstId.
     p_match T_ASSIGN
       (p_bind (parseExpression this) (\<lambda>start.
        p_then (p_consume T_COMMA ''Expected ',' after for start expression'')
        (p_bind (parseExpression this) (\<lambda>endExpr.
        p_bind (p_match T_COMMA (p_bind (parseExpression this) (\<lambda>e. p_return (Some e)))
                 (p_return None)) (\<lambda>step.
        p_then (p_consume T_DO ''Expected 'do' in numeric for loop'')
        (p_bind (parseBlock this) (\<lambda>body.
        p_then (p_consume T_END ''Expected 'end' to close numeric for loop'')
          (p_return (NumericForStatement firstId start endExpr step body)))))))))
       (p_bind (p_names this ''Expected variable name after comma'' [firstId]) (\<lambda>variables.
        p_then (p_consume T_IN ''Expected '=' or 'in' in for loop'')
        (p_bind (p_expr_list this) (\<lambda>iterators.
        p_then (p_consume T_DO ''Expected 'do' in generic for loop'')
        (p_bind (parseBlock this) (\<lambda>body.
        p_then (p_consume T_END ''Expected 'end' to close generic for loop'')
          (p_return (GenericForStatement variables iterators body)))))))))"

text \<open>The targets of an assignment; the operator of a compound one.\<close>

definition targets_loop :: "parsers \<Rightarrow> expr list \<Rightarrow> expr list parser" where
  "targets_loop this vs =
     p_match T_COMMA (p_bind (parsePrefixExp this) (\<lambda>v. p_targets this (vs @ [v]))) (p_return vs)"

definition compound_init ::
  "token_type \<Rightarrow> expr list \<Rightarrow> expr list \<Rightarrow> expr list parser" where
  "compound_init op variables init =
     (if op = T_ASSIGN then p_return init
      else case op of
        T_INHERITED s \<Rightarrow> p_throw (TypeError ''assignOp.type.replace is not a function'')
      | _ \<Rightarrow> p_return (init[0 := BinaryExpression (remove1 CHR ''='' (type_text op))
                               (variables ! 0) (init ! 0)]))"

definition assign_types :: "token_type set" where
  "assign_types = {T_COMMA, T_ASSIGN, T_PLUS_EQ, T_MINUS_EQ, T_STAR_EQ, T_SLASH_EQ, T_CONCAT_EQ}"

text \<open>The node type that the message of a misplaced expression names.\<close>

definition node_type :: "expr \<Rightarrow> string" where
  "node_type e =
     (case e of
        Identifier n \<Rightarrow> ''Identifier'' | NumericLiteral v r \<Rightarrow> ''NumericLiteral''
      | StringLiteral v r \<Rightarrow> ''StringLiteral'' | BooleanLiteral b \<Rightarrow> ''BooleanLiteral''
      | NilLiteral \<Rightarrow> ''NilLiteral'' | VarargLiteral p \<Rightarrow> ''VarargLiteral''
      | UnaryExpression op a \<Rightarrow> ''UnaryExpression'' | BinaryExpression op l r \<Rightarrow> ''BinaryExpression''
      | LogicalExpression op l r \<Rightarrow> ''LogicalExpression'' | CallExpression b a \<Rightarrow> ''CallExpression''
      | MethodCallExpression b m a \<Rightarrow> ''MethodCallExpression''
      | MemberExpression b p \<Rightarrow> ''MemberExpression'' | IndexExpression b i \<Rightarrow> ''IndexExpression''
      | FunctionExpression p v b \<Rightarrow> ''FunctionExpression'' | TableConstructor f \<Rightarrow> ''TableConstructor'')"

definition parseCallOrAssignment :: "parsers \<Rightarrow> stmt parser" where
  "parseCallOrAssignment this =
     p_bind (parsePrefixExp this) (\<lambda>first.
     p_if assign_types
       (p_bind (p_targets this [first]) (\<lambda>variables.
        p_bind p_advance (\<lambda>assignOp.
        p_bind (p_expr_list this) (\<lambda>init.
        p_then (p_skip T_SEMICOLON)
        (p_bind (compound_init (ttype assignOp) variables init) (\<lambda>init'.
          p_return (AssignmentStatement variables init')))))))
       (if is_call first then p_then (p_skip T_SEMICOLON) (p_return (CallStatement first))
        else p_fail (\<lambda>t. NotCallable (node_type first))))"

definition block_ends :: "token_type set" where
  "block_ends = {T_EOF, T_END, T_ELSEIF, T_ELSE, T_UNTIL}"

definition parseStatement :: "parsers \<Rightarrow> stmt parser" where
  "parseStatement this =
     p_match T_SEMICOLON (p_return EmptyStatement)
     (p_match T_LOCAL (p_match T_FUNCTION (parseLocalFunction this) (parseLocalVariables this))
     (p_match T_FUNCTION (parseFunctionDeclaration this)
     (p_match T_IF (parseIfStatement this)
     (p_match T_WHILE (parseWhileStatement this)
     (p_match T_REPEAT (parseRepeatStatement this)
     (p_match T_DO
        (p_bind (parseBlock this) (\<lambda>body.
           p_then (p_consume T_END ''Expected 'end' to close 'do' block'')
             (p_return (DoStatement body))))
     (p_match T_FOR (parseForStatement this)
     (p_match T_BREAK (p_then (p_skip T_SEMICOLON) (p_return BreakStatement))
     (p_match T_CONTINUE (p_then (p_skip T_SEMICOLON) (p_return ContinueStatement))
     (p_match T_RETURN
        (p_bind (p_if (insert T_SEMICOLON block_ends) (p_return []) (p_expr_list this)) (\<lambda>args.
           p_then (p_skip T_SEMICOLON) (p_return (ReturnStatement args))))
        (parseCallOrAssignment this)))))))))))"

definition block_loop :: "parsers \<Rightarrow> stmt list \<Rightarrow> stmt list parser" where
  "block_loop this statements =
     p_if block_ends (p_return statements)
       (p_bind (parseStatement this) (\<lambda>stmt. p_block this (statements @ [stmt])))"

section \<open>The parser\<close>

definition no_fuel :: parsers where
  "no_fuel =
     \<lparr>p_block = (\<lambda>ss ts. None), p_sub = (\<lambda>n ts. None), p_ops = (\<lambda>n e ts. None),
      p_suffixes = (\<lambda>e ts. None), p_exprs = (\<lambda>es ts. None), p_fields = (\<lambda>fs ts. None),
      p_params = (\<lambda>ps ts. None), p_names = (\<lambda>m ns ts. None), p_path = (\<lambda>e ts. None),
      p_targets = (\<lambda>vs ts. None), p_clauses = (\<lambda>cs ts. None)\<rparr>"

definition methods :: "parsers \<Rightarrow> parsers" where
  "methods this =
     \<lparr>p_block = block_loop this, p_sub = parseSubExpression this, p_ops = ops_loop this,
      p_suffixes = suffixes_loop this, p_exprs = exprs_loop this, p_fields = fields_loop this,
      p_params = params_loop this, p_names = names_loop this, p_path = path_loop this,
      p_targets = targets_loop this, p_clauses = clauses_loop this\<rparr>"

primrec parsers_upto :: "nat \<Rightarrow> parsers" where
  "parsers_upto 0 = no_fuel"
| "parsers_upto (Suc n) = methods (parsers_upto n)"

definition parseChunk :: "nat \<Rightarrow> chunk parser" where
  "parseChunk fuel =
     p_bind (parseBlock (parsers_upto fuel)) (\<lambda>body.
     p_if {T_EOF} (p_return body)
       (p_fail (\<lambda>t. UnexpectedToken ''Unexpected token after chunk'' (ttype t))))"

text \<open>The parser on a list of tokens; twice the number of tokens is fuel enough.\<close>

definition enough_fuel :: "token list \<Rightarrow> nat" where
  "enough_fuel ts = 2 * length ts + 2"

definition parse_tokens :: "token list \<Rightarrow> (parse_error, chunk) outcome option" where
  "parse_tokens ts =
     map_option (map_sum id fst) (parseChunk (enough_fuel ts) ts)"

definition parse_source :: "js_string \<Rightarrow> (parse_error, chunk) outcome option" where
  "parse_source src =
     (case tokenize src of Inl e \<Rightarrow> Some (Inl e) | Inr ts \<Rightarrow> parse_tokens ts)"

end
