(* ===== verification/Parser_Props.thy ===== *)
theory Parser_Props
  imports Parser Lexer_Props
begin

text \<open>
  The parser ends on every token list that ends with EOF: a fuel of twice the number of tokens
  is never used up, every successful method leaves a proper suffix or as many tokens as it
  found, and more fuel gives the same result.
\<close>

declare length_greater_0_conv [simp del]

section \<open>Safe parsers\<close>

definition eof_ended :: "token list \<Rightarrow> bool" where
  "eof_ended ts \<longleftrightarrow> ts \<noteq> [] \<and> ttype (last ts) = T_EOF"

text \<open>\<open>safe p ts m\<close>: on \<open>ts\<close> the parser does not run out of fuel, and when it succeeds it leaves
  at most \<open>m\<close> tokens, the last of them EOF.\<close>

definition safe :: "'a parser \<Rightarrow> token list \<Rightarrow> nat \<Rightarrow> bool" where
  "safe p ts m \<longleftrightarrow>
     p ts \<noteq> None \<and> (\<forall>a ts'. p ts = Some (Inr (a, ts')) \<longrightarrow> eof_ended ts' \<and> length ts' \<le> m)"

named_theorems safe_rules "how safe parsers are composed"

lemma safe_weaken: "safe p ts m \<Longrightarrow> m \<le> m' \<Longrightarrow> safe p ts m'"
  by (auto simp: safe_def)

lemma safe_return: "eof_ended ts \<Longrightarrow> length ts \<le> m \<Longrightarrow> safe (p_return a) ts m"
  by (simp add: safe_def p_return_def)

lemma safe_fail: "safe (p_fail f) ts m" "safe (p_throw e) ts m"
  by (simp_all add: safe_def p_fail_def p_throw_def)

lemma eof_ended_pos: "eof_ended ts \<Longrightarrow> 0 < length ts"
  by (simp add: eof_ended_def length_greater_0_conv)

lemma safe_bind:
  "safe p ts l \<Longrightarrow>
    (\<And>a ts'. eof_ended ts' \<Longrightarrow> 0 < length ts' \<Longrightarrow> length ts' \<le> l \<Longrightarrow> safe (k a) ts' m) \<Longrightarrow>
    safe (p_bind p k) ts m"
  using eof_ended_pos by (fastforce simp: safe_def p_bind_def split: option.splits sum.splits)

lemma safe_then:
  "safe p ts l \<Longrightarrow>
    (\<And>ts'. eof_ended ts' \<Longrightarrow> 0 < length ts' \<Longrightarrow> length ts' \<le> l \<Longrightarrow> safe q ts' m) \<Longrightarrow>
    safe (p_then p q) ts m"
  unfolding p_then_def by (rule safe_bind)

lemma eof_ended_adv: "eof_ended ts \<Longrightarrow> eof_ended (adv ts) \<and> length (adv ts) \<le> length ts"
  by (cases ts) (auto simp: eof_ended_def adv_def)

lemma eof_ended_progress:
  "eof_ended ts \<Longrightarrow> ttype (peek_tok 0 ts) \<noteq> T_EOF \<Longrightarrow> Suc (length (adv ts)) = length ts"
  by (cases ts) (auto simp: eof_ended_def adv_def peek_tok_def split: if_splits)

lemma safe_advance:
  "eof_ended ts \<Longrightarrow> ttype (peek_tok 0 ts) \<noteq> T_EOF \<Longrightarrow> safe p_advance ts (length ts - 1)"
  using eof_ended_adv[of ts] eof_ended_progress[of ts] by (auto simp: safe_def p_advance_def)

lemma safe_advance_any: "eof_ended ts \<Longrightarrow> safe p_advance ts (length ts)"
  using eof_ended_adv[of ts] by (auto simp: safe_def p_advance_def)

lemma safe_consume:
  "eof_ended ts \<Longrightarrow> ty \<noteq> T_EOF \<Longrightarrow> safe (p_consume ty msg) ts (length ts - 1)"
  using safe_advance[of ts] by (auto simp: safe_def p_consume_def is_tok_def p_fail_def p_throw_def)

lemma safe_match:
  "eof_ended ts \<Longrightarrow> ty \<noteq> T_EOF \<Longrightarrow>
    (\<And>ts'. eof_ended ts' \<Longrightarrow> 0 < length ts' \<Longrightarrow> Suc (length ts') = length ts \<Longrightarrow> safe p ts' m) \<Longrightarrow>
    safe q ts m \<Longrightarrow> safe (p_match ty p q) ts m"
  using eof_ended_adv[of ts] eof_ended_progress[of ts] eof_ended_pos[of "adv ts"]
  by (auto simp: safe_def p_match_def is_tok_def)

lemma safe_skip: "eof_ended ts \<Longrightarrow> ty \<noteq> T_EOF \<Longrightarrow> safe (p_skip ty) ts (length ts)"
  unfolding p_skip_def by (intro safe_match safe_return) auto

lemma safe_if:
  "(ttype (peek_tok 0 ts) \<in> tys \<Longrightarrow> safe p ts m) \<Longrightarrow>
    (ttype (peek_tok 0 ts) \<notin> tys \<Longrightarrow> safe q ts m) \<Longrightarrow> safe (p_if tys p q) ts m"
  by (auto simp: safe_def p_if_def)

lemma safe_ident: "eof_ended ts \<Longrightarrow> safe (p_ident msg) ts (length ts - 1)"
  unfolding p_ident_def by (rule safe_bind[OF safe_consume]) (auto intro: safe_return)

section \<open>One level of the methods\<close>

text \<open>
  The contract of the recursive methods at fuel \<open>n\<close>: on at most \<open>n / 2\<close> tokens they are safe;
  an expression takes at least one token; table fields need one more unit of fuel.
\<close>

locale bounded_methods =
  fixes this :: parsers and n :: nat
  assumes sub: "eof_ended ts \<Longrightarrow> 2 * length ts \<le> n \<Longrightarrow> safe (p_sub this i) ts (length ts - 1)"
    and block: "eof_ended ts \<Longrightarrow> 2 * length ts \<le> n \<Longrightarrow> safe (p_block this ss) ts (length ts)"
    and ops: "eof_ended ts \<Longrightarrow> 2 * length ts \<le> n \<Longrightarrow> safe (p_ops this i e) ts (length ts)"
    and suffixes: "eof_ended ts \<Longrightarrow> 2 * length ts \<le> n \<Longrightarrow> safe (p_suffixes this e) ts (length ts)"
    and exprs: "eof_ended ts \<Longrightarrow> 2 * length ts \<le> n \<Longrightarrow> safe (p_exprs this es) ts (length ts)"
    and fields: "eof_ended ts \<Longrightarrow> 2 * length ts + 1 \<le> n \<Longrightarrow> safe (p_fields this fs) ts (length ts)"
    and params: "eof_ended ts \<Longrightarrow> 2 * length ts \<le> n \<Longrightarrow> safe (p_params this ps) ts (length ts)"
    and names: "eof_ended ts \<Longrightarrow> 2 * length ts \<le> n \<Longrightarrow> safe (p_names this msg is) ts (length ts)"
    and path: "eof_ended ts \<Longrightarrow> 2 * length ts \<le> n \<Longrightarrow> safe (p_path this e) ts (length ts)"
    and targets: "eof_ended ts \<Longrightarrow> 2 * length ts \<le> n \<Longrightarrow> safe (p_targets this vs) ts (length ts)"
    and clauses: "eof_ended ts \<Longrightarrow> 2 * length ts \<le> n \<Longrightarrow> safe (p_clauses this cs) ts (length ts)"
begin

lemma expression:
  "eof_ended ts \<Longrightarrow> 2 * length ts \<le> n \<Longrightarrow> safe (parseExpression this) ts (length ts - 1)"
  unfolding parseExpression_def by (rule sub)

lemma expr_list:
  assumes "eof_ended ts" and "2 * length ts \<le> n"
  shows "safe (p_expr_list this) ts (length ts - 1)"
  unfolding p_expr_list_def using assms eof_ended_pos[OF assms(1)]
  by (intro safe_bind[OF expression] safe_weaken[OF exprs]) auto

lemma parse_block:
  "eof_ended ts \<Longrightarrow> 2 * length ts \<le> n \<Longrightarrow> safe (parseBlock this) ts (length ts)"
  unfolding parseBlock_def by (rule block)

lemma table:
  assumes "eof_ended ts" and "2 * length ts \<le> Suc n"
  shows "safe (parseTableConstructor this) ts (length ts - 1)"
  unfolding parseTableConstructor_def using assms eof_ended_pos[OF assms(1)]
  by (intro safe_then[OF safe_consume] safe_bind[OF fields] safe_return) auto

lemma call_args:
  assumes "eof_ended ts" and "2 * length ts \<le> Suc n"
  shows "safe (parseCallArgs this) ts (length ts - 1)"
proof -
  have args: "safe (p_if {T_RPAREN} (p_return []) (p_expr_list this)) ts' (length ts')"
    if "eof_ended ts'" "Suc (length ts') = length ts" for ts'
    using that assms by (intro safe_if safe_return safe_weaken[OF expr_list]) auto
  show ?thesis
    unfolding parseCallArgs_def using assms eof_ended_pos[OF assms(1)]
    by (intro safe_match safe_if safe_bind[OF args] safe_then[OF safe_consume] safe_return safe_fail
        safe_bind[OF safe_advance] safe_bind[OF table]) auto
qed

text \<open>The methods of the next level, on one unit of fuel more.\<close>

lemma suffixes_step:
  assumes "eof_ended ts" and "2 * length ts \<le> Suc n"
  shows "safe (suffixes_loop this base) ts (length ts)"
  unfolding suffixes_loop_def using assms eof_ended_pos[OF assms(1)]
  by (intro safe_match safe_bind[OF expression] safe_then[OF safe_consume] safe_bind[OF safe_ident]
      safe_bind[OF call_args] safe_weaken[OF suffixes] safe_if safe_return) auto

lemma prefix_step:
  assumes "eof_ended ts" and "2 * length ts \<le> Suc n"
  shows "safe (parsePrefixExp this) ts (length ts - 1)"
proof -
  have base: "safe (p_match T_LPAREN
          (p_bind (parseExpression this) (\<lambda>base.
             p_then (p_consume T_RPAREN ''Expected ')' after parenthesized expression'')
               (p_return (in_parens base))))
          (p_if {T_IDENT}
             (p_bind p_advance (\<lambda>t. p_return (Identifier (token_text t))))
             (p_fail (\<lambda>t. UnexpectedToken ''Unexpected token in expression'' (ttype t))))) ts
        (length ts - 1)"
    using assms eof_ended_pos[OF assms(1)]
    by (intro safe_match safe_if safe_bind[OF expression] safe_then[OF safe_consume] safe_return
        safe_fail safe_bind[OF safe_advance]) auto
  show ?thesis
    unfolding parsePrefixExp_def using assms eof_ended_pos[OF assms(1)]
    by (intro safe_bind[OF base] safe_weaken[OF suffixes]) auto
qed

lemma function_body:
  assumes "eof_ended ts" and "2 * length ts \<le> Suc n"
  shows "safe (parseFunctionBody this) ts (length ts - 1)"
proof -
  have ps: "safe (p_if {T_RPAREN} (p_return ([], False))
             (p_match T_DOT_DOT_DOT (p_return ([], True))
                (p_bind (p_ident ''Expected parameter name'') (\<lambda>p. p_params this [p])))) ts' (length ts')"
    if "eof_ended ts'" "Suc (length ts') \<le> length ts" for ts'
    using that assms eof_ended_pos[OF that(1)]
    by (intro safe_if safe_match safe_return safe_bind[OF safe_ident] safe_weaken[OF params]) auto
  show ?thesis
    unfolding parseFunctionBody_def using assms eof_ended_pos[OF assms(1)]
    by (intro safe_then[OF safe_consume] safe_bind[OF ps])
      (auto split: prod.splits intro!: safe_then[OF safe_consume] safe_bind[OF parse_block] safe_return)
qed

lemma simple_step:
  assumes "eof_ended ts" and "2 * length ts \<le> Suc n"
  shows "safe (parseSimpleExpression this) ts (length ts - 1)"
proof -
  have fn: "safe (p_bind (parseFunctionBody this) (\<lambda>(params, isVararg, body).
      p_return (FunctionExpression params isVararg body))) ts' (length ts - 1)"
    if "eof_ended ts'" "Suc (length ts') = length ts" for ts'
    using that assms by (intro safe_bind[OF function_body]) (auto split: prod.splits intro!: safe_return)
  show ?thesis
    unfolding parseSimpleExpression_def using assms eof_ended_pos[OF assms(1)]
    by (intro safe_match safe_if safe_bind[OF sub] safe_bind[OF safe_advance] safe_return table
        fn prefix_step) auto
qed

lemma ops_step:
  assumes "eof_ended ts" and "2 * length ts \<le> Suc n"
  shows "safe (ops_loop this minPrec left) ts (length ts)"
proof (cases "getBinaryPrecedence (ttype (peek_tok 0 ts)) = 0")
  case True
  with assms show ?thesis
    using safe_return[of ts "length ts" left] by (simp add: ops_loop_def safe_def)
next
  case False
  then have "ttype (peek_tok 0 ts) \<noteq> T_EOF" by (auto simp: getBinaryPrecedence_def)
  then have "safe (p_bind p_advance (\<lambda>_. p_bind (p_sub this k) (\<lambda>right. p_ops this minPrec (f right))))
      ts (length ts)" for k f
    using assms eof_ended_pos[OF assms(1)]
    by (intro safe_bind[OF safe_advance] safe_bind[OF sub] safe_weaken[OF ops]) auto
  with safe_return[of ts "length ts" left] assms(1) show ?thesis
    by (simp add: ops_loop_def safe_def Let_def)
qed

lemma sub_step:
  assumes "eof_ended ts" and "2 * length ts \<le> Suc n"
  shows "safe (parseSubExpression this minPrec) ts (length ts - 1)"
  unfolding parseSubExpression_def using assms eof_ended_pos[OF assms(1)]
  by (intro safe_bind[OF simple_step] safe_weaken[OF ops]) auto

lemma loops_step:
  assumes "eof_ended ts" and "2 * length ts \<le> Suc n"
  shows "safe (exprs_loop this es) ts (length ts)" and "safe (params_loop this ps) ts (length ts)"
    and "safe (names_loop this msg is) ts (length ts)" and "safe (path_loop this e) ts (length ts)"
    and "safe (targets_loop this vs) ts (length ts)"
  unfolding exprs_loop_def params_loop_def names_loop_def path_loop_def targets_loop_def
  using assms eof_ended_pos[OF assms(1)]
  by (intro safe_match safe_bind[OF expression] safe_weaken[OF exprs] safe_bind[OF safe_ident]
      safe_weaken[OF params] safe_weaken[OF names] safe_weaken[OF path] safe_bind[OF prefix_step]
      safe_weaken[OF targets] safe_return; auto)+

lemma fields_step:
  assumes "eof_ended ts" and "2 * length ts + 1 \<le> Suc n"
  shows "safe (fields_loop this fs) ts (length ts)"
proof -
  let ?named = "\<lambda>ts. if is_tok T_IDENT ts \<and> ttype (peek_tok 1 ts) = T_ASSIGN then
      p_bind p_advance (\<lambda>t. p_then (p_consume T_ASSIGN ''Expected '=' after field name'')
        (p_bind (parseExpression this) (\<lambda>val.
           p_return (TableKeyString (Identifier (token_text t)) val)))) ts
    else p_bind (parseExpression this) (\<lambda>val. p_return (TableValue val)) ts"
  have e: "safe (p_bind (parseExpression this) (\<lambda>val. p_return (TableValue val))) ts (length ts - 1)"
    using assms by (intro safe_bind[OF expression] safe_return) auto
  have "safe (p_bind p_advance (\<lambda>t. p_then (p_consume T_ASSIGN ''Expected '=' after field name'')
        (p_bind (parseExpression this) (\<lambda>val.
           p_return (TableKeyString (Identifier (token_text t)) val))))) ts (length ts - 1)"
    if "is_tok T_IDENT ts"
    using assms that eof_ended_pos[OF assms(1)]
    by (intro safe_bind[OF safe_advance] safe_then[OF safe_consume] safe_bind[OF expression] safe_return)
      (auto simp: is_tok_def)
  with e have named: "safe ?named ts (length ts - 1)" by (simp add: safe_def)
  have field: "safe (p_match T_LBRACKET
      (p_bind (parseExpression this) (\<lambda>key.
         p_then (p_consume T_RBRACKET ''Expected ']' after table key'')
         (p_then (p_consume T_ASSIGN ''Expected '=' after table key'')
         (p_bind (parseExpression this) (\<lambda>val. p_return (TableKey key val)))))) ?named) ts
      (length ts - 1)"
    using assms eof_ended_pos[OF assms(1)]
    by (intro safe_match safe_bind[OF expression] safe_then[OF safe_consume] safe_return named) auto
  show ?thesis
    unfolding fields_loop_def using assms eof_ended_pos[OF assms(1)]
    by (intro safe_if safe_return safe_bind[OF field] safe_match safe_weaken[OF fields]) auto
qed

lemma clause:
  assumes "eof_ended ts" and "2 * length ts \<le> n"
  shows "safe (clause_body this msg) ts (length ts - 1)"
  unfolding clause_body_def using assms eof_ended_pos[OF assms(1)]
  by (intro safe_bind[OF expression] safe_then[OF safe_consume] safe_bind[OF parse_block] safe_return) auto

lemma clauses_step:
  assumes "eof_ended ts" and "2 * length ts \<le> Suc n"
  shows "safe (clauses_loop this cs) ts (length ts)"
  unfolding clauses_loop_def using assms eof_ended_pos[OF assms(1)]
  by (intro safe_match safe_bind[OF clause] safe_weaken[OF clauses] safe_return) auto

text \<open>Statements, after the keyword that introduces them.\<close>

lemma statements_after_keyword:
  assumes "eof_ended ts" and "2 * length ts \<le> n"
  shows "safe (parseLocalFunction this) ts (length ts)"
    and "safe (parseLocalVariables this) ts (length ts)"
    and "safe (parseWhileStatement this) ts (length ts)"
    and "safe (parseRepeatStatement this) ts (length ts)"
proof -
  note pos = assms eof_ended_pos[OF assms(1)]
  show "safe (parseLocalFunction this) ts (length ts)"
    unfolding parseLocalFunction_def using pos
    by (intro safe_bind[OF safe_ident] safe_bind[OF function_body])
      (auto split: prod.splits intro!: safe_return)
  have init: "safe (p_match T_ASSIGN (p_expr_list this) (p_return [])) ts' (length ts')"
    if "eof_ended ts'" "length ts' \<le> length ts" for ts'
    using that assms eof_ended_pos[OF that(1)]
    by (intro safe_match safe_weaken[OF expr_list] safe_return) auto
  show "safe (parseLocalVariables this) ts (length ts)"
    unfolding parseLocalVariables_def using pos
    by (intro safe_bind[OF safe_ident] safe_bind[OF names] safe_bind[OF init]
        safe_then[OF safe_skip] safe_return) auto
  show "safe (parseWhileStatement this) ts (length ts)"
    unfolding parseWhileStatement_def using pos
    by (intro safe_bind[OF expression] safe_then[OF safe_consume] safe_bind[OF parse_block] safe_return) auto
  show "safe (parseRepeatStatement this) ts (length ts)"
    unfolding parseRepeatStatement_def using pos
    by (intro safe_bind[OF parse_block] safe_then[OF safe_consume] safe_bind[OF expression]
        safe_then[OF safe_skip] safe_return) auto
qed

lemma function_declaration:
  assumes "eof_ended ts" and "2 * length ts \<le> n"
  shows "safe (parseFunctionDeclaration this) ts (length ts)"
proof -
  have name: "safe (p_match T_COLON
          (p_bind (p_ident ''Expected method name after :'') (\<lambda>method.
             p_return (MemberExpression n1 method, True)))
          (p_return (n1, False))) ts' (length ts')" if "eof_ended ts'" for ts' n1
    using that by (intro safe_match safe_bind[OF safe_ident] safe_return) auto
  show ?thesis
    unfolding parseFunctionDeclaration_def using assms eof_ended_pos[OF assms(1)]
    by (intro safe_bind[OF safe_ident] safe_bind[OF path] safe_bind[OF name])
      (auto split: prod.splits intro!: safe_bind[OF function_body] safe_return)
qed

lemma if_statement:
  assumes "eof_ended ts" and "2 * length ts \<le> n"
  shows "safe (parseIfStatement this) ts (length ts)"
proof -
  have els: "safe (p_match T_ELSE (p_bind (parseBlock this) (\<lambda>b. p_return (Some b))) (p_return None))
      ts' (length ts')" if "eof_ended ts'" "length ts' \<le> length ts" for ts'
    using that assms by (intro safe_match safe_bind[OF parse_block] safe_return) auto
  show ?thesis
    unfolding parseIfStatement_def using assms eof_ended_pos[OF assms(1)]
    by (intro safe_bind[OF clause] safe_bind[OF clauses] safe_bind[OF els] safe_then[OF safe_consume]
        safe_return) auto
qed

lemma for_statement:
  assumes "eof_ended ts" and "2 * length ts \<le> n"
  shows "safe (parseForStatement this) ts (length ts)"
proof -
  have step: "safe (p_match T_COMMA (p_bind (parseExpression this) (\<lambda>e. p_return (Some e)))
      (p_return None)) ts' (length ts')" if "eof_ended ts'" "length ts' \<le> length ts" for ts'
    using that assms by (intro safe_match safe_bind[OF expression] safe_return) auto
  show ?thesis
    unfolding parseForStatement_def using assms eof_ended_pos[OF assms(1)]
    by (intro safe_bind[OF safe_ident] safe_match safe_bind[OF expression] safe_then[OF safe_consume]
        safe_bind[OF step] safe_bind[OF parse_block] safe_return safe_bind[OF names]
        safe_bind[OF expr_list]) auto
qed

lemma call_or_assignment:
  assumes "eof_ended ts" and "2 * length ts \<le> Suc n"
  shows "safe (parseCallOrAssignment this) ts (length ts - 1)"
proof -
  have init: "safe (compound_init op vs es) ts' (length ts')" if "eof_ended ts'" for op vs es ts'
    using that by (auto simp: compound_init_def intro: safe_return safe_fail split: token_type.split)
  show ?thesis
    unfolding parseCallOrAssignment_def using assms eof_ended_pos[OF assms(1)]
    by (intro safe_bind[OF prefix_step] safe_if safe_bind[OF targets] safe_bind[OF safe_advance_any]
        safe_bind[OF expr_list] safe_then[OF safe_skip] safe_bind[OF init] safe_return)
      (auto intro!: safe_then[OF safe_skip] safe_return safe_fail)
qed

lemma statement_step:
  assumes "eof_ended ts" and "2 * length ts \<le> Suc n"
  shows "safe (parseStatement this) ts (length ts - 1)"
proof -
  have skip: "safe (p_then (p_skip T_SEMICOLON) (p_return st)) ts' (length ts')"
    if "eof_ended ts'" for ts' and st :: stmt
    using that by (intro safe_then[OF safe_skip] safe_return) auto
  have args: "safe (p_if (insert T_SEMICOLON block_ends) (p_return []) (p_expr_list this)) ts' (length ts')"
    if "eof_ended ts'" "2 * length ts' \<le> n" for ts'
    using that by (intro safe_if safe_return safe_weaken[OF expr_list]) auto
  show ?thesis
    unfolding parseStatement_def using assms eof_ended_pos[OF assms(1)]
    by (intro safe_match safe_return safe_weaken[OF statements_after_keyword(1)]
        safe_weaken[OF statements_after_keyword(2)] safe_weaken[OF statements_after_keyword(3)]
        safe_weaken[OF statements_after_keyword(4)] safe_weaken[OF function_declaration]
        safe_weaken[OF if_statement] safe_weaken[OF for_statement] safe_bind[OF parse_block]
        safe_then[OF safe_consume] safe_weaken[OF skip] safe_bind[OF args] call_or_assignment) auto
qed

lemma block_step:
  assumes "eof_ended ts" and "2 * length ts \<le> Suc n"
  shows "safe (block_loop this ss) ts (length ts)"
  unfolding block_loop_def using assms eof_ended_pos[OF assms(1)]
  by (intro safe_if safe_return safe_bind[OF statement_step] safe_weaken[OF block]) auto

lemma next_level: "bounded_methods (methods this) (Suc n)"
  by unfold_locales
    (simp_all add: methods_def sub_step[unfolded One_nat_def] block_step ops_step suffixes_step loops_step fields_step
      clauses_step)

end

lemma parsers_bounded: "bounded_methods (parsers_upto n) n"
proof (induction n)
  case 0
  show ?case by unfold_locales (auto dest: eof_ended_pos)
next
  case (Suc n)
  then show ?case by (simp add: bounded_methods.next_level)
qed

interpretation parser: bounded_methods "parsers_upto n" n for n
  by (rule parsers_bounded)

section \<open>More fuel changes nothing\<close>

text \<open>\<open>p \<sqsubseteq> q\<close> in words: what the first parser decides, the second decides in the same way.\<close>

definition refines :: "'a parser \<Rightarrow> 'a parser \<Rightarrow> bool" where
  "refines p q \<longleftrightarrow> (\<forall>ts r. p ts = Some r \<longrightarrow> q ts = Some r)"

lemma refines_refl: "refines p p"
  by (simp add: refines_def)

lemma refines_bind:
  "refines p q \<Longrightarrow> (\<And>a. refines (k a) (l a)) \<Longrightarrow> refines (p_bind p k) (p_bind q l)"
  by (fastforce simp: refines_def p_bind_def split: option.splits sum.splits)

lemma refines_then: "refines p q \<Longrightarrow> refines k l \<Longrightarrow> refines (p_then p k) (p_then q l)"
  unfolding p_then_def by (rule refines_bind)

lemma refines_match: "refines p p' \<Longrightarrow> refines q q' \<Longrightarrow> refines (p_match ty p q) (p_match ty p' q')"
  by (simp add: refines_def p_match_def)

lemma refines_if: "refines p p' \<Longrightarrow> refines q q' \<Longrightarrow> refines (p_if tys p q) (p_if tys p' q')"
  by (simp add: refines_def p_if_def)

lemma refines_case:
  "(\<And>a b. refines (f a b) (g a b)) \<Longrightarrow> refines (case x of (a, b) \<Rightarrow> f a b) (case x of (a, b) \<Rightarrow> g a b)"
  by (simp split: prod.split)

definition methods_refine :: "parsers \<Rightarrow> parsers \<Rightarrow> bool" where
  "methods_refine a b \<longleftrightarrow>
     (\<forall>x. refines (p_block a x) (p_block b x)) \<and> (\<forall>x. refines (p_sub a x) (p_sub b x)) \<and>
     (\<forall>x y. refines (p_ops a x y) (p_ops b x y)) \<and>
     (\<forall>x. refines (p_suffixes a x) (p_suffixes b x)) \<and>
     (\<forall>x. refines (p_exprs a x) (p_exprs b x)) \<and> (\<forall>x. refines (p_fields a x) (p_fields b x)) \<and>
     (\<forall>x. refines (p_params a x) (p_params b x)) \<and>
     (\<forall>x y. refines (p_names a x y) (p_names b x y)) \<and>
     (\<forall>x. refines (p_path a x) (p_path b x)) \<and> (\<forall>x. refines (p_targets a x) (p_targets b x)) \<and>
     (\<forall>x. refines (p_clauses a x) (p_clauses b x))"

lemmas refines_rules =
  refines_bind refines_then refines_match refines_if refines_case refines_refl

lemma refines_local:
  "(\<And>ts. refines (f ts) (g ts)) \<Longrightarrow> refines (\<lambda>ts. f ts ts) (\<lambda>ts. g ts ts)"
  by (simp add: refines_def)

lemma methods_refine_step:
  assumes "methods_refine a b"
  shows "methods_refine (methods a) (methods b)"
proof -
  note R = assms[unfolded methods_refine_def]
  have c: "refines (p_block a x) (p_block b x)" "refines (p_sub a i) (p_sub b i)"
    "refines (p_ops a i e) (p_ops b i e)" "refines (p_suffixes a e) (p_suffixes b e)"
    "refines (p_exprs a es) (p_exprs b es)" "refines (p_fields a fs) (p_fields b fs)"
    "refines (p_params a es) (p_params b es)" "refines (p_names a m es) (p_names b m es)"
    "refines (p_path a e) (p_path b e)" "refines (p_targets a es) (p_targets b es)"
    "refines (p_clauses a cs) (p_clauses b cs)" for x i e es fs m cs
    using R by simp_all
  note d = parseBlock_def parseExpression_def p_expr_list_def
  have table: "refines (parseTableConstructor a) (parseTableConstructor b)"
    unfolding parseTableConstructor_def by (intro refines_rules c)
  have args: "refines (parseCallArgs a) (parseCallArgs b)"
    unfolding parseCallArgs_def d by (intro refines_rules c table)
  have prefix: "refines (parsePrefixExp a) (parsePrefixExp b)"
    unfolding parsePrefixExp_def d by (intro refines_rules c)
  have fbody: "refines (parseFunctionBody a) (parseFunctionBody b)"
    unfolding parseFunctionBody_def d by (intro refines_rules c)
  have simple: "refines (parseSimpleExpression a) (parseSimpleExpression b)"
    unfolding parseSimpleExpression_def by (intro refines_rules c table prefix fbody)
  have clause: "refines (clause_body a m) (clause_body b m)" for m
    unfolding clause_body_def d by (intro refines_rules c)
  have stmts: "refines (parseStatement a) (parseStatement b)"
    unfolding parseStatement_def parseLocalFunction_def parseLocalVariables_def
      parseFunctionDeclaration_def parseIfStatement_def parseWhileStatement_def
      parseRepeatStatement_def parseForStatement_def parseCallOrAssignment_def d
    by (intro refines_rules c fbody clause prefix)
  have ops: "refines (ops_loop a m e) (ops_loop b m e)" for m e
  proof -
    have "refines (p_bind p_advance (\<lambda>_. p_bind (p_sub a k) (\<lambda>r. p_ops a m (f r))))
        (p_bind p_advance (\<lambda>_. p_bind (p_sub b k) (\<lambda>r. p_ops b m (f r))))" for k f
      by (intro refines_rules c)
    then show ?thesis by (auto simp: refines_def ops_loop_def Let_def split: if_splits)
  qed
  have fields: "refines (fields_loop a fs) (fields_loop b fs)" for fs
  proof -
    have branch: "refines (\<lambda>ts. if Q ts then p ts else q ts) (\<lambda>ts. if Q ts then p' ts else q' ts)"
      if "refines p p'" "refines q q'" for Q and p p' q q' :: "table_field parser"
      using that by (simp add: refines_def)
    show ?thesis unfolding fields_loop_def d by (intro refines_rules c branch)
  qed
  show ?thesis
    unfolding methods_refine_def methods_def
    by (simp add: ops fields) (auto simp: block_loop_def parseSubExpression_def suffixes_loop_def
        exprs_loop_def params_loop_def names_loop_def path_loop_def targets_loop_def clauses_loop_def d
        intro!: refines_rules c stmts simple prefix args clause)
qed

lemma parsers_refine: "m \<le> n \<Longrightarrow> methods_refine (parsers_upto m) (parsers_upto n)"
proof (induction m arbitrary: n)
  case 0
  show ?case by (simp add: methods_refine_def no_fuel_def refines_def)
next
  case (Suc m)
  then obtain k where "n = Suc k" "m \<le> k" by (cases n) auto
  with Suc.IH show ?case by (simp add: methods_refine_step)
qed

lemma parseChunk_refines: "m \<le> n \<Longrightarrow> refines (parseChunk m) (parseChunk n)"
  unfolding parseChunk_def parseBlock_def
  using parsers_refine[of m n] by (intro refines_rules) (simp add: methods_refine_def)

lemma parseChunk_safe:
  assumes "eof_ended ts" and "2 * length ts \<le> n"
  shows "safe (parseChunk n) ts (length ts)"
  unfolding parseChunk_def
  by (intro safe_bind[OF parser.parse_block] safe_if safe_return safe_fail) (use assms in auto)

section \<open>Parsing ends\<close>

lemma tiling_eof: "tiling p l r ts \<Longrightarrow> eof_ended ts"
  by (induction rule: tiling.induct) (auto simp: eof_ended_def)

lemma tokenize_eof: "tokenize src = Inr ts \<Longrightarrow> eof_ended ts"
  using tokens_end[of src] by (simp add: tiling_eof)

lemma parsing_ends_unique:
  assumes "eof_ended ts" and "enough_fuel ts \<le> n"
  shows "parse_tokens ts = map_option (map_sum id fst) (parseChunk n ts) \<and> parse_tokens ts \<noteq> None"
proof -
  have "safe (parseChunk (enough_fuel ts)) ts (length ts)"
    by (intro parseChunk_safe assms(1)) (simp add: enough_fuel_def)
  then obtain r where "parseChunk (enough_fuel ts) ts = Some r" by (auto simp: safe_def)
  moreover from this have "parseChunk n ts = Some r"
    using parseChunk_refines[OF assms(2)] by (simp add: refines_def)
  ultimately show ?thesis by (simp add: parse_tokens_def)
qed

text \<open>Parsing ends: for every token list that ends with EOF, a recursion depth of twice the number
  of tokens is never exceeded, and any larger bound gives the same chunk or the same error.\<close>

theorem parsing_ends:
  assumes "eof_ended ts" and "enough_fuel ts \<le> n"
  shows "\<exists>r. parse_tokens ts = Some r \<and> map_option (map_sum id fst) (parseChunk n ts) = Some r"
  using parsing_ends_unique[OF assms] by (metis not_None_eq)

theorem parsing_ends_witness:
  "\<exists>r. parse_tokens [Token T_EOF V_null 1 1 0 []] = Some r"
  using parsing_ends [of "[Token T_EOF V_null 1 1 0 []]" 4]
  by (auto simp: eof_ended_def enough_fuel_def)

text \<open>C4. Every source text is parsed to a chunk or to an error, never without a result.\<close>

theorem every_source_has_a_result: "parse_source src \<noteq> None"
proof (cases "tokenize src")
  case (Inr ts)
  from safe_def[of "parseChunk (enough_fuel ts)" ts "length ts"]
    parseChunk_safe[OF tokenize_eof[OF Inr], of "enough_fuel ts"]
  show ?thesis by (simp add: parse_source_def Inr parse_tokens_def enough_fuel_def)
qed (simp add: parse_source_def)

declare length_greater_0_conv [simp]

section \<open>Running the parser on given tokens\<close>

text \<open>Rules that unfold a method only where it is applied to tokens.\<close>

lemma level_fields:
  "p_block (parsers_upto (Suc n)) = block_loop (parsers_upto n)"
  "p_sub (parsers_upto (Suc n)) = parseSubExpression (parsers_upto n)"
  "p_ops (parsers_upto (Suc n)) = ops_loop (parsers_upto n)"
  "p_suffixes (parsers_upto (Suc n)) = suffixes_loop (parsers_upto n)"
  "p_exprs (parsers_upto (Suc n)) = exprs_loop (parsers_upto n)"
  "p_fields (parsers_upto (Suc n)) = fields_loop (parsers_upto n)"
  "p_params (parsers_upto (Suc n)) = params_loop (parsers_upto n)"
  "p_names (parsers_upto (Suc n)) = names_loop (parsers_upto n)"
  "p_path (parsers_upto (Suc n)) = path_loop (parsers_upto n)"
  "p_targets (parsers_upto (Suc n)) = targets_loop (parsers_upto n)"
  "p_clauses (parsers_upto (Suc n)) = clauses_loop (parsers_upto n)"
  by (simp_all add: methods_def)

lemmas method_defs = parseBlock_def parseExpression_def p_then_def p_skip_def parseChunk_def
  p_ident_def block_loop_def parseStatement_def parseCallOrAssignment_def parsePrefixExp_def
  suffixes_loop_def targets_loop_def p_expr_list_def exprs_loop_def parseSubExpression_def
  parseSimpleExpression_def parseCallArgs_def parseTableConstructor_def parseFunctionBody_def
  parseLocalFunction_def parseLocalVariables_def parseFunctionDeclaration_def fields_loop_def
  names_loop_def path_loop_def params_loop_def clause_body_def clauses_loop_def

lemmas parser_run = method_defs[THEN fun_cong] level_fields p_bind_def p_match_def p_if_def
  is_tok_def p_consume_def p_advance_def p_return_def ops_loop_def peek_tok_def adv_def
  token_text_def assign_types_def block_ends_def compound_init_def getBinaryPrecedence_def Let_def

text \<open>A result reached with some fuel is the result.\<close>

lemma parse_tokens_run:
  assumes "parseChunk n ts = Some (Inr (c, ts'))" and "eof_ended ts"
  shows "parse_tokens ts = Some (Inr c)"
proof -
  from parseChunk_refines[of n "max n (enough_fuel ts)"] assms(1)
  have "parseChunk (max n (enough_fuel ts)) ts = Some (Inr (c, ts'))" by (simp add: refines_def)
  with parsing_ends_unique[OF assms(2), of "max n (enough_fuel ts)"] show ?thesis by simp
qed

end
