(* ===== verification/Print_Parse.thy ===== *)
theory Print_Parse
  imports Print_Lex Parser_Props
begin

text \<open>
  The parser reads printed operator expressions back: precedences, associativity and the
  parentheses of the printer agree with the precedence climbing of the parser.
\<close>

section \<open>Parsing a known prefix of the tokens\<close>

lemma content_simps:
  "content t = (ty, v, raw) \<longleftrightarrow> ttype t = ty \<and> tvalue t = v \<and> traw t = raw"
  by (auto simp: content_def)

lemma peek_head [simp]: "peek_tok 0 (t # ts) = t"
  by (simp add: peek_tok_def)

lemma adv_Cons [simp]: "ts \<noteq> [] \<Longrightarrow> adv (t # ts) = ts"
  by (simp add: adv_def)

lemma eof_ended_not_Nil: "eof_ended ts \<Longrightarrow> ts \<noteq> []"
  by (simp add: eof_ended_def)

lemma eof_ended_append: "eof_ended ts \<Longrightarrow> eof_ended (us @ ts)"
  by (simp add: eof_ended_def)

definition suffix_starts :: "token_type set" where
  "suffix_starts = {T_LBRACKET, T_DOT, T_COLON, T_LPAREN, T_STRING, T_LBRACE}"

text \<open>The tokens that follow do not extend an expression whose right edge accepts operators of
  precedence \<open>ub\<close> and above.\<close>

definition stops :: "nat \<Rightarrow> token list \<Rightarrow> bool" where
  "stops ub ts \<longleftrightarrow>
     ttype (hd ts) \<notin> suffix_starts \<and> getBinaryPrecedence (ttype (hd ts)) < ub"

lemma stops_weaken: "stops ub ts \<Longrightarrow> ub \<le> ub' \<Longrightarrow> stops ub' ts"
  by (simp add: stops_def)

text \<open>\<open>sub_ok e cs lb ub\<close>: tokens with contents \<open>cs\<close> are parsed as \<open>e\<close> at every minimal precedence
  up to \<open>lb\<close>; the parser is then in its operator loop.\<close>

definition sub_ok :: "expr \<Rightarrow> content list \<Rightarrow> nat \<Rightarrow> nat \<Rightarrow> bool" where
  "sub_ok e cs lb ub \<longleftrightarrow>
     (\<forall>us ts n m. map content us = cs \<longrightarrow> eof_ended ts \<longrightarrow> stops ub ts \<longrightarrow> m \<le> lb \<longrightarrow>
        2 * length (us @ ts) \<le> n \<longrightarrow>
        (\<exists>n'. 2 * length ts \<le> n' \<and>
           p_sub (parsers_upto n) m (us @ ts) = p_ops (parsers_upto n') m e ts))"

text \<open>The same for prefix expressions, after which the parser is in its suffix loop.\<close>

definition prefix_ok :: "expr \<Rightarrow> content list \<Rightarrow> bool" where
  "prefix_ok e cs \<longleftrightarrow>
     (\<forall>us ts n. map content us = cs \<longrightarrow> eof_ended ts \<longrightarrow> 2 * length (us @ ts) \<le> Suc n \<longrightarrow>
        (\<exists>n'. 2 * length ts \<le> n' \<and>
           parsePrefixExp (parsers_upto n) (us @ ts) = p_suffixes (parsers_upto n') e ts))"

lemma level_Suc: "2 * length ts \<le> n \<Longrightarrow> eof_ended ts \<Longrightarrow> \<exists>k. n = Suc k"
  by (cases n) (auto simp: eof_ended_def)

lemma ops_return:
  assumes "eof_ended ts" and "2 * length ts \<le> n"
    and "getBinaryPrecedence (ttype (hd ts)) = 0 \<or> getBinaryPrecedence (ttype (hd ts)) < m"
  shows "p_ops (parsers_upto n) m e ts = Some (Inr (e, ts))"
proof -
  obtain k where "n = Suc k" using level_Suc[OF assms(2,1)] by blast
  moreover have "peek_tok 0 ts = hd ts" using assms(1) by (cases ts) (auto simp: eof_ended_def)
  ultimately show ?thesis using assms(3) by (simp add: methods_def ops_loop_def p_return_def Let_def)
qed

lemma suffix_return:
  assumes "eof_ended ts" and "2 * length ts \<le> n" and "ttype (hd ts) \<notin> suffix_starts"
  shows "p_suffixes (parsers_upto n) e ts = Some (Inr (e, ts))"
proof -
  obtain k where "n = Suc k" using level_Suc[OF assms(2,1)] by blast
  moreover have "peek_tok 0 ts = hd ts" using assms(1) by (cases ts) (auto simp: eof_ended_def)
  ultimately show ?thesis using assms(3)
    by (simp add: methods_def suffixes_loop_def p_match_def is_tok_def p_if_def p_return_def suffix_starts_def)
qed

lemma sub_result:
  assumes "sub_ok e cs lb ub" and "map content us = cs" and "eof_ended ts" and "stops ub ts"
    and "m \<le> lb" and "2 * length (us @ ts) \<le> n"
    and "getBinaryPrecedence (ttype (hd ts)) = 0 \<or> getBinaryPrecedence (ttype (hd ts)) < m"
  shows "p_sub (parsers_upto n) m (us @ ts) = Some (Inr (e, ts))"
proof -
  obtain n' where "2 * length ts \<le> n'"
    "p_sub (parsers_upto n) m (us @ ts) = p_ops (parsers_upto n') m e ts"
    using assms(1-6) unfolding sub_ok_def by blast
  with ops_return[OF assms(3) _ assms(7)] show ?thesis by simp
qed

text \<open>One level of \<open>parseSubExpression\<close>, once the first operand is known.\<close>

lemma sub_okI:
  assumes "\<And>us ts n. map content us = cs \<Longrightarrow> eof_ended ts \<Longrightarrow> stops ub ts \<Longrightarrow>
    2 * length (us @ ts) \<le> Suc n \<Longrightarrow>
    parseSimpleExpression (parsers_upto n) (us @ ts) = Some (Inr (e, ts))"
    and "cs \<noteq> []"
  shows "sub_ok e cs lb ub"
  unfolding sub_ok_def
proof (intro allI impI)
  fix us ts n m
  assume a: "map content us = cs" "eof_ended ts" "stops ub ts" "2 * length (us @ ts) \<le> n"
  then obtain k where k: "n = Suc k" using level_Suc[OF _ eof_ended_append[OF a(2)]] by blast
  obtain u us' where "us = u # us'" using a(1) assms(2) by (cases us) auto
  then have "2 * length ts \<le> k" using a(4) k by simp
  moreover have "p_sub (parsers_upto n) m (us @ ts) = p_ops (parsers_upto k) m e ts"
    using assms(1)[OF a(1-3), of k] a(4) by (simp add: k methods_def parseSubExpression_def p_bind_def)
  ultimately show "\<exists>n'. 2 * length ts \<le> n' \<and>
      p_sub (parsers_upto n) m (us @ ts) = p_ops (parsers_upto n') m e ts" by blast
qed

lemmas simple_defs = parseSimpleExpression_def p_match_def p_if_def is_tok_def p_bind_def
  p_advance_def p_return_def

lemma literal_sub_ok:
  assumes "\<And>t. content t = c \<Longrightarrow>
    ttype t = T_NUMBER \<and> numericLiteral (token_num t) (traw t) = e \<or>
    ttype t = T_STRING \<and> stringLiteral (token_bytes t) (traw t) = e \<or>
    ttype t \<in> {T_TRUE, T_FALSE} \<and> BooleanLiteral (token_bool t) = e \<or>
    ttype t = T_NIL \<and> e = NilLiteral \<or> ttype t = T_DOT_DOT_DOT \<and> e = VarargLiteral False"
  shows "sub_ok e [c] lb ub"
proof (rule sub_okI)
  fix us ts n assume "map content us = [c]" "eof_ended ts"
  then obtain t where "us = [t]" "content t = c" "ts \<noteq> []"
    by (auto simp: map_eq_Cons_conv eof_ended_def)
  with assms[of t] show "parseSimpleExpression (parsers_upto n) (us @ ts) = Some (Inr (e, ts))"
    by (auto simp: simple_defs)
qed simp

lemma prefix_sub_ok:
  assumes "prefix_ok e (c # cs)" and "fst c \<in> {T_IDENT, T_LPAREN}"
  shows "sub_ok e (c # cs) lb ub"
proof (rule sub_okI)
  fix us ts n
  assume a: "map content us = c # cs" "eof_ended ts" "stops ub ts" "2 * length (us @ ts) \<le> Suc n"
  then obtain t us' where us: "us = t # us'" "content t = c" by auto
  then have "ttype t \<in> {T_IDENT, T_LPAREN}" using assms(2) by (auto simp: content_def)
  then have "parseSimpleExpression (parsers_upto n) (us @ ts) = parsePrefixExp (parsers_upto n) (us @ ts)"
    using us by (auto simp: parseSimpleExpression_def p_match_def p_if_def is_tok_def)
  moreover obtain n' where "2 * length ts \<le> n'"
    "parsePrefixExp (parsers_upto n) (us @ ts) = p_suffixes (parsers_upto n') e ts"
    using assms(1)[unfolded prefix_ok_def, rule_format, OF a(1,2,4)] by blast
  ultimately show "parseSimpleExpression (parsers_upto n) (us @ ts) = Some (Inr (e, ts))"
    using suffix_return[OF a(2)] a(3) by (simp add: stops_def)
qed simp

section \<open>Names, parentheses and suffixes\<close>

lemma name_prefix_ok: "prefix_ok (Identifier n) [ident_content n]"
  unfolding prefix_ok_def
proof (intro allI impI)
  fix us ts k assume a: "map content us = [ident_content n]" "eof_ended ts" "2 * length (us @ ts) \<le> Suc k"
  then obtain t where t: "us = [t]" "ttype t = T_IDENT" "tvalue t = V_text n" "ts \<noteq> []"
    by (auto simp: map_eq_Cons_conv eof_ended_def ident_content_def content_def)
  then have "parsePrefixExp (parsers_upto k) (us @ ts) = p_suffixes (parsers_upto k) (Identifier n) ts"
    by (simp add: parsePrefixExp_def p_bind_def p_match_def p_if_def is_tok_def p_advance_def
        p_return_def token_text_def)
  then show "\<exists>n'. 2 * length ts \<le> n' \<and>
      parsePrefixExp (parsers_upto k) (us @ ts) = p_suffixes (parsers_upto n') (Identifier n) ts"
    using a(3) t(1) by (intro exI[of _ k]) simp
qed

lemma sym_type: "content t = sym ty \<Longrightarrow> ttype t = ty" "sym ty = content t \<Longrightarrow> ttype t = ty"
  by (simp_all add: content_def sym_def)

lemma parens_prefix_ok:
  assumes "sub_ok e cs lb ub" and "0 < ub"
  shows "prefix_ok (in_parens e) (sym T_LPAREN # cs @ [sym T_RPAREN])"
  unfolding prefix_ok_def
proof (intro allI impI)
  fix us ts n
  assume a: "map content us = sym T_LPAREN # cs @ [sym T_RPAREN]" "eof_ended ts"
    "2 * length (us @ ts) \<le> Suc n"
  then obtain t vs t' where us: "us = t # vs @ [t']" "ttype t = T_LPAREN" "map content vs = cs"
    "ttype t' = T_RPAREN"
    by (auto simp: map_eq_Cons_conv map_eq_append_conv dest!: sym_type)
  have "p_sub (parsers_upto n) 0 (vs @ t' # ts) = Some (Inr (e, t' # ts))"
    using us a assms(2) eof_ended_append[OF a(2), of "[t']"]
    by (intro sub_result[OF assms(1)]) (auto simp: stops_def suffix_starts_def getBinaryPrecedence_def)
  then have "parsePrefixExp (parsers_upto n) (us @ ts) = p_suffixes (parsers_upto n) (in_parens e) ts"
    using us a(2) by (simp add: parsePrefixExp_def p_bind_def p_then_def p_match_def is_tok_def p_consume_def
        parseExpression_def p_advance_def p_return_def eof_ended_not_Nil)
  then show "\<exists>n'. 2 * length ts \<le> n' \<and>
      parsePrefixExp (parsers_upto n) (us @ ts) = p_suffixes (parsers_upto n') (in_parens e) ts"
    using a(3) us(1) by (intro exI[of _ n]) simp
qed

lemma prefix_extend:
  assumes "prefix_ok b cs"
    and "\<And>vs ts n. map content vs = ds \<Longrightarrow> eof_ended ts \<Longrightarrow> 2 * length (vs @ ts) \<le> Suc n \<Longrightarrow>
      p_suffixes (parsers_upto (Suc n)) b (vs @ ts) = p_suffixes (parsers_upto n) e ts"
    and "ds \<noteq> []"
  shows "prefix_ok e (cs @ ds)"
  unfolding prefix_ok_def
proof (intro allI impI)
  fix us ts n
  assume a: "map content us = cs @ ds" "eof_ended ts" "2 * length (us @ ts) \<le> Suc n"
  then obtain us1 vs where us: "us = us1 @ vs" "map content us1 = cs" "map content vs = ds"
    by (auto simp: map_eq_append_conv)
  then obtain k where k: "2 * length (vs @ ts) \<le> k"
    "parsePrefixExp (parsers_upto n) (us1 @ vs @ ts) = p_suffixes (parsers_upto k) b (vs @ ts)"
    using assms(1)[unfolded prefix_ok_def, rule_format, of us1 "vs @ ts" n] a eof_ended_append[of ts vs]
    by auto
  obtain v vs' where "vs = v # vs'" using us(3) assms(3) by (cases vs) auto
  with k(1) obtain k' where "k = Suc k'" "2 * length ts \<le> k'" by (cases k) auto
  with assms(2)[OF us(3) a(2), of k'] k us(1) show "\<exists>n'. 2 * length ts \<le> n' \<and>
      parsePrefixExp (parsers_upto n) (us @ ts) = p_suffixes (parsers_upto n') e ts"
    by (intro exI[of _ k']) simp
qed

lemmas suffix_defs = methods_def suffixes_loop_def p_match_def p_if_def is_tok_def p_bind_def
  p_then_def p_ident_def p_consume_def p_advance_def p_return_def token_text_def

lemma ident_content_simps:
  "content t = ident_content n \<longleftrightarrow> ttype t = T_IDENT \<and> tvalue t = V_text n \<and> traw t = n"
  "ident_content n = content t \<longleftrightarrow> ttype t = T_IDENT \<and> tvalue t = V_text n \<and> traw t = n"
  by (auto simp: content_def ident_content_def)

lemma member_prefix_ok:
  assumes "prefix_ok b cs"
  shows "prefix_ok (MemberExpression b (Identifier n)) (cs @ [sym T_DOT, ident_content n])"
proof (rule prefix_extend[OF assms])
  fix vs ts k
  assume a: "map content vs = [sym T_DOT, ident_content n]" "eof_ended ts"
  then obtain d i where "vs = [d, i]" "ttype d = T_DOT" "ttype i = T_IDENT" "tvalue i = V_text n"
    by (auto simp: map_eq_Cons_conv ident_content_simps dest!: sym_type)
  then show "p_suffixes (parsers_upto (Suc k)) b (vs @ ts) =
      p_suffixes (parsers_upto k) (MemberExpression b (Identifier n)) ts"
    using a(2) by (simp add: suffix_defs eof_ended_not_Nil)
qed simp

lemma stops_closing:
  "ttype t \<in> {T_RPAREN, T_RBRACKET, T_COMMA, T_EOF} \<Longrightarrow> 0 < ub \<Longrightarrow> stops ub (t # ts)"
  by (auto simp: stops_def suffix_starts_def getBinaryPrecedence_def)

lemma closing_prec: "ttype t \<in> {T_RPAREN, T_RBRACKET, T_COMMA, T_EOF} \<Longrightarrow> getBinaryPrecedence (ttype t) = 0"
  by (auto simp: getBinaryPrecedence_def)

lemma expression_before:
  assumes "sub_ok e cs lb ub" and "0 < ub" and "map content us = cs" and "eof_ended (t # ts)"
    and "ttype t \<in> {T_RPAREN, T_RBRACKET, T_COMMA, T_EOF}" and "2 * length (us @ t # ts) \<le> n"
  shows "parseExpression (parsers_upto n) (us @ t # ts) = Some (Inr (e, t # ts))"
  unfolding parseExpression_def
  using assms closing_prec[OF assms(5)]
  by (intro sub_result[OF assms(1)]) (auto intro: stops_closing)

lemma index_prefix_ok:
  assumes "prefix_ok b cs" and "sub_ok i is lb ub" and "0 < ub"
  shows "prefix_ok (IndexExpression b i) (cs @ sym T_LBRACKET # is @ [sym T_RBRACKET])"
proof (rule prefix_extend[OF assms(1)])
  fix vs ts k
  assume a: "map content vs = sym T_LBRACKET # is @ [sym T_RBRACKET]" "eof_ended ts"
    "2 * length (vs @ ts) \<le> Suc k"
  then obtain t us t' where vs: "vs = t # us @ [t']" "ttype t = T_LBRACKET" "map content us = is"
    "ttype t' = T_RBRACKET"
    by (auto simp: map_eq_Cons_conv map_eq_append_conv dest!: sym_type)
  have "parseExpression (parsers_upto k) (us @ t' # ts) = Some (Inr (i, t' # ts))"
    using vs a eof_ended_append[OF a(2), of "[t']"]
    by (intro expression_before[OF assms(2,3)]) auto
  then show "p_suffixes (parsers_upto (Suc k)) b (vs @ ts) =
      p_suffixes (parsers_upto k) (IndexExpression b i) ts"
    using vs a(2) by (simp add: suffix_defs eof_ended_not_Nil)
qed simp

section \<open>Argument lists\<close>

definition item_ok :: "expr \<Rightarrow> bool" where
  "item_ok e \<longleftrightarrow> (\<exists>lb ub. 0 < ub \<and> sub_ok e (toks e 0) lb ub) \<and>
     (\<exists>c cs. toks e 0 = c # cs \<and> fst c \<noteq> T_RPAREN)"

lemma commas_start:
  assumes "\<And>e. e \<in> set es \<Longrightarrow> item_ok e" and "es \<noteq> []"
  shows "\<exists>c cs. commas (map (\<lambda>e. toks e 0) es) = c # cs \<and> fst c \<noteq> T_RPAREN"
proof -
  obtain e es' where es: "es = e # es'" using assms(2) by (cases es) auto
  then obtain c cs where "toks e 0 = c # cs" "fst c \<noteq> T_RPAREN"
    using assms(1)[of e] by (auto simp: item_ok_def)
  then show ?thesis using es by (cases es') auto
qed

lemma item_before:
  assumes "item_ok e" and "map content us = toks e 0" and "eof_ended (t # ts)"
    and "ttype t \<in> {T_RPAREN, T_RBRACKET, T_COMMA, T_EOF}" and "2 * length (us @ t # ts) \<le> n"
  shows "parseExpression (parsers_upto n) (us @ t # ts) = Some (Inr (e, t # ts))"
  using assms expression_before unfolding item_ok_def by blast

lemma items_before:
  assumes "\<And>e. e \<in> set es \<Longrightarrow> item_ok e" and "es \<noteq> []"
    and "map content us = commas (map (\<lambda>e. toks e 0) es)" and "eof_ended ts"
    and "ttype t = T_RPAREN" and "2 * length (us @ t # ts) \<le> n"
  shows "p_bind (parseExpression (parsers_upto n)) (\<lambda>e. p_exprs (parsers_upto n) (acc @ [e]))
    (us @ t # ts) = Some (Inr (acc @ es, t # ts))"
  using assms
proof (induction es arbitrary: us n acc rule: induct_list012)
  case (2 e)
  then obtain k where "n = Suc k" by (cases n) auto
  moreover have "parseExpression (parsers_upto n) (us @ t # ts) = Some (Inr (e, t # ts))"
    using 2 eof_ended_append[of ts "[t]"] by (intro item_before) auto
  ultimately show ?case using 2(5)
    by (simp add: p_bind_def methods_def exprs_loop_def p_match_def is_tok_def p_return_def)
next
  case (3 e e' es)
  then obtain us1 c us2 where us: "us = us1 @ c # us2" "map content us1 = toks e 0" "ttype c = T_COMMA"
    "map content us2 = commas (map (\<lambda>e. toks e 0) (e' # es))"
    by (auto simp: map_eq_append_conv map_eq_Cons_conv dest!: sym_type)
  obtain k where k: "n = Suc k" using 3(8) by (cases n) auto
  have "parseExpression (parsers_upto n) (us1 @ c # us2 @ t # ts) = Some (Inr (e, c # us2 @ t # ts))"
    using 3 us eof_ended_append[of ts "c # us2 @ [t]"] by (intro item_before) auto
  moreover have "p_bind (parseExpression (parsers_upto k)) (\<lambda>x. p_exprs (parsers_upto k) ((acc @ [e]) @ [x]))
      (us2 @ t # ts) = Some (Inr ((acc @ [e]) @ e' # es, t # ts))"
    using 3(3,4,6,7,8) us k by (intro 3(2)) auto
  ultimately show ?case using us k
    by (simp add: p_bind_def methods_def exprs_loop_def p_match_def is_tok_def)
qed simp

lemma call_args_result:
  assumes "\<And>e. e \<in> set es \<Longrightarrow> item_ok e"
    and "map content us = sym T_LPAREN # commas (map (\<lambda>e. toks e 0) es) @ [sym T_RPAREN]"
    and "eof_ended ts" and "2 * length (us @ ts) \<le> Suc n"
  shows "parseCallArgs (parsers_upto n) (us @ ts) = Some (Inr (es, ts))"
proof -
  from assms(2) obtain l vs r where us: "us = l # vs @ [r]" "ttype l = T_LPAREN" "ttype r = T_RPAREN"
    "map content vs = commas (map (\<lambda>e. toks e 0) es)"
    by (auto simp: map_eq_Cons_conv map_eq_append_conv dest!: sym_type)
  show ?thesis
  proof (cases "es = []")
    case True
    with us assms(3) show ?thesis
      by (simp add: parseCallArgs_def p_match_def p_if_def is_tok_def p_bind_def p_then_def p_consume_def
          p_return_def p_advance_def eof_ended_not_Nil)
  next
    case False
    then obtain c cs where "map content vs = c # cs" "fst c \<noteq> T_RPAREN"
      using us(4) commas_start[OF assms(1)] by metis
    then obtain x vs' where v: "vs = x # vs'" "ttype x \<noteq> T_RPAREN"
      by (auto simp: content_def)
    have "p_expr_list (parsers_upto n) (vs @ r # ts) = Some (Inr (es, r # ts))"
      using items_before[OF assms(1) False us(4) assms(3) us(3), of n "[]"] assms(4) us(1)
      by (simp add: p_expr_list_def)
    with v us assms(3) show ?thesis
      by (simp add: parseCallArgs_def p_match_def p_if_def is_tok_def p_bind_def p_then_def p_consume_def
          p_return_def p_advance_def eof_ended_not_Nil)
  qed
qed

lemma call_prefix_ok:
  assumes "prefix_ok b cs" and "\<And>a. a \<in> set args \<Longrightarrow> item_ok a"
  shows "prefix_ok (CallExpression b args)
    (cs @ sym T_LPAREN # commas (map (\<lambda>a. toks a 0) args) @ [sym T_RPAREN])"
proof (rule prefix_extend[OF assms(1)])
  fix vs ts k
  assume a: "map content vs = sym T_LPAREN # commas (map (\<lambda>a. toks a 0) args) @ [sym T_RPAREN]"
    "eof_ended ts" "2 * length (vs @ ts) \<le> Suc k"
  then obtain t vs' where t: "vs = t # vs'" "ttype t = T_LPAREN"
    by (auto simp: map_eq_Cons_conv dest!: sym_type)
  show "p_suffixes (parsers_upto (Suc k)) b (vs @ ts) =
      p_suffixes (parsers_upto k) (CallExpression b args) ts"
    using call_args_result[OF assms(2) a] t by (simp add: suffix_defs)
qed simp

lemma method_prefix_ok:
  assumes "prefix_ok b cs" and "\<And>a. a \<in> set args \<Longrightarrow> item_ok a"
  shows "prefix_ok (MethodCallExpression b (Identifier n) args)
    (cs @ sym T_COLON # ident_content n # sym T_LPAREN #
       commas (map (\<lambda>a. toks a 0) args) @ [sym T_RPAREN])"
proof (rule prefix_extend[OF assms(1)])
  fix vs ts k
  assume a: "map content vs = sym T_COLON # ident_content n # sym T_LPAREN #
      commas (map (\<lambda>a. toks a 0) args) @ [sym T_RPAREN]"
    "eof_ended ts" "2 * length (vs @ ts) \<le> Suc k"
  obtain c i us where vs: "vs = c # i # us" using a(1) by (cases vs; cases "tl vs") auto
  with a(1) have "content c = sym T_COLON" "content i = ident_content n"
    and us: "map content us = sym T_LPAREN # commas (map (\<lambda>a. toks a 0) args) @ [sym T_RPAREN]"
    by simp_all
  with vs have v: "vs = c # i # us" "ttype c = T_COLON" "ttype i = T_IDENT" "tvalue i = V_text n" "us \<noteq> []"
    by (auto simp: ident_content_simps dest: sym_type)
  have "parseCallArgs (parsers_upto k) (us @ ts) = Some (Inr (args, ts))"
    using a(3) v(1) by (intro call_args_result[OF assms(2) us a(2)]) simp_all
  then show "p_suffixes (parsers_upto (Suc k)) b (vs @ ts) =
      p_suffixes (parsers_upto k) (MethodCallExpression b (Identifier n) args) ts"
    using v a(2) by (simp add: suffix_defs)
qed simp

section \<open>Operators\<close>

lemma unary_sub_ok:
  assumes "sub_ok a cs lb ub" and "7 \<le> lb" and "7 \<le> ub" and "op \<in> {''not'', ''#'', ''-''}"
  shows "sub_ok (UnaryExpression op a) (unop_content op # cs) lb' 7"
proof (rule sub_okI)
  fix us ts n
  assume h: "map content us = unop_content op # cs" "eof_ended ts" "stops 7 ts"
    "2 * length (us @ ts) \<le> Suc n"
  then obtain t vs where us: "us = t # vs" "content t = unop_content op" "map content vs = cs" by auto
  have ty: "ttype t = (if op = ''not'' then T_NOT else if op = ''#'' then T_HASH else T_MINUS)"
    using us(2) by (auto simp: unop_content_def content_def sym_def)
  have "p_sub (parsers_upto n) 7 (vs @ ts) = Some (Inr (a, ts))"
    using h us assms(2,3) by (intro sub_result[OF assms(1)]) (auto intro: stops_weaken simp: stops_def)
  then show "parseSimpleExpression (parsers_upto n) (us @ ts) = Some (Inr (UnaryExpression op a, ts))"
    using us ty assms(4) h(2)
    by (auto simp: parseSimpleExpression_def p_match_def is_tok_def p_bind_def p_return_def eof_ended_not_Nil)
qed simp

definition op_prec :: "string \<Rightarrow> nat" where
  "op_prec op = getBinaryPrecedence (fst (binop_content op))"

definition next_min :: "string \<Rightarrow> nat" where
  "next_min op = (if right_assoc op then op_prec op else op_prec op + 1)"

lemma operators_table:
  "\<forall>op \<in> set (map fst operator_tokens @ [''and'', ''or'']).
     binop_content op = (fst (binop_content op), V_text (units op), units op) \<and>
     isRightAssociative (fst (binop_content op)) = right_assoc op \<and>
     fst (binop_content op) \<notin> suffix_starts \<and> 0 < op_prec op \<and>
     (fst (binop_content op) \<in> {T_AND, T_OR} \<longleftrightarrow> op \<in> {''and'', ''or''})"
  by code_simp

text \<open>The node the operator loop builds.\<close>

definition infix_node :: "string \<Rightarrow> expr \<Rightarrow> expr \<Rightarrow> expr" where
  "infix_node op l r =
     (if op \<in> {''and'', ''or''} then LogicalExpression op l r else BinaryExpression op l r)"

definition infix_op :: "string \<Rightarrow> bool" where
  "infix_op op \<longleftrightarrow> op \<in> set (map fst operator_tokens @ [''and'', ''or''])"

lemma token_op_units: "tvalue t = V_text (units op) \<Longrightarrow> token_op t = op"
  by (simp add: token_op_def token_text_def units_def comp_def)

lemma op_token:
  assumes "infix_op op" and "content t = binop_content op"
  shows "getBinaryPrecedence (ttype t) = op_prec op" and "0 < op_prec op" and "token_op t = op"
    and "isRightAssociative (ttype t) = right_assoc op" and "ttype t \<notin> suffix_starts"
    and "ttype t = T_AND \<or> ttype t = T_OR \<longleftrightarrow> op \<in> {''and'', ''or''}"
proof -
  from assms(1) operators_table have T: "binop_content op = (fst (binop_content op), V_text (units op), units op)"
    "isRightAssociative (fst (binop_content op)) = right_assoc op"
    "fst (binop_content op) \<notin> suffix_starts" "0 < op_prec op"
    "fst (binop_content op) \<in> {T_AND, T_OR} \<longleftrightarrow> op \<in> {''and'', ''or''}"
    unfolding infix_op_def by blast+
  have ty: "ttype t = fst (binop_content op)" using assms(2) by (metis content_def fst_conv)
  have "tvalue t = V_text (units op)" using assms(2) T(1) by (metis content_def fst_conv snd_conv)
  then show "token_op t = op" by (rule token_op_units)
  show "getBinaryPrecedence (ttype t) = op_prec op" by (simp add: op_prec_def ty)
  show "0 < op_prec op" "isRightAssociative (ttype t) = right_assoc op" "ttype t \<notin> suffix_starts"
    using T ty by simp_all
  show "ttype t = T_AND \<or> ttype t = T_OR \<longleftrightarrow> op \<in> {''and'', ''or''}" using T(5) ty by simp
qed

text \<open>One round of the operator loop.\<close>

lemma ops_take:
  assumes "\<not> (q = 0 \<or> q < m)" and "getBinaryPrecedence (ttype t) = q" and "ts' \<noteq> []"
    and "p_sub (parsers_upto k) (if isRightAssociative (ttype t) then q else q + 1) ts' = Some (Inr (r, ts))"
  shows "p_ops (parsers_upto (Suc k)) m l (t # ts') =
    p_ops (parsers_upto k) m
      (if ttype t = T_AND \<or> ttype t = T_OR then LogicalExpression (token_op t) l r
       else BinaryExpression (token_op t) l r) ts"
  using assms by (simp only: parsers_upto.simps methods_def parsers.simps ops_loop_def Let_def peek_head
      if_False p_bind_def p_advance_def adv_Cons option.case sum.case prod.case not_False_eq_True)

lemma infix_sub_ok:
  assumes l: "sub_ok l cl lbl ubl" and r: "sub_ok r cr lbr ubr" and op: "infix_op op"
    and "op_prec op \<le> lbl" and "op_prec op < ubl" and "next_min op \<le> lbr" and "next_min op \<le> ubr"
  shows "sub_ok (infix_node op l r) (cl @ binop_content op # cr) (op_prec op) (next_min op)"
  unfolding sub_ok_def
proof (intro allI impI)
  fix us ts n m
  assume a: "map content us = cl @ binop_content op # cr" "eof_ended ts" "stops (next_min op) ts"
    "m \<le> op_prec op" "2 * length (us @ ts) \<le> n"
  then obtain us1 t us2 where us: "us = us1 @ t # us2" "map content us1 = cl"
    "content t = binop_content op" "map content us2 = cr"
    by (auto simp: map_eq_append_conv map_eq_Cons_conv)
  note T = op_token[OF op us(3)]
  have eof: "eof_ended (t # us2 @ ts)" "eof_ended (us2 @ ts)"
    using eof_ended_append[OF a(2), of "t # us2"] eof_ended_append[OF a(2), of us2] by simp_all
  have "stops ubl (t # us2 @ ts)" using T(1,5) assms(5) by (simp add: stops_def)
  then obtain k where k: "2 * length (t # us2 @ ts) \<le> k"
    "p_sub (parsers_upto n) m (us1 @ t # us2 @ ts) = p_ops (parsers_upto k) m l (t # us2 @ ts)"
    using l[unfolded sub_ok_def, rule_format, OF us(2) eof(1), of m n] a(4,5) assms(4) us(1) by auto
  obtain k' where k': "k = Suc k'" "2 * length (us2 @ ts) \<le> k'" using k(1) by (cases k) auto
  have nm: "next_min op = (if isRightAssociative (ttype t) then op_prec op else op_prec op + 1)"
    by (simp add: next_min_def T(4))
  have "p_sub (parsers_upto k') (next_min op) (us2 @ ts) = Some (Inr (r, ts))"
    using a assms(6,7) k'(2) us(4)
    by (intro sub_result[OF r]) (auto intro: stops_weaken simp: stops_def)
  moreover have "\<not> (op_prec op = 0 \<or> op_prec op < m)" using T(2) a(4) by simp
  ultimately have "p_ops (parsers_upto k) m l (t # us2 @ ts) = p_ops (parsers_upto k') m (infix_node op l r) ts"
    using ops_take[of "op_prec op" m t "us2 @ ts" k' r ts l] eof_ended_not_Nil[OF eof(2)] T(1,3,6) nm k'(1)
    by (simp only: infix_node_def if_True if_False) simp
  with k k'(2) us(1) show "\<exists>n'. 2 * length ts \<le> n' \<and>
      p_sub (parsers_upto n) m (us @ ts) = p_ops (parsers_upto n') m (infix_node op l r) ts"
    by (intro exI[of _ k']) simp
qed

section \<open>Printed operands bind as the printer intends\<close>

text \<open>How loosely an expression printed at a precedence may be asked for, and which operators
  its right edge lets pass.\<close>

definition low :: "expr \<Rightarrow> nat \<Rightarrow> nat" where
  "low e pp = (case e of
     BinaryExpression op l r \<Rightarrow> if getPrecedence e < pp then 99 else op_prec op
   | LogicalExpression op l r \<Rightarrow> if getPrecedence e < pp then 99 else op_prec op
   | _ \<Rightarrow> 99)"

definition edge :: "expr \<Rightarrow> nat \<Rightarrow> nat" where
  "edge e pp = (case e of
     BinaryExpression op l r \<Rightarrow> if getPrecedence e < pp then 99 else next_min op
   | LogicalExpression op l r \<Rightarrow> if getPrecedence e < pp then 99 else next_min op
   | UnaryExpression op a \<Rightarrow> if 70 < pp then 99 else 7
   | _ \<Rightarrow> 99)"

lemma binary_levels:
  "\<forall>op \<in> set (map fst operator_tokens). \<forall>l r.
     getPrecedence (BinaryExpression op l r) = 10 * op_prec op \<and> op_prec op \<in> {3, 4, 5, 6, 8} \<and>
     (right_assoc op \<longleftrightarrow> op_prec op \<in> {4, 8})"
  by (simp add: operator_tokens_def getPrecedence_def op_prec_def binop_content_def sym_def
      getBinaryPrecedence_def right_assoc_def)

lemma logical_levels:
  assumes "op \<in> {''and'', ''or''}"
  shows "getPrecedence (LogicalExpression op l r) = 10 * op_prec op \<and> op_prec op \<in> {1, 2} \<and> \<not> right_assoc op"
  using assms by (auto simp: getPrecedence_def op_prec_def binop_content_def getBinaryPrecedence_def
      right_assoc_def)

text \<open>Every printable expression with the level of its operator, if it has one.\<close>

definition level :: "expr \<Rightarrow> nat" where
  "level e = (case e of BinaryExpression op l r \<Rightarrow> op_prec op | LogicalExpression op l r \<Rightarrow> op_prec op
     | UnaryExpression op a \<Rightarrow> 7 | _ \<Rightarrow> 99)"

lemma low_edge_cases:
  assumes "printable e"
  shows "10 * level e < pp \<and> low e pp = 99 \<and> edge e pp = 99 \<or>
    pp \<le> 10 * level e \<and> level e \<in> {1, 2, 3, 4, 5, 6, 8} \<and> low e pp = level e \<and>
      edge e pp = (if level e \<in> {4, 8} then level e else level e + 1) \<or>
    pp \<le> 70 \<and> level e = 7 \<and> low e pp = 99 \<and> edge e pp = 7 \<or>
    level e = 99 \<and> low e pp = 99 \<and> edge e pp = 99"
proof (cases e)
  case (BinaryExpression op l r)
  with assms binary_levels have "getPrecedence e = 10 * op_prec op" "op_prec op \<in> {3, 4, 5, 6, 8}"
    "right_assoc op \<longleftrightarrow> op_prec op \<in> {4, 8}" by auto
  with BinaryExpression show ?thesis by (auto simp: low_def edge_def level_def next_min_def)
next
  case (LogicalExpression op l r)
  with assms logical_levels[of op l r] have "getPrecedence e = 10 * op_prec op" "op_prec op \<in> {1, 2}"
    "\<not> right_assoc op" by auto
  with LogicalExpression show ?thesis by (auto simp: low_def edge_def level_def next_min_def)
qed (auto simp: low_def edge_def level_def)

lemma operand_levels:
  assumes "printable e" and "c \<in> {1, 2, 3, 4, 5, 6, 8}" and "ra = (c \<in> {4, 8})"
  shows "c \<le> low e (if ra then 10 * c + 1 else 10 * c)" "c < edge e (if ra then 10 * c + 1 else 10 * c)"
    and "(if ra then c else c + 1) \<le> low e (if ra then 10 * c else 10 * c + 1)"
    and "(if ra then c else c + 1) \<le> edge e (if ra then 10 * c else 10 * c + 1)"
    and "7 \<le> low e 70" and "7 \<le> edge e 70"
proof -
  note L = low_edge_cases[OF assms(1), of "if ra then 10 * c + 1 else 10 * c"]
  note R = low_edge_cases[OF assms(1), of "if ra then 10 * c else 10 * c + 1"]
  note U = low_edge_cases[OF assms(1), of 70]
  have c: "c \<le> 8" "ra \<longleftrightarrow> c = 4 \<or> c = 8" "c \<noteq> 7" using assms(2,3) by auto
  show "c \<le> low e (if ra then 10 * c + 1 else 10 * c)" using L c(1) by (auto split: if_splits)
  show "c < edge e (if ra then 10 * c + 1 else 10 * c)" using L c by (auto split: if_splits)
  show "(if ra then c else c + 1) \<le> low e (if ra then 10 * c else 10 * c + 1)"
    using R c(1) by (auto split: if_splits)
  show "(if ra then c else c + 1) \<le> edge e (if ra then 10 * c else 10 * c + 1)"
    using R c by (auto split: if_splits)
  show "7 \<le> low e 70" "7 \<le> edge e 70" using U by auto
qed

section \<open>The round trip\<close>

lemma toks_start:
  "printable e \<Longrightarrow> \<exists>c cs. toks e pp = c # cs \<and> fst c \<noteq> T_RPAREN \<and>
    (base_ok e \<and> pp = 990 \<longrightarrow> fst c \<in> {T_IDENT, T_LPAREN})"
proof (induction e arbitrary: pp rule: printable.induct)
  case (7 op a)
  then show ?case by (auto simp: wrap_toks_def sym_def unop_content_def)
next
  case (8 op l r)
  let ?cur = "getPrecedence (BinaryExpression op l r)"
  obtain c cs where "toks l (left_prec op ?cur) = c # cs" "fst c \<noteq> T_RPAREN"
    using 8(1)[of "left_prec op ?cur"] 8(3) by auto
  then show ?case using getPrecedence_less(1)[of op l r]
    by (cases c) (auto simp: wrap_toks_def sym_def Let_def)
next
  case (9 op l r)
  let ?cur = "getPrecedence (LogicalExpression op l r)"
  obtain c cs where "toks l (left_prec op ?cur) = c # cs" "fst c \<noteq> T_RPAREN"
    using 9(1)[of "left_prec op ?cur"] 9(3) by auto
  then show ?case using getPrecedence_less(2)[of op l r]
    by (cases c) (auto simp: wrap_toks_def sym_def Let_def)
next
  case (10 b args)
  have "\<exists>c cs. toks b 990 = c # cs \<and> fst c \<in> {T_IDENT, T_LPAREN}"
    using 10(1)[of 990] 10(3) by auto
  then show ?case by auto
next
  case (11 b m args)
  have "\<exists>c cs. toks b 990 = c # cs \<and> fst c \<in> {T_IDENT, T_LPAREN}"
    using 11(1)[of 990] 11(3) by auto
  then show ?case by auto
next
  case (12 b p)
  have "\<exists>c cs. toks b 990 = c # cs \<and> fst c \<in> {T_IDENT, T_LPAREN}"
    using 12(1)[of 990] 12(2) by auto
  then show ?case by auto
next
  case (13 b i)
  have "\<exists>c cs. toks b 990 = c # cs \<and> fst c \<in> {T_IDENT, T_LPAREN}"
    using 13(1)[of 990] 13(3) by auto
  then show ?case by auto
qed (auto simp: ident_content_def sym_def)

text \<open>Parenthesised, an operator expression can stand anywhere.\<close>

lemma wrapped_ok:
  assumes "sub_ok e cs lb ub" and "0 < ub" and "in_parens e = e"
  shows "prefix_ok e (sym T_LPAREN # cs @ [sym T_RPAREN])"
    and "sub_ok e (sym T_LPAREN # cs @ [sym T_RPAREN]) lb' ub'"
proof -
  show p: "prefix_ok e (sym T_LPAREN # cs @ [sym T_RPAREN])"
    using parens_prefix_ok[OF assms(1,2)] assms(3) by simp
  show "sub_ok e (sym T_LPAREN # cs @ [sym T_RPAREN]) lb' ub'"
    by (rule prefix_sub_ok[OF p]) (simp add: sym_def)
qed

lemma infix_ok:
  assumes l: "\<And>pp. pp \<le> 990 \<Longrightarrow> sub_ok l (toks l pp) (low l pp) (edge l pp)"
    and r: "\<And>pp. pp \<le> 990 \<Longrightarrow> sub_ok r (toks r pp) (low r pp) (edge r pp)"
    and p: "printable l" "printable r" and op: "infix_op op"
    and c: "op_prec op \<in> {1, 2, 3, 4, 5, 6, 8}" "right_assoc op \<longleftrightarrow> op_prec op \<in> {4, 8}"
  shows "sub_ok (infix_node op l r)
    (toks l (left_prec op (10 * op_prec op)) @ binop_content op # toks r (right_prec op (10 * op_prec op)))
    (op_prec op) (next_min op)"
proof (rule infix_sub_ok[OF l r op])
  show "left_prec op (10 * op_prec op) \<le> 990" "right_prec op (10 * op_prec op) \<le> 990"
    using c(1) by (auto simp: left_prec_def right_prec_def)
  show "op_prec op \<le> low l (left_prec op (10 * op_prec op))"
    "op_prec op < edge l (left_prec op (10 * op_prec op))"
    using operand_levels(1,2)[OF p(1) c] by (simp_all add: left_prec_def)
  show "next_min op \<le> low r (right_prec op (10 * op_prec op))"
    "next_min op \<le> edge r (right_prec op (10 * op_prec op))"
    using operand_levels(3,4)[OF p(2) c] by (simp_all add: right_prec_def next_min_def)
qed

lemma printed_expression_parses:
  "printable e \<Longrightarrow>
    (pp \<le> 990 \<longrightarrow> sub_ok e (toks e pp) (low e pp) (edge e pp)) \<and>
    (base_ok e \<longrightarrow> prefix_ok e (toks e 990))"
proof (induction e arbitrary: pp rule: printable.induct)
  case (1 n)
  then show ?case using name_prefix_ok[of n] prefix_sub_ok[OF name_prefix_ok]
    by (simp add: ident_content_def)
next
  case (2 v raw)
  then have "raw \<noteq> []" by (simp add: numeral_text_def)
  then show ?case
    by (auto intro!: literal_sub_ok simp: content_simps token_num_def numericLiteral_def)
next
  case (3 b raw)
  then show ?case
    by (auto intro!: literal_sub_ok simp: content_simps token_bytes_def stringLiteral_def toLuaLiteral_def)
next
  case (4 b)
  then show ?case by (auto intro!: literal_sub_ok simp: content_simps token_bool_def)
next
  case 5
  then show ?case by (auto intro!: literal_sub_ok simp: content_simps)
next
  case (6 b)
  have dots: "sub_ok (VarargLiteral False) [sym T_DOT_DOT_DOT] 99 99"
    by (rule literal_sub_ok) (simp add: sym_type)
  from parens_prefix_ok[OF this] have p: "prefix_ok (VarargLiteral True)
      [sym T_LPAREN, sym T_DOT_DOT_DOT, sym T_RPAREN]" by simp
  from dots prefix_sub_ok[OF p] p show ?case by (simp add: low_def edge_def sym_def)
next
  case (7 op a)
  then have "sub_ok a (toks a 70) (low a 70) (edge a 70)" by auto
  then have u: "sub_ok (UnaryExpression op a) (unop_content op # toks a 70) lb 7" for lb
    by (rule unary_sub_ok) (use 7 operand_levels(5,6)[of a 1 False] in simp_all)
  from wrapped_ok[OF u] u show ?case by (auto simp: wrap_toks_def low_def edge_def)
next
  case (8 op l r)
  then have op: "infix_op op" "op \<notin> {''and'', ''or''}"
    by (auto simp: infix_op_def operator_tokens_def)
  have lv: "getPrecedence (BinaryExpression op l r) = 10 * op_prec op" "op_prec op \<in> {3, 4, 5, 6, 8}"
    "right_assoc op \<longleftrightarrow> op_prec op \<in> {4, 8}" using 8(3) binary_levels by auto
  have u: "sub_ok (BinaryExpression op l r)
    (toks l (left_prec op (10 * op_prec op)) @ binop_content op # toks r (right_prec op (10 * op_prec op)))
    (op_prec op) (next_min op)"
    using infix_ok[of l r op] 8 op lv by (auto simp: infix_node_def)
  have "0 < next_min op" using lv(2) by (auto simp: next_min_def)
  from wrapped_ok[OF u this] u lv show ?case
    by (auto simp: wrap_toks_def low_def edge_def Let_def)
next
  case (9 op l r)
  then have op: "infix_op op" by (auto simp: infix_op_def)
  have lv: "getPrecedence (LogicalExpression op l r) = 10 * op_prec op" "op_prec op \<in> {1, 2}"
    "\<not> right_assoc op" using 9(3) logical_levels[of op l r] by auto
  have u: "sub_ok (LogicalExpression op l r)
    (toks l (left_prec op (10 * op_prec op)) @ binop_content op # toks r (right_prec op (10 * op_prec op)))
    (op_prec op) (next_min op)"
    using infix_ok[of l r op] 9 op lv by (auto simp: infix_node_def)
  have "0 < next_min op" using lv(2) by (auto simp: next_min_def)
  from wrapped_ok[OF u this] u lv show ?case
    by (auto simp: wrap_toks_def low_def edge_def Let_def)
next
  case (10 b args)
  have "item_ok a" if "a \<in> set args" for a
  proof -
    have "sub_ok a (toks a 0) (low a 0) (edge a 0)" "0 < edge a 0"
      using 10(2)[OF that, of 0] 10(3) that low_edge_cases[of a 0] by (auto split: if_splits)
    with toks_start[of a 0] 10(3) that show ?thesis unfolding item_ok_def by auto
  qed
  then have p: "prefix_ok (CallExpression b args) (toks (CallExpression b args) pp)" for pp
    using 10 call_prefix_ok[of b "toks b 990" args] by simp
  moreover obtain c cs where "toks (CallExpression b args) pp = c # cs" "fst c \<in> {T_IDENT, T_LPAREN}"
    using toks_start[OF 10(3), of 990] by auto
  ultimately show ?case using prefix_sub_ok[of "CallExpression b args" c cs] p[of pp] p[of 990] by simp
next
  case (11 b m args)
  have "item_ok a" if "a \<in> set args" for a
  proof -
    have "sub_ok a (toks a 0) (low a 0) (edge a 0)" "0 < edge a 0"
      using 11(2)[OF that, of 0] 11(3) that low_edge_cases[of a 0] by (auto split: if_splits)
    with toks_start[of a 0] 11(3) that show ?thesis unfolding item_ok_def by auto
  qed
  moreover obtain n where "m = Identifier n" "name_text m = n"
    using 11(3) plain_identifier_name by force
  ultimately have p: "prefix_ok (MethodCallExpression b m args) (toks (MethodCallExpression b m args) pp)" for pp
    using 11 method_prefix_ok[of b "toks b 990" args n] by simp
  moreover obtain c cs where "toks (MethodCallExpression b m args) pp = c # cs"
    "fst c \<in> {T_IDENT, T_LPAREN}"
    using toks_start[OF 11(3), of 990] by auto
  ultimately show ?case
    using prefix_sub_ok[of "MethodCallExpression b m args" c cs] p[of pp] p[of 990] by simp
next
  case (12 b p)
  then obtain n where "p = Identifier n" "name_text p = n" using plain_identifier_name by force
  then have p: "prefix_ok (MemberExpression b p) (toks (MemberExpression b p) pp)" for pp
    using 12 member_prefix_ok[of b "toks b 990" n] by simp
  moreover obtain c cs where "toks (MemberExpression b p) pp = c # cs" "fst c \<in> {T_IDENT, T_LPAREN}"
    using toks_start[OF 12(2), of 990] by auto
  ultimately show ?case using prefix_sub_ok[of "MemberExpression b p" c cs] p[of pp] p[of 990] by simp
next
  case (13 b i)
  have "sub_ok i (toks i 0) (low i 0) (edge i 0)" "0 < edge i 0"
    using 13(2)[of 0] 13(3) low_edge_cases[of i 0] by (auto split: if_splits)
  then have p: "prefix_ok (IndexExpression b i) (toks (IndexExpression b i) pp)" for pp
    using 13 index_prefix_ok[of b "toks b 990" i "toks i 0" "low i 0" "edge i 0"] by simp
  moreover obtain c cs where "toks (IndexExpression b i) pp = c # cs" "fst c \<in> {T_IDENT, T_LPAREN}"
    using toks_start[OF 13(3), of 990] by auto
  ultimately show ?case using prefix_sub_ok[of "IndexExpression b i" c cs] p[of pp] p[of 990] by simp
qed simp_all

lemma printed_expression_reads_back:
  assumes "printable e"
  shows "\<exists>ts t. tokenize (exprToString ind lvl e 0) = Inr ts \<and> ttype t = T_EOF \<and>
    (\<forall>n \<ge> enough_fuel ts. parseExpression (parsers_upto n) ts = Some (Inr (e, [t])))"
proof -
  from printed_expression_tokens[OF assms] obtain us t where
    tk: "tokenize (exprToString ind lvl e 0) = Inr (us @ [t])" "map content us = toks e 0"
    "ttype t = T_EOF" by blast
  have s: "sub_ok e (toks e 0) (low e 0) (edge e 0)"
    using printed_expression_parses[OF assms, of 0] by simp
  have "0 < edge e 0" using low_edge_cases[OF assms, of 0] by (auto split: if_splits)
  then have "parseExpression (parsers_upto n) (us @ [t]) = Some (Inr (e, [t]))"
    if "enough_fuel (us @ [t]) \<le> n" for n
    using that tk by (intro expression_before[OF s]) (auto simp: eof_ended_def enough_fuel_def)
  with tk show ?thesis by blast
qed

text \<open>C3. The printer and the parser agree on operators: for every expression built from names,
  decimal integers, strings, constants, operators, calls, members and indices in which no minus
  is applied to a minus, no base is a bare literal and no zero byte precedes a digit, scanning
  the printed text and parsing the tokens gives the expression back, up to the EOF token.\<close>

theorem printed_expression_roundtrip:
  assumes "printable e"
  shows "\<exists>ts t. tokenize (exprToString ind lvl e 0) = Inr ts \<and> ttype t = T_EOF \<and>
    (\<forall>n \<ge> enough_fuel ts. parseExpression (parsers_upto n) ts = Some (Inr (e, [t])))"
  by (rule printed_expression_reads_back[OF assms])

theorem printed_expression_roundtrip_witness:
  "\<exists>ts t. tokenize (exprToString [32, 32] 0
       (BinaryExpression ''^'' (UnaryExpression ''-'' (Identifier (units ''x''))) (Identifier (units ''y''))) 0)
     = Inr ts \<and> ttype t = T_EOF \<and>
    parseExpression (parsers_upto (enough_fuel ts)) ts = Some (Inr
       (BinaryExpression ''^'' (UnaryExpression ''-'' (Identifier (units ''x''))) (Identifier (units ''y'')), [t]))"
proof -
  have "plain_word (units ''x'') \<and> plain_word (units ''y'')" by code_simp
  then have "printable (BinaryExpression ''^'' (UnaryExpression ''-'' (Identifier (units ''x'')))
      (Identifier (units ''y'')))"
    by (simp add: operator_tokens_def del: units_simps)
  from printed_expression_roundtrip[OF this, of "[32, 32]" 0] show ?thesis by blast
qed

end
