(* ===== verification/Front_Findings.thy ===== *)
theory Front_Findings
  imports Print_Parse
begin

text \<open>
  Where the front end does not do what it means to: statements the parser accepts or rewrites
  wrongly, and trees whose printed text is another program.
\<close>

lemma parse_source_run:
  assumes "tokenize src = Inr ts" and "parseChunk n ts = Some (Inr (c, ts'))" and "eof_ended ts"
  shows "parse_source src = Some (Inr c)"
  using parse_tokens_run[OF assms(2,3)] unfolding parse_source_def assms(1) by simp

text \<open>The operator of a multiple assignment is not checked: \<open>a, b then c\<close> is accepted as an
  assignment, with the keyword as a binary operator.\<close>

theorem malformed_assignment_accepted:
  "parse_source (units ''a, b then c'') = Some (Inr
     [AssignmentStatement [Identifier (units ''a''), Identifier (units ''b'')]
        [BinaryExpression ''THEN'' (Identifier (units ''a'')) (Identifier (units ''c''))]])"
proof -
  let ?ts = "[Token T_IDENT (V_text [97]) 1 1 0 [97], Token T_COMMA (V_text [44]) 1 2 1 [44],
     Token T_IDENT (V_text [98]) 1 4 3 [98], Token T_THEN (V_text (units ''then'')) 1 6 5 (units ''then''),
     Token T_IDENT (V_text [99]) 1 11 10 [99], Token T_EOF V_null 1 12 11 []]"
  have tk: "tokenize (units ''a, b then c'') = Inr ?ts" by code_simp
  have t: "remove1 CHR ''='' (type_text T_THEN) = ''THEN''" by code_simp
  have "parseChunk (Suc (Suc (Suc (Suc (Suc 0))))) ?ts = Some (Inr
      ([AssignmentStatement [Identifier [97], Identifier [98]]
        [BinaryExpression ''THEN'' (Identifier [97]) (Identifier [99])]], [Token T_EOF V_null 1 12 11 []]))"
    by (simp add: parser_run t del: parsers_upto.simps)
  from parse_source_run[OF tk this] show ?thesis by (simp add: eof_ended_def)
qed

text \<open>A compound assignment is rewritten to an assignment that evaluates its target twice: in
  \<open>f().x += y\<close> the call appears in the target and again in the value.\<close>

theorem compound_assignment_repeats_target:
  "parse_source (units ''f().x += y'') = Some (Inr
     (let target = MemberExpression (CallExpression (Identifier (units ''f'')) []) (Identifier (units ''x''))
      in [AssignmentStatement [target] [BinaryExpression ''+'' target (Identifier (units ''y''))]]))"
proof -
  let ?ts = "[Token T_IDENT (V_text [102]) 1 1 0 [102], Token T_LPAREN (V_text [40]) 1 2 1 [40],
     Token T_RPAREN (V_text [41]) 1 3 2 [41], Token T_DOT (V_text [46]) 1 4 3 [46],
     Token T_IDENT (V_text [120]) 1 5 4 [120], Token T_PLUS_EQ (V_text [43, 61]) 1 7 6 [43, 61],
     Token T_IDENT (V_text [121]) 1 10 9 [121], Token T_EOF V_null 1 11 10 []]"
  let ?t = "MemberExpression (CallExpression (Identifier [102]) []) (Identifier [120])"
  have tk: "tokenize (units ''f().x += y'') = Inr ?ts" by code_simp
  have t: "remove1 CHR ''='' (type_text T_PLUS_EQ) = ''+''" by code_simp
  have "parseChunk (Suc (Suc (Suc (Suc (Suc 0))))) ?ts = Some (Inr
      ([AssignmentStatement [?t] [BinaryExpression ''+'' ?t (Identifier [121])]],
       [Token T_EOF V_null 1 11 10 []]))"
    by (simp add: parser_run t del: parsers_upto.simps)
  from parse_source_run[OF tk this] show ?thesis by (simp add: eof_ended_def Let_def)
qed

text \<open>A minus applied to a minus is printed without a separator, so its text starts a comment: the
  program \<open>return - -x\<close> is printed as \<open>return --x\<close>, which is parsed as a return of nothing.\<close>

theorem double_minus_prints_comment:
  "\<exists>c. parse_source (units ''return - -x'') = Some (Inr c) \<and>
       generate c = units ''return --x'' @ [10] \<and>
       parse_source (generate c) = Some (Inr [ReturnStatement []])"
proof (intro exI conjI)
  let ?c = "[ReturnStatement [UnaryExpression ''-'' (UnaryExpression ''-'' (Identifier [120]))]]"
  let ?ts = "[Token T_RETURN (V_text (units ''return'')) 1 1 0 (units ''return''),
     Token T_MINUS (V_text [45]) 1 8 7 [45], Token T_MINUS (V_text [45]) 1 10 9 [45],
     Token T_IDENT (V_text [120]) 1 11 10 [120], Token T_EOF V_null 1 12 11 []]"
  have tk: "tokenize (units ''return - -x'') = Inr ?ts" by code_simp
  have "parseChunk (Suc (Suc (Suc (Suc (Suc 0))))) ?ts = Some (Inr (?c, [Token T_EOF V_null 1 12 11 []]))"
    by (simp add: parser_run del: parsers_upto.simps)
  then show "parse_source (units ''return - -x'') = Some (Inr ?c)"
    by (rule parse_source_run[OF tk]) (simp add: eof_ended_def)
  show g: "generate ?c = units ''return --x'' @ [10]"
    by (simp add: generate_def wrap_def writeln_def indent_text_def trim_end_def js_space_def)
  let ?us = "[Token T_RETURN (V_text (units ''return'')) 1 1 0 (units ''return''),
     Token T_EOF V_null 2 1 11 []]"
  have tk: "tokenize (units ''return --x'' @ [10]) = Inr ?us" by code_simp
  have "parseChunk (Suc (Suc (Suc (Suc (Suc 0))))) ?us =
      Some (Inr ([ReturnStatement []], [Token T_EOF V_null 2 1 11 []]))"
    by (simp add: parser_run del: parsers_upto.simps)
  then show "parse_source (generate ?c) = Some (Inr [ReturnStatement []])"
    unfolding g by (rule parse_source_run[OF tk]) (simp add: eof_ended_def)
qed

text \<open>A method declaration is printed as a plain function: \<open>function a:m() end\<close> comes back as
  \<open>function a.m() end\<close>, which has no parameter \<open>self\<close>.\<close>

theorem method_declaration_loses_self:
  "\<exists>name. parse_source (units ''function a:m() end'') =
       Some (Inr [FunctionDeclaration name [] False [] True]) \<and>
     generate [FunctionDeclaration name [] False [] True] =
       units ''function a.m()'' @ [10] @ units ''end'' @ [10] \<and>
     parse_source (generate [FunctionDeclaration name [] False [] True]) =
       Some (Inr [FunctionDeclaration name [] False [] False])"
proof (intro exI conjI)
  let ?n = "MemberExpression (Identifier [97]) (Identifier [109])"
  let ?ts = "\<lambda>ty u l c k. [Token T_FUNCTION (V_text (units ''function'')) 1 1 0 (units ''function''),
     Token T_IDENT (V_text [97]) 1 10 9 [97], Token ty (V_text [u]) 1 11 10 [u],
     Token T_IDENT (V_text [109]) 1 12 11 [109], Token T_LPAREN (V_text [40]) 1 13 12 [40],
     Token T_RPAREN (V_text [41]) 1 14 13 [41], Token T_END (V_text (units ''end'')) l c 15 (units ''end''),
     Token T_EOF V_null k (if k = 1 then 19 else 1) (if k = 1 then 18 else 19) []]"
  have tk: "tokenize (units ''function a:m() end'') = Inr (?ts T_COLON 58 1 16 1)" by code_simp
  have "parseChunk (Suc (Suc (Suc (Suc (Suc 0))))) (?ts T_COLON 58 1 16 1) =
      Some (Inr ([FunctionDeclaration ?n [] False [] True], [Token T_EOF V_null 1 19 18 []]))"
    by (simp add: parser_run del: parsers_upto.simps)
  then show "parse_source (units ''function a:m() end'') =
      Some (Inr [FunctionDeclaration ?n [] False [] True])"
    by (rule parse_source_run[OF tk]) (simp add: eof_ended_def)
  show g: "generate [FunctionDeclaration ?n [] False [] True] =
      units ''function a.m()'' @ [10] @ units ''end'' @ [10]"
    by (simp add: generate_def wrap_def wrap_base_def writeln_def indent_text_def trim_end_def js_space_def
      param_list_def name_text_def parens_def)
  have tk: "tokenize (units ''function a.m()'' @ [10] @ units ''end'' @ [10]) =
      Inr (?ts T_DOT 46 2 1 3)" by code_simp
  have "parseChunk (Suc (Suc (Suc (Suc (Suc 0))))) (?ts T_DOT 46 2 1 3) =
      Some (Inr ([FunctionDeclaration ?n [] False [] False], [Token T_EOF V_null 3 1 19 []]))"
    by (simp add: parser_run del: parsers_upto.simps)
  then show "parse_source (generate [FunctionDeclaration ?n [] False [] True]) =
      Some (Inr [FunctionDeclaration ?n [] False [] False])"
    unfolding g by (rule parse_source_run[OF tk]) (simp add: eof_ended_def)
qed

text \<open>A negative literal is printed without parentheses under the power operator: the text of
  \<open>(-d) ^ x\<close> with a folded literal \<open>-d\<close> is the text of \<open>-(d ^ x)\<close>, and that is what it parses to.\<close>

theorem negative_base_prints_as_negation:
  assumes "numeral_text d" and "plain_word x"
  shows "\<exists>ts t. tokenize (exprToString ind lvl
        (BinaryExpression ''^'' (NumericLiteral v (45 # d)) (Identifier x)) 0) = Inr ts \<and>
     parseExpression (parsers_upto (enough_fuel ts)) ts = Some (Inr
       (UnaryExpression ''-'' (BinaryExpression ''^'' (NumericLiteral (js_Number d) d) (Identifier x)), [t]))"
proof -
  let ?e = "UnaryExpression ''-'' (BinaryExpression ''^'' (NumericLiteral (js_Number d) d) (Identifier x))"
  have same: "exprToString ind lvl
      (BinaryExpression ''^'' (NumericLiteral v (45 # d)) (Identifier x)) 0 = exprToString ind lvl ?e 0"
    using assms by (auto simp: wrap_def getPrecedence_def right_assoc_def numeral_text_def)
  have "printable ?e" using assms by (auto simp: operator_tokens_def)
  from printed_expression_reads_back[OF this, of ind lvl] show ?thesis
    unfolding same by blast
qed

theorem negative_base_prints_as_negation_witness:
  "\<exists>ts t. tokenize (exprToString [32] 0
        (BinaryExpression ''^'' (NumericLiteral (Num (- 2)) [45, 50]) (Identifier (units ''x''))) 0) = Inr ts \<and>
     parseExpression (parsers_upto (enough_fuel ts)) ts = Some (Inr
       (UnaryExpression ''-'' (BinaryExpression ''^'' (NumericLiteral (js_Number [50]) [50])
          (Identifier (units ''x''))), [t]))"
proof (rule negative_base_prints_as_negation)
  show "numeral_text [50]" "plain_word (units ''x'')" by code_simp+
qed

end
