(* ===== verification/CFG.thy ===== *)
theory CFG
  imports AST JS_Map
begin

text \<open>
  The control-flow graph (\<open>packages/core/src/cfg/basic-block.js\<close>, \<open>edge.js\<close>, \<open>cfg.js\<close>). Every
  block of a graph is an entry of its map \<open>blocks\<close>, and blocks are shared by reference; here an
  edge, the entry and the exits name a block by its identifier. Identifiers are numbers, as all
  callers create them; as \<open>Map\<close> keys the two zeros are one, so an identifier is never \<open>NegZero\<close>.
\<close>

type_synonym block_id = jsnum

datatype edge_type =
  UNCONDITIONAL | CONDITIONAL_TRUE | CONDITIONAL_FALSE | TABLE_DISPATCH | DYNAMIC

record edge =
  source :: block_id
  target :: block_id
  edge_kind :: edge_type
  condition :: "expr option"

datatype transition =
  Goto jsnum edge_type "expr option"
| Dynamic expr

record block =
  block_id :: block_id
  statements :: "stmt list"
  predecessors :: "edge list"
  successors :: "edge list"
  stateTransitions :: "transition list"
  isEntry :: bool
  isExit :: bool
  minState :: "jsnum option"
  maxState :: "jsnum option"

definition map_key :: "jsnum \<Rightarrow> jsnum" where
  "map_key n = (if n = NegZero then Num 0 else n)"

definition BasicBlock :: "jsnum \<Rightarrow> block" where
  "BasicBlock i =
     \<lparr>block_id = map_key i, statements = [], predecessors = [], successors = [],
      stateTransitions = [], isEntry = False, isExit = False, minState = None, maxState = None\<rparr>"

definition addStatement :: "stmt \<Rightarrow> block \<Rightarrow> block" where
  "addStatement st b = b\<lparr>statements := statements b @ [st]\<rparr>"

definition addSuccessor :: "edge \<Rightarrow> block \<Rightarrow> block" where
  "addSuccessor e b = b\<lparr>successors := successors b @ [e]\<rparr>"

definition addPredecessor :: "edge \<Rightarrow> block \<Rightarrow> block" where
  "addPredecessor e b = b\<lparr>predecessors := predecessors b @ [e]\<rparr>"

section \<open>The graph\<close>

record cfg =
  dispatcherVar :: js_string
  blocks :: "(block_id, block) js_map"
  entry :: "block_id option"
  exits :: "block_id list"
  edges :: "edge list"

definition ControlFlowGraph :: "js_string \<Rightarrow> cfg" where
  "ControlFlowGraph v = \<lparr>dispatcherVar = v, blocks = [], entry = None, exits = [], edges = []\<rparr>"

definition addBlock :: "block \<Rightarrow> cfg \<Rightarrow> cfg" where
  "addBlock b c = c\<lparr>blocks := map_set (blocks c) (block_id b) b\<rparr>"

definition getBlock :: "cfg \<Rightarrow> jsnum \<Rightarrow> block option" where
  "getBlock c i = map_get (blocks c) (map_key i)"

definition hasBlock :: "cfg \<Rightarrow> jsnum \<Rightarrow> bool" where
  "hasBlock c i \<longleftrightarrow> getBlock c i \<noteq> None"

text \<open>A block of the graph changes in place.\<close>

definition update_block :: "block_id \<Rightarrow> (block \<Rightarrow> block) \<Rightarrow> cfg \<Rightarrow> cfg" where
  "update_block i f c =
     (case getBlock c i of
        None \<Rightarrow> c
      | Some b \<Rightarrow> c\<lparr>blocks := map_set (blocks c) (map_key i) (f b)\<rparr>)"

definition addEdge ::
  "block_id \<Rightarrow> block_id \<Rightarrow> edge_type \<Rightarrow> expr option \<Rightarrow> cfg \<Rightarrow> cfg" where
  "addEdge s t ty cond c =
     (let e = \<lparr>source = s, target = t, edge_kind = ty, condition = cond\<rparr>;
          c' = update_block t (addPredecessor e) (update_block s (addSuccessor e) c)
      in c'\<lparr>edges := edges c' @ [e]\<rparr>)"

text \<open>\<open>id >= block.minState && id < block.maxState\<close>; both are false for \<open>undefined\<close>.\<close>

definition in_range :: "jsnum \<Rightarrow> block \<Rightarrow> bool" where
  "in_range i b \<longleftrightarrow>
     (case (minState b, maxState b) of
        (Some lo, Some hi) \<Rightarrow> num_le lo i \<and> num_lt i hi
      | _ \<Rightarrow> False)"

section \<open>Reachability\<close>

text \<open>The argument of \<open>computeReachability\<close>: absent, an identifier, or an array or set of them.\<close>

datatype start_point = From_entry | From_block jsnum | From_states "jsnum list"

definition find_start :: "cfg \<Rightarrow> jsnum \<Rightarrow> block option" where
  "find_start c i =
     (case getBlock c i of
        Some b \<Rightarrow> Some b
      | None \<Rightarrow> find (in_range i) (map_values (blocks c)))"

text \<open>The set of identifiers and the queue, both in order of insertion.\<close>

definition mark :: "block_id \<Rightarrow> block_id list \<times> block_id list \<Rightarrow> block_id list \<times> block_id list" where
  "mark i p = (if i \<in> set (fst p) then p else (fst p @ [i], snd p @ [i]))"

definition add_start :: "cfg \<Rightarrow> block_id list \<times> block_id list \<Rightarrow> jsnum \<Rightarrow> block_id list \<times> block_id list" where
  "add_start c p i = (case find_start c i of None \<Rightarrow> p | Some b \<Rightarrow> mark (block_id b) p)"

definition start_blocks :: "cfg \<Rightarrow> start_point \<Rightarrow> block_id list \<times> block_id list" where
  "start_blocks c from =
     (case from of
        From_states is \<Rightarrow> foldl (add_start c) ([], []) is
      | From_block i \<Rightarrow>
          (case getBlock c i of None \<Rightarrow> ([], []) | Some b \<Rightarrow> ([block_id b], [block_id b]))
      | From_entry \<Rightarrow> (case entry c of None \<Rightarrow> ([], []) | Some i \<Rightarrow> ([i], [i])))"

definition block_targets :: "cfg \<Rightarrow> block_id \<Rightarrow> block_id list" where
  "block_targets c i = (case getBlock c i of None \<Rightarrow> [] | Some b \<Rightarrow> map target (successors b))"

definition all_targets :: "cfg \<Rightarrow> block_id set" where
  "all_targets c = (\<Union>b \<in> set (map_values (blocks c)). target ` set (successors b))"

lemma finite_all_targets [simp]: "finite (all_targets c)"
  by (simp add: all_targets_def)

lemma block_targets_all: "set (block_targets c i) \<subseteq> all_targets c"
proof
  fix t
  assume "t \<in> set (block_targets c i)"
  then obtain b where "map_get (blocks c) (map_key i) = Some b" "t \<in> target ` set (successors b)"
    by (cases "map_get (blocks c) (map_key i)") (auto simp: block_targets_def getBlock_def)
  moreover from this have "b \<in> set (map_values (blocks c))"
    by (force simp: map_values_def dest: map_get_mem)
  ultimately show "t \<in> all_targets c" by (auto simp: all_targets_def)
qed

lemma mark_measure:
  assumes "set is \<subseteq> A" and "finite A"
  shows "card (A - set (fst (fold mark is p))) + length (snd (fold mark is p)) =
    card (A - set (fst p)) + length (snd p)"
  using assms(1)
proof (induction "is" arbitrary: p)
  case (Cons i "is")
  have "card (A - set (fst (mark i p))) + length (snd (mark i p)) = card (A - set (fst p)) + length (snd p)"
  proof (cases "i \<in> set (fst p)")
    case False
    then have "A - set (fst p) = insert i (A - set (fst p @ [i]))" using Cons.prems by auto
    then have "card (A - set (fst p)) = Suc (card (A - set (fst p @ [i])))"
      using assms(2) by (metis DiffE Diff_insert0 card_insert_disjoint finite_Diff
          insertCI list.simps(15) rotate1.simps(2) set_rotate1)
    with False show ?thesis by (simp add: mark_def)
  qed (simp add: mark_def)
  with Cons show ?case by simp
qed simp

text \<open>The loop: a block leaves the queue, its successors that are not yet in the set enter both.\<close>

function reach_loop :: "cfg \<Rightarrow> block_id list \<Rightarrow> block_id list \<Rightarrow> block_id list" where
  "reach_loop c seen [] = seen"
| "reach_loop c seen (i # queue) =
     (let p = fold mark (block_targets c i) (seen, queue) in reach_loop c (fst p) (snd p))"
  by pat_completeness auto
termination
proof (relation "measure (\<lambda>(c, seen, queue). card (all_targets c - set seen) + length queue)")
  fix c seen i queue and p :: "block_id list \<times> block_id list"
  assume "p = fold mark (block_targets c i) (seen, queue)"
  with mark_measure[OF block_targets_all[of c i] finite_all_targets, of "(seen, queue)"]
  have "card (all_targets c - set (fst p)) + length (snd p) =
    card (all_targets c - set seen) + length queue" by simp
  then show "((c, fst p, snd p), c, seen, i # queue)
    \<in> measure (\<lambda>(c, seen, queue). card (all_targets c - set seen) + length queue)" by (simp add: case_prod_unfold)
qed simp

record reachability =
  dispatcherCandidate :: js_string
  states :: nat
  reachable :: nat
  unreachable :: nat
  transitions :: nat
  conditionalTransitions :: nat
  terminalStates :: nat
  reachableSet :: "block_id list"
  unreachableSet :: "block_id list"

definition is_conditional :: "edge \<Rightarrow> bool" where
  "is_conditional e \<longleftrightarrow> edge_kind e = CONDITIONAL_TRUE \<or> edge_kind e = CONDITIONAL_FALSE"

definition computeReachability :: "start_point \<Rightarrow> cfg \<Rightarrow> reachability" where
  "computeReachability from c =
     (let (seen, queue) = start_blocks c from;
          reached = reach_loop c seen queue;
          missed = filter (\<lambda>i. i \<notin> set reached) (map_keys (blocks c))
      in \<lparr>dispatcherCandidate = dispatcherVar c, states = length (blocks c),
          reachable = length reached, unreachable = length missed,
          transitions = length (edges c),
          conditionalTransitions = length (filter is_conditional (edges c)),
          terminalStates = length (exits c),
          reachableSet = reached, unreachableSet = missed\<rparr>)"

end
