(* ===== verification/Traverse.thy ===== *)
theory Traverse
  imports AST
begin

text \<open>
  \<open>traverse\<close> of \<open>packages/core/src/ast/visitor.js\<close>: the nodes of a tree from the root down, the
  children in the order of their properties. The callback \<open>enter\<close> tells by its boolean whether the
  children of the node are visited (\<open>return false\<close> skips them); its state is what the callback
  closes over. Clauses are no nodes: they have no \<open>type\<close>. The callback \<open>leave\<close> has no user.
\<close>

datatype node = Expr expr | Stmt stmt | Field table_field

definition enter_node ::
  "(node \<Rightarrow> 's \<Rightarrow> bool \<times> 's) \<Rightarrow> node \<Rightarrow> 's \<Rightarrow> ('s \<Rightarrow> 's) \<Rightarrow> 's" where
  "enter_node enter n s children =
     (case enter n s of (continue, s') \<Rightarrow> if continue then children s' else s')"

fun traverse_expr :: "(node \<Rightarrow> 's \<Rightarrow> bool \<times> 's) \<Rightarrow> expr \<Rightarrow> 's \<Rightarrow> 's"
and traverse_exprs :: "(node \<Rightarrow> 's \<Rightarrow> bool \<times> 's) \<Rightarrow> expr list \<Rightarrow> 's \<Rightarrow> 's"
and traverse_field :: "(node \<Rightarrow> 's \<Rightarrow> bool \<times> 's) \<Rightarrow> table_field \<Rightarrow> 's \<Rightarrow> 's"
and traverse_fields :: "(node \<Rightarrow> 's \<Rightarrow> bool \<times> 's) \<Rightarrow> table_field list \<Rightarrow> 's \<Rightarrow> 's"
and traverse_stmt :: "(node \<Rightarrow> 's \<Rightarrow> bool \<times> 's) \<Rightarrow> stmt \<Rightarrow> 's \<Rightarrow> 's"
and traverse_block :: "(node \<Rightarrow> 's \<Rightarrow> bool \<times> 's) \<Rightarrow> stmt list \<Rightarrow> 's \<Rightarrow> 's"
and traverse_clauses :: "(node \<Rightarrow> 's \<Rightarrow> bool \<times> 's) \<Rightarrow> clause list \<Rightarrow> 's \<Rightarrow> 's"
where
  "traverse_expr f (UnaryExpression op a) s =
     enter_node f (Expr (UnaryExpression op a)) s (\<lambda>s. traverse_expr f a s)"
| "traverse_expr f (BinaryExpression op l r) s =
     enter_node f (Expr (BinaryExpression op l r)) s (\<lambda>s. traverse_expr f r (traverse_expr f l s))"
| "traverse_expr f (LogicalExpression op l r) s =
     enter_node f (Expr (LogicalExpression op l r)) s (\<lambda>s. traverse_expr f r (traverse_expr f l s))"
| "traverse_expr f (CallExpression b args) s =
     enter_node f (Expr (CallExpression b args)) s
       (\<lambda>s. traverse_exprs f args (traverse_expr f b s))"
| "traverse_expr f (MethodCallExpression b m args) s =
     enter_node f (Expr (MethodCallExpression b m args)) s
       (\<lambda>s. traverse_exprs f args (traverse_expr f m (traverse_expr f b s)))"
| "traverse_expr f (MemberExpression b p) s =
     enter_node f (Expr (MemberExpression b p)) s (\<lambda>s. traverse_expr f p (traverse_expr f b s))"
| "traverse_expr f (IndexExpression b i) s =
     enter_node f (Expr (IndexExpression b i)) s (\<lambda>s. traverse_expr f i (traverse_expr f b s))"
| "traverse_expr f (FunctionExpression ps va body) s =
     enter_node f (Expr (FunctionExpression ps va body)) s
       (\<lambda>s. traverse_block f body (traverse_exprs f ps s))"
| "traverse_expr f (TableConstructor fs) s =
     enter_node f (Expr (TableConstructor fs)) s (\<lambda>s. traverse_fields f fs s)"
| "traverse_expr f e s = enter_node f (Expr e) s (\<lambda>s. s)"
| "traverse_exprs f [] s = s"
| "traverse_exprs f (e # es) s = traverse_exprs f es (traverse_expr f e s)"
| "traverse_field f (TableKey k v) s =
     enter_node f (Field (TableKey k v)) s (\<lambda>s. traverse_expr f v (traverse_expr f k s))"
| "traverse_field f (TableKeyString k v) s =
     enter_node f (Field (TableKeyString k v)) s (\<lambda>s. traverse_expr f v (traverse_expr f k s))"
| "traverse_field f (TableValue v) s =
     enter_node f (Field (TableValue v)) s (\<lambda>s. traverse_expr f v s)"
| "traverse_fields f [] s = s"
| "traverse_fields f (fl # fs) s = traverse_fields f fs (traverse_field f fl s)"
| "traverse_stmt f (LocalStatement vs es) s =
     enter_node f (Stmt (LocalStatement vs es)) s (\<lambda>s. traverse_exprs f es (traverse_exprs f vs s))"
| "traverse_stmt f (AssignmentStatement vs es) s =
     enter_node f (Stmt (AssignmentStatement vs es)) s
       (\<lambda>s. traverse_exprs f es (traverse_exprs f vs s))"
| "traverse_stmt f (LocalFunctionStatement i ps va b) s =
     enter_node f (Stmt (LocalFunctionStatement i ps va b)) s
       (\<lambda>s. traverse_block f b (traverse_exprs f ps (traverse_expr f i s)))"
| "traverse_stmt f (FunctionDeclaration n ps va b im) s =
     enter_node f (Stmt (FunctionDeclaration n ps va b im)) s
       (\<lambda>s. traverse_block f b (traverse_exprs f ps (traverse_expr f n s)))"
| "traverse_stmt f (CallStatement e) s =
     enter_node f (Stmt (CallStatement e)) s (\<lambda>s. traverse_expr f e s)"
| "traverse_stmt f (IfStatement cs None) s =
     enter_node f (Stmt (IfStatement cs None)) s (\<lambda>s. traverse_clauses f cs s)"
| "traverse_stmt f (IfStatement cs (Some b)) s =
     enter_node f (Stmt (IfStatement cs (Some b))) s
       (\<lambda>s. traverse_block f b (traverse_clauses f cs s))"
| "traverse_stmt f (WhileStatement c b) s =
     enter_node f (Stmt (WhileStatement c b)) s (\<lambda>s. traverse_block f b (traverse_expr f c s))"
| "traverse_stmt f (RepeatStatement c b) s =
     enter_node f (Stmt (RepeatStatement c b)) s (\<lambda>s. traverse_block f b (traverse_expr f c s))"
| "traverse_stmt f (NumericForStatement v e1 e2 None b) s =
     enter_node f (Stmt (NumericForStatement v e1 e2 None b)) s
       (\<lambda>s. traverse_block f b (traverse_expr f e2 (traverse_expr f e1 (traverse_expr f v s))))"
| "traverse_stmt f (NumericForStatement v e1 e2 (Some e3) b) s =
     enter_node f (Stmt (NumericForStatement v e1 e2 (Some e3) b)) s
       (\<lambda>s. traverse_block f b (traverse_expr f e3
          (traverse_expr f e2 (traverse_expr f e1 (traverse_expr f v s)))))"
| "traverse_stmt f (GenericForStatement vs es b) s =
     enter_node f (Stmt (GenericForStatement vs es b)) s
       (\<lambda>s. traverse_block f b (traverse_exprs f es (traverse_exprs f vs s)))"
| "traverse_stmt f (DoStatement b) s =
     enter_node f (Stmt (DoStatement b)) s (\<lambda>s. traverse_block f b s)"
| "traverse_stmt f (ReturnStatement es) s =
     enter_node f (Stmt (ReturnStatement es)) s (\<lambda>s. traverse_exprs f es s)"
| "traverse_stmt f st s = enter_node f (Stmt st) s (\<lambda>s. s)"
| "traverse_block f [] s = s"
| "traverse_block f (st # ss) s = traverse_block f ss (traverse_stmt f st s)"
| "traverse_clauses f [] s = s"
| "traverse_clauses f (Clause c b # cs) s =
     traverse_clauses f cs (traverse_block f b (traverse_expr f c s))"

text \<open>A callback that always continues and acts on the state.\<close>

definition visiting :: "(node \<Rightarrow> 's \<Rightarrow> 's) \<Rightarrow> node \<Rightarrow> 's \<Rightarrow> bool \<times> 's" where
  "visiting f n s = (True, f n s)"

lemma enter_visiting: "enter_node (visiting f) n s children = children (f n s)"
  by (simp add: enter_node_def visiting_def)

end
