(* ===== verification/Dispatcher.thy ===== *)
theory Dispatcher
  imports CFG Traverse Evaluator
begin

text \<open>
  The dispatcher analysis (\<open>packages/core/src/cfg/dispatcher.js\<close>): a loop \<open>while Q do if Q < t
  then ... else ... end end\<close> is a search tree over the states; its leaves become the blocks of a
  control-flow graph and the assignments to \<open>Q\<close> in a leaf its transitions. \<open>pow\<close> is \<open>Math.pow\<close>, as
  in the evaluator. An assignment has at least one value, as the parser makes it.
\<close>

section \<open>Finding dispatchers\<close>

record dispatcher =
  disp_stateVar :: js_string
  disp_whileNode :: stmt
  disp_rootIf :: stmt

definition dispatcher_of :: "node \<Rightarrow> dispatcher list \<Rightarrow> dispatcher list" where
  "dispatcher_of n ds =
     (case n of
        Stmt (WhileStatement (Identifier v) (IfStatement cs el # rest)) \<Rightarrow>
          ds @ [\<lparr>disp_stateVar = v, disp_whileNode = WhileStatement (Identifier v) (IfStatement cs el # rest),
                 disp_rootIf = IfStatement cs el\<rparr>]
      | _ \<Rightarrow> ds)"

definition findDispatchers :: "chunk \<Rightarrow> dispatcher list" where
  "findDispatchers c = traverse_block (visiting dispatcher_of) c []"

section \<open>Folding in place\<close>

text \<open>
  \<open>fold(e)\<close> yields the folded tree and rewrites the children of \<open>e\<close> in place, so the node that
  stays in the program is \<open>e\<close> with folded children.
\<close>

definition folded :: "(jsnum \<Rightarrow> jsnum \<Rightarrow> jsnum) \<Rightarrow> expr \<Rightarrow> expr" where
  "folded pow e = fst (fold_node pow e resetStats)"

definition fold_inside :: "(jsnum \<Rightarrow> jsnum \<Rightarrow> jsnum) \<Rightarrow> expr \<Rightarrow> expr" where
  "fold_inside pow e =
     (let F = fold_transformer pow; es = (\<lambda>es. fst (transform_exprs F es resetStats)) in
      case e of
        UnaryExpression op a \<Rightarrow> UnaryExpression op (folded pow a)
      | BinaryExpression op l r \<Rightarrow> BinaryExpression op (folded pow l) (folded pow r)
      | LogicalExpression op l r \<Rightarrow> LogicalExpression op (folded pow l) (folded pow r)
      | CallExpression b args \<Rightarrow> CallExpression (folded pow b) (es args)
      | MethodCallExpression b m args \<Rightarrow>
          MethodCallExpression (folded pow b) (folded pow m) (es args)
      | MemberExpression b p \<Rightarrow> MemberExpression (folded pow b) (folded pow p)
      | IndexExpression b i \<Rightarrow> IndexExpression (folded pow b) (folded pow i)
      | FunctionExpression ps va body \<Rightarrow>
          FunctionExpression (es ps) va (fst (transform_block F body resetStats))
      | TableConstructor fs \<Rightarrow> TableConstructor (fst (transform_fields F fs resetStats))
      | _ \<Rightarrow> e)"

section \<open>Leaves\<close>

definition leaf_state :: "nat \<Rightarrow> jsnum \<Rightarrow> jsnum \<Rightarrow> jsnum" where
  "leaf_state stateCounter minVal maxVal =
     (if isFinite minVal \<and> isFinite maxVal then num_floor (num_div (num_add minVal maxVal) (Num 2))
      else if isFinite minVal then minVal
      else if isFinite maxVal then num_sub maxVal (Num 1)
      else Num (of_nat stateCounter))"

text \<open>A state that a value names: a literal, or a variable assigned a literal before.\<close>

definition state_value ::
  "(jsnum \<Rightarrow> jsnum \<Rightarrow> jsnum) \<Rightarrow> (js_string, jsnum) js_map \<Rightarrow> expr \<Rightarrow> jsnum option" where
  "state_value pow localConsts e =
     (case folded pow e of
        NumericLiteral v raw \<Rightarrow> Some v
      | Identifier n \<Rightarrow> map_get localConsts n
      | _ \<Rightarrow> None)"

type_synonym partial_and = "(expr \<times> jsnum) option"

definition branch :: "expr \<Rightarrow> jsnum \<Rightarrow> jsnum \<Rightarrow> transition list" where
  "branch cond s1 s2 = [Goto s1 CONDITIONAL_TRUE (Some cond), Goto s2 CONDITIONAL_FALSE (Some cond)]"

text \<open>
  The transitions of an assignment \<open>Q = foldedInit\<close>, whether it ends the loop, and the pending
  first half of a split conditional.
\<close>

definition state_update ::
  "(jsnum \<Rightarrow> jsnum \<Rightarrow> jsnum) \<Rightarrow> (js_string, jsnum) js_map \<Rightarrow> partial_and \<Rightarrow> expr \<Rightarrow>
   transition list \<times> bool \<times> partial_and" where
  "state_update pow localConsts partialAnd foldedInit =
     (let pending = (\<lambda>s2. case (partialAnd, s2) of
           (Some (cond, s1), Some v2) \<Rightarrow> (branch cond s1 v2, False, None)
         | _ \<Rightarrow> ([], False, partialAnd))
      in case foldedInit of
        NumericLiteral v raw \<Rightarrow> ([Goto v UNCONDITIONAL None], False, None)
      | LogicalExpression op left right \<Rightarrow>
          if op = ''or'' then
            (let s2 = state_value pow localConsts right in
             case left of
               LogicalExpression lop cond s1Node \<Rightarrow>
                 if lop = ''and'' then
                   (case (state_value pow localConsts s1Node, s2) of
                      (Some s1, Some v2) \<Rightarrow> (branch cond s1 v2, False, None)
                    | _ \<Rightarrow> ([], False, partialAnd))
                 else pending s2
             | _ \<Rightarrow> pending s2)
          else if op = ''and'' then
            (case state_value pow localConsts right of
               Some s1 \<Rightarrow> ([], False, Some (left, s1))
             | None \<Rightarrow> ([], False, partialAnd))
          else ([Dynamic foldedInit], False, None)
      | BooleanLiteral b \<Rightarrow>
          if \<not> b then ([], True, None) else ([Dynamic foldedInit], False, None)
      | NilLiteral \<Rightarrow> ([], True, None)
      | _ \<Rightarrow> ([Dynamic foldedInit], False, None))"

record leaf_scan =
  leaf_block :: block
  local_consts :: "(js_string, jsnum) js_map"
  partial_and :: partial_and

definition add_transitions :: "transition list \<Rightarrow> bool \<Rightarrow> block \<Rightarrow> block" where
  "add_transitions ts ends b =
     b\<lparr>isExit := isExit b \<or> ends,
       stateTransitions := (if ts \<noteq> [] then ts else stateTransitions b)\<rparr>"

definition scan_assignment ::
  "(jsnum \<Rightarrow> jsnum \<Rightarrow> jsnum) \<Rightarrow> js_string \<Rightarrow> js_string \<Rightarrow> expr \<Rightarrow> leaf_scan \<Rightarrow> leaf_scan" where
  "scan_assignment pow stateVar vName foldedInit sc =
     (let consts = (case foldedInit of
           NumericLiteral v raw \<Rightarrow> map_set (local_consts sc) vName v
         | _ \<Rightarrow> local_consts sc)
      in if vName = stateVar then
           (let (ts, ends, pa) = state_update pow consts (partial_and sc) foldedInit
            in sc\<lparr>leaf_block := add_transitions ts ends (leaf_block sc),
                  local_consts := consts, partial_and := pa\<rparr>)
         else sc\<lparr>local_consts := consts\<rparr>)"

definition scan_stmt ::
  "(jsnum \<Rightarrow> jsnum \<Rightarrow> jsnum) \<Rightarrow> js_string \<Rightarrow> stmt \<Rightarrow> leaf_scan \<Rightarrow> leaf_scan" where
  "scan_stmt pow stateVar st sc =
     (case st of
        AssignmentStatement [Identifier v] (e # es) \<Rightarrow>
          scan_assignment pow stateVar v (folded pow e)
            (sc\<lparr>leaf_block := addStatement (AssignmentStatement [Identifier v] (fold_inside pow e # es))
                 (leaf_block sc)\<rparr>)
      | _ \<Rightarrow> sc\<lparr>leaf_block := addStatement st (leaf_block sc)\<rparr>)"

definition make_leaf ::
  "(jsnum \<Rightarrow> jsnum \<Rightarrow> jsnum) \<Rightarrow> js_string \<Rightarrow> nat \<Rightarrow> stmt list \<Rightarrow> jsnum \<Rightarrow> jsnum \<Rightarrow> block" where
  "make_leaf pow stateVar stateCounter ss minVal maxVal =
     leaf_block (fold (scan_stmt pow stateVar) ss
       \<lparr>leaf_block = (BasicBlock (leaf_state stateCounter minVal maxVal))
           \<lparr>minState := Some minVal, maxState := Some maxVal\<rparr>,
        local_consts = [], partial_and = None\<rparr>)"

text \<open>The closure's state: the counter and the graph.\<close>

definition extractLeafBlock ::
  "(jsnum \<Rightarrow> jsnum \<Rightarrow> jsnum) \<Rightarrow> js_string \<Rightarrow> stmt list \<Rightarrow> jsnum \<Rightarrow> jsnum \<Rightarrow>
   nat \<times> cfg \<Rightarrow> nat \<times> cfg" where
  "extractLeafBlock pow stateVar ss minVal maxVal p =
     (let n = Suc (fst p) in (n, addBlock (make_leaf pow stateVar n ss minVal maxVal) (snd p)))"

section \<open>The search tree\<close>

text \<open>An entry of the work list: a statement, or the statements of a branch.\<close>

datatype tree_node = One stmt | Many "stmt list"

definition branch_node :: "stmt list \<Rightarrow> tree_node" where
  "branch_node body = (case body of [IfStatement cs el] \<Rightarrow> One (IfStatement cs el) | _ \<Rightarrow> Many body)"

text \<open>\<open>if stateVar < bound then thenBody else elseBody end\<close>.\<close>

definition decision ::
  "js_string \<Rightarrow> tree_node \<Rightarrow> (expr \<times> stmt list \<times> stmt list option) option" where
  "decision stateVar n =
     (case n of
        One (IfStatement [Clause (BinaryExpression op (Identifier v) bound) body] elseBody) \<Rightarrow>
          if op = ''<'' \<and> v = stateVar then Some (bound, body, elseBody) else None
      | _ \<Rightarrow> None)"

definition node_stmts :: "tree_node \<Rightarrow> stmt list" where
  "node_stmts n = (case n of One st \<Rightarrow> [st] | Many ss \<Rightarrow> ss)"

definition threshold :: "(jsnum \<Rightarrow> jsnum \<Rightarrow> jsnum) \<Rightarrow> expr \<Rightarrow> jsnum option" where
  "threshold pow bound = (case folded pow bound of NumericLiteral v raw \<Rightarrow> Some v | _ \<Rightarrow> None)"

definition node_size :: "tree_node \<Rightarrow> nat" where
  "node_size n = (case n of One st \<Rightarrow> size st | Many ss \<Rightarrow> size_list size ss)"

lemma branch_node_size: "node_size (branch_node body) \<le> size_list size body"
  by (auto simp: branch_node_def node_size_def split: list.split stmt.split)

lemma decision_size:
  "decision v n = Some (bound, body, el) \<Longrightarrow>
   Suc (node_size (branch_node body)) +
     (case el of None \<Rightarrow> 0 | Some b \<Rightarrow> Suc (node_size (branch_node b))) < Suc (node_size n)"
  using branch_node_size[of body]
    branch_node_size[of "case el of None \<Rightarrow> [] | Some b \<Rightarrow> b"]
  by (auto simp: decision_def node_size_def[of "One _"] split: tree_node.splits stmt.splits
      list.splits clause.splits expr.splits if_splits option.splits)

function traverseTree ::
  "(jsnum \<Rightarrow> jsnum \<Rightarrow> jsnum) \<Rightarrow> js_string \<Rightarrow> (tree_node \<times> jsnum \<times> jsnum) list \<Rightarrow>
   nat \<times> cfg \<Rightarrow> nat \<times> cfg" where
  "traverseTree pow stateVar [] p = p"
| "traverseTree pow stateVar ((n, minVal, maxVal) # pending) p =
     (case decision stateVar n of
        None \<Rightarrow>
          traverseTree pow stateVar pending
            (extractLeafBlock pow stateVar (node_stmts n) minVal maxVal p)
      | Some (bound, thenBody, elseBody) \<Rightarrow>
          (let lowerMax = (case threshold pow bound of Some t \<Rightarrow> t | None \<Rightarrow> maxVal);
               upperMin = (case threshold pow bound of Some t \<Rightarrow> t | None \<Rightarrow> minVal);
               elses = (case elseBody of None \<Rightarrow> [] | Some b \<Rightarrow> [(branch_node b, upperMin, maxVal)])
           in traverseTree pow stateVar
                ((branch_node thenBody, minVal, lowerMax) # elses @ pending) p))"
  by pat_completeness auto
termination
  by (relation "measure (\<lambda>(pow, v, pending, p). \<Sum>(n, lo, hi)\<leftarrow>pending. Suc (node_size n))")
    (auto dest: decision_size split: option.splits)

section \<open>Edges\<close>

definition block_for :: "cfg \<Rightarrow> jsnum \<Rightarrow> block_id option" where
  "block_for c s = map_option block_id (find (in_range s) (map_values (blocks c)))"

definition connect_transition :: "block_id \<Rightarrow> transition \<Rightarrow> cfg \<Rightarrow> cfg" where
  "connect_transition src tr c =
     (case tr of
        Goto s ty cond \<Rightarrow>
          (case block_for c s of None \<Rightarrow> c | Some t \<Rightarrow> addEdge src t ty cond c)
      | Dynamic e \<Rightarrow> c)"

definition connect_block :: "block_id \<Rightarrow> cfg \<Rightarrow> cfg" where
  "connect_block i c =
     (case getBlock c i of
        None \<Rightarrow> c
      | Some b \<Rightarrow>
          (let c1 = fold (connect_transition i) (stateTransitions b) c
           in if isExit b then c1\<lparr>exits := exits c1 @ [i]\<rparr> else c1))"

definition set_entry :: "jsnum option \<Rightarrow> cfg \<Rightarrow> cfg" where
  "set_entry entryStateId c =
     (case entryStateId of
        None \<Rightarrow> c
      | Some s \<Rightarrow>
          (case block_for c s of
             None \<Rightarrow> c
           | Some i \<Rightarrow> update_block i (\<lambda>b. b\<lparr>isEntry := True\<rparr>) (c\<lparr>entry := Some i\<rparr>)))"

definition leaf_graph :: "(jsnum \<Rightarrow> jsnum \<Rightarrow> jsnum) \<Rightarrow> js_string \<Rightarrow> stmt \<Rightarrow> cfg" where
  "leaf_graph pow stateVar rootIf =
     snd (traverseTree pow stateVar [(One rootIf, Inf True, Inf False)] (0, ControlFlowGraph stateVar))"

definition buildCFG ::
  "(jsnum \<Rightarrow> jsnum \<Rightarrow> jsnum) \<Rightarrow> js_string \<Rightarrow> stmt \<Rightarrow> jsnum option \<Rightarrow> cfg" where
  "buildCFG pow stateVar rootIf entryStateId =
     (let c = set_entry entryStateId (leaf_graph pow stateVar rootIf)
      in fold connect_block (map_keys (blocks c)) c)"

end
