(* ===== verification/CFG_Props.thy ===== *)
theory CFG_Props
  imports CFG
begin

text \<open>
  The shape of a control-flow graph that its operations keep, and the exactness of the
  reachability computation.
\<close>

section \<open>Well-formed graphs\<close>

text \<open>
  Every block is stored under its identifier; the successor and predecessor lists of the blocks
  are the graph's edges, in order; edges, entry and exits name blocks of the graph.
\<close>

definition wf_cfg :: "cfg \<Rightarrow> bool" where
  "wf_cfg c \<longleftrightarrow>
     map_wf (blocks c) \<and> NegZero \<notin> set (map_keys (blocks c)) \<and>
     (\<forall>(k, b) \<in> set (blocks c). block_id b = k \<and>
        successors b = filter (\<lambda>e. source e = k) (edges c) \<and>
        predecessors b = filter (\<lambda>e. target e = k) (edges c)) \<and>
     (\<forall>e \<in> set (edges c). source e \<in> set (map_keys (blocks c)) \<and>
        target e \<in> set (map_keys (blocks c))) \<and>
     set (exits c) \<subseteq> set (map_keys (blocks c)) \<and>
     set_option (entry c) \<subseteq> set (map_keys (blocks c))"

lemma map_key_idem [simp]: "map_key (map_key i) = map_key i"
  by (simp add: map_key_def)

lemma map_key_not_negzero [simp]: "map_key i \<noteq> NegZero"
  by (simp add: map_key_def)

lemma map_key_id: "i \<noteq> NegZero \<Longrightarrow> map_key i = i"
  by (simp add: map_key_def)

lemma getBlock_keys: "wf_cfg c \<Longrightarrow> i \<in> set (map_keys (blocks c)) \<longleftrightarrow> i \<noteq> NegZero \<and> getBlock c i \<noteq> None"
  by (metis getBlock_def map_get_keys map_key_id wf_cfg_def)

lemma wf_block:
  assumes "wf_cfg c" and "getBlock c i = Some b"
  shows "block_id b = map_key i"
    and "successors b = filter (\<lambda>e. source e = map_key i) (edges c)"
    and "predecessors b = filter (\<lambda>e. target e = map_key i) (edges c)"
    and "map_key i \<in> set (map_keys (blocks c))"
proof -
  have m: "(map_key i, b) \<in> set (blocks c)"
    using assms(2) by (simp add: getBlock_def map_get_mem)
  with assms(1) show "block_id b = map_key i"
    "successors b = filter (\<lambda>e. source e = map_key i) (edges c)"
    "predecessors b = filter (\<lambda>e. target e = map_key i) (edges c)"
    unfolding wf_cfg_def by blast+
  from m show "map_key i \<in> set (map_keys (blocks c))" by (force simp: map_keys_def)
qed

lemma entries_map_set:
  "(k, v) \<in> set (map_set m k0 v0) \<Longrightarrow> (k = k0 \<and> v = v0) \<or> (k, v) \<in> set m"
  by (induction m k0 v0 rule: map_set.induct) (auto split: if_splits)

lemma entries_map_set_wf:
  assumes "map_wf m"
  shows "(k, v) \<in> set (map_set m k0 v0) \<longleftrightarrow> (if k = k0 then v = v0 else (k, v) \<in> set m)"
  using map_get_entries[OF map_wf_set[OF assms], of k v k0 v0] map_get_entries[OF assms, of k v]
  by (auto simp: map_get_set)

lemma set_keys_map_set [simp]: "set (map_keys (map_set m k v)) = insert k (set (map_keys m))"
  by (auto simp: map_keys_set)

lemma wf_ControlFlowGraph: "wf_cfg (ControlFlowGraph v)"
  by (simp add: wf_cfg_def ControlFlowGraph_def map_keys_def)

lemma wf_addBlock:
  assumes "wf_cfg c" and "edges c = []" and "successors b = []" and "predecessors b = []"
    and "block_id b \<noteq> NegZero"
  shows "wf_cfg (addBlock b c)"
  using assms entries_map_set_wf[of "blocks c"]
  by (auto simp: wf_cfg_def addBlock_def split: if_splits)

text \<open>A change in place keeps the entries of the other blocks.\<close>

lemma update_block_keys [simp]:
  "map_keys (blocks (update_block i f c)) = map_keys (blocks c)"
  by (auto simp: update_block_def getBlock_def map_keys_set map_get_keys[symmetric] split: option.splits)

lemma update_block_fields [simp]:
  "edges (update_block i f c) = edges c" "entry (update_block i f c) = entry c"
  "exits (update_block i f c) = exits c" "dispatcherVar (update_block i f c) = dispatcherVar c"
  by (simp_all add: update_block_def split: option.splits)

lemma update_block_wf [simp]: "map_wf (blocks c) \<Longrightarrow> map_wf (blocks (update_block i f c))"
  by (simp add: update_block_def split: option.splits)

lemma update_block_entries:
  assumes "map_wf (blocks c)"
  shows "(k, b) \<in> set (blocks (update_block i f c)) \<longleftrightarrow>
    (if k = map_key i then \<exists>b0. (k, b0) \<in> set (blocks c) \<and> b = f b0 else (k, b) \<in> set (blocks c))"
proof (cases "map_get (blocks c) (map_key i)")
  case None
  then have "(map_key i, b0) \<notin> set (blocks c)" for b0
    using map_get_entries[OF assms, of "map_key i" b0] by simp
  with None show ?thesis by (auto simp: update_block_def getBlock_def)
next
  case (Some b1)
  then have "(map_key i, b0) \<in> set (blocks c) \<longleftrightarrow> b0 = b1" for b0
    using map_get_entries[OF assms, of "map_key i" b0] by auto
  with Some show ?thesis by (auto simp: update_block_def getBlock_def entries_map_set_wf[OF assms])
qed

lemma wf_addEdge:
  assumes wf: "wf_cfg c" and s: "s \<in> set (map_keys (blocks c))" and t: "t \<in> set (map_keys (blocks c))"
  shows "wf_cfg (addEdge s t ty cond c)"
proof -
  have keys: "map_key s = s" "map_key t = t" using wf s t by (auto simp: wf_cfg_def map_key_def)
  let ?e = "\<lparr>source = s, target = t, edge_kind = ty, condition = cond\<rparr>"
  let ?c = "update_block t (addPredecessor ?e) (update_block s (addSuccessor ?e) c)"
  have "block_id b = k \<and> successors b = filter (\<lambda>e. source e = k) (edges c @ [?e]) \<and>
      predecessors b = filter (\<lambda>e. target e = k) (edges c @ [?e])"
    if "(k, b) \<in> set (blocks ?c)" for k b
  proof -
    have m: "map_wf (blocks c)" using wf by (simp add: wf_cfg_def)
    have ok: "block_id b0 = k \<and> successors b0 = filter (\<lambda>e. source e = k) (edges c) \<and>
      predecessors b0 = filter (\<lambda>e. target e = k) (edges c)" if "(k, b0) \<in> set (blocks c)" for b0
      using wf that unfolding wf_cfg_def by blast
    from that obtain b1 where "(k, b1) \<in> set (blocks (update_block s (addSuccessor ?e) c))"
      and b: "b = (if k = t then addPredecessor ?e b1 else b1)"
      unfolding update_block_entries[OF update_block_wf[OF m]] keys by (auto split: if_splits)
    then obtain b0 where b0: "(k, b0) \<in> set (blocks c)"
      and b1: "b1 = (if k = s then addSuccessor ?e b0 else b0)"
      unfolding update_block_entries[OF m] keys by (auto split: if_splits)
    from ok[OF b0] show ?thesis
      unfolding b b1 by (simp add: addSuccessor_def addPredecessor_def)
  qed
  moreover have "map_wf (blocks ?c)" using wf by (simp add: wf_cfg_def)
  ultimately show ?thesis
    using wf s t unfolding wf_cfg_def addEdge_def Let_def
    by (intro conjI) (simp_all add: case_prod_unfold)
qed

section \<open>Reachable blocks\<close>

inductive reaches :: "cfg \<Rightarrow> block_id set \<Rightarrow> block_id \<Rightarrow> bool" for c S where
  here: "i \<in> S \<Longrightarrow> reaches c S i"
| step: "reaches c S i \<Longrightarrow> j \<in> set (block_targets c i) \<Longrightarrow> reaches c S j"

lemma fold_mark:
  "set (fst (fold mark is p)) = set (fst p) \<union> set is"
  "set (snd (fold mark is p)) = set (snd p) \<union> (set is - set (fst p))"
  "distinct (fst p) \<Longrightarrow> distinct (fst (fold mark is p))"
  by (induction "is" arbitrary: p) (simp_all add: mark_def insert_absorb, blast?)

text \<open>The loop ends with the identifiers it has and all that follow from the queue.\<close>

lemma reach_loop_exact:
  assumes "distinct seen" and "set queue \<subseteq> set seen" and "\<And>i. i \<in> set seen \<Longrightarrow> reaches c S i"
    and "\<And>i. i \<in> set seen - set queue \<Longrightarrow> set (block_targets c i) \<subseteq> set seen" and "S \<subseteq> set seen"
  shows "distinct (reach_loop c seen queue) \<and> set (reach_loop c seen queue) = {i. reaches c S i}"
  using assms
proof (induction c seen queue rule: reach_loop.induct)
  case (1 c seen)
  have "i \<in> set seen" if "reaches c S i" for i using that 1 by induction auto
  with 1 show ?case by auto
next
  case (2 c seen i queue)
  let ?p = "fold mark (block_targets c i) (seen, queue)"
  have s: "set (fst ?p) = set seen \<union> set (block_targets c i)"
    and q: "set (snd ?p) = set queue \<union> (set (block_targets c i) - set seen)"
    using 2(3) by (auto simp: fold_mark)
  have i: "reaches c S i" using 2(3,4) by simp
  have "distinct (reach_loop c (fst ?p) (snd ?p)) \<and>
      set (reach_loop c (fst ?p) (snd ?p)) = {i. reaches c S i}"
  proof (rule 2(1)[OF refl])
    show "distinct (fst ?p)" using 2(2) by (simp add: fold_mark)
    show "set (snd ?p) \<subseteq> set (fst ?p)" using s q 2(3) by auto
    show "reaches c S j" if "j \<in> set (fst ?p)" for j
      using that s 2(4) i by (auto intro: reaches.step)
    show "set (block_targets c j) \<subseteq> set (fst ?p)" if "j \<in> set (fst ?p) - set (snd ?p)" for j
      using that s q 2(5)[of j] by (cases "j = i") auto
    show "S \<subseteq> set (fst ?p)" using 2(6) s by auto
  qed
  then show ?case by (simp add: Let_def)
qed

lemma start_blocks_ok:
  "distinct (fst (start_blocks c from)) \<and> snd (start_blocks c from) = fst (start_blocks c from)"
proof -
  have "distinct (fst (foldl (add_start c) p is)) \<and>
      snd (foldl (add_start c) p is) = fst (foldl (add_start c) p is)"
    if "distinct (fst p) \<and> snd p = fst p" for p "is"
    using that
  proof (induction "is" arbitrary: p)
    case (Cons i "is")
    have "distinct (fst (add_start c p i)) \<and> snd (add_start c p i) = fst (add_start c p i)"
      using Cons.prems by (cases "find_start c i") (simp_all add: add_start_def mark_def)
    with Cons.IH show ?case by simp
  qed simp
  from this[of "([], [])"] show ?thesis
    by (cases "from") (simp_all add: start_blocks_def split: option.split)
qed

lemma wf_targets: 
  assumes "wf_cfg c" shows "set (block_targets c i) \<subseteq> set (map_keys (blocks c))"
proof (cases "getBlock c i")
  case (Some b)
  with wf_block(2)[OF assms Some] assms show ?thesis
    by (auto simp: block_targets_def wf_cfg_def)
qed (simp add: block_targets_def)

lemma wf_entry:
  assumes "wf_cfg c" and "(k, b) \<in> set (blocks c)"
  shows "block_id b = k \<and> k \<in> set (map_keys (blocks c))"
proof
  show "block_id b = k" using assms unfolding wf_cfg_def by blast
  show "k \<in> set (map_keys (blocks c))" using assms(2) by (force simp: map_keys_def)
qed

lemma wf_values: "\<lbrakk>wf_cfg c; b \<in> set (map_values (blocks c))\<rbrakk> \<Longrightarrow> block_id b \<in> set (map_keys (blocks c))"
  using wf_entry by (fastforce simp: map_values_def)

lemma wf_start:
  assumes "wf_cfg c" shows "set (fst (start_blocks c from)) \<subseteq> set (map_keys (blocks c))"
proof -
  have found: "block_id b \<in> set (map_keys (blocks c))" if "find_start c i = Some b" for i b
    using that assms wf_block[of c i b] wf_values[of c b]
    by (auto simp: find_start_def find_Some_iff split: option.splits)
  have "set (fst (foldl (add_start c) p is)) \<subseteq> set (map_keys (blocks c))"
    if "set (fst p) \<subseteq> set (map_keys (blocks c))" for p "is"
    using that
  proof (induction "is" arbitrary: p)
    case (Cons i "is")
    have "set (fst (add_start c p i)) \<subseteq> set (map_keys (blocks c))"
      using Cons.prems found by (auto simp: add_start_def mark_def split: option.splits)
    with Cons.IH show ?case by simp
  qed simp
  with assms show ?thesis
    using wf_block[OF assms] by (auto simp: start_blocks_def wf_cfg_def split: start_point.splits option.splits)
qed

text \<open>C11. Reachability is exact: in a well-formed graph the set has, once each, the blocks that a
  path of edges reaches from the starting points, the other set has all other blocks, and the
  two counters add up to the number of blocks.\<close>

theorem reachability_exact:
  assumes "wf_cfg c"
  shows "set (reachableSet (computeReachability from c)) =
      {i. reaches c (set (fst (start_blocks c from))) i} \<and>
    distinct (reachableSet (computeReachability from c)) \<and>
    set (unreachableSet (computeReachability from c)) =
      set (map_keys (blocks c)) - set (reachableSet (computeReachability from c)) \<and>
    reachable (computeReachability from c) + unreachable (computeReachability from c) =
      states (computeReachability from c)"
proof -
  obtain S where S: "start_blocks c from = (S, S)"
    using start_blocks_ok[of c "from"] by (metis prod.collapse)
  let ?r = "reach_loop c S S"
  have dS: "distinct S" using start_blocks_ok[of c "from"] S by simp
  have r: "distinct ?r" "set ?r = {i. reaches c (set S) i}"
    using reach_loop_exact[of S S c "set S"] dS by (auto intro: reaches.here)
  have "i \<in> set (map_keys (blocks c))" if "reaches c (set S) i" for i
    using that wf_start[OF assms, of "from"] wf_targets[OF assms] S by induction auto
  then have sub: "set ?r \<subseteq> set (map_keys (blocks c))" using r(2) by auto
  have "length (filter (\<lambda>i. i \<notin> set ?r) (map_keys (blocks c))) =
      card (set (map_keys (blocks c)) - set ?r)"
    using assms by (subst distinct_card[symmetric]) (auto simp: wf_cfg_def map_wf_def set_diff_eq)
  moreover have "length ?r = card (set ?r)" using r(1) by (simp add: distinct_card)
  moreover have "length (blocks c) = card (set (map_keys (blocks c)))"
    using assms by (simp add: wf_cfg_def map_wf_def distinct_card) (simp add: map_keys_def)
  moreover have "card (set ?r) \<le> card (set (map_keys (blocks c)))" by (rule card_mono[OF _ sub]) simp
  ultimately have "length ?r + length (filter (\<lambda>i. i \<notin> set ?r) (map_keys (blocks c))) = length (blocks c)"
    using card_Diff_subset[OF finite_set sub] by simp
  with r show ?thesis by (auto simp: computeReachability_def S Let_def)
qed

section \<open>A graph to run things on\<close>

text \<open>\<open>if c then a() else b() end; d()\<close> as blocks 1 to 4.\<close>

definition demo_block :: "jsnum \<Rightarrow> js_string \<Rightarrow> block" where
  "demo_block i f = addStatement (CallStatement (CallExpression (Identifier f) [])) (BasicBlock i)"

definition diamond :: cfg where
  "diamond =
     addEdge (Num 3) (Num 4) UNCONDITIONAL None (addEdge (Num 2) (Num 4) UNCONDITIONAL None
       (addEdge (Num 1) (Num 3) CONDITIONAL_FALSE (Some (Identifier [99]))
         (addEdge (Num 1) (Num 2) CONDITIONAL_TRUE (Some (Identifier [99]))
           (addBlock (demo_block (Num 4) [100]) (addBlock (demo_block (Num 3) [98])
             (addBlock (demo_block (Num 2) [97]) (addBlock (BasicBlock (Num 1))
               (ControlFlowGraph [81]))))))))"

text \<open>Two blocks that jump to each other.\<close>

definition two_cycle :: "jsnum \<Rightarrow> jsnum \<Rightarrow> cfg" where
  "two_cycle i j =
     addEdge j i UNCONDITIONAL None (addEdge i j UNCONDITIONAL None
       (addBlock (BasicBlock j) (addBlock (BasicBlock i) (ControlFlowGraph [81]))))"

lemma diamond_wf: "wf_cfg diamond"
  by code_simp

theorem reachability_exact_witness:
  "set (reachableSet (computeReachability (From_block (Num 2)) diamond)) =
    {i. reaches diamond (set (fst (start_blocks diamond (From_block (Num 2))))) i}"
  using reachability_exact[OF diamond_wf] by blast

end
