(* ===== verification/Dispatcher_Props.thy ===== *)
theory Dispatcher_Props
  imports Dispatcher CFG_Props Evaluator_Props JS_Number_Props
begin

text \<open>
  What the dispatcher analysis recovers: the blocks of a search tree over whole-numbered states
  are the leaves the loop runs, the edges are the transitions of the leaves.
\<close>

section \<open>What the loop runs\<close>

text \<open>The statements that the body of the loop runs when the state variable is \<open>s\<close>.\<close>

function select_leaf ::
  "(jsnum \<Rightarrow> jsnum \<Rightarrow> jsnum) \<Rightarrow> js_string \<Rightarrow> jsnum \<Rightarrow> tree_node \<Rightarrow> stmt list" where
  "select_leaf pow v s n =
     (case decision v n of
        None \<Rightarrow> node_stmts n
      | Some (bound, body, el) \<Rightarrow>
          (case threshold pow bound of
             None \<Rightarrow> []
           | Some t \<Rightarrow>
               if num_lt s t then select_leaf pow v s (branch_node body)
               else (case el of None \<Rightarrow> [] | Some b \<Rightarrow> select_leaf pow v s (branch_node b))))"
  by pat_completeness auto
termination
  by (relation "measure (\<lambda>(pow, v, s, n). node_size n)") (auto dest: decision_size)

declare select_leaf.simps [simp del]

text \<open>The leaves with their intervals, from the lowest states to the highest.\<close>

function leaves ::
  "(jsnum \<Rightarrow> jsnum \<Rightarrow> jsnum) \<Rightarrow> js_string \<Rightarrow> tree_node \<Rightarrow> jsnum \<Rightarrow> jsnum \<Rightarrow>
   (stmt list \<times> jsnum \<times> jsnum) list" where
  "leaves pow v n lo hi =
     (case decision v n of
        None \<Rightarrow> [(node_stmts n, lo, hi)]
      | Some (bound, body, el) \<Rightarrow>
          (let t = threshold pow bound in
           leaves pow v (branch_node body) lo (case t of Some t \<Rightarrow> t | None \<Rightarrow> hi) @
           (case el of None \<Rightarrow> []
            | Some b \<Rightarrow> leaves pow v (branch_node b) (case t of Some t \<Rightarrow> t | None \<Rightarrow> lo) hi)))"
  by pat_completeness auto
termination
  by (relation "measure (\<lambda>(pow, v, n, lo, hi). node_size n)") (auto dest: decision_size)

declare leaves.simps [simp del]

text \<open>
  A search tree: every decision compares with a whole number inside the interval of the states
  that get there, and has both branches. \<open>2 ^ 50\<close> keeps the arithmetic on states exact.
\<close>

definition state_number :: "jsnum \<Rightarrow> bool" where
  "state_number t \<longleftrightarrow>
     (case t of Num x \<Rightarrow> x = of_int \<lfloor>x\<rfloor> \<and> \<bar>x\<bar> \<le> 2 ^ 50 | _ \<Rightarrow> False)"

function search_tree ::
  "(jsnum \<Rightarrow> jsnum \<Rightarrow> jsnum) \<Rightarrow> js_string \<Rightarrow> tree_node \<Rightarrow> jsnum \<Rightarrow> jsnum \<Rightarrow> bool" where
  "search_tree pow v n lo hi =
     (case decision v n of
        None \<Rightarrow> True
      | Some (bound, body, el) \<Rightarrow>
          (case threshold pow bound of
             None \<Rightarrow> False
           | Some t \<Rightarrow>
               state_number t \<and> num_lt lo t \<and> num_lt t hi \<and>
               search_tree pow v (branch_node body) lo t \<and>
               (case el of None \<Rightarrow> False | Some b \<Rightarrow> search_tree pow v (branch_node b) t hi)))"
  by pat_completeness auto
termination
  by (relation "measure (\<lambda>(pow, v, n, lo, hi). node_size n)") (auto dest: decision_size)

declare search_tree.simps [simp del]

lemma search_tree_cases:
  assumes "search_tree pow v n lo hi"
  obtains (leaf) "decision v n = None" "leaves pow v n lo hi = [(node_stmts n, lo, hi)]"
      "\<And>s. select_leaf pow v s n = node_stmts n"
    | (node) bound body b t where "decision v n = Some (bound, body, Some b)"
      "threshold pow bound = Some t" "state_number t" "num_lt lo t" "num_lt t hi"
      "search_tree pow v (branch_node body) lo t" "search_tree pow v (branch_node b) t hi"
      "leaves pow v n lo hi = leaves pow v (branch_node body) lo t @ leaves pow v (branch_node b) t hi"
      "\<And>s. select_leaf pow v s n = select_leaf pow v s (branch_node (if num_lt s t then body else b))"
proof (cases "decision v n")
  case None
  with leaf show thesis by (simp add: leaves.simps select_leaf.simps)
next
  case (Some d)
  obtain bound body el where d: "d = (bound, body, el)" by (cases d)
  from assms Some d obtain t b where "threshold pow bound = Some t" "el = Some b"
    by (auto simp: search_tree.simps[of pow v n] split: option.splits)
  with node[of bound body b t] assms Some d show thesis
    by (simp add: search_tree.simps[of pow v n] leaves.simps[of pow v n] select_leaf.simps[of pow v _ n])
qed

text \<open>Intervals lie within the interval of the tree, in order.\<close>

definition boundary :: "jsnum \<Rightarrow> bool" where
  "boundary t \<longleftrightarrow> t = Inf True \<or> t = Inf False \<or> state_number t"

lemma boundary_not_NaN: "boundary t \<Longrightarrow> t \<noteq> NaN"
  by (auto simp: boundary_def state_number_def)

lemma leaves_within:
  assumes "search_tree pow v n lo hi" and "num_lt lo hi" and "boundary lo" and "boundary hi"
  shows "\<forall>(ss, a, b) \<in> set (leaves pow v n lo hi). num_le lo a \<and> num_lt a b \<and> num_le b hi \<and>
      boundary a \<and> boundary b"
    and "sorted_wrt (\<lambda>(_, _, b) (_, a, _). num_le b a) (leaves pow v n lo hi)"
  using assms
proof (induction "node_size n" arbitrary: n lo hi rule: less_induct)
  case less
  {
    case 1
    from this(1) show ?case
    proof (cases rule: search_tree_cases)
      case leaf
      with 1 show ?thesis by (simp add: num_le_refl boundary_not_NaN)
    next
      case (node bound body b t)
      then have t: "boundary t" by (simp add: boundary_def)
      from decision_size[OF node(1)] have sz: "node_size (branch_node body) < node_size n"
        "node_size (branch_node b) < node_size n" by auto
      from less(1)[OF sz(1) node(6,4) 1(3) t] less(1)[OF sz(2) node(7,5) t 1(4)] node(4,5,8)
      show ?thesis by (fastforce intro: num_le_trans dest: num_lt_imp_le)
    qed
  next
    case 2
    from this(1) show ?case
    proof (cases rule: search_tree_cases)
      case (node bound body b t)
      then have t: "boundary t" by (simp add: boundary_def)
      from decision_size[OF node(1)] have sz: "node_size (branch_node body) < node_size n"
        "node_size (branch_node b) < node_size n" by auto
      from less(1)[OF sz(1) node(6,4) 2(3) t] less(1)[OF sz(2) node(7,5) t 2(4)]
        less(2)[OF sz(1) node(6,4) 2(3) t] less(2)[OF sz(2) node(7,5) t 2(4)] node(8)
      show ?thesis by (fastforce simp: sorted_wrt_append intro: num_le_trans)
    qed simp
  }
qed

text \<open>The leaf that the loop runs is the one whose interval has the state.\<close>

definition covers :: "jsnum \<Rightarrow> stmt list \<times> jsnum \<times> jsnum \<Rightarrow> bool" where
  "covers s l \<longleftrightarrow> (case l of (ss, a, b) \<Rightarrow> num_le a s \<and> num_lt s b)"

lemma leaves_cover:
  assumes "search_tree pow v n lo hi" and "num_le lo s" and "num_lt s hi" and "boundary lo" and "boundary hi"
  shows "\<exists>a b. find (covers s) (leaves pow v n lo hi) = Some (select_leaf pow v s n, a, b)"
  using assms
proof (induction "node_size n" arbitrary: n lo hi rule: less_induct)
  case less
  from less(2) show ?case
  proof (cases rule: search_tree_cases)
    case leaf
    with less(3,4) show ?thesis by (simp add: covers_def)
  next
    case (node bound body b t)
    then have t: "boundary t" by (simp add: boundary_def)
    from decision_size[OF node(1)] have sz: "node_size (branch_node body) < node_size n"
      "node_size (branch_node b) < node_size n" by auto
    have find_app: "find P (xs @ ys) = (case find P xs of None \<Rightarrow> find P ys | r \<Rightarrow> r)"
      for P and xs ys :: "(stmt list \<times> jsnum \<times> jsnum) list" by (induction xs) auto
    show ?thesis
    proof (cases "num_lt s t")
      case True
      with less(1)[OF sz(1) node(6) less(3) _ less(5) t] node(8,9) show ?thesis
        by (auto simp: find_app)
    next
      case False
      then have ts: "num_le t s"
        using less(3) t boundary_not_NaN by (metis num_not_lt num_order_NaN(4))
      have "find (covers s) (leaves pow v (branch_node body) lo t) = None"
      proof -
        have "num_lt s t" if "num_lt s b" "num_le b t" for b using that by (rule num_lt_le_trans)
        with False leaves_within(1)[OF node(6,4) less(5) t] show ?thesis
          by (fastforce simp: find_None_iff covers_def)
      qed
      with less(1)[OF sz(2) node(7) ts less(4) t less(6)] node(8,9) False show ?thesis
        by (simp add: find_app)
    qed
  qed
qed

section \<open>The blocks\<close>

lemma state_number_cases:
  assumes "state_number t" obtains k where "t = Num (of_int k)" and "\<bar>k\<bar> \<le> 2 ^ 50"
proof -
  from assms obtain x where x: "t = Num x" "x = of_int \<lfloor>x\<rfloor>" "\<bar>x\<bar> \<le> 2 ^ 50"
    by (auto simp: state_number_def split: jsnum.splits)
  from x(2,3) have "of_int \<bar>\<lfloor>x\<rfloor>\<bar> \<le> (of_int (2 ^ 50) :: rat)" by simp
  then have "\<bar>\<lfloor>x\<rfloor>\<bar> \<le> 2 ^ 50" unfolding of_int_le_iff .
  with x that[of "\<lfloor>x\<rfloor>"] show thesis by simp
qed

text \<open>The identifier of a leaf is a state of its interval.\<close>

lemma leaf_state_inside:
  assumes "boundary a" and "boundary b" and "num_lt a b"
  shows "num_le a (map_key (leaf_state k a b)) \<and> num_lt (map_key (leaf_state k a b)) b"
proof -
  have key: "map_key (Num x) = Num x" for x by (simp add: map_key_def)
  show ?thesis
  proof (cases "isFinite a")
    case True
    with assms(1) obtain i where a: "a = Num (of_int i)" and ib: "\<bar>i\<bar> \<le> 2 ^ 50"
      by (auto simp: boundary_def isFinite_def elim: state_number_cases)
    show ?thesis
    proof (cases "isFinite b")
      case True
      with assms(2) obtain j where b: "b = Num (of_int j)" and jb: "\<bar>j\<bar> \<le> 2 ^ 50"
        by (auto simp: boundary_def isFinite_def elim: state_number_cases)
      have ij: "i < j" using assms(3) a b by simp
      have sum: "num_add a b = Num (of_int (i + j))"
        using round_double_int[of "i + j"] ib jb by (simp add: num_add_def a b value_of_def)
      have half: "num_div (Num (of_int (i + j))) (Num 2) = Num (of_int (i + j) / 2)"
        using round_double_half[of "i + j"] ib jb
        by (auto simp: num_div_def isFinite_def is_zero_def is_neg_def signed_zero_def value_of_def)
      have fl: "\<lfloor>of_int (i + j) / (2 :: rat)\<rfloor> = (i + j) div 2"
        using floor_divide_of_int_eq[of "i + j" 2, where 'a = rat] by simp
      have "leaf_state k a b = num_floor (num_div (num_add a b) (Num 2))"
        by (simp add: leaf_state_def a b isFinite_def)
      then have "leaf_state k a b = Num (of_int ((i + j) div 2))"
        unfolding sum half num_floor_def by (simp add: fl del: of_int_add)
      moreover have "i \<le> (i + j) div 2" "(i + j) div 2 < j" using ij by presburger+
      ultimately show ?thesis by (simp add: key a b del: of_int_add)
    qed (use assms True in \<open>auto simp: leaf_state_def a key boundary_def state_number_def isFinite_def
        split: jsnum.splits\<close>)
  next
    case False
    show ?thesis
    proof (cases "isFinite b")
      case True
      with assms(2) obtain j where b: "b = Num (of_int j)" and jb: "\<bar>j\<bar> \<le> 2 ^ 50"
        by (auto simp: boundary_def isFinite_def elim: state_number_cases)
      have "num_sub b (Num 1) = Num (of_int (j - 1))"
        using round_double_int[of "j - 1"] jb by (simp add: num_sub_def num_neg_def num_add_def b value_of_def)
      with False True assms(1,3) show ?thesis
        by (auto simp: leaf_state_def b key boundary_def state_number_def isFinite_def
            split: jsnum.splits)
    qed (use assms False in \<open>auto simp: leaf_state_def key boundary_def state_number_def isFinite_def
        num_lt_def split: jsnum.splits\<close>)
  qed
qed

text \<open>A leaf's block keeps the statements, with the values of assignments folded in place.\<close>

definition rewritten :: "(jsnum \<Rightarrow> jsnum \<Rightarrow> jsnum) \<Rightarrow> stmt \<Rightarrow> stmt" where
  "rewritten pow st =
     (case st of
        AssignmentStatement [Identifier v] (e # es) \<Rightarrow>
          AssignmentStatement [Identifier v] (fold_inside pow e # es)
      | _ \<Rightarrow> st)"

lemma scan_assignment_block:
  "block_id (leaf_block (scan_assignment pow q v e sc)) = block_id (leaf_block sc)"
  "minState (leaf_block (scan_assignment pow q v e sc)) = minState (leaf_block sc)"
  "maxState (leaf_block (scan_assignment pow q v e sc)) = maxState (leaf_block sc)"
  "statements (leaf_block (scan_assignment pow q v e sc)) = statements (leaf_block sc)"
  "successors (leaf_block (scan_assignment pow q v e sc)) = successors (leaf_block sc)"
  "predecessors (leaf_block (scan_assignment pow q v e sc)) = predecessors (leaf_block sc)"
  by (simp_all add: scan_assignment_def add_transitions_def Let_def split_beta)

lemma scan_stmt_block:
  "block_id (leaf_block (scan_stmt pow q st sc)) = block_id (leaf_block sc)"
  "minState (leaf_block (scan_stmt pow q st sc)) = minState (leaf_block sc)"
  "maxState (leaf_block (scan_stmt pow q st sc)) = maxState (leaf_block sc)"
  "statements (leaf_block (scan_stmt pow q st sc)) = statements (leaf_block sc) @ [rewritten pow st]"
  "successors (leaf_block (scan_stmt pow q st sc)) = successors (leaf_block sc)"
  "predecessors (leaf_block (scan_stmt pow q st sc)) = predecessors (leaf_block sc)"
  by (auto simp: scan_stmt_def rewritten_def scan_assignment_block addStatement_def
      split: stmt.split list.split expr.split)

lemma fold_scan_block:
  "block_id (leaf_block (fold (scan_stmt pow q) ss sc)) = block_id (leaf_block sc)"
  "minState (leaf_block (fold (scan_stmt pow q) ss sc)) = minState (leaf_block sc)"
  "maxState (leaf_block (fold (scan_stmt pow q) ss sc)) = maxState (leaf_block sc)"
  "statements (leaf_block (fold (scan_stmt pow q) ss sc)) =
     statements (leaf_block sc) @ map (rewritten pow) ss"
  "successors (leaf_block (fold (scan_stmt pow q) ss sc)) = successors (leaf_block sc)"
  "predecessors (leaf_block (fold (scan_stmt pow q) ss sc)) = predecessors (leaf_block sc)"
  by (induction ss arbitrary: sc) (simp_all add: scan_stmt_block)

lemma make_leaf_block [simp]:
  "block_id (make_leaf pow q k ss lo hi) = map_key (leaf_state k lo hi)"
  "minState (make_leaf pow q k ss lo hi) = Some lo"
  "maxState (make_leaf pow q k ss lo hi) = Some hi"
  "statements (make_leaf pow q k ss lo hi) = map (rewritten pow) ss"
  "successors (make_leaf pow q k ss lo hi) = []"
  "predecessors (make_leaf pow q k ss lo hi) = []"
  by (simp_all add: make_leaf_def fold_scan_block BasicBlock_def)

text \<open>The work list visits the leaves in order.\<close>

definition visit_leaf ::
  "(jsnum \<Rightarrow> jsnum \<Rightarrow> jsnum) \<Rightarrow> js_string \<Rightarrow> stmt list \<times> jsnum \<times> jsnum \<Rightarrow> nat \<times> cfg \<Rightarrow> nat \<times> cfg" where
  "visit_leaf pow v l p = (case l of (ss, lo, hi) \<Rightarrow> extractLeafBlock pow v ss lo hi p)"

declare traverseTree.simps(2) [simp del]

lemma traverseTree_leaves:
  "traverseTree pow v pending p =
     fold (visit_leaf pow v) (concat (map (\<lambda>(n, lo, hi). leaves pow v n lo hi) pending)) p"
proof (induction pow v pending p rule: traverseTree.induct)
  case (2 pow v n lo hi pending p)
  show ?case
  proof (cases "decision v n")
    case None
    with 2(1) show ?thesis
      by (simp add: traverseTree.simps(2)[of pow v n] leaves.simps[of pow v n] visit_leaf_def)
  next
    case (Some d)
    obtain bound body el where d: "d = (bound, body, el)" by (cases d)
    with 2(2)[OF Some d[symmetric] refl refl refl refl] Some show ?thesis
      by (cases el) (simp_all add: traverseTree.simps(2)[of pow v n] leaves.simps[of pow v n] Let_def)
  qed
qed simp

fun leaf_blocks ::
  "(jsnum \<Rightarrow> jsnum \<Rightarrow> jsnum) \<Rightarrow> js_string \<Rightarrow> nat \<Rightarrow> (stmt list \<times> jsnum \<times> jsnum) list \<Rightarrow> block list" where
  "leaf_blocks pow v k [] = []"
| "leaf_blocks pow v k ((ss, lo, hi) # ls) = make_leaf pow v (Suc k) ss lo hi # leaf_blocks pow v (Suc k) ls"

lemma map_set_new: "k \<notin> set (map_keys m) \<Longrightarrow> map_set m k v = m @ [(k, v)]"
  by (induction m k v rule: map_set.induct) (auto simp: map_keys_def)

lemma visit_leaf_distinct:
  assumes "distinct (map_keys (blocks c) @ map block_id (leaf_blocks pow v k ls))"
  shows "snd (fold (visit_leaf pow v) ls (k, c)) =
    c\<lparr>blocks := blocks c @ map (\<lambda>b. (block_id b, b)) (leaf_blocks pow v k ls)\<rparr>"
  using assms
proof (induction ls arbitrary: k c)
  case (Cons l ls)
  obtain ss lo hi where l: "l = (ss, lo, hi)" by (cases l)
  let ?b = "make_leaf pow v (Suc k) ss lo hi"
  have "block_id ?b \<notin> set (map_keys (blocks c))" using Cons.prems l by auto
  then have c: "addBlock ?b c = c\<lparr>blocks := blocks c @ [(block_id ?b, ?b)]\<rparr>"
    by (simp add: addBlock_def map_set_new)
  have "distinct (map_keys (blocks (addBlock ?b c)) @ map block_id (leaf_blocks pow v (Suc k) ls))"
    using Cons.prems unfolding c l by (simp add: map_keys_def)
  from Cons.IH[OF this] show ?case
    by (simp add: l visit_leaf_def extractLeafBlock_def Let_def c)
qed simp

lemma leaf_blocks_distinct:
  assumes "\<forall>(ss, a, b) \<in> set ls. num_lt a b \<and> boundary a \<and> boundary b"
    and "sorted_wrt (\<lambda>(_, _, b) (_, a, _). num_le b a) ls"
  shows "distinct (map block_id (leaf_blocks pow v k ls))"
  using assms
proof (induction ls arbitrary: k)
  case (Cons l ls)
  obtain ss a b where l: "l = (ss, a, b)" by (cases l)
  let ?i = "map_key (leaf_state (Suc k) a b)"
  have i: "num_lt ?i b" using Cons.prems(1) leaf_state_inside l by auto
  have above: "num_le b j" if "j \<in> set (map block_id (leaf_blocks pow v n ls))" for j n
    using that Cons.prems l
  proof (induction ls arbitrary: n)
    case (Cons l' ls)
    obtain ss' a' b' where l': "l' = (ss', a', b')" by (cases l')
    have "num_le a' (map_key (leaf_state (Suc n) a' b'))" "num_le b a'"
      using Cons.prems l l' leaf_state_inside by auto
    then show ?case using Cons.IH[of "Suc n"] Cons.prems l l' by (auto intro: num_le_trans)
  qed simp
  have "?i \<notin> set (map block_id (leaf_blocks pow v (Suc k) ls))"
    using above[of ?i "Suc k"] num_lt_le_trans[OF i] by fastforce
  with Cons l show ?case by auto
qed simp

lemma leaf_graph_blocks:
  assumes "search_tree pow v (One rt) (Inf True) (Inf False)"
  shows "blocks (leaf_graph pow v rt) =
    map (\<lambda>b. (block_id b, b)) (leaf_blocks pow v 0 (leaves pow v (One rt) (Inf True) (Inf False)))"
proof -
  have inf: "num_lt (Inf True) (Inf False)" "boundary (Inf True)" "boundary (Inf False)"
    by (simp_all add: num_lt_def boundary_def)
  have "distinct (map block_id (leaf_blocks pow v 0 (leaves pow v (One rt) (Inf True) (Inf False))))"
    using leaves_within[OF assms inf] by (intro leaf_blocks_distinct) auto
  then show ?thesis
    by (subst leaf_graph_def) (simp add: traverseTree_leaves visit_leaf_distinct ControlFlowGraph_def map_keys_def)
qed

section \<open>Edges, entry and exits\<close>

text \<open>What connecting the blocks leaves as it is.\<close>

definition fixed_part :: "block \<Rightarrow> jsnum \<times> stmt list \<times> transition list \<times> bool \<times> jsnum option \<times> jsnum option" where
  "fixed_part b = (block_id b, statements b, stateTransitions b, isExit b, minState b, maxState b)"

definition fixed_parts :: "cfg \<Rightarrow> _ list" where
  "fixed_parts c = map (\<lambda>(k, b). (k, fixed_part b)) (blocks c)"

lemma map_set_present:
  "map_get m k = Some v0 \<Longrightarrow> g v = g v0 \<Longrightarrow>
   map (\<lambda>(k, b). (k, g b)) (map_set m k v) = map (\<lambda>(k, b). (k, g b)) m"
  by (induction m k v rule: map_set.induct) (auto simp: map_get_def split: if_splits)

lemma fixed_update [simp]:
  assumes "\<And>b. fixed_part (f b) = fixed_part b"
  shows "fixed_parts (update_block i f c) = fixed_parts c"
  using assms
  by (auto simp: update_block_def fixed_parts_def getBlock_def intro!: map_set_present
      split: option.splits)

lemma fixed_addEdge [simp]: "fixed_parts (addEdge s t ty cond c) = fixed_parts c"
proof -
  have "fixed_parts (c\<lparr>edges := es\<rparr>) = fixed_parts c" for es c by (simp add: fixed_parts_def)
  then show ?thesis
    by (simp add: addEdge_def Let_def fixed_part_def addSuccessor_def addPredecessor_def)
qed

lemma find_map: "find P (map f xs) = map_option f (find (P \<circ> f) xs)"
  by (induction xs) auto

text \<open>Lookups see only the fixed parts.\<close>

definition in_fixed :: "jsnum \<Rightarrow> jsnum \<times> stmt list \<times> transition list \<times> bool \<times> jsnum option \<times> jsnum option \<Rightarrow> bool" where
  "in_fixed s f =
     (case f of (i, ss, ts, ex, lo, hi) \<Rightarrow>
        (case (lo, hi) of (Some lo, Some hi) \<Rightarrow> num_le lo s \<and> num_lt s hi | _ \<Rightarrow> False))"

lemma in_fixed_part [simp]: "in_fixed s (fixed_part b) = in_range s b"
  by (simp add: in_fixed_def fixed_part_def in_range_def)

lemma find_fixed:
  "map_option fixed_part (find (in_range s) (map_values (blocks c))) =
   find (in_fixed s) (map snd (fixed_parts c))"
proof -
  have "map snd (fixed_parts c) = map fixed_part (map_values (blocks c))"
    by (simp add: fixed_parts_def map_values_def case_prod_unfold)
  then show ?thesis by (simp add: find_map comp_def)
qed

lemma block_for_fixed:
  assumes "fixed_parts c' = fixed_parts c" shows "block_for c' s = block_for c s"
proof -
  have "block_for d s = map_option fst (find (in_fixed s) (map snd (fixed_parts d)))" for d
    unfolding find_fixed[symmetric]
    by (simp add: block_for_def option.map_comp comp_def fixed_part_def)
  with assms show ?thesis by simp
qed

lemma fixed_keys: "map fst (fixed_parts c) = map_keys (blocks c)"
  by (simp add: fixed_parts_def map_keys_def case_prod_unfold comp_def)

lemma map_of_fixed: "map_of (fixed_parts c) k = map_option fixed_part (map_of (blocks c) k)"
  by (simp add: fixed_parts_def map_of_map)

lemma getBlock_fixed:
  assumes "fixed_parts c' = fixed_parts c"
  shows "map_option fixed_part (getBlock c' i) = map_option fixed_part (getBlock c i)"
  using map_of_fixed[of c' "map_key i"] map_of_fixed[of c "map_key i"] assms
  by (simp add: getBlock_def map_get_def)

text \<open>The edge of a transition, if it has one.\<close>

definition transition_edge :: "cfg \<Rightarrow> block_id \<Rightarrow> transition \<Rightarrow> edge option" where
  "transition_edge c i tr =
     (case tr of
        Goto s ty cond \<Rightarrow>
          map_option (\<lambda>t. \<lparr>source = i, target = t, edge_kind = ty, condition = cond\<rparr>) (block_for c s)
      | Dynamic e \<Rightarrow> None)"

lemma addEdge_fields [simp]:
  "edges (addEdge s t ty cond c) =
     edges c @ [\<lparr>source = s, target = t, edge_kind = ty, condition = cond\<rparr>]"
  "exits (addEdge s t ty cond c) = exits c" "entry (addEdge s t ty cond c) = entry c"
  by (simp_all add: addEdge_def Let_def)

lemma connect_transition_effect:
  assumes "fixed_parts c' = fixed_parts c"
  shows "edges (connect_transition i tr c') =
      edges c' @ (case transition_edge c i tr of None \<Rightarrow> [] | Some e \<Rightarrow> [e])"
    and "exits (connect_transition i tr c') = exits c'"
    and "entry (connect_transition i tr c') = entry c'"
    and "fixed_parts (connect_transition i tr c') = fixed_parts c"
  using assms block_for_fixed[OF assms]
  by (cases tr; simp add: connect_transition_def transition_edge_def split: option.split)+

lemma connect_transitions:
  assumes "fixed_parts c' = fixed_parts c"
  shows "edges (fold (connect_transition i) ts c') = edges c' @ List.map_filter (transition_edge c i) ts"
    and "exits (fold (connect_transition i) ts c') = exits c'"
    and "entry (fold (connect_transition i) ts c') = entry c'"
    and "fixed_parts (fold (connect_transition i) ts c') = fixed_parts c"
  using assms
  by (induction ts arbitrary: c')
    (simp_all add: connect_transition_effect map_filter_simps split: option.split)

definition block_edges :: "cfg \<Rightarrow> block_id \<Rightarrow> edge list" where
  "block_edges c i =
     (case getBlock c i of None \<Rightarrow> [] | Some b \<Rightarrow> List.map_filter (transition_edge c i) (stateTransitions b))"

definition is_exit_block :: "cfg \<Rightarrow> block_id \<Rightarrow> bool" where
  "is_exit_block c i \<longleftrightarrow> (case getBlock c i of None \<Rightarrow> False | Some b \<Rightarrow> isExit b)"

lemma connect_block_effect:
  assumes "fixed_parts c' = fixed_parts c"
  shows "edges (connect_block i c') = edges c' @ block_edges c i"
    and "exits (connect_block i c') = exits c' @ (if is_exit_block c i then [i] else [])"
    and "entry (connect_block i c') = entry c'"
    and "fixed_parts (connect_block i c') = fixed_parts c"
proof -
  have ex: "fixed_parts (d\<lparr>exits := e\<rparr>) = fixed_parts d" for d e by (simp add: fixed_parts_def)
  from getBlock_fixed[OF assms, of i] connect_transitions[OF assms, of i] assms ex
  show "edges (connect_block i c') = edges c' @ block_edges c i"
    "exits (connect_block i c') = exits c' @ (if is_exit_block c i then [i] else [])"
    "entry (connect_block i c') = entry c'"
    "fixed_parts (connect_block i c') = fixed_parts c"
    by (cases "getBlock c i"; cases "getBlock c' i";
        simp add: connect_block_def block_edges_def is_exit_block_def fixed_part_def Let_def)+
qed

lemma connect_blocks_effect:
  assumes "fixed_parts c' = fixed_parts c"
  shows "edges (fold connect_block is c') = edges c' @ concat (map (block_edges c) is)"
    and "exits (fold connect_block is c') = exits c' @ filter (is_exit_block c) is"
    and "entry (fold connect_block is c') = entry c'"
    and "fixed_parts (fold connect_block is c') = fixed_parts c"
  using assms by (induction "is" arbitrary: c') (simp_all add: connect_block_effect)

section \<open>The graph of a dispatcher\<close>

lemma block_for_key:
  assumes "wf_cfg c" and "block_for c s = Some i"
  shows "i \<in> set (map_keys (blocks c))"
  using assms wf_values[OF assms(1)]
  by (auto simp: block_for_def find_Some_iff)

lemma wf_update:
  assumes "wf_cfg c" and "\<And>b. block_id (f b) = block_id b"
    and "\<And>b. successors (f b) = successors b" and "\<And>b. predecessors (f b) = predecessors b"
  shows "wf_cfg (update_block i f c)"
proof -
  have m: "map_wf (blocks c)" using assms(1) by (simp add: wf_cfg_def)
  have "block_id b = k \<and> successors b = filter (\<lambda>e. source e = k) (edges c) \<and>
      predecessors b = filter (\<lambda>e. target e = k) (edges c)"
    if "(k, b) \<in> set (blocks (update_block i f c))" for k b
  proof -
    from that obtain b0 where "(k, b0) \<in> set (blocks c)" "b = (if k = map_key i then f b0 else b0)"
      unfolding update_block_entries[OF m] by (auto split: if_splits)
    with assms show ?thesis unfolding wf_cfg_def by auto
  qed
  with assms(1) show ?thesis unfolding wf_cfg_def by (auto simp: case_prod_unfold)
qed

lemma wf_connect_transition:
  assumes "wf_cfg c" and "i \<in> set (map_keys (blocks c))"
  shows "wf_cfg (connect_transition i tr c)"
  using assms block_for_key[OF assms(1)]
  by (auto simp: connect_transition_def wf_addEdge split: transition.split option.split)

lemma keys_connect [simp]: "map_keys (blocks (connect_transition i tr c)) = map_keys (blocks c)"
  by (simp flip: fixed_keys add: connect_transition_effect[OF refl])

lemma wf_connect_transitions:
  "\<lbrakk>wf_cfg c; i \<in> set (map_keys (blocks c))\<rbrakk> \<Longrightarrow> wf_cfg (fold (connect_transition i) ts c)"
  by (induction ts arbitrary: c) (simp_all add: wf_connect_transition)

lemma wf_connect_block:
  assumes "wf_cfg c" and "i \<in> set (map_keys (blocks c))"
  shows "wf_cfg (connect_block i c)"
proof (cases "getBlock c i")
  case (Some b)
  let ?d = "fold (connect_transition i) (stateTransitions b) c"
  have "map_keys (blocks ?d) = map_keys (blocks c)"
    by (simp flip: fixed_keys add: connect_transitions[OF refl])
  with wf_connect_transitions[OF assms, of "stateTransitions b"] assms(2) Some show ?thesis
    by (auto simp: connect_block_def Let_def wf_cfg_def)
qed (simp add: connect_block_def assms)

lemma wf_connect_blocks:
  "\<lbrakk>wf_cfg c; set is \<subseteq> set (map_keys (blocks c))\<rbrakk> \<Longrightarrow> wf_cfg (fold connect_block is c)"
proof (induction "is" arbitrary: c)
  case (Cons i "is")
  have "map_keys (blocks (connect_block i c)) = map_keys (blocks c)"
    by (simp flip: fixed_keys add: connect_block_effect[OF refl])
  with Cons show ?case by (simp add: wf_connect_block)
qed simp

lemma wf_leaf_graph: "wf_cfg (leaf_graph pow q rt) \<and> edges (leaf_graph pow q rt) = [] \<and>
  exits (leaf_graph pow q rt) = []"
proof -
  have "wf_cfg (snd (fold (visit_leaf pow q) ls p)) \<and> edges (snd (fold (visit_leaf pow q) ls p)) = [] \<and>
      exits (snd (fold (visit_leaf pow q) ls p)) = []"
    if "wf_cfg (snd p)" "edges (snd p) = []" "exits (snd p) = []" for ls p
    using that
  proof (induction ls arbitrary: p)
    case (Cons l ls)
    obtain ss lo hi where l: "l = (ss, lo, hi)" by (cases l)
    have "wf_cfg (snd (visit_leaf pow q l p))" "edges (snd (visit_leaf pow q l p)) = []"
      "exits (snd (visit_leaf pow q l p)) = []"
      using Cons.prems by (simp_all add: l visit_leaf_def extractLeafBlock_def Let_def wf_addBlock)
        (simp_all add: addBlock_def)
    with Cons.IH show ?case by simp
  qed simp
  from this[of "(0, ControlFlowGraph q)" "leaves pow q (One rt) (Inf True) (Inf False)"]
  show ?thesis
    using wf_ControlFlowGraph[of q]
    by (simp add: leaf_graph_def traverseTree_leaves) (simp add: ControlFlowGraph_def)
qed

lemma set_entry_effect:
  assumes "wf_cfg c"
  shows "wf_cfg (set_entry e c)" and "fixed_parts (set_entry e c) = fixed_parts c"
    and "edges (set_entry e c) = edges c" and "exits (set_entry e c) = exits c"
proof -
  have f: "fixed_parts (d\<lparr>entry := x\<rparr>) = fixed_parts d" for d x by (simp add: fixed_parts_def)
  have "wf_cfg (c\<lparr>entry := Some i\<rparr>)" if "i \<in> set (map_keys (blocks c))" for i
    using assms that by (simp add: wf_cfg_def)
  then show "wf_cfg (set_entry e c)"
    using block_for_key[OF assms] assms
    by (auto simp: set_entry_def intro!: wf_update split: option.split)
  show "fixed_parts (set_entry e c) = fixed_parts c" "edges (set_entry e c) = edges c"
    "exits (set_entry e c) = exits c"
    by (simp_all add: set_entry_def f fixed_part_def split: option.split)
qed

lemma buildCFG_fixed: "fixed_parts (buildCFG pow q rt e) = fixed_parts (leaf_graph pow q rt)"
  using set_entry_effect[of "leaf_graph pow q rt" e] wf_leaf_graph[of pow q rt]
  by (simp add: buildCFG_def Let_def connect_blocks_effect)

text \<open>The graph of a dispatcher is well formed; its edges are the transitions of its blocks to
  the block whose interval has the new state, in the order of the blocks, and its exits are the
  blocks that end the loop.\<close>

theorem dispatcher_edges:
  "wf_cfg (buildCFG pow q rt e) \<and>
   edges (buildCFG pow q rt e) =
     concat (map (block_edges (buildCFG pow q rt e)) (map_keys (blocks (buildCFG pow q rt e)))) \<and>
   exits (buildCFG pow q rt e) =
     filter (is_exit_block (buildCFG pow q rt e)) (map_keys (blocks (buildCFG pow q rt e)))"
proof -
  let ?c0 = "leaf_graph pow q rt"
  let ?c1 = "set_entry e ?c0"
  note w = wf_leaf_graph[of pow q rt]
  note s = set_entry_effect[of ?c0 e]
  let ?c = "buildCFG pow q rt e"
  have f: "fixed_parts ?c1 = fixed_parts ?c" using s w buildCFG_fixed[of pow q rt e] by simp
  have k: "map_keys (blocks ?c1) = map_keys (blocks ?c)" by (simp flip: fixed_keys add: f)
  have "wf_cfg ?c" unfolding buildCFG_def Let_def using s w by (intro wf_connect_blocks) auto
  moreover have "edges ?c = edges ?c1 @ concat (map (block_edges ?c) (map_keys (blocks ?c1)))"
    by (subst buildCFG_def) (simp add: Let_def connect_blocks_effect(1)[OF f])
  moreover have "exits ?c = exits ?c1 @ filter (is_exit_block ?c) (map_keys (blocks ?c1))"
    by (subst buildCFG_def) (simp add: Let_def connect_blocks_effect(2)[OF f])
  ultimately show ?thesis using s w k by simp
qed

lemma find_leaf_block:
  "find (covers s) ls = Some (ss, a, b) \<Longrightarrow>
   \<exists>b. find (in_range s) (leaf_blocks pow q k ls) = Some b \<and> statements b = map (rewritten pow) ss"
proof (induction ls arbitrary: k)
  case (Cons l ls)
  obtain ss' lo hi where l: "l = (ss', lo, hi)" by (cases l)
  have "in_range s (make_leaf pow q (Suc k) ss' lo hi) = covers s l"
    by (simp add: in_range_def covers_def l)
  with Cons l show ?case by (auto split: if_splits)
qed simp

text \<open>C12. For a search tree over whole-numbered states the analysis loses no leaf, and for every
  finite state the block whose interval has the state holds the statements that the loop runs in
  that state, with the values of their assignments folded in place.\<close>

theorem dispatcher_recovers_leaves:
  assumes "search_tree pow q (One rt) (Inf True) (Inf False)" and "isFinite s"
  shows "length (blocks (buildCFG pow q rt e)) = length (leaves pow q (One rt) (Inf True) (Inf False)) \<and>
    (\<exists>b. find (in_range s) (map_values (blocks (buildCFG pow q rt e))) = Some b \<and>
         statements b = map (rewritten pow) (select_leaf pow q s (One rt)))"
proof -
  let ?ls = "leaves pow q (One rt) (Inf True) (Inf False)"
  have "num_le (Inf True) s" "num_lt s (Inf False)" "boundary (Inf True)" "boundary (Inf False)"
    using assms(2) by (auto simp: isFinite_def num_le_def num_lt_def boundary_def split: jsnum.splits)
  from leaves_cover[OF assms(1) this] obtain a b
    where "find (covers s) ?ls = Some (select_leaf pow q s (One rt), a, b)" by blast
  from find_leaf_block[OF this, of pow q 0] obtain bl where
    bl: "find (in_range s) (leaf_blocks pow q 0 ?ls) = Some bl"
    "statements bl = map (rewritten pow) (select_leaf pow q s (One rt))" by blast
  have v: "map_values (blocks (leaf_graph pow q rt)) = leaf_blocks pow q 0 ?ls"
    by (simp add: leaf_graph_blocks[OF assms(1)] map_values_def comp_def)
  have "map_option fixed_part (find (in_range s) (map_values (blocks (buildCFG pow q rt e)))) =
      Some (fixed_part bl)"
    by (simp add: find_fixed buildCFG_fixed) (simp flip: find_fixed add: v bl)
  then obtain b' where "find (in_range s) (map_values (blocks (buildCFG pow q rt e))) = Some b'"
    "fixed_part b' = fixed_part bl" by auto
  with bl(2) have "\<exists>b. find (in_range s) (map_values (blocks (buildCFG pow q rt e))) = Some b \<and>
         statements b = map (rewritten pow) (select_leaf pow q s (One rt))"
    by (auto simp: fixed_part_def)
  moreover have "length (leaf_blocks pow q k ls) = length ls" for k ls
    by (induction ls arbitrary: k) auto
  then have "length (fixed_parts (buildCFG pow q rt e)) = length ?ls"
    unfolding buildCFG_fixed by (simp add: fixed_parts_def leaf_graph_blocks[OF assms(1)])
  then have "length (blocks (buildCFG pow q rt e)) = length ?ls"
    unfolding fixed_parts_def by simp
  ultimately show ?thesis by blast
qed

text \<open>The program \<open>while Q do if Q < 10 then Q = 12 else if Q < 20 then Q = nil else x = 1 end end end\<close>.\<close>

definition demo_tree :: stmt where
  "demo_tree =
     IfStatement [Clause (BinaryExpression ''<'' (Identifier [81]) (NumericLiteral (Num 10) []))
         [AssignmentStatement [Identifier [81]] [NumericLiteral (Num 12) []]]]
       (Some [IfStatement [Clause (BinaryExpression ''<'' (Identifier [81]) (NumericLiteral (Num 20) []))
           [AssignmentStatement [Identifier [81]] [NilLiteral]]]
         (Some [AssignmentStatement [Identifier [120]] [NumericLiteral (Num 1) []]])])"

lemma demo_search_tree: "search_tree pow [81] (One demo_tree) (Inf True) (Inf False)"
  by (simp add: demo_tree_def search_tree.simps decision_def threshold_def folded_def fold_node_def
      finish_expr_def fold_transformer_def fold_expr_def branch_node_def state_number_def)

theorem dispatcher_recovers_leaves_witness:
  "length (blocks (buildCFG (\<lambda>a b. NaN) [81] demo_tree (Some (Num 5)))) =
     length (leaves (\<lambda>a b. NaN) [81] (One demo_tree) (Inf True) (Inf False)) \<and>
   (\<exists>b. find (in_range (Num 12)) (map_values (blocks (buildCFG (\<lambda>a b. NaN) [81] demo_tree (Some (Num 5)))))
       = Some b \<and>
     statements b = map (rewritten (\<lambda>a b. NaN)) (select_leaf (\<lambda>a b. NaN) [81] (Num 12) (One demo_tree)))"
  using dispatcher_recovers_leaves[OF demo_search_tree, of "Num 12"] by (simp add: isFinite_def)

end
