(* ===== verification/Transition_Props.thy ===== *)
theory Transition_Props
  imports Dispatcher_Props
begin

text \<open>
  The transitions of a leaf against the value that the state variable gets, and where the
  analysis of a leaf goes wrong.
\<close>

definition constants_hold :: "lua_semantics \<Rightarrow> (js_string, jsnum) js_map \<Rightarrow> bool" where
  "constants_hold S consts \<longleftrightarrow> (\<forall>(n, v) \<in> set consts. map_get consts n = Some v \<longrightarrow> sem_var S n = LNum v)"

fun state_operands_ok :: "expr \<Rightarrow> bool" where
  "state_operands_ok (LogicalExpression op (LogicalExpression lop c a) b) =
     (if op = ''or'' then operator_expr a \<and> operator_expr b else operator_expr b)"
| "state_operands_ok (LogicalExpression op l b) = operator_expr b"
| "state_operands_ok e = True"

lemma state_value_sound:
  assumes "constants_hold S consts" and "operator_expr e"
    and "state_value (sem_pow S) consts e = Some v"
  shows "leval S e = Some (LNum v)"
proof -
  have "leval S (folded (sem_pow S) e) = leval S e"
    using fold_operator_expr[OF assms(2)] by (simp add: folded_def)
  moreover have "leval S (folded (sem_pow S) e) = Some (LNum v)"
    using assms(1,3)
    by (auto simp: state_value_def constants_hold_def split: expr.splits dest: map_get_mem)
  ultimately show ?thesis by simp
qed

text \<open>When an assignment to the state variable is analysed on its own and the tracked constants
  are what the variables hold, the analysis predicts the next state: an unconditional transition
  leads to the assigned value, of a pair of conditional ones the one that the condition selects
  does, a block that is marked as an exit assigns nil or false, and a pending first half
  describes the assigned value.\<close>

theorem transitions_follow_value:
  assumes "constants_hold S consts" and "state_operands_ok e" and "leval S e = Some w"
    and "state_update (sem_pow S) consts None e = (ts, ends, pa)"
  shows "(\<forall>s ty. Goto s ty None \<in> set ts \<longrightarrow> w = LNum s) \<and>
    (\<forall>s ty c. Goto s ty (Some c) \<in> set ts \<longrightarrow>
       (\<exists>v. leval S c = Some v \<and> (truthy v = (ty = CONDITIONAL_TRUE) \<longrightarrow> w = LNum s))) \<and>
    (ends \<longrightarrow> \<not> truthy w) \<and>
    (\<forall>c s. pa = Some (c, s) \<longrightarrow>
       (\<exists>v. leval S c = Some v \<and> w = (if truthy v then LNum s else v)))"
proof (cases e)
  case (LogicalExpression op l r)
  note e = this
  note sv = state_value_sound[OF assms(1)]
  consider (both) c a where "op = ''or''" "l = LogicalExpression ''and'' c a"
    | (half) "op = ''and''"
    | (other) "op \<noteq> ''and''" "op = ''or'' \<longrightarrow> (\<forall>c a. l \<noteq> LogicalExpression ''and'' c a)" by blast
  then show ?thesis
  proof cases
    case both
    show ?thesis
    proof (cases "state_value (sem_pow S) consts a"; cases "state_value (sem_pow S) consts r")
      fix s1 s2
      assume st: "state_value (sem_pow S) consts a = Some s1" "state_value (sem_pow S) consts r = Some s2"
      have ok: "operator_expr a" "operator_expr r" using assms(2) e both by auto
      have v: "leval S a = Some (LNum s1)" "leval S r = Some (LNum s2)"
        using sv[OF ok(1) st(1)] sv[OF ok(2) st(2)] by auto
      have u: "ts = branch c s1 s2" "\<not> ends" "pa = None"
        using assms(4) e both st by (auto simp: state_update_def)
      obtain vc where c: "leval S c = Some vc" using assms(3) e both by (auto split: option.splits)
      then have "w = (if truthy vc then LNum s1 else LNum s2)"
        using assms(3) e both v by (auto split: if_splits)
      with u c show ?thesis by (auto simp: branch_def)
    qed (use assms(4) e both in \<open>auto simp: state_update_def\<close>)
  next
    case half
    have ok: "operator_expr r" using assms(2) e half by (cases l) auto
    show ?thesis
    proof (cases "state_value (sem_pow S) consts r")
      case (Some s1)
      obtain v where v: "leval S l = Some v" using assms(3) e half by (auto split: option.splits)
      with assms(3) e half sv[OF ok Some] have "w = (if truthy v then LNum s1 else v)"
        by (auto split: if_splits)
      with v assms(4) e half Some show ?thesis by (auto simp: state_update_def)
    qed (use assms(4) e half in \<open>auto simp: state_update_def\<close>)
  next
    case other
    then have "ts = [] \<and> \<not> ends \<and> pa = None \<or> ts = [Dynamic e] \<and> \<not> ends \<and> pa = None"
      using assms(4) e by (auto simp: state_update_def split: if_splits expr.splits)
    then show ?thesis by auto
  qed
qed (use assms(3,4) in \<open>auto simp: state_update_def split: if_splits\<close>)

theorem transitions_follow_value_witness:
  "\<exists>v. leval demo_semantics (Identifier [99]) = Some v"
proof -
  let ?e = "LogicalExpression ''or'' (LogicalExpression ''and'' (Identifier [99]) (NumericLiteral (Num 5) []))
      (Identifier [120])"
  have "state_update (sem_pow demo_semantics) [([120], Num 3)] None ?e =
      (branch (Identifier [99]) (Num 5) (Num 3), False, None)"
    by (simp add: state_update_def state_value_def folded_def fold_node_def finish_expr_def
        fold_transformer_def fold_expr_def map_get_def)
  from transitions_follow_value[OF _ _ _ this, of "LNum (Num 5)"]
  show ?thesis
    by (simp add: constants_hold_def demo_semantics_def branch_def)
qed

section \<open>Where the analysis goes wrong\<close>

lemmas leaf_run = make_leaf_def scan_stmt_def scan_assignment_def state_update_def state_value_def
  folded_def fold_node_def finish_expr_def fold_transformer_def fold_expr_def map_get_def
  BasicBlock_def addStatement_def add_transitions_def Let_def

text \<open>A tracked constant survives an assignment of an unknown value: after \<open>x = 3; x = f()\<close> the
  statement \<open>Q = c and 5 or x\<close> gets a transition to state 3.\<close>

theorem stale_constant_becomes_transition:
  "stateTransitions (make_leaf pow [81] k
     [AssignmentStatement [Identifier [120]] [NumericLiteral (Num 3) []],
      AssignmentStatement [Identifier [120]] [CallExpression (Identifier [102]) []],
      AssignmentStatement [Identifier [81]]
        [LogicalExpression ''or''
          (LogicalExpression ''and'' (Identifier [99]) (NumericLiteral (Num 5) [])) (Identifier [120])]] lo hi) =
   [Goto (Num 5) CONDITIONAL_TRUE (Some (Identifier [99])),
    Goto (Num 3) CONDITIONAL_FALSE (Some (Identifier [99]))]"
  by (simp add: leaf_run branch_def tryEvaluate_def evalLogical_def isStaticallyTruthy_def)

text \<open>A final assignment of nil leaves the transitions of earlier assignments in place.\<close>

lemma exit_keeps_transitions:
  "let b = make_leaf pow [81] k
     [AssignmentStatement [Identifier [81]] [NumericLiteral (Num 5) []],
      AssignmentStatement [Identifier [81]] [NilLiteral]] lo hi
   in isExit b \<and> stateTransitions b = [Goto (Num 5) UNCONDITIONAL None]"
  by (simp add: leaf_run)

text \<open>When a bound is not a constant both branches get the same interval and the same identifier:
  of \<open>if Q < 10 then if Q < t then A else B end else C end\<close> the block of \<open>A\<close> is lost.\<close>

theorem unknown_bound_loses_block:
  assumes "branch_node A = Many A" and "branch_node B = Many B" and "branch_node C = Many C"
  shows "map (map_prod id statements) (blocks (buildCFG pow [81]
      (IfStatement [Clause (BinaryExpression ''<'' (Identifier [81]) (NumericLiteral (Num 10) []))
         [IfStatement [Clause (BinaryExpression ''<'' (Identifier [81]) (Identifier [116])) A] (Some B)]]
       (Some C)) e)) =
    [(Num 9, map (rewritten pow) B), (Num 10, map (rewritten pow) C)]"
proof -
  let ?rt = "IfStatement [Clause (BinaryExpression ''<'' (Identifier [81]) (NumericLiteral (Num 10) []))
         [IfStatement [Clause (BinaryExpression ''<'' (Identifier [81]) (Identifier [116])) A] (Some B)]]
       (Some C)"
  have nine: "num_sub (Num 10) (Num 1) = Num 9"
    using round_double_int[of 9] by (simp add: num_sub_def num_neg_def num_add_def value_of_def)
  have "snd (traverseTree pow [81] [(One ?rt, Inf True, Inf False)] (0, ControlFlowGraph [81])) =
      addBlock (make_leaf pow [81] 3 C (Num 10) (Inf False))
       (addBlock (make_leaf pow [81] 2 B (Inf True) (Num 10))
        (addBlock (make_leaf pow [81] 1 A (Inf True) (Num 10)) (ControlFlowGraph [81])))"
    using assms
    by (simp add: traverseTree.simps(2) decision_def threshold_def folded_def fold_node_def
        finish_expr_def fold_transformer_def fold_expr_def branch_node_def Let_def
        extractLeafBlock_def node_stmts_def numeral_3_eq_3 numeral_2_eq_2)
  then have "blocks (leaf_graph pow [81] ?rt) =
      [(Num 9, make_leaf pow [81] 2 B (Inf True) (Num 10)),
       (Num 10, make_leaf pow [81] 3 C (Num 10) (Inf False))]"
    by (simp add: leaf_graph_def addBlock_def ControlFlowGraph_def leaf_state_def isFinite_def nine
        map_key_def)
  then have "map (map_prod id fixed_part) (blocks (leaf_graph pow [81] ?rt)) =
    [(Num 9, fixed_part (make_leaf pow [81] 2 B (Inf True) (Num 10))),
     (Num 10, fixed_part (make_leaf pow [81] 3 C (Num 10) (Inf False)))]" by simp
  then have "map (map_prod id fixed_part) (blocks (buildCFG pow [81] ?rt e)) =
    [(Num 9, fixed_part (make_leaf pow [81] 2 B (Inf True) (Num 10))),
     (Num 10, fixed_part (make_leaf pow [81] 3 C (Num 10) (Inf False)))]"
    using buildCFG_fixed[of pow "[81]" ?rt e] by (simp add: fixed_parts_def map_prod_def id_def)
  then have "map (map_prod id (fst \<circ> snd)) (map (map_prod id fixed_part) (blocks (buildCFG pow [81] ?rt e))) =
    [(Num 9, map (rewritten pow) B), (Num 10, map (rewritten pow) C)]"
    by (simp only:) (simp add: fixed_part_def)
  moreover have "(fst \<circ> snd) \<circ> fixed_part = statements" by (auto simp: fixed_part_def fun_eq_iff)
  ultimately show ?thesis
    by (simp only: map_map map_prod.compositionality map_prod.comp comp_id id_comp id_o o_id)
qed

theorem unknown_bound_loses_block_witness:
  "map fst (blocks (buildCFG (\<lambda>a b. NaN) [81]
      (IfStatement [Clause (BinaryExpression ''<'' (Identifier [81]) (NumericLiteral (Num 10) []))
         [IfStatement [Clause (BinaryExpression ''<'' (Identifier [81]) (Identifier [116])) [BreakStatement]]
           (Some [ContinueStatement])]]
       (Some [EmptyStatement])) None)) = [Num 9, Num 10]"
  using arg_cong[OF unknown_bound_loses_block[of "[BreakStatement]" "[ContinueStatement]" "[EmptyStatement]"
      "\<lambda>a b. NaN" None], of "map fst"]
  by (simp add: branch_node_def)

end
