(* ===== verification/Residual_Dispatcher.thy ===== *)
theory Residual_Dispatcher
  imports Dispatcher
begin

text \<open>
  The removal of states from a dispatcher (\<open>packages/core/src/transforms/residual-dispatcher.js\<close>):
  which states may go, and the search tree without their leaves. A set of states is a list of
  map keys. The tree is rebuilt in place; here the new tree is the result.
\<close>

section \<open>State accounting\<close>

record state_counts =
  beforeStates :: int
  remainingStates :: int
  liftedAndReplacedStates :: int
  provenUnreachableStates :: int
  provenRedundantStates :: int

definition validateConservation :: "state_counts \<Rightarrow> (string, bool) outcome" where
  "validateConservation n =
     (let accounted = remainingStates n + liftedAndReplacedStates n + provenUnreachableStates n
        + provenRedundantStates n
      in if beforeStates n \<noteq> accounted then throw ''STATE_ACCOUNTING_FAILURE'' else return True)"

section \<open>States that may go\<close>

record proof_item =
  proof_state :: jsnum
  proof_status :: string
  safeToExtract :: bool

definition safely_listed :: "proof_item list \<Rightarrow> block_id \<Rightarrow> bool" where
  "safely_listed proofs i \<longleftrightarrow> (\<exists>p \<in> set proofs. num_eq (proof_state p) i \<and> safeToExtract p)"

definition add_candidate :: "cfg \<Rightarrow> proof_item list \<Rightarrow> proof_item \<Rightarrow> jsnum list \<Rightarrow> jsnum list" where
  "add_candidate c proofs item chosen =
     (if proof_status item = ''EXCLUSIVE_PROVEN'' \<and> safeToExtract item then
        (case getBlock c (proof_state item) of
           None \<Rightarrow> chosen
         | Some b \<Rightarrow>
             if \<exists>e \<in> set (predecessors b).
                  source e \<notin> set chosen \<and> \<not> safely_listed proofs (source e)
             then chosen
             else List.insert (map_key (proof_state item)) chosen)
      else chosen)"

definition findExtractableStates :: "cfg \<Rightarrow> proof_item list \<Rightarrow> jsnum list" where
  "findExtractableStates c proofs = fold (add_candidate c proofs) proofs []"

section \<open>The search tree without the states\<close>

text \<open>The state of a leaf; none for a leaf that is not bounded on either side.\<close>

definition leaf_key :: "jsnum \<Rightarrow> jsnum \<Rightarrow> jsnum option" where
  "leaf_key minVal maxVal =
     (if isFinite minVal \<and> isFinite maxVal then Some (num_floor (num_div (num_add minVal maxVal) (Num 2)))
      else if isFinite minVal then Some minVal
      else if isFinite maxVal then Some (num_sub maxVal (Num 1))
      else None)"

definition extracted :: "jsnum list \<Rightarrow> jsnum \<Rightarrow> jsnum \<Rightarrow> bool" where
  "extracted statesToExtract minVal maxVal \<longleftrightarrow>
     (case leaf_key minVal maxVal of None \<Rightarrow> False | Some s \<Rightarrow> map_key s \<in> set statesToExtract)"

text \<open>A pruned branch: nothing, a node, or the statements of a leaf.\<close>

datatype pruned = Gone | Node stmt | Body "stmt list"

definition pruned_body :: "pruned \<Rightarrow> stmt list" where
  "pruned_body p = (case p of Gone \<Rightarrow> [] | Node st \<Rightarrow> [st] | Body ss \<Rightarrow> ss)"

text \<open>\<open>Array.isArray(p) ? p[0] : p\<close>.\<close>

definition first_of :: "pruned \<Rightarrow> stmt option" where
  "first_of p =
     (case p of Gone \<Rightarrow> None | Node st \<Rightarrow> Some st
      | Body ss \<Rightarrow> (case ss of [] \<Rightarrow> None | st # _ \<Rightarrow> Some st))"

definition prune_leaf :: "jsnum list \<Rightarrow> jsnum \<Rightarrow> jsnum \<Rightarrow> stmt list \<Rightarrow> pruned \<times> nat" where
  "prune_leaf statesToExtract minVal maxVal body =
     (if extracted statesToExtract minVal maxVal then (Gone, 1) else (Body body, 0))"

text \<open>The result and how many leaves were removed (\<open>extractedCount\<close>, \<open>stats.branchesPruned\<close>).\<close>

function pruneTree ::
  "(jsnum \<Rightarrow> jsnum \<Rightarrow> jsnum) \<Rightarrow> js_string \<Rightarrow> jsnum list \<Rightarrow> stmt \<Rightarrow> jsnum \<Rightarrow> jsnum \<Rightarrow>
   stmt option \<times> nat"
and pruneBranch ::
  "(jsnum \<Rightarrow> jsnum \<Rightarrow> jsnum) \<Rightarrow> js_string \<Rightarrow> jsnum list \<Rightarrow> stmt list \<Rightarrow> jsnum \<Rightarrow> jsnum \<Rightarrow>
   pruned \<times> nat"
where
  "pruneTree pow stateVar E node minVal maxVal =
     (case decision stateVar (One node) of
        None \<Rightarrow> (Some node, 0)
      | Some (bound, thenBody, elseBody) \<Rightarrow>
          (let t = threshold pow bound;
               (prunedThen, n1) =
                 pruneBranch pow stateVar E thenBody minVal (case t of Some t \<Rightarrow> t | None \<Rightarrow> maxVal);
               (prunedElse, n2) =
                 (case elseBody of
                    None \<Rightarrow> (Gone, 0)
                  | Some b \<Rightarrow>
                      pruneBranch pow stateVar E b (case t of Some t \<Rightarrow> t | None \<Rightarrow> minVal) maxVal)
           in ((if prunedThen = Gone then (if prunedElse = Gone then None else first_of prunedElse)
                else if prunedElse = Gone then first_of prunedThen
                else Some (IfStatement
                  [Clause (BinaryExpression ''<'' (Identifier stateVar) (fold_inside pow bound))
                     (pruned_body prunedThen)] (Some (pruned_body prunedElse)))),
               n1 + n2)))"
| "pruneBranch pow stateVar E body minVal maxVal =
     (case branch_node body of
        One st \<Rightarrow>
          (let (r, n) = pruneTree pow stateVar E st minVal maxVal
           in (case r of None \<Rightarrow> Gone | Some st' \<Rightarrow> Node st', n))
      | Many ss \<Rightarrow> prune_leaf E minVal maxVal ss)"
  by pat_completeness auto

lemma decision_size_bodies:
  "decision v (One node) = Some (bound, body, el) \<Longrightarrow>
   size_list size body < size node \<and> (case el of None \<Rightarrow> True | Some b \<Rightarrow> size_list size b < size node)"
  by (auto simp: decision_def split: stmt.splits list.splits clause.splits expr.splits if_splits
      option.splits)

lemma branch_node_One: "branch_node body = One st \<Longrightarrow> body = [st]"
  by (auto simp: branch_node_def split: list.splits stmt.splits)

termination pruneTree
  by (relation "measure (\<lambda>x. case x of
      Inl (pow, v, E, node, lo, hi) \<Rightarrow> 2 * size node + 1
    | Inr (pow, v, E, body, lo, hi) \<Rightarrow> 2 * size_list size body)")
    (auto dest: decision_size_bodies branch_node_One)

record compress_stats =
  physicalStatesBefore :: int
  physicallyExtractedStates :: int
  physicalStatesAfter :: int
  branchesPruned :: int

definition compressDispatcher ::
  "(jsnum \<Rightarrow> jsnum \<Rightarrow> jsnum) \<Rightarrow> stmt \<Rightarrow> js_string \<Rightarrow> jsnum list \<Rightarrow> cfg \<Rightarrow>
   (string, stmt \<times> compress_stats) outcome" where
  "compressDispatcher pow rootIf stateVar E c =
     (let before = int (length (blocks c));
          (newRoot, n) = pruneTree pow stateVar E rootIf (Inf True) (Inf False);
          after = before - int n
      in if before \<noteq> after + int n then throw ''STATE_ACCOUNTING_FAILURE''
         else return
           (case newRoot of Some r \<Rightarrow> r | None \<Rightarrow> rootIf,
            \<lparr>physicalStatesBefore = before, physicallyExtractedStates = int n,
             physicalStatesAfter = after, branchesPruned = int n\<rparr>))"

end
