(* ===== verification/Fold_Fixpoint.thy ===== *)
theory Fold_Fixpoint
  imports Evaluator
begin

text \<open>
  Constant folding without its counters, as a plain recursion on the tree; one pass reaches a
  fixed point.
\<close>

definition fold_top :: "(jsnum \<Rightarrow> jsnum \<Rightarrow> jsnum) \<Rightarrow> expr \<Rightarrow> expr" where
  "fold_top pow e =
     (if isFoldable e then (case tryEvaluate pow e of Some e' \<Rightarrow> e' | None \<Rightarrow> e) else e)"

primrec pure_expr :: "(jsnum \<Rightarrow> jsnum \<Rightarrow> jsnum) \<Rightarrow> expr \<Rightarrow> expr"
and pure_field :: "(jsnum \<Rightarrow> jsnum \<Rightarrow> jsnum) \<Rightarrow> table_field \<Rightarrow> table_field"
and pure_stmt :: "(jsnum \<Rightarrow> jsnum \<Rightarrow> jsnum) \<Rightarrow> stmt \<Rightarrow> stmt"
and pure_clause :: "(jsnum \<Rightarrow> jsnum \<Rightarrow> jsnum) \<Rightarrow> clause \<Rightarrow> clause" where
  "pure_expr p (Identifier n) = Identifier n"
| "pure_expr p (NumericLiteral v raw) = NumericLiteral v raw"
| "pure_expr p (StringLiteral s raw) = StringLiteral s raw"
| "pure_expr p (BooleanLiteral b) = BooleanLiteral b"
| "pure_expr p NilLiteral = NilLiteral"
| "pure_expr p (VarargLiteral b) = VarargLiteral b"
| "pure_expr p (UnaryExpression op a) = fold_top p (UnaryExpression op (pure_expr p a))"
| "pure_expr p (BinaryExpression op l r) =
     fold_top p (BinaryExpression op (pure_expr p l) (pure_expr p r))"
| "pure_expr p (LogicalExpression op l r) =
     fold_top p (LogicalExpression op (pure_expr p l) (pure_expr p r))"
| "pure_expr p (CallExpression b args) = CallExpression (pure_expr p b) (map (pure_expr p) args)"
| "pure_expr p (MethodCallExpression b m args) =
     MethodCallExpression (pure_expr p b) (pure_expr p m) (map (pure_expr p) args)"
| "pure_expr p (MemberExpression b q) = MemberExpression (pure_expr p b) (pure_expr p q)"
| "pure_expr p (IndexExpression b i) = IndexExpression (pure_expr p b) (pure_expr p i)"
| "pure_expr p (FunctionExpression ps va body) =
     FunctionExpression (map (pure_expr p) ps) va (map (pure_stmt p) body)"
| "pure_expr p (TableConstructor fs) = TableConstructor (map (pure_field p) fs)"
| "pure_field p (TableKey k v) = TableKey (pure_expr p k) (pure_expr p v)"
| "pure_field p (TableKeyString k v) = TableKeyString (pure_expr p k) (pure_expr p v)"
| "pure_field p (TableValue v) = TableValue (pure_expr p v)"
| "pure_stmt p (LocalStatement vs es) = LocalStatement (map (pure_expr p) vs) (map (pure_expr p) es)"
| "pure_stmt p (AssignmentStatement vs es) =
     AssignmentStatement (map (pure_expr p) vs) (map (pure_expr p) es)"
| "pure_stmt p (LocalFunctionStatement i ps va b) =
     LocalFunctionStatement (pure_expr p i) (map (pure_expr p) ps) va (map (pure_stmt p) b)"
| "pure_stmt p (FunctionDeclaration n ps va b im) =
     FunctionDeclaration (pure_expr p n) (map (pure_expr p) ps) va (map (pure_stmt p) b) im"
| "pure_stmt p (CallStatement e) = CallStatement (pure_expr p e)"
| "pure_stmt p (IfStatement cs el) =
     IfStatement (map (pure_clause p) cs) (map_option (map (pure_stmt p)) el)"
| "pure_stmt p (WhileStatement c b) = WhileStatement (pure_expr p c) (map (pure_stmt p) b)"
| "pure_stmt p (RepeatStatement c b) = RepeatStatement (pure_expr p c) (map (pure_stmt p) b)"
| "pure_stmt p (NumericForStatement v e1 e2 st b) =
     NumericForStatement (pure_expr p v) (pure_expr p e1) (pure_expr p e2)
       (map_option (pure_expr p) st) (map (pure_stmt p) b)"
| "pure_stmt p (GenericForStatement vs es b) =
     GenericForStatement (map (pure_expr p) vs) (map (pure_expr p) es) (map (pure_stmt p) b)"
| "pure_stmt p (DoStatement b) = DoStatement (map (pure_stmt p) b)"
| "pure_stmt p (ReturnStatement es) = ReturnStatement (map (pure_expr p) es)"
| "pure_stmt p BreakStatement = BreakStatement"
| "pure_stmt p ContinueStatement = ContinueStatement"
| "pure_stmt p EmptyStatement = EmptyStatement"
| "pure_clause p (Clause c b) = Clause (pure_expr p c) (map (pure_stmt p) b)"

section \<open>The rewriting computes the plain recursion\<close>

lemma finish_pure:
  "fst (finish_expr (fold_transformer p) (e, s)) = fold_top p e"
  "fst (finish_stmt (fold_transformer p) (st, s)) = [st]"
  by (simp_all add: finish_expr_def finish_stmt_def fold_transformer_def fold_expr_def fold_top_def
      Let_def split: option.split)

lemma finish_pure_pair:
  "fst (finish_expr (fold_transformer p) q) = fold_top p (fst q)"
  "fst (finish_stmt (fold_transformer p) r) = [fst r]"
  by (cases q; cases r; simp add: finish_pure)+

lemma transform_lists_pure:
  "(\<And>e s. e \<in> set es \<Longrightarrow> fst (transform_expr (fold_transformer p) e s) = pure_expr p e) \<Longrightarrow>
    fst (transform_exprs (fold_transformer p) es s) = map (pure_expr p) es"
  "(\<And>f s. f \<in> set fs \<Longrightarrow> fst (transform_field (fold_transformer p) f s) = pure_field p f) \<Longrightarrow>
    fst (transform_fields (fold_transformer p) fs s) = map (pure_field p) fs"
  "(\<And>st s. st \<in> set b \<Longrightarrow> fst (transform_stmt (fold_transformer p) st s) = [pure_stmt p st]) \<Longrightarrow>
    fst (transform_block (fold_transformer p) b s) = map (pure_stmt p) b"
  "(\<And>c s. c \<in> set cs \<Longrightarrow> fst (transform_clause (fold_transformer p) c s) = pure_clause p c) \<Longrightarrow>
    fst (transform_clauses (fold_transformer p) cs s) = map (pure_clause p) cs"
  subgoal by (induction es arbitrary: s) (simp_all add: split_beta)
  subgoal by (induction fs arbitrary: s) (simp_all add: split_beta)
  subgoal by (induction b arbitrary: s) (simp_all add: split_beta)
  subgoal by (induction cs arbitrary: s) (simp_all add: split_beta)
  done

lemma fold_top_other [simp]: "\<not> isFoldable e \<Longrightarrow> fold_top p e = e"
  by (simp add: fold_top_def)

lemma transform_pure:
  "fst (transform_expr (fold_transformer p) e s) = pure_expr p e"
  "fst (transform_field (fold_transformer p) fl s) = pure_field p fl"
  "fst (transform_stmt (fold_transformer p) st s) = [pure_stmt p st]"
  "fst (transform_clause (fold_transformer p) c s) = pure_clause p c"
proof (induction e and fl and st and c arbitrary: s and s and s and s)
  case (IfStatement cs o_body)
  then show ?case
    by (cases o_body) (simp_all add: finish_pure_pair transform_lists_pure split_beta)
next
  case (NumericForStatement v e1 e2 o_step b)
  then show ?case
    by (cases o_step) (simp_all add: finish_pure_pair transform_lists_pure split_beta)
qed (simp_all add: finish_pure_pair transform_lists_pure split_beta)

section \<open>One pass is enough\<close>

definition literal :: "expr \<Rightarrow> bool" where
  "literal e \<longleftrightarrow> is_number e \<or> is_string e \<or> is_boolean e \<or> is_nil e"

lemma literal_pure: "literal e \<Longrightarrow> pure_expr p e = e"
  by (cases e) (auto simp: literal_def)

text \<open>What a node evaluates to is a literal or one of its operands.\<close>

lemma tryEvaluate_result:
  assumes "tryEvaluate p e = Some e'"
  shows "literal e' \<or> (\<exists>op l r. e = LogicalExpression op l r \<and> (e' = l \<or> e' = r))"
proof (cases e)
  case (LogicalExpression op l r)
  with assms show ?thesis
    by (auto simp: tryEvaluate_def evalLogical_def split: option.splits if_splits)
next
  case (UnaryExpression op a)
  with assms show ?thesis
    by (cases a) (auto simp: tryEvaluate_def evalUnary_def literal_def num_result_def
        numericLiteral_def split: if_splits)
next
  case (BinaryExpression op l r)
  with assms have b: "evalBinary p op l r = Some e'" by (simp add: tryEvaluate_def)
  then have "literal e'"
    by (auto simp: evalBinary_def evalRest_def evalEquality_def evalNumbers_def if_finite_def
        num_result_def numericLiteral_def stringLiteral_def literal_def
        split: expr.splits if_splits option.splits)
  then show ?thesis ..
qed (use assms in \<open>simp_all add: tryEvaluate_def\<close>)

lemma fold_top_settled:
  assumes "\<And>op l r. e = LogicalExpression op l r \<Longrightarrow> pure_expr p l = l \<and> pure_expr p r = r"
    and "tryEvaluate p e = None \<Longrightarrow> pure_expr p e = fold_top p e"
  shows "pure_expr p (fold_top p e) = fold_top p e"
proof (cases "tryEvaluate p e")
  case None
  then have "fold_top p e = e" by (simp add: fold_top_def)
  with assms(2)[OF None] show ?thesis by simp
next
  case (Some e')
  with tryEvaluate_result[OF Some] assms show ?thesis
    by (cases "isFoldable e") (auto simp: fold_top_def literal_pure tryEvaluate_def split: expr.splits)
qed

lemma pure_idempotent:
  "pure_expr p (pure_expr p e) = pure_expr p e"
  "pure_field p (pure_field p fl) = pure_field p fl"
  "pure_stmt p (pure_stmt p st) = pure_stmt p st"
  "pure_clause p (pure_clause p c) = pure_clause p c"
proof (induction e and fl and st and c)
  case (UnaryExpression op a)
  show ?case unfolding pure_expr.simps
    by (rule fold_top_settled) (use UnaryExpression in simp_all)
next
  case (BinaryExpression op l r)
  show ?case unfolding pure_expr.simps
    by (rule fold_top_settled) (use BinaryExpression in simp_all)
next
  case (LogicalExpression op l r)
  show ?case unfolding pure_expr.simps
    by (rule fold_top_settled) (use LogicalExpression in simp_all)
next
  case (IfStatement cs el)
  then show ?case by (cases el) simp_all
next
  case (NumericForStatement v e1 e2 st b)
  then show ?case by (cases st) simp_all
qed simp_all

text \<open>Folding a program a second time changes nothing.\<close>

theorem folding_is_idempotent:
  "fst (foldConstants pow (fst (foldConstants pow c))) = fst (foldConstants pow c)"
proof -
  have "fst (foldConstants pow d) = map (pure_stmt pow) d" for d
    by (simp add: foldConstants_def fold_chunk_def transform_lists_pure transform_pure)
  then show ?thesis by (simp add: pure_idempotent)
qed

end
