(* ===== verification/Residual_Props.thy ===== *)
theory Residual_Props
  imports Residual_Dispatcher Dispatcher_Props Fold_Fixpoint
begin

text \<open>
  What removing states keeps of the dispatcher and where it breaks it. The state variable selects
  a leaf of the tree (\<open>select_leaf\<close>); a state that is not removed must select the same leaf.
\<close>

lemma folded_pure: "folded pow e = pure_expr pow e"
  by (simp add: folded_def fold_node_def transform_pure)

lemma folded_inside: "folded pow (fold_inside pow e) = folded pow e"
  by (cases e) (simp_all add: fold_inside_def folded_pure Let_def transform_lists_pure
      transform_pure pure_idempotent)

lemma threshold_inside [simp]: "threshold pow (fold_inside pow e) = threshold pow e"
  by (simp add: threshold_def folded_inside)

lemma decision_not_if: "branch_node [st] \<noteq> One st \<Longrightarrow> decision v (One st) = None"
  by (cases st) (auto simp: branch_node_def decision_def)

lemma branch_node_Many: "branch_node body = Many ss \<Longrightarrow> body = ss"
  by (auto simp: branch_node_def split: list.splits stmt.splits)

lemma branch_node_single: "branch_node [st] = One st \<or> branch_node [st] = Many [st]"
  by (auto simp: branch_node_def split: stmt.split)

lemma select_single: "select_leaf pow v s (branch_node [st]) = select_leaf pow v s (One st)"
proof (cases "branch_node [st] = One st")
  case False
  with branch_node_single have "branch_node [st] = Many [st]" by blast
  with decision_not_if[OF False] show ?thesis
    by (simp add: select_leaf.simps decision_def node_stmts_def)
qed simp

text \<open>A state stays when the leaf it selects is not among the removed ones.\<close>

definition state_stays ::
  "(jsnum \<Rightarrow> jsnum \<Rightarrow> jsnum) \<Rightarrow> js_string \<Rightarrow> jsnum list \<Rightarrow> jsnum \<Rightarrow> tree_node \<Rightarrow> jsnum \<Rightarrow> jsnum \<Rightarrow> bool" where
  "state_stays pow v E s n lo hi \<longleftrightarrow>
     (case find (covers s) (leaves pow v n lo hi) of
        None \<Rightarrow> False | Some (ss, a, b) \<Rightarrow> \<not> extracted E a b)"

definition single_leaves ::
  "(jsnum \<Rightarrow> jsnum \<Rightarrow> jsnum) \<Rightarrow> js_string \<Rightarrow> tree_node \<Rightarrow> jsnum \<Rightarrow> jsnum \<Rightarrow> bool" where
  "single_leaves pow v n lo hi \<longleftrightarrow> (\<forall>(ss, a, b) \<in> set (leaves pow v n lo hi). length ss = 1)"

definition keeps_leaf ::
  "(jsnum \<Rightarrow> jsnum \<Rightarrow> jsnum) \<Rightarrow> js_string \<Rightarrow> jsnum \<Rightarrow> stmt list \<Rightarrow> pruned \<Rightarrow> bool" where
  "keeps_leaf pow v s ss p \<longleftrightarrow>
     p \<noteq> Gone \<and> select_leaf pow v s (branch_node (pruned_body p)) = ss \<and>
     (\<exists>st. first_of p = Some st \<and> select_leaf pow v s (One st) = ss)"

lemma find_append: "find P (xs @ ys) = (case find P xs of None \<Rightarrow> find P ys | r \<Rightarrow> r)"
  by (induction xs) auto

text \<open>Where the state variable is below or above a bound, one branch decides.\<close>

lemma state_stays_branches:
  assumes "search_tree pow v (One node) lo hi" and "decision v (One node) = Some (bound, body, el)"
    and "single_leaves pow v (One node) lo hi" and "boundary lo" and "boundary hi"
    and "num_le lo s" and "num_lt s hi"
  obtains b t where "el = Some b" and "threshold pow bound = Some t" and "boundary t"
    and "search_tree pow v (branch_node body) lo t" and "search_tree pow v (branch_node b) t hi"
    and "single_leaves pow v (branch_node body) lo t" and "single_leaves pow v (branch_node b) t hi"
    and "num_lt s t \<Longrightarrow> state_stays pow v E s (One node) lo hi = state_stays pow v E s (branch_node body) lo t"
    and "\<not> num_lt s t \<Longrightarrow> num_le t s \<and>
      state_stays pow v E s (One node) lo hi = state_stays pow v E s (branch_node b) t hi"
    and "select_leaf pow v s (One node) = select_leaf pow v s (branch_node (if num_lt s t then body else b))"
  using assms(1)
proof (cases rule: search_tree_cases)
  case leaf
  with assms(2) show thesis by simp
next
  case (node bound' body' b t)
  have eq: "bound' = bound" "body' = body" "el = Some b" using node(1) assms(2) by auto
  have t: "boundary t" using node(3) by (simp add: boundary_def)
  have single: "single_leaves pow v (branch_node body) lo t" "single_leaves pow v (branch_node b) t hi"
    using assms(3) node(8) eq by (auto simp: single_leaves_def)
  have below: "state_stays pow v E s (One node) lo hi = state_stays pow v E s (branch_node body) lo t"
    if "num_lt s t"
    using leaves_cover[OF node(6) assms(6) that assms(4) t] node(8) eq
    by (auto simp: state_stays_def find_append)
  have above: "num_le t s \<and>
      state_stays pow v E s (One node) lo hi = state_stays pow v E s (branch_node b) t hi"
    if "\<not> num_lt s t"
  proof
    show "num_le t s"
      using that assms(6) t boundary_not_NaN by (metis num_not_lt num_order_NaN(4))
    have "find (covers s) (leaves pow v (branch_node body) lo t) = None"
    proof -
      have "num_lt s t" if "num_lt s b" "num_le b t" for b using that by (rule num_lt_le_trans)
      with that leaves_within(1)[OF node(6,4) assms(4) t] eq show ?thesis
        by (fastforce simp: find_None_iff covers_def)
    qed
    then show "state_stays pow v E s (One node) lo hi = state_stays pow v E s (branch_node b) t hi"
      using node(8) eq by (simp add: state_stays_def find_append)
  qed
  from that[OF eq(3) _ t _ node(7) single below above] node eq show thesis by simp
qed

lemma leaf_kept:
  assumes "branch_node body = Many ss" and "single_leaves pow v (branch_node body) lo hi"
    and "num_le lo s" and "num_lt s hi" and "state_stays pow v E s (branch_node body) lo hi"
  shows "keeps_leaf pow v s (select_leaf pow v s (branch_node body)) (fst (prune_leaf E lo hi ss))"
proof -
  have d: "decision v (branch_node body) = None" using assms(1) by (simp add: decision_def)
  have l: "leaves pow v (branch_node body) lo hi = [(ss, lo, hi)]"
    using d assms(1) by (simp add: leaves.simps node_stmts_def)
  then have "\<not> extracted E lo hi"
    using assms(3-5) by (simp add: state_stays_def covers_def)
  moreover obtain st where st: "ss = [st]"
    using assms(2) l by (auto simp: single_leaves_def length_Suc_conv)
  moreover have "select_leaf pow v s (branch_node body) = [st]"
    using d assms(1) st by (simp add: select_leaf.simps node_stmts_def)
  moreover have "decision v (One st) = None"
    using decision_not_if[of st v] branch_node_Many[OF assms(1)] assms(1) st by simp
  ultimately show ?thesis
    by (simp add: keeps_leaf_def prune_leaf_def pruned_body_def first_of_def select_single)
      (simp add: select_leaf.simps node_stmts_def)
qed

lemma decision_new:
  "decision v (One (IfStatement [Clause (BinaryExpression ''<'' (Identifier v) bound) b1] el)) =
   Some (bound, b1, el)"
  by (simp add: decision_def)

declare pruneTree.simps [simp del] pruneBranch.simps [simp del]

lemma pruneTree_leaf: "decision v (One node) = None \<Longrightarrow> pruneTree pow v E node lo hi = (Some node, 0)"
  by (simp add: pruneTree.simps)

lemma pruneTree_node:
  assumes "decision v (One node) = Some (bound, body, Some b)" and "threshold pow bound = Some t"
    and "pruneBranch pow v E body lo t = (p1, n1)" and "pruneBranch pow v E b t hi = (p2, n2)"
  shows "pruneTree pow v E node lo hi =
    ((if p1 = Gone then (if p2 = Gone then None else first_of p2)
      else if p2 = Gone then first_of p1
      else Some (IfStatement [Clause (BinaryExpression ''<'' (Identifier v) (fold_inside pow bound))
        (pruned_body p1)] (Some (pruned_body p2)))), n1 + n2)"
  using assms by (simp add: pruneTree.simps[of pow v E node])

lemma prune_keeps:
  "\<lbrakk>search_tree pow v (One node) lo hi; single_leaves pow v (One node) lo hi; boundary lo; boundary hi;
    num_le lo s; num_lt s hi; state_stays pow v E s (One node) lo hi\<rbrakk> \<Longrightarrow>
   \<exists>st. fst (pruneTree pow v E node lo hi) = Some st \<and>
     select_leaf pow v s (One st) = select_leaf pow v s (One node)"
  "\<lbrakk>search_tree pow v (branch_node body) lo hi; single_leaves pow v (branch_node body) lo hi; boundary lo;
    boundary hi; num_le lo s; num_lt s hi; state_stays pow v E s (branch_node body) lo hi\<rbrakk> \<Longrightarrow>
   keeps_leaf pow v s (select_leaf pow v s (branch_node body)) (fst (pruneBranch pow v E body lo hi))"
proof (induction pow v E node lo hi and pow v E body lo hi rule: pruneTree_pruneBranch.induct)
  case (1 pow v E node lo hi)
  show ?case
  proof (cases "decision v (One node)")
    case None
    then show ?thesis by (simp add: pruneTree_leaf)
  next
    case (Some d)
    obtain bound body el where d: "decision v (One node) = Some (bound, body, el)"
      using Some by (cases d) auto
    obtain b t where el: "el = Some b" and t: "threshold pow bound = Some t" "boundary t"
      and st: "search_tree pow v (branch_node body) lo t" "search_tree pow v (branch_node b) t hi"
      and sl: "single_leaves pow v (branch_node body) lo t" "single_leaves pow v (branch_node b) t hi"
      and below: "num_lt s t \<Longrightarrow>
        state_stays pow v E s (One node) lo hi = state_stays pow v E s (branch_node body) lo t"
      and above: "\<not> num_lt s t \<Longrightarrow> num_le t s \<and>
        state_stays pow v E s (One node) lo hi = state_stays pow v E s (branch_node b) t hi"
      and sel: "select_leaf pow v s (One node) =
        select_leaf pow v s (branch_node (if num_lt s t then body else b))"
      using state_stays_branches[OF 1(3) d 1(4-8), where E = E] by blast
    obtain p1 n1 where p1: "pruneBranch pow v E body lo t = (p1, n1)" by fastforce
    obtain p2 n2 where p2: "pruneBranch pow v E b t hi = (p2, n2)" by fastforce
    let ?new = "IfStatement [Clause (BinaryExpression ''<'' (Identifier v) (fold_inside pow bound))
      (pruned_body p1)] (Some (pruned_body p2))"
    have res: "fst (pruneTree pow v E node lo hi) =
        (if p1 = Gone then (if p2 = Gone then None else first_of p2)
         else if p2 = Gone then first_of p1 else Some ?new)"
      using pruneTree_node[OF d[unfolded el] t(1) p1 p2] by simp
    have new: "select_leaf pow v s (One ?new) =
        select_leaf pow v s (branch_node (if num_lt s t then pruned_body p1 else pruned_body p2))"
      by (subst select_leaf.simps) (simp add: decision_new t)
    show ?thesis
    proof (cases "num_lt s t")
      case True
      have "keeps_leaf pow v s (select_leaf pow v s (branch_node body)) (fst (pruneBranch pow v E body lo t))"
        using 1(1)[OF d refl refl refl] t True below 1(3-9) st sl by simp
      with True p1 sel res new show ?thesis by (auto simp: keeps_leaf_def)
    next
      case False
      have "keeps_leaf pow v s (select_leaf pow v s (branch_node b)) (fst (pruneBranch pow v E b t hi))"
        using 1(2)[OF d refl refl refl _ _ el] p1 t False above 1(3-9) st sl by simp
      with False p2 sel res new show ?thesis by (auto simp: keeps_leaf_def)
    qed
  qed
next
  case (2 pow v E body lo hi)
  show ?case
  proof (cases "branch_node body")
    case (One st)
    with 2(1)[OF One] 2(2-8) obtain st' n where
      r: "pruneTree pow v E st lo hi = (Some st', n)"
      "select_leaf pow v s (One st') = select_leaf pow v s (One st)"
      by (cases "pruneTree pow v E st lo hi") auto
    then show ?thesis
      by (simp add: pruneBranch.simps One keeps_leaf_def pruned_body_def first_of_def select_single)
  next
    case (Many ss)
    with leaf_kept[OF Many 2(3,6,7,8)] show ?thesis by (simp add: pruneBranch.simps)
  qed
qed

text \<open>C15. Removing states keeps the others: in a search tree over whole-numbered states whose leaves have
  one statement each, a finite state whose leaf is not removed selects the same statements after
  the compression, whatever set of states is removed.\<close>

theorem pruning_keeps_other_states:
  assumes "search_tree pow v (One rt) (Inf True) (Inf False)"
    and "single_leaves pow v (One rt) (Inf True) (Inf False)" and "isFinite s"
    and "state_stays pow v E s (One rt) (Inf True) (Inf False)"
  shows "\<exists>st stats. compressDispatcher pow rt v E c = Inr (st, stats) \<and>
    select_leaf pow v s (One st) = select_leaf pow v s (One rt)"
proof -
  have "num_le (Inf True) s" "num_lt s (Inf False)" "boundary (Inf True)" "boundary (Inf False)"
    using assms(3) by (auto simp: isFinite_def num_le_def num_lt_def boundary_def split: jsnum.splits)
  from prune_keeps(1)[OF assms(1,2) this(3,4,1,2) assms(4)] obtain st n where
    "pruneTree pow v E rt (Inf True) (Inf False) = (Some st, n)"
    "select_leaf pow v s (One st) = select_leaf pow v s (One rt)"
    by (cases "pruneTree pow v E rt (Inf True) (Inf False)") auto
  then show ?thesis by (simp add: compressDispatcher_def Let_def)
qed

theorem pruning_keeps_other_states_witness:
  "\<exists>st stats. compressDispatcher (\<lambda>a b. NaN) demo_tree [81] [Num 15] (ControlFlowGraph [81]) = Inr (st, stats) \<and>
    select_leaf (\<lambda>a b. NaN) [81] (Num 30) (One st) = select_leaf (\<lambda>a b. NaN) [81] (Num 30) (One demo_tree)"
proof (rule pruning_keeps_other_states[OF demo_search_tree])
  let ?l = "leaves (\<lambda>a b. NaN) [81] (One demo_tree) (Inf True) (Inf False)"
  have l: "?l = [([AssignmentStatement [Identifier [81]] [NumericLiteral (Num 12) []]], Inf True, Num 10),
      ([AssignmentStatement [Identifier [81]] [NilLiteral]], Num 10, Num 20),
      ([AssignmentStatement [Identifier [120]] [NumericLiteral (Num 1) []]], Num 20, Inf False)]"
    by (simp add: demo_tree_def leaves.simps decision_def threshold_def folded_pure branch_node_def
        node_stmts_def)
  show "single_leaves (\<lambda>a b. NaN) [81] (One demo_tree) (Inf True) (Inf False)"
    by (simp add: single_leaves_def l)
  show "isFinite (Num 30)" by (simp add: isFinite_def)
  show "state_stays (\<lambda>a b. NaN) [81] [Num 15] (Num 30) (One demo_tree) (Inf True) (Inf False)"
    by (simp add: state_stays_def l covers_def extracted_def leaf_key_def isFinite_def map_key_def)
qed

section \<open>Where the removal goes wrong\<close>

text \<open>When the sibling of a removed leaf is a leaf of several statements, only its first statement
  survives: after state 9 is removed from \<open>if Q < 10 then A else b; bs end\<close> the loop runs \<open>b\<close> alone.\<close>

theorem pruning_drops_statements:
  assumes "branch_node A = Many A" and "bs \<noteq> []"
  shows "\<exists>stats. compressDispatcher pow (IfStatement
        [Clause (BinaryExpression ''<'' (Identifier q) (NumericLiteral (Num 10) [])) A] (Some (b # bs)))
        q [Num 9] c = Inr (b, stats) \<and>
    physicallyExtractedStates stats = 1"
proof -
  let ?rt = "IfStatement [Clause (BinaryExpression ''<'' (Identifier q) (NumericLiteral (Num 10) [])) A]
      (Some (b # bs))"
  have nine: "num_sub (Num 10) (Num 1) = Num 9"
    using round_double_int[of 9] by (simp add: num_sub_def num_neg_def num_add_def value_of_def)
  have d: "decision q (One ?rt) = Some (NumericLiteral (Num 10) [], A, Some (b # bs))"
    by (simp add: decision_def)
  have t: "threshold pow (NumericLiteral (Num 10) []) = Some (Num 10)"
    by (simp add: threshold_def folded_pure)
  have p1: "pruneBranch pow q [Num 9] A (Inf True) (Num 10) = (Gone, 1)"
    using assms(1) by (simp add: pruneBranch.simps prune_leaf_def extracted_def leaf_key_def
        isFinite_def nine map_key_def)
  have many: "branch_node (b # bs) = Many (b # bs)"
    using assms(2) by (auto simp: branch_node_def split: list.split stmt.split)
  have p2: "pruneBranch pow q [Num 9] (b # bs) (Num 10) (Inf False) = (Body (b # bs), 0)"
    by (simp add: pruneBranch.simps many prune_leaf_def extracted_def leaf_key_def isFinite_def map_key_def)
  show ?thesis
    by (simp add: compressDispatcher_def pruneTree_node[OF d t p1 p2] first_of_def Let_def)
qed

theorem pruning_drops_statements_witness:
  "\<exists>stats. compressDispatcher (\<lambda>a b. NaN) (IfStatement
        [Clause (BinaryExpression ''<'' (Identifier [81]) (NumericLiteral (Num 10) [])) [EmptyStatement]]
        (Some [ContinueStatement, BreakStatement])) [81] [Num 9] (ControlFlowGraph [81]) = Inr (ContinueStatement, stats) \<and>
    physicallyExtractedStates stats = 1"
  by (rule pruning_drops_statements) (simp_all add: branch_node_def)

text \<open>The states chosen for removal are not closed: state 2 stays because its predecessor 1 is
  unproven, yet state 3, to which state 2 jumps, is chosen.\<close>

definition chain_graph :: cfg where
  "chain_graph =
     addEdge (Num 2) (Num 3) UNCONDITIONAL None (addEdge (Num 1) (Num 2) UNCONDITIONAL None
       (addBlock (BasicBlock (Num 3)) (addBlock (BasicBlock (Num 2)) (addBlock (BasicBlock (Num 1))
         (ControlFlowGraph [81])))))"

theorem chosen_states_not_closed:
  "findExtractableStates chain_graph
     [\<lparr>proof_state = Num 2, proof_status = ''EXCLUSIVE_PROVEN'', safeToExtract = True\<rparr>,
      \<lparr>proof_state = Num 3, proof_status = ''EXCLUSIVE_PROVEN'', safeToExtract = True\<rparr>] = [Num 3] \<and>
   Num 3 \<in> set (block_targets chain_graph (Num 2))"
  by code_simp

end
