(* ===== verification/Restructure.thy ===== *)
theory Restructure
  imports CFG
begin

text \<open>
  Restructuring a control-flow graph into statements
  (\<open>packages/core/src/transforms/state-restructure.js\<close>). The recursive closure \<open>walk\<close> is a
  recursion on a bound of its depth; the sets \<open>visited\<close> and \<open>activePath\<close> and the counters are the
  state that it threads.
\<close>

definition assigns_state :: "js_string \<Rightarrow> stmt \<Rightarrow> bool" where
  "assigns_state stateVar st \<longleftrightarrow>
     (case st of AssignmentStatement [Identifier v] es \<Rightarrow> v = stateVar | _ \<Rightarrow> False)"

definition stripStateAssignments :: "stmt list \<Rightarrow> js_string \<Rightarrow> stmt list" where
  "stripStateAssignments ss stateVar = filter (\<lambda>st. \<not> assigns_state stateVar st) ss"

record walk_state =
  visited :: "block_id list"
  activePath :: "block_id list"
  sequentialCollapsed :: nat
  conditionalsRecovered :: nat
  loopsRecovered :: nat

definition enter :: "block_id \<Rightarrow> walk_state \<Rightarrow> walk_state" where
  "enter i w = w\<lparr>visited := visited w @ [i], activePath := activePath w @ [i]\<rparr>"

definition leave :: "block_id \<Rightarrow> walk_state \<Rightarrow> walk_state" where
  "leave i w = w\<lparr>activePath := filter (\<lambda>j. j \<noteq> i) (activePath w)\<rparr>"

definition first_edge :: "edge_type \<Rightarrow> block \<Rightarrow> edge option" where
  "first_edge ty b = find (\<lambda>e. edge_kind e = ty) (successors b)"

text \<open>\<open>trueEdge.condition || block.stateTransitions[0]?.condition\<close>.\<close>

definition branch_condition :: "edge \<Rightarrow> block \<Rightarrow> expr option" where
  "branch_condition e b =
     (case condition e of
        Some c \<Rightarrow> Some c
      | None \<Rightarrow> (case stateTransitions b of Goto s ty c # _ \<Rightarrow> c | _ \<Rightarrow> None))"

type_synonym walker = "block_id \<Rightarrow> walk_state \<Rightarrow> (stmt list \<times> walk_state) option"

text \<open>The fallback: the successors one after the other.\<close>

primrec walk_all :: "walker \<Rightarrow> edge list \<Rightarrow> walker" where
  "walk_all walk [] i w = Some ([], w)"
| "walk_all walk (e # es) i w =
     (case walk (target e) w of
        None \<Rightarrow> None
      | Some (ss, w1) \<Rightarrow>
          (case walk_all walk es i w1 of None \<Rightarrow> None | Some (ss', w2) \<Rightarrow> Some (ss @ ss', w2)))"

definition walk_block :: "walker \<Rightarrow> cfg \<Rightarrow> block \<Rightarrow> walker" where
  "walk_block walk c b i w =
     (let stmts = stripStateAssignments (statements b) (dispatcherVar c)
      in case successors b of
        [] \<Rightarrow> Some (stmts, leave i w)
      | [e] \<Rightarrow>
          if edge_kind e = UNCONDITIONAL then
            (case walk (target e) (w\<lparr>sequentialCollapsed := sequentialCollapsed w + 1\<rparr>) of
               None \<Rightarrow> None
             | Some (ss, w1) \<Rightarrow> Some (stmts @ ss, leave i w1))
          else (case walk_all walk [e] i w of
               None \<Rightarrow> None | Some (ss, w1) \<Rightarrow> Some (stmts @ ss, leave i w1))
      | es \<Rightarrow>
          (case (first_edge CONDITIONAL_TRUE b, first_edge CONDITIONAL_FALSE b) of
             (Some te, Some fe) \<Rightarrow>
               (case walk (target te) (w\<lparr>conditionalsRecovered := conditionalsRecovered w + 1\<rparr>) of
                  None \<Rightarrow> None
                | Some (ts, w1) \<Rightarrow>
                    (case walk (target fe) w1 of
                       None \<Rightarrow> None
                     | Some (fs, w2) \<Rightarrow>
                         Some
                           (case branch_condition te b of
                              Some cond \<Rightarrow>
                                stmts @ [IfStatement [Clause cond ts] (if fs \<noteq> [] then Some fs else None)]
                            | None \<Rightarrow> stmts @ ts @ fs,
                            leave i w2)))
           | _ \<Rightarrow>
               (case walk_all walk es i w of
                  None \<Rightarrow> None | Some (ss, w1) \<Rightarrow> Some (stmts @ ss, leave i w1))))"

primrec walk :: "nat \<Rightarrow> cfg \<Rightarrow> walker" where
  "walk 0 c i w = None"
| "walk (Suc n) c i w =
     (case getBlock c i of
        None \<Rightarrow> Some ([], w)
      | Some b \<Rightarrow>
          if i \<in> set (visited w) then Some ([], w)
          else if i \<in> set (activePath w) then Some ([], w\<lparr>loopsRecovered := loopsRecovered w + 1\<rparr>)
          else walk_block (walk n c) c b i (enter i w))"

datatype confidence = PROVEN | LIKELY | UNKNOWN

record restructured =
  structured :: "stmt list"
  confidence :: confidence
  collapsed :: nat
  conditionals :: nat
  loops :: nat
  unreachableBlocksRemoved :: nat

definition start_walk :: walk_state where
  "start_walk =
     \<lparr>visited = [], activePath = [], sequentialCollapsed = 0, conditionalsRecovered = 0,
      loopsRecovered = 0\<rparr>"

text \<open>\<open>restructure(entryBlockId)\<close>: one more than the number of blocks bounds the depth.\<close>

definition restructure :: "jsnum option \<Rightarrow> cfg \<Rightarrow> restructured option" where
  "restructure entryBlockId c =
     (let r = computeReachability (case entryBlockId of None \<Rightarrow> From_entry | Some i \<Rightarrow> From_block i) c;
          start = (case entryBlockId of
             None \<Rightarrow> entry c | Some i \<Rightarrow> map_option block_id (getBlock c i))
      in case start of
        None \<Rightarrow>
          Some \<lparr>structured = [], confidence = UNKNOWN, collapsed = 0, conditionals = 0, loops = 0,
                unreachableBlocksRemoved = unreachable r\<rparr>
      | Some i \<Rightarrow>
          map_option (\<lambda>(ss, w).
            \<lparr>structured = ss,
             confidence = (if reachable r > 0 \<and> unreachable r > 0 then PROVEN
               else if reachable r > 0 then LIKELY else UNKNOWN),
             collapsed = sequentialCollapsed w, conditionals = conditionalsRecovered w,
             loops = loopsRecovered w, unreachableBlocksRemoved = unreachable r\<rparr>)
            (walk (length (blocks c) + 1) c i start_walk))"

end
