(* ===== verification/Restructure_Props.thy ===== *)
theory Restructure_Props
  imports Restructure CFG_Props
begin

text \<open>
  The walk ends, visits every block it can reach, and never finds a loop; what that means for
  graphs with joins and loops.
\<close>

section \<open>What one call of the walk does\<close>

text \<open>The successors that \<open>walk\<close> follows from a block.\<close>

definition followed :: "block \<Rightarrow> edge list" where
  "followed b =
     (if length (successors b) < 2 then successors b
      else case (first_edge CONDITIONAL_TRUE b, first_edge CONDITIONAL_FALSE b) of
        (Some te, Some fe) \<Rightarrow> [te, fe] | _ \<Rightarrow> successors b)"

definition followed_targets :: "cfg \<Rightarrow> block_id \<Rightarrow> block_id set" where
  "followed_targets c i = (case getBlock c i of None \<Rightarrow> {} | Some b \<Rightarrow> target ` set (followed b))"

inductive followed_from :: "cfg \<Rightarrow> block_id set \<Rightarrow> block_id \<Rightarrow> bool" for c S where
  root: "i \<in> S \<Longrightarrow> followed_from c S i"
| follow: "followed_from c S i \<Longrightarrow> j \<in> followed_targets c i \<Longrightarrow> followed_from c S j"

lemma followed_from_mono: "followed_from c S i \<Longrightarrow> S \<subseteq> T \<Longrightarrow> followed_from c T i"
  by (induction rule: followed_from.induct) (auto intro: followed_from.intros)

lemma followed_from_step:
  "followed_from c (followed_targets c i) j \<Longrightarrow> followed_from c {i} j"
  by (induction rule: followed_from.induct) (auto intro: followed_from.intros)

text \<open>From \<open>w\<close> to \<open>w'\<close> all of \<open>S\<close> and what follows from it was visited, and nothing else.\<close>

definition walked :: "cfg \<Rightarrow> block_id set \<Rightarrow> walk_state \<Rightarrow> walk_state \<Rightarrow> bool" where
  "walked c S w w' \<longleftrightarrow>
     set (visited w) \<subseteq> set (visited w') \<and> S \<subseteq> set (visited w') \<and>
     set (activePath w') = set (activePath w) \<and> loopsRecovered w' = loopsRecovered w \<and>
     (distinct (visited w) \<longrightarrow> distinct (visited w')) \<and>
     (\<forall>j \<in> set (visited w') - set (visited w).
        followed_from c S j \<and> followed_targets c j \<subseteq> set (visited w'))"

lemma walked_refl: "S \<subseteq> set (visited w) \<Longrightarrow> walked c S w w"
  by (simp add: walked_def)

lemma walked_trans:
  assumes "walked c S w w1" and "walked c T w1 w2"
  shows "walked c (S \<union> T) w w2"
proof -
  have "followed_from c (S \<union> T) j \<and> followed_targets c j \<subseteq> set (visited w2)"
    if "j \<in> set (visited w2) - set (visited w)" for j
  proof (cases "j \<in> set (visited w1)")
    case True
    with assms that have "followed_from c S j" "followed_targets c j \<subseteq> set (visited w1)"
      by (auto simp: walked_def)
    with assms(2) show ?thesis by (auto simp: walked_def intro: followed_from_mono)
  next
    case False
    with assms(2) that show ?thesis by (auto simp: walked_def intro: followed_from_mono)
  qed
  with assms show ?thesis by (auto simp: walked_def)
qed

lemma walked_count [simp]:
  "walked c S (w\<lparr>sequentialCollapsed := n\<rparr>) w' = walked c S w w'"
  "walked c S (w\<lparr>conditionalsRecovered := n\<rparr>) w' = walked c S w w'"
  by (simp_all add: walked_def)

lemma walked_block:
  assumes "walked c (followed_targets c i) (enter i w) w'" and "i \<notin> set (visited w)"
    and "set (activePath w) \<subseteq> set (visited w)"
  shows "walked c {i} w (leave i w')"
proof -
  have "followed_from c {i} j \<and> followed_targets c j \<subseteq> set (visited w')"
    if "j \<in> set (visited w') - set (visited w)" for j
    using that assms(1) followed_from_step
    by (cases "j = i") (auto simp: walked_def enter_def intro: followed_from.root)
  with assms show ?thesis by (auto simp: walked_def enter_def leave_def)
qed

section \<open>The walk ends and visits what it follows\<close>

definition unvisited :: "cfg \<Rightarrow> walk_state \<Rightarrow> nat" where
  "unvisited c w = card (set (map_keys (blocks c)) - set (visited w))"

definition ready :: "cfg \<Rightarrow> nat \<Rightarrow> walk_state \<Rightarrow> bool" where
  "ready c n w \<longleftrightarrow> unvisited c w < n \<and> set (activePath w) \<subseteq> set (visited w)"

lemma ready_count [simp]:
  "ready c n (w\<lparr>sequentialCollapsed := k\<rparr>) = ready c n w"
  "ready c n (w\<lparr>conditionalsRecovered := k\<rparr>) = ready c n w"
  by (simp_all add: ready_def unvisited_def)

lemma ready_walked:
  assumes "ready c n w" and "walked c S w w'" shows "ready c n w'"
proof -
  have "unvisited c w' \<le> unvisited c w"
    unfolding unvisited_def using assms(2) by (intro card_mono) (auto simp: walked_def)
  with assms show ?thesis by (auto simp: ready_def walked_def)
qed

lemma ready_enter:
  assumes "ready c (Suc n) w" and "i \<in> set (map_keys (blocks c))" and "i \<notin> set (visited w)"
  shows "ready c n (enter i w)"
proof -
  have "set (map_keys (blocks c)) - set (visited (enter i w)) =
      set (map_keys (blocks c)) - set (visited w) - {i}" by (auto simp: enter_def)
  then have "unvisited c (enter i w) < unvisited c w"
    using assms(2,3) unfolding unvisited_def by (metis DiffI card_Diff1_less finite_Diff finite_set)
  with assms(1) show ?thesis by (auto simp: ready_def enter_def)
qed

definition walks :: "cfg \<Rightarrow> nat \<Rightarrow> walker \<Rightarrow> bool" where
  "walks c n W \<longleftrightarrow>
     (\<forall>i w. i \<in> set (map_keys (blocks c)) \<and> ready c n w \<longrightarrow> (\<exists>ss w'. W i w = Some (ss, w') \<and> walked c {i} w w'))"

lemma walk_all_walks:
  assumes "walks c n W" and "target ` set es \<subseteq> set (map_keys (blocks c))" and "ready c n w"
  shows "\<exists>ss w'. walk_all W es i w = Some (ss, w') \<and> walked c (target ` set es) w w'"
  using assms(2,3)
proof (induction es arbitrary: w)
  case Nil
  then show ?case by (simp add: walked_refl)
next
  case (Cons e es)
  with assms(1) obtain ss w1 where 1: "W (target e) w = Some (ss, w1)" "walked c {target e} w w1"
    unfolding walks_def by force
  with Cons.IH[of w1] Cons.prems ready_walked[OF Cons.prems(2)] obtain ss' w2 where
    2: "walk_all W es i w1 = Some (ss', w2)" "walked c (target ` set es) w1 w2" by auto
  with 1 walked_trans[OF 1(2) 2(2)] show ?case by simp
qed

lemma first_edge_target: "first_edge ty b = Some e \<Longrightarrow> e \<in> set (successors b)"
  by (auto simp: first_edge_def find_Some_iff)

lemma walk_block_walks:
  assumes "walks c n W" and "target ` set (successors b) \<subseteq> set (map_keys (blocks c))" and "ready c n w"
  shows "\<exists>ss w'. walk_block W c b i w = Some (ss, leave i w') \<and> walked c (target ` set (followed b)) w w'"
proof -
  have all: "\<exists>ss w'. walk_all W (successors b) i w = Some (ss, w') \<and> walked c (target ` set (successors b)) w w'"
    using walk_all_walks[OF assms] .
  have one: "\<exists>ss w'. W (target e) w1 = Some (ss, w') \<and> walked c {target e} w1 w'"
    if "e \<in> set (successors b)" "ready c n w1" for e w1
    using assms(1,2) that unfolding walks_def by blast
  consider (none) "successors b = []" | (single) e where "successors b = [e]"
    | (both) te fe where "\<not> length (successors b) < 2"
        "first_edge CONDITIONAL_TRUE b = Some te" "first_edge CONDITIONAL_FALSE b = Some fe"
    | (other) "\<not> length (successors b) < 2"
        "first_edge CONDITIONAL_TRUE b = None \<or> first_edge CONDITIONAL_FALSE b = None"
    by (cases "successors b"; cases "tl (successors b)"; cases "first_edge CONDITIONAL_TRUE b";
        cases "first_edge CONDITIONAL_FALSE b") auto
  then show ?thesis
  proof cases
    case none
    then show ?thesis by (auto simp: walk_block_def followed_def walked_refl)
  next
    case (single e)
    show ?thesis
    proof (cases "edge_kind e = UNCONDITIONAL")
      case True
      with one[of e "w\<lparr>sequentialCollapsed := sequentialCollapsed w + 1\<rparr>"] assms(3) single
      show ?thesis by (auto simp: walk_block_def followed_def)
    next
      case False
      with all single show ?thesis
        by (auto simp: walk_block_def followed_def split: option.splits)
    qed
  next
    case (both te fe)
    obtain e1 e2 es where s: "successors b = e1 # e2 # es"
      using both(1) by (cases "successors b"; cases "tl (successors b)") auto
    from one[OF first_edge_target[OF both(2)], of "w\<lparr>conditionalsRecovered := conditionalsRecovered w + 1\<rparr>"]
      assms(3) obtain ts w1 where
      1: "W (target te) (w\<lparr>conditionalsRecovered := conditionalsRecovered w + 1\<rparr>) = Some (ts, w1)"
      "walked c {target te} w w1" by auto
    from one[OF first_edge_target[OF both(3)] ready_walked[OF assms(3) 1(2)]] obtain fs w2 where
      2: "W (target fe) w1 = Some (fs, w2)" "walked c {target fe} w1 w2" by blast
    from walked_trans[OF 1(2) 2(2)] 1(1) 2(1) both s show ?thesis
      by (simp add: walk_block_def followed_def insert_commute Let_def) blast
  next
    case other
    obtain e1 e2 es where s: "successors b = e1 # e2 # es"
      using other(1) by (cases "successors b"; cases "tl (successors b)") auto
    have "walk_block W c b i w = (case walk_all W (successors b) i w of None \<Rightarrow> None
        | Some (ss, w1) \<Rightarrow> Some (stripStateAssignments (statements b) (dispatcherVar c) @ ss, leave i w1))"
      using other(2)
      by (cases "first_edge CONDITIONAL_TRUE b"; cases "first_edge CONDITIONAL_FALSE b";
          simp add: walk_block_def s Let_def del: walk_all.simps)
    moreover have "followed b = successors b"
      using other by (auto simp: followed_def split: option.split)
    ultimately show ?thesis using all by auto
  qed
qed

lemma walk_walks:
  assumes "wf_cfg c" shows "walks c n (walk n c)"
proof (induction n)
  case 0
  then show ?case by (simp add: walks_def ready_def)
next
  case (Suc n)
  show ?case unfolding walks_def
  proof (intro allI impI, elim conjE)
    fix i w
    assume i: "i \<in> set (map_keys (blocks c))" and r: "ready c (Suc n) w"
    have k: "map_key i = i" using i assms by (auto simp: wf_cfg_def map_key_def)
    obtain b where b: "getBlock c i = Some b"
      using i getBlock_keys[OF assms] by (cases "getBlock c i") auto
    show "\<exists>ss w'. walk (Suc n) c i w = Some (ss, w') \<and> walked c {i} w w'"
    proof (cases "i \<in> set (visited w)")
      case True
      with b show ?thesis by (simp add: walked_refl)
    next
      case False
      then have a: "i \<notin> set (activePath w)" using r by (auto simp: ready_def)
      have "target ` set (successors b) \<subseteq> set (map_keys (blocks c))"
        using wf_targets[OF assms, of i] b by (simp add: block_targets_def)
      from walk_block_walks[OF Suc this ready_enter[OF r i False], of i] obtain ss w' where
        w: "walk_block (walk n c) c b i (enter i w) = Some (ss, leave i w')"
        "walked c (followed_targets c i) (enter i w) w'" by (auto simp: followed_targets_def b)
      from walked_block[OF w(2) False] r have "walked c {i} w (leave i w')" by (simp add: ready_def)
      with w(1) False a b show ?thesis by simp
    qed
  qed
qed

lemma start_walked:
  assumes "wf_cfg c" and "i \<in> set (map_keys (blocks c))"
  shows "\<exists>ss w. walk (length (blocks c) + 1) c i start_walk = Some (ss, w) \<and>
    distinct (visited w) \<and> set (visited w) = {j. followed_from c {i} j} \<and> loopsRecovered w = 0"
proof -
  have "card (set (map_keys (blocks c))) \<le> length (blocks c)"
    using card_length[of "map_keys (blocks c)"] by (simp add: map_keys_def)
  then have "ready c (length (blocks c) + 1) start_walk"
    by (simp add: ready_def unvisited_def start_walk_def)
  with walk_walks[OF assms(1), of "length (blocks c) + 1"] assms(2) obtain ss w where
    w: "walk (length (blocks c) + 1) c i start_walk = Some (ss, w)" "walked c {i} start_walk w"
    unfolding walks_def by blast
  have "j \<in> set (visited w)" if "followed_from c {i} j" for j
    using that w(2) by induction (auto simp: walked_def start_walk_def)
  with w show ?thesis by (auto simp: walked_def start_walk_def)
qed

text \<open>Restructuring a well-formed graph ends within its bound on the depth, and it never counts a
  loop: a block on the active path has been visited, and that is tested first.\<close>

theorem restructure_ends:
  assumes "wf_cfg c"
  shows "\<exists>r. restructure e c = Some r \<and> loops r = 0"
proof -
  have "map_option block_id (getBlock c i) = Some j \<Longrightarrow> j \<in> set (map_keys (blocks c))" for i j
    using wf_block[OF assms] by auto
  then have k: "i \<in> set (map_keys (blocks c))"
    if "(case e of None \<Rightarrow> entry c | Some i \<Rightarrow> map_option block_id (getBlock c i)) = Some i" for i
    using that assms by (cases e) (auto simp: wf_cfg_def)
  show ?thesis
  proof (cases "case e of None \<Rightarrow> entry c | Some i \<Rightarrow> map_option block_id (getBlock c i)")
    case None
    then show ?thesis by (simp add: restructure_def Let_def)
  next
    case (Some i)
    from start_walked[OF assms k[OF Some]] Some show ?thesis
      by (auto simp: restructure_def Let_def)
  qed
qed

text \<open>A block's edges all lead to blocks that the walk follows.\<close>

definition no_mixed_branch :: "cfg \<Rightarrow> bool" where
  "no_mixed_branch c \<longleftrightarrow>
     (\<forall>(k, b) \<in> set (blocks c). target ` set (successors b) \<subseteq> target ` set (followed b))"

text \<open>When no block has a third successor beside a true and a false one, the walk from a block
  of a well-formed graph visits exactly the blocks that are reachable from it, once each.\<close>

theorem walk_visits_reachable:
  assumes "wf_cfg c" and "no_mixed_branch c" and "i \<in> set (map_keys (blocks c))"
  shows "\<exists>ss w. walk (length (blocks c) + 1) c i start_walk = Some (ss, w) \<and>
    distinct (visited w) \<and> set (visited w) = {j. reaches c {i} j}"
proof -
  have sub: "target ` set (followed b) \<subseteq> target ` set (successors b)" for b
    by (auto simp: followed_def dest!: first_edge_target split: option.splits)
  have ft: "followed_targets c j = set (block_targets c j)" for j
  proof (cases "getBlock c j")
    case (Some b)
    then have "(map_key j, b) \<in> set (blocks c)" by (simp add: getBlock_def map_get_mem)
    with assms(2) have "target ` set (successors b) \<subseteq> target ` set (followed b)"
      unfolding no_mixed_branch_def by blast
    with sub[of b] Some show ?thesis by (simp add: followed_targets_def block_targets_def)
  qed (simp add: followed_targets_def block_targets_def)
  have "followed_from c {i} j \<longleftrightarrow> reaches c {i} j" for j
  proof
    show "reaches c {i} j" if "followed_from c {i} j"
      using that
      by (induction rule: followed_from.induct) (auto simp: ft intro: reaches.intros)
    show "followed_from c {i} j" if "reaches c {i} j"
      using that
      by (induction rule: reaches.induct) (auto simp: ft intro: followed_from.intros)
  qed
  with start_walked[OF assms(1,3)] show ?thesis by auto
qed

section \<open>Joins and loops\<close>

lemma diamond_ok: "wf_cfg diamond \<and> no_mixed_branch diamond"
  by code_simp

theorem restructure_ends_witness: "\<exists>r. restructure (Some (Num 1)) diamond = Some r \<and> loops r = 0"
  using restructure_ends diamond_ok by blast

theorem walk_visits_reachable_witness:
  "\<exists>ss w. walk (length (blocks diamond) + 1) diamond (Num 1) start_walk = Some (ss, w) \<and>
    distinct (visited w) \<and> set (visited w) = {j. reaches diamond {Num 1} j}"
proof (rule walk_visits_reachable)
  show "wf_cfg diamond" "no_mixed_branch diamond" using diamond_ok by simp_all
  show "Num 1 \<in> set (map_keys (blocks diamond))" by code_simp
qed

text \<open>A block where two branches join is put into the first branch only: of
  \<open>if c then a() else b() end; d()\<close> the result runs \<open>d\<close> only when \<open>c\<close> holds.\<close>

theorem join_goes_into_first_branch:
  "map_option structured (restructure (Some (Num 1)) diamond) = Some
     [IfStatement [Clause (Identifier [99])
         [CallStatement (CallExpression (Identifier [97]) []),
          CallStatement (CallExpression (Identifier [100]) [])]]
       (Some [CallStatement (CallExpression (Identifier [98]) [])])]"
  by code_simp

text \<open>A loop becomes straight-line code: of \<open>while c do a() end; d()\<close> the result runs \<open>a\<close> at most
  once and \<open>d\<close> only when \<open>c\<close> fails, and the confidence is not lowered.\<close>

definition while_graph :: cfg where
  "while_graph =
     addEdge (Num 2) (Num 1) UNCONDITIONAL None
       (addEdge (Num 1) (Num 4) CONDITIONAL_FALSE (Some (Identifier [99]))
         (addEdge (Num 1) (Num 2) CONDITIONAL_TRUE (Some (Identifier [99]))
           (addBlock (demo_block (Num 4) [100]) (addBlock (demo_block (Num 2) [97])
             (addBlock (BasicBlock (Num 1)) (ControlFlowGraph [81]))))))"

theorem loop_becomes_branch:
  "map_option (\<lambda>r. (structured r, confidence r)) (restructure (Some (Num 1)) while_graph) = Some
     ([IfStatement [Clause (Identifier [99]) [CallStatement (CallExpression (Identifier [97]) [])]]
        (Some [CallStatement (CallExpression (Identifier [100]) [])])], LIKELY)"
  by code_simp

end
