(* ===== verification/Multi_Entry.thy ===== *)
theory Multi_Entry
  imports CFG "HOL-Library.List_Lexorder" "HOL-Library.Char_ord"
begin

text \<open>
  The multi-entry analysis (\<open>packages/core/src/cfg/multi-entry-cfg.js\<close>,
  \<open>packages/core/src/analysis/function-context.js\<close>): which states of the shared dispatcher each
  function reaches, who owns a state, loops and dominators.
\<close>

section \<open>Abstract contexts\<close>

text \<open>
  A context maps names to \<open>Set\<close> objects. Copying a context copies the map but shares the sets, so
  the sets live in a store and a context holds their addresses.
\<close>

type_synonym set_store = "nat list list"
type_synonym abs_context = "(string, nat) js_map"

definition ctx_new_set :: "string \<Rightarrow> set_store \<times> abs_context \<Rightarrow> set_store \<times> abs_context" where
  "ctx_new_set name p =
     (if map_get (snd p) name = None then (fst p @ [[]], map_set (snd p) name (length (fst p))) else p)"

definition ctx_set :: "string \<Rightarrow> nat \<Rightarrow> set_store \<times> abs_context \<Rightarrow> set_store \<times> abs_context" where
  "ctx_set name v p =
     (let (h, ctx) = ctx_new_set name p
      in case map_get ctx name of
           None \<Rightarrow> (h, ctx)
         | Some a \<Rightarrow> (if v \<in> set (h ! a) then h else h[a := h ! a @ [v]], ctx))"

definition ctx_merge_entry :: "string \<times> nat \<Rightarrow> set_store \<times> abs_context \<Rightarrow> set_store \<times> abs_context" where
  "ctx_merge_entry e p = fold (ctx_set (fst e)) (fst p ! snd e) (ctx_new_set (fst e) p)"

text \<open>\<open>this.merge(other)\<close>: the new context shares the sets of \<open>this\<close> and adds to them.\<close>

definition ctx_merge :: "set_store \<Rightarrow> abs_context \<Rightarrow> abs_context \<Rightarrow> set_store \<times> abs_context" where
  "ctx_merge h this other = fold ctx_merge_entry other (h, this)"

text \<open>The key: the names in order with their values in order.\<close>

definition ctx_key :: "set_store \<Rightarrow> abs_context \<Rightarrow> (string \<times> nat list) list" where
  "ctx_key h ctx =
     map (\<lambda>k. (k, sort (case map_get ctx k of None \<Rightarrow> [] | Some a \<Rightarrow> h ! a)))
       (sort (map_keys ctx))"

section \<open>Function contexts\<close>

record function_context =
  func_id :: string
  entryState :: "jsnum option"
  reachableStates :: "block_id list"
  conditionalStates :: "block_id list"
  unresolvedStates :: "block_id list"
  returnStates :: "block_id list"
  sccs :: "block_id list list"
  dominators :: "(block_id, block_id list) js_map"
  immediateDominators :: "(block_id, block_id) js_map"

definition FunctionContext :: "string \<Rightarrow> jsnum option \<Rightarrow> function_context" where
  "FunctionContext i e =
     \<lparr>func_id = i, entryState = e, reachableStates = [], conditionalStates = [],
      unresolvedStates = [], returnStates = [], sccs = [], dominators = [], immediateDominators = []\<rparr>"

text \<open>\<open>Set.add\<close>: a new element goes to the end.\<close>

definition set_add :: "'a \<Rightarrow> 'a list \<Rightarrow> 'a list" where
  "set_add x xs = (if x \<in> set xs then xs else xs @ [x])"

datatype evidence = PROVEN | CONDITIONAL | UNRESOLVED

definition addReachableState :: "block_id \<Rightarrow> evidence \<Rightarrow> function_context \<Rightarrow> function_context" where
  "addReachableState i ev f =
     (case ev of
        PROVEN \<Rightarrow> f\<lparr>reachableStates := set_add i (reachableStates f)\<rparr>
      | CONDITIONAL \<Rightarrow> f\<lparr>conditionalStates := set_add i (conditionalStates f)\<rparr>
      | UNRESOLVED \<Rightarrow> f\<lparr>unresolvedStates := set_add i (unresolvedStates f)\<rparr>)"

definition addReturnState :: "block_id \<Rightarrow> function_context \<Rightarrow> function_context" where
  "addReturnState i f = f\<lparr>returnStates := set_add i (returnStates f)\<rparr>"

section \<open>The traversal\<close>

definition findBlockForState :: "cfg \<Rightarrow> jsnum \<Rightarrow> block option" where
  "findBlockForState c s =
     (if hasBlock c s then getBlock c s else find (in_range s) (map_values (blocks c)))"

definition is_return :: "stmt \<Rightarrow> bool" where
  "is_return st = (case st of ReturnStatement es \<Rightarrow> True | _ \<Rightarrow> False)"

definition hasReturnStatement :: "block \<Rightarrow> bool" where
  "hasReturnStatement b \<longleftrightarrow> (\<exists>st \<in> set (statements b). is_return st)"

record traversal =
  store :: set_store
  func :: function_context
  ownership :: "(block_id, string list) js_map"
  seen_keys :: "(block_id \<times> (string \<times> nat list) list) list"
  worklist :: "(block_id \<times> abs_context) list"

definition own :: "block_id \<Rightarrow> string \<Rightarrow> (block_id, string list) js_map \<Rightarrow> (block_id, string list) js_map" where
  "own i f m = map_set m i (set_add f (case map_get m i of None \<Rightarrow> [] | Some fs \<Rightarrow> fs))"

text \<open>What an edge adds to the work list.\<close>

definition propagate :: "abs_context \<Rightarrow> edge \<Rightarrow> traversal \<Rightarrow> traversal" where
  "propagate ctx e t =
     (case edge_kind e of
        UNCONDITIONAL \<Rightarrow> t\<lparr>worklist := worklist t @ [(target e, ctx)]\<rparr>
      | CONDITIONAL_TRUE \<Rightarrow>
          (let (h, ctx') = (if condition e = None then (store t, ctx)
             else ctx_set ''last_cond'' 1 (store t, ctx))
           in t\<lparr>store := h, worklist := worklist t @ [(target e, ctx')]\<rparr>)
      | CONDITIONAL_FALSE \<Rightarrow>
          (let (h, ctx') = (if condition e = None then (store t, ctx)
             else ctx_set ''last_cond'' 0 (store t, ctx))
           in t\<lparr>store := h, worklist := worklist t @ [(target e, ctx')]\<rparr>)
      | DYNAMIC \<Rightarrow> t\<lparr>func := addReachableState (target e) UNRESOLVED (func t)\<rparr>
      | TABLE_DISPATCH \<Rightarrow> t)"

definition visit_block :: "block_id \<Rightarrow> block \<Rightarrow> abs_context \<Rightarrow> traversal \<Rightarrow> traversal" where
  "visit_block i b ctx t =
     (let f1 = addReachableState i PROVEN (func t);
          f2 = (if isExit b \<or> hasReturnStatement b then addReturnState i f1 else f1)
      in fold (propagate ctx) (successors b)
           (t\<lparr>func := f2, ownership := own i (func_id (func t)) (ownership t),
              seen_keys := seen_keys t @ [(i, ctx_key (store t) ctx)]\<rparr>))"

definition work_step :: "cfg \<Rightarrow> block_id \<Rightarrow> abs_context \<Rightarrow> traversal \<Rightarrow> traversal" where
  "work_step c i ctx t =
     (case getBlock c i of
        None \<Rightarrow> t
      | Some b \<Rightarrow>
          if (i, ctx_key (store t) ctx) \<in> set (seen_keys t) then t else visit_block i b ctx t)"

primrec work_loop :: "nat \<Rightarrow> cfg \<Rightarrow> traversal \<Rightarrow> traversal option" where
  "work_loop 0 c t = None"
| "work_loop (Suc n) c t =
     (case worklist t of
        [] \<Rightarrow> Some t
      | (i, ctx) # rest \<Rightarrow> work_loop n c (work_step c i ctx (t\<lparr>worklist := rest\<rparr>)))"

section \<open>Dominators\<close>

definition inter :: "'a list \<Rightarrow> 'a list \<Rightarrow> 'a list" where
  "inter xs ys = filter (\<lambda>x. x \<in> set ys) xs"

definition context_preds :: "cfg \<Rightarrow> block_id list \<Rightarrow> block_id \<Rightarrow> block_id list" where
  "context_preds c inFunc s =
     (case getBlock c s of
        None \<Rightarrow> []
      | Some b \<Rightarrow> filter (\<lambda>i. i \<in> set inFunc) (map source (predecessors b)))"

definition intersect_doms ::
  "(block_id, block_id list) js_map \<Rightarrow> block_id list \<Rightarrow> block_id list" where
  "intersect_doms doms preds =
     (case preds of
        [] \<Rightarrow> []
      | p # ps \<Rightarrow>
          fold (\<lambda>q acc. case map_get doms q of None \<Rightarrow> acc | Some d \<Rightarrow> inter acc d) ps
            (case map_get doms p of None \<Rightarrow> [] | Some d \<Rightarrow> d))"

definition dominator_step ::
  "cfg \<Rightarrow> block_id list \<Rightarrow> block_id \<Rightarrow> block_id \<Rightarrow>
   (block_id, block_id list) js_map \<times> bool \<Rightarrow> (block_id, block_id list) js_map \<times> bool" where
  "dominator_step c inFunc entryId s p =
     (if s = entryId then p
      else
        let preds = context_preds c inFunc s
        in if preds = [] then p
           else
             let newDom = set_add s (intersect_doms (fst p) preds)
             in case map_get (fst p) s of
                  None \<Rightarrow> p
                | Some currentDom \<Rightarrow>
                    if length newDom \<noteq> length currentDom then (map_set (fst p) s newDom, True)
                    else p)"

definition dominator_pass ::
  "cfg \<Rightarrow> block_id list \<Rightarrow> block_id \<Rightarrow> (block_id, block_id list) js_map \<Rightarrow>
   (block_id, block_id list) js_map \<times> bool" where
  "dominator_pass c inFunc entryId doms =
     fold (dominator_step c inFunc entryId) inFunc (doms, False)"

primrec dominator_loop ::
  "nat \<Rightarrow> cfg \<Rightarrow> block_id list \<Rightarrow> block_id \<Rightarrow> (block_id, block_id list) js_map \<Rightarrow>
   (block_id, block_id list) js_map option" where
  "dominator_loop 0 c inFunc entryId doms = None"
| "dominator_loop (Suc n) c inFunc entryId doms =
     (let (doms', changed) = dominator_pass c inFunc entryId doms
      in if changed then dominator_loop n c inFunc entryId doms' else Some doms')"

definition initial_doms :: "block_id list \<Rightarrow> block_id \<Rightarrow> (block_id, block_id list) js_map" where
  "initial_doms inFunc entryId =
     map (\<lambda>s. (s, if s = entryId then [entryId] else inFunc)) inFunc"

text \<open>The first strict dominator that dominates no other strict dominator.\<close>

definition immediate ::
  "(block_id, block_id list) js_map \<Rightarrow> block_id \<Rightarrow> block_id option" where
  "immediate doms s =
     (let sDom = filter (\<lambda>d. d \<noteq> s) (case map_get doms s of None \<Rightarrow> [] | Some d \<Rightarrow> d)
      in find (\<lambda>d. \<forall>z \<in> set sDom. z \<noteq> d \<longrightarrow>
            (case map_get doms z of None \<Rightarrow> True | Some dz \<Rightarrow> d \<notin> set dz)) sDom)"

definition add_immediate ::
  "block_id \<Rightarrow> (block_id, block_id list) js_map \<Rightarrow> block_id \<Rightarrow>
   (block_id, block_id) js_map \<Rightarrow> (block_id, block_id) js_map" where
  "add_immediate entryId doms s m =
     (if s = entryId then m else case immediate doms s of None \<Rightarrow> m | Some d \<Rightarrow> map_set m s d)"

text \<open>One pass more than there are pairs of states is enough.\<close>

definition computeDominators :: "cfg \<Rightarrow> block_id \<Rightarrow> function_context \<Rightarrow> function_context option" where
  "computeDominators c entryId f =
     (let inFunc = reachableStates f
      in map_option
           (\<lambda>doms. f\<lparr>dominators := doms,
              immediateDominators := fold (add_immediate entryId doms) inFunc (immediateDominators f)\<rparr>)
           (dominator_loop (length inFunc * length inFunc + 1) c inFunc entryId
              (initial_doms inFunc entryId)))"

section \<open>Strongly connected components\<close>

record tarjan =
  next_index :: nat
  stack :: "block_id list"
  indices :: "(block_id, nat) js_map"
  lowlinks :: "(block_id, nat) js_map"
  found_sccs :: "block_id list list"

text \<open>The set \<open>onStack\<close> always has the elements of \<open>stack\<close>; its top is the head of the list.\<close>

definition hasSelfLoop :: "cfg \<Rightarrow> block_id \<Rightarrow> bool" where
  "hasSelfLoop c i =
     (case getBlock c i of None \<Rightarrow> False | Some b \<Rightarrow> \<exists>e \<in> set (successors b). target e = i)"

definition number_of :: "(block_id, nat) js_map \<Rightarrow> block_id \<Rightarrow> nat" where
  "number_of m i = (case map_get m i of None \<Rightarrow> 0 | Some n \<Rightarrow> n)"

definition lower :: "block_id \<Rightarrow> nat \<Rightarrow> tarjan \<Rightarrow> tarjan" where
  "lower i n t = t\<lparr>lowlinks := map_set (lowlinks t) i (min (number_of (lowlinks t) i) n)\<rparr>"

definition open_block :: "block_id \<Rightarrow> tarjan \<Rightarrow> tarjan" where
  "open_block i t =
     t\<lparr>indices := map_set (indices t) i (next_index t), lowlinks := map_set (lowlinks t) i (next_index t),
       next_index := next_index t + 1, stack := i # stack t\<rparr>"

definition close_block :: "cfg \<Rightarrow> block_id \<Rightarrow> tarjan \<Rightarrow> tarjan" where
  "close_block c i t =
     (if map_get (lowlinks t) i = map_get (indices t) i then
        (let scc = takeWhile (\<lambda>j. j \<noteq> i) (stack t) @ [i];
             t' = t\<lparr>stack := drop (length scc) (stack t)\<rparr>
         in if length scc > 1 \<or> hasSelfLoop c i then t'\<lparr>found_sccs := found_sccs t' @ [scc]\<rparr> else t')
      else t)"

text \<open>\<open>succId && func.reachableStates.has(succId)\<close>: the identifier 0 is not truthy.\<close>

definition counted :: "block_id list \<Rightarrow> block_id \<Rightarrow> bool" where
  "counted inFunc i \<longleftrightarrow> \<not> num_eq i (Num 0) \<and> i \<noteq> NaN \<and> i \<in> set inFunc"

primrec connect_edges ::
  "(block_id \<Rightarrow> tarjan \<Rightarrow> tarjan option) \<Rightarrow> block_id list \<Rightarrow> block_id \<Rightarrow> edge list \<Rightarrow> tarjan \<Rightarrow> tarjan option" where
  "connect_edges strong inFunc i [] t = Some t"
| "connect_edges strong inFunc i (e # es) t =
     (let j = target e in
      if \<not> counted inFunc j then connect_edges strong inFunc i es t
      else if map_get (indices t) j = None then
        (case strong j t of
           None \<Rightarrow> None
         | Some t' \<Rightarrow> connect_edges strong inFunc i es (lower i (number_of (lowlinks t') j) t'))
      else if j \<in> set (stack t) then
        connect_edges strong inFunc i es (lower i (number_of (indices t) j) t)
      else connect_edges strong inFunc i es t)"

primrec strongConnect :: "nat \<Rightarrow> cfg \<Rightarrow> block_id list \<Rightarrow> block_id \<Rightarrow> tarjan \<Rightarrow> tarjan option" where
  "strongConnect 0 c inFunc i t = None"
| "strongConnect (Suc n) c inFunc i t =
     map_option (close_block c i)
       (case getBlock c i of
          None \<Rightarrow> Some (open_block i t)
        | Some b \<Rightarrow> connect_edges (strongConnect n c inFunc) inFunc i (successors b) (open_block i t))"

definition connect_root ::
  "cfg \<Rightarrow> block_id list \<Rightarrow> block_id \<Rightarrow> tarjan option \<Rightarrow> tarjan option" where
  "connect_root c inFunc i r =
     (case r of
        None \<Rightarrow> None
      | Some t \<Rightarrow>
          if map_get (indices t) i = None then strongConnect (length inFunc + 1) c inFunc i t else Some t)"

definition computeSCCs :: "cfg \<Rightarrow> function_context \<Rightarrow> block_id list list option" where
  "computeSCCs c f =
     map_option found_sccs
       (fold (connect_root c (reachableStates f)) (reachableStates f)
          (Some \<lparr>next_index = 0, stack = [], indices = [], lowlinks = [], found_sccs = []\<rparr>))"

section \<open>The analysis\<close>

datatype state_class = EXCLUSIVE | SHARED | UNRESOLVED_STATE

text \<open>Each step of the loop uses up a block in a context or an entry of the work list; a block has at
  most five contexts.\<close>

definition work_bound :: "cfg \<Rightarrow> nat" where
  "work_bound c = 5 * length (edges c) + 2"

definition analyze_function ::
  "cfg \<Rightarrow> function_context \<Rightarrow> (block_id, string list) js_map \<Rightarrow>
   (function_context \<times> (block_id, string list) js_map) option" where
  "analyze_function c f owners =
     (case entryState f of
        None \<Rightarrow> Some (f, owners)
      | Some s \<Rightarrow>
          (case findBlockForState c s of
             None \<Rightarrow> Some (f, owners)
           | Some b \<Rightarrow>
               (case work_loop (work_bound c) c
                       \<lparr>store = [], func = f, ownership = owners, seen_keys = [],
                        worklist = [(block_id b, [])]\<rparr> of
                  None \<Rightarrow> None
                | Some t \<Rightarrow>
                    (case computeSCCs c (func t) of
                       None \<Rightarrow> None
                     | Some cs \<Rightarrow>
                         map_option (\<lambda>f'. (f', ownership t))
                           (computeDominators c (block_id b) (func t\<lparr>sccs := cs\<rparr>))))))"

primrec analyze_functions ::
  "cfg \<Rightarrow> function_context list \<Rightarrow> (block_id, string list) js_map \<Rightarrow>
   (function_context list \<times> (block_id, string list) js_map) option" where
  "analyze_functions c [] owners = Some ([], owners)"
| "analyze_functions c (f # fs) owners =
     (case analyze_function c f owners of
        None \<Rightarrow> None
      | Some (f', o1) \<Rightarrow> map_option (\<lambda>(fs', o2). (f' # fs', o2)) (analyze_functions c fs o1))"

definition classify :: "(block_id, string list) js_map \<Rightarrow> block_id \<Rightarrow> state_class" where
  "classify owners i =
     (case map_get owners i of
        None \<Rightarrow> UNRESOLVED_STATE
      | Some fs \<Rightarrow>
          if fs = [] then UNRESOLVED_STATE else if length fs = 1 then EXCLUSIVE else SHARED)"

record analysis =
  contexts :: "function_context list"
  stateOwnership :: "(block_id, string list) js_map"
  stateClassification :: "(block_id, state_class) js_map"

definition analyze :: "cfg \<Rightarrow> function_context list \<Rightarrow> analysis option" where
  "analyze c fs =
     map_option (\<lambda>(fs', owners).
         \<lparr>contexts = fs', stateOwnership = owners,
          stateClassification = map (\<lambda>i. (i, classify owners i)) (map_keys (blocks c))\<rparr>)
       (analyze_functions c fs [])"

end
