(* ===== verification/Dominator_Props.thy ===== *)
theory Dominator_Props
  imports Multi_Entry CFG_Props
begin

text \<open>
  The dominator iteration computes dominance: \<open>d\<close> dominates \<open>s\<close> when every path from the entry
  to \<open>s\<close> inside the function passes through \<open>d\<close>.
\<close>

section \<open>Paths and dominance\<close>

inductive path_to :: "cfg \<Rightarrow> block_id list \<Rightarrow> block_id \<Rightarrow> block_id list \<Rightarrow> block_id \<Rightarrow> bool" for c R e where
  start: "path_to c R e [e] e"
| extend: "path_to c R e xs u \<Longrightarrow> u \<in> set (context_preds c R v) \<Longrightarrow> v \<in> set R \<Longrightarrow>
    path_to c R e (xs @ [v]) v"

inductive_cases path_to_snoc: "path_to c R e xs v"

definition dominates :: "cfg \<Rightarrow> block_id list \<Rightarrow> block_id \<Rightarrow> block_id \<Rightarrow> block_id \<Rightarrow> bool" where
  "dominates c R e d s \<longleftrightarrow> (\<forall>xs. path_to c R e xs s \<longrightarrow> d \<in> set xs)"

definition all_connected :: "cfg \<Rightarrow> block_id list \<Rightarrow> block_id \<Rightarrow> bool" where
  "all_connected c R e \<longleftrightarrow> (\<forall>s \<in> set R. \<exists>xs. path_to c R e xs s)"

lemma preds_in: "set (context_preds c R s) \<subseteq> set R"
  by (auto simp: context_preds_def split: option.splits)

lemma path_last: "path_to c R e xs v \<Longrightarrow> v \<in> set xs"
  by (induction rule: path_to.induct) auto

lemma path_nodes: "path_to c R e xs v \<Longrightarrow> e \<in> set R \<Longrightarrow> set xs \<subseteq> set R"
  by (induction rule: path_to.induct) auto

lemma dominates_self: "dominates c R e s s"
  by (auto simp: dominates_def dest: path_last)

lemma dominates_pred:
  assumes "dominates c R e d s" and "d \<noteq> s" and "p \<in> set (context_preds c R s)" and "s \<in> set R"
  shows "dominates c R e d p"
  unfolding dominates_def
proof (intro allI impI)
  fix xs assume "path_to c R e xs p"
  then have "path_to c R e (xs @ [s]) s" using assms(3,4) by (rule path_to.extend)
  with assms(1,2) show "d \<in> set xs" by (auto simp: dominates_def)
qed

section \<open>The invariant of the iteration\<close>

text \<open>What the set of a state should be, given the sets of its predecessors.\<close>

definition flow :: "(block_id, block_id list) js_map \<Rightarrow> block_id list \<Rightarrow> block_id \<Rightarrow> block_id set" where
  "flow doms preds s = insert s {d. \<forall>p \<in> set preds. \<exists>ds. map_get doms p = Some ds \<and> d \<in> set ds}"

definition good_set ::
  "cfg \<Rightarrow> block_id list \<Rightarrow> block_id \<Rightarrow> (block_id, block_id list) js_map \<Rightarrow> block_id \<Rightarrow> block_id list \<Rightarrow> bool"
where
  "good_set c R e doms s ds \<longleftrightarrow>
     distinct ds \<and> set ds \<subseteq> set R \<and> {d. dominates c R e d s} \<subseteq> set ds \<and>
     (s = e \<longrightarrow> set ds = {e}) \<and>
     (s \<noteq> e \<and> context_preds c R s \<noteq> [] \<longrightarrow> flow doms (context_preds c R s) s \<subseteq> set ds)"

definition dom_inv ::
  "cfg \<Rightarrow> block_id list \<Rightarrow> block_id \<Rightarrow> (block_id, block_id list) js_map \<Rightarrow> bool" where
  "dom_inv c R e doms \<longleftrightarrow>
     (\<forall>s \<in> set R. \<exists>ds. map_get doms s = Some ds \<and> good_set c R e doms s ds)"

lemma dom_inv_get:
  assumes "dom_inv c R e doms" and "s \<in> set R"
  obtains ds where "map_get doms s = Some ds" and "good_set c R e doms s ds"
  using assms unfolding dom_inv_def by blast

lemma dom_inv_pred:
  assumes "dom_inv c R e doms" and "p \<in> set (context_preds c R s)"
  obtains ds where "map_get doms p = Some ds" and "good_set c R e doms p ds"
  using dom_inv_get[OF assms(1), of p] preds_in[of c R s] assms(2) by blast

lemma set_inter [simp]: "set (inter xs ys) = set xs \<inter> set ys" "distinct xs \<Longrightarrow> distinct (inter xs ys)"
  by (auto simp: inter_def)

lemma set_set_add [simp]: "set (set_add x xs) = insert x (set xs)" "distinct xs \<Longrightarrow> distinct (set_add x xs)"
  by (auto simp: set_add_def)

lemma intersect_doms_set:
  assumes "\<forall>p \<in> set preds. \<exists>ds. map_get doms p = Some ds \<and> distinct ds" and "preds \<noteq> []"
  shows "set (intersect_doms doms preds) =
      {d. \<forall>p \<in> set preds. \<exists>ds. map_get doms p = Some ds \<and> d \<in> set ds} \<and>
    distinct (intersect_doms doms preds)"
proof -
  let ?f = "\<lambda>q acc. case map_get doms q of None \<Rightarrow> acc | Some d \<Rightarrow> inter acc d"
  have *: "set (fold ?f ps acc) =
      set acc \<inter> {d. \<forall>p \<in> set ps. \<exists>ds. map_get doms p = Some ds \<and> d \<in> set ds} \<and>
    distinct (fold ?f ps acc)"
    if "\<forall>p \<in> set ps. \<exists>ds. map_get doms p = Some ds" "distinct acc" for ps acc
    using that
  proof (induction ps arbitrary: acc)
    case (Cons p ps)
    then obtain ds where "map_get doms p = Some ds" by auto
    with Cons show ?case by auto
  qed simp
  obtain p ps where p: "preds = p # ps" using assms(2) by (cases preds) auto
  obtain ds where ds: "map_get doms p = Some ds" "distinct ds" using assms(1) p by auto
  have "\<forall>q \<in> set ps. \<exists>ds. map_get doms q = Some ds" using assms(1) p by auto
  from *[OF this ds(2)] ds p show ?thesis by (auto simp: intersect_doms_def)
qed

lemma new_dom_set:
  assumes "dom_inv c R e doms" and "context_preds c R s \<noteq> []"
  shows "set (set_add s (intersect_doms doms (context_preds c R s))) = flow doms (context_preds c R s) s"
    and "distinct (set_add s (intersect_doms doms (context_preds c R s)))"
proof -
  have "\<forall>p \<in> set (context_preds c R s). \<exists>ds. map_get doms p = Some ds \<and> distinct ds"
  proof
    fix p assume "p \<in> set (context_preds c R s)"
    then obtain ds where "map_get doms p = Some ds" "good_set c R e doms p ds"
      by (rule dom_inv_pred[OF assms(1)])
    then show "\<exists>ds. map_get doms p = Some ds \<and> distinct ds" by (simp add: good_set_def)
  qed
  from intersect_doms_set[OF this assms(2)]
  show "set (set_add s (intersect_doms doms (context_preds c R s))) = flow doms (context_preds c R s) s"
    "distinct (set_add s (intersect_doms doms (context_preds c R s)))"
    unfolding set_set_add(1) flow_def by (simp_all add: set_set_add(2))
qed

lemma flow_within:
  assumes "dom_inv c R e doms" and "s \<in> set R" and "context_preds c R s \<noteq> []"
  shows "flow doms (context_preds c R s) s \<subseteq> set R" and
    "{d. dominates c R e d s} \<subseteq> flow doms (context_preds c R s) s"
proof -
  obtain p where p: "p \<in> set (context_preds c R s)" using assms(3) by (cases "context_preds c R s") auto
  obtain ds where ds: "map_get doms p = Some ds" "good_set c R e doms p ds"
    by (rule dom_inv_pred[OF assms(1) p])
  then have "set ds \<subseteq> set R" by (simp add: good_set_def)
  with ds(1) p assms(2) show "flow doms (context_preds c R s) s \<subseteq> set R"
    unfolding flow_def by (auto dest!: bspec[OF _ p])
  show "{d. dominates c R e d s} \<subseteq> flow doms (context_preds c R s) s"
  proof (clarsimp simp: flow_def)
    fix d p
    assume d: "dominates c R e d s" "d \<noteq> s" and p: "p \<in> set (context_preds c R s)"
    from dominates_pred[OF d p assms(2)] have "dominates c R e d p" .
    moreover obtain ds where "map_get doms p = Some ds" "good_set c R e doms p ds"
      by (rule dom_inv_pred[OF assms(1) p])
    ultimately show "\<exists>ds. map_get doms p = Some ds \<and> d \<in> set ds" by (auto simp: good_set_def)
  qed
qed

text \<open>Replacing the set of a state by what flows into it.\<close>

lemma dom_inv_update:
  assumes inv: "dom_inv c R e doms" and s: "s \<in> set R" "s \<noteq> e" and p: "context_preds c R s \<noteq> []"
    and ds: "set ds = flow doms (context_preds c R s) s" "distinct ds"
  shows "dom_inv c R e (map_set doms s ds)"
proof -
  obtain old where o: "map_get doms s = Some old" "good_set c R e doms s old"
    by (rule dom_inv_get[OF inv s(1)])
  then have old: "map_get doms s = Some old" "flow doms (context_preds c R s) s \<subseteq> set old"
    using s(2) p by (simp_all add: good_set_def)
  have shrink: "flow (map_set doms s ds) preds t \<subseteq> flow doms preds t" for preds t
  proof
    fix d assume d: "d \<in> flow (map_set doms s ds) preds t"
    have "\<exists>dp. map_get doms p = Some dp \<and> d \<in> set dp" if "p \<in> set preds" "d \<noteq> t" for p
    proof -
      from d that obtain dp where "map_get (map_set doms s ds) p = Some dp" "d \<in> set dp"
        unfolding flow_def by blast
      with old ds(1) show ?thesis by (cases "p = s") auto
    qed
    then show "d \<in> flow doms preds t" unfolding flow_def by blast
  qed
  show ?thesis unfolding dom_inv_def
  proof
    fix t assume t: "t \<in> set R"
    show "\<exists>ds'. map_get (map_set doms s ds) t = Some ds' \<and> good_set c R e (map_set doms s ds) t ds'"
    proof (cases "t = s")
      case True
      with flow_within[OF inv s(1) p] ds s(2) shrink[of "context_preds c R s" s] show ?thesis
        by (simp add: good_set_def)
    next
      case False
      obtain dt where "map_get doms t = Some dt" "good_set c R e doms t dt"
        by (rule dom_inv_get[OF inv t])
      with False subset_trans[OF shrink[of "context_preds c R t" t]] show ?thesis
        by (simp add: good_set_def)
    qed
  qed
qed

lemma dom_inv_initial:
  assumes "e \<in> set R" and "distinct R" and "all_connected c R e"
  shows "dom_inv c R e (initial_doms R e)"
  unfolding dom_inv_def
proof
  fix s assume s: "s \<in> set R"
  have get: "map_get (initial_doms R e) t = (if t \<in> set R then Some (if t = e then [e] else R) else None)" for t
    by (auto simp: initial_doms_def map_get_def map_of_map_restrict)
  have "{d. dominates c R e d s} \<subseteq> set R"
    using assms s path_nodes by (fastforce simp: dominates_def all_connected_def)
  moreover have "{d. dominates c R e d e} \<subseteq> {e}"
    using path_to.start[of c R e] by (fastforce simp: dominates_def)
  moreover have "flow (initial_doms R e) (context_preds c R s) s \<subseteq> set R" if ne: "context_preds c R s \<noteq> []"
  proof
    fix d assume d: "d \<in> flow (initial_doms R e) (context_preds c R s) s"
    obtain p where p: "p \<in> set (context_preds c R s)" using ne by (meson ex_in_conv set_empty)
    with preds_in[of c R s] d s assms(1) show "d \<in> set R"
      by (cases "d = s") (auto simp: flow_def get split: if_splits dest!: bspec[OF _ p])
  qed
  ultimately show "\<exists>ds. map_get (initial_doms R e) s = Some ds \<and> good_set c R e (initial_doms R e) s ds"
    using s assms by (auto simp: get good_set_def)
qed

section \<open>The iteration ends at the dominators\<close>

definition total_size :: "block_id list \<Rightarrow> (block_id, block_id list) js_map \<Rightarrow> nat" where
  "total_size R doms = (\<Sum>s\<leftarrow>R. case map_get doms s of None \<Rightarrow> 0 | Some ds \<Rightarrow> length ds)"

lemma total_size_update:
  assumes "s \<in> set R" and "map_get doms s = Some old" and "length ds < length old"
  shows "total_size R (map_set doms s ds) < total_size R doms"
  using assms(1)
proof (induction R)
  case (Cons t R)
  have le: "(case map_get (map_set doms s ds) t of None \<Rightarrow> 0 | Some d \<Rightarrow> length d)
      \<le> (case map_get doms t of None \<Rightarrow> 0 | Some d \<Rightarrow> length d)" for t
    using assms(2,3) by auto
  have "total_size R (map_set doms s ds) \<le> total_size R doms"
    unfolding total_size_def by (rule sum_list_mono) (rule le)
  with Cons le[of t] assms(2,3) show ?case
    by (cases "t = s") (fastforce simp: total_size_def)+
qed simp

definition settled ::
  "cfg \<Rightarrow> block_id list \<Rightarrow> block_id \<Rightarrow> (block_id, block_id list) js_map \<Rightarrow> block_id \<Rightarrow> bool" where
  "settled c R e doms s \<longleftrightarrow>
     (s \<noteq> e \<and> context_preds c R s \<noteq> [] \<longrightarrow>
        (\<exists>ds. map_get doms s = Some ds \<and> set ds = flow doms (context_preds c R s) s))"

text \<open>A step settles its state without a change, or makes the sets smaller.\<close>

lemma dominator_step_effect:
  assumes inv: "dom_inv c R e doms" and s: "s \<in> set R"
  shows "dominator_step c R e s (doms, ch) = (doms, ch) \<and> settled c R e doms s \<or>
    (\<exists>doms'. dominator_step c R e s (doms, ch) = (doms', True) \<and> dom_inv c R e doms' \<and>
       total_size R doms' < total_size R doms)"
proof (cases "s = e \<or> context_preds c R s = []")
  case True
  then show ?thesis by (auto simp: dominator_step_def settled_def)
next
  case False
  then have p: "context_preds c R s \<noteq> []" and se: "s \<noteq> e" by auto
  let ?new = "set_add s (intersect_doms doms (context_preds c R s))"
  note new = new_dom_set[OF inv p]
  obtain old where "map_get doms s = Some old" "good_set c R e doms s old"
    by (rule dom_inv_get[OF inv s])
  then have old: "map_get doms s = Some old" "distinct old"
    "flow doms (context_preds c R s) s \<subseteq> set old"
    using se p by (simp_all add: good_set_def)
  have sub: "set ?new \<subseteq> set old" using new(1) old(3) by simp
  show ?thesis
  proof (cases "length ?new = length old")
    case True
    then have "set ?new = set old"
      using sub new(2) old(2) by (metis List.finite_set card_subset_eq distinct_card)
    with True se p old new show ?thesis
      by (auto simp: dominator_step_def settled_def Let_def)
  next
    case False
    have "length ?new < length old"
      using False sub new(2) old(2) by (metis List.finite_set card_mono distinct_card le_neq_implies_less)
    with total_size_update[OF s old(1)] dom_inv_update[OF inv s se p new] False se p old(1)
    show ?thesis by (auto simp: dominator_step_def Let_def)
  qed
qed

lemma dominator_fold_effect:
  assumes "dom_inv c R e doms" and "set ss \<subseteq> set R"
  shows "fold (dominator_step c R e) ss (doms, ch) = (doms, ch) \<and> (\<forall>s \<in> set ss. settled c R e doms s) \<or>
    (\<exists>doms'. fold (dominator_step c R e) ss (doms, ch) = (doms', True) \<and> dom_inv c R e doms' \<and>
       total_size R doms' < total_size R doms)"
  using assms
proof (induction ss arbitrary: doms ch)
  case (Cons s ss)
  from dominator_step_effect[OF Cons.prems(1), of s ch] Cons.prems(2) consider
    (same) "dominator_step c R e s (doms, ch) = (doms, ch)" "settled c R e doms s"
    | (less) doms' where "dominator_step c R e s (doms, ch) = (doms', True)" "dom_inv c R e doms'"
      "total_size R doms' < total_size R doms" by auto
  then show ?case
  proof cases
    case same
    with Cons.IH[OF Cons.prems(1), of ch] Cons.prems(2) show ?thesis by auto
  next
    case (less doms')
    with Cons.IH[OF less(2), of True] Cons.prems(2) show ?thesis by auto
  qed
qed simp

lemma dominator_loop_ends:
  assumes "dom_inv c R e doms" and "total_size R doms < n"
  shows "\<exists>doms'. dominator_loop n c R e doms = Some doms' \<and> dom_inv c R e doms' \<and>
    (\<forall>s \<in> set R. settled c R e doms' s)"
  using assms
proof (induction n arbitrary: doms)
  case (Suc n)
  from dominator_fold_effect[OF Suc.prems(1), of R False] consider
    (same) "dominator_pass c R e doms = (doms, False)" "\<forall>s \<in> set R. settled c R e doms s"
    | (less) doms' where "dominator_pass c R e doms = (doms', True)" "dom_inv c R e doms'"
      "total_size R doms' < total_size R doms" by (auto simp: dominator_pass_def)
  then show ?case
  proof cases
    case same
    with Suc.prems(1) show ?thesis by simp
  next
    case (less doms')
    with Suc.IH[OF less(2)] Suc.prems(2) show ?thesis by simp
  qed
qed simp

text \<open>A settled solution has only dominators.\<close>

lemma settled_dominates:
  assumes "dom_inv c R e doms" and "\<forall>s \<in> set R. settled c R e doms s"
    and "path_to c R e xs s" and "map_get doms s = Some ds" and "d \<in> set ds" and "e \<in> set R"
  shows "d \<in> set xs"
  using assms(3,4,5)
proof (induction arbitrary: ds)
  case start
  obtain de where "map_get doms e = Some de" "good_set c R e doms e de"
    by (rule dom_inv_get[OF assms(1,6)])
  with start show ?case by (simp add: good_set_def)
next
  case (extend xs u v)
  show ?case
  proof (cases "v = e")
    case True
    obtain de where "map_get doms e = Some de" "good_set c R e doms e de"
      by (rule dom_inv_get[OF assms(1,6)])
    with True extend.prems show ?thesis by (simp add: good_set_def)
  next
    case False
    have "context_preds c R v \<noteq> []" using extend.hyps(2) by auto
    have "settled c R e doms v" using assms(2) extend.hyps(3) by blast
    with False \<open>context_preds c R v \<noteq> []\<close> extend.prems have "d \<in> flow doms (context_preds c R v) v"
      by (auto simp: settled_def)
    then consider "d = v" | ds' where "map_get doms u = Some ds'" "d \<in> set ds'"
      using extend.hyps(2) by (auto simp: flow_def)
    then show ?thesis using extend.IH by cases auto
  qed
qed

lemma total_size_initial: "total_size R (initial_doms R e) \<le> length R * length R"
proof -
  have "(case map_get (initial_doms R e) s of None \<Rightarrow> 0 | Some ds \<Rightarrow> length ds) \<le> length R"
    if "s \<in> set R" for s
    using that by (cases R) (auto simp: initial_doms_def map_get_def map_of_map_restrict)
  from sum_list_mono[OF this] show ?thesis
    by (simp add: total_size_def sum_list_triv)
qed

lemma dominators_end:
  assumes "e \<in> set (reachableStates f)" and "distinct (reachableStates f)"
    and "all_connected c (reachableStates f) e"
  shows "\<exists>f'. computeDominators c e f = Some f' \<and>
    (\<forall>s \<in> set (reachableStates f). \<exists>ds. map_get (dominators f') s = Some ds \<and>
       set ds = {d. dominates c (reachableStates f) e d s})"
proof -
  let ?R = "reachableStates f"
  have "total_size ?R (initial_doms ?R e) < length ?R * length ?R + 1"
    using total_size_initial[of ?R e] by simp
  from dominator_loop_ends[OF dom_inv_initial[OF assms] this] obtain doms where
    d: "dominator_loop (length ?R * length ?R + 1) c ?R e (initial_doms ?R e) = Some doms"
    "dom_inv c ?R e doms" "\<forall>s \<in> set ?R. settled c ?R e doms s" by blast
  have "\<exists>ds. map_get doms s = Some ds \<and> set ds = {d. dominates c ?R e d s}" if s: "s \<in> set ?R" for s
  proof -
    obtain ds where "map_get doms s = Some ds" "good_set c ?R e doms s ds"
      by (rule dom_inv_get[OF d(2) s])
    with settled_dominates[OF d(2,3) _ _ _ assms(1)] show ?thesis
      by (auto simp: dominates_def good_set_def)
  qed
  with d(1) show ?thesis by (simp add: computeDominators_def Let_def)
qed

text \<open>C14. The dominator iteration ends within its bound, and for a function whose states are all
  connected to its entry the sets are exactly the dominators: a state is in the set of another
  if and only if every path from the entry to it inside the function passes through it.\<close>

theorem dominators_exact:
  assumes "e \<in> set (reachableStates f)" and "distinct (reachableStates f)"
    and "all_connected c (reachableStates f) e"
  shows "\<exists>f'. computeDominators c e f = Some f' \<and>
    (\<forall>s \<in> set (reachableStates f). \<exists>ds. map_get (dominators f') s = Some ds \<and>
       set ds = {d. dominates c (reachableStates f) e d s})"
  using dominators_end[OF assms] .

theorem dominators_exact_witness:
  "\<exists>f. computeDominators (two_cycle (Num 1) (Num 5)) (Num 1)
         (FunctionContext ''f'' (Some (Num 1))\<lparr>reachableStates := [Num 1, Num 5]\<rparr>) = Some f \<and>
    (\<exists>ds. map_get (dominators f) (Num 5) = Some ds)"
proof -
  let ?c = "two_cycle (Num 1) (Num 5)" and ?R = "[Num 1, Num 5]"
  have "path_to ?c ?R (Num 1) ([Num 1] @ [Num 5]) (Num 5)"
    by (rule path_to.extend[OF path_to.start]) code_simp+
  then have "all_connected ?c ?R (Num 1)"
    unfolding all_connected_def using path_to.start[of ?c ?R "Num 1"] by auto
  then show ?thesis
    using dominators_exact[of "Num 1" "FunctionContext ''f'' (Some (Num 1))\<lparr>reachableStates := ?R\<rparr>" ?c]
    by auto
qed

end
