(* ===== verification/Multi_Entry_Props.thy ===== *)
theory Multi_Entry_Props
  imports Dominator_Props
begin

text \<open>
  The multi-entry analysis ends; a function owns exactly the states that its entry reaches by
  unconditional and conditional edges, and the classification counts the owners.
\<close>

section \<open>Reachability inside a function\<close>

definition followable :: "edge \<Rightarrow> bool" where
  "followable e \<longleftrightarrow> edge_kind e \<in> {UNCONDITIONAL, CONDITIONAL_TRUE, CONDITIONAL_FALSE}"

definition flow_targets :: "cfg \<Rightarrow> block_id \<Rightarrow> block_id list" where
  "flow_targets c i =
     (case getBlock c i of None \<Rightarrow> [] | Some b \<Rightarrow> map target (filter followable (successors b)))"

inductive flows_to :: "cfg \<Rightarrow> block_id \<Rightarrow> block_id \<Rightarrow> bool" for c s where
  entry: "flows_to c s s"
| step: "flows_to c s i \<Longrightarrow> j \<in> set (flow_targets c i) \<Longrightarrow> flows_to c s j"

lemma flow_targets_in: "wf_cfg c \<Longrightarrow> set (flow_targets c i) \<subseteq> set (map_keys (blocks c))"
  using wf_targets[of c i] by (auto simp: flow_targets_def block_targets_def split: option.splits)

section \<open>Contexts\<close>

text \<open>The traversal only ever records the last condition.\<close>

definition plain_ctx :: "set_store \<Rightarrow> abs_context \<Rightarrow> bool" where
  "plain_ctx h ctx \<longleftrightarrow> ctx = [] \<or> (\<exists>a < length h. ctx = [(''last_cond'', a)])"

definition plain_store :: "set_store \<Rightarrow> bool" where
  "plain_store h \<longleftrightarrow> (\<forall>xs \<in> set h. distinct xs \<and> set xs \<subseteq> {0, 1})"

definition ctx_keys :: "(string \<times> nat list) list set" where
  "ctx_keys = insert [] ((\<lambda>vs. [(''last_cond'', vs)]) ` {[], [0], [1], [0, 1]})"

lemma finite_ctx_keys [simp]: "finite ctx_keys" and card_ctx_keys: "card ctx_keys = 5"
  by (simp_all add: ctx_keys_def)

lemma plain_ctx_mono: "plain_ctx h ctx \<Longrightarrow> length h \<le> length h' \<Longrightarrow> plain_ctx h' ctx"
  by (auto simp: plain_ctx_def)

lemma ctx_set_plain:
  assumes "plain_ctx h ctx" and "plain_store h" and "v \<in> {0, 1}" and "ctx_set ''last_cond'' v (h, ctx) = (h', ctx')"
  shows "plain_ctx h' ctx' \<and> plain_store h' \<and> length h \<le> length h'"
proof (cases "ctx = []")
  case True
  with assms(2-4) show ?thesis
    by (auto simp: ctx_set_def ctx_new_set_def plain_ctx_def plain_store_def nth_append map_get_def)
next
  case False
  then obtain a where a: "a < length h" "ctx = [(''last_cond'', a)]" using assms(1) by (auto simp: plain_ctx_def)
  then have bits: "distinct (h ! a) \<and> set (h ! a) \<subseteq> {0, 1}" using assms(2) by (simp add: plain_store_def)
  have "plain_store (h[a := h ! a @ [v]])" if "v \<notin> set (h ! a)"
    unfolding plain_store_def
  proof
    fix xs assume "xs \<in> set (h[a := h ! a @ [v]])"
    then consider "xs = h ! a @ [v]" | "xs \<in> set h"
      using set_update_subset_insert[of h a "h ! a @ [v]"] by blast
    then show "distinct xs \<and> set xs \<subseteq> {0, 1}"
      using assms(2,3) that bits
      by cases (auto simp: plain_store_def)
  qed
  with a assms(2,4) show ?thesis
    by (auto simp: ctx_set_def ctx_new_set_def plain_ctx_def map_get_def split: if_splits)
qed

lemma sort_bits:
  assumes "distinct (xs :: nat list)" and "set xs \<subseteq> {0, 1}" shows "sort xs \<in> {[], [0], [1], [0, 1]}"
proof -
  have s: "sort xs = sorted_list_of_set (set xs)" using assms(1) by (simp add: sorted_list_of_set_sort_remdups distinct_remdups_id)
  consider "set xs = {}" | "set xs = {0}" | "set xs = {1}" | "set xs = {0, 1}"
    using assms(2) subset_insert_iff subset_singletonD by (metis insert_Diff)
  then show ?thesis unfolding s by cases auto
qed

lemma ctx_key_plain:
  assumes "plain_ctx h ctx" and "plain_store h" shows "ctx_key h ctx \<in> ctx_keys"
proof (cases "ctx = []")
  case False
  then obtain a where a: "a < length h" "ctx = [(''last_cond'', a)]" using assms(1) by (auto simp: plain_ctx_def)
  then have "sort (h ! a) \<in> {[], [0], [1], [0, 1]}"
    using assms(2) by (intro sort_bits) (auto simp: plain_store_def)
  moreover have "ctx_key h ctx = [(''last_cond'', sort (h ! a))]"
    by (simp add: ctx_key_def a map_keys_def map_get_def)
  ultimately show ?thesis unfolding ctx_keys_def by blast
qed (simp add: ctx_key_def ctx_keys_def map_keys_def)

section \<open>One step\<close>

text \<open>What the edges of a block change.\<close>

definition same_visits :: "traversal \<Rightarrow> traversal \<Rightarrow> bool" where
  "same_visits t t' \<longleftrightarrow>
     seen_keys t' = seen_keys t \<and> ownership t' = ownership t \<and> func_id (func t') = func_id (func t) \<and>
     reachableStates (func t') = reachableStates (func t)"

definition plain_work :: "traversal \<Rightarrow> bool" where
  "plain_work t \<longleftrightarrow> plain_store (store t) \<and> (\<forall>(i, ctx) \<in> set (worklist t). plain_ctx (store t) ctx)"

lemma propagate_effect:
  assumes "plain_work t" and "plain_ctx (store t) ctx"
  shows "same_visits t (propagate ctx e t) \<and> plain_work (propagate ctx e t) \<and>
    length (store t) \<le> length (store (propagate ctx e t)) \<and>
    map fst (worklist (propagate ctx e t)) = map fst (worklist t) @ (if followable e then [target e] else [])"
proof -
  have upd: "same_visits t (t\<lparr>store := h, worklist := worklist t @ [(j, ctx')]\<rparr>) \<and>
      plain_work (t\<lparr>store := h, worklist := worklist t @ [(j, ctx')]\<rparr>)"
    if "plain_ctx h ctx'" "plain_store h" "length (store t) \<le> length h" for h ctx' j
    using assms that by (auto simp: same_visits_def plain_work_def intro: plain_ctx_mono)
  have cond: "\<exists>h ctx'. (if condition e = None then (store t, ctx) else ctx_set ''last_cond'' v (store t, ctx)) = (h, ctx') \<and>
      plain_ctx h ctx' \<and> plain_store h \<and> length (store t) \<le> length h" if "v \<in> {0, 1}" for v
    using ctx_set_plain[OF assms(2) _ that] assms
    by (cases "ctx_set ''last_cond'' v (store t, ctx)") (auto simp: plain_work_def)
  show ?thesis
  proof (cases "edge_kind e")
    case UNCONDITIONAL
    with assms show ?thesis
      by (auto simp: propagate_def followable_def same_visits_def plain_work_def)
  next
    case CONDITIONAL_TRUE
    from cond[of 1] obtain h ctx' where
      "(if condition e = None then (store t, ctx) else ctx_set ''last_cond'' 1 (store t, ctx)) = (h, ctx')"
      "plain_ctx h ctx'" "plain_store h" "length (store t) \<le> length h" by auto
    with CONDITIONAL_TRUE upd[of h ctx' "target e"] show ?thesis
      by (simp add: propagate_def followable_def)
  next
    case CONDITIONAL_FALSE
    from cond[of 0] obtain h ctx' where
      "(if condition e = None then (store t, ctx) else ctx_set ''last_cond'' 0 (store t, ctx)) = (h, ctx')"
      "plain_ctx h ctx'" "plain_store h" "length (store t) \<le> length h" by auto
    with CONDITIONAL_FALSE upd[of h ctx' "target e"] show ?thesis
      by (simp add: propagate_def followable_def)
  next
    case TABLE_DISPATCH
    with assms show ?thesis by (simp add: propagate_def followable_def same_visits_def)
  next
    case DYNAMIC
    with assms show ?thesis
      by (simp add: propagate_def followable_def same_visits_def plain_work_def addReachableState_def)
  qed
qed

lemma propagate_all_effect:
  assumes "plain_work t" and "plain_ctx (store t) ctx"
  shows "same_visits t (fold (propagate ctx) es t) \<and> plain_work (fold (propagate ctx) es t) \<and>
    map fst (worklist (fold (propagate ctx) es t)) =
      map fst (worklist t) @ map target (filter followable es)"
  using assms
proof (induction es arbitrary: t)
  case (Cons e es)
  note p = propagate_effect[OF Cons.prems, of e]
  have "plain_ctx (store (propagate ctx e t)) ctx" using p Cons.prems(2) plain_ctx_mono by blast
  with Cons.IH[of "propagate ctx e t"] p show ?case by (auto simp: same_visits_def)
qed (simp add: same_visits_def)

section \<open>The loop\<close>

definition owned :: "(block_id, string list) js_map \<Rightarrow> string \<Rightarrow> block_id set \<Rightarrow>
    (block_id, string list) js_map \<Rightarrow> bool" where
  "owned o0 f S o1 \<longleftrightarrow>
     (\<forall>i. map_get o1 i =
        (if i \<in> S then Some (set_add f (case map_get o0 i of None \<Rightarrow> [] | Some fs \<Rightarrow> fs))
         else map_get o0 i))"

definition work_inv ::
  "cfg \<Rightarrow> string \<Rightarrow> (block_id, string list) js_map \<Rightarrow> block_id \<Rightarrow> traversal \<Rightarrow> bool" where
  "work_inv c f o0 s t \<longleftrightarrow>
     plain_work t \<and> func_id (func t) = f \<and>
     set (reachableStates (func t)) = fst ` set (seen_keys t) \<and> distinct (reachableStates (func t)) \<and>
     owned o0 f (fst ` set (seen_keys t)) (ownership t) \<and>
     set (seen_keys t) \<subseteq> set (map_keys (blocks c)) \<times> ctx_keys \<and>
     fst ` set (worklist t) \<subseteq> set (map_keys (blocks c)) \<and>
     s \<in> fst ` set (seen_keys t) \<union> fst ` set (worklist t) \<and>
     (\<forall>i \<in> fst ` set (seen_keys t) \<union> fst ` set (worklist t). flows_to c s i) \<and>
     (\<forall>i \<in> fst ` set (seen_keys t).
        set (flow_targets c i) \<subseteq> fst ` set (seen_keys t) \<union> fst ` set (worklist t))"

definition potential :: "cfg \<Rightarrow> traversal \<Rightarrow> nat" where
  "potential c t =
     (\<Sum>p \<in> set (map_keys (blocks c)) \<times> ctx_keys - set (seen_keys t). length (flow_targets c (fst p))) +
     length (worklist t)"

lemma own_owned:
  assumes "owned o0 f S o1" shows "owned o0 f (insert i S) (own i f o1)"
proof -
  have "set_add f (set_add f xs) = set_add f xs" for xs by (simp add: set_add_def)
  with assms show ?thesis by (auto simp: owned_def own_def split: option.splits)
qed

lemma visit_block_effect:
  assumes c: "wf_cfg c" and inv: "work_inv c f o0 s (t\<lparr>worklist := (i, ctx) # rest\<rparr>)" and b: "getBlock c i = Some b"
    and new: "(i, ctx_key (store t) ctx) \<notin> set (seen_keys t)"
  shows "work_inv c f o0 s (visit_block i b ctx (t\<lparr>worklist := rest\<rparr>)) \<and>
    potential c (visit_block i b ctx (t\<lparr>worklist := rest\<rparr>)) < potential c (t\<lparr>worklist := (i, ctx) # rest\<rparr>)"
proof -
  let ?k = "ctx_key (store t) ctx"
  let ?f1 = "addReachableState i PROVEN (func t)"
  let ?f2 = "if isExit b \<or> hasReturnStatement b then addReturnState i ?f1 else ?f1"
  let ?t = "t\<lparr>worklist := rest, func := ?f2, ownership := own i (func_id (func t)) (ownership t),
      seen_keys := seen_keys t @ [(i, ?k)]\<rparr>"
  let ?u = "fold (propagate ctx) (successors b) ?t"
  have v: "visit_block i b ctx (t\<lparr>worklist := rest\<rparr>) = ?u"
    by (simp add: visit_block_def Let_def)
  have pw: "plain_work ?t" "plain_ctx (store ?t) ctx"
    using inv by (auto simp: work_inv_def plain_work_def)
  have k: "?k \<in> ctx_keys"
    using ctx_key_plain pw by (auto simp: plain_work_def)
  have i: "i \<in> set (map_keys (blocks c))" using inv by (simp add: work_inv_def)
  have ft: "flow_targets c i = map target (filter followable (successors b))"
    using b by (simp add: flow_targets_def)
  from propagate_all_effect[OF pw, of "successors b"] have
    u: "seen_keys ?u = seen_keys t @ [(i, ?k)]" "ownership ?u = own i (func_id (func t)) (ownership t)"
      "func_id (func ?u) = func_id (func t)"
      "reachableStates (func ?u) = set_add i (reachableStates (func t))" "plain_work ?u"
      "map fst (worklist ?u) = map fst rest @ flow_targets c i"
    by (auto simp: same_visits_def ft addReachableState_def addReturnState_def)
  have w: "fst ` set (worklist ?u) = fst ` set rest \<union> set (flow_targets c i)"
    using arg_cong[OF u(6), of set] by simp
  have sk: "fst ` set (seen_keys ?u) = insert i (fst ` set (seen_keys t))" by (simp add: u(1))
  have flow_i: "flows_to c s i" using inv by (simp add: work_inv_def)
  define U where "U = ?u"
  note u = u[folded U_def] and w = w[folded U_def] and sk = sk[folded U_def]
  let ?t0 = "t\<lparr>worklist := (i, ctx) # rest\<rparr>"
  have "owned o0 f (insert i (fst ` set (seen_keys t))) (own i f (ownership t))"
    using inv by (intro own_owned) (simp add: work_inv_def)
  then have "owned o0 f (fst ` set (seen_keys U)) (ownership U)"
    using inv by (simp add: sk u(2) work_inv_def)
  moreover have "set (reachableStates (func U)) = fst ` set (seen_keys U)" "distinct (reachableStates (func U))"
    using inv by (simp_all add: sk u(4) work_inv_def)
  moreover have "set (seen_keys U) \<subseteq> set (map_keys (blocks c)) \<times> ctx_keys"
    using inv i k by (simp add: u(1) work_inv_def)
  moreover have "fst ` set (worklist U) \<subseteq> set (map_keys (blocks c))"
    using inv flow_targets_in[OF c, of i] by (auto simp: w work_inv_def)
  moreover have "s \<in> fst ` set (seen_keys U) \<union> fst ` set (worklist U)"
    using inv by (auto simp: w sk work_inv_def)
  moreover have "\<forall>j \<in> fst ` set (seen_keys U) \<union> fst ` set (worklist U). flows_to c s j"
    using inv flows_to.step[OF flow_i] unfolding w sk work_inv_def by auto
  moreover have "\<forall>j \<in> fst ` set (seen_keys U).
      set (flow_targets c j) \<subseteq> fst ` set (seen_keys U) \<union> fst ` set (worklist U)"
    using inv unfolding w sk work_inv_def by auto
  moreover have "func_id (func U) = f" "plain_work U"
    using inv u(3,5) by (simp_all add: work_inv_def)
  ultimately have "work_inv c f o0 s U" unfolding work_inv_def by blast
  moreover have "potential c U < potential c ?t0"
  proof -
    let ?A = "set (map_keys (blocks c)) \<times> ctx_keys - set (seen_keys t)"
    have "(\<Sum>p \<in> ?A. length (flow_targets c (fst p))) =
        length (flow_targets c i) + (\<Sum>p \<in> ?A - {(i, ?k)}. length (flow_targets c (fst p)))"
      using new i k by (subst sum.remove[of ?A "(i, ?k)"]) auto
    moreover have "set (map_keys (blocks c)) \<times> ctx_keys - set (seen_keys U) = ?A - {(i, ?k)}"
      by (auto simp: u(1))
    moreover have "length (worklist U) = length rest + length (flow_targets c i)"
      using arg_cong[OF u(6), of length] by simp
    ultimately show ?thesis by (simp add: potential_def)
  qed
  ultimately show ?thesis unfolding v U_def[symmetric] by blast
qed

lemma work_inv_skip:
  assumes "work_inv c f o0 s t" and "worklist t = (i, ctx) # rest" and "i \<in> fst ` set (seen_keys t)"
  shows "work_inv c f o0 s (t\<lparr>worklist := rest\<rparr>)"
proof -
  have "fst ` set (seen_keys t) \<union> fst ` set (worklist t) = fst ` set (seen_keys t) \<union> fst ` set rest"
    using assms(2,3) by auto
  moreover have "fst ` set rest \<subseteq> fst ` set (worklist t)" "plain_work (t\<lparr>worklist := rest\<rparr>)"
    using assms(1,2) by (auto simp: work_inv_def plain_work_def)
  moreover have "fst ` set rest \<subseteq> set (map_keys (blocks c))"
    using assms(1,2) by (auto simp: work_inv_def)
  ultimately show ?thesis using assms(1) unfolding work_inv_def by simp
qed

lemma work_loop_ends:
  assumes "wf_cfg c" and "work_inv c f o0 s t" and "potential c t < n"
  shows "\<exists>t'. work_loop n c t = Some t' \<and> work_inv c f o0 s t' \<and> worklist t' = []"
  using assms(2,3)
proof (induction n arbitrary: t)
  case (Suc n)
  show ?case
  proof (cases "worklist t")
    case Nil
    with Suc.prems show ?thesis by simp
  next
    case (Cons q rest)
    obtain i ctx where q: "q = (i, ctx)" by (cases q)
    have t: "t\<lparr>worklist := (i, ctx) # rest\<rparr> = t" using Cons q by simp
    have "i \<in> set (map_keys (blocks c))" using Suc.prems(1) Cons q by (simp add: work_inv_def)
    then obtain b where b: "getBlock c i = Some b" using getBlock_keys[OF assms(1)] by auto
    show ?thesis
    proof (cases "(i, ctx_key (store t) ctx) \<in> set (seen_keys t)")
      case True
      then have "i \<in> fst ` set (seen_keys t)" by force
      then have "work_inv c f o0 s (t\<lparr>worklist := rest\<rparr>)"
        using work_inv_skip[OF Suc.prems(1)] Cons q by blast
      moreover have "potential c (t\<lparr>worklist := rest\<rparr>) < n"
        using Suc.prems(2) Cons by (simp add: potential_def)
      ultimately show ?thesis using Suc.IH True b Cons q by (simp add: work_step_def)
    next
      case False
      from visit_block_effect[OF assms(1) _ b False, of f o0 s rest] Suc.prems t
      show ?thesis using Suc.IH[of "visit_block i b ctx (t\<lparr>worklist := rest\<rparr>)"] False b Cons q
        by (simp add: work_step_def)
    qed
  qed
qed simp

text \<open>The bound on the loop: every block in each of five contexts.\<close>

lemma sources_total:
  "finite K \<Longrightarrow> (\<Sum>i \<in> K. length (filter (\<lambda>e. source e = i) es)) \<le> length es"
proof (induction es)
  case (Cons e es)
  have "(\<Sum>i \<in> K. length (filter (\<lambda>e. source e = i) (e # es))) =
      (\<Sum>i \<in> K. (if source e = i then 1 else 0) + length (filter (\<lambda>e. source e = i) es))"
    by (intro sum.cong) auto
  also have "\<dots> = (\<Sum>i \<in> K. if source e = i then 1 else 0) +
      (\<Sum>i \<in> K. length (filter (\<lambda>e. source e = i) es))" by (rule sum.distrib)
  also have "(\<Sum>i \<in> K. if source e = i then (1::nat) else 0) \<le> 1"
    using Cons.prems by (simp add: sum.delta)
  finally show ?case using Cons.IH[OF Cons.prems] by simp
qed simp

lemma flow_targets_total:
  assumes "wf_cfg c"
  shows "(\<Sum>i \<in> set (map_keys (blocks c)). length (flow_targets c i)) \<le> length (edges c)"
proof -
  have len: "length (flow_targets c i) \<le> length (filter (\<lambda>e. source e = i) (edges c))"
    if i: "i \<in> set (map_keys (blocks c))" for i
  proof -
    obtain b where b: "getBlock c i = Some b" using getBlock_keys[OF assms, of i] i by auto
    have "map_key i = i" using i assms by (auto simp: wf_cfg_def map_key_def)
    have "length (flow_targets c i) \<le> length (successors b)" using b by (simp add: flow_targets_def)
    with wf_block(2)[OF assms b] \<open>map_key i = i\<close> show ?thesis by simp
  qed
  have "(\<Sum>i \<in> set (map_keys (blocks c)). length (flow_targets c i)) \<le>
      (\<Sum>i \<in> set (map_keys (blocks c)). length (filter (\<lambda>e. source e = i) (edges c)))"
    by (rule sum_mono) (rule len)
  also have "\<dots> \<le> length (edges c)" by (rule sources_total) simp
  finally show ?thesis .
qed

definition start_traversal ::
  "function_context \<Rightarrow> (block_id, string list) js_map \<Rightarrow> block_id \<Rightarrow> traversal" where
  "start_traversal f owners i =
     \<lparr>store = [], func = f, ownership = owners, seen_keys = [], worklist = [(i, [])]\<rparr>"

lemma traversal_exact:
  assumes "wf_cfg c" and "reachableStates f = []" and "i \<in> set (map_keys (blocks c))"
  shows "\<exists>t. work_loop (work_bound c) c (start_traversal f owners i) = Some t \<and>
    distinct (reachableStates (func t)) \<and> set (reachableStates (func t)) = {j. flows_to c i j} \<and>
    owned owners (func_id f) {j. flows_to c i j} (ownership t) \<and> func_id (func t) = func_id f"
proof -
  let ?t = "start_traversal f owners i"
  have "(\<Sum>p \<in> set (map_keys (blocks c)) \<times> ctx_keys. length (flow_targets c (fst p))) =
      (\<Sum>i \<in> set (map_keys (blocks c)). \<Sum>k \<in> ctx_keys. length (flow_targets c i))"
    unfolding sum.cartesian_product by (simp add: case_prod_unfold)
  also have "\<dots> = 5 * (\<Sum>i \<in> set (map_keys (blocks c)). length (flow_targets c i))"
    by (simp add: card_ctx_keys sum_distrib_left)
  finally have pot: "potential c ?t < work_bound c"
    using flow_targets_total[OF assms(1)] by (simp add: potential_def work_bound_def start_traversal_def)
  have "plain_work ?t" by (simp add: plain_work_def start_traversal_def plain_store_def plain_ctx_def)
  moreover have "owned owners (func_id f) {} owners" by (simp add: owned_def)
  moreover have "seen_keys ?t = []" "func ?t = f" "worklist ?t = [(i, [])]" "ownership ?t = owners"
    by (simp_all add: start_traversal_def)
  ultimately have inv: "work_inv c (func_id f) owners i ?t"
    using assms(2,3) flows_to.entry[of c i] unfolding work_inv_def by simp
  from work_loop_ends[OF assms(1) inv pot] obtain t where
    t: "work_loop (work_bound c) c ?t = Some t" "worklist t = []" "work_inv c (func_id f) owners i t"
    by auto
  let ?S = "fst ` set (seen_keys t)"
  from t(2,3) have S: "i \<in> ?S" "\<forall>j \<in> ?S. flows_to c i j" "\<forall>j \<in> ?S. set (flow_targets c j) \<subseteq> ?S"
    unfolding work_inv_def by simp_all
  have "j \<in> ?S" if "flows_to c i j" for j
    using that S(1,3) by induction blast+
  with S(2) have eq: "?S = {j. flows_to c i j}" by blast
  from t(3) have "set (reachableStates (func t)) = ?S" "distinct (reachableStates (func t))"
    "owned owners (func_id f) ?S (ownership t)" "func_id (func t) = func_id f"
    unfolding work_inv_def by simp_all
  with t(1) show ?thesis unfolding eq by blast
qed

section \<open>Components\<close>

text \<open>The recursion of \<open>strongConnect\<close> is as deep as there are states without an index.\<close>

definition unindexed :: "block_id list \<Rightarrow> tarjan \<Rightarrow> nat" where
  "unindexed R t = card (set R - set (map_keys (indices t)))"

definition indexes :: "block_id list \<Rightarrow> nat \<Rightarrow> (block_id \<Rightarrow> tarjan \<Rightarrow> tarjan option) \<Rightarrow> bool" where
  "indexes R n strong \<longleftrightarrow>
     (\<forall>i t. i \<in> set R \<and> map_get (indices t) i = None \<and> unindexed R t < n \<longrightarrow>
        (\<exists>t'. strong i t = Some t' \<and> set (map_keys (indices t)) \<subseteq> set (map_keys (indices t'))))"

lemma unindexed_mono:
  "set (map_keys (indices t)) \<subseteq> set (map_keys (indices t')) \<Longrightarrow> unindexed R t' \<le> unindexed R t"
  unfolding unindexed_def by (intro card_mono) auto

lemma connect_edges_ends:
  assumes "indexes R n strong" and "unindexed R t < n"
  shows "\<exists>t'. connect_edges strong R i es t = Some t' \<and>
    set (map_keys (indices t)) \<subseteq> set (map_keys (indices t'))"
  using assms(2)
proof (induction es arbitrary: t)
  case (Cons e es)
  have low: "indices (lower i k t) = indices t" for k t by (simp add: lower_def)
  show ?case
  proof (cases "counted R (target e) \<and> map_get (indices t) (target e) = None")
    case True
    then have "target e \<in> set R" by (simp add: counted_def)
    with assms(1) Cons.prems True obtain t1 where t1: "strong (target e) t = Some t1"
      "set (map_keys (indices t)) \<subseteq> set (map_keys (indices t1))"
      unfolding indexes_def by blast
    let ?t2 = "lower i (number_of (lowlinks t1) (target e)) t1"
    have "unindexed R ?t2 < n"
      using unindexed_mono[OF t1(2), of R] Cons.prems by (simp add: unindexed_def low)
    from Cons.IH[OF this] t1 True show ?thesis by (auto simp: low Let_def)
  next
    case False
    have "unindexed R (lower i k t) < n" for k using Cons.prems by (simp add: unindexed_def low)
    with False Cons.IH[of t] Cons.IH[of "lower i (number_of (indices t) (target e)) t"] Cons.prems
    show ?thesis by (auto simp: low Let_def)
  qed
qed simp

lemma strongConnect_ends: "indexes R n (strongConnect n c R)"
proof (induction n)
  case 0
  then show ?case by (simp add: indexes_def)
next
  case (Suc n)
  show ?case unfolding indexes_def
  proof (intro allI impI, elim conjE)
    fix i t
    assume i: "i \<in> set R" "map_get (indices t) i = None" and n: "unindexed R t < Suc n"
    let ?t = "open_block i t"
    have new: "i \<notin> set (map_keys (indices t))" using i(2) by (simp add: map_get_None_keys)
    have keys: "set (map_keys (indices ?t)) = insert i (set (map_keys (indices t)))"
      by (simp add: open_block_def map_keys_set insert_absorb)
    have "set R - set (map_keys (indices ?t)) = set R - set (map_keys (indices t)) - {i}"
      using keys by auto
    then have "unindexed R ?t < unindexed R t"
      unfolding unindexed_def using i(1) new by (metis DiffI card_Diff1_less finite_Diff finite_set)
    then have "unindexed R ?t < n" using n by simp
    have close: "indices (close_block c i u) = indices u" for u
      by (simp add: close_block_def Let_def)
    show "\<exists>t'. strongConnect (Suc n) c R i t = Some t' \<and> set (map_keys (indices t)) \<subseteq> set (map_keys (indices t'))"
    proof (cases "getBlock c i")
      case None
      with keys show ?thesis by (auto simp: close)
    next
      case (Some b)
      from connect_edges_ends[OF Suc \<open>unindexed R ?t < n\<close>, of i "successors b"] keys Some
      show ?thesis by (auto simp: close)
    qed
  qed
qed

lemma computeSCCs_ends: "\<exists>cs. computeSCCs c f = Some cs"
proof -
  let ?R = "reachableStates f"
  have "\<exists>t'. fold (connect_root c ?R) is (Some t) = Some t'" if "set is \<subseteq> set ?R" for "is" t
    using that
  proof (induction "is" arbitrary: t)
    case (Cons i "is")
    have "card (set ?R - set (map_keys (indices t))) \<le> length ?R"
      by (meson card_length card_mono Diff_subset finite_set le_trans)
    then have "unindexed ?R t < length ?R + 1" by (simp add: unindexed_def)
    moreover have "i \<in> set ?R" using Cons.prems by simp
    ultimately have "\<exists>t'. strongConnect (length ?R + 1) c ?R i t = Some t'" if "map_get (indices t) i = None"
      using that strongConnect_ends[of ?R "length ?R + 1" c] unfolding indexes_def by metis
    then obtain t' where "connect_root c ?R i (Some t) = Some t'"
      by (cases "map_get (indices t) i") (auto simp: connect_root_def simp del: strongConnect.simps)
    with Cons show ?case by simp
  qed simp
  then show ?thesis unfolding computeSCCs_def by (metis option.simps(9) order_refl)
qed

end
