(* ===== verification/Ownership_Props.thy ===== *)
theory Ownership_Props
  imports Multi_Entry_Props
begin

text \<open>
  The multi-entry analysis as a whole: it ends, and for every block it names exactly the
  functions whose entry flows to the block.
\<close>

section \<open>From flow to dominance\<close>

lemma flow_pred:
  assumes c: "wf_cfg c" and i: "i \<in> set (map_keys (blocks c))" "i \<in> set R"
    and j: "j \<in> set (flow_targets c i)"
  shows "i \<in> set (context_preds c R j)"
proof -
  have jk: "j \<in> set (map_keys (blocks c))" using j flow_targets_in[OF c] by blast
  have keys: "map_key i = i" "map_key j = j" using i(1) jk c by (auto simp: wf_cfg_def map_key_def)
  obtain b d where b: "getBlock c i = Some b" and d: "getBlock c j = Some d"
    using i(1) jk getBlock_keys[OF c] by auto
  obtain e where e: "e \<in> set (successors b)" "target e = j"
    using j b by (auto simp: flow_targets_def)
  then have "e \<in> set (edges c)" "source e = i" using wf_block(2)[OF c b] keys by auto
  then have "e \<in> set (predecessors d)" using wf_block(3)[OF c d] e(2) keys by simp
  then show ?thesis using i(2) d \<open>source e = i\<close> by (auto simp: context_preds_def)
qed

lemma flows_to_keys:
  "flows_to c s j \<Longrightarrow> wf_cfg c \<Longrightarrow> s \<in> set (map_keys (blocks c)) \<Longrightarrow> j \<in> set (map_keys (blocks c))"
  by (induction rule: flows_to.induct) (use flow_targets_in in blast)+

lemma flows_to_path:
  assumes "wf_cfg c" and "s \<in> set (map_keys (blocks c))" and R: "set R = {j. flows_to c s j}"
    and "flows_to c s j"
  shows "\<exists>xs. path_to c R s xs j"
  using assms(4)
proof induction
  case entry
  show ?case by (blast intro: path_to.start)
next
  case (step i j)
  then obtain xs where "path_to c R s xs i" by blast
  moreover have "i \<in> set (context_preds c R j)"
    using flow_pred[OF assms(1) flows_to_keys[OF step(1) assms(1,2)] _ step(2)] step(1) R by blast
  moreover have "j \<in> set R" using R flows_to.step[OF step(1,2)] by blast
  ultimately show ?case by (blast intro: path_to.extend)
qed

lemma flow_connected:
  assumes "wf_cfg c" and "s \<in> set (map_keys (blocks c))" and "set R = {j. flows_to c s j}"
  shows "all_connected c R s"
  using flows_to_path[OF assms] assms(3) by (auto simp: all_connected_def)

section \<open>One function\<close>

text \<open>A function reaches a block when the block of its entry state flows to it.\<close>

definition enters :: "cfg \<Rightarrow> function_context \<Rightarrow> block_id set" where
  "enters c f =
     (case entryState f of
        None \<Rightarrow> {}
      | Some s \<Rightarrow>
          (case findBlockForState c s of None \<Rightarrow> {} | Some b \<Rightarrow> {i. flows_to c (block_id b) i}))"

lemma findBlockForState_key:
  assumes "wf_cfg c" and "findBlockForState c s = Some b" shows "block_id b \<in> set (map_keys (blocks c))"
proof (cases "hasBlock c s")
  case True
  with assms(2) have "getBlock c s = Some b" by (simp add: findBlockForState_def)
  with wf_block(1,4)[OF assms(1)] show ?thesis by metis
next
  case False
  with assms(2) have "b \<in> set (map_values (blocks c))"
    by (auto simp: findBlockForState_def find_Some_iff)
  with wf_values[OF assms(1)] show ?thesis by blast
qed

lemma analyze_function_exact:
  assumes c: "wf_cfg c" and f: "reachableStates f = []"
  shows "\<exists>f' o1. analyze_function c f owners = Some (f', o1) \<and>
    owned owners (func_id f) (enters c f) o1 \<and> set (reachableStates f') = enters c f \<and>
    func_id f' = func_id f"
proof (cases "entryState f")
  case None
  then show ?thesis by (simp add: analyze_function_def enters_def owned_def f)
next
  case (Some s)
  show ?thesis
  proof (cases "findBlockForState c s")
    case None
    with Some show ?thesis by (simp add: analyze_function_def enters_def owned_def f)
  next
    case b: (Some b)
    let ?i = "block_id b"
    have i: "?i \<in> set (map_keys (blocks c))" by (rule findBlockForState_key[OF c b])
    from traversal_exact[OF c f i, of owners] obtain t where
      t: "work_loop (work_bound c) c (start_traversal f owners ?i) = Some t"
        "distinct (reachableStates (func t))" "set (reachableStates (func t)) = {j. flows_to c ?i j}"
        "owned owners (func_id f) {j. flows_to c ?i j} (ownership t)" "func_id (func t) = func_id f"
      by auto
    obtain cs where cs: "computeSCCs c (func t) = Some cs" using computeSCCs_ends by blast
    let ?g = "func t\<lparr>sccs := cs\<rparr>"
    have "?i \<in> set (reachableStates ?g)" using t(3) flows_to.entry by simp
    moreover have "all_connected c (reachableStates ?g) ?i"
      using flow_connected[OF c i] t(3) by simp
    ultimately obtain g where g: "computeDominators c ?i ?g = Some g"
      using dominators_end[of ?i ?g c] t(2) by auto
    then have "reachableStates g = reachableStates (func t)" "func_id g = func_id (func t)"
      by (auto simp: computeDominators_def Let_def)
    with g t cs Some b show ?thesis
      by (simp add: analyze_function_def enters_def start_traversal_def)
  qed
qed

section \<open>All functions\<close>

text \<open>The functions that reach a block, in the order in which they were analysed.\<close>

definition owners_of :: "cfg \<Rightarrow> function_context list \<Rightarrow> block_id \<Rightarrow> string list" where
  "owners_of c fs i = map func_id (filter (\<lambda>f. i \<in> enters c f) fs)"

definition owner_entry :: "string list \<Rightarrow> string list option" where
  "owner_entry xs = (if xs = [] then None else Some xs)"

lemma owned_snoc:
  assumes "owned o0 f S o1" and "map_get o0 i = owner_entry xs" and "f \<notin> set xs"
  shows "map_get o1 i = owner_entry (xs @ (if i \<in> S then [f] else []))"
  using assms by (cases xs) (auto simp: owned_def owner_entry_def set_add_def)

lemma analyze_functions_exact:
  assumes "wf_cfg c" and "\<forall>f \<in> set fs. reachableStates f = []"
    and "distinct (map func_id (gs @ fs))" and "\<forall>i. map_get owners i = owner_entry (owners_of c gs i)"
  shows "\<exists>fs' o1. analyze_functions c fs owners = Some (fs', o1) \<and>
    map (\<lambda>f. set (reachableStates f)) fs' = map (enters c) fs \<and>
    (\<forall>i. map_get o1 i = owner_entry (owners_of c (gs @ fs) i))"
  using assms(2-4)
proof (induction fs arbitrary: gs owners)
  case (Cons f fs)
  from analyze_function_exact[OF assms(1), of f owners] Cons.prems(1) obtain f' o1 where
    f: "analyze_function c f owners = Some (f', o1)" "owned owners (func_id f) (enters c f) o1"
      "set (reachableStates f') = enters c f" by auto
  have "func_id f \<notin> set (owners_of c gs i)" for i
    using Cons.prems(2) by (auto simp: owners_of_def)
  with f(2) Cons.prems(3) have "\<forall>i. map_get o1 i = owner_entry (owners_of c (gs @ [f]) i)"
    using owned_snoc[OF f(2)] by (simp add: owners_of_def)
  with Cons.IH[of "gs @ [f]" o1] Cons.prems f(1,3) show ?case by auto
qed simp

text \<open>C13. The multi-entry analysis ends, and it is exact: after it, each function's reachable states
  are the blocks its entry flows to by unconditional and conditional edges; a block's owners are
  the functions that reach it, in order; and a block is exclusive when exactly one function reaches
  it, shared when several do, unresolved when none does.\<close>

theorem analysis_is_exact:
  assumes "wf_cfg c" and "\<forall>f \<in> set fs. reachableStates f = []" and "distinct (map func_id fs)"
  shows "\<exists>a. analyze c fs = Some a \<and>
    map (\<lambda>f. set (reachableStates f)) (contexts a) = map (enters c) fs \<and>
    (\<forall>i \<in> set (map_keys (blocks c)).
       map_get (stateOwnership a) i = owner_entry (owners_of c fs i) \<and>
       map_get (stateClassification a) i = Some
         (if owners_of c fs i = [] then UNRESOLVED_STATE
          else if length (owners_of c fs i) = 1 then EXCLUSIVE else SHARED))"
proof -
  have "\<forall>i. map_get [] i = owner_entry (owners_of c [] i)" by (simp add: owners_of_def owner_entry_def)
  with analyze_functions_exact[OF assms(1,2), of "[]" "[]"] assms(3) obtain fs' o1 where
    a: "analyze_functions c fs [] = Some (fs', o1)"
      "map (\<lambda>f. set (reachableStates f)) fs' = map (enters c) fs"
      "\<forall>i. map_get o1 i = owner_entry (owners_of c fs i)" by auto
  have "map_get (map (\<lambda>i. (i, classify o1 i)) ks) i = Some (classify o1 i)" if "i \<in> set ks" for i ks
    using that by (induction ks) (auto simp: map_get_def)
  with a show ?thesis by (simp add: analyze_def classify_def owner_entry_def)
qed

text \<open>Two functions, one entering the diamond at its start, one in its first branch.\<close>

definition two_functions :: "function_context list" where
  "two_functions = [FunctionContext ''f'' (Some (Num 1)), FunctionContext ''g'' (Some (Num 2))]"

theorem analysis_is_exact_witness:
  "\<exists>a. analyze diamond two_functions = Some a \<and>
    map (\<lambda>f. set (reachableStates f)) (contexts a) = map (enters diamond) two_functions"
  using analysis_is_exact[OF diamond_wf, of two_functions]
  by (auto simp: two_functions_def FunctionContext_def)

lemma diamond_classes:
  "map_option (\<lambda>a. map (\<lambda>(i, k). k) (stateClassification a)) (analyze diamond two_functions) =
    Some [EXCLUSIVE, SHARED, EXCLUSIVE, SHARED]"
  by code_simp

section \<open>The component of state 0\<close>

text \<open>The search for strongly connected components does not see edges into the state 0, which is
  not truthy: the cycle of the states 1 and 5 is reported, the cycle of the states 0 and 5 is not.\<close>

theorem component_of_state_zero_missed:
  "map_option (\<lambda>a. map sccs (contexts a))
      (analyze (two_cycle (Num 1) (Num 5)) [FunctionContext ''f'' (Some (Num 1))]) = Some [[[Num 5, Num 1]]] \<and>
   map_option (\<lambda>a. map sccs (contexts a))
      (analyze (two_cycle (Num 0) (Num 5)) [FunctionContext ''f'' (Some (Num 0))]) = Some [[]]"
  by code_simp

end
