(* ===== verification/WeAreDevs.thy ===== *)
theory WeAreDevs
  imports Evaluator JS_Map
begin

text \<open>
  The adapter of the WeAreDevs obfuscator
  (\<open>packages/core/src/adapters/wearedevs/wearedevs-adapter.js\<close>) and the format detector
  (\<open>packages/core/src/detectors/format-detector.js\<close>): recognising a protected script, finding its
  string table, the rotations of the table, the accessor function and the alphabet, and decoding
  the table. The adapter keeps what it found; a second extraction starts from that state.
  \<open>evaluator.fold\<close> is applied to parts of the tree whose folded form is used; the tree itself is
  left as it is (in the pipeline it has been folded before).
\<close>

section \<open>State\<close>

record adapter_stats =
  stringsFound :: nat
  stringsRecovered :: nat
  rotationRangesApplied :: nat

type_synonym alphabet = "(js_string, jsnum) js_map"

record wad =
  alphabet :: "alphabet option"
  stringTable :: "byte_string list"
  accessorName :: "js_string option"
  accessorOffset :: "jsnum option"
  rotationRanges :: "(jsnum \<times> jsnum) list"
  wad_stats :: adapter_stats

definition WeAreDevsAdapter :: wad where
  "WeAreDevsAdapter =
     \<lparr>alphabet = None, stringTable = [], accessorName = None, accessorOffset = None,
      rotationRanges = [],
      wad_stats = \<lparr>stringsFound = 0, stringsRecovered = 0, rotationRangesApplied = 0\<rparr>\<rparr>"

section \<open>Detection\<close>

record detection_result =
  detected :: bool
  det_version :: string
  det_confidence :: rat

fun str_includes :: "js_string \<Rightarrow> js_string \<Rightarrow> bool" where
  "str_includes [] pat = (pat = [])"
| "str_includes (c # s) pat = (take (length pat) (c # s) = pat \<or> str_includes s pat)"

definition large_table_first :: "stmt list \<Rightarrow> bool" where
  "large_table_first body =
     (case body of
        LocalStatement vs (TableConstructor flds # es) # rest \<Rightarrow> length flds > 100
      | _ \<Rightarrow> False)"

definition protected_shape :: "chunk \<Rightarrow> bool" where
  "protected_shape c =
     (case c of
        ReturnStatement (CallExpression (FunctionExpression ps va body) args # es) # rest \<Rightarrow>
          large_table_first body
      | _ \<Rightarrow> False)"

definition detect :: "chunk \<Rightarrow> js_string \<Rightarrow> detection_result" where
  "detect c rawSource =
     (if str_includes rawSource (units ''wearedevs.net/obfuscator'')
      then \<lparr>detected = True, det_version = ''v1.0.0'', det_confidence = 1\<rparr>
      else if protected_shape c
      then \<lparr>detected = True, det_version = ''v1.0.0'', det_confidence = 95 / 100\<rparr>
      else \<lparr>detected = False, det_version = ''unknown'', det_confidence = 0\<rparr>)"

record detection =
  format :: string
  version :: string
  confidence :: rat
  adapter :: "wad option"

text \<open>\<open>FormatDetector\<close> has this one adapter.\<close>

definition detect_format :: "wad \<Rightarrow> chunk \<Rightarrow> js_string \<Rightarrow> detection" where
  "detect_format ad c rawSource =
     (let res = detect c rawSource
      in if detected res
         then \<lparr>format = ''WeAreDevs'', version = det_version res, confidence = det_confidence res,
               adapter = Some ad\<rparr>
         else \<lparr>format = ''Generic/Unknown'', version = ''unknown'', confidence = 1 / 10,
               adapter = None\<rparr>)"

section \<open>Finding the parts\<close>

definition setup_body :: "chunk \<Rightarrow> stmt list" where
  "setup_body c =
     (case c of
        [ReturnStatement (CallExpression (FunctionExpression ps va body) args # es)] \<Rightarrow> body
      | _ \<Rightarrow> c)"

fun first_some :: "('a \<Rightarrow> 'b option) \<Rightarrow> 'a list \<Rightarrow> 'b option" where
  "first_some f [] = None"
| "first_some f (x # xs) = (case f x of Some y \<Rightarrow> Some y | None \<Rightarrow> first_some f xs)"

definition table_of :: "nat \<Rightarrow> stmt \<Rightarrow> table_field list option" where
  "table_of n st =
     (case st of
        LocalStatement vs (TableConstructor flds # es) \<Rightarrow>
          if length flds \<ge> n then Some flds else None
      | _ \<Rightarrow> None)"

fun field_value :: "table_field \<Rightarrow> expr" where
  "field_value (TableKey k v) = v"
| "field_value (TableKeyString k v) = v"
| "field_value (TableValue v) = v"

definition raw_entry :: "table_field \<Rightarrow> byte_string" where
  "raw_entry f = (case field_value f of StringLiteral v raw \<Rightarrow> v | _ \<Rightarrow> [])"

text \<open>\<open>evaluator.fold\<close> of a node, for its result only.\<close>

definition folded :: "(jsnum \<Rightarrow> jsnum \<Rightarrow> jsnum) \<Rightarrow> expr \<Rightarrow> expr" where
  "folded pow e = fst (fold_node pow e resetStats)"

definition range_of_field :: "(jsnum \<Rightarrow> jsnum \<Rightarrow> jsnum) \<Rightarrow> table_field \<Rightarrow> (jsnum \<times> jsnum) option" where
  "range_of_field pow f =
     (case field_value f of
        TableConstructor (f0 # f1 # fs) \<Rightarrow>
          (case (folded pow (field_value f0), folded pow (field_value f1)) of
             (NumericLiteral s rs, NumericLiteral e re) \<Rightarrow> Some (s, e)
           | _ \<Rightarrow> None)
      | _ \<Rightarrow> None)"

definition rotation_loop :: "stmt \<Rightarrow> table_field list option" where
  "rotation_loop st =
     (case st of
        GenericForStatement vs (CallExpression b (TableConstructor flds # args) # es) body \<Rightarrow>
          Some flds
      | _ \<Rightarrow> None)"

definition found_ranges :: "(jsnum \<Rightarrow> jsnum \<Rightarrow> jsnum) \<Rightarrow> stmt list \<Rightarrow> (jsnum \<times> jsnum) list" where
  "found_ranges pow body =
     (case first_some rotation_loop body of
        None \<Rightarrow> []
      | Some flds \<Rightarrow> List.map_filter (range_of_field pow) flds)"

definition accessor_of :: "(jsnum \<Rightarrow> jsnum \<Rightarrow> jsnum) \<Rightarrow> stmt \<Rightarrow> (js_string option \<times> jsnum) option" where
  "accessor_of pow st =
     (case st of
        LocalFunctionStatement i ps va [ReturnStatement [IndexExpression b idx]] \<Rightarrow>
          (case folded pow idx of
             BinaryExpression op l (NumericLiteral v raw) \<Rightarrow>
               if op = ''+'' then Some (node_name i, v)
               else if op = ''-'' then Some (node_name i, num_neg v)
               else None
           | _ \<Rightarrow> None)
      | _ \<Rightarrow> None)"

section \<open>Undoing the rotations\<close>

text \<open>
  The entries as a JavaScript array: an element is \<open>None\<close> when it is \<open>undefined\<close>. A bound that is
  not an integer addresses no element. The bounds of a range move by one, exactly: an array is
  shorter than \<open>2 ^ 32\<close>.
\<close>

definition bound_of :: "jsnum \<Rightarrow> rat option" where
  "bound_of a = (case num_sub a (Num 1) of Num x \<Rightarrow> Some x | NegZero \<Rightarrow> Some 0 | _ \<Rightarrow> None)"

definition elem_at :: "'a option list \<Rightarrow> rat \<Rightarrow> 'a option" where
  "elem_at xs i =
     (if i = of_int \<lfloor>i\<rfloor> \<and> 0 \<le> i \<and> nat \<lfloor>i\<rfloor> < length xs then xs ! nat \<lfloor>i\<rfloor> else None)"

definition set_elem :: "'a option list \<Rightarrow> rat \<Rightarrow> 'a option \<Rightarrow> 'a option list" where
  "set_elem xs i v = (if i = of_int \<lfloor>i\<rfloor> \<and> 0 \<le> i then xs[nat \<lfloor>i\<rfloor> := v] else xs)"

lemma gap_shrinks: "l < r \<Longrightarrow> nat \<lceil>(r - 1) - (l + 1 :: rat)\<rceil> < nat \<lceil>r - l\<rceil>"
proof -
  assume "l < r"
  have "(r - 1) - (l + 1) = (r - l) - of_int 2" by simp
  then have "\<lceil>(r - 1) - (l + 1)\<rceil> = \<lceil>r - l\<rceil> - 2" by (simp only: ceiling_diff_of_int)
  moreover have "0 < \<lceil>r - l\<rceil>" using \<open>l < r\<close> by simp
  ultimately show ?thesis by simp
qed

function reverse_loop :: "rat \<Rightarrow> rat \<Rightarrow> 'a option list \<Rightarrow> 'a option list" where
  "reverse_loop l r xs =
     (if l < r \<and> 0 \<le> l \<and> r < of_nat (length xs)
      then reverse_loop (l + 1) (r - 1) (set_elem (set_elem xs l (elem_at xs r)) r (elem_at xs l))
      else xs)"
  by pat_completeness auto
termination
  by (relation "measure (\<lambda>(l, r, xs). nat \<lceil>r - l\<rceil>)") (auto intro: gap_shrinks)

declare reverse_loop.simps [simp del]

definition reverse_range :: "'a option list \<Rightarrow> jsnum \<times> jsnum \<Rightarrow> 'a option list" where
  "reverse_range xs p =
     (case (bound_of (fst p), bound_of (snd p)) of
        (Some l, Some r) \<Rightarrow> reverse_loop l r xs
      | _ \<Rightarrow> xs)"

section \<open>The alphabet\<close>

text \<open>\<open>toString('latin1')\<close>.\<close>

definition latin1_text :: "byte_string \<Rightarrow> js_string" where
  "latin1_text b = map unat b"

definition key_char :: "table_field \<Rightarrow> js_string option" where
  "key_char f =
     (case f of
        TableKeyString k v \<Rightarrow> node_name k
      | TableKey (StringLiteral s raw) v \<Rightarrow> Some (latin1_text s)
      | _ \<Rightarrow> None)"

definition add_letter ::
  "(jsnum \<Rightarrow> jsnum \<Rightarrow> jsnum) \<Rightarrow> alphabet \<Rightarrow> table_field \<Rightarrow> alphabet" where
  "add_letter pow m f =
     (case key_char f of
        None \<Rightarrow> m
      | Some key \<Rightarrow>
          if key = [] then m
          else (case folded pow (field_value f) of
                  NumericLiteral v raw \<Rightarrow> map_set m key v
                | _ \<Rightarrow> m))"

definition alphabet_table :: "stmt \<Rightarrow> table_field list option" where
  "alphabet_table st =
     (case st of DoStatement body \<Rightarrow> first_some (table_of 60) body | _ \<Rightarrow> None)"

definition found_alphabet :: "(jsnum \<Rightarrow> jsnum \<Rightarrow> jsnum) \<Rightarrow> stmt list \<Rightarrow> alphabet option" where
  "found_alphabet pow body =
     map_option (foldl (add_letter pow) []) (first_some alphabet_table body)"

definition std_alphabet :: js_string where
  "std_alphabet = units ''ABCDEFGHIJKLMNOPQRSTUVWXYZabcdefghijklmnopqrstuvwxyz0123456789+/''"

definition standard_map :: alphabet where
  "standard_map =
     foldl (\<lambda>m i. map_set m [std_alphabet ! i] (Num (of_nat i))) [] [0..<length std_alphabet]"

definition usable_alphabet :: "alphabet option \<Rightarrow> alphabet" where
  "usable_alphabet a =
     (case a of
        None \<Rightarrow> standard_map
      | Some m \<Rightarrow> if length m < 60 then standard_map else m)"

section \<open>Decoding\<close>

text \<open>The remainder operator, truncation to an integer, and the conversion of a number to a byte.\<close>

definition trunc_int :: "rat \<Rightarrow> int" where
  "trunc_int x = (if x < 0 then \<lceil>x\<rceil> else \<lfloor>x\<rfloor>)"

definition num_rem :: "jsnum \<Rightarrow> jsnum \<Rightarrow> jsnum" where
  "num_rem a b =
     (if a = NaN \<or> b = NaN \<or> \<not> isFinite a \<or> is_zero b then NaN
      else if \<not> isFinite b \<or> is_zero a then a
      else let x = value_of a - value_of b * of_int (trunc_int (value_of a / value_of b))
           in if x = 0 then signed_zero (is_neg a) else Num x)"

definition to_byte :: "jsnum \<Rightarrow> 8 word" where
  "to_byte a = (case a of Num x \<Rightarrow> word_of_int (trunc_int x) | _ \<Rightarrow> 0)"

definition first_byte :: "jsnum \<Rightarrow> 8 word" where
  "first_byte f = to_byte (num_floor (num_div f (Num 65536)))"

definition second_byte :: "jsnum \<Rightarrow> 8 word" where
  "second_byte f = to_byte (num_floor (num_div (num_rem f (Num 65536)) (Num 256)))"

definition third_byte :: "jsnum \<Rightarrow> 8 word" where
  "third_byte f = to_byte (num_rem f (Num 256))"

definition add_digit :: "jsnum \<Rightarrow> jsnum \<Rightarrow> nat \<Rightarrow> jsnum" where
  "add_digit f val U = num_add f (num_mul val (Num (64 ^ (3 - U))))"

fun decode_loop :: "alphabet \<Rightarrow> js_string \<Rightarrow> jsnum \<Rightarrow> nat \<Rightarrow> byte_string" where
  "decode_loop a [] f U = []"
| "decode_loop a (ch # rest) f U =
     (case map_get a [ch] of
        Some val \<Rightarrow>
          let f' = add_digit f val U
          in if U + 1 = 4
             then first_byte f' # second_byte f' # third_byte f' # decode_loop a rest (Num 0) 0
             else decode_loop a rest f' (U + 1)
      | None \<Rightarrow>
          if ch = 61
          then first_byte f # (if rest = [] \<or> hd rest \<noteq> 61 then [second_byte f] else [])
          else decode_loop a rest f U)"

definition decodeBase64Custom :: "js_string \<Rightarrow> alphabet \<Rightarrow> byte_string" where
  "decodeBase64Custom str a = decode_loop a str (Num 0) 0"

section \<open>Extraction\<close>

definition mark_found :: "nat \<Rightarrow> wad \<Rightarrow> wad" where
  "mark_found n ad = ad\<lparr>wad_stats := (wad_stats ad)\<lparr>stringsFound := n\<rparr>\<rparr>"

definition add_ranges :: "(jsnum \<times> jsnum) list \<Rightarrow> wad \<Rightarrow> wad" where
  "add_ranges rs ad =
     (let all = rotationRanges ad @ rs
      in ad\<lparr>rotationRanges := all,
            wad_stats := (wad_stats ad)\<lparr>rotationRangesApplied :=
              rotationRangesApplied (wad_stats ad) + length all\<rparr>\<rparr>)"

definition note_accessor :: "(js_string option \<times> jsnum) option \<Rightarrow> wad \<Rightarrow> wad" where
  "note_accessor acc ad =
     (case acc of
        None \<Rightarrow> ad
      | Some (name, off) \<Rightarrow> ad\<lparr>accessorName := name, accessorOffset := Some off\<rparr>)"

definition note_alphabet :: "alphabet option \<Rightarrow> wad \<Rightarrow> wad" where
  "note_alphabet found ad =
     ad\<lparr>alphabet := Some (usable_alphabet (case found of Some m \<Rightarrow> Some m | None \<Rightarrow> alphabet ad))\<rparr>"

definition decode_table :: "alphabet \<Rightarrow> byte_string option list \<Rightarrow> (string, byte_string list) outcome" where
  "decode_table a entries =
     (if None \<in> set entries then throw ''TypeError''
      else return (map (\<lambda>e. decodeBase64Custom (latin1_text (the e)) a) entries))"

text \<open>The result is \<open>false\<close> when there is no table.\<close>

definition extractAndDecode ::
  "(jsnum \<Rightarrow> jsnum \<Rightarrow> jsnum) \<Rightarrow> chunk \<Rightarrow> wad \<Rightarrow> wad \<times> (string, bool) outcome" where
  "extractAndDecode pow c ad0 =
     (let body = setup_body c
      in case first_some (table_of 20) body of
           None \<Rightarrow> (ad0, return False)
         | Some flds \<Rightarrow>
             let ad1 = add_ranges (found_ranges pow body) (mark_found (length flds) ad0);
                 entries = foldl reverse_range (map (Some \<circ> raw_entry) flds) (rotationRanges ad1);
                 ad2 = note_alphabet (found_alphabet pow body)
                         (note_accessor (first_some (accessor_of pow) body) ad1)
             in case decode_table (the (alphabet ad2)) entries of
                  Inl e \<Rightarrow> (ad2, throw e)
                | Inr table \<Rightarrow>
                    (ad2\<lparr>stringTable := table,
                         wad_stats := (wad_stats ad2)\<lparr>stringsRecovered := length table\<rparr>\<rparr>,
                     return True))"

section \<open>Lookup\<close>

text \<open>An index that is not an integer finds \<open>undefined\<close>.\<close>

datatype lookup = No_entry | Undefined_entry | Entry byte_string

definition table_index :: "jsnum \<Rightarrow> 'a list \<Rightarrow> rat option" where
  "table_index idx0 table =
     (case idx0 of
        Num x \<Rightarrow> if 0 \<le> x \<and> x < of_nat (length table) then Some x else None
      | NegZero \<Rightarrow> if table \<noteq> [] then Some 0 else None
      | _ \<Rightarrow> None)"

definition resolveLookup :: "wad \<Rightarrow> jsnum \<Rightarrow> lookup" where
  "resolveLookup ad argOffset =
     (let index = num_add argOffset (case accessorOffset ad of None \<Rightarrow> Num 0 | Some off \<Rightarrow> off)
      in case table_index (num_sub index (Num 1)) (stringTable ad) of
           None \<Rightarrow> No_entry
         | Some x \<Rightarrow>
             (case elem_at (map Some (stringTable ad)) x of
                None \<Rightarrow> Undefined_entry
              | Some b \<Rightarrow> Entry b))"

end
