(* ===== verification/Rewrite.thy ===== *)
theory Rewrite
  imports AST
begin

text \<open>
  Rewriting a tree from the leaves to the root by a function on expressions and one that replaces
  a statement by several. A pass whose callback decides by the node alone computes this function
  (locale \<open>tree_rewrite\<close>); and it preserves every meaning of programs that is compositional and
  that its replacements preserve (locale \<open>compositional\<close>).
\<close>

type_synonym exprs = "expr \<Rightarrow> expr"
type_synonym splices = "stmt \<Rightarrow> stmt list"

primrec rewrite_expr :: "exprs \<Rightarrow> splices \<Rightarrow> expr \<Rightarrow> expr"
and rewrite_field :: "exprs \<Rightarrow> splices \<Rightarrow> table_field \<Rightarrow> table_field"
and rewrite_stmt :: "exprs \<Rightarrow> splices \<Rightarrow> stmt \<Rightarrow> stmt list"
and rewrite_clause :: "exprs \<Rightarrow> splices \<Rightarrow> clause \<Rightarrow> clause" where
  "rewrite_expr g h (Identifier n) = g (Identifier n)"
| "rewrite_expr g h (NumericLiteral v raw) = g (NumericLiteral v raw)"
| "rewrite_expr g h (StringLiteral s raw) = g (StringLiteral s raw)"
| "rewrite_expr g h (BooleanLiteral b) = g (BooleanLiteral b)"
| "rewrite_expr g h NilLiteral = g NilLiteral"
| "rewrite_expr g h (VarargLiteral b) = g (VarargLiteral b)"
| "rewrite_expr g h (UnaryExpression op a) = g (UnaryExpression op (rewrite_expr g h a))"
| "rewrite_expr g h (BinaryExpression op l r) =
     g (BinaryExpression op (rewrite_expr g h l) (rewrite_expr g h r))"
| "rewrite_expr g h (LogicalExpression op l r) =
     g (LogicalExpression op (rewrite_expr g h l) (rewrite_expr g h r))"
| "rewrite_expr g h (CallExpression b args) =
     g (CallExpression (rewrite_expr g h b) (map (rewrite_expr g h) args))"
| "rewrite_expr g h (MethodCallExpression b m args) =
     g (MethodCallExpression (rewrite_expr g h b) (rewrite_expr g h m) (map (rewrite_expr g h) args))"
| "rewrite_expr g h (MemberExpression b q) =
     g (MemberExpression (rewrite_expr g h b) (rewrite_expr g h q))"
| "rewrite_expr g h (IndexExpression b i) =
     g (IndexExpression (rewrite_expr g h b) (rewrite_expr g h i))"
| "rewrite_expr g h (FunctionExpression ps va body) =
     g (FunctionExpression (map (rewrite_expr g h) ps) va (concat (map (rewrite_stmt g h) body)))"
| "rewrite_expr g h (TableConstructor fs) = g (TableConstructor (map (rewrite_field g h) fs))"
| "rewrite_field g h (TableKey k v) = TableKey (rewrite_expr g h k) (rewrite_expr g h v)"
| "rewrite_field g h (TableKeyString k v) = TableKeyString (rewrite_expr g h k) (rewrite_expr g h v)"
| "rewrite_field g h (TableValue v) = TableValue (rewrite_expr g h v)"
| "rewrite_stmt g h (LocalStatement vs es) =
     h (LocalStatement (map (rewrite_expr g h) vs) (map (rewrite_expr g h) es))"
| "rewrite_stmt g h (AssignmentStatement vs es) =
     h (AssignmentStatement (map (rewrite_expr g h) vs) (map (rewrite_expr g h) es))"
| "rewrite_stmt g h (LocalFunctionStatement i ps va b) =
     h (LocalFunctionStatement (rewrite_expr g h i) (map (rewrite_expr g h) ps) va
          (concat (map (rewrite_stmt g h) b)))"
| "rewrite_stmt g h (FunctionDeclaration n ps va b im) =
     h (FunctionDeclaration (rewrite_expr g h n) (map (rewrite_expr g h) ps) va
          (concat (map (rewrite_stmt g h) b)) im)"
| "rewrite_stmt g h (CallStatement e) = h (CallStatement (rewrite_expr g h e))"
| "rewrite_stmt g h (IfStatement cs el) =
     h (IfStatement (map (rewrite_clause g h) cs)
          (map_option concat (map_option (map (rewrite_stmt g h)) el)))"
| "rewrite_stmt g h (WhileStatement c b) =
     h (WhileStatement (rewrite_expr g h c) (concat (map (rewrite_stmt g h) b)))"
| "rewrite_stmt g h (RepeatStatement c b) =
     h (RepeatStatement (rewrite_expr g h c) (concat (map (rewrite_stmt g h) b)))"
| "rewrite_stmt g h (NumericForStatement v e1 e2 st b) =
     h (NumericForStatement (rewrite_expr g h v) (rewrite_expr g h e1) (rewrite_expr g h e2)
          (map_option (rewrite_expr g h) st) (concat (map (rewrite_stmt g h) b)))"
| "rewrite_stmt g h (GenericForStatement vs es b) =
     h (GenericForStatement (map (rewrite_expr g h) vs) (map (rewrite_expr g h) es)
          (concat (map (rewrite_stmt g h) b)))"
| "rewrite_stmt g h (DoStatement b) = h (DoStatement (concat (map (rewrite_stmt g h) b)))"
| "rewrite_stmt g h (ReturnStatement es) = h (ReturnStatement (map (rewrite_expr g h) es))"
| "rewrite_stmt g h BreakStatement = h BreakStatement"
| "rewrite_stmt g h ContinueStatement = h ContinueStatement"
| "rewrite_stmt g h EmptyStatement = h EmptyStatement"
| "rewrite_clause g h (Clause c b) =
     Clause (rewrite_expr g h c) (concat (map (rewrite_stmt g h) b))"

abbreviation rewrite_block :: "exprs \<Rightarrow> splices \<Rightarrow> stmt list \<Rightarrow> stmt list" where
  "rewrite_block g h b \<equiv> concat (map (rewrite_stmt g h) b)"

lemma else_block:
  "map_option concat (map_option (map (rewrite_stmt g h)) el) = map_option (rewrite_block g h) el"
  by (cases el) simp_all

declare rewrite_stmt.simps(6) [simp del]

lemma rewrite_if [simp]:
  "rewrite_stmt g h (IfStatement cs el) =
     h (IfStatement (map (rewrite_clause g h) cs) (map_option (rewrite_block g h) el))"
  by (simp only: rewrite_stmt.simps(6) else_block)

text \<open>A pass on expressions keeps every statement.\<close>

abbreviation keep :: splices where
  "keep st \<equiv> [st]"

section \<open>Passes that compute it\<close>

locale tree_rewrite =
  fixes F :: "'s transformer" and g :: exprs and h :: splices and I :: "'s \<Rightarrow> bool"
  assumes expr_result: "I s \<Longrightarrow> fst (finish_expr F (e, s)) = g e \<and> I (snd (finish_expr F (e, s)))"
    and stmt_result: "I s \<Longrightarrow> fst (finish_stmt F (st, s)) = h st \<and> I (snd (finish_stmt F (st, s)))"
begin

lemma finish_pair:
  "I (snd q) \<Longrightarrow> fst (finish_expr F q) = g (fst q)" "I (snd q) \<Longrightarrow> I (snd (finish_expr F q))"
  "I (snd r) \<Longrightarrow> fst (finish_stmt F r) = h (fst r)" "I (snd r) \<Longrightarrow> I (snd (finish_stmt F r))"
  using expr_result[of "snd q" "fst q"] stmt_result[of "snd r" "fst r"] by simp_all

lemma lists_are_rewrites:
  "(\<And>e s. e \<in> set es \<Longrightarrow> I s \<Longrightarrow>
      fst (transform_expr F e s) = rewrite_expr g h e \<and> I (snd (transform_expr F e s))) \<Longrightarrow>
    I s \<Longrightarrow> fst (transform_exprs F es s) = map (rewrite_expr g h) es \<and> I (snd (transform_exprs F es s))"
  "(\<And>f s. f \<in> set fs \<Longrightarrow> I s \<Longrightarrow>
      fst (transform_field F f s) = rewrite_field g h f \<and> I (snd (transform_field F f s))) \<Longrightarrow>
    I s \<Longrightarrow> fst (transform_fields F fs s) = map (rewrite_field g h) fs \<and> I (snd (transform_fields F fs s))"
  "(\<And>st s. st \<in> set b \<Longrightarrow> I s \<Longrightarrow>
      fst (transform_stmt F st s) = rewrite_stmt g h st \<and> I (snd (transform_stmt F st s))) \<Longrightarrow>
    I s \<Longrightarrow> fst (transform_block F b s) = rewrite_block g h b \<and> I (snd (transform_block F b s))"
  "(\<And>c s. c \<in> set cs \<Longrightarrow> I s \<Longrightarrow>
      fst (transform_clause F c s) = rewrite_clause g h c \<and> I (snd (transform_clause F c s))) \<Longrightarrow>
    I s \<Longrightarrow> fst (transform_clauses F cs s) = map (rewrite_clause g h) cs \<and> I (snd (transform_clauses F cs s))"
  subgoal by (induction es arbitrary: s) (simp_all add: split_beta)
  subgoal by (induction fs arbitrary: s) (simp_all add: split_beta)
  subgoal by (induction b arbitrary: s) (simp_all add: split_beta)
  subgoal by (induction cs arbitrary: s) (simp_all add: split_beta)
  done

lemma transform_results:
  "I s \<Longrightarrow> fst (transform_expr F e s) = rewrite_expr g h e \<and> I (snd (transform_expr F e s))"
  "I s \<Longrightarrow> fst (transform_field F fl s) = rewrite_field g h fl \<and> I (snd (transform_field F fl s))"
  "I s \<Longrightarrow> fst (transform_stmt F st s) = rewrite_stmt g h st \<and> I (snd (transform_stmt F st s))"
  "I s \<Longrightarrow> fst (transform_clause F c s) = rewrite_clause g h c \<and> I (snd (transform_clause F c s))"
proof (induction e and fl and st and c arbitrary: s and s and s and s)
  case (IfStatement cs o_body)
  then show ?case by (cases o_body) (simp_all add: finish_pair lists_are_rewrites split_beta)
next
  case (NumericForStatement v e1 e2 o_step b)
  then show ?case by (cases o_step) (simp_all add: finish_pair lists_are_rewrites split_beta)
qed (simp_all add: finish_pair lists_are_rewrites split_beta)

lemma transform_is_rewrite:
  "I s \<Longrightarrow> fst (transform_expr F e s) = rewrite_expr g h e"
  "I s \<Longrightarrow> fst (transform_exprs F es s) = map (rewrite_expr g h) es"
  "I s \<Longrightarrow> fst (transform_fields F fs s) = map (rewrite_field g h) fs"
  "I s \<Longrightarrow> fst (transform_block F b s) = rewrite_block g h b"
  by (simp_all add: transform_results lists_are_rewrites)

end

section \<open>Predicates on the if statements of a tree\<close>

text \<open>\<open>P\<close> holds of the clauses and the \<open>else\<close> block of every if statement.\<close>

type_synonym if_pred = "clause list \<Rightarrow> stmt list option \<Rightarrow> bool"

primrec ifs_expr :: "if_pred \<Rightarrow> expr \<Rightarrow> bool"
and ifs_field :: "if_pred \<Rightarrow> table_field \<Rightarrow> bool"
and ifs_stmt :: "if_pred \<Rightarrow> stmt \<Rightarrow> bool"
and ifs_clause :: "if_pred \<Rightarrow> clause \<Rightarrow> bool" where
  "ifs_expr P (Identifier n) = True"
| "ifs_expr P (NumericLiteral v raw) = True"
| "ifs_expr P (StringLiteral s raw) = True"
| "ifs_expr P (BooleanLiteral b) = True"
| "ifs_expr P NilLiteral = True"
| "ifs_expr P (VarargLiteral b) = True"
| "ifs_expr P (UnaryExpression op a) = ifs_expr P a"
| "ifs_expr P (BinaryExpression op l r) = (ifs_expr P l \<and> ifs_expr P r)"
| "ifs_expr P (LogicalExpression op l r) = (ifs_expr P l \<and> ifs_expr P r)"
| "ifs_expr P (CallExpression b args) = (ifs_expr P b \<and> list_all (ifs_expr P) args)"
| "ifs_expr P (MethodCallExpression b m args) =
     (ifs_expr P b \<and> ifs_expr P m \<and> list_all (ifs_expr P) args)"
| "ifs_expr P (MemberExpression b q) = (ifs_expr P b \<and> ifs_expr P q)"
| "ifs_expr P (IndexExpression b i) = (ifs_expr P b \<and> ifs_expr P i)"
| "ifs_expr P (FunctionExpression ps va body) = (list_all (ifs_expr P) ps \<and> list_all (ifs_stmt P) body)"
| "ifs_expr P (TableConstructor fs) = list_all (ifs_field P) fs"
| "ifs_field P (TableKey k v) = (ifs_expr P k \<and> ifs_expr P v)"
| "ifs_field P (TableKeyString k v) = (ifs_expr P k \<and> ifs_expr P v)"
| "ifs_field P (TableValue v) = ifs_expr P v"
| "ifs_stmt P (LocalStatement vs es) = (list_all (ifs_expr P) vs \<and> list_all (ifs_expr P) es)"
| "ifs_stmt P (AssignmentStatement vs es) = (list_all (ifs_expr P) vs \<and> list_all (ifs_expr P) es)"
| "ifs_stmt P (LocalFunctionStatement i ps va b) =
     (ifs_expr P i \<and> list_all (ifs_expr P) ps \<and> list_all (ifs_stmt P) b)"
| "ifs_stmt P (FunctionDeclaration n ps va b im) =
     (ifs_expr P n \<and> list_all (ifs_expr P) ps \<and> list_all (ifs_stmt P) b)"
| "ifs_stmt P (CallStatement e) = ifs_expr P e"
| "ifs_stmt P (IfStatement cs el) =
     (P cs el \<and> list_all (ifs_clause P) cs \<and> pred_option (list_all (ifs_stmt P)) el)"
| "ifs_stmt P (WhileStatement c b) = (ifs_expr P c \<and> list_all (ifs_stmt P) b)"
| "ifs_stmt P (RepeatStatement c b) = (ifs_expr P c \<and> list_all (ifs_stmt P) b)"
| "ifs_stmt P (NumericForStatement v e1 e2 st b) =
     (ifs_expr P v \<and> ifs_expr P e1 \<and> ifs_expr P e2 \<and> pred_option (ifs_expr P) st \<and> list_all (ifs_stmt P) b)"
| "ifs_stmt P (GenericForStatement vs es b) =
     (list_all (ifs_expr P) vs \<and> list_all (ifs_expr P) es \<and> list_all (ifs_stmt P) b)"
| "ifs_stmt P (DoStatement b) = list_all (ifs_stmt P) b"
| "ifs_stmt P (ReturnStatement es) = list_all (ifs_expr P) es"
| "ifs_stmt P BreakStatement = True"
| "ifs_stmt P ContinueStatement = True"
| "ifs_stmt P EmptyStatement = True"
| "ifs_clause P (Clause c b) = (ifs_expr P c \<and> list_all (ifs_stmt P) b)"

section \<open>Compositional meanings\<close>

text \<open>
  A meaning of expressions, table fields, blocks and clauses, where the meaning of a node is
  determined by its constructor, its own data and the meanings of its children, and the meaning of
  a block by those of its parts. What a meaning is stays open: a value, a state transformer, the
  sequence of calls.
\<close>

locale compositional =
  fixes E :: "expr \<Rightarrow> 'e" and Fl :: "table_field \<Rightarrow> 'f" and B :: "stmt list \<Rightarrow> 'b" and C :: "clause \<Rightarrow> 'c"
  assumes block_append: "B b1 = B b1' \<Longrightarrow> B b2 = B b2' \<Longrightarrow> B (b1 @ b2) = B (b1' @ b2')"
    and UnaryExpression_cong: "E e0 = E e0' \<Longrightarrow>
      E (UnaryExpression op e0) = E (UnaryExpression op e0')"
    and BinaryExpression_cong: "E e0 = E e0' \<Longrightarrow> E e1 = E e1' \<Longrightarrow>
      E (BinaryExpression op e0 e1) = E (BinaryExpression op e0' e1')"
    and LogicalExpression_cong: "E e0 = E e0' \<Longrightarrow> E e1 = E e1' \<Longrightarrow>
      E (LogicalExpression op e0 e1) = E (LogicalExpression op e0' e1')"
    and CallExpression_cong: "E e0 = E e0' \<Longrightarrow> map E es1 = map E es1' \<Longrightarrow>
      E (CallExpression e0 es1) = E (CallExpression e0' es1')"
    and MethodCallExpression_cong: "E e0 = E e0' \<Longrightarrow> E e1 = E e1' \<Longrightarrow> map E es2 = map E es2' \<Longrightarrow>
      E (MethodCallExpression e0 e1 es2) = E (MethodCallExpression e0' e1' es2')"
    and MemberExpression_cong: "E e0 = E e0' \<Longrightarrow> E e1 = E e1' \<Longrightarrow>
      E (MemberExpression e0 e1) = E (MemberExpression e0' e1')"
    and IndexExpression_cong: "E e0 = E e0' \<Longrightarrow> E e1 = E e1' \<Longrightarrow>
      E (IndexExpression e0 e1) = E (IndexExpression e0' e1')"
    and FunctionExpression_cong: "map E es0 = map E es0' \<Longrightarrow> B b = B b' \<Longrightarrow>
      E (FunctionExpression es0 va b) = E (FunctionExpression es0' va b')"
    and TableConstructor_cong: "map Fl fs = map Fl fs' \<Longrightarrow>
      E (TableConstructor fs) = E (TableConstructor fs')"
    and TableKey_cong: "E e0 = E e0' \<Longrightarrow> E e1 = E e1' \<Longrightarrow>
      Fl (TableKey e0 e1) = Fl (TableKey e0' e1')"
    and TableKeyString_cong: "E e0 = E e0' \<Longrightarrow> E e1 = E e1' \<Longrightarrow>
      Fl (TableKeyString e0 e1) = Fl (TableKeyString e0' e1')"
    and TableValue_cong: "E e0 = E e0' \<Longrightarrow>
      Fl (TableValue e0) = Fl (TableValue e0')"
    and LocalStatement_cong: "map E es0 = map E es0' \<Longrightarrow> map E es1 = map E es1' \<Longrightarrow>
      B [LocalStatement es0 es1] = B [LocalStatement es0' es1']"
    and AssignmentStatement_cong: "map E es0 = map E es0' \<Longrightarrow> map E es1 = map E es1' \<Longrightarrow>
      B [AssignmentStatement es0 es1] = B [AssignmentStatement es0' es1']"
    and LocalFunctionStatement_cong: "E e0 = E e0' \<Longrightarrow> map E es1 = map E es1' \<Longrightarrow> B b = B b' \<Longrightarrow>
      B [LocalFunctionStatement e0 es1 va b] = B [LocalFunctionStatement e0' es1' va b']"
    and FunctionDeclaration_cong: "E e0 = E e0' \<Longrightarrow> map E es1 = map E es1' \<Longrightarrow> B b = B b' \<Longrightarrow>
      B [FunctionDeclaration e0 es1 va b im] = B [FunctionDeclaration e0' es1' va b' im]"
    and CallStatement_cong: "E e0 = E e0' \<Longrightarrow>
      B [CallStatement e0] = B [CallStatement e0']"
    and IfStatement_cong: "map C cs = map C cs' \<Longrightarrow> map_option B el = map_option B el' \<Longrightarrow>
      B [IfStatement cs el] = B [IfStatement cs' el']"
    and WhileStatement_cong: "E e0 = E e0' \<Longrightarrow> B b = B b' \<Longrightarrow>
      B [WhileStatement e0 b] = B [WhileStatement e0' b']"
    and RepeatStatement_cong: "E e0 = E e0' \<Longrightarrow> B b = B b' \<Longrightarrow>
      B [RepeatStatement e0 b] = B [RepeatStatement e0' b']"
    and NumericForStatement_cong: "E e0 = E e0' \<Longrightarrow> E e1 = E e1' \<Longrightarrow> E e2 = E e2' \<Longrightarrow> map_option E st = map_option E st' \<Longrightarrow> B b = B b' \<Longrightarrow>
      B [NumericForStatement e0 e1 e2 st b] = B [NumericForStatement e0' e1' e2' st' b']"
    and GenericForStatement_cong: "map E es0 = map E es0' \<Longrightarrow> map E es1 = map E es1' \<Longrightarrow> B b = B b' \<Longrightarrow>
      B [GenericForStatement es0 es1 b] = B [GenericForStatement es0' es1' b']"
    and DoStatement_cong: "B b = B b' \<Longrightarrow>
      B [DoStatement b] = B [DoStatement b']"
    and ReturnStatement_cong: "map E es0 = map E es0' \<Longrightarrow>
      B [ReturnStatement es0] = B [ReturnStatement es0']"
    and Clause_cong: "E e0 = E e0' \<Longrightarrow> B b = B b' \<Longrightarrow>
      C (Clause e0 b) = C (Clause e0' b')"
begin

lemmas node_congs = UnaryExpression_cong BinaryExpression_cong LogicalExpression_cong
  CallExpression_cong MethodCallExpression_cong MemberExpression_cong IndexExpression_cong
  FunctionExpression_cong TableConstructor_cong TableKey_cong TableKeyString_cong TableValue_cong
  LocalStatement_cong AssignmentStatement_cong LocalFunctionStatement_cong
  FunctionDeclaration_cong CallStatement_cong IfStatement_cong WhileStatement_cong
  RepeatStatement_cong NumericForStatement_cong GenericForStatement_cong DoStatement_cong
  ReturnStatement_cong Clause_cong

lemma rewrite_block_keeps:
  assumes "\<And>st. st \<in> set b \<Longrightarrow> B (rewrite_stmt g h st) = B [st]"
  shows "B (rewrite_block g h b) = B b"
  using assms
proof (induction b)
  case (Cons st b)
  have "B (rewrite_stmt g h st @ rewrite_block g h b) = B ([st] @ b)"
    by (rule block_append) (use Cons in simp_all)
  then show ?case by simp
qed simp

text \<open>If every replacement keeps the meaning of the node, so does the whole rewrite. Replacements of
  an if statement may rely on a property of the original one.\<close>

lemma rewrite_keeps_meaning:
  assumes g: "\<And>e. E (g e) = E e"
    and h: "\<And>st. (\<forall>cs el. st \<noteq> IfStatement cs el) \<Longrightarrow> B (h st) = B [st]"
    and if_h: "\<And>cs el. ifs_stmt P (IfStatement cs el) \<Longrightarrow>
      B (h (IfStatement (map (rewrite_clause g h) cs) (map_option (rewrite_block g h) el))) =
      B [IfStatement (map (rewrite_clause g h) cs) (map_option (rewrite_block g h) el)]"
  shows "ifs_expr P e \<Longrightarrow> E (rewrite_expr g h e) = E e"
    and "ifs_field P fl \<Longrightarrow> Fl (rewrite_field g h fl) = Fl fl"
    and "ifs_stmt P st \<Longrightarrow> B (rewrite_stmt g h st) = B [st]"
    and "ifs_clause P c \<Longrightarrow> C (rewrite_clause g h c) = C c"
proof (induction e and fl and st and c)
  case (IfStatement cs el)
  have "B (rewrite_stmt g h (IfStatement cs el)) =
      B [IfStatement (map (rewrite_clause g h) cs) (map_option (rewrite_block g h) el)]"
    using if_h[of cs el] IfStatement.prems by simp
  also have "\<dots> = B [IfStatement cs el]"
    by (rule IfStatement_cong)
      (use IfStatement in \<open>cases el; auto simp: list_all_iff intro: rewrite_block_keeps\<close>)+
  finally show ?case .
next
  case (NumericForStatement v e1 e2 st b)
  show ?case unfolding rewrite_stmt.simps h[simplified]
    by (simp add: h, rule NumericForStatement_cong)
      (use NumericForStatement in \<open>cases st; auto simp: list_all_iff intro: rewrite_block_keeps\<close>)+
qed (simp_all add: g h list_all_iff rewrite_block_keeps,
  (rule node_congs; simp add: rewrite_block_keeps)+)

lemma rewrite_keeps_block:
  assumes "\<And>e. E (g e) = E e" and "\<And>st. (\<forall>cs el. st \<noteq> IfStatement cs el) \<Longrightarrow> B (h st) = B [st]"
    and "\<And>cs el. ifs_stmt P (IfStatement cs el) \<Longrightarrow>
      B (h (IfStatement (map (rewrite_clause g h) cs) (map_option (rewrite_block g h) el))) =
      B [IfStatement (map (rewrite_clause g h) cs) (map_option (rewrite_block g h) el)]"
    and "list_all (ifs_stmt P) b"
  shows "B (rewrite_block g h b) = B b"
proof (rule rewrite_block_keeps)
  fix st assume "st \<in> set b"
  with assms(4) have "ifs_stmt P st" by (simp add: list_all_iff)
  then show "B (rewrite_stmt g h st) = B [st]"
    by (rule rewrite_keeps_meaning(3)[of g h P, rotated 3]) (use assms(1-3) in blast)+
qed

lemma no_ifs:
  "ifs_expr (\<lambda>cs el. True) e" "ifs_field (\<lambda>cs el. True) fl" "ifs_stmt (\<lambda>cs el. True) st"
  "ifs_clause (\<lambda>cs el. True) c"
  by (induction e and fl and st and c) (auto simp: list_all_iff pred_option_def split: option.split)

text \<open>Replacements of expressions only.\<close>

lemma rewrite_exprs_keep:
  assumes "\<And>e. E (g e) = E e"
  shows "E (rewrite_expr g keep e) = E e" and "Fl (rewrite_field g keep fl) = Fl fl"
    and "B (rewrite_stmt g keep st) = B [st]" and "B (rewrite_block g keep b) = B b"
  using rewrite_keeps_meaning[of g keep "\<lambda>cs el. True"] no_ifs assms
  by (auto intro!: rewrite_block_keeps)

end

end
