(* ===== verification/String_Recovery.thy ===== *)
theory String_Recovery
  imports WeAreDevs Rewrite
begin

text \<open>
  Inlining of the recovered strings (\<open>packages/core/src/transforms/string-recovery.js\<close>): calls of
  the accessor and accesses to the table with a constant argument become string literals.
\<close>

record string_state =
  stringsInlined :: nat
  failed :: bool

definition accessor_name :: "wad \<Rightarrow> js_string" where
  "accessor_name ad =
     (case accessorName ad of None \<Rightarrow> units ''W'' | Some n \<Rightarrow> if n = [] then units ''W'' else n)"

text \<open>
  \<open>evaluator.fold\<close> rewrites the node it is given from the leaves up and returns the new node; the
  node itself stays where it was, with its children folded.
\<close>

definition folded_list :: "(jsnum \<Rightarrow> jsnum \<Rightarrow> jsnum) \<Rightarrow> expr list \<Rightarrow> expr list" where
  "folded_list pow es = fst (transform_exprs (fold_transformer pow) es resetStats)"

definition fold_inside :: "(jsnum \<Rightarrow> jsnum \<Rightarrow> jsnum) \<Rightarrow> expr \<Rightarrow> expr" where
  "fold_inside pow e =
     (case e of
        UnaryExpression op a \<Rightarrow> UnaryExpression op (folded pow a)
      | BinaryExpression op l r \<Rightarrow> BinaryExpression op (folded pow l) (folded pow r)
      | LogicalExpression op l r \<Rightarrow> LogicalExpression op (folded pow l) (folded pow r)
      | CallExpression b args \<Rightarrow> CallExpression (folded pow b) (folded_list pow args)
      | MethodCallExpression b m args \<Rightarrow>
          MethodCallExpression (folded pow b) (folded pow m) (folded_list pow args)
      | MemberExpression b p \<Rightarrow> MemberExpression (folded pow b) (folded pow p)
      | IndexExpression b i \<Rightarrow> IndexExpression (folded pow b) (folded pow i)
      | FunctionExpression ps va body \<Rightarrow>
          FunctionExpression (folded_list pow ps) va (fst (fold_chunk pow body resetStats))
      | TableConstructor fs \<Rightarrow>
          TableConstructor (fst (transform_fields (fold_transformer pow) fs resetStats))
      | _ \<Rightarrow> e)"

text \<open>The string an access with this index yields: the call of the accessor, and the table.\<close>

definition call_result :: "(jsnum \<Rightarrow> jsnum \<Rightarrow> jsnum) \<Rightarrow> wad \<Rightarrow> expr \<Rightarrow> lookup" where
  "call_result pow ad arg =
     (case folded pow arg of NumericLiteral v raw \<Rightarrow> resolveLookup ad v | _ \<Rightarrow> No_entry)"

definition index_result :: "(jsnum \<Rightarrow> jsnum \<Rightarrow> jsnum) \<Rightarrow> wad \<Rightarrow> expr \<Rightarrow> byte_string option" where
  "index_result pow ad idx =
     (case folded pow idx of
        NumericLiteral v raw \<Rightarrow>
          (case table_index (num_sub v (Num 1)) (stringTable ad) of
             None \<Rightarrow> None
           | Some x \<Rightarrow> elem_at (map Some (stringTable ad)) x)
      | _ \<Rightarrow> None)"

definition inlined :: "byte_string \<Rightarrow> string_state \<Rightarrow> expr option \<times> string_state" where
  "inlined b st = (Some (stringLiteral b []), st\<lparr>stringsInlined := stringsInlined st + 1\<rparr>)"

text \<open>\<open>stringLiteral(undefined)\<close> throws; what the rewriting does after that is not used.\<close>

definition string_expr ::
  "(jsnum \<Rightarrow> jsnum \<Rightarrow> jsnum) \<Rightarrow> wad \<Rightarrow> expr \<Rightarrow> string_state \<Rightarrow> expr option \<times> string_state" where
  "string_expr pow ad e st =
     (case e of
        CallExpression (Identifier f) [arg] \<Rightarrow>
          if f \<noteq> accessor_name ad then (None, st)
          else (case call_result pow ad arg of
                  Entry b \<Rightarrow> inlined b st
                | Undefined_entry \<Rightarrow>
                    (Some (CallExpression (Identifier f) [fold_inside pow arg]), st\<lparr>failed := True\<rparr>)
                | No_entry \<Rightarrow> (Some (CallExpression (Identifier f) [fold_inside pow arg]), st))
      | IndexExpression (Identifier a) idx \<Rightarrow>
          if a \<noteq> units ''A'' then (None, st)
          else (case index_result pow ad idx of
                  Some b \<Rightarrow> inlined b st
                | None \<Rightarrow> (Some (IndexExpression (Identifier a) (fold_inside pow idx)), st))
      | _ \<Rightarrow> (None, st))"

definition string_transformer ::
  "(jsnum \<Rightarrow> jsnum \<Rightarrow> jsnum) \<Rightarrow> wad \<Rightarrow> string_state transformer" where
  "string_transformer pow ad = \<lparr>on_expr = string_expr pow ad, on_stmt = (\<lambda>st s. (None, s))\<rparr>"

definition recover_strings ::
  "(jsnum \<Rightarrow> jsnum \<Rightarrow> jsnum) \<Rightarrow> wad option \<Rightarrow> chunk \<Rightarrow> (string, chunk \<times> nat) outcome" where
  "recover_strings pow found c =
     (case found of
        None \<Rightarrow> return (c, 0)
      | Some ad \<Rightarrow>
          if stringTable ad = [] then return (c, 0)
          else case transform_block (string_transformer pow ad) c \<lparr>stringsInlined = 0, failed = False\<rparr> of
            (c', st) \<Rightarrow> if failed st then throw ''TypeError'' else return (c', stringsInlined st))"

end
