(* ===== verification/WeAreDevs_Decode.thy ===== *)
theory WeAreDevs_Decode
  imports WeAreDevs JS_Number_Props
begin

text \<open>
  The decoder of the WeAreDevs adapter against the encoder it undoes: base 64 with an arbitrary
  alphabet. The arithmetic on doubles is exact for the numbers below \<open>2 ^ 24\<close> that occur.
\<close>

section \<open>Exact arithmetic\<close>

lemma round_pos_dyadic:
  assumes "0 < m" and "m < 2 ^ Suc (d + k)" and "k + d \<le> 52"
  shows "round_pos (of_int m / 2 ^ d) = Some (of_int m / 2 ^ d)"
proof -
  let ?x = "of_int m / 2 ^ d :: rat"
  define e where "e = max (exponent2 ?x - 52) (- 1074)"
  have "of_int m < (of_int (2 ^ Suc (d + k)) :: rat)" using assms(2) unfolding of_int_less_iff .
  then have lt: "?x < 2 ^ Suc k" by (simp add: field_simps power_add)
  then have "exponent2 ?x \<le> int k" using exponent2_bound[of ?x k] assms(1) by simp
  then have "e \<le> - int d" using assms(3) by (simp add: e_def)
  then obtain j where j: "nat (- e) = d + j" and "e = - int (d + j)"
    by (metis nat_int add.commute int_nat_eq le_iff_add minus_minus neg_le_iff_le nat_mono nat_int
        of_nat_0_le_iff order_trans)
  then have p: "pow2 e = 1 / 2 ^ (d + j)"
    by (cases "d + j = 0") (auto simp: pow2_def simp flip: of_nat_add)
  have q: "?x / pow2 e = of_int (m * 2 ^ j)" by (simp add: p power_add)
  have "of_int (round_half_even (?x / pow2 e)) * pow2 e = ?x"
    unfolding q round_half_even_int by (simp add: p power_add)
  moreover have "?x < 2 ^ 1024"
  proof -
    have "(2 :: rat) ^ Suc k \<le> 2 ^ 1024" by (rule power_increasing) (use assms(3) in simp_all)
    with lt show ?thesis by linarith
  qed
  ultimately show ?thesis unfolding round_pos_def Let_def e_def[symmetric] by simp
qed

lemma round_double_dyadic:
  assumes "m < 2 ^ Suc (d + k)" and "k + d \<le> 52"
  shows "round_double (of_nat m / 2 ^ d) = Num (of_nat m / 2 ^ d)"
proof (cases "m = 0")
  case False
  have "int m < 2 ^ Suc (d + k)" using assms(1) by (metis of_nat_less_iff of_nat_numeral of_nat_power)
  moreover have "\<not> of_nat m / 2 ^ d < (0 :: rat)" by (simp add: not_less)
  ultimately show ?thesis using round_pos_dyadic[of "int m" d k] False assms(2)
    by (simp add: round_double_def)
qed (simp add: round_double_def)

lemma round_double_nat: "m < 2 ^ 52 \<Longrightarrow> round_double (of_nat m) = Num (of_nat m)"
  using round_double_int[of "int m"] by simp

text \<open>Naturals as numbers: the operations of the decoder on them.\<close>

abbreviation num :: "nat \<Rightarrow> jsnum" where
  "num n \<equiv> Num (of_nat n)"

lemma num_add_nat: "m + n < 2 ^ 52 \<Longrightarrow> num_add (num m) (num n) = num (m + n)"
  using round_double_nat[of "m + n"] by (simp add: num_add_def value_of_def)

lemma num_mul_nat: "m * n < 2 ^ 52 \<Longrightarrow> num_mul (num m) (num n) = num (m * n)"
  using round_double_nat[of "m * n"]
  by (auto simp: num_mul_def value_of_def isFinite_def is_zero_def is_neg_def signed_zero_def)

lemma num_div_nat:
  assumes "m < 2 ^ 24" and "d \<le> 20"
  shows "num_div (num m) (Num (2 ^ d)) = Num (of_nat m / 2 ^ d)"
proof -
  have "m < 2 ^ Suc (d + (32 - d))" using assms by (simp add: less_le_trans)
  from round_double_dyadic[OF this] assms(2)
  have "round_double (of_nat m / 2 ^ d) = Num (of_nat m / 2 ^ d)" by simp
  then show ?thesis
    by (simp add: num_div_def value_of_def isFinite_def is_zero_def is_neg_def signed_zero_def)
qed

lemma floor_nat_div: "\<lfloor>(of_nat m :: rat) / of_nat n\<rfloor> = int (m div n)"
  using floor_divide_of_nat_eq[of m n] by simp

lemma num_floor_div:
  "m < 2 ^ 24 \<Longrightarrow> d \<le> 20 \<Longrightarrow> num_floor (num_div (num m) (Num (2 ^ d))) = num (m div 2 ^ d)"
  using floor_nat_div[of m "2 ^ d"] by (simp add: num_div_nat num_floor_def)

lemma num_rem_nat: "0 < n \<Longrightarrow> num_rem (num m) (num n) = num (m mod n)"
proof -
  assume n: "0 < n"
  have "\<not> of_nat m / of_nat n < (0 :: rat)" by (simp add: not_less)
  then have "trunc_int (of_nat m / of_nat n) = int (m div n)"
    by (simp add: trunc_int_def floor_nat_div)
  moreover have "of_nat m - of_nat n * of_nat (m div n) = (of_nat (m mod n) :: rat)"
    by (metis add_diff_cancel_left' mult_div_mod_eq of_nat_add of_nat_mult)
  ultimately show ?thesis using n
    by (auto simp: num_rem_def value_of_def isFinite_def is_zero_def is_neg_def signed_zero_def)
qed

lemma to_byte_nat: "to_byte (num n) = word_of_nat n"
  by (simp add: to_byte_def trunc_int_def)

lemma bytes_of_nat:
  assumes "f < 2 ^ 24"
  shows "first_byte (num f) = word_of_nat (f div 65536)"
    and "second_byte (num f) = word_of_nat (f mod 65536 div 256)"
    and "third_byte (num f) = word_of_nat (f mod 256)"
proof -
  have "num_floor (num_div (num f) (Num 65536)) = num (f div 65536)"
    using num_floor_div[of f 16] assms by simp
  then show "first_byte (num f) = word_of_nat (f div 65536)" by (simp add: first_byte_def to_byte_nat)
  have "num_rem (num f) (Num 65536) = num (f mod 65536)" using num_rem_nat[of 65536 f] by simp
  moreover have "num_floor (num_div (num (f mod 65536)) (Num 256)) = num (f mod 65536 div 256)"
    using num_floor_div[of "f mod 65536" 8] assms by simp
  ultimately show "second_byte (num f) = word_of_nat (f mod 65536 div 256)"
    by (simp add: second_byte_def to_byte_nat)
  have "num_rem (num f) (Num 256) = num (f mod 256)" using num_rem_nat[of 256 f] by simp
  then show "third_byte (num f) = word_of_nat (f mod 256)" by (simp add: third_byte_def to_byte_nat)
qed

lemma add_digit_nat:
  assumes "f < 2 ^ 24" and "d < 64"
  shows "add_digit (num f) (num d) U = num (f + d * 64 ^ (3 - U))"
proof -
  have "(64 :: nat) ^ (3 - U) \<le> 64 ^ 3" by (rule power_increasing) simp_all
  with assms(2) have "d * 64 ^ (3 - U) \<le> 63 * 64 ^ 3" by (intro mult_mono) simp_all
  then have b: "d * 64 ^ (3 - U) < 2 ^ 24" by simp
  then have "num_mul (num d) (Num (64 ^ (3 - U))) = num (d * 64 ^ (3 - U))"
    using num_mul_nat[of d "64 ^ (3 - U)"] by simp
  with num_add_nat[of f "d * 64 ^ (3 - U)"] assms(1) b show ?thesis by (simp add: add_digit_def)
qed

section \<open>The encoder\<close>

text \<open>Base 64 with the letters \<open>chr 0, \<dots>, chr 63\<close> and the padding character \<open>=\<close>.\<close>

definition group_value :: "8 word \<Rightarrow> 8 word \<Rightarrow> 8 word \<Rightarrow> nat" where
  "group_value a b c = unat a * 65536 + unat b * 256 + unat c"

definition digit :: "nat \<Rightarrow> nat \<Rightarrow> nat" where
  "digit n U = n div 64 ^ (3 - U) mod 64"

fun encode :: "(nat \<Rightarrow> nat) \<Rightarrow> byte_string \<Rightarrow> js_string" where
  "encode chr (a # b # c # rest) =
     (let n = group_value a b c in map (\<lambda>U. chr (digit n U)) [0, 1, 2, 3] @ encode chr rest)"
| "encode chr [a, b] = (let n = group_value a b 0 in map (\<lambda>U. chr (digit n U)) [0, 1, 2] @ [61])"
| "encode chr [a] = (let n = group_value a 0 0 in map (\<lambda>U. chr (digit n U)) [0, 1] @ [61, 61])"
| "encode chr [] = []"

text \<open>An alphabet that gives the letters their digits and has no letter \<open>=\<close>.\<close>

definition spells :: "alphabet \<Rightarrow> (nat \<Rightarrow> nat) \<Rightarrow> bool" where
  "spells a chr \<longleftrightarrow> (\<forall>d<64. map_get a [chr d] = Some (num d)) \<and> map_get a [61] = None"

lemma group_value_bound: "group_value a b c < 2 ^ 24"
proof -
  have "unat a < 256" "unat b < 256" "unat c < 256"
    by (rule unat_byte)+
  then show ?thesis by (simp add: group_value_def)
qed

lemma group_bytes:
  "word_of_nat (group_value a b c div 65536) = a"
  "word_of_nat (group_value a b c mod 65536 div 256) = b"
  "word_of_nat (group_value a b c mod 256) = c"
proof -
  define q where "q = unat b + 256 * unat a"
  have g: "group_value a b c = unat c + 256 * q" by (simp add: group_value_def q_def)
  have low: "(unat c + 256 * q) div 256 = q" "(unat c + 256 * q) mod 256 = unat c"
    using unat_byte[of c] by simp_all
  have high: "q div 256 = unat a" "q mod 256 = unat b" using unat_byte[of b] by (simp_all add: q_def)
  have "group_value a b c div 65536 = group_value a b c div 256 div 256"
    by (simp flip: div_mult2_eq)
  moreover have "group_value a b c mod 65536 = 256 * (group_value a b c div 256 mod 256) + group_value a b c mod 256"
    using mod_mult2_eq[of "group_value a b c" 256 256] by simp
  moreover have "(256 * unat b + unat c) div 256 = unat b" using unat_byte[of c] by simp
  ultimately show "word_of_nat (group_value a b c div 65536) = a"
    "word_of_nat (group_value a b c mod 65536 div 256) = b"
    "word_of_nat (group_value a b c mod 256) = c"
    by (simp_all only: g low high) simp_all
qed

lemma digit_lt: "digit n U < 64"
  by (simp add: digit_def)

lemma digits_sum:
  assumes "n < 2 ^ 24"
  shows "digit n 0 * 64 ^ 3 + digit n 1 * 64 ^ 2 + digit n 2 * 64 + digit n 3 = n"
proof -
  define a b c where "a = n div 64" and "b = a div 64" and "c = b div 64"
  have d: "n div 4096 = b" "n div 262144 = c"
    by (simp_all add: a_def b_def c_def flip: div_mult2_eq)
  have "c < 64" using assms d(2) by (simp add: div_less_iff_less_mult flip: d(2))
  then have "digit n 0 = c" "digit n 1 = b mod 64" "digit n 2 = a mod 64" "digit n 3 = n mod 64"
    by (simp_all add: digit_def d flip: a_def)
  moreover have "n = 64 * a + n mod 64" "a = 64 * b + a mod 64" "b = 64 * c + b mod 64"
    by (simp_all add: a_def b_def c_def)
  ultimately show ?thesis by simp
qed

lemma padding_digits: "digit (group_value a b 0) 3 = 0" "digit (group_value a 0 0) 2 = 0"
  by (simp_all add: digit_def group_value_def)

lemma decode_letter:
  assumes "spells a chr" and "U < 3" and "f < 2 ^ 24"
  shows "decode_loop a (chr (digit n U) # rest) (num f) U =
    decode_loop a rest (num (f + digit n U * 64 ^ (3 - U))) (U + 1)"
  using assms add_digit_nat[OF assms(3) digit_lt, of n U U]
  by (simp add: spells_def digit_lt)

lemma decode_fourth:
  assumes "spells a chr" and "f < 2 ^ 24"
  shows "decode_loop a (chr (digit n 3) # rest) (num f) 3 =
    first_byte (num (f + digit n 3)) # second_byte (num (f + digit n 3)) #
    third_byte (num (f + digit n 3)) # decode_loop a rest (num 0) 0"
  using assms add_digit_nat[OF assms(2) digit_lt, of n 3 3]
  by (simp add: spells_def digit_lt Let_def)

lemma digit_bounds:
  assumes "n < 2 ^ 24"
  shows "digit n 0 * 64 ^ 3 < 2 ^ 24" and "digit n 0 * 64 ^ 3 + digit n 1 * 64 ^ 2 < 2 ^ 24"
    and "digit n 0 * 64 ^ 3 + digit n 1 * 64 ^ 2 + digit n 2 * 64 < 2 ^ 24"
  using digits_sum[OF assms] assms by linarith+

lemma num_zero: "num 0 = Num 0"
  by simp

text \<open>The first two, three and four letters of a group.\<close>

lemma decode_letters:
  assumes "spells a chr" and "n < 2 ^ 24"
  shows "decode_loop a (chr (digit n 0) # chr (digit n 1) # rest) (num 0) 0 =
      decode_loop a rest (num (digit n 0 * 64 ^ 3 + digit n 1 * 64 ^ 2)) 2" (is ?two)
    and "decode_loop a (chr (digit n 0) # chr (digit n 1) # chr (digit n 2) # rest) (num 0) 0 =
      decode_loop a rest (num (digit n 0 * 64 ^ 3 + digit n 1 * 64 ^ 2 + digit n 2 * 64)) 3" (is ?three)
    and "decode_loop a (chr (digit n 0) # chr (digit n 1) # chr (digit n 2) # chr (digit n 3) # rest) (num 0) 0 =
      first_byte (num n) # second_byte (num n) # third_byte (num n) # decode_loop a rest (num 0) 0"
proof -
  note b = digit_bounds[OF assms(2)]
  have one: "decode_loop a (chr (digit n 0) # r) (num 0) 0 =
      decode_loop a r (num (digit n 0 * 64 ^ 3)) 1" for r
    using decode_letter[OF assms(1), of 0 0 n r] by (simp del: decode_loop.simps of_nat_mult)
  have two: "decode_loop a (chr (digit n 1) # r) (num (digit n 0 * 64 ^ 3)) 1 =
      decode_loop a r (num (digit n 0 * 64 ^ 3 + digit n 1 * 64 ^ 2)) 2" for r
    using decode_letter[OF assms(1) _ b(1), of 1 n r]
    by (simp del: decode_loop.simps of_nat_mult of_nat_add One_nat_def add: nat_1_add_1)
  have three: "decode_loop a (chr (digit n 2) # r) (num (digit n 0 * 64 ^ 3 + digit n 1 * 64 ^ 2)) 2 =
      decode_loop a r (num (digit n 0 * 64 ^ 3 + digit n 1 * 64 ^ 2 + digit n 2 * 64)) 3" for r
    using decode_letter[OF assms(1) _ b(2), of 2 n r]
    by (simp del: decode_loop.simps of_nat_mult of_nat_add)
  note four = decode_fourth[OF assms(1) b(3)]
  show ?two by (simp only: one two)
  show ?three by (simp only: one two three)
  show "decode_loop a (chr (digit n 0) # chr (digit n 1) # chr (digit n 2) # chr (digit n 3) # rest) (num 0) 0 =
      first_byte (num n) # second_byte (num n) # third_byte (num n) # decode_loop a rest (num 0) 0"
    by (simp only: one two three four digits_sum[OF assms(2)])
qed

lemma decode_padding:
  "spells a chr \<Longrightarrow> decode_loop a [61, 61] f U = [first_byte f]"
  "spells a chr \<Longrightarrow> decode_loop a [61] f U = [first_byte f, second_byte f]"
  by (simp_all add: spells_def)

lemma decode_encode: "spells a chr \<Longrightarrow> decode_loop a (encode chr bs) (Num 0) 0 = bs"
proof (induction chr bs rule: encode.induct)
  case (1 chr x y z rest)
  note d = decode_letters(3)[OF 1(2) group_value_bound, of x y z "encode chr rest"]
  show ?case unfolding encode.simps Let_def list.map append.simps
    using d 1(1)[OF refl 1(2)] by (simp only: num_zero bytes_of_nat[OF group_value_bound] group_bytes)
next
  case (2 chr x y)
  note d = decode_letters(2)[OF 2 group_value_bound, of x y 0 "[61]"]
  have "digit (group_value x y 0) 0 * 64 ^ 3 + digit (group_value x y 0) 1 * 64 ^ 2 +
      digit (group_value x y 0) 2 * 64 = group_value x y 0"
    using digits_sum[OF group_value_bound, of x y 0] padding_digits(1)[of x y] by simp
  with d decode_padding(2)[OF 2] show ?case unfolding encode.simps Let_def list.map append.simps
    by (simp only: num_zero bytes_of_nat[OF group_value_bound] group_bytes)
next
  case (3 chr x)
  note d = decode_letters(1)[OF 3 group_value_bound, of x 0 0 "[61, 61]"]
  have "digit (group_value x 0 0) 0 * 64 ^ 3 + digit (group_value x 0 0) 1 * 64 ^ 2 =
      group_value x 0 0"
    using digits_sum[OF group_value_bound, of x 0 0] padding_digits(1)[of x 0] padding_digits(2)[of x]
    by simp
  with d decode_padding(1)[OF 3] show ?case unfolding encode.simps Let_def list.map append.simps
    by (simp only: num_zero bytes_of_nat[OF group_value_bound] group_bytes)
qed simp

end
