(* ===== verification/WeAreDevs_Props.thy ===== *)
theory WeAreDevs_Props
  imports WeAreDevs_Decode
begin

text \<open>
  The string pool of a protected script: \<open>protect\<close> builds the script the way the obfuscator does
  (encode the strings, undo the rotations, add the rotation loop, the accessor and the alphabet);
  extraction gives the pool back.
\<close>

section \<open>Rotations\<close>

text \<open>Reversing the elements at the positions from \<open>l\<close> to \<open>r\<close>.\<close>

definition flip_range :: "nat \<Rightarrow> nat \<Rightarrow> 'a list \<Rightarrow> 'a list" where
  "flip_range l r xs =
     map (\<lambda>i. if l \<le> i \<and> i \<le> r then xs ! (l + r - i) else xs ! i) [0..<length xs]"

lemma length_flip_range [simp]: "length (flip_range l r xs) = length xs"
  by (simp add: flip_range_def)

lemma nth_flip_range:
  "i < length xs \<Longrightarrow>
    flip_range l r xs ! i = (if l \<le> i \<and> i \<le> r then xs ! (l + r - i) else xs ! i)"
  by (simp add: flip_range_def)

lemma flip_range_involution: "r < length xs \<Longrightarrow> flip_range l r (flip_range l r xs) = xs"
  by (rule nth_equalityI) (auto simp: nth_flip_range)

lemma flip_range_map: "flip_range l r (map f xs) = map f (flip_range l r xs)" if "r < length xs"
  by (rule nth_equalityI) (use that in \<open>auto simp: nth_flip_range\<close>)

lemma elem_at_nat: "i < length xs \<Longrightarrow> elem_at xs (of_nat i) = xs ! i"
  by (simp add: elem_at_def)

lemma set_elem_nat: "set_elem xs (of_nat i) v = xs[i := v]"
  by (simp add: set_elem_def)

lemma reverse_loop_flips:
  "r < length xs \<Longrightarrow> reverse_loop (of_nat l) (of_nat r) xs = flip_range l r xs"
proof (induction "r - l" arbitrary: l r xs rule: less_induct)
  case less
  show ?case
  proof (cases "l < r")
    case False
    then have "flip_range l r xs = xs"
      by (intro nth_equalityI) (auto simp: nth_flip_range intro: arg_cong[where f = "(!) xs"])
    with False show ?thesis by (subst reverse_loop.simps) simp
  next
    case True
    define ys where "ys = xs[l := xs ! r, r := xs ! l]"
    obtain q where q: "r = Suc q" using True by (cases r) auto
    have "reverse_loop (of_nat l) (of_nat r) xs = reverse_loop (of_nat l + 1) (of_nat r - 1) ys"
      using True less.prems
      by (subst reverse_loop.simps) (simp add: ys_def elem_at_nat set_elem_nat)
    also have "\<dots> = reverse_loop (of_nat (Suc l)) (of_nat q) ys" by (simp add: q add.commute)
    also have "\<dots> = flip_range (Suc l) q ys"
      by (rule less.hyps) (use True less.prems in \<open>auto simp: q ys_def\<close>)
    also have "\<dots> = flip_range l r xs"
      by (rule nth_equalityI)
        (use True less.prems in \<open>auto simp: nth_flip_range ys_def q nth_list_update\<close>)
    finally show ?thesis .
  qed
qed

lemma bound_of_nat: "0 < s \<Longrightarrow> s < 2 ^ 52 \<Longrightarrow> bound_of (num s) = Some (of_nat (s - 1))"
proof -
  assume s: "0 < s" "s < 2 ^ 52"
  have "num_sub (num s) (Num 1) = round_double (of_nat s - 1)"
    by (simp add: num_sub_def num_neg_def num_add_def value_of_def)
  also have "of_nat s - 1 = (of_nat (s - 1) :: rat)" using s(1) by (simp add: of_nat_diff)
  also have "round_double (of_nat (s - 1)) = Num (of_nat (s - 1))"
    by (rule round_double_nat) (use s in simp)
  finally show ?thesis by (simp add: bound_of_def)
qed

text \<open>A rotation is a pair of one-based positions in the table.\<close>

type_synonym rotation = "nat \<times> nat"

definition in_table :: "nat \<Rightarrow> rotation list \<Rightarrow> bool" where
  "in_table n ranges \<longleftrightarrow> (\<forall>(s, e)\<in>set ranges. 0 < s \<and> s \<le> n \<and> 0 < e \<and> e \<le> n)"

definition rotate_range :: "'a list \<Rightarrow> rotation \<Rightarrow> 'a list" where
  "rotate_range xs p = flip_range (fst p - 1) (snd p - 1) xs"

abbreviation range_nums :: "rotation list \<Rightarrow> (jsnum \<times> jsnum) list" where
  "range_nums ranges \<equiv> map (\<lambda>(s, e). (num s, num e)) ranges"

lemma length_rotate [simp]: "length (foldl rotate_range xs ranges) = length xs"
  by (induction ranges arbitrary: xs) (simp_all add: rotate_range_def)

lemma reverse_range_rotates:
  assumes "in_table (length xs) (p # ranges)" and "length xs < 2 ^ 52"
  shows "reverse_range xs (num (fst p), num (snd p)) = rotate_range xs p"
proof -
  have p: "0 < fst p" "fst p < 2 ^ 52" "0 < snd p" "snd p < 2 ^ 52" "snd p - 1 < length xs"
    using assms by (auto simp: in_table_def split: prod.splits)
  show ?thesis using reverse_loop_flips[OF p(5), of "fst p - 1"]
    unfolding reverse_range_def rotate_range_def fst_conv snd_conv
      bound_of_nat[OF p(1,2)] bound_of_nat[OF p(3,4)] by simp
qed

lemma reverse_ranges_rotate:
  assumes "in_table (length xs) ranges" and "length xs < 2 ^ 52"
  shows "foldl reverse_range xs (range_nums ranges) = foldl rotate_range xs ranges"
  using assms
proof (induction ranges arbitrary: xs)
  case (Cons p ranges)
  have "reverse_range xs (num (fst p), num (snd p)) = rotate_range xs p"
    using reverse_range_rotates Cons.prems by blast
  with Cons show ?case by (simp add: split_beta in_table_def rotate_range_def)
qed simp

lemma rotate_rev:
  "in_table (length xs) ranges \<Longrightarrow>
    foldl rotate_range (foldl rotate_range xs (rev ranges)) ranges = xs"
proof (induction ranges arbitrary: xs)
  case (Cons p ranges)
  define ys where "ys = foldl rotate_range xs (rev ranges)"
  have "snd p - 1 < length ys" using Cons.prems by (auto simp: in_table_def ys_def)
  then have "rotate_range (rotate_range ys p) p = ys"
    by (simp add: rotate_range_def flip_range_involution)
  with Cons show ?case by (simp add: in_table_def ys_def)
qed simp

lemma rotate_map:
  "in_table (length xs) ranges \<Longrightarrow>
    foldl rotate_range (map f xs) ranges = map f (foldl rotate_range xs ranges)"
proof (induction ranges arbitrary: xs)
  case (Cons p ranges)
  have "snd p - 1 < length xs" using Cons.prems by (auto simp: in_table_def)
  then have "rotate_range (map f xs) p = map f (rotate_range xs p)"
    by (simp add: rotate_range_def flip_range_map)
  with Cons show ?case by (simp add: in_table_def rotate_range_def)
qed simp

section \<open>A protected script\<close>

definition K :: "string \<Rightarrow> expr" where
  "K s = Identifier (units s)"

definition number :: "nat \<Rightarrow> expr" where
  "number n = NumericLiteral (num n) (decimal n)"

definition encoded_entries :: "(nat \<Rightarrow> nat) \<Rightarrow> rotation list \<Rightarrow> byte_string list \<Rightarrow> byte_string list" where
  "encoded_entries chr ranges pool =
     foldl rotate_range (map (\<lambda>b. latin1 (encode chr b)) pool) (rev ranges)"

definition pool_statement :: "byte_string list \<Rightarrow> stmt" where
  "pool_statement entries =
     LocalStatement [K ''A'']
       [TableConstructor (map (\<lambda>b. TableValue (stringLiteral b [])) entries)]"

definition rotation_statement :: "rotation list \<Rightarrow> stmt list \<Rightarrow> stmt" where
  "rotation_statement ranges body =
     GenericForStatement [K ''W'', K ''Q'']
       [CallExpression (K ''ipairs'')
          [TableConstructor (map (\<lambda>(s, e). TableValue (TableConstructor
             [TableValue (number s), TableValue (number e)])) ranges)]] body"

definition accessor_statement :: "nat \<Rightarrow> stmt" where
  "accessor_statement off =
     LocalFunctionStatement (K ''W'') [K ''W''] False
       [ReturnStatement [IndexExpression (K ''A'') (BinaryExpression ''-'' (K ''W'') (number off))]]"

definition alphabet_statement :: "(nat \<Rightarrow> nat) \<Rightarrow> stmt list \<Rightarrow> stmt" where
  "alphabet_statement chr body =
     DoStatement (LocalStatement [K ''K'']
       [TableConstructor (map (\<lambda>d. TableKey (stringLiteral [word_of_nat (chr d)] []) (number d)) [0..<64])]
       # body)"

text \<open>\<open>body1\<close> is the reversal loop, \<open>body2\<close> the decoder and \<open>rest\<close> the protected program.\<close>

definition protect ::
  "(nat \<Rightarrow> nat) \<Rightarrow> rotation list \<Rightarrow> nat \<Rightarrow> stmt list \<Rightarrow> stmt list \<Rightarrow> stmt list \<Rightarrow> byte_string list \<Rightarrow> chunk" where
  "protect chr ranges off body1 body2 rest pool =
     [ReturnStatement [CallExpression (FunctionExpression [] True
        (pool_statement (encoded_entries chr ranges pool) # rotation_statement ranges body1 #
         accessor_statement off # alphabet_statement chr body2 # rest)) []]]"

text \<open>Letters are Latin-1 characters other than the padding, each standing for one digit.\<close>

definition letters :: "(nat \<Rightarrow> nat) \<Rightarrow> bool" where
  "letters chr \<longleftrightarrow> inj_on chr {..<64} \<and> (\<forall>d<64. chr d < 256 \<and> chr d \<noteq> 61)"

section \<open>What extraction finds in it\<close>

definition letter_map :: "(nat \<Rightarrow> nat) \<Rightarrow> alphabet" where
  "letter_map chr = map (\<lambda>d. ([chr d], num d)) [0..<64]"

lemma folded_literals [simp]:
  "folded pow (NumericLiteral v raw) = NumericLiteral v raw"
  "folded pow (BinaryExpression ''-'' (Identifier n) (NumericLiteral v raw)) =
     BinaryExpression ''-'' (Identifier n) (NumericLiteral v raw)"
  by (simp_all add: folded_def fold_node_def finish_expr_def fold_transformer_def fold_expr_def
      tryEvaluate_def evalBinary_def evalRest_def)

lemma map_set_absent: "map_get m k = None \<Longrightarrow> map_set m k v = m @ [(k, v)]"
  by (induction m k v rule: map_set.induct) (auto simp: map_get_def split: if_splits)

lemma letter_map_built:
  assumes "letters chr" and "n \<le> 64"
  shows "foldl (add_letter pow) [] (map (\<lambda>d. TableKey (stringLiteral [word_of_nat (chr d)] []) (number d)) [0..<n]) =
    map (\<lambda>d. ([chr d], num d)) [0..<n]"
  using assms(2)
proof (induction n)
  case (Suc n)
  let ?m = "map (\<lambda>d. ([chr d], num d)) [0..<n]"
  have "chr n < 256" using assms(1) Suc.prems by (simp add: letters_def)
  then have key: "key_char (TableKey (stringLiteral [word_of_nat (chr n)] []) (number n)) = Some [chr n]"
    by (simp add: key_char_def stringLiteral_def latin1_text_def take_bit_eq_mod unat_of_nat)
  have "chr n \<noteq> chr d" if "d < n" for d
    using assms(1) Suc.prems that inj_on_contraD[of chr "{..<64}" n d] by (auto simp: letters_def)
  then have "map_get ?m [chr n] = None" by (fastforce simp: map_get_def map_of_eq_None_iff)
  with key Suc show ?case
    by (simp add: add_letter_def number_def map_set_absent)
qed simp

lemma spells_letter_map:
  assumes "letters chr" shows "spells (letter_map chr) chr"
proof -
  have d: "distinct (map fst (letter_map chr))"
    using assms by (auto simp: letter_map_def comp_def distinct_map inj_on_def letters_def)
  have "map_get (letter_map chr) [chr n] = Some (num n)" if "n < 64" for n
    unfolding map_get_def by (rule map_of_is_SomeI[OF d]) (use that in \<open>auto simp: letter_map_def\<close>)
  moreover have "map_get (letter_map chr) [61] = None"
    using assms by (auto simp: letter_map_def map_get_def map_of_eq_None_iff letters_def)
  ultimately show ?thesis by (simp add: spells_def)
qed

lemma latin1_text_encode:
  assumes "letters chr" shows "latin1_text (latin1 (encode chr b)) = encode chr b"
proof -
  have "c < 256" if "c \<in> set (encode chr b)" for c
    using that assms
  proof (induction chr b rule: encode.induct)
    case (1 chr x y z rest)
    then show ?case by (auto simp: Let_def letters_def digit_lt)
  qed (auto simp: Let_def letters_def digit_lt)
  then show ?thesis
    by (auto simp: latin1_text_def latin1_def comp_def unat_of_nat take_bit_eq_mod intro!: map_idI)
qed

text \<open>The parts that extraction finds, whatever the adapter has seen before.\<close>

lemma protect_parts:
  fixes pow chr ranges off body1 body2 rest pool
  defines "body \<equiv> setup_body (protect chr ranges off body1 body2 rest pool)"
  assumes "20 \<le> length pool" and "letters chr"
  shows "first_some (table_of 20) body =
      Some (map (\<lambda>b. TableValue (stringLiteral b [])) (encoded_entries chr ranges pool))"
    and "found_ranges pow body = range_nums ranges"
    and "first_some (accessor_of pow) body = Some (Some (units ''W''), num_neg (num off))"
    and "found_alphabet pow body = Some (letter_map chr)"
proof -
  have body: "body = pool_statement (encoded_entries chr ranges pool) # rotation_statement ranges body1 #
      accessor_statement off # alphabet_statement chr body2 # rest"
    by (simp add: body_def setup_body_def protect_def)
  have len: "length (encoded_entries chr ranges pool) = length pool"
    by (simp add: encoded_entries_def)
  show "first_some (table_of 20) body =
      Some (map (\<lambda>b. TableValue (stringLiteral b [])) (encoded_entries chr ranges pool))"
    using assms(2) len by (simp add: body pool_statement_def table_of_def)
  have "List.map_filter (range_of_field pow) (map (\<lambda>(s, e). TableValue (TableConstructor
      [TableValue (number s), TableValue (number e)])) ranges) = range_nums ranges"
    by (induction ranges) (auto simp: List.map_filter_simps range_of_field_def number_def)
  then show "found_ranges pow body = range_nums ranges"
    by (simp add: found_ranges_def body pool_statement_def rotation_statement_def rotation_loop_def)
  show "first_some (accessor_of pow) body = Some (Some (units ''W''), num_neg (num off))"
    by (simp add: body pool_statement_def rotation_statement_def accessor_statement_def accessor_of_def
        number_def K_def)
  have "first_some alphabet_table body = Some
      (map (\<lambda>d. TableKey (stringLiteral [word_of_nat (chr d)] []) (number d)) [0..<64])"
    by (simp add: body pool_statement_def rotation_statement_def accessor_statement_def
        alphabet_statement_def alphabet_table_def table_of_def)
  with letter_map_built[OF assms(3), of 64 pow] show "found_alphabet pow body = Some (letter_map chr)"
    by (simp add: found_alphabet_def letter_map_def)
qed

lemma raw_entries: "map (Some \<circ> raw_entry) (map (\<lambda>b. TableValue (stringLiteral b [])) es) = map Some es"
  by (simp add: raw_entry_def stringLiteral_def comp_def)

lemma decode_encoded_table:
  assumes "letters chr"
  shows "decode_table (letter_map chr) (map Some (map (\<lambda>b. latin1 (encode chr b)) pool)) = return pool"
  using assms spells_letter_map[OF assms]
  by (auto simp: decode_table_def comp_def latin1_text_encode decodeBase64Custom_def decode_encode
      image_iff intro!: map_idI)

lemma extract_parts:
  assumes "first_some (table_of 20) (setup_body c) = Some flds"
    and "found_ranges pow (setup_body c) = rs"
    and "first_some (accessor_of pow) (setup_body c) = Some (name, off)"
    and "found_alphabet pow (setup_body c) = Some m" and "60 \<le> length m"
    and "foldl reverse_range (map (Some \<circ> raw_entry) flds) (rotationRanges ad @ rs) = entries"
    and "decode_table m entries = return table"
  shows "\<exists>ad'. extractAndDecode pow c ad = (ad', return True) \<and> stringTable ad' = table \<and>
    rotationRanges ad' = rotationRanges ad @ rs \<and>
    accessorName ad' = name \<and> accessorOffset ad' = Some off \<and>
    stringsFound (wad_stats ad') = length flds \<and> stringsRecovered (wad_stats ad') = length table"
  using assms
  by (auto simp: extractAndDecode_def Let_def add_ranges_def mark_found_def note_accessor_def
      note_alphabet_def usable_alphabet_def)

text \<open>Extraction with an adapter that already knows some ranges of this table.\<close>

lemma extract_protected:
  fixes pow chr ranges off body1 body2 rest pool
  defines "c \<equiv> protect chr ranges off body1 body2 rest pool"
  assumes "letters chr" and "20 \<le> length pool" and "length pool < 2 ^ 32"
    and "in_table (length pool) (known @ ranges)" and "rotationRanges ad = range_nums known"
    and result: "result = foldl rotate_range (foldl rotate_range pool (rev ranges)) (known @ ranges)"
  shows "\<exists>ad'. extractAndDecode pow c ad = (ad', return True) \<and> stringTable ad' = result \<and>
    rotationRanges ad' = range_nums (known @ ranges) \<and>
    accessorName ad' = Some (units ''W'') \<and> accessorOffset ad' = Some (num_neg (num off)) \<and>
    stringsFound (wad_stats ad') = length pool \<and> stringsRecovered (wad_stats ad') = length pool"
proof -
  note parts = protect_parts[OF assms(3,2)]
  let ?enc = "\<lambda>b. latin1 (encode chr b)"
  have len: "length (encoded_entries chr ranges pool) = length pool"
    by (simp add: encoded_entries_def)
  have it: "in_table (length pool) (rev ranges)" "in_table (length pool) (known @ ranges)"
    using assms(5) by (auto simp: in_table_def)
  have e: "encoded_entries chr ranges pool = map ?enc (foldl rotate_range pool (rev ranges))"
    unfolding encoded_entries_def by (rule rotate_map) (rule it)
  have "foldl reverse_range (map Some (encoded_entries chr ranges pool)) (range_nums (known @ ranges)) =
      foldl rotate_range (map Some (encoded_entries chr ranges pool)) (known @ ranges)"
    by (rule reverse_ranges_rotate) (use it len assms(4) in simp_all)
  also have "\<dots> = map Some (foldl rotate_range (encoded_entries chr ranges pool) (known @ ranges))"
    by (rule rotate_map) (use it len in simp)
  also have "foldl rotate_range (encoded_entries chr ranges pool) (known @ ranges) = map ?enc result"
    unfolding result e by (rule rotate_map) (use it in simp)
  finally have entries: "foldl reverse_range
      (map (Some \<circ> raw_entry) (map (\<lambda>b. TableValue (stringLiteral b [])) (encoded_entries chr ranges pool)))
      (range_nums (known @ ranges)) = map Some (map ?enc result)"
    by (simp only: raw_entries)
  have n: "60 \<le> length (letter_map chr)" by (simp add: letter_map_def)
  have k: "rotationRanges ad @ range_nums ranges = range_nums (known @ ranges)"
    using assms(6) by simp
  from extract_parts[OF parts n entries[folded k] decode_encoded_table[OF assms(2)]]
  show ?thesis using len by (simp add: c_def k result del: map_append)
qed

lemma resolve_entry:
  assumes "accessorOffset ad = Some (num_neg (num off))" and "k < length (stringTable ad)"
    and "off + k + 1 < 2 ^ 52"
  shows "resolveLookup ad (num (off + k + 1)) = Entry (stringTable ad ! k)"
proof -
  have "num_add (num (off + k + 1)) (num_neg (num off)) = num (k + 1)"
  proof (cases "off = 0")
    case True
    then show ?thesis using assms(3) round_double_nat[of "k + 1"]
      by (auto simp: num_neg_def num_add_def value_of_def)
  next
    case False
    have "(of_nat (off + k + 1) + - of_nat off :: rat) = of_nat (k + 1)" by simp
    then show ?thesis using False assms(3) round_double_nat[of "k + 1"]
      by (simp only: num_neg_def num_add_def value_of_def) simp
  qed
  moreover have "num_sub (num (k + 1)) (Num 1) = num k"
  proof -
    have "(of_nat (k + 1) + - 1 :: rat) = of_nat k" by simp
    then show ?thesis using assms(3) round_double_nat[of k]
      by (simp only: num_sub_def num_neg_def num_add_def value_of_def) simp
  qed
  ultimately show ?thesis using assms(1,2)
    by (simp add: resolveLookup_def table_index_def elem_at_nat del: of_nat_add of_nat_Suc)
qed

lemma fresh_adapter: "rotationRanges WeAreDevsAdapter = range_nums []"
  by (simp add: WeAreDevsAdapter_def)

section \<open>Extraction inverts the protection\<close>

lemma pool_recovered:
  assumes "letters chr" and "20 \<le> length pool" and "length pool < 2 ^ 32"
    and "in_table (length pool) ranges" and "off < 2 ^ 32"
  shows "\<exists>ad. extractAndDecode pow (protect chr ranges off body1 body2 rest pool) WeAreDevsAdapter =
      (ad, return True) \<and> stringTable ad = pool \<and> accessorName ad = Some (units ''W'') \<and>
    (\<forall>k<length pool. resolveLookup ad (num (off + k + 1)) = Entry (pool ! k))"
proof -
  have it: "in_table (length pool) ([] @ ranges)" using assms(4) by simp
  have "pool = foldl rotate_range (foldl rotate_range pool (rev ranges)) ([] @ ranges)"
    using rotate_rev[OF assms(4)] by simp
  from extract_protected[OF assms(1-3) it fresh_adapter this, of pow off body1 body2 rest]
  obtain ad where ad: "extractAndDecode pow (protect chr ranges off body1 body2 rest pool) WeAreDevsAdapter =
      (ad, return True)" "stringTable ad = pool" "accessorName ad = Some (units ''W'')"
    "accessorOffset ad = Some (num_neg (num off))"
    by (elim exE conjE) (rule that)
  then have "resolveLookup ad (num (off + k + 1)) = Entry (pool ! k)" if "k < length pool" for k
    using resolve_entry[OF ad(4), of k] that assms(3,5) by simp
  with ad show ?thesis by blast
qed

text \<open>C21. The string pool of a protected script is recovered: for every pool of at least twenty strings,
  every alphabet of 64 letters, every sequence of rotations inside the table and every offset of the
  accessor, extraction with a fresh adapter succeeds on the script, its table is the pool, and
  looking up the argument that the accessor maps to position \<open>k + 1\<close> gives the string at \<open>k\<close>.\<close>

theorem protected_pool_recovered:
  assumes "letters chr" and "20 \<le> length pool" and "length pool < 2 ^ 32"
    and "in_table (length pool) ranges" and "off < 2 ^ 32"
  shows "\<exists>ad. extractAndDecode pow (protect chr ranges off body1 body2 rest pool) WeAreDevsAdapter =
      (ad, return True) \<and> stringTable ad = pool \<and> accessorName ad = Some (units ''W'') \<and>
    (\<forall>k<length pool. resolveLookup ad (num (off + k + 1)) = Entry (pool ! k))"
  by (rule pool_recovered[OF assms])

definition demo_pool :: "byte_string list" where
  "demo_pool = map (\<lambda>n. [word_of_nat n, 0, 255]) [0..<20]"

lemma demo_letters: "letters (\<lambda>d. d + 64)"
  by (auto simp: letters_def inj_on_def)

theorem protected_pool_recovered_witness:
  "\<exists>ad. extractAndDecode num_mul (protect (\<lambda>d. d + 64) [(1, 3), (2, 20)] 7 [] [] [] demo_pool) WeAreDevsAdapter =
      (ad, return True) \<and> stringTable ad = demo_pool"
  using protected_pool_recovered [of "\<lambda>d. d + 64" demo_pool "[(1, 3), (2, 20)]" 7 num_mul "[]" "[]" "[]"]
    demo_letters by (auto simp: demo_pool_def in_table_def)

text \<open>The adapter is reused by the detector for every script it is given, and it keeps the rotations
  of the earlier ones: extracting a script a second time applies its rotations twice, and the
  table is the pool with the rotations applied to it.\<close>

theorem second_extraction_scrambles:
  assumes "letters chr" and "20 \<le> length pool" and "length pool < 2 ^ 32"
    and "in_table (length pool) ranges"
  shows "\<exists>ad1 ad2. extractAndDecode pow (protect chr ranges off body1 body2 rest pool) WeAreDevsAdapter =
      (ad1, return True) \<and>
    extractAndDecode pow (protect chr ranges off body1 body2 rest pool) ad1 = (ad2, return True) \<and>
    stringTable ad1 = pool \<and> stringTable ad2 = foldl rotate_range pool ranges"
proof -
  have it: "in_table (length pool) ([] @ ranges)" "in_table (length pool) (ranges @ ranges)"
    using assms(4) by (auto simp: in_table_def)
  have r: "pool = foldl rotate_range (foldl rotate_range pool (rev ranges)) ([] @ ranges)"
    "foldl rotate_range pool ranges =
      foldl rotate_range (foldl rotate_range pool (rev ranges)) (ranges @ ranges)"
    using rotate_rev[OF assms(4)] by simp_all
  from extract_protected[OF assms(1-3) it(1) fresh_adapter r(1), of pow off body1 body2 rest]
  obtain ad1 where ad1: "extractAndDecode pow (protect chr ranges off body1 body2 rest pool) WeAreDevsAdapter =
      (ad1, return True)" "stringTable ad1 = pool" "rotationRanges ad1 = range_nums ranges"
    by (elim exE conjE) (rule that, simp_all)
  from extract_protected[OF assms(1-3) it(2) ad1(3) r(2), of pow off body1 body2 rest]
  obtain ad2 where "extractAndDecode pow (protect chr ranges off body1 body2 rest pool) ad1 =
      (ad2, return True)" "stringTable ad2 = foldl rotate_range pool ranges"
    by (elim exE conjE) (rule that)
  with ad1(1,2) show ?thesis by (intro exI conjI)
qed

theorem second_extraction_scrambles_witness:
  "\<exists>ad1 ad2. extractAndDecode num_mul (protect (\<lambda>d. d + 64) [(1, 3)] 7 [] [] [] demo_pool) WeAreDevsAdapter =
      (ad1, return True) \<and>
    extractAndDecode num_mul (protect (\<lambda>d. d + 64) [(1, 3)] 7 [] [] [] demo_pool) ad1 = (ad2, return True) \<and>
    stringTable ad1 ! 0 = [0, 0, 255] \<and> stringTable ad2 ! 0 = [2, 0, 255]"
proof -
  have "foldl rotate_range demo_pool [(1, 3)] ! 0 = [2, 0, 255]" "demo_pool ! 0 = [0, 0, 255]"
    by (simp_all add: rotate_range_def nth_flip_range demo_pool_def)
  then show ?thesis
    using second_extraction_scrambles [of "\<lambda>d. d + 64" demo_pool "[(1, 3)]" num_mul 7 "[]" "[]" "[]"]
      demo_letters by (auto simp: demo_pool_def in_table_def)
qed

end
