(* ===== verification/String_Recovery_Props.thy ===== *)
theory String_Recovery_Props
  imports String_Recovery WeAreDevs_Props Evaluator_Props Fold_Fixpoint
begin

text \<open>
  Inlining the recovered strings undoes what the obfuscator does to them: it moves them into the pool and
  puts calls of the accessor and accesses to the table in their places. \<open>hide\<close> is that step on a tree.
\<close>

section \<open>Folding as a function\<close>

interpretation folds: tree_rewrite "fold_transformer pow" "fold_top pow" keep "\<lambda>_. True"
  by unfold_locales (simp_all add: finish_pure)

lemma folded_rewrite: "folded pow e = rewrite_expr (fold_top pow) keep e"
  by (simp add: folded_def fold_node_def folds.transform_is_rewrite)

lemma folded_lists:
  "folded_list pow es = map (rewrite_expr (fold_top pow) keep) es"
  "fst (fold_chunk pow b s) = rewrite_block (fold_top pow) keep b"
  "fst (transform_fields (fold_transformer pow) fs s) = map (rewrite_field (fold_top pow) keep) fs"
  by (simp_all add: folded_list_def fold_chunk_def folds.transform_is_rewrite)

section \<open>Hiding strings\<close>

text \<open>The position of a string in the pool, and the two ways to reach it: by the accessor, whose argument is
  moved by an offset, or by the table, which counts from one.\<close>

definition place :: "byte_string list \<Rightarrow> byte_string \<Rightarrow> nat" where
  "place pool b = length (takeWhile (\<lambda>x. x \<noteq> b) pool)"

definition hidden :: "nat \<Rightarrow> (byte_string \<Rightarrow> bool) \<Rightarrow> byte_string list \<Rightarrow> byte_string \<Rightarrow> expr" where
  "hidden off direct pool b =
     (if direct b then IndexExpression (K ''A'') (number (place pool b + 1))
      else CallExpression (K ''W'') [number (off + place pool b + 1)])"

definition hide_top :: "nat \<Rightarrow> (byte_string \<Rightarrow> bool) \<Rightarrow> byte_string list \<Rightarrow> expr \<Rightarrow> expr" where
  "hide_top off direct pool e =
     (case e of StringLiteral b raw \<Rightarrow> if b \<in> set pool then hidden off direct pool b else e | _ \<Rightarrow> e)"

definition hide :: "nat \<Rightarrow> (byte_string \<Rightarrow> bool) \<Rightarrow> byte_string list \<Rightarrow> chunk \<Rightarrow> chunk" where
  "hide off direct pool c = rewrite_block (hide_top off direct pool) keep c"

text \<open>The program as it comes back: a string of the pool is written as the printer writes it.\<close>

definition rewritten_top :: "byte_string list \<Rightarrow> expr \<Rightarrow> expr" where
  "rewritten_top pool e =
     (case e of StringLiteral b raw \<Rightarrow> if b \<in> set pool then stringLiteral b [] else e | _ \<Rightarrow> e)"

definition rewritten :: "byte_string list \<Rightarrow> chunk \<Rightarrow> chunk" where
  "rewritten pool c = rewrite_block (rewritten_top pool) keep c"

text \<open>The expressions of a program.\<close>

primrec exprs_in :: "expr \<Rightarrow> expr list"
and field_exprs :: "table_field \<Rightarrow> expr list"
and stmt_exprs :: "stmt \<Rightarrow> expr list"
and clause_exprs :: "clause \<Rightarrow> expr list" where
  "exprs_in (Identifier n) = [Identifier n]"
| "exprs_in (NumericLiteral v raw) = [NumericLiteral v raw]"
| "exprs_in (StringLiteral s raw) = [StringLiteral s raw]"
| "exprs_in (BooleanLiteral b) = [BooleanLiteral b]"
| "exprs_in NilLiteral = [NilLiteral]"
| "exprs_in (VarargLiteral b) = [VarargLiteral b]"
| "exprs_in (UnaryExpression op a) = UnaryExpression op a # exprs_in a"
| "exprs_in (BinaryExpression op l r) = BinaryExpression op l r # exprs_in l @ exprs_in r"
| "exprs_in (LogicalExpression op l r) = LogicalExpression op l r # exprs_in l @ exprs_in r"
| "exprs_in (CallExpression b args) = CallExpression b args # exprs_in b @ concat (map exprs_in args)"
| "exprs_in (MethodCallExpression b m args) =
     MethodCallExpression b m args # exprs_in b @ exprs_in m @ concat (map exprs_in args)"
| "exprs_in (MemberExpression b p) = MemberExpression b p # exprs_in b @ exprs_in p"
| "exprs_in (IndexExpression b i) = IndexExpression b i # exprs_in b @ exprs_in i"
| "exprs_in (FunctionExpression ps va body) =
     FunctionExpression ps va body # concat (map exprs_in ps) @ concat (map stmt_exprs body)"
| "exprs_in (TableConstructor fs) = TableConstructor fs # concat (map field_exprs fs)"
| "field_exprs (TableKey k v) = exprs_in k @ exprs_in v"
| "field_exprs (TableKeyString k v) = exprs_in k @ exprs_in v"
| "field_exprs (TableValue v) = exprs_in v"
| "stmt_exprs (LocalStatement vs es) = concat (map exprs_in vs) @ concat (map exprs_in es)"
| "stmt_exprs (AssignmentStatement vs es) = concat (map exprs_in vs) @ concat (map exprs_in es)"
| "stmt_exprs (LocalFunctionStatement i ps va b) =
     exprs_in i @ concat (map exprs_in ps) @ concat (map stmt_exprs b)"
| "stmt_exprs (FunctionDeclaration n ps va b im) =
     exprs_in n @ concat (map exprs_in ps) @ concat (map stmt_exprs b)"
| "stmt_exprs (CallStatement e) = exprs_in e"
| "stmt_exprs (IfStatement cs el) =
     concat (map clause_exprs cs) @ (case map_option (map stmt_exprs) el of None \<Rightarrow> [] | Some es \<Rightarrow> concat es)"
| "stmt_exprs (WhileStatement c b) = exprs_in c @ concat (map stmt_exprs b)"
| "stmt_exprs (RepeatStatement c b) = exprs_in c @ concat (map stmt_exprs b)"
| "stmt_exprs (NumericForStatement v e1 e2 st b) =
     exprs_in v @ exprs_in e1 @ exprs_in e2 @
       (case map_option exprs_in st of None \<Rightarrow> [] | Some es \<Rightarrow> es) @ concat (map stmt_exprs b)"
| "stmt_exprs (GenericForStatement vs es b) =
     concat (map exprs_in vs) @ concat (map exprs_in es) @ concat (map stmt_exprs b)"
| "stmt_exprs (DoStatement b) = concat (map stmt_exprs b)"
| "stmt_exprs (ReturnStatement es) = concat (map exprs_in es)"
| "stmt_exprs BreakStatement = []"
| "stmt_exprs ContinueStatement = []"
| "stmt_exprs EmptyStatement = []"
| "clause_exprs (Clause c b) = exprs_in c @ concat (map stmt_exprs b)"

text \<open>A program that uses neither the accessor nor the table, and the number of its strings in the pool.\<close>

definition no_access :: "expr \<Rightarrow> bool" where
  "no_access e \<longleftrightarrow>
     (case e of
        CallExpression (Identifier f) [arg] \<Rightarrow> f \<noteq> units ''W''
      | IndexExpression (Identifier a) i \<Rightarrow> a \<noteq> units ''A''
      | _ \<Rightarrow> True)"

definition in_pool :: "byte_string list \<Rightarrow> expr \<Rightarrow> bool" where
  "in_pool pool e \<longleftrightarrow> (case e of StringLiteral b raw \<Rightarrow> b \<in> set pool | _ \<Rightarrow> False)"

definition plain_program :: "chunk \<Rightarrow> bool" where
  "plain_program c \<longleftrightarrow> (\<forall>e\<in>set (concat (map stmt_exprs c)). no_access e)"

definition pool_strings :: "byte_string list \<Rightarrow> chunk \<Rightarrow> nat" where
  "pool_strings pool c = length (filter (in_pool pool) (concat (map stmt_exprs c)))"

section \<open>One node\<close>

definition more :: "nat \<Rightarrow> string_state \<Rightarrow> string_state" where
  "more n st = st\<lparr>stringsInlined := stringsInlined st + n\<rparr>"

lemma more_simps [simp]: "more 0 st = st" "more m (more n st) = more (n + m) st"
  "failed (more n st) = failed st" "stringsInlined (more n st) = stringsInlined st + n"
  by (simp_all add: more_def)

definition recovers :: "(jsnum \<Rightarrow> jsnum \<Rightarrow> jsnum) \<Rightarrow> nat \<Rightarrow> byte_string list \<Rightarrow> wad \<Rightarrow> bool" where
  "recovers pow off pool ad \<longleftrightarrow>
     accessor_name ad = units ''W'' \<and> stringTable ad = pool \<and>
     (\<forall>k<length pool. resolveLookup ad (num (off + k + 1)) = Entry (pool ! k))"

lemma place_in_pool: "b \<in> set pool \<Longrightarrow> place pool b < length pool \<and> pool ! place pool b = b"
proof -
  assume b: "b \<in> set pool"
  then have l: "length (takeWhile (\<lambda>x. x \<noteq> b) pool) < length pool"
    by (metis (mono_tags, lifting) length_takeWhile_le le_neq_implies_less set_takeWhileD takeWhile_eq_all_conv takeWhile_eq_take take_all)
  from nth_length_takeWhile[OF this] l show ?thesis by (simp add: place_def)
qed

abbreviation recovering :: "(jsnum \<Rightarrow> jsnum \<Rightarrow> jsnum) \<Rightarrow> wad \<Rightarrow> string_state transformer" where
  "recovering pow ad \<equiv> string_transformer pow ad"

lemma table_lookup:
  assumes "k < length (stringTable ad)" and "length (stringTable ad) < 2 ^ 32"
  shows "index_result pow ad (number (k + 1)) = Some (stringTable ad ! k)"
proof -
  have "num_sub (num (k + 1)) (Num 1) = num k"
  proof -
    have "(of_nat (k + 1) + - 1 :: rat) = of_nat k" by simp
    then show ?thesis using assms round_double_nat[of k]
      by (simp only: num_sub_def num_neg_def num_add_def value_of_def) simp
  qed
  with assms(1) show ?thesis
    by (simp add: index_result_def number_def numericLiteral_def table_index_def elem_at_nat del: of_nat_Suc)
qed

lemma finish_other:
  "string_expr pow ad e s = (None, s) \<Longrightarrow> finish_expr (recovering pow ad) (e, s) = (e, s)"
  "finish_stmt (recovering pow ad) (st, s) = ([st], s)"
  by (simp_all add: finish_expr_def finish_stmt_def string_transformer_def)

lemma hidden_recovered:
  assumes "recovers pow off pool ad" and "b \<in> set pool" and "length pool < 2 ^ 32"
  shows "transform_expr (recovering pow ad) (hidden off direct pool b) s = (stringLiteral b [], more 1 s)"
proof -
  note p = place_in_pool[OF assms(2)]
  have "index_result pow ad (number (place pool b + 1)) = Some b"
    using table_lookup[of "place pool b" ad pow] assms(1,3) p by (simp add: recovers_def)
  moreover have "call_result pow ad (number (off + place pool b + 1)) = Entry b"
    using assms(1) p by (simp add: call_result_def recovers_def number_def numericLiteral_def)
  ultimately show ?thesis using assms(1)
    by (simp add: hidden_def K_def number_def numericLiteral_def finish_expr_def string_transformer_def string_expr_def
        inlined_def more_def recovers_def)
qed


text \<open>A node whose children came back is left alone.\<close>

definition restored :: "byte_string list \<Rightarrow> expr \<Rightarrow> expr" where
  "restored pool e = rewrite_expr (rewritten_top pool) keep e"

lemma restored_identifier: "restored pool e = Identifier n \<longleftrightarrow> e = Identifier n"
  by (cases e) (auto simp: restored_def rewritten_top_def stringLiteral_def)

lemma unchanged_top:
  "\<not> is_string e \<Longrightarrow> hide_top off direct pool e = e" "\<not> is_string e \<Longrightarrow> rewritten_top pool e = e"
  by (cases e; simp add: hide_top_def rewritten_top_def)+

lemma quiet_nodes:
  assumes "accessor_name ad = units ''W''"
  shows "no_access (CallExpression b args) \<Longrightarrow>
      string_expr pow ad (CallExpression (restored pool b) (map (restored pool) args)) s = (None, s)"
    and "no_access (IndexExpression b i) \<Longrightarrow>
      string_expr pow ad (IndexExpression (restored pool b) (restored pool i)) s = (None, s)"
  using assms restored_identifier[of pool b]
  by (auto simp: string_expr_def no_access_def split: expr.splits list.splits)

section \<open>The whole program\<close>

lemma block_append: "transform_block F (b1 @ b2) s =
    (case transform_block F b1 s of (b1', s1) \<Rightarrow> case transform_block F b2 s1 of (b2', s2) \<Rightarrow> (b1' @ b2', s2))"
  by (induction b1 arbitrary: s) (auto simp: split_beta)

lemma lists_come_back:
  "(\<And>e s. e \<in> set es \<Longrightarrow> transform_expr F (h e) s = (r e, more (length (filter P (f e))) s)) \<Longrightarrow>
    transform_exprs F (map h es) s = (map r es, more (length (filter P (concat (map f es)))) s)"
  "(\<And>x s. x \<in> set fs \<Longrightarrow> transform_field F (hf x) s = (rf x, more (length (filter P (ff x))) s)) \<Longrightarrow>
    transform_fields F (map hf fs) s = (map rf fs, more (length (filter P (concat (map ff fs)))) s)"
  "(\<And>st s. st \<in> set b \<Longrightarrow> transform_block F (hs st) s = (rs st, more (length (filter P (fs' st))) s)) \<Longrightarrow>
    transform_block F (concat (map hs b)) s = (concat (map rs b), more (length (filter P (concat (map fs' b)))) s)"
  "(\<And>c s. c \<in> set cs \<Longrightarrow> transform_clause F (hc c) s = (rc c, more (length (filter P (fc c))) s)) \<Longrightarrow>
    transform_clauses F (map hc cs) s = (map rc cs, more (length (filter P (concat (map fc cs)))) s)"
  subgoal by (induction es arbitrary: s) simp_all
  subgoal by (induction fs arbitrary: s) simp_all
  subgoal by (induction b arbitrary: s) (simp_all add: block_append)
  subgoal by (induction cs arbitrary: s) simp_all
  done

lemma finish_quiet [simp]:
  "finish_expr (recovering pow ad) (Identifier n, s) = (Identifier n, s)"
  "finish_expr (recovering pow ad) (NumericLiteral v raw, s) = (NumericLiteral v raw, s)"
  "finish_expr (recovering pow ad) (BooleanLiteral t, s) = (BooleanLiteral t, s)"
  "finish_expr (recovering pow ad) (NilLiteral, s) = (NilLiteral, s)"
  "finish_expr (recovering pow ad) (VarargLiteral t, s) = (VarargLiteral t, s)"
  "finish_expr (recovering pow ad) (UnaryExpression op a, s) = (UnaryExpression op a, s)"
  "finish_expr (recovering pow ad) (BinaryExpression op l r, s) = (BinaryExpression op l r, s)"
  "finish_expr (recovering pow ad) (LogicalExpression op l r, s) = (LogicalExpression op l r, s)"
  "finish_expr (recovering pow ad) (MethodCallExpression b m args, s) = (MethodCallExpression b m args, s)"
  "finish_expr (recovering pow ad) (MemberExpression b p, s) = (MemberExpression b p, s)"
  "finish_expr (recovering pow ad) (FunctionExpression ps va body, s) = (FunctionExpression ps va body, s)"
  "finish_expr (recovering pow ad) (TableConstructor fs, s) = (TableConstructor fs, s)"
  "finish_stmt (recovering pow ad) (st, s) = ([st], s)"
  by (simp_all add: finish_other string_expr_def)

lemma no_strings [simp]:
  "in_pool pool (Identifier n) = False"
  "in_pool pool (NumericLiteral v raw) = False"
  "in_pool pool (BooleanLiteral t) = False"
  "in_pool pool NilLiteral = False"
  "in_pool pool (VarargLiteral t) = False"
  "in_pool pool (UnaryExpression op a) = False"
  "in_pool pool (BinaryExpression op l r) = False"
  "in_pool pool (LogicalExpression op l r) = False"
  "in_pool pool (MethodCallExpression b m args) = False"
  "in_pool pool (MemberExpression b p) = False"
  "in_pool pool (FunctionExpression ps va body) = False"
  "in_pool pool (TableConstructor fs) = False"
  "in_pool pool (CallExpression b args) = False"
  "in_pool pool (IndexExpression b i) = False"
  by (simp_all add: in_pool_def)

lemma restored_abs: "map (restored pool) es = map (rewrite_expr (rewritten_top pool) keep) es"
  by (simp add: restored_def)

lemmas lists =
  lists_come_back(1)[where F = "recovering pow ad" and h = "rewrite_expr (hide_top off direct pool) keep"
    and r = "rewrite_expr (rewritten_top pool) keep" and P = "in_pool pool" and f = exprs_in]
  lists_come_back(2)[where F = "recovering pow ad" and hf = "rewrite_field (hide_top off direct pool) keep"
    and rf = "rewrite_field (rewritten_top pool) keep" and P = "in_pool pool" and ff = field_exprs]
  lists_come_back(3)[where F = "recovering pow ad" and hs = "rewrite_stmt (hide_top off direct pool) keep"
    and rs = "rewrite_stmt (rewritten_top pool) keep" and P = "in_pool pool" and fs' = stmt_exprs]
  lists_come_back(4)[where F = "recovering pow ad" and hc = "rewrite_clause (hide_top off direct pool) keep"
    and rc = "rewrite_clause (rewritten_top pool) keep" and P = "in_pool pool" and fc = clause_exprs]
  for pow ad off direct pool

lemma comes_back:
  assumes "recovers pow off pool ad" and "length pool < 2 ^ 32"
  shows "\<forall>x\<in>set (exprs_in e). no_access x \<Longrightarrow>
      transform_expr (recovering pow ad) (rewrite_expr (hide_top off direct pool) keep e) s =
        (restored pool e, more (length (filter (in_pool pool) (exprs_in e))) s)"
    and "\<forall>x\<in>set (field_exprs fl). no_access x \<Longrightarrow>
      transform_field (recovering pow ad) (rewrite_field (hide_top off direct pool) keep fl) s =
        (rewrite_field (rewritten_top pool) keep fl, more (length (filter (in_pool pool) (field_exprs fl))) s)"
    and "\<forall>x\<in>set (stmt_exprs st). no_access x \<Longrightarrow>
      transform_block (recovering pow ad) (rewrite_stmt (hide_top off direct pool) keep st) s =
        (rewrite_stmt (rewritten_top pool) keep st, more (length (filter (in_pool pool) (stmt_exprs st))) s)"
    and "\<forall>x\<in>set (clause_exprs c). no_access x \<Longrightarrow>
      transform_clause (recovering pow ad) (rewrite_clause (hide_top off direct pool) keep c) s =
        (rewrite_clause (rewritten_top pool) keep c, more (length (filter (in_pool pool) (clause_exprs c))) s)"
proof (induction e and fl and st and c arbitrary: s and s and s and s)
  case (StringLiteral b raw)
  then show ?case using hidden_recovered[OF assms(1) _ assms(2)]
    by (auto simp: hide_top_def rewritten_top_def restored_def in_pool_def finish_other string_expr_def)
next
  case (CallExpression b args)
  then show ?case using quiet_nodes(1)[of ad b args pow pool] assms(1)
    by (simp add: lists ball_Un unchanged_top restored_def recovers_def finish_other restored_abs)
next
  case (IndexExpression b i)
  then show ?case using quiet_nodes(2)[of ad b i pow pool] assms(1)
    by (simp add: lists ball_Un unchanged_top restored_def recovers_def finish_other)
next
  case (IfStatement cs el)
  then show ?case by (cases el) (simp_all add: lists ball_Un)
next
  case (NumericForStatement v e1 e2 o_step b)
  then show ?case by (cases o_step) (simp_all add: lists ball_Un restored_def)
qed (simp_all add: lists ball_Un unchanged_top restored_def)

text \<open>C22. String recovery undoes the hiding of strings: take a program that does not use the accessor or the table
  itself, move its strings that are in the pool into a protected script, reaching each by a call of the accessor or by
  an index of the table, as one likes; then extraction from the script and the inlining of the strings in the
  hidden program give the program back, its strings of the pool in the printer's form, and count them. The pool has
  at least twenty strings, the alphabet is of 64 letters, and rotations and offset are any.\<close>

theorem hidden_strings_come_back:
  assumes "letters chr" and "20 \<le> length pool" and "length pool < 2 ^ 32"
    and "in_table (length pool) ranges" and "off < 2 ^ 32" and "plain_program c"
  shows "\<exists>ad. extractAndDecode pow (protect chr ranges off body1 body2 (hide off direct pool c) pool) WeAreDevsAdapter =
      (ad, return True) \<and>
    recover_strings pow (Some ad) (hide off direct pool c) = return (rewritten pool c, pool_strings pool c)"
proof -
  from pool_recovered[OF assms(1-5), of pow body1 body2 "hide off direct pool c"] obtain ad where
    ad: "extractAndDecode pow (protect chr ranges off body1 body2 (hide off direct pool c) pool) WeAreDevsAdapter = (ad, return True)"
    and t: "stringTable ad = pool" and a: "accessorName ad = Some (units ''W'')"
    and l: "\<forall>k<length pool. resolveLookup ad (num (off + k + 1)) = Entry (pool ! k)"
    by (elim exE conjE) (rule that)
  have r: "recovers pow off pool ad"
    unfolding recovers_def by (intro conjI t l) (simp add: accessor_name_def a)
  have "transform_block (recovering pow ad) (hide off direct pool c) st =
      (rewritten pool c, more (pool_strings pool c) st)" for st
    unfolding hide_def rewritten_def pool_strings_def
    by (rule lists(3)) (use comes_back(3)[OF r assms(3)] assms(6) in \<open>auto simp: plain_program_def\<close>)
  moreover have "pool \<noteq> []" using assms(2) by auto
  ultimately have "recover_strings pow (Some ad) (hide off direct pool c) = return (rewritten pool c, pool_strings pool c)"
    by (simp add: recover_strings_def t)
  with ad show ?thesis by blast
qed

text \<open>A program with one string, reached by the accessor, and one that is not in the pool.\<close>

definition demo_program :: chunk where
  "demo_program =
     [CallStatement (CallExpression (K ''print'') [stringLiteral [5, 0, 255] [], stringLiteral [7] []])]"

theorem hidden_strings_come_back_witness:
  "\<exists>ad. extractAndDecode num_mul (protect (\<lambda>d. d + 64) [(1, 3)] 7 [] [] (hide 7 (\<lambda>b. False) demo_pool demo_program) demo_pool)
      WeAreDevsAdapter = (ad, return True) \<and>
    recover_strings num_mul (Some ad)
      [CallStatement (CallExpression (K ''print'') [CallExpression (K ''W'') [number 13], stringLiteral [7] []])] =
      return (demo_program, 1)"
proof -
  have r: "rewritten demo_pool demo_program = demo_program" "pool_strings demo_pool demo_program = 1"
    "hide 7 (\<lambda>b. False) demo_pool demo_program =
      [CallStatement (CallExpression (K ''print'') [CallExpression (K ''W'') [number 13], stringLiteral [7] []])]"
    by code_simp+
  have "plain_program demo_program" by code_simp
  with hidden_strings_come_back [of "\<lambda>d. d + 64" demo_pool "[(1, 3)]" 7 demo_program num_mul "[]" "[]" "\<lambda>b. False"] r demo_letters
  show ?thesis by (simp add: demo_pool_def in_table_def)
qed

end
