(* ===== verification/Alias_Recovery.thy ===== *)
theory Alias_Recovery
  imports Rewrite Traverse JS_Map Byte_String
begin

text \<open>
  Recovery of library aliases (\<open>packages/core/src/transforms/alias-recovery.js\<close> with the builtins of
  \<open>packages/core/src/analysis/alias.js\<close>): indexing the environment by the name of a builtin becomes
  the builtin, and a call of a local variable that was initialised with a library function or a
  builtin becomes a call of that function.
\<close>

definition STANDARD_BUILTINS :: "js_string list" where
  "STANDARD_BUILTINS = map units
     [''assert'', ''collectgarbage'', ''dofile'', ''error'', ''getfenv'', ''getmetatable'',
      ''ipairs'', ''load'', ''loadfile'', ''loadstring'', ''next'', ''pairs'', ''pcall'',
      ''print'', ''rawequal'', ''rawget'', ''rawset'', ''select'', ''setfenv'', ''setmetatable'',
      ''tonumber'', ''tostring'', ''type'', ''unpack'', ''xpcall'', ''_G'', ''_VERSION'',
      ''string'', ''table'', ''math'', ''os'', ''io'', ''debug'', ''coroutine'', ''bit32'', ''utf8'',
      ''game'', ''workspace'', ''script'', ''Instance'', ''Vector3'', ''CFrame'', ''Color3'',
      ''UDim2'', ''Enum'', ''task'', ''typeof'', ''warn'', ''tick'', ''time'', ''delay'', ''spawn'',
      ''wait'', ''newproxy'']"

section \<open>State\<close>

record alias_recovery =
  envVarNames :: "js_string list"
  knownAliases :: "(js_string, js_string) js_map"
  aliasesRecovered :: nat
  envLookupsResolved :: nat

definition AliasRecoveryTransform :: "js_string list option \<Rightarrow> alias_recovery" where
  "AliasRecoveryTransform names =
     \<lparr>envVarNames = (case names of None \<Rightarrow> [units ''A''] | Some ns \<Rightarrow> ns), knownAliases = [],
      aliasesRecovered = 0, envLookupsResolved = 0\<rparr>"

section \<open>Finding aliases\<close>

text \<open>The full name of a library function or a builtin.\<close>

definition alias_target :: "expr \<Rightarrow> js_string option" where
  "alias_target init =
     (case init of
        MemberExpression (Identifier b) (Identifier p) \<Rightarrow> Some (b @ 46 # p)
      | Identifier n \<Rightarrow> if n \<in> set STANDARD_BUILTINS then Some n else None
      | _ \<Rightarrow> None)"

definition note_alias :: "alias_recovery \<Rightarrow> expr \<times> expr \<Rightarrow> alias_recovery" where
  "note_alias r p =
     (case alias_target (snd p) of
        None \<Rightarrow> r
      | Some full \<Rightarrow>
          r\<lparr>knownAliases := (case node_name (fst p) of
               None \<Rightarrow> knownAliases r | Some n \<Rightarrow> map_set (knownAliases r) n full),
            aliasesRecovered := aliasesRecovered r + 1\<rparr>)"

definition note_aliases :: "node \<Rightarrow> alias_recovery \<Rightarrow> alias_recovery" where
  "note_aliases n r =
     (case n of
        Stmt (LocalStatement vs es) \<Rightarrow>
          if length vs = length es then foldl note_alias r (zip vs es) else r
      | _ \<Rightarrow> r)"

definition findAliases :: "chunk \<Rightarrow> alias_recovery \<Rightarrow> alias_recovery" where
  "findAliases c r = traverse_block (visiting note_aliases) c r"

section \<open>Rewriting uses\<close>

fun split_at :: "nat \<Rightarrow> js_string \<Rightarrow> js_string list" where
  "split_at d [] = [[]]"
| "split_at d (c # s) =
     (if c = d then [] # split_at d s
      else case split_at d s of w # ws \<Rightarrow> (c # w) # ws | [] \<Rightarrow> [[c]])"

definition builtin_expr :: "js_string \<Rightarrow> expr" where
  "builtin_expr name =
     (case split_at 46 name of
        [a, b] \<Rightarrow> MemberExpression (Identifier a) (Identifier b)
      | _ \<Rightarrow> Identifier name)"

definition env_lookup :: "alias_recovery \<Rightarrow> expr \<Rightarrow> js_string option" where
  "env_lookup r e =
     (case e of
        IndexExpression (Identifier a) (StringLiteral s raw) \<Rightarrow>
          let strVal = map unat s
          in if a \<in> set (envVarNames r) \<and> strVal \<in> set STANDARD_BUILTINS then Some strVal else None
      | _ \<Rightarrow> None)"

definition alias_call :: "alias_recovery \<Rightarrow> expr \<Rightarrow> expr option" where
  "alias_call r e =
     (case e of
        CallExpression (Identifier n) args \<Rightarrow>
          (case map_get (knownAliases r) n of
             None \<Rightarrow> None
           | Some full \<Rightarrow> Some (CallExpression (builtin_expr full) args))
      | _ \<Rightarrow> None)"

definition alias_expr :: "expr \<Rightarrow> alias_recovery \<Rightarrow> expr option \<times> alias_recovery" where
  "alias_expr e r =
     (case env_lookup r e of
        Some name \<Rightarrow> (Some (Identifier name), r\<lparr>envLookupsResolved := envLookupsResolved r + 1\<rparr>)
      | None \<Rightarrow> (alias_call r e, r))"

definition alias_transformer :: "alias_recovery transformer" where
  "alias_transformer = \<lparr>on_expr = alias_expr, on_stmt = (\<lambda>st r. (None, r))\<rparr>"

definition recover_aliases :: "chunk \<Rightarrow> alias_recovery \<Rightarrow> chunk \<times> alias_recovery" where
  "recover_aliases c r = transform_block alias_transformer c (findAliases c r)"

end
