(* ===== verification/Alias_Recovery_Props.thy ===== *)
theory Alias_Recovery_Props
  imports Alias_Recovery
begin

text \<open>Alias recovery does not look at scopes.\<close>

text \<open>Neither scope nor assignment is looked at: after \<open>local f = a.b; f = c\<close> the call \<open>f()\<close> becomes
  \<open>a.b()\<close>, for all names.\<close>

theorem alias_survives_assignment:
  assumes "46 \<notin> set a" and "46 \<notin> set b"
  shows "fst (recover_aliases
      [LocalStatement [Identifier f] [MemberExpression (Identifier a) (Identifier b)],
       AssignmentStatement [Identifier f] [Identifier c],
       CallStatement (CallExpression (Identifier f) [])] (AliasRecoveryTransform names)) =
    [LocalStatement [Identifier f] [MemberExpression (Identifier a) (Identifier b)],
     AssignmentStatement [Identifier f] [Identifier c],
     CallStatement (CallExpression (MemberExpression (Identifier a) (Identifier b)) [])]"
proof -
  have one: "split_at 46 y = [y]" if "46 \<notin> set y" for y using that by (induction y) auto
  have two: "split_at 46 (x @ 46 # y) = [x, y]" if "46 \<notin> set x" "46 \<notin> set y" for x y
    using that by (induction x) (auto simp: one)
  show ?thesis
    by (simp add: recover_aliases_def findAliases_def enter_visiting note_aliases_def note_alias_def
        alias_target_def AliasRecoveryTransform_def alias_transformer_def finish_expr_def finish_stmt_def
        alias_expr_def env_lookup_def alias_call_def map_get_def builtin_expr_def two assms)
qed

end
