(* ===== verification/Trace_Synthesis.thy ===== *)
theory Trace_Synthesis
  imports Alias_Recovery
begin

text \<open>
  The program that a trace is turned into (\<open>synthesizeAST\<close> of \<open>core/src/oracle/semantic-oracle.js\<close>).
  A trace is what the harness records: calls of the spied functions with their arguments, and the value the
  chunk returns. An argument carries its Lua type and the value read back from JSON; functions and userdata
  come back as \<open>null\<close>, tables as objects of their own, here numbered. The texts of a trace are kept as the
  bytes of the literal. Provenance, which only annotates nodes, is left out.
\<close>

datatype trace_arg =
  A_string js_string | A_number jsnum | A_boolean bool | A_nil | A_null string | A_table nat js_string

datatype event = CALL js_string "trace_arg list" | RETURN trace_arg

definition arg_type :: "trace_arg \<Rightarrow> string" where
  "arg_type a =
     (case a of A_string s \<Rightarrow> ''string'' | A_number n \<Rightarrow> ''number'' | A_boolean b \<Rightarrow> ''boolean''
      | A_nil \<Rightarrow> ''nil'' | A_null t \<Rightarrow> t | A_table i s \<Rightarrow> ''table'')"

text \<open>\<open>a.value === b.value\<close>.\<close>

definition same_value :: "trace_arg \<Rightarrow> trace_arg \<Rightarrow> bool" where
  "same_value a b =
     (case (a, b) of
        (A_string s, A_string t) \<Rightarrow> s = t
      | (A_number m, A_number n) \<Rightarrow> num_eq m n
      | (A_boolean p, A_boolean q) \<Rightarrow> p = q
      | (A_nil, A_nil) \<Rightarrow> True
      | (A_null t, A_null u) \<Rightarrow> True
      | (A_table i s, A_table j t) \<Rightarrow> i = j
      | _ \<Rightarrow> False)"

text \<open>\<open>String(a.value)\<close>.\<close>

definition value_text :: "trace_arg \<Rightarrow> js_string" where
  "value_text a =
     (case a of A_string s \<Rightarrow> s | A_number n \<Rightarrow> js_num_to_string n
      | A_boolean b \<Rightarrow> units (if b then ''true'' else ''false'')
      | A_nil \<Rightarrow> units ''undefined'' | A_null t \<Rightarrow> units ''null'' | A_table i s \<Rightarrow> s)"

section \<open>Nodes\<close>

abbreviation loop_var :: js_string where
  "loop_var \<equiv> units ''i''"

definition literal_of :: "trace_arg \<Rightarrow> expr" where
  "literal_of a =
     (case a of
        A_string s \<Rightarrow> stringLiteral (latin1 s) []
      | A_number n \<Rightarrow> numericLiteral n []
      | A_boolean b \<Rightarrow> BooleanLiteral b
      | A_nil \<Rightarrow> NilLiteral
      | _ \<Rightarrow> stringLiteral (latin1 (value_text a)) [])"

text \<open>With a variable: a number equal to its first value becomes the variable.\<close>

definition toExpr :: "(js_string \<times> jsnum) option \<Rightarrow> trace_arg \<Rightarrow> expr" where
  "toExpr var a =
     (case (var, a) of
        (Some (name, v0), A_number n) \<Rightarrow> if num_eq n v0 then Identifier name else literal_of a
      | _ \<Rightarrow> literal_of a)"

definition member_chain :: "js_string list \<Rightarrow> expr" where
  "member_chain parts =
     foldl (\<lambda>e p. MemberExpression e (Identifier p)) (Identifier (hd parts)) (tl parts)"

definition createCallStmt :: "(js_string \<times> jsnum) option \<Rightarrow> js_string \<Rightarrow> trace_arg list \<Rightarrow> stmt" where
  "createCallStmt var target args =
     CallStatement (CallExpression (member_chain (split_at 46 target)) (map (toExpr var) args))"

text \<open>\<open>toExpr(ev)\<close> of a return: its type is \<open>RETURN\<close>, no type of a value.\<close>

definition return_stmt :: "trace_arg \<Rightarrow> stmt" where
  "return_stmt a = ReturnStatement [stringLiteral (latin1 (value_text a)) []]"

section \<open>Loops\<close>

text \<open>The one argument that varies between two periods, as its event and its place; the inner option is none
  as long as all arguments agree, the outer one is none when the periods do not form a loop.\<close>

type_synonym varying = "(nat \<times> nat) option"

fun vary_args :: "nat \<Rightarrow> nat \<Rightarrow> trace_arg list \<Rightarrow> trace_arg list \<Rightarrow> varying \<Rightarrow> varying option" where
  "vary_args p a (x # xs) (y # ys) v =
     (if arg_type x \<noteq> arg_type y then None
      else if \<not> same_value x y then
        (if arg_type x = ''number'' \<and> (v = None \<or> v = Some (p, a)) then vary_args p (a + 1) xs ys (Some (p, a)) else None)
      else vary_args p (a + 1) xs ys v)"
| "vary_args p a xs ys v = Some v"

fun vary_period :: "nat \<Rightarrow> event list \<Rightarrow> event list \<Rightarrow> varying \<Rightarrow> varying option" where
  "vary_period p (CALL f xs # es) (CALL g ys # fs) v =
     (if f \<noteq> g \<or> length xs \<noteq> length ys then None
      else case vary_args p 0 xs ys v of None \<Rightarrow> None | Some w \<Rightarrow> vary_period (p + 1) es fs w)"
| "vary_period p (e # es) (f # fs) v = None"
| "vary_period p es fs v = Some v"

definition number_at :: "event list \<Rightarrow> nat \<times> nat \<Rightarrow> jsnum" where
  "number_at es w =
     (case es ! fst w of CALL f xs \<Rightarrow> (case xs ! snd w of A_number n \<Rightarrow> n | _ \<Rightarrow> NaN) | _ \<Rightarrow> NaN)"

text \<open>A later period repeats the first, with the expected number at the place that varies.\<close>

fun match_args :: "bool \<Rightarrow> nat \<Rightarrow> jsnum \<Rightarrow> nat \<Rightarrow> trace_arg list \<Rightarrow> trace_arg list \<Rightarrow> bool" where
  "match_args here w expected a (base # bs) (cur # cs) \<longleftrightarrow>
     (if here \<and> a = w then (case cur of A_number n \<Rightarrow> num_eq n expected | _ \<Rightarrow> False)
      else arg_type cur = arg_type base \<and> same_value cur base) \<and>
     match_args here w expected (a + 1) bs cs"
| "match_args here w expected a bs cs \<longleftrightarrow> True"

fun match_period :: "nat \<times> nat \<Rightarrow> jsnum \<Rightarrow> nat \<Rightarrow> event list \<Rightarrow> event list \<Rightarrow> bool" where
  "match_period w expected p (CALL f xs # es) (CALL g ys # fs) \<longleftrightarrow>
     f = g \<and> length xs = length ys \<and> match_args (p = fst w) (snd w) expected 0 xs ys \<and>
     match_period w expected (p + 1) es fs"
| "match_period w expected p (e # es) fs \<longleftrightarrow> False"
| "match_period w expected p [] fs \<longleftrightarrow> True"

definition period :: "nat \<Rightarrow> nat \<Rightarrow> event list \<Rightarrow> event list" where
  "period P n es = take P (drop (n * P) es)"

text \<open>The periods are at least one event long.\<close>

function iterations :: "nat \<Rightarrow> event list \<Rightarrow> nat \<times> nat \<Rightarrow> jsnum \<Rightarrow> jsnum \<Rightarrow> nat \<Rightarrow> nat" where
  "iterations P es w start step n =
     (if 0 < P \<and> (n + 1) * P \<le> length es \<and>
         match_period w (num_add start (num_mul (Num (of_nat n)) step)) 0 (period P 0 es) (period P n es)
      then iterations P es w start step (n + 1) else n)"
  by pat_completeness auto
termination
proof (relation "measure (\<lambda>(P, es, w, start, step, n). length es + 1 - n)", goal_cases)
  case (2 P es w start step n)
  then have "0 < P" "(n + 1) * P \<le> length es" by blast+
  then have "n + 1 \<le> length es" by (metis One_nat_def Suc_leI mult.right_neutral mult_le_mono2 order.trans)
  then show ?case by simp
qed simp

declare iterations.simps [simp del]

record loop_info =
  startValue :: jsnum
  endValue :: jsnum
  stepValue :: jsnum
  dynamicIterationsObserved :: nat

text \<open>A loop of period \<open>P\<close> at the front of the trace: its statement, its report and its events.\<close>

definition loop_body :: "nat \<times> nat \<Rightarrow> jsnum \<Rightarrow> event list \<Rightarrow> stmt list" where
  "loop_body w start es =
     map (\<lambda>(p, e). case e of
        CALL f xs \<Rightarrow> createCallStmt (if p = fst w then Some (loop_var, start) else None) f xs
      | RETURN a \<Rightarrow> return_stmt a) (enumerate 0 es)"

definition find_loop :: "nat \<Rightarrow> event list \<Rightarrow> (stmt \<times> loop_info \<times> nat) option" where
  "find_loop P es =
     (if P * 2 \<le> length es then
        (case vary_period 0 (period P 0 es) (period P 1 es) None of
           Some (Some w) \<Rightarrow>
             (let start = number_at (period P 0 es) w;
                  step = num_sub (number_at (period P 1 es) w) start
              in if num_eq step (Num 0) then None
                 else
                   let n = iterations P es w start step 2;
                       stop = num_add start (num_mul (Num (of_nat (n - 1))) step)
                   in Some (NumericForStatement (Identifier loop_var) (numericLiteral start []) (numericLiteral stop [])
                        (if num_eq step (Num 1) then None else Some (numericLiteral step []))
                        (loop_body w start (period P 0 es)),
                        \<lparr>startValue = start, endValue = stop, stepValue = step, dynamicIterationsObserved = n\<rparr>,
                        n * P))
         | _ \<Rightarrow> None)
      else None)"

fun first_loop :: "nat list \<Rightarrow> event list \<Rightarrow> (stmt \<times> loop_info \<times> nat) option" where
  "first_loop [] es = None"
| "first_loop (P # Ps) es = (case find_loop P es of Some r \<Rightarrow> Some r | None \<Rightarrow> first_loop Ps es)"

section \<open>The program\<close>

text \<open>A loop covers at least one event.\<close>

function synthesizeAST :: "event list \<Rightarrow> stmt list \<times> loop_info list" where
  "synthesizeAST [] = ([], [])"
| "synthesizeAST (e # es) =
     (case first_loop [1, 2, 3, 4] (e # es) of
        Some (st, info, k) \<Rightarrow>
          (case synthesizeAST (drop (k - 1) es) of (sts, infos) \<Rightarrow> (st # sts, info # infos))
      | None \<Rightarrow>
          (case synthesizeAST es of (sts, infos) \<Rightarrow>
             ((case e of CALL f xs \<Rightarrow> createCallStmt None f xs | RETURN a \<Rightarrow> return_stmt a) # sts, infos)))"
  by pat_completeness auto
termination by (relation "measure length") auto

section \<open>Comparing runs\<close>

text \<open>Two traces are compared by the properties \<open>type\<close>, \<open>value\<close>, \<open>id\<close> and \<open>path\<close> of their events; a call of the
  harness has none of them but its type.\<close>

datatype comparison = Match | Length_mismatch nat | Event_mismatch nat

definition equal_events :: "event \<Rightarrow> event \<Rightarrow> bool" where
  "equal_events a b =
     (case (a, b) of
        (CALL f xs, CALL g ys) \<Rightarrow> True
      | (RETURN x, RETURN y) \<Rightarrow> same_value x y
      | _ \<Rightarrow> False)"

fun compare_events :: "nat \<Rightarrow> event list \<Rightarrow> event list \<Rightarrow> comparison" where
  "compare_events i (a # as) (b # bs) = (if equal_events a b then compare_events (i + 1) as bs else Event_mismatch i)"
| "compare_events i as bs = Match"

definition compare_traces :: "event list \<Rightarrow> event list \<Rightarrow> comparison" where
  "compare_traces as bs =
     (if length as \<noteq> length bs then Length_mismatch (min (length as) (length bs)) else compare_events 0 as bs)"

text \<open>The runs of one source under several environments: whether all agree with the first, and its events. A run
  that failed has none.\<close>

definition differentialTrace :: "event list option list \<Rightarrow> bool \<times> event list" where
  "differentialTrace runs =
     (let events = (\<lambda>r. case r of None \<Rightarrow> [] | Some es \<Rightarrow> es); base = (case runs of [] \<Rightarrow> [] | r # rs \<Rightarrow> events r)
      in (list_all (\<lambda>r. compare_traces base (events r) = Match) (tl runs), base))"

end
