(* ===== verification/Trace_Props.thy ===== *)
theory Trace_Props
  imports Trace_Synthesis JS_Number_Props
begin

text \<open>
  What the synthesized program does. \<open>replay\<close> runs the statements of such a program: the calls it makes with
  their arguments, and the value it returns. A numeric loop runs over the values between its bounds, whose
  number is known before the first run.
\<close>

section \<open>Running a synthesized program\<close>

definition replay_arg :: "jsnum option \<Rightarrow> expr \<Rightarrow> trace_arg option" where
  "replay_arg i e =
     (case e of
        StringLiteral b r \<Rightarrow> Some (A_string (map unat b))
      | NumericLiteral n r \<Rightarrow> Some (A_number n)
      | BooleanLiteral b \<Rightarrow> Some (A_boolean b)
      | NilLiteral \<Rightarrow> Some A_nil
      | Identifier x \<Rightarrow> if x = loop_var then map_option A_number i else None
      | _ \<Rightarrow> None)"

text \<open>The name of a called function; in a loop the loop variable hides a global of its name.\<close>

fun chain_name :: "jsnum option \<Rightarrow> expr \<Rightarrow> js_string option" where
  "chain_name i (Identifier n) = (if i \<noteq> None \<and> n = loop_var then None else Some n)"
| "chain_name i (MemberExpression b (Identifier p)) = map_option (\<lambda>x. x @ 46 # p) (chain_name i b)"
| "chain_name i e = None"

definition replay_call :: "jsnum option \<Rightarrow> stmt \<Rightarrow> event option" where
  "replay_call i st =
     (case st of
        CallStatement (CallExpression b args) \<Rightarrow>
          (case (chain_name i b, those (map (replay_arg i) args)) of
             (Some f, Some xs) \<Rightarrow> Some (CALL f xs) | _ \<Rightarrow> None)
      | ReturnStatement [e] \<Rightarrow> map_option RETURN (replay_arg i e)
      | _ \<Rightarrow> None)"

definition loop_values :: "jsnum \<Rightarrow> jsnum \<Rightarrow> jsnum \<Rightarrow> jsnum list" where
  "loop_values start stop step =
     (case (start, stop, step) of
        (Num a, Num b, Num s) \<Rightarrow> map (\<lambda>k. Num (a + of_nat k * s)) [0..<nat (\<lfloor>(b - a) / s\<rfloor> + 1)]
      | _ \<Rightarrow> [])"

definition step_value :: "expr option \<Rightarrow> jsnum option" where
  "step_value e = (case e of None \<Rightarrow> Some (Num 1) | Some (NumericLiteral s r) \<Rightarrow> Some s | _ \<Rightarrow> None)"

definition replay_stmt :: "stmt \<Rightarrow> event list option" where
  "replay_stmt st =
     (case st of
        NumericForStatement v (NumericLiteral a r) (NumericLiteral b r') e body \<Rightarrow>
          (case step_value e of
             None \<Rightarrow> None
           | Some s \<Rightarrow> map_option concat (those (map (\<lambda>i. those (map (replay_call (Some i)) body)) (loop_values a b s))))
      | _ \<Rightarrow> map_option (\<lambda>e. [e]) (replay_call None st))"

definition replay :: "stmt list \<Rightarrow> event list option" where
  "replay sts = map_option concat (those (map replay_stmt sts))"

section \<open>Plain traces\<close>

definition small_number :: "jsnum \<Rightarrow> bool" where
  "small_number n \<longleftrightarrow> (\<exists>k. n = Num (of_int k) \<and> \<bar>k\<bar> \<le> 2 ^ 40)"

lemma small_int: "small_number (Num (of_int k)) \<longleftrightarrow> \<bar>k\<bar> \<le> 2 ^ 40"
  by (auto simp: small_number_def)

definition plain_arg :: "trace_arg \<Rightarrow> bool" where
  "plain_arg a \<longleftrightarrow>
     (case a of A_string s \<Rightarrow> list_all (\<lambda>u. u < 256) s | A_number n \<Rightarrow> small_number n
      | A_boolean b \<Rightarrow> True | A_nil \<Rightarrow> True | _ \<Rightarrow> False)"

definition numbers :: "trace_arg list \<Rightarrow> jsnum list" where
  "numbers xs = concat (map (\<lambda>a. case a of A_number n \<Rightarrow> [n] | _ \<Rightarrow> []) xs)"

text \<open>A call with arguments a literal can hold, whose numbers are different integers, of a function that the
  loop variable does not hide.\<close>

definition plain_event :: "event \<Rightarrow> bool" where
  "plain_event e \<longleftrightarrow> (case e of
     CALL f xs \<Rightarrow> list_all plain_arg xs \<and> distinct (numbers xs) \<and> hd (split_at 46 f) \<noteq> loop_var
   | RETURN a \<Rightarrow> False)"

lemma plain_event_call: "plain_event e \<Longrightarrow> \<exists>f xs. e = CALL f xs \<and> list_all plain_arg xs \<and> distinct (numbers xs) \<and>
    hd (split_at 46 f) \<noteq> loop_var"
  by (cases e) (simp_all add: plain_event_def)

lemma small_eq: "small_number m \<Longrightarrow> small_number n \<Longrightarrow> num_eq m n \<longleftrightarrow> m = n"
  by (auto simp: small_number_def num_eq_def value_of_def)

lemma same_iff: "plain_arg x \<Longrightarrow> plain_arg y \<Longrightarrow> arg_type x = arg_type y \<and> same_value x y \<longleftrightarrow> x = y"
  by (auto simp: plain_arg_def arg_type_def same_value_def small_eq split: trace_arg.splits)

lemma number_type: "plain_arg x \<Longrightarrow> arg_type x = ''number'' \<longleftrightarrow> (\<exists>n. x = A_number n)"
  by (auto simp: plain_arg_def arg_type_def split: trace_arg.splits)

lemma small_arith:
  assumes "\<bar>k\<bar> \<le> 2 ^ 40" and "\<bar>l\<bar> \<le> 2 ^ 40"
  shows "num_sub (Num (of_int k)) (Num (of_int l)) = Num (of_int (k - l))"
  using round_double_int[of "k - l"] round_double_int[of k] assms
  by (auto simp: num_sub_def num_neg_def num_add_def value_of_def)

lemma progression_value:
  assumes "0 < n" and "\<bar>k\<bar> \<le> 2 ^ 40" and "\<bar>k + (int n - 1) * d\<bar> \<le> 2 ^ 40" and "\<bar>d\<bar> \<le> 2 ^ 41"
  shows "num_add (Num (of_int k)) (num_mul (Num (of_nat n)) (Num (of_int d))) = Num (of_int (k + int n * d))"
proof (cases "d = 0")
  case True
  have "round_double (of_int k) = Num (of_int k)" by (rule round_double_int) (use assms in simp)
  then show ?thesis using True assms(1)
    by (simp add: num_mul_def isFinite_def is_zero_def signed_zero_def is_neg_def num_add_def value_of_def)
next
  case False
  have nd: "\<bar>int n * d\<bar> < 2 ^ 43"
  proof -
    have "(int n - 1) * d = int n * d - d" by (simp add: algebra_simps)
    with assms(2-4) show ?thesis by simp
  qed
  have "round_double (of_int (int n * d)) = Num (of_int (int n * d))" by (rule round_double_int) (use nd in simp)
  moreover have "round_double (of_int (k + int n * d)) = Num (of_int (k + int n * d))"
    by (rule round_double_int) (use nd assms(2) in simp)
  ultimately show ?thesis using False assms(1)
    by (simp add: num_mul_def isFinite_def is_zero_def num_add_def value_of_def)
qed

section \<open>Reading a program back\<close>

lemma those_map: "list_all2 (\<lambda>x y. g x = Some y) xs ys \<Longrightarrow> those (map g xs) = Some ys"
  by (induction rule: list_all2_induct) auto

lemma latin1_back: "list_all (\<lambda>u. u < 256) s \<Longrightarrow> map unat (latin1 s) = s"
  by (induction s) (auto simp: latin1_def unat_of_nat)

lemma replay_literal: "plain_arg a \<Longrightarrow> replay_arg i (literal_of a) = Some a"
  by (cases a) (auto simp: plain_arg_def literal_of_def replay_arg_def stringLiteral_def numericLiteral_def latin1_back)

lemma chain_foldl: "chain_name i e = Some x \<Longrightarrow>
    chain_name i (foldl (\<lambda>e p. MemberExpression e (Identifier p)) e ws) = Some (x @ concat (map ((#) 46) ws))"
  by (induction ws arbitrary: e x) simp_all

lemma split_at_joins: "split_at d f \<noteq> [] \<and> hd (split_at d f) @ concat (map ((#) d) (tl (split_at d f))) = f"
  by (induction f) (auto split: list.splits)

lemma chain_of_split: "hd (split_at 46 f) \<noteq> loop_var \<Longrightarrow> chain_name i (member_chain (split_at 46 f)) = Some f"
  using split_at_joins[of 46 f] by (simp add: member_chain_def chain_foldl)

lemma replay_createCall:
  assumes "list_all2 (\<lambda>x y. replay_arg i (toExpr var x) = Some y) xs ys" and "hd (split_at 46 f) \<noteq> loop_var"
  shows "replay_call i (createCallStmt var f xs) = Some (CALL f ys)"
proof -
  have "those (map (replay_arg i \<circ> toExpr var) xs) = Some ys" by (rule those_map) (use assms in simp)
  then show ?thesis using assms(2) by (simp add: replay_call_def createCallStmt_def chain_of_split)
qed

lemma replay_plain_call: "list_all plain_arg xs \<Longrightarrow> hd (split_at 46 f) \<noteq> loop_var \<Longrightarrow> replay_call i (createCallStmt None f xs) = Some (CALL f xs)"
  by (rule replay_createCall) (auto simp: list_all2_same list_all_iff toExpr_def replay_literal)

section \<open>Periods\<close>

definition put :: "nat \<times> nat \<Rightarrow> jsnum \<Rightarrow> event list \<Rightarrow> event list" where
  "put w v es = (case es ! fst w of CALL f xs \<Rightarrow> es[fst w := CALL f (xs[snd w := A_number v])] | _ \<Rightarrow> es)"

definition past :: "nat \<Rightarrow> nat \<Rightarrow> varying \<Rightarrow> bool" where
  "past p a v = (case v of None \<Rightarrow> True | Some w \<Rightarrow> fst w < p \<or> fst w = p \<and> snd w < a)"

lemma vary_args_result:
  "vary_args p a xs ys v = Some v' \<Longrightarrow> length xs = length ys \<Longrightarrow> list_all plain_arg xs \<Longrightarrow> list_all plain_arg ys \<Longrightarrow>
   past p a v \<Longrightarrow>
   v' = v \<and> ys = xs \<or> v = None \<and> (\<exists>j m n. j < length xs \<and> v' = Some (p, a + j) \<and> xs ! j = A_number m \<and> ys = xs[j := A_number n])"
proof (induction xs arbitrary: a ys v)
  case (Cons x xs)
  from Cons.prems(2) obtain y zs where ys: "ys = y # zs" "length xs = length zs" by (cases ys) auto
  have pl: "plain_arg x" "plain_arg y" "list_all plain_arg xs" "list_all plain_arg zs"
    using Cons.prems(3,4) ys by simp_all
  show ?case
  proof (cases "x = y")
    case True
    then have rest: "vary_args p (a + 1) xs zs v = Some v'" using Cons.prems(1) ys same_iff[OF pl(1,2)] by simp
    have p: "past p (a + 1) v" using Cons.prems(5) by (cases v) (auto simp: past_def)
    from Cons.IH[OF rest ys(2) pl(3,4) p] show ?thesis
    proof (elim disjE conjE exE)
      fix j m n
      assume "v = None" "j < length xs" "v' = Some (p, a + 1 + j)" "xs ! j = A_number m" "zs = xs[j := A_number n]"
      then show ?thesis using True ys(1) by (intro disjI2 conjI exI[of _ "Suc j"] exI[of _ m] exI[of _ n]) simp_all
    qed (use True ys(1) in simp)
  next
    case False
    then have ns: "\<not> (arg_type x = arg_type y \<and> same_value x y)" using same_iff[OF pl(1,2)] by simp
    then have d: "arg_type x = arg_type y" "arg_type x = ''number''"
      using Cons.prems(1) by (auto simp: ys(1) split: if_splits)
    have v: "v = None \<or> v = Some (p, a)" "vary_args p (a + 1) xs zs (Some (p, a)) = Some v'"
      using Cons.prems(1) ns d by (auto simp: ys(1) split: if_splits)
    from v(1) Cons.prems(5) have v0: "v = None" by (auto simp: past_def)
    obtain m n where mn: "x = A_number m" "y = A_number n" using d number_type pl(1,2) by metis
    have p: "past p (a + 1) (Some (p, a))" by (simp add: past_def)
    from Cons.IH[OF v(2) ys(2) pl(3,4) p] have "v' = Some (p, a) \<and> zs = xs" by simp
    with v0 mn ys(1) show ?thesis by (intro disjI2 conjI exI[of _ 0] exI[of _ m] exI[of _ n]) simp_all
  qed
qed simp

lemma vary_period_result:
  "vary_period p es fs v = Some v' \<Longrightarrow> length es = length fs \<Longrightarrow> list_all plain_event es \<Longrightarrow> list_all plain_event fs \<Longrightarrow>
   past p 0 v \<Longrightarrow>
   v' = v \<and> fs = es \<or> v = None \<and> (\<exists>i j f xs m n. i < length es \<and> v' = Some (p + i, j) \<and> es ! i = CALL f xs \<and>
     j < length xs \<and> xs ! j = A_number m \<and> fs = es[i := CALL f (xs[j := A_number n])])"
proof (induction es arbitrary: p fs v)
  case (Cons e es)
  from Cons.prems(2) obtain e' gs where fs: "fs = e' # gs" "length es = length gs" by (cases fs) auto
  from Cons.prems(3,4) fs obtain f xs g ys where c: "e = CALL f xs" "e' = CALL g ys"
    "list_all plain_arg xs" "list_all plain_arg ys"
    by (auto simp: plain_event_def split: event.splits)
  have pl: "list_all plain_event es" "list_all plain_event gs" using Cons.prems(3,4) fs by simp_all
  have fg: "f = g" "length xs = length ys" using Cons.prems(1) by (simp_all add: fs c split: if_splits)
  obtain w where w: "vary_args p 0 xs ys v = Some w" "vary_period (p + 1) es gs w = Some v'"
    using Cons.prems(1) by (auto simp: fs c split: if_splits option.splits)
  from vary_args_result[OF w(1) fg(2) c(3,4) Cons.prems(5)] show ?case
  proof (elim disjE conjE exE)
    assume same: "w = v" "ys = xs"
    have "past (p + 1) 0 w" using Cons.prems(5) same by (cases v) (auto simp: past_def)
    from Cons.IH[OF w(2) fs(2) pl this] show ?thesis
    proof (elim disjE conjE exE)
      fix i j h zs m n
      assume "w = None" "i < length es" "v' = Some (p + 1 + i, j)" "es ! i = CALL h zs" "j < length zs" "zs ! j = A_number m"
        "gs = es[i := CALL h (zs[j := A_number n])]"
      then show ?thesis using same fg(1) fs(1) c(1,2)
        by (intro disjI2 conjI exI[of _ "Suc i"] exI[of _ j] exI[of _ h] exI[of _ zs] exI[of _ m] exI[of _ n]) simp_all
    qed (use same fg(1) fs(1) c(1,2) in simp)
  next
    fix j m n
    assume one: "v = None" "j < length xs" "w = Some (p, 0 + j)" "xs ! j = A_number m" "ys = xs[j := A_number n]"
    have "past (p + 1) 0 w" using one by (simp add: past_def)
    from Cons.IH[OF w(2) fs(2) pl this] one have "v' = w \<and> gs = es" by simp
    with one fg(1) fs(1) c(1,2) show ?thesis
      by (intro disjI2 conjI exI[of _ 0] exI[of _ j] exI[of _ f] exI[of _ xs] exI[of _ m] exI[of _ n]) simp_all
  qed
qed simp

lemma num_eq_int: "small_number m \<Longrightarrow> num_eq m (Num (of_int z)) \<longleftrightarrow> m = Num (of_int z)"
  by (auto simp: small_number_def num_eq_def value_of_def)

lemma match_args_result:
  "match_args here w (Num (of_int z)) a xs ys \<Longrightarrow> length xs = length ys \<Longrightarrow> list_all plain_arg xs \<Longrightarrow> list_all plain_arg ys \<Longrightarrow>
   ys = (if here \<and> a \<le> w \<and> w < a + length xs then xs[w - a := A_number (Num (of_int z))] else xs)"
proof (induction xs arbitrary: a ys)
  case (Cons x xs)
  from Cons.prems(2) obtain y zs where ys: "ys = y # zs" "length xs = length zs" by (cases ys) auto
  have pl: "plain_arg x" "plain_arg y" "list_all plain_arg xs" "list_all plain_arg zs"
    using Cons.prems(3,4) ys by simp_all
  have rest: "zs = (if here \<and> a + 1 \<le> w \<and> w < a + 1 + length xs then xs[w - (a + 1) := A_number (Num (of_int z))] else xs)"
    by (rule Cons.IH[OF _ ys(2) pl(3,4)]) (use Cons.prems(1) ys(1) in simp)
  show ?case
  proof (cases "here \<and> a = w")
    case True
    then obtain n where "y = A_number n" "num_eq n (Num (of_int z))"
      using Cons.prems(1) by (auto simp: ys(1) split: trace_arg.splits)
    then have "y = A_number (Num (of_int z))" using pl(2) num_eq_int by (simp add: plain_arg_def)
    with True rest show ?thesis by (simp add: ys(1))
  next
    case False
    then have "arg_type y = arg_type x \<and> same_value y x" using Cons.prems(1) by (simp add: ys(1))
    then have "y = x" using same_iff[OF pl(2,1)] by simp
    moreover have "w - a = Suc (w - (a + 1))" if "a + 1 \<le> w" using that by simp
    ultimately show ?thesis using False rest by (auto simp: ys(1))
  qed
qed simp

lemma match_period_result:
  "match_period w (Num (of_int z)) p es fs \<Longrightarrow> length es = length fs \<Longrightarrow> list_all plain_event es \<Longrightarrow> list_all plain_event fs \<Longrightarrow>
   (fst w < p \<longrightarrow> fs = es) \<and>
   (\<forall>i f xs. fst w = p + i \<longrightarrow> i < length es \<longrightarrow> es ! i = CALL f xs \<longrightarrow> snd w < length xs \<longrightarrow>
      fs = es[i := CALL f (xs[snd w := A_number (Num (of_int z))])])"
proof (induction es arbitrary: p fs)
  case (Cons e es)
  from Cons.prems(2) obtain e' gs where fs: "fs = e' # gs" "length es = length gs" by (cases fs) auto
  from Cons.prems(3,4) fs obtain f xs g ys where c: "e = CALL f xs" "e' = CALL g ys"
    "list_all plain_arg xs" "list_all plain_arg ys"
    by (auto simp: plain_event_def split: event.splits)
  have pl: "list_all plain_event es" "list_all plain_event gs" using Cons.prems(3,4) fs by simp_all
  have m: "f = g" "length xs = length ys" "match_args (p = fst w) (snd w) (Num (of_int z)) 0 xs ys"
    "match_period w (Num (of_int z)) (p + 1) es gs"
    using Cons.prems(1) by (simp_all add: fs(1) c(1,2))
  note here = match_args_result[OF m(3,2) c(3,4)]
  note later = Cons.IH[OF m(4) fs(2) pl]
  show ?case
  proof (intro conjI allI impI)
    assume "fst w < p"
    then show "fs = e # es" using later here m(1) by (simp add: fs(1) c(1,2))
  next
    fix i h zs
    assume a: "fst w = p + i" "i < length (e # es)" "(e # es) ! i = CALL h zs" "snd w < length zs"
    show "fs = (e # es)[i := CALL h (zs[snd w := A_number (Num (of_int z))])]"
    proof (cases i)
      case 0
      then show ?thesis using a later here m(1) by (simp add: fs(1) c(1,2))
    next
      case (Suc k)
      then have "gs = es[k := CALL h (zs[snd w := A_number (Num (of_int z))])]" using a later by simp
      then show ?thesis using a Suc here m(1) by (simp add: fs(1) c(1,2))
    qed
  qed
qed simp

lemma take_periods: "take (n * P) es = concat (map (\<lambda>m. period P m es) [0..<n])"
proof (induction n)
  case (Suc n)
  have "Suc n * P = n * P + P" by simp
  then have "take (Suc n * P) es = take (n * P) es @ take P (drop (n * P) es)" by (simp only: take_add)
  with Suc show ?case by (simp add: period_def)
qed simp

lemma period_length: "(m + 1) * P \<le> length es \<Longrightarrow> length (period P m es) = P"
  by (simp add: period_def)

lemma period_plain: "list_all plain_event es \<Longrightarrow> list_all plain_event (period P m es)"
  by (auto simp: period_def list_all_iff dest: in_set_takeD in_set_dropD)

lemma number_of_plain: "i < length es \<Longrightarrow> list_all plain_event es \<Longrightarrow> es ! i = CALL f xs \<Longrightarrow> j < length xs \<Longrightarrow>
    xs ! j = A_number n \<Longrightarrow> small_number n"
  by (auto simp: list_all_length plain_event_def plain_arg_def split: event.splits)
    (metis event.inject(1) trace_arg.simps(37))

section \<open>The loop\<close>

lemma put_Call: "es ! i = CALL f xs \<Longrightarrow> put (i, j) v es = es[i := CALL f (xs[j := A_number v])]"
  by (simp add: put_def)

lemma put_number: "i < length es \<Longrightarrow> es ! i = CALL f xs \<Longrightarrow> j < length xs \<Longrightarrow> number_at (put (i, j) v es) (i, j) = v"
  by (simp add: put_Call number_at_def)

lemma iterations_result:
  assumes "0 < P" and "list_all plain_event es"
    and site: "i < length (period P 0 es)" "period P 0 es ! i = CALL f xs" "j < length xs"
    and k: "\<bar>k\<bar> \<le> 2 ^ 40" and d: "\<bar>d\<bar> \<le> 2 ^ 41"
    and start: "2 \<le> n" "n * P \<le> length es"
      "\<forall>m<n. period P m es = put (i, j) (Num (of_int (k + int m * d))) (period P 0 es)"
    and N: "N = iterations P es (i, j) (Num (of_int k)) (Num (of_int d)) n"
  shows "2 \<le> N \<and> N * P \<le> length es \<and>
    (\<forall>m<N. period P m es = put (i, j) (Num (of_int (k + int m * d))) (period P 0 es))"
  using start N
proof (induction "length es + 1 - n" arbitrary: n rule: less_induct)
  case less
  let ?B = "period P 0 es"
  let ?e = "num_add (Num (of_int k)) (num_mul (Num (of_nat n)) (Num (of_int d)))"
  let ?c = "0 < P \<and> (n + 1) * P \<le> length es \<and> match_period (i, j) ?e 0 ?B (period P n es)"
  show ?case
  proof (cases ?c)
    case False
    then have "iterations P es (i, j) (Num (of_int k)) (Num (of_int d)) n = n"
      by (subst iterations.simps) (simp only: if_False)
    with less.prems(4) have "N = n" by (rule trans)
    show ?thesis unfolding \<open>N = n\<close> using less.prems(1-3) by (intro conjI)
  next
    case True
    have np: "n \<le> length es" using less.prems(2) assms(1)
      by (metis mult.right_neutral mult_le_mono2 One_nat_def Suc_leI order.trans)
    have last: "period P (n - 1) es = put (i, j) (Num (of_int (k + (int n - 1) * d))) ?B"
    proof -
      have "n - 1 < n" "int (n - 1) = int n - 1" using less.prems(1) by simp_all
      with less.prems(3) show ?thesis by metis
    qed
    have "i < length (period P (n - 1) es)"
      "period P (n - 1) es ! i = CALL f (xs[j := A_number (Num (of_int (k + (int n - 1) * d)))])"
      unfolding last using site by (simp_all add: put_Call)
    from number_of_plain[OF this(1) period_plain[OF assms(2)] this(2), of j] site(3)
    have "small_number (Num (of_int (k + (int n - 1) * d)))" by simp
    then have "\<bar>k + (int n - 1) * d\<bar> \<le> 2 ^ 40" unfolding small_int .
    then have e: "?e = Num (of_int (k + int n * d))"
      using progression_value[OF _ k _ d, of n] less.prems(1) by simp
    have lp: "length ?B = length (period P n es)"
      using True period_length[of n P es] period_length[of 0 P es] by simp
    have mp: "match_period (i, j) (Num (of_int (k + int n * d))) 0 ?B (period P n es)" using True unfolding e by blast
    have "period P n es = put (i, j) (Num (of_int (k + int n * d))) ?B"
      using match_period_result[OF mp lp period_plain[OF assms(2)] period_plain[OF assms(2)]] site
      by (simp add: put_Call)
    then have all: "\<forall>m<n + 1. period P m es = put (i, j) (Num (of_int (k + int m * d))) ?B"
      using less.prems(3) by (metis Suc_eq_plus1 less_Suc_eq)
    have N: "N = iterations P es (i, j) (Num (of_int k)) (Num (of_int d)) (n + 1)"
      unfolding less.prems(4) by (subst iterations.simps) (use True in \<open>simp only: if_True simp_thms\<close>)
    show ?thesis
      by (rule less.hyps[OF _ _ _ all N]) (use less.prems(1) True np in simp_all)
  qed
qed

lemma numbers_differ:
  "distinct (numbers xs) \<Longrightarrow> j < length xs \<Longrightarrow> k < length xs \<Longrightarrow> j \<noteq> k \<Longrightarrow> xs ! j = A_number m \<Longrightarrow> xs ! k = A_number n \<Longrightarrow> m \<noteq> n"
proof (induction xs arbitrary: j k)
  case (Cons x xs)
  have mem: "l < length xs \<Longrightarrow> xs ! l = A_number q \<Longrightarrow> q \<in> set (numbers xs)" for l q
    using nth_mem[of l xs] by (force simp: numbers_def)
  have split: "numbers (x # xs) = (case x of A_number q \<Rightarrow> [q] | _ \<Rightarrow> []) @ numbers xs" by (simp add: numbers_def)
  show ?case
    using Cons mem split by (cases j; cases k) (auto split: trace_arg.splits)
qed simp

lemma loop_body_runs:
  assumes "list_all plain_event B" and "i < length B" and "B ! i = CALL f xs" and "j < length xs" and "xs ! j = A_number start"
  shows "those (map (replay_call (Some v)) (loop_body (i, j) start B)) = Some (put (i, j) v B)"
proof (rule those_map, unfold list_all2_conv_all_nth, intro conjI allI impI)
  show "length (loop_body (i, j) start B) = length (put (i, j) v B)" using assms(3) by (simp add: loop_body_def put_Call)
  fix p
  assume "p < length (loop_body (i, j) start B)"
  then have p: "p < length B" by (simp add: loop_body_def)
  then obtain g ys where g: "B ! p = CALL g ys" and ys: "list_all plain_arg ys" "distinct (numbers ys)"
    and top: "hd (split_at 46 g) \<noteq> loop_var"
    using assms(1) plain_event_call[of "B ! p"] by (auto simp: list_all_length)
  have body: "loop_body (i, j) start B ! p = createCallStmt (if p = i then Some (loop_var, start) else None) g ys"
    using p g by (simp add: loop_body_def nth_enumerate_eq)
  show "replay_call (Some v) (loop_body (i, j) start B ! p) = Some (put (i, j) v B ! p)"
  proof (cases "p = i")
    case False
    then show ?thesis using body g assms(3) p replay_plain_call[OF ys(1) top] by (simp add: put_Call)
  next
    case True
    then have "g = f" "ys = xs" using g assms(3) by simp_all
    have s: "small_number start"
      using ys(1) \<open>ys = xs\<close> assms(4,5) by (auto simp: list_all_length plain_arg_def split: trace_arg.splits)
    have "replay_arg (Some v) (toExpr (Some (loop_var, start)) (xs ! k)) = Some (xs[j := A_number v] ! k)" if "k < length xs" for k
    proof (cases "k = j")
      case True
      then show ?thesis using assms(4,5) s small_eq[OF s s] by (simp add: toExpr_def replay_arg_def)
    next
      case False
      have pk: "plain_arg (xs ! k)" using ys(1) \<open>ys = xs\<close> that by (simp add: list_all_length)
      have "toExpr (Some (loop_var, start)) (xs ! k) = literal_of (xs ! k)"
      proof (cases "xs ! k")
        case (A_number n)
        then have "n \<noteq> start" using numbers_differ[of xs j k start n] ys(2) \<open>ys = xs\<close> assms(4,5) that False by simp
        moreover have "small_number n" using pk A_number by (simp add: plain_arg_def)
        ultimately show ?thesis using A_number small_eq s by (simp add: toExpr_def)
      qed (simp_all add: toExpr_def)
      with False replay_literal[OF pk] show ?thesis by simp
    qed
    then have "list_all2 (\<lambda>x y. replay_arg (Some v) (toExpr (Some (loop_var, start)) x) = Some y) xs (xs[j := A_number v])"
      by (simp add: list_all2_conv_all_nth)
    from replay_createCall[OF this top[unfolded \<open>g = f\<close>]] show ?thesis
      using body True \<open>g = f\<close> \<open>ys = xs\<close> assms(2,3) by (simp add: put_Call)
  qed
qed

lemma progression_loop:
  assumes "d \<noteq> 0" and "1 \<le> N"
  shows "loop_values (Num (of_int k)) (Num (of_int (k + (int N - 1) * d))) (Num (of_int d)) =
    map (\<lambda>m. Num (of_int (k + int m * d))) [0..<N]"
proof -
  have "(of_int (k + (int N - 1) * d) - of_int k) / (of_int d :: rat) = of_int (int N - 1)" using assms(1) by simp
  then have "nat (\<lfloor>(of_int (k + (int N - 1) * d) - of_int k) / (of_int d :: rat)\<rfloor> + 1) = N"
    using assms(2) by (simp only: floor_of_int)
  then show ?thesis by (simp add: loop_values_def)
qed

text \<open>What two periods that differ in one number look like.\<close>

lemma varying_periods:
  assumes "list_all plain_event es" and "P * 2 \<le> length es"
    and "vary_period 0 (period P 0 es) (period P 1 es) None = Some (Some w)"
  obtains i j f xs k l where "w = (i, j)" and "i < length (period P 0 es)" and "period P 0 es ! i = CALL f xs"
    and "j < length xs" and "xs ! j = A_number (Num (of_int k))" and "\<bar>k\<bar> \<le> 2 ^ 40" and "\<bar>l\<bar> \<le> 2 ^ 40"
    and "period P 1 es = put (i, j) (Num (of_int l)) (period P 0 es)"
proof -
  define B where "B = period P 0 es"
  have len: "length B = length (period P 1 es)"
    using period_length[of 0 P es] period_length[of 1 P es] assms(2) unfolding B_def by simp
  have pB: "list_all plain_event B" "list_all plain_event (period P 1 es)"
    by (simp_all add: B_def period_plain[OF assms(1)])
  from vary_period_result[OF assms(3)[folded B_def] len pB] obtain i j f xs m n where
    site: "i < length B" "B ! i = CALL f xs" "j < length xs" and w: "w = (i, j)"
    and m: "xs ! j = A_number m" and next1: "period P 1 es = B[i := CALL f (xs[j := A_number n])]"
    by (auto simp: past_def)
  have "small_number m" by (rule number_of_plain[OF site(1) pB(1) site(2,3) m])
  moreover have site1: "i < length (period P 1 es)" "period P 1 es ! i = CALL f (xs[j := A_number n])"
    unfolding next1 using site by simp_all
  from number_of_plain[OF site1(1) pB(2) site1(2), of j n] site(3) have "small_number n" by simp
  ultimately obtain k l where "m = Num (of_int k)" "\<bar>k\<bar> \<le> 2 ^ 40" "n = Num (of_int l)" "\<bar>l\<bar> \<le> 2 ^ 40"
    by (auto simp: small_number_def)
  then show thesis using site[unfolded B_def] w m next1 by (intro that[of i j f xs k l]) (simp_all add: put_Call B_def)
qed

text \<open>The periods of a found loop, and its last value.\<close>

lemma loop_periods:
  assumes plain: "list_all plain_event es" and P: "0 < P" "2 * P \<le> length es"
    and site: "i < length (period P 0 es)" "period P 0 es ! i = CALL f xs" "j < length xs"
    and m: "xs ! j = A_number (Num (of_int k))" and k: "\<bar>k\<bar> \<le> 2 ^ 40" and l: "\<bar>l\<bar> \<le> 2 ^ 40"
    and next1: "period P 1 es = put (i, j) (Num (of_int l)) (period P 0 es)"
    and N: "N = iterations P es (i, j) (Num (of_int k)) (Num (of_int (l - k))) 2"
  shows "2 \<le> N \<and> N * P \<le> length es \<and>
      (\<forall>q<N. period P q es = put (i, j) (Num (of_int (k + int q * (l - k)))) (period P 0 es))"
    and "num_add (Num (of_int k)) (num_mul (Num (of_nat (N - 1))) (Num (of_int (l - k)))) =
      Num (of_int (k + (int N - 1) * (l - k)))"
proof -
  let ?B = "period P 0 es"
  have d: "\<bar>l - k\<bar> \<le> 2 ^ 41" using k l by simp
  have "\<forall>q<2. period P q es = put (i, j) (Num (of_int (k + int q * (l - k)))) ?B"
  proof (intro allI impI)
    fix q :: nat assume "q < 2"
    then consider "q = 0" | "q = 1" by linarith
    then show "period P q es = put (i, j) (Num (of_int (k + int q * (l - k)))) ?B"
    proof cases
      case 1
      have "xs[j := A_number (Num (of_int k))] = xs" using m by (metis list_update_id)
      then have "put (i, j) (Num (of_int k)) ?B = ?B" using site(2) by (metis put_Call list_update_id)
      with 1 show ?thesis by simp
    next
      case 2
      show ?thesis unfolding 2 next1 by simp
    qed
  qed
  from iterations_result[OF P(1) plain site k d order_refl P(2) this N]
  show NN: "2 \<le> N \<and> N * P \<le> length es \<and>
      (\<forall>q<N. period P q es = put (i, j) (Num (of_int (k + int q * (l - k)))) ?B)" .
  then have "N - 2 < N" by simp
  with NN have p: "period P (N - 2) es = put (i, j) (Num (of_int (k + int (N - 2) * (l - k)))) ?B" by blast
  have "list_all plain_event (period P (N - 2) es)" by (rule period_plain[OF plain])
  from number_of_plain[OF _ this, of i f "xs[j := A_number (Num (of_int (k + int (N - 2) * (l - k))))]" j] site
  have "small_number (Num (of_int (k + int (N - 2) * (l - k))))" by (simp only: p put_Call[OF site(2)]) simp
  moreover have "int (N - 1) = int N - 1" "int (N - 2) = int (N - 1) - 1" using NN by simp_all
  ultimately show "num_add (Num (of_int k)) (num_mul (Num (of_nat (N - 1))) (Num (of_int (l - k)))) =
      Num (of_int (k + (int N - 1) * (l - k)))"
    using progression_value[OF _ k _ d, of "N - 1"] NN unfolding small_int by simp
qed

text \<open>The loop that is found runs through the events it stands for.\<close>

lemma found_loop_runs:
  assumes plain: "list_all plain_event es" and P: "0 < P" and found: "find_loop P es = Some (st, info, c)"
  shows "replay_stmt st = Some (take c es) \<and> 0 < c \<and> c \<le> length es"
proof -
  define B where "B = period P 0 es"
  obtain w where len: "P * 2 \<le> length es" and w: "vary_period 0 B (period P 1 es) None = Some (Some w)"
    using found by (auto simp: find_loop_def B_def split: if_splits option.splits)
  from varying_periods[OF plain len w[unfolded B_def], folded B_def] obtain i j f xs k l where
    wij: "w = (i, j)" and site: "i < length B" "B ! i = CALL f xs" "j < length xs" and m: "xs ! j = A_number (Num (of_int k))"
    and k: "\<bar>k\<bar> \<le> 2 ^ 40" and l: "\<bar>l\<bar> \<le> 2 ^ 40" and next1: "period P 1 es = put (i, j) (Num (of_int l)) B"
    by metis
  define d where "d = l - k"
  have start: "number_at B (i, j) = Num (of_int k)" "number_at (period P 1 es) (i, j) = Num (of_int l)"
    unfolding next1 using site m put_number[OF site] by (simp add: number_at_def, simp)
  have step: "num_sub (Num (of_int l)) (Num (of_int k)) = Num (of_int d)"
    unfolding d_def by (rule small_arith[OF l k])
  define N where "N = iterations P es (i, j) (Num (of_int k)) (Num (of_int d)) 2"
  define stop where "stop = num_add (Num (of_int k)) (num_mul (Num (of_nat (N - 1))) (Num (of_int d)))"
  note periods = loop_periods[OF plain P len[unfolded mult.commute[of P 2]] site[unfolded B_def] m k l
      next1[unfolded B_def] N_def[unfolded d_def], folded d_def B_def]
  define S where "S = NumericForStatement (Identifier loop_var) (numericLiteral (Num (of_int k)) [])
      (numericLiteral stop []) (if num_eq (Num (of_int d)) (Num 1) then None else Some (numericLiteral (Num (of_int d)) []))
      (loop_body (i, j) (Num (of_int k)) B)"
  have "find_loop P es = (if num_eq (Num (of_int d)) (Num 0) then None else Some (S,
      \<lparr>startValue = Num (of_int k), endValue = stop, stepValue = Num (of_int d), dynamicIterationsObserved = N\<rparr>, N * P))"
    unfolding find_loop_def S_def
    by (simp only: len if_True B_def[symmetric] w[unfolded wij] option.case start step Let_def N_def[symmetric]
        stop_def[symmetric])
  then have st: "c = N * P" "st = S" and "d \<noteq> 0"
    using found by (simp_all split: if_splits) (auto simp: num_eq_def value_of_def)
  have sv: "step_value (if num_eq (Num (of_int d)) (Num 1) then None else Some (numericLiteral (Num (of_int d)) [])) =
      Some (Num (of_int d))"
    by (auto simp: step_value_def numericLiteral_def num_eq_def value_of_def)
  have pB: "list_all plain_event B" by (simp add: B_def period_plain[OF plain])
  have "those (map (\<lambda>v. those (map (replay_call (Some v)) (loop_body (i, j) (Num (of_int k)) B)))
      (map (\<lambda>q. Num (of_int (k + int q * d))) [0..<N])) = Some (map (\<lambda>q. period P q es) [0..<N])"
    by (rule those_map)
      (use periods(1) loop_body_runs[OF pB site m] in \<open>auto simp: list_all2_conv_all_nth\<close>)
  then have "replay_stmt st = Some (concat (map (\<lambda>q. period P q es) [0..<N]))"
    using progression_loop[OF \<open>d \<noteq> 0\<close>, of N k] periods sv
    by (simp add: replay_stmt_def st(2) S_def numericLiteral_def stop_def)
  with periods(1) P st(1) show ?thesis by (simp only: take_periods) simp
qed

section \<open>The program\<close>

lemma first_loop_found: "first_loop Ps es = Some r \<Longrightarrow> \<exists>P\<in>set Ps. find_loop P es = Some r"
  by (induction Ps) (auto split: option.splits)

lemma replay_Cons: "replay_stmt st = Some xs \<Longrightarrow> replay sts = Some ys \<Longrightarrow> replay (st # sts) = Some (xs @ ys)"
  by (auto simp: replay_def)

lemma replay_single:
  assumes "plain_event e"
  shows "replay_stmt (case e of CALL f xs \<Rightarrow> createCallStmt None f xs | RETURN a \<Rightarrow> return_stmt a) = Some [e]"
proof -
  obtain f xs where e: "e = CALL f xs" "list_all plain_arg xs" "hd (split_at 46 f) \<noteq> loop_var"
    using plain_event_call[OF assms] by blast
  have "replay_call None (createCallStmt None f xs) = Some (CALL f xs)" by (rule replay_plain_call[OF e(2,3)])
  then show ?thesis by (simp add: e(1) replay_stmt_def createCallStmt_def)
qed

text \<open>C23. The program that is synthesized from a trace makes the calls of the trace: running it, loops included,
  gives the events back, in order and with their arguments. The trace has calls only, of functions that a loop
  variable \<open>i\<close> does not hide, with arguments that are constants; its numbers are integers of at most 40 bits, and
  the numbers in one call are different.\<close>

theorem synthesized_program_replays_trace:
  assumes "list_all plain_event es"
  shows "replay (fst (synthesizeAST es)) = Some es"
  using assms
proof (induction es rule: synthesizeAST.induct)
  case 1
  then show ?case by (simp add: replay_def)
next
  case (2 e es)
  show ?case
  proof (cases "first_loop [1, 2, 3, 4] (e # es)")
    case None
    have "replay (fst (synthesizeAST es)) = Some es" using 2(1)[OF None] 2(3) by simp
    moreover have "replay_stmt (case e of CALL f xs \<Rightarrow> createCallStmt None f xs | RETURN a \<Rightarrow> return_stmt a) = Some [e]"
      using replay_single[of e] 2(3) by simp
    ultimately show ?thesis using replay_Cons None by (fastforce simp: split_beta)
  next
    case (Some r)
    obtain st info c where r: "r = (st, info, c)" by (cases r)
    from first_loop_found[OF Some] obtain P where P: "P \<in> set [1, 2, 3, 4]" "find_loop P (e # es) = Some r" by blast
    have "0 < P" using P(1) by auto
    from found_loop_runs[OF 2(3) this P(2)[unfolded r]] have run: "replay_stmt st = Some (take c (e # es))" "0 < c" by simp_all
    have "list_all plain_event (drop (c - 1) es)" using 2(3) by (auto simp: list_all_iff dest: in_set_dropD)
    then have "replay (fst (synthesizeAST (drop (c - 1) es))) = Some (drop (c - 1) es)"
      using 2(2)[OF Some r[symmetric] refl] by simp
    from replay_Cons[OF run(1) this] have "replay (st # fst (synthesizeAST (drop (c - 1) es))) =
        Some (take c (e # es) @ drop (c - 1) es)" .
    moreover have "take c (e # es) @ drop (c - 1) es = e # es" using run(2) by (cases c) simp_all
    ultimately show ?thesis using Some r by (simp add: split_beta)
  qed
qed

text \<open>A trace with a loop and a call after it.\<close>

definition demo_trace :: "event list" where
  "demo_trace =
     [CALL (units ''print'') [A_number (Num 1), A_string (units ''a'')],
      CALL (units ''print'') [A_number (Num 3), A_string (units ''a'')], CALL (units ''warn'') [A_nil]]"

lemma step_numbers: "num_sub (Num 3) (Num 1) = Num 2" "num_sub (Num 2) (Num 1) = Num 1"
  "num_add (Num 1) (num_mul (Num 1) (Num 2)) = Num 3" "num_add (Num 1) (num_mul (Num 1) (Num 1)) = Num 2"
  using small_arith[of 3 1] small_arith[of 2 1] progression_value[of 1 1 2] progression_value[of 1 1 1] by simp_all

lemmas loop_eval = find_loop_def period_def number_at_def iterations.simps step_numbers num_eq_def value_of_def
  arg_type_def same_value_def Let_def loop_body_def createCallStmt_def member_chain_def toExpr_def literal_of_def

lemma demo_trace_loop: "length (fst (synthesizeAST demo_trace)) = 2"
  by (simp add: demo_trace_def loop_eval split_beta)

theorem synthesized_program_replays_trace_witness:
  "replay (fst (synthesizeAST demo_trace)) = Some demo_trace \<and> length (fst (synthesizeAST demo_trace)) = 2"
proof -
  have "small_number (Num 1)" "small_number (Num 3)" using small_int[of 1] small_int[of 3] by simp_all
  then have "list_all plain_event demo_trace"
    by (simp add: demo_trace_def plain_event_def plain_arg_def numbers_def)
  with demo_trace_loop show ?thesis using synthesized_program_replays_trace by blast
qed

text \<open>Every argument equal to the first value of the loop becomes the loop variable: after \<open>print(1, 1)\<close> and
  \<open>print(2, 1)\<close> the program prints \<open>1 1\<close> and \<open>2 2\<close>.\<close>

theorem equal_argument_follows_loop:
  "synthesizeAST [CALL (units ''print'') [A_number (Num 1), A_number (Num 1)],
     CALL (units ''print'') [A_number (Num 2), A_number (Num 1)]] =
   ([NumericForStatement (Identifier loop_var) (numericLiteral (Num 1) []) (numericLiteral (Num 2) []) None
      [CallStatement (CallExpression (Identifier (units ''print'')) [Identifier loop_var, Identifier loop_var])]],
    [\<lparr>startValue = Num 1, endValue = Num 2, stepValue = Num 1, dynamicIterationsObserved = 2\<rparr>])"
  by (simp add: loop_eval split_beta)

text \<open>A returned number comes back as a string.\<close>

theorem returned_number_becomes_string:
  "fst (synthesizeAST [RETURN (A_number n)]) = [ReturnStatement [stringLiteral (latin1 (js_num_to_string n)) []]]"
  by (simp add: find_loop_def return_stmt_def value_text_def)

text \<open>Runs that make the same number of calls agree, whatever they call and with whatever arguments: the
  comparison looks at none of it.\<close>

definition is_call_event :: "event \<Rightarrow> bool" where
  "is_call_event e = (case e of CALL f xs \<Rightarrow> True | RETURN a \<Rightarrow> False)"

lemma calls_compare: "list_all is_call_event as \<Longrightarrow> list_all is_call_event bs \<Longrightarrow> compare_events i as bs = Match"
  by (induction i as bs rule: compare_events.induct) (auto simp: is_call_event_def equal_events_def split: event.splits)

theorem runs_with_as_many_calls_match:
  assumes "\<forall>r\<in>set runs. \<exists>es. r = Some es \<and> list_all is_call_event es \<and> length es = n"
  shows "fst (differentialTrace runs)"
proof (cases runs)
  case (Cons r rs)
  with assms obtain b where b: "r = Some b" "list_all is_call_event b" "length b = n" by auto
  have "compare_traces b (case q of None \<Rightarrow> [] | Some es \<Rightarrow> es) = Match" if "q \<in> set rs" for q
  proof -
    from that have "q \<in> set runs" by (simp add: Cons)
    with assms obtain es where es: "q = Some es" "list_all is_call_event es" "length es = n" by blast
    then show ?thesis using b(3) calls_compare[OF b(2) es(2)] by (simp add: compare_traces_def)
  qed
  then show ?thesis by (simp add: differentialTrace_def Cons b(1) list_all_iff)
qed (simp add: differentialTrace_def)

theorem runs_with_as_many_calls_match_witness:
  "fst (differentialTrace [Some [CALL (units ''print'') [A_nil]], Some [CALL (units ''warn'') []]])"
  by (rule runs_with_as_many_calls_match[where n = 1]) (simp add: is_call_event_def)

end
