(* ===== verification/Cleanup.thy ===== *)
theory Cleanup
  imports Evaluator JS_Map
begin

text \<open>
  The cleanup passes (\<open>packages/core/src/transforms/cleanup.js\<close>): propagation of local constants,
  constant folding, removal of branches with a constant condition, removal of empty statements,
  repeated while something changes.
\<close>

section \<open>Local constants\<close>

definition constant_literal :: "expr \<Rightarrow> bool" where
  "constant_literal e \<longleftrightarrow> is_boolean e \<or> is_number e \<or> is_string e \<or> is_nil e"

type_synonym constants = "(js_string, expr) js_map"

text \<open>A variable is paired with the expression at its position, if there is one.\<close>

definition note_constant :: "constants \<Rightarrow> expr \<times> expr \<Rightarrow> constants" where
  "note_constant m p =
     (case node_name (fst p) of
        Some n \<Rightarrow> if constant_literal (snd p) then map_set m n (snd p) else m
      | None \<Rightarrow> m)"

definition constants_of :: "constants \<Rightarrow> stmt \<Rightarrow> constants" where
  "constants_of m st =
     (case st of LocalStatement vs es \<Rightarrow> foldl note_constant m (zip vs es) | _ \<Rightarrow> m)"

definition reassigned :: "stmt \<Rightarrow> js_string list" where
  "reassigned st = (case st of AssignmentStatement vs es \<Rightarrow> List.map_filter node_name vs | _ \<Rightarrow> [])"

definition findAssignments :: "stmt list \<Rightarrow> constants" where
  "findAssignments body =
     foldl map_delete (foldl constants_of [] body) (concat (map reassigned body))"

text \<open>
  The callback of \<open>propagateLocalConstants\<close> replaces an identifier by its constant. It sees the
  parent: identifiers that stand directly in a local statement, assigned variables and properties
  of a member expression are kept (\<open>kept_exprs\<close>, \<open>kept_expr\<close>).
\<close>

primrec subst_expr :: "constants \<Rightarrow> expr \<Rightarrow> expr"
and subst_field :: "constants \<Rightarrow> table_field \<Rightarrow> table_field"
and subst_stmt :: "constants \<Rightarrow> stmt \<Rightarrow> stmt"
and subst_clause :: "constants \<Rightarrow> clause \<Rightarrow> clause" where
  "subst_expr m (Identifier n) = (case map_get m n of None \<Rightarrow> Identifier n | Some e \<Rightarrow> e)"
| "subst_expr m (NumericLiteral v raw) = NumericLiteral v raw"
| "subst_expr m (StringLiteral s raw) = StringLiteral s raw"
| "subst_expr m (BooleanLiteral b) = BooleanLiteral b"
| "subst_expr m NilLiteral = NilLiteral"
| "subst_expr m (VarargLiteral b) = VarargLiteral b"
| "subst_expr m (UnaryExpression op a) = UnaryExpression op (subst_expr m a)"
| "subst_expr m (BinaryExpression op l r) = BinaryExpression op (subst_expr m l) (subst_expr m r)"
| "subst_expr m (LogicalExpression op l r) = LogicalExpression op (subst_expr m l) (subst_expr m r)"
| "subst_expr m (CallExpression b args) = CallExpression (subst_expr m b) (map (subst_expr m) args)"
| "subst_expr m (MethodCallExpression b q args) =
     MethodCallExpression (subst_expr m b) (subst_expr m q) (map (subst_expr m) args)"
| "subst_expr m (MemberExpression b q) =
     MemberExpression (subst_expr m b) (if is_identifier q then q else subst_expr m q)"
| "subst_expr m (IndexExpression b i) = IndexExpression (subst_expr m b) (subst_expr m i)"
| "subst_expr m (FunctionExpression ps va body) =
     FunctionExpression (map (subst_expr m) ps) va (map (subst_stmt m) body)"
| "subst_expr m (TableConstructor fs) = TableConstructor (map (subst_field m) fs)"
| "subst_field m (TableKey k v) = TableKey (subst_expr m k) (subst_expr m v)"
| "subst_field m (TableKeyString k v) = TableKeyString (subst_expr m k) (subst_expr m v)"
| "subst_field m (TableValue v) = TableValue (subst_expr m v)"
| "subst_stmt m (LocalStatement vs es) =
     LocalStatement (map (\<lambda>e. if is_identifier e then e else subst_expr m e) vs)
       (map (\<lambda>e. if is_identifier e then e else subst_expr m e) es)"
| "subst_stmt m (AssignmentStatement vs es) =
     AssignmentStatement (map (\<lambda>e. if is_identifier e then e else subst_expr m e) vs)
       (map (subst_expr m) es)"
| "subst_stmt m (LocalFunctionStatement i ps va b) =
     LocalFunctionStatement (subst_expr m i) (map (subst_expr m) ps) va (map (subst_stmt m) b)"
| "subst_stmt m (FunctionDeclaration n ps va b im) =
     FunctionDeclaration (subst_expr m n) (map (subst_expr m) ps) va (map (subst_stmt m) b) im"
| "subst_stmt m (CallStatement e) = CallStatement (subst_expr m e)"
| "subst_stmt m (IfStatement cs el) =
     IfStatement (map (subst_clause m) cs) (map_option (map (subst_stmt m)) el)"
| "subst_stmt m (WhileStatement c b) = WhileStatement (subst_expr m c) (map (subst_stmt m) b)"
| "subst_stmt m (RepeatStatement c b) = RepeatStatement (subst_expr m c) (map (subst_stmt m) b)"
| "subst_stmt m (NumericForStatement v e1 e2 st b) =
     NumericForStatement (subst_expr m v) (subst_expr m e1) (subst_expr m e2)
       (map_option (subst_expr m) st) (map (subst_stmt m) b)"
| "subst_stmt m (GenericForStatement vs es b) =
     GenericForStatement (map (subst_expr m) vs) (map (subst_expr m) es) (map (subst_stmt m) b)"
| "subst_stmt m (DoStatement b) = DoStatement (map (subst_stmt m) b)"
| "subst_stmt m (ReturnStatement es) = ReturnStatement (map (subst_expr m) es)"
| "subst_stmt m BreakStatement = BreakStatement"
| "subst_stmt m ContinueStatement = ContinueStatement"
| "subst_stmt m EmptyStatement = EmptyStatement"
| "subst_clause m (Clause c b) = Clause (subst_expr m c) (map (subst_stmt m) b)"

text \<open>The step of \<open>walkBlocks\<close> at a node with a body.\<close>

definition propagate_block :: "stmt list \<Rightarrow> stmt list" where
  "propagate_block body =
     (let consts = findAssignments body
      in if consts = [] then body else map (subst_stmt consts) body)"

text \<open>A constant has the size of an identifier, so the walk below ends.\<close>

definition literals_only :: "constants \<Rightarrow> bool" where
  "literals_only m \<longleftrightarrow> (\<forall>(n, e)\<in>set m. constant_literal e)"

lemma constant_literal_size: "constant_literal e \<Longrightarrow> size e = 0"
  by (cases e) (auto simp: constant_literal_def)

lemma literals_only_set: "literals_only m \<Longrightarrow> constant_literal e \<Longrightarrow> literals_only (map_set m n e)"
  by (induction m n e rule: map_set.induct) (auto simp: literals_only_def)

lemma literals_only_foldl: "literals_only m \<Longrightarrow> literals_only (foldl map_delete m ns)"
proof (induction ns arbitrary: m)
  case (Cons n ns)
  have "literals_only (map_delete m n)" using Cons.prems by (auto simp: literals_only_def map_delete_def)
  with Cons.IH show ?case by simp
qed simp

lemma literals_only_notes: "literals_only m \<Longrightarrow> literals_only (foldl note_constant m ps)"
  by (induction ps arbitrary: m) (simp_all add: note_constant_def literals_only_set split: option.split)

lemma findAssignments_literals: "literals_only (findAssignments body)"
proof -
  have "literals_only m \<Longrightarrow> literals_only (foldl constants_of m b)" for m b
    by (induction b arbitrary: m) (simp_all add: constants_of_def literals_only_notes split: stmt.split)
  from this[of "[]" body] have "literals_only (foldl constants_of [] body)" by (simp add: literals_only_def)
  then show ?thesis unfolding findAssignments_def by (rule literals_only_foldl)
qed

lemma size_list_same: "(\<And>x. x \<in> set xs \<Longrightarrow> size (f x) = size x) \<Longrightarrow> size_list (size \<circ> f) xs = size_list size xs"
  by (induction xs) (simp_all add: comp_def)

lemma subst_size:
  assumes m: "literals_only m"
  shows "size (subst_expr m e) = size e" and "size (subst_field m fl) = size fl"
    and "size (subst_stmt m st) = size st" and "size (subst_clause m c) = size c"
proof (induction e and fl and st and c)
  case (Identifier n)
  show ?case using m by (auto simp: literals_only_def dest!: map_get_mem constant_literal_size split: option.split)
next
  case (IfStatement cs el)
  then show ?case by (cases el) (simp_all add: size_list_same)
next
  case (NumericForStatement v e1 e2 st b)
  then show ?case by (cases st) (simp_all add: size_list_same)
qed (simp_all add: size_list_same)

lemma propagate_block_size [termination_simp]:
  "size_list size (propagate_block body) = size_list size body"
  by (simp add: propagate_block_def Let_def size_list_same subst_size findAssignments_literals)

function walk_expr :: "expr \<Rightarrow> expr"
and walk_exprs :: "expr list \<Rightarrow> expr list"
and walk_field :: "table_field \<Rightarrow> table_field"
and walk_fields :: "table_field list \<Rightarrow> table_field list"
and walk_stmt :: "stmt \<Rightarrow> stmt"
and walk_stmts :: "stmt list \<Rightarrow> stmt list"
and walk_clauses :: "clause list \<Rightarrow> clause list"
where
  "walk_expr (UnaryExpression op a) = UnaryExpression op (walk_expr a)"
| "walk_expr (BinaryExpression op l r) = BinaryExpression op (walk_expr l) (walk_expr r)"
| "walk_expr (LogicalExpression op l r) = LogicalExpression op (walk_expr l) (walk_expr r)"
| "walk_expr (CallExpression b args) = CallExpression (walk_expr b) (walk_exprs args)"
| "walk_expr (MethodCallExpression b q args) =
     MethodCallExpression (walk_expr b) (walk_expr q) (walk_exprs args)"
| "walk_expr (MemberExpression b q) = MemberExpression (walk_expr b) (walk_expr q)"
| "walk_expr (IndexExpression b i) = IndexExpression (walk_expr b) (walk_expr i)"
| "walk_expr (FunctionExpression ps va body) =
     FunctionExpression (walk_exprs ps) va (walk_stmts (propagate_block body))"
| "walk_expr (TableConstructor fs) = TableConstructor (walk_fields fs)"
| "walk_expr (Identifier n) = Identifier n"
| "walk_expr (NumericLiteral v raw) = NumericLiteral v raw"
| "walk_expr (StringLiteral s raw) = StringLiteral s raw"
| "walk_expr (BooleanLiteral b) = BooleanLiteral b"
| "walk_expr NilLiteral = NilLiteral"
| "walk_expr (VarargLiteral b) = VarargLiteral b"
| "walk_exprs [] = []"
| "walk_exprs (e # es) = walk_expr e # walk_exprs es"
| "walk_field (TableKey k v) = TableKey (walk_expr k) (walk_expr v)"
| "walk_field (TableKeyString k v) = TableKeyString (walk_expr k) (walk_expr v)"
| "walk_field (TableValue v) = TableValue (walk_expr v)"
| "walk_fields [] = []"
| "walk_fields (f # fs) = walk_field f # walk_fields fs"
| "walk_stmt (LocalStatement vs es) = LocalStatement (walk_exprs vs) (walk_exprs es)"
| "walk_stmt (AssignmentStatement vs es) = AssignmentStatement (walk_exprs vs) (walk_exprs es)"
| "walk_stmt (LocalFunctionStatement i ps va b) =
     LocalFunctionStatement (walk_expr i) (walk_exprs ps) va (walk_stmts (propagate_block b))"
| "walk_stmt (FunctionDeclaration n ps va b im) =
     FunctionDeclaration (walk_expr n) (walk_exprs ps) va (walk_stmts (propagate_block b)) im"
| "walk_stmt (CallStatement e) = CallStatement (walk_expr e)"
| "walk_stmt (IfStatement cs None) = IfStatement (walk_clauses cs) None"
| "walk_stmt (IfStatement cs (Some b)) = IfStatement (walk_clauses cs) (Some (walk_stmts b))"
| "walk_stmt (WhileStatement c b) = WhileStatement (walk_expr c) (walk_stmts (propagate_block b))"
| "walk_stmt (RepeatStatement c b) = RepeatStatement (walk_expr c) (walk_stmts (propagate_block b))"
| "walk_stmt (NumericForStatement v e1 e2 None b) =
     NumericForStatement (walk_expr v) (walk_expr e1) (walk_expr e2) None (walk_stmts (propagate_block b))"
| "walk_stmt (NumericForStatement v e1 e2 (Some e3) b) =
     NumericForStatement (walk_expr v) (walk_expr e1) (walk_expr e2) (Some (walk_expr e3))
       (walk_stmts (propagate_block b))"
| "walk_stmt (GenericForStatement vs es b) =
     GenericForStatement (walk_exprs vs) (walk_exprs es) (walk_stmts (propagate_block b))"
| "walk_stmt (DoStatement b) = DoStatement (walk_stmts (propagate_block b))"
| "walk_stmt (ReturnStatement es) = ReturnStatement (walk_exprs es)"
| "walk_stmt BreakStatement = BreakStatement"
| "walk_stmt ContinueStatement = ContinueStatement"
| "walk_stmt EmptyStatement = EmptyStatement"
| "walk_stmts [] = []"
| "walk_stmts (st # ss) = walk_stmt st # walk_stmts ss"
| "walk_clauses [] = []"
| "walk_clauses (Clause c b # cs) =
     Clause (walk_expr c) (walk_stmts (propagate_block b)) # walk_clauses cs"
  by pat_completeness auto
termination by lexicographic_order

text \<open>An identifier is only ever replaced by a literal, so something was replaced exactly when the
  tree is another one.\<close>

definition propagateLocalConstants :: "chunk \<Rightarrow> chunk \<times> bool" where
  "propagateLocalConstants c = (let c' = walk_stmts (propagate_block c) in (c', c' \<noteq> c))"

section \<open>Dead branches\<close>

record branch_state =
  eliminated :: nat
  branch_changed :: bool

definition count_branch :: "branch_state \<Rightarrow> branch_state" where
  "count_branch s = \<lparr>eliminated = eliminated s + 1, branch_changed = True\<rparr>"

text \<open>A branch that is always taken is spliced into the block in place of the statement. The parser
  yields no if statement without clauses.\<close>

definition branch_stmt :: "stmt \<Rightarrow> branch_state \<Rightarrow> stmt list option \<times> branch_state" where
  "branch_stmt st s =
     (case st of
        IfStatement (Clause (BooleanLiteral b) body # cs) el \<Rightarrow>
          if b then (Some body, count_branch s)
          else if cs \<noteq> [] then (Some [IfStatement cs el], count_branch s)
          else (case el of
                  Some (x # xs) \<Rightarrow> (Some (x # xs), count_branch s)
                | _ \<Rightarrow> (Some [EmptyStatement], count_branch s))
      | _ \<Rightarrow> (None, s))"

definition branch_transformer :: "branch_state transformer" where
  "branch_transformer = \<lparr>on_expr = (\<lambda>e s. (None, s)), on_stmt = branch_stmt\<rparr>"

definition eliminateDeadBranches :: "chunk \<Rightarrow> nat \<Rightarrow> chunk \<times> branch_state" where
  "eliminateDeadBranches c n =
     transform_block branch_transformer c \<lparr>eliminated = n, branch_changed = False\<rparr>"

section \<open>Empty statements\<close>

record empty_state =
  removed :: nat
  empty_changed :: bool

definition is_empty_stmt :: "stmt \<Rightarrow> bool" where
  "is_empty_stmt st \<longleftrightarrow> st = EmptyStatement \<or> st = DoStatement []"

definition cleanBlock :: "stmt list \<Rightarrow> empty_state \<Rightarrow> stmt list \<times> empty_state" where
  "cleanBlock ss s =
     (let n = length (filter is_empty_stmt ss)
      in (filter (\<lambda>st. \<not> is_empty_stmt st) ss,
          if n = 0 then s else \<lparr>removed = removed s + n, empty_changed = True\<rparr>))"

text \<open>The nodes with a body; clauses are no nodes and the block of an \<open>else\<close> is no body.\<close>

definition empty_expr :: "expr \<Rightarrow> empty_state \<Rightarrow> expr option \<times> empty_state" where
  "empty_expr e s =
     (case e of
        FunctionExpression ps va b \<Rightarrow>
          (case cleanBlock b s of (b', s') \<Rightarrow> (Some (FunctionExpression ps va b'), s'))
      | _ \<Rightarrow> (None, s))"

definition with_body :: "stmt \<Rightarrow> ((stmt list \<Rightarrow> stmt) \<times> stmt list) option" where
  "with_body st =
     (case st of
        LocalFunctionStatement i ps va b \<Rightarrow> Some (LocalFunctionStatement i ps va, b)
      | FunctionDeclaration n ps va b im \<Rightarrow> Some (\<lambda>b. FunctionDeclaration n ps va b im, b)
      | WhileStatement c b \<Rightarrow> Some (WhileStatement c, b)
      | RepeatStatement c b \<Rightarrow> Some (RepeatStatement c, b)
      | NumericForStatement v e1 e2 e3 b \<Rightarrow> Some (NumericForStatement v e1 e2 e3, b)
      | GenericForStatement vs es b \<Rightarrow> Some (GenericForStatement vs es, b)
      | DoStatement b \<Rightarrow> Some (DoStatement, b)
      | _ \<Rightarrow> None)"

definition empty_stmt :: "stmt \<Rightarrow> empty_state \<Rightarrow> stmt list option \<times> empty_state" where
  "empty_stmt st s =
     (case with_body st of
        None \<Rightarrow> (None, s)
      | Some (build, b) \<Rightarrow> (case cleanBlock b s of (b', s') \<Rightarrow> (Some [build b'], s')))"

definition empty_transformer :: "empty_state transformer" where
  "empty_transformer = \<lparr>on_expr = empty_expr, on_stmt = empty_stmt\<rparr>"

definition eliminateEmptyBlocks :: "chunk \<Rightarrow> nat \<Rightarrow> chunk \<times> empty_state" where
  "eliminateEmptyBlocks c n =
     (case transform_block empty_transformer c \<lparr>removed = n, empty_changed = False\<rparr> of
        (c', s) \<Rightarrow> cleanBlock c' s)"

section \<open>The passes together\<close>

record cleanup =
  cl_evaluator :: eval_stats
  passesRun :: nat
  deadBranchesEliminated :: nat
  emptyStatementsRemoved :: nat

definition CleanupPasses :: cleanup where
  "CleanupPasses =
     \<lparr>cl_evaluator = resetStats, passesRun = 0, deadBranchesEliminated = 0, emptyStatementsRemoved = 0\<rparr>"

text \<open>One round of the loop: the new tree, whether something changed, and the counters.\<close>

definition cleanup_round ::
  "(jsnum \<Rightarrow> jsnum \<Rightarrow> jsnum) \<Rightarrow> chunk \<Rightarrow> cleanup \<Rightarrow> chunk \<times> bool \<times> cleanup" where
  "cleanup_round pow c0 cl =
     (let (c1, ch1) = propagateLocalConstants c0;
          (c2, ev) = fold_chunk pow c1 (cl_evaluator cl);
          ch2 = (expressionsSimplified ev > expressionsSimplified (cl_evaluator cl));
          (c3, bs) = eliminateDeadBranches c2 (deadBranchesEliminated cl);
          (c4, es) = eliminateEmptyBlocks c3 (emptyStatementsRemoved cl)
      in (c4, ch1 \<or> ch2 \<or> branch_changed bs \<or> empty_changed es,
          cl\<lparr>cl_evaluator := ev, deadBranchesEliminated := eliminated bs,
             emptyStatementsRemoved := removed es\<rparr>))"

fun cleanup_loop ::
  "(jsnum \<Rightarrow> jsnum \<Rightarrow> jsnum) \<Rightarrow> nat \<Rightarrow> nat \<Rightarrow> chunk \<Rightarrow> cleanup \<Rightarrow> chunk \<times> cleanup" where
  "cleanup_loop pow 0 pass c cl = (c, cl\<lparr>passesRun := pass\<rparr>)"
| "cleanup_loop pow (Suc n) pass c cl =
     (case cleanup_round pow c cl of
        (c', changed, cl') \<Rightarrow>
          if changed then cleanup_loop pow n (pass + 1) c' cl' else (c', cl'\<lparr>passesRun := pass + 1\<rparr>))"

definition run_cleanup :: "(jsnum \<Rightarrow> jsnum \<Rightarrow> jsnum) \<Rightarrow> nat \<Rightarrow> chunk \<Rightarrow> cleanup \<Rightarrow> chunk \<times> cleanup" where
  "run_cleanup pow maxPasses c cl = cleanup_loop pow maxPasses 0 c cl"

end
