(* ===== verification/Lua_Semantics.thy ===== *)
theory Lua_Semantics
  imports Evaluator_Props Rewrite
begin

text \<open>
  A reference semantics of the trees: a block transforms a state with scoped local variables, global
  variables and a history of calls and stores. What the language leaves to the host or to
  metamethods (calls, indexing, tables, closures, iterators, the operators on other types) is a
  parameter; a call may change the values of the locals (through closures), but not declare any.
  Expressions yield one value. A while or repeat loop is cut off after \<open>rounds\<close> iterations.
\<close>

section \<open>States and outcomes\<close>

datatype event = Called lvalue "lvalue list" | Stored lvalue lvalue lvalue

record lua_state =
  locals :: "(js_string \<times> lvalue) list"
  globals :: "js_string \<Rightarrow> lvalue"
  history :: "event list"

datatype flow = Next lua_state | Broke lua_state | Continued lua_state
| Returned "lvalue list" lua_state | Failed | Cut_off

type_synonym block_meaning = "lua_state \<Rightarrow> flow"

definition lookup_var :: "lua_state \<Rightarrow> js_string \<Rightarrow> lvalue" where
  "lookup_var s n = (case map_of (locals s) n of Some v \<Rightarrow> v | None \<Rightarrow> globals s n)"

fun set_first :: "(js_string \<times> lvalue) list \<Rightarrow> js_string \<Rightarrow> lvalue \<Rightarrow> (js_string \<times> lvalue) list" where
  "set_first [] n v = []"
| "set_first ((m, w) # ls) n v = (if m = n then (m, v) # ls else (m, w) # set_first ls n v)"

definition assign_var :: "lua_state \<Rightarrow> js_string \<Rightarrow> lvalue \<Rightarrow> lua_state" where
  "assign_var s n v =
     (if n \<in> fst ` set (locals s) then s\<lparr>locals := set_first (locals s) n v\<rparr>
      else s\<lparr>globals := (globals s)(n := v)\<rparr>)"

definition declare_var :: "js_string option \<Rightarrow> lvalue \<Rightarrow> lua_state \<Rightarrow> lua_state" where
  "declare_var n v s = (case n of None \<Rightarrow> s | Some m \<Rightarrow> s\<lparr>locals := (m, v) # locals s\<rparr>)"

definition record_event :: "event \<Rightarrow> lua_state \<Rightarrow> lua_state" where
  "record_event ev s = s\<lparr>history := history s @ [ev]\<rparr>"

section \<open>Meanings of expressions\<close>

text \<open>An expression has a value; a variable has a name, an access to a table the pair of table and key.\<close>

type_synonym 'a compute = "lua_state \<Rightarrow> ('a \<times> lua_state) option"

record expr_meaning =
  name :: "js_string option"
  place :: "(lvalue \<times> lvalue) compute option"
  val :: "lvalue compute"

record host =
  operators :: lua_semantics
  call :: "lvalue \<Rightarrow> lvalue list \<Rightarrow> lvalue compute"
  index :: "lvalue \<Rightarrow> lvalue \<Rightarrow> lvalue compute"
  key :: "js_string option \<Rightarrow> lvalue"
  table :: "(lvalue option \<times> lvalue) list \<Rightarrow> event list \<Rightarrow> lvalue"
  closure :: "js_string option list \<Rightarrow> bool \<Rightarrow> block_meaning \<Rightarrow> (js_string \<times> lvalue) list \<Rightarrow> lvalue"
  vararg :: lvalue
  count :: "lvalue \<Rightarrow> lvalue \<Rightarrow> lvalue option \<Rightarrow> lvalue list option"
  iterate :: "lvalue list \<Rightarrow> event list \<Rightarrow> lvalue list list option"
  rounds :: nat

definition pure :: "lvalue \<Rightarrow> expr_meaning" where
  "pure v = \<lparr>name = None, place = None, val = (\<lambda>s. Some (v, s))\<rparr>"

definition computed :: "lvalue compute \<Rightarrow> expr_meaning" where
  "computed f = \<lparr>name = None, place = None, val = f\<rparr>"

definition bind :: "'a compute \<Rightarrow> ('a \<Rightarrow> 'b compute) \<Rightarrow> 'b compute" where
  "bind f k s = (case f s of None \<Rightarrow> None | Some (a, s') \<Rightarrow> k a s')"

definition give :: "'a \<Rightarrow> 'a compute" where
  "give a s = Some (a, s)"

definition lift :: "'a option \<Rightarrow> 'a compute" where
  "lift r s = (case r of None \<Rightarrow> None | Some a \<Rightarrow> Some (a, s))"

definition values_of :: "expr_meaning list \<Rightarrow> lvalue list compute" where
  "values_of ms = foldr (\<lambda>m k. bind (val m) (\<lambda>v. bind k (\<lambda>vs. give (v # vs)))) ms (give [])"

text \<open>Code outside the block may change the values of its locals, not which there are.\<close>

definition outside :: "'a compute \<Rightarrow> 'a compute" where
  "outside f s =
     (case f s of
        None \<Rightarrow> None
      | Some (v, s') \<Rightarrow>
          Some (v, if map fst (locals s') = map fst (locals s) then s' else s'\<lparr>locals := locals s\<rparr>))"

definition do_call :: "host \<Rightarrow> lvalue \<Rightarrow> lvalue list \<Rightarrow> lvalue compute" where
  "do_call H f args s = outside (call H f args) (record_event (Called f args) s)"

definition do_index :: "host \<Rightarrow> lvalue \<Rightarrow> lvalue \<Rightarrow> lvalue compute" where
  "do_index H t k = outside (index H t k)"

definition access :: "host \<Rightarrow> expr_meaning \<Rightarrow> lvalue compute \<Rightarrow> expr_meaning" where
  "access H b k =
     (let p = bind (val b) (\<lambda>t. bind k (\<lambda>i. give (t, i)))
      in \<lparr>name = None, place = Some p, val = bind p (\<lambda>(t, i). do_index H t i)\<rparr>)"

definition short_circuit :: "string \<Rightarrow> expr_meaning \<Rightarrow> expr_meaning \<Rightarrow> lvalue compute" where
  "short_circuit op l r =
     bind (val l) (\<lambda>v.
       if op = ''and'' then (if truthy v then val r else give v)
       else if op = ''or'' then (if truthy v then give v else val r)
       else lift None)"

section \<open>Meanings of blocks\<close>

definition followed_by :: "block_meaning \<Rightarrow> block_meaning \<Rightarrow> block_meaning" where
  "followed_by m k = (\<lambda>s. case m s of Next s' \<Rightarrow> k s' | r \<Rightarrow> r)"

definition seq :: "block_meaning list \<Rightarrow> block_meaning" where
  "seq ms = foldr followed_by ms Next"

text \<open>Leaving a block drops the locals it declared.\<close>

definition leave :: "lua_state \<Rightarrow> lua_state \<Rightarrow> lua_state" where
  "leave s s' = s'\<lparr>locals := drop (length (locals s') - length (locals s)) (locals s')\<rparr>"

fun map_flow :: "(lua_state \<Rightarrow> lua_state) \<Rightarrow> flow \<Rightarrow> flow" where
  "map_flow f (Next s) = Next (f s)"
| "map_flow f (Broke s) = Broke (f s)"
| "map_flow f (Continued s) = Continued (f s)"
| "map_flow f (Returned vs s) = Returned vs (f s)"
| "map_flow f Failed = Failed"
| "map_flow f Cut_off = Cut_off"

definition scoped :: "block_meaning \<Rightarrow> block_meaning" where
  "scoped m s = map_flow (leave s) (m s)"

definition with_value :: "'a compute \<Rightarrow> ('a \<Rightarrow> block_meaning) \<Rightarrow> block_meaning" where
  "with_value f k s = (case f s of None \<Rightarrow> Failed | Some (a, s') \<Rightarrow> k a s')"

definition next_round :: "block_meaning \<Rightarrow> flow \<Rightarrow> flow" where
  "next_round again r =
     (case r of Next s \<Rightarrow> again s | Continued s \<Rightarrow> again s | Broke s \<Rightarrow> Next s | _ \<Rightarrow> r)"

primrec while_loop :: "nat \<Rightarrow> expr_meaning \<Rightarrow> block_meaning \<Rightarrow> block_meaning" where
  "while_loop 0 c b = (\<lambda>s. Cut_off)"
| "while_loop (Suc n) c b =
     with_value (val c) (\<lambda>v s. if truthy v then next_round (while_loop n c b) (scoped b s) else Next s)"

text \<open>The condition of a repeat loop sees the locals of its body.\<close>

definition until :: "expr_meaning \<Rightarrow> block_meaning \<Rightarrow> lua_state \<Rightarrow> flow + lua_state" where
  "until c b s =
     (case b s of
        Next s' \<Rightarrow>
          (case val c s' of
             None \<Rightarrow> Inl Failed
           | Some (v, s2) \<Rightarrow> if truthy v then Inl (Next (leave s s2)) else Inr (leave s s2))
      | Continued s' \<Rightarrow> Inr (leave s s')
      | Broke s' \<Rightarrow> Inl (Next (leave s s'))
      | r \<Rightarrow> Inl (map_flow (leave s) r))"

primrec repeat_loop :: "nat \<Rightarrow> expr_meaning \<Rightarrow> block_meaning \<Rightarrow> block_meaning" where
  "repeat_loop 0 c b = (\<lambda>s. Cut_off)"
| "repeat_loop (Suc n) c b = (\<lambda>s. case until c b s of Inl r \<Rightarrow> r | Inr s' \<Rightarrow> repeat_loop n c b s')"

definition bind_names :: "js_string option list \<Rightarrow> lvalue list \<Rightarrow> lua_state \<Rightarrow> lua_state" where
  "bind_names ns vs s =
     fold (\<lambda>(n, v). declare_var n v) (zip ns (vs @ replicate (length ns) LNil)) s"

primrec each_loop :: "lvalue list list \<Rightarrow> js_string option list \<Rightarrow> block_meaning \<Rightarrow> block_meaning" where
  "each_loop [] ns b = Next"
| "each_loop (vs # vss) ns b =
     (\<lambda>s. next_round (each_loop vss ns b) (scoped (\<lambda>s. b (bind_names ns vs s)) s))"

definition store_at :: "expr_meaning \<Rightarrow> lvalue \<Rightarrow> block_meaning" where
  "store_at t v s =
     (case name t of
        Some n \<Rightarrow> Next (assign_var s n v)
      | None \<Rightarrow>
          (case place t of
             None \<Rightarrow> Failed
           | Some p \<Rightarrow> with_value p (\<lambda>(tb, k) s. Next (record_event (Stored tb k v) s)) s))"

definition store_all :: "expr_meaning list \<Rightarrow> lvalue list \<Rightarrow> block_meaning" where
  "store_all ts vs = seq (map (\<lambda>(t, v). store_at t v) (zip ts (vs @ replicate (length ts) LNil)))"

type_synonym clause_meaning = "expr_meaning \<times> block_meaning"

definition branch_on :: "clause_meaning list \<Rightarrow> block_meaning option \<Rightarrow> block_meaning" where
  "branch_on cs el =
     foldr (\<lambda>(c, b) k. with_value (val c) (\<lambda>v. if truthy v then scoped b else k)) cs
       (case el of None \<Rightarrow> Next | Some b \<Rightarrow> scoped b)"

definition fields_of :: "((lvalue compute option) \<times> expr_meaning) list \<Rightarrow> (lvalue option \<times> lvalue) list compute" where
  "fields_of fs =
     foldr (\<lambda>(k, m) rest.
         bind (case k of None \<Rightarrow> give None | Some kc \<Rightarrow> bind kc (\<lambda>kv. give (Some kv))) (\<lambda>kv.
         bind (val m) (\<lambda>v. bind rest (\<lambda>r. give ((kv, v) # r))))) fs (give [])"

primrec mean_expr :: "host \<Rightarrow> expr \<Rightarrow> expr_meaning"
and mean_field :: "host \<Rightarrow> table_field \<Rightarrow> lvalue compute option \<times> expr_meaning"
and mean_stmt :: "host \<Rightarrow> stmt \<Rightarrow> block_meaning"
and mean_clause :: "host \<Rightarrow> clause \<Rightarrow> clause_meaning" where
  "mean_expr H (Identifier n) =
     \<lparr>name = Some n, place = None, val = (\<lambda>s. Some (lookup_var s n, s))\<rparr>"
| "mean_expr H (NumericLiteral v raw) = pure (LNum v)"
| "mean_expr H (StringLiteral s raw) = pure (LStr s)"
| "mean_expr H (BooleanLiteral b) = pure (LBool b)"
| "mean_expr H NilLiteral = pure LNil"
| "mean_expr H (VarargLiteral b) = pure (vararg H)"
| "mean_expr H (UnaryExpression op a) =
     computed (bind (val (mean_expr H a)) (\<lambda>v. lift (lua_unop (operators H) op v)))"
| "mean_expr H (BinaryExpression op l r) =
     computed (bind (val (mean_expr H l)) (\<lambda>v. bind (val (mean_expr H r)) (\<lambda>w.
       lift (lua_binop (operators H) op v w))))"
| "mean_expr H (LogicalExpression op l r) =
     computed (short_circuit op (mean_expr H l) (mean_expr H r))"
| "mean_expr H (CallExpression b args) =
     computed (bind (val (mean_expr H b)) (\<lambda>f. bind (values_of (map (mean_expr H) args)) (do_call H f)))"
| "mean_expr H (MethodCallExpression b m args) =
     computed (bind (val (mean_expr H b)) (\<lambda>self.
       bind (do_index H self (key H (name (mean_expr H m)))) (\<lambda>f.
         bind (values_of (map (mean_expr H) args)) (\<lambda>vs. do_call H f (self # vs)))))"
| "mean_expr H (MemberExpression b q) =
     access H (mean_expr H b) (give (key H (name (mean_expr H q))))"
| "mean_expr H (IndexExpression b i) = access H (mean_expr H b) (val (mean_expr H i))"
| "mean_expr H (FunctionExpression ps va body) =
     computed (\<lambda>s. Some (closure H (map name (map (mean_expr H) ps)) va
       (seq (map (mean_stmt H) body)) (locals s), s))"
| "mean_expr H (TableConstructor fs) =
     computed (bind (fields_of (map (mean_field H) fs)) (\<lambda>vs s. Some (table H vs (history s), s)))"
| "mean_field H (TableKey k v) = (Some (val (mean_expr H k)), mean_expr H v)"
| "mean_field H (TableKeyString k v) = (Some (give (key H (name (mean_expr H k)))), mean_expr H v)"
| "mean_field H (TableValue v) = (None, mean_expr H v)"
| "mean_stmt H (LocalStatement vs es) =
     with_value (values_of (map (mean_expr H) es)) (\<lambda>ws s.
       Next (bind_names (map name (map (mean_expr H) vs)) ws s))"
| "mean_stmt H (AssignmentStatement vs es) =
     with_value (values_of (map (mean_expr H) es)) (store_all (map (mean_expr H) vs))"
| "mean_stmt H (LocalFunctionStatement i ps va b) =
     (\<lambda>s. Next (declare_var (name (mean_expr H i))
       (closure H (map name (map (mean_expr H) ps)) va (seq (map (mean_stmt H) b)) (locals s)) s))"
| "mean_stmt H (FunctionDeclaration n ps va b im) =
     (\<lambda>s. store_at (mean_expr H n)
       (closure H ((if im then [None] else []) @ map name (map (mean_expr H) ps)) va
          (seq (map (mean_stmt H) b)) (locals s)) s)"
| "mean_stmt H (CallStatement e) = with_value (val (mean_expr H e)) (\<lambda>v. Next)"
| "mean_stmt H (IfStatement cs el) =
     branch_on (map (mean_clause H) cs) (map_option seq (map_option (map (mean_stmt H)) el))"
| "mean_stmt H (WhileStatement c b) =
     while_loop (rounds H) (mean_expr H c) (seq (map (mean_stmt H) b))"
| "mean_stmt H (RepeatStatement c b) =
     repeat_loop (rounds H) (mean_expr H c) (seq (map (mean_stmt H) b))"
| "mean_stmt H (NumericForStatement v e1 e2 st b) =
     with_value (bind (val (mean_expr H e1)) (\<lambda>x. bind (val (mean_expr H e2)) (\<lambda>y.
         bind (case map_option (mean_expr H) st of
             None \<Rightarrow> give None | Some m \<Rightarrow> bind (val m) (\<lambda>z. give (Some z))) (\<lambda>z.
           lift (count H x y z))))) (\<lambda>xs.
       each_loop (map (\<lambda>x. [x]) xs) [name (mean_expr H v)] (seq (map (mean_stmt H) b)))"
| "mean_stmt H (GenericForStatement vs es b) =
     with_value (bind (values_of (map (mean_expr H) es)) (\<lambda>ws s. lift (iterate H ws (history s)) s)) (\<lambda>vss.
       each_loop vss (map name (map (mean_expr H) vs)) (seq (map (mean_stmt H) b)))"
| "mean_stmt H (DoStatement b) = scoped (seq (map (mean_stmt H) b))"
| "mean_stmt H (ReturnStatement es) = with_value (values_of (map (mean_expr H) es)) Returned"
| "mean_stmt H BreakStatement = Broke"
| "mean_stmt H ContinueStatement = Continued"
| "mean_stmt H EmptyStatement = Next"
| "mean_clause H (Clause c b) = (mean_expr H c, seq (map (mean_stmt H) b))"

definition mean_block :: "host \<Rightarrow> stmt list \<Rightarrow> block_meaning" where
  "mean_block H b = seq (map (mean_stmt H) b)"

end
