(* ===== verification/Lua_Semantics_Props.thy ===== *)
theory Lua_Semantics_Props
  imports Lua_Semantics
begin

text \<open>
  The reference semantics is compositional, and it grants the laws that the removal of dead code
  relies on (locale \<open>block_laws\<close>): a block that declares no local variable needs no scope.
\<close>

lemma followed_by_Next [simp]: "followed_by m Next = m" "followed_by Next k = k"
  by (auto simp: followed_by_def fun_eq_iff split: flow.splits)

lemma followed_by_assoc: "followed_by (followed_by a b) c = followed_by a (followed_by b c)"
  by (auto simp: followed_by_def fun_eq_iff split: flow.splits)

lemma seq_simps [simp]: "seq [] = Next" "seq (m # ms) = followed_by m (seq ms)"
  by (simp_all add: seq_def)

lemma seq_append: "seq (ms @ ns) = followed_by (seq ms) (seq ns)"
  by (induction ms) (simp_all add: followed_by_assoc)

lemma mean_block_append: "mean_block H (a @ b) = followed_by (mean_block H a) (mean_block H b)"
  by (simp add: mean_block_def seq_append)

lemma mean_block_Nil [simp]: "mean_block H [] = Next"
  by (simp add: mean_block_def)

lemma mean_block_single [simp]: "mean_block H [st] = mean_stmt H st"
  by (simp add: mean_block_def)

lemma mean_stmt_If: "mean_stmt H (IfStatement cs el) =
    branch_on (map (mean_clause H) cs) (map_option (mean_block H) el)"
  by (simp add: option.map_comp comp_def mean_block_def[abs_def])

lemmas fold_block = mean_block_def[symmetric]

interpretation lua: compositional "mean_expr H" "mean_field H" "mean_block H" "mean_clause H"
proof
  fix cs cs' :: "clause list" and el el'
  assume "map (mean_clause H) cs = map (mean_clause H) cs'"
    and "map_option (mean_block H) el = map_option (mean_block H) el'"
  then show "mean_block H [IfStatement cs el] = mean_block H [IfStatement cs' el']"
    by (simp only: mean_block_single mean_stmt_If)
qed (simp_all only: mean_block_append mean_block_single mean_stmt.simps mean_expr.simps mean_field.simps
  mean_clause.simps fold_block)

section \<open>Evaluation keeps the locals\<close>

definition steady :: "'a compute \<Rightarrow> bool" where
  "steady f \<longleftrightarrow> (\<forall>s a s'. f s = Some (a, s') \<longrightarrow> length (locals s') = length (locals s))"

lemma steady_basic [intro, simp]: "steady (give a)" "steady (lift r)"
  "steady (\<lambda>s. lift (g s) s)" "steady (\<lambda>s. Some (f s, s))"
  by (auto simp: steady_def give_def lift_def split: option.splits)

lemma steady_bind [intro]: "steady f \<Longrightarrow> (\<And>a. steady (k a)) \<Longrightarrow> steady (bind f k)"
  by (fastforce simp: steady_def bind_def split: option.splits)

lemma steady_outside: "steady (outside f)"
  by (auto simp: steady_def outside_def split: option.splits if_splits dest!: map_eq_imp_length_eq)

lemma steady_call: "steady (do_call H f args)"
  using steady_outside[of "call H f args"]
  by (auto simp: steady_def do_call_def record_event_def)

lemma steady_index: "steady (do_index H t k)"
  by (simp add: do_index_def steady_outside)

definition steady_expr :: "expr_meaning \<Rightarrow> bool" where
  "steady_expr m \<longleftrightarrow> steady (val m) \<and> (\<forall>p. place m = Some p \<longrightarrow> steady p)"

lemma steady_exprD [dest]: "steady_expr m \<Longrightarrow> steady (val m)"
  by (simp add: steady_expr_def)

lemma computed_steady: "steady_expr (computed f) = steady f"
  by (simp add: steady_expr_def computed_def)

lemma pure_steady: "steady_expr (pure v)"
  by (simp add: steady_expr_def pure_def)

lemma steady_values: "(\<And>m. m \<in> set ms \<Longrightarrow> steady_expr m) \<Longrightarrow> steady (values_of ms)"
  by (induction ms) (auto simp: values_of_def intro!: steady_bind)

lemma steady_fields:
  "(\<And>k m. (k, m) \<in> set fs \<Longrightarrow> steady_expr m \<and> (\<forall>kc. k = Some kc \<longrightarrow> steady kc)) \<Longrightarrow> steady (fields_of fs)"
proof (induction fs)
  case (Cons f fs)
  obtain k m where f: "f = (k, m)" by fastforce
  from Cons.prems[of k m] have "steady (val m)" "\<And>kc. k = Some kc \<Longrightarrow> steady kc" by (auto simp: f)
  moreover have "steady (fields_of fs)" by (rule Cons.IH) (rule Cons.prems, simp)
  ultimately show ?case
    by (auto simp: fields_of_def f intro!: steady_bind split: option.split)
qed (simp add: fields_of_def)

lemma steady_access: "steady_expr b \<Longrightarrow> steady k \<Longrightarrow> steady_expr (access H b k)"
  by (auto simp: steady_expr_def access_def Let_def steady_index intro!: steady_bind)

section \<open>Blocks only add locals\<close>

fun final :: "flow \<Rightarrow> lua_state option" where
  "final (Next s) = Some s" | "final (Broke s) = Some s" | "final (Continued s) = Some s"
| "final (Returned vs s) = Some s" | "final Failed = None" | "final Cut_off = None"

definition grows :: "block_meaning \<Rightarrow> bool" where
  "grows m \<longleftrightarrow> (\<forall>s s'. final (m s) = Some s' \<longrightarrow> length (locals s) \<le> length (locals s'))"

definition level :: "block_meaning \<Rightarrow> bool" where
  "level m \<longleftrightarrow> (\<forall>s s'. final (m s) = Some s' \<longrightarrow> length (locals s') = length (locals s))"

lemma level_grows: "level m \<Longrightarrow> grows m"
  by (auto simp: level_def grows_def)

lemma level_basic [simp]: "level Next" "level Broke" "level Continued" "level (Returned vs)"
  "level (\<lambda>s. Failed)" "level (\<lambda>s. Cut_off)"
  by (auto simp: level_def)

lemma levelD: "level m \<Longrightarrow> final (m s) = Some s' \<Longrightarrow> length (locals s') = length (locals s)"
  by (simp add: level_def)

lemma growsD: "grows m \<Longrightarrow> final (m s) = Some s' \<Longrightarrow> length (locals s) \<le> length (locals s')"
  by (simp add: grows_def)

lemma levelI: "(\<And>s s'. final (m s) = Some s' \<Longrightarrow> length (locals s') = length (locals s)) \<Longrightarrow> level m"
  by (simp add: level_def)

lemma growsI: "(\<And>s s'. final (m s) = Some s' \<Longrightarrow> length (locals s) \<le> length (locals s')) \<Longrightarrow> grows m"
  by (simp add: grows_def)

lemma followed_by_final:
  assumes "final (followed_by a b s) = Some s'"
  obtains "final (a s) = Some s'" | t where "final (a s) = Some t" "final (b t) = Some s'"
  using assms by (cases "a s") (auto simp: followed_by_def)

lemma followed_by_level: "level a \<Longrightarrow> level b \<Longrightarrow> level (followed_by a b)"
  by (rule levelI, erule followed_by_final) (metis levelD)+

lemma followed_by_grows:
  assumes "grows a" and "\<And>s s'. final (b s) = Some s' \<Longrightarrow> length (locals s) \<le> length (locals s')"
  shows "grows (followed_by a b)"
  by (rule growsI, erule followed_by_final)
    (metis growsD[OF assms(1)], metis growsD[OF assms(1)] assms(2) order_trans)

lemma seq_scope:
  "(\<And>m. m \<in> set ms \<Longrightarrow> level m) \<Longrightarrow> level (seq ms)" "(\<And>m. m \<in> set ms \<Longrightarrow> grows m) \<Longrightarrow> grows (seq ms)"
  by (induction ms) (simp_all add: followed_by_level followed_by_grows growsD level_grows)

lemma final_map: "final (map_flow f r) = map_option f (final r)"
  by (cases r) simp_all

lemma level_scoped: "grows m \<Longrightarrow> level (scoped m)"
  by (auto simp: level_def grows_def scoped_def final_map leave_def)

lemma with_value_final:
  assumes "final (with_value f k s) = Some s'" and "steady f"
  obtains v t where "final (k v t) = Some s'" "length (locals t) = length (locals s)"
  using assms by (cases "f s") (auto simp: with_value_def steady_def)

lemma with_value_level: "steady f \<Longrightarrow> (\<And>a. level (k a)) \<Longrightarrow> level (with_value f k)"
  by (rule levelI, erule (1) with_value_final) (metis levelD)

lemma with_value_grows: "steady f \<Longrightarrow> (\<And>a. grows (k a)) \<Longrightarrow> grows (with_value f k)"
  by (rule growsI, erule (1) with_value_final) (metis growsD)

lemmas with_value_scope = with_value_level with_value_grows

lemma level_next_round:
  assumes "level again" and "level m"
  shows "level (\<lambda>s. next_round again (m s))"
proof (rule levelI)
  fix s s' assume "final (next_round again (m s)) = Some s'"
  moreover have "final (m s) = Some t \<Longrightarrow> length (locals t) = length (locals s)" for t
    by (rule levelD[OF assms(2)])
  moreover have "final (again t) = Some s' \<Longrightarrow> length (locals s') = length (locals t)" for t
    by (rule levelD[OF assms(1)])
  ultimately show "length (locals s') = length (locals s)"
    by (cases "m s") (simp_all add: next_round_def)
qed

lemma level_while: "steady (val c) \<Longrightarrow> grows b \<Longrightarrow> level (while_loop n c b)"
proof (induction n)
  case (Suc n)
  have "level (\<lambda>s. if truthy v then next_round (while_loop n c b) (scoped b s) else Next s)" for v
    using level_next_round[OF Suc.IH[OF Suc.prems] level_scoped[OF Suc.prems(2)]] by (cases "truthy v") simp_all
  then show ?case by (simp add: with_value_scope Suc.prems(1))
qed simp

lemma until_scope:
  assumes "steady (val c)" and "grows b"
  shows "until c b s = Inl r \<Longrightarrow> final r = Some s' \<Longrightarrow> length (locals s') = length (locals s)"
    and "until c b s = Inr s2 \<Longrightarrow> length (locals s2) = length (locals s)"
proof -
  have b: "final (b s) = Some t \<Longrightarrow> length (locals s) \<le> length (locals t)" for t
    using assms(2) by (auto simp: grows_def)
  have c: "val c t = Some (v, u) \<Longrightarrow> length (locals u) = length (locals t)" for t v u
    using assms(1) by (auto simp: steady_def)
  show "until c b s = Inl r \<Longrightarrow> final r = Some s' \<Longrightarrow> length (locals s') = length (locals s)"
    using b c by (fastforce simp: until_def leave_def split: flow.splits option.splits if_splits)
  show "until c b s = Inr s2 \<Longrightarrow> length (locals s2) = length (locals s)"
    using b c by (fastforce simp: until_def leave_def split: flow.splits option.splits if_splits)
qed

lemma level_repeat: "steady (val c) \<Longrightarrow> grows b \<Longrightarrow> level (repeat_loop n c b)"
proof (induction n)
  case (Suc n)
  then have IH: "level (repeat_loop n c b)" by simp
  show ?case unfolding level_def
  proof (intro allI impI)
    fix s s' assume f: "final (repeat_loop (Suc n) c b s) = Some s'"
    show "length (locals s') = length (locals s)"
    proof (cases "until c b s")
      case (Inl r)
      with f until_scope(1)[OF Suc.prems Inl] show ?thesis by simp
    next
      case (Inr s2)
      with f have "final (repeat_loop n c b s2) = Some s'" by simp
      with IH have "length (locals s') = length (locals s2)" by (auto simp: level_def)
      with until_scope(2)[OF Suc.prems Inr] show ?thesis by simp
    qed
  qed
qed simp

lemma bind_names_grows: "length (locals s) \<le> length (locals (bind_names ns vs s))"
proof -
  have "length (locals s) \<le> length (locals (fold (\<lambda>(n, v). declare_var n v) ps s))" for ps s
  proof (induction ps arbitrary: s)
    case (Cons p ps)
    have "length (locals s) \<le> length (locals (declare_var (fst p) (snd p) s))"
      by (simp add: declare_var_def split: option.split)
    with Cons.IH[of "declare_var (fst p) (snd p) s"] show ?case by (simp add: split_beta)
  qed simp
  then show ?thesis by (simp add: bind_names_def)
qed

lemma level_each: "grows b \<Longrightarrow> level (each_loop vss ns b)"
proof (induction vss)
  case (Cons vs vss)
  have "grows (\<lambda>s. b (bind_names ns vs s))"
    by (rule growsI) (metis Cons.prems bind_names_grows growsD order_trans)
  from level_next_round[OF Cons.IH[OF Cons.prems] level_scoped[OF this]] show ?case by simp
qed simp

lemma length_set_first [simp]: "length (set_first ls n v) = length ls"
  by (induction ls n v rule: set_first.induct) simp_all

lemma level_assign: "length (locals (assign_var s n v)) = length (locals s)"
  by (simp add: assign_var_def)

lemma level_record: "level (\<lambda>s. Next (record_event ev s))"
  by (simp add: level_def record_event_def)

lemma level_store:
  assumes "steady_expr t"
  shows "level (store_at t v)"
proof (cases "name t")
  case (Some n)
  then show ?thesis by (simp add: level_def store_at_def level_assign)
next
  case None
  show ?thesis
  proof (cases "place t")
    case (Some p)
    with assms have "steady p" by (simp add: steady_expr_def)
    then have "level (with_value p (\<lambda>(tb, k) s. Next (record_event (Stored tb k v) s)))"
      by (rule with_value_level) (simp add: split_beta level_record)
    moreover have "store_at t v = with_value p (\<lambda>(tb, k) s. Next (record_event (Stored tb k v) s))"
      by (simp add: store_at_def None Some fun_eq_iff)
    ultimately show ?thesis by simp
  qed (simp add: level_def store_at_def None)
qed

lemma level_store_all:
  assumes "\<And>t. t \<in> set ts \<Longrightarrow> steady_expr t"
  shows "level (store_all ts vs)"
  unfolding store_all_def
proof (rule seq_scope(1))
  fix m assume "m \<in> set (map (\<lambda>(t, v). store_at t v) (zip ts (vs @ replicate (length ts) LNil)))"
  then obtain t v where "(t, v) \<in> set (zip ts (vs @ replicate (length ts) LNil))" "m = store_at t v"
    by auto
  then show "level m" using assms level_store set_zip_leftD by metis
qed

lemma level_branch:
  assumes "\<And>c b. (c, b) \<in> set cs \<Longrightarrow> steady (val c) \<and> grows b" and "\<And>b. el = Some b \<Longrightarrow> grows b"
  shows "level (branch_on cs el)"
  using assms(1)
proof (induction cs)
  case Nil
  show ?case using assms(2) by (auto simp: branch_on_def level_scoped split: option.split)
next
  case (Cons p cs)
  obtain c b where p: "p = (c, b)" by fastforce
  have "steady (val c)" "level (scoped b)" using Cons.prems[of c b] by (auto simp: p level_scoped)
  moreover have "level (branch_on cs el)" using Cons by auto
  ultimately show ?case by (auto simp: branch_on_def p intro!: with_value_scope(1))
qed

section \<open>Statements that declare nothing\<close>

definition declares :: "stmt \<Rightarrow> bool" where
  "declares st = (case st of
     LocalStatement vs es \<Rightarrow> True | LocalFunctionStatement i ps va b \<Rightarrow> True | _ \<Rightarrow> False)"

definition no_locals :: "stmt list \<Rightarrow> bool" where
  "no_locals b \<longleftrightarrow> list_all (\<lambda>st. \<not> declares st) b"

lemma grows_body:
  "(\<And>st. st \<in> set b \<Longrightarrow> grows (mean_stmt H st) \<and> P st) \<Longrightarrow> grows (seq (map (mean_stmt H) b))"
  by (rule seq_scope(2)) auto

lemma mean_scope:
  "steady_expr (mean_expr H e)"
  "steady_expr (snd (mean_field H fl)) \<and> (\<forall>kc. fst (mean_field H fl) = Some kc \<longrightarrow> steady kc)"
  "grows (mean_stmt H st) \<and> (\<not> declares st \<longrightarrow> level (mean_stmt H st))"
  "steady_expr (fst (mean_clause H c)) \<and> grows (snd (mean_clause H c))"
proof (induction e and fl and st and c)
  case (LocalStatement vs es)
  have "grows (\<lambda>s. Next (bind_names ns ws s))" for ns ws
    by (simp add: grows_def bind_names_grows)
  moreover have "steady (values_of (map (mean_expr H) es))"
    by (rule steady_values) (use LocalStatement in auto)
  ultimately show ?case by (simp add: declares_def with_value_scope(2))
next
  case (LocalFunctionStatement i ps va b)
  show ?case by (auto simp: declares_def grows_def declare_var_def split: option.split)
next
  case (IfStatement cs el)
  have "level (mean_stmt H (IfStatement cs el))" unfolding mean_stmt_If
  proof (rule level_branch)
    fix c b assume "(c, b) \<in> set (map (mean_clause H) cs)"
    then obtain cl where "cl \<in> set cs" "mean_clause H cl = (c, b)" by (auto simp: eq_commute)
    with IfStatement(1)[of cl] show "steady (val c) \<and> grows b" by (simp add: steady_exprD)
  next
    fix b assume "map_option (mean_block H) el = Some b"
    then obtain body where "el = Some body" "b = mean_block H body" by (cases el) simp_all
    moreover have "grows (seq (map (mean_stmt H) body))"
      by (rule grows_body[OF IfStatement(2)]) (simp_all add: \<open>el = Some body\<close>)
    ultimately show "grows b" by (simp add: mean_block_def)
  qed
  then show ?case by (simp add: level_grows)
next
  case (NumericForStatement v e1 e2 st b)
  have b: "grows (seq (map (mean_stmt H) b))" by (rule grows_body[OF NumericForStatement(5)])
  have "level (mean_stmt H (NumericForStatement v e1 e2 st b))"
    unfolding mean_stmt.simps
    by (rule with_value_scope(1))
      (use NumericForStatement b in \<open>auto intro!: steady_bind level_each split: option.split\<close>)
  then show ?case by (simp add: level_grows)
next
  case (FunctionDeclaration n ps va b im)
  have "level (mean_stmt H (FunctionDeclaration n ps va b im))"
    using level_store[OF FunctionDeclaration(1)] by (simp add: level_def)
  then show ?case by (simp add: level_grows)
next
  case (AssignmentStatement vs es)
  have "level (mean_stmt H (AssignmentStatement vs es))" unfolding mean_stmt.simps
    by (rule with_value_level; (rule steady_values | rule level_store_all)) (use AssignmentStatement in auto)
  then show ?case by (simp add: level_grows)
next
  case (CallStatement e)
  then show ?case by (simp add: level_grows with_value_level steady_exprD)
next
  case (WhileStatement c b)
  have "level (mean_stmt H (WhileStatement c b))" unfolding mean_stmt.simps
    by (rule level_while[OF steady_exprD[OF WhileStatement(1)] grows_body[OF WhileStatement(2)]])
  then show ?case by (simp add: level_grows)
next
  case (RepeatStatement c b)
  have "level (mean_stmt H (RepeatStatement c b))" unfolding mean_stmt.simps
    by (rule level_repeat[OF steady_exprD[OF RepeatStatement(1)] grows_body[OF RepeatStatement(2)]])
  then show ?case by (simp add: level_grows)
next
  case (GenericForStatement vs es b)
  have "steady (\<lambda>s. lift (iterate H ws (history s)) s)" for ws by (rule steady_basic)
  moreover have "steady (values_of (map (mean_expr H) es))"
    by (rule steady_values) (use GenericForStatement in auto)
  moreover have "grows (seq (map (mean_stmt H) b))"
    by (rule grows_body[OF GenericForStatement(3)])
  ultimately have "level (mean_stmt H (GenericForStatement vs es b))" unfolding mean_stmt.simps
    by (intro with_value_level steady_bind level_each)
  then show ?case by (simp add: level_grows)
next
  case (DoStatement b)
  have "level (mean_stmt H (DoStatement b))" unfolding mean_stmt.simps
    by (rule level_scoped[OF grows_body[OF DoStatement]])
  then show ?case by (simp add: level_grows)
next
  case (ReturnStatement es)
  have "level (mean_stmt H (ReturnStatement es))" unfolding mean_stmt.simps
    by (rule with_value_level, rule steady_values) (use ReturnStatement in auto)
  then show ?case by (simp add: level_grows)
next
  case (MethodCallExpression b m args)
  have "steady (values_of (map (mean_expr H) args))"
    by (rule steady_values) (use MethodCallExpression in auto)
  then have "steady (bind (val (mean_expr H b)) (\<lambda>self.
       bind (do_index H self (key H (name (mean_expr H m)))) (\<lambda>f.
         bind (values_of (map (mean_expr H) args)) (\<lambda>vs. do_call H f (self # vs)))))"
    by (intro steady_bind steady_exprD[OF MethodCallExpression(1)] steady_index steady_call)
  then show ?case by (simp add: computed_steady)
next
  case (CallExpression b args)
  have "steady (values_of (map (mean_expr H) args))"
    by (rule steady_values) (use CallExpression in auto)
  then have "steady (bind (val (mean_expr H b)) (\<lambda>f.
       bind (values_of (map (mean_expr H) args)) (do_call H f)))"
    by (intro steady_bind steady_exprD[OF CallExpression(1)] steady_call)
  then show ?case by (simp add: computed_steady)
next
  case (TableConstructor fs)
  have "steady (fields_of (map (mean_field H) fs))"
  proof (rule steady_fields)
    fix k m assume "(k, m) \<in> set (map (mean_field H) fs)"
    then obtain fl where "fl \<in> set fs" "mean_field H fl = (k, m)" by (auto simp: eq_commute)
    with TableConstructor[of fl] show "steady_expr m \<and> (\<forall>kc. k = Some kc \<longrightarrow> steady kc)" by simp
  qed
  then show ?case by (simp add: computed_steady steady_bind)
next
  case (LogicalExpression op l r)
  then have "steady (short_circuit op (mean_expr H l) (mean_expr H r))"
    unfolding short_circuit_def by (auto intro!: steady_bind)
  then show ?case by (simp add: computed_steady)
next
  case (Identifier n)
  show ?case by (simp add: steady_expr_def steady_def)
next
  case (Clause c b)
  then show ?case by (auto intro!: grows_body)
qed (simp_all add: level_grows steady_access steady_exprD computed_steady pure_steady steady_bind
  steady_basic declares_def)

section \<open>The laws of dead code\<close>

locale block_laws = compositional E Fl B C
  for E :: "expr \<Rightarrow> 'e" and Fl :: "table_field \<Rightarrow> 'f" and B :: "stmt list \<Rightarrow> 'b" and C :: "clause \<Rightarrow> 'c" +
  assumes skip: "B [EmptyStatement] = B []"
    and empty_do: "B [DoStatement []] = B []"
    and if_true: "B [IfStatement (Clause (BooleanLiteral True) b # cs) el] = B [DoStatement b]"
    and if_false_clauses: "cs \<noteq> [] \<Longrightarrow>
      B [IfStatement (Clause (BooleanLiteral False) b # cs) el] = B [IfStatement cs el]"
    and if_false_else: "B [IfStatement [Clause (BooleanLiteral False) b] (Some b')] = B [DoStatement b']"
    and if_false: "B [IfStatement [Clause (BooleanLiteral False) b] None] = B []"
    and unscope: "no_locals b \<Longrightarrow> B [DoStatement b] = B b"

lemma no_locals_level: "no_locals b \<Longrightarrow> level (mean_block H b)"
  unfolding mean_block_def
  by (rule seq_scope(1)) (use mean_scope(3) in \<open>auto simp: no_locals_def list_all_iff\<close>)

lemma leave_level: "length (locals s') = length (locals s) \<Longrightarrow> leave s s' = s'"
  by (simp add: leave_def)

lemma scoped_level: "level m \<Longrightarrow> scoped m = m"
proof (rule ext)
  fix s assume "level m"
  then show "scoped m s = m s"
    by (cases "m s") (simp_all add: scoped_def leave_level levelD)
qed

lemma with_pure: "with_value (val (pure v)) k = k v"
  by (simp add: with_value_def pure_def fun_eq_iff)

lemma branch_literal:
  "branch_on ((pure (LBool t), b) # cs) el = (if t then scoped b else branch_on cs el)"
  by (simp add: branch_on_def with_pure)

interpretation lua: block_laws "mean_expr H" "mean_field H" "mean_block H" "mean_clause H"
proof
  fix b b' :: "stmt list" and cs :: "clause list" and el :: "stmt list option"
  note laws = mean_stmt_If branch_literal fold_block
  show "mean_block H [EmptyStatement] = mean_block H []" by simp
  show "mean_block H [DoStatement []] = mean_block H []"
    by (simp add: fun_eq_iff scoped_def leave_def)
  show "mean_block H [IfStatement (Clause (BooleanLiteral True) b # cs) el] = mean_block H [DoStatement b]"
    by (simp add: laws del: mean_stmt.simps(6))
  show "mean_block H [IfStatement (Clause (BooleanLiteral False) b # cs) el] = mean_block H [IfStatement cs el]"
    by (simp add: laws del: mean_stmt.simps(6))
  show "mean_block H [IfStatement [Clause (BooleanLiteral False) b] (Some b')] = mean_block H [DoStatement b']"
    by (simp add: laws branch_on_def with_pure del: mean_stmt.simps(6))
  show "mean_block H [IfStatement [Clause (BooleanLiteral False) b] None] = mean_block H []"
    by (simp add: laws branch_on_def with_pure del: mean_stmt.simps(6))
  show "mean_block H [DoStatement b] = mean_block H b" if "no_locals b"
    using scoped_level[OF no_locals_level[OF that, of H]] by (simp add: fold_block)
qed

end
