(* ===== verification/Rewrite_Counts.thy ===== *)
theory Rewrite_Counts
  imports AST
begin

text \<open>
  Passes that count what they change: if the callbacks change a node only when they increase a
  counter, a rewrite that leaves the counter alone leaves the tree alone.
\<close>

locale counting_rewrite =
  fixes F :: "'s transformer" and count :: "'s \<Rightarrow> nat"
  assumes expr_counts: "count s < count (snd (finish_expr F (e, s))) \<or>
      count s = count (snd (finish_expr F (e, s))) \<and> fst (finish_expr F (e, s)) = e"
    and stmt_counts: "count s < count (snd (finish_stmt F (st, s))) \<or>
      count s = count (snd (finish_stmt F (st, s))) \<and> fst (finish_stmt F (st, s)) = [st]"
begin

definition honest :: "'a \<Rightarrow> 's \<Rightarrow> 'a \<times> 's \<Rightarrow> bool" where
  "honest x s r \<longleftrightarrow> count s < count (snd r) \<or> count s = count (snd r) \<and> fst r = x"

lemma finish_honest: "honest e s (finish_expr F (e, s))" "honest [st] s (finish_stmt F (st, s))"
  using expr_counts[of s e] stmt_counts[of s st] by (auto simp: honest_def)

lemma cons_honest:
  assumes "honest x s p" and "honest xs (snd p) q"
  shows "honest (x # xs) s (fst p # fst q, snd q)"
  using assms by (auto simp: honest_def)

lemma append_honest:
  assumes "honest x s p" and "honest xs (snd p) q"
  shows "honest (x @ xs) s (fst p @ fst q, snd q)"
  using assms by (auto simp: honest_def)

lemma lists_honest:
  "(\<And>e s. e \<in> set es \<Longrightarrow> honest e s (transform_expr F e s)) \<Longrightarrow> honest es s (transform_exprs F es s)"
  "(\<And>f s. f \<in> set fs \<Longrightarrow> honest f s (transform_field F f s)) \<Longrightarrow> honest fs s (transform_fields F fs s)"
  "(\<And>st s. st \<in> set b \<Longrightarrow> honest [st] s (transform_stmt F st s)) \<Longrightarrow> honest b s (transform_block F b s)"
  "(\<And>c s. c \<in> set cs \<Longrightarrow> honest c s (transform_clause F c s)) \<Longrightarrow> honest cs s (transform_clauses F cs s)"
proof -
  show "(\<And>e s. e \<in> set es \<Longrightarrow> honest e s (transform_expr F e s)) \<Longrightarrow> honest es s (transform_exprs F es s)"
    by (induction es arbitrary: s) (simp_all add: split_beta cons_honest, simp add: honest_def)
  show "(\<And>f s. f \<in> set fs \<Longrightarrow> honest f s (transform_field F f s)) \<Longrightarrow> honest fs s (transform_fields F fs s)"
    by (induction fs arbitrary: s) (simp_all add: split_beta cons_honest, simp add: honest_def)
  show "(\<And>st s. st \<in> set b \<Longrightarrow> honest [st] s (transform_stmt F st s)) \<Longrightarrow> honest b s (transform_block F b s)"
  proof (induction b arbitrary: s)
    case (Cons st b)
    let ?p = "transform_stmt F st s"
    from append_honest[of "[st]" s ?p b "transform_block F b (snd ?p)"] Cons
    show ?case by (simp add: split_beta)
  qed (simp add: honest_def)
  show "(\<And>c s. c \<in> set cs \<Longrightarrow> honest c s (transform_clause F c s)) \<Longrightarrow> honest cs s (transform_clauses F cs s)"
    by (induction cs arbitrary: s) (simp_all add: split_beta cons_honest, simp add: honest_def)
qed

lemma transform_honest:
  "honest e s (transform_expr F e s)" "honest fl s (transform_field F fl s)"
  "honest [st] s (transform_stmt F st s)" "honest c s (transform_clause F c s)"
proof (induction e and fl and st and c arbitrary: s and s and s and s)
  case (UnaryExpression op x)
  let ?p1 = "transform_expr F x s"
  show ?case
    using UnaryExpression(1)[of "s"]
      finish_honest(1)[of "UnaryExpression op (fst ?p1)" "snd ?p1"]
    by (auto simp: honest_def split_beta)
next
  case (BinaryExpression op x y)
  let ?p1 = "transform_expr F x s"
  let ?p2 = "transform_expr F y (snd ?p1)"
  show ?case
    using BinaryExpression(1)[of "s"]
      BinaryExpression(2)[of "snd ?p1"]
      finish_honest(1)[of "BinaryExpression op (fst ?p1) (fst ?p2)" "snd ?p2"]
    by (auto simp: honest_def split_beta)
next
  case (LogicalExpression op x y)
  let ?p1 = "transform_expr F x s"
  let ?p2 = "transform_expr F y (snd ?p1)"
  show ?case
    using LogicalExpression(1)[of "s"]
      LogicalExpression(2)[of "snd ?p1"]
      finish_honest(1)[of "LogicalExpression op (fst ?p1) (fst ?p2)" "snd ?p2"]
    by (auto simp: honest_def split_beta)
next
  case (CallExpression x y)
  let ?p1 = "transform_expr F x s"
  let ?p2 = "transform_exprs F y (snd ?p1)"
  show ?case
    using CallExpression(1)[of "s"]
      lists_honest(1)[of y "snd ?p1", OF CallExpression(2)]
      finish_honest(1)[of "CallExpression (fst ?p1) (fst ?p2)" "snd ?p2"]
    by (auto simp: honest_def split_beta)
next
  case (MethodCallExpression x y z)
  let ?p1 = "transform_expr F x s"
  let ?p2 = "transform_expr F y (snd ?p1)"
  let ?p3 = "transform_exprs F z (snd ?p2)"
  show ?case
    using MethodCallExpression(1)[of "s"]
      MethodCallExpression(2)[of "snd ?p1"]
      lists_honest(1)[of z "snd ?p2", OF MethodCallExpression(3)]
      finish_honest(1)[of "MethodCallExpression (fst ?p1) (fst ?p2) (fst ?p3)" "snd ?p3"]
    by (auto simp: honest_def split_beta)
next
  case (MemberExpression x y)
  let ?p1 = "transform_expr F x s"
  let ?p2 = "transform_expr F y (snd ?p1)"
  show ?case
    using MemberExpression(1)[of "s"]
      MemberExpression(2)[of "snd ?p1"]
      finish_honest(1)[of "MemberExpression (fst ?p1) (fst ?p2)" "snd ?p2"]
    by (auto simp: honest_def split_beta)
next
  case (IndexExpression x y)
  let ?p1 = "transform_expr F x s"
  let ?p2 = "transform_expr F y (snd ?p1)"
  show ?case
    using IndexExpression(1)[of "s"]
      IndexExpression(2)[of "snd ?p1"]
      finish_honest(1)[of "IndexExpression (fst ?p1) (fst ?p2)" "snd ?p2"]
    by (auto simp: honest_def split_beta)
next
  case (FunctionExpression x va z)
  let ?p1 = "transform_exprs F x s"
  let ?p2 = "transform_block F z (snd ?p1)"
  show ?case
    using lists_honest(1)[of x "s", OF FunctionExpression(1)]
      lists_honest(3)[of z "snd ?p1", OF FunctionExpression(2)]
      finish_honest(1)[of "FunctionExpression (fst ?p1) va (fst ?p2)" "snd ?p2"]
    by (auto simp: honest_def split_beta)
next
  case (TableConstructor x)
  let ?p1 = "transform_fields F x s"
  show ?case
    using lists_honest(2)[of x "s", OF TableConstructor(1)]
      finish_honest(1)[of "TableConstructor (fst ?p1)" "snd ?p1"]
    by (auto simp: honest_def split_beta)
next
  case (TableKey x y)
  let ?p1 = "transform_expr F x s"
  let ?p2 = "transform_expr F y (snd ?p1)"
  show ?case
    using TableKey(1)[of "s"]
      TableKey(2)[of "snd ?p1"]
    by (auto simp: honest_def split_beta)
next
  case (TableKeyString x y)
  let ?p1 = "transform_expr F x s"
  let ?p2 = "transform_expr F y (snd ?p1)"
  show ?case
    using TableKeyString(1)[of "s"]
      TableKeyString(2)[of "snd ?p1"]
    by (auto simp: honest_def split_beta)
next
  case (TableValue x)
  let ?p1 = "transform_expr F x s"
  show ?case
    using TableValue(1)[of "s"]
    by (auto simp: honest_def split_beta)
next
  case (LocalStatement x y)
  let ?p1 = "transform_exprs F x s"
  let ?p2 = "transform_exprs F y (snd ?p1)"
  show ?case
    using lists_honest(1)[of x "s", OF LocalStatement(1)]
      lists_honest(1)[of y "snd ?p1", OF LocalStatement(2)]
      finish_honest(2)[of "LocalStatement (fst ?p1) (fst ?p2)" "snd ?p2"]
    by (auto simp: honest_def split_beta)
next
  case (AssignmentStatement x y)
  let ?p1 = "transform_exprs F x s"
  let ?p2 = "transform_exprs F y (snd ?p1)"
  show ?case
    using lists_honest(1)[of x "s", OF AssignmentStatement(1)]
      lists_honest(1)[of y "snd ?p1", OF AssignmentStatement(2)]
      finish_honest(2)[of "AssignmentStatement (fst ?p1) (fst ?p2)" "snd ?p2"]
    by (auto simp: honest_def split_beta)
next
  case (LocalFunctionStatement x y va u)
  let ?p1 = "transform_expr F x s"
  let ?p2 = "transform_exprs F y (snd ?p1)"
  let ?p3 = "transform_block F u (snd ?p2)"
  show ?case
    using LocalFunctionStatement(1)[of "s"]
      lists_honest(1)[of y "snd ?p1", OF LocalFunctionStatement(2)]
      lists_honest(3)[of u "snd ?p2", OF LocalFunctionStatement(3)]
      finish_honest(2)[of "LocalFunctionStatement (fst ?p1) (fst ?p2) va (fst ?p3)" "snd ?p3"]
    by (auto simp: honest_def split_beta)
next
  case (FunctionDeclaration x y va u im)
  let ?p1 = "transform_expr F x s"
  let ?p2 = "transform_exprs F y (snd ?p1)"
  let ?p3 = "transform_block F u (snd ?p2)"
  show ?case
    using FunctionDeclaration(1)[of "s"]
      lists_honest(1)[of y "snd ?p1", OF FunctionDeclaration(2)]
      lists_honest(3)[of u "snd ?p2", OF FunctionDeclaration(3)]
      finish_honest(2)[of "FunctionDeclaration (fst ?p1) (fst ?p2) va (fst ?p3) im" "snd ?p3"]
    by (auto simp: honest_def split_beta)
next
  case (CallStatement x)
  let ?p1 = "transform_expr F x s"
  show ?case
    using CallStatement(1)[of "s"]
      finish_honest(2)[of "CallStatement (fst ?p1)" "snd ?p1"]
    by (auto simp: honest_def split_beta)
next
  case (WhileStatement x y)
  let ?p1 = "transform_expr F x s"
  let ?p2 = "transform_block F y (snd ?p1)"
  show ?case
    using WhileStatement(1)[of "s"]
      lists_honest(3)[of y "snd ?p1", OF WhileStatement(2)]
      finish_honest(2)[of "WhileStatement (fst ?p1) (fst ?p2)" "snd ?p2"]
    by (auto simp: honest_def split_beta)
next
  case (RepeatStatement x y)
  let ?p1 = "transform_expr F x s"
  let ?p2 = "transform_block F y (snd ?p1)"
  show ?case
    using RepeatStatement(1)[of "s"]
      lists_honest(3)[of y "snd ?p1", OF RepeatStatement(2)]
      finish_honest(2)[of "RepeatStatement (fst ?p1) (fst ?p2)" "snd ?p2"]
    by (auto simp: honest_def split_beta)
next
  case (GenericForStatement x y z)
  let ?p1 = "transform_exprs F x s"
  let ?p2 = "transform_exprs F y (snd ?p1)"
  let ?p3 = "transform_block F z (snd ?p2)"
  show ?case
    using lists_honest(1)[of x "s", OF GenericForStatement(1)]
      lists_honest(1)[of y "snd ?p1", OF GenericForStatement(2)]
      lists_honest(3)[of z "snd ?p2", OF GenericForStatement(3)]
      finish_honest(2)[of "GenericForStatement (fst ?p1) (fst ?p2) (fst ?p3)" "snd ?p3"]
    by (auto simp: honest_def split_beta)
next
  case (DoStatement x)
  let ?p1 = "transform_block F x s"
  show ?case
    using lists_honest(3)[of x "s", OF DoStatement(1)]
      finish_honest(2)[of "DoStatement (fst ?p1)" "snd ?p1"]
    by (auto simp: honest_def split_beta)
next
  case (ReturnStatement x)
  let ?p1 = "transform_exprs F x s"
  show ?case
    using lists_honest(1)[of x "s", OF ReturnStatement(1)]
      finish_honest(2)[of "ReturnStatement (fst ?p1)" "snd ?p1"]
    by (auto simp: honest_def split_beta)
next
  case (Clause x y)
  let ?p1 = "transform_expr F x s"
  let ?p2 = "transform_block F y (snd ?p1)"
  show ?case
    using Clause(1)[of "s"]
      lists_honest(3)[of y "snd ?p1", OF Clause(2)]
    by (auto simp: honest_def split_beta)
next
  case (IfStatement cs el)
  let ?p1 = "transform_clauses F cs s"
  note c = lists_honest(4)[of cs s, OF IfStatement(1)]
  show ?case
  proof (cases el)
    case None
    show ?thesis using c finish_honest(2)[of "IfStatement (fst ?p1) None" "snd ?p1"]
      by (auto simp: honest_def split_beta None)
  next
    case (Some b)
    let ?p2 = "transform_block F b (snd ?p1)"
    have "honest b (snd ?p1) (transform_block F b (snd ?p1))"
      by (rule lists_honest(3)) (use IfStatement(2) Some in simp)
    then show ?thesis
      using c finish_honest(2)[of "IfStatement (fst ?p1) (Some (fst ?p2))" "snd ?p2"]
      by (auto simp: honest_def split_beta Some)
  qed
next
  case (NumericForStatement v e1 e2 st b)
  let ?p1 = "transform_expr F v s"
  let ?p2 = "transform_expr F e1 (snd ?p1)"
  let ?p3 = "transform_expr F e2 (snd ?p2)"
  note h = NumericForStatement(1)[of s] NumericForStatement(2)[of "snd ?p1"]
    NumericForStatement(3)[of "snd ?p2"] lists_honest(3)[of b, OF NumericForStatement(5)]
  show ?case
  proof (cases st)
    case None
    let ?p4 = "transform_block F b (snd ?p3)"
    show ?thesis
      using h(1-3) h(4)[of "snd ?p3"]
        finish_honest(2)[of "NumericForStatement (fst ?p1) (fst ?p2) (fst ?p3) None (fst ?p4)" "snd ?p4"]
      by (auto simp: honest_def split_beta None)
  next
    case (Some e3)
    let ?p4 = "transform_expr F e3 (snd ?p3)"
    let ?p5 = "transform_block F b (snd ?p4)"
    show ?thesis
      using h(1-3) NumericForStatement(4)[of e3 "snd ?p3"] Some h(4)[of "snd ?p4"]
        finish_honest(2)[of "NumericForStatement (fst ?p1) (fst ?p2) (fst ?p3) (Some (fst ?p4)) (fst ?p5)" "snd ?p5"]
      by (auto simp: honest_def split_beta Some)
  qed
qed (simp_all add: finish_honest)

lemma unchanged:
  "count (snd (transform_block F b s)) = count s \<Longrightarrow> fst (transform_block F b s) = b"
  using lists_honest(3)[of b s, OF transform_honest(3)] by (auto simp: honest_def)

lemma count_grows: "count s \<le> count (snd (transform_block F b s))"
  using lists_honest(3)[of b s, OF transform_honest(3)] by (auto simp: honest_def)

end

end
