(* ===== verification/Cleanup_Props.thy ===== *)
theory Cleanup_Props
  imports Cleanup Lua_Semantics_Props Rewrite_Counts String_Recovery_Props
begin

text \<open>
  What the cleanup passes promise: removal of dead branches and empty statements keeps the meaning
  of a program whose branches declare no locals; the loop ends, and when it ends before its limit
  its result is a fixed point; and where the passes change what a program does.
\<close>

section \<open>The passes as rewrites\<close>

definition taken_branch :: "stmt \<Rightarrow> stmt list" where
  "taken_branch st = (case fst (branch_stmt st \<lparr>eliminated = 0, branch_changed = False\<rparr>) of
     None \<Rightarrow> [st] | Some ss \<Rightarrow> ss)"

lemma branch_stmt_result:
  "fst (branch_stmt st s) = fst (branch_stmt st \<lparr>eliminated = 0, branch_changed = False\<rparr>)"
  by (simp add: branch_stmt_def split: stmt.split list.split clause.split expr.split option.split)

text \<open>The flag is set exactly when the counter has moved.\<close>

definition branch_flag :: "nat \<Rightarrow> branch_state \<Rightarrow> bool" where
  "branch_flag n s \<longleftrightarrow> n \<le> eliminated s \<and> (branch_changed s \<longleftrightarrow> n < eliminated s)"

definition empty_flag :: "nat \<Rightarrow> empty_state \<Rightarrow> bool" where
  "empty_flag n s \<longleftrightarrow> n \<le> removed s \<and> (empty_changed s \<longleftrightarrow> n < removed s)"

lemma branch_stmt_counts:
  "branch_stmt st s = (None, s) \<or> (\<exists>ss. branch_stmt st s = (Some ss, count_branch s))"
  by (simp add: branch_stmt_def split: stmt.split list.split clause.split expr.split option.split)

lemma branch_stmt_flag: "branch_flag n s \<Longrightarrow> branch_flag n (snd (branch_stmt st s))"
  using branch_stmt_counts[of st s] by (auto simp: branch_flag_def count_branch_def)

interpretation branches: tree_rewrite branch_transformer "\<lambda>e. e" taken_branch "branch_flag n"
proof
  fix s :: branch_state and e st
  assume I: "branch_flag n s"
  then show "fst (finish_expr branch_transformer (e, s)) = e \<and>
      branch_flag n (snd (finish_expr branch_transformer (e, s)))"
    by (simp add: finish_expr_def branch_transformer_def)
  show "fst (finish_stmt branch_transformer (st, s)) = taken_branch st \<and>
      branch_flag n (snd (finish_stmt branch_transformer (st, s)))"
    using branch_stmt_result[of st s] branch_stmt_flag[OF I, of st]
    by (simp add: finish_stmt_def branch_transformer_def taken_branch_def split_beta split: prod.split option.split)
qed

interpretation branches: counting_rewrite branch_transformer eliminated
proof
  fix s :: branch_state and e st
  show "eliminated s < eliminated (snd (finish_expr branch_transformer (e, s))) \<or>
      eliminated s = eliminated (snd (finish_expr branch_transformer (e, s))) \<and>
      fst (finish_expr branch_transformer (e, s)) = e"
    by (simp add: finish_expr_def branch_transformer_def)
  show "eliminated s < eliminated (snd (finish_stmt branch_transformer (st, s))) \<or>
      eliminated s = eliminated (snd (finish_stmt branch_transformer (st, s))) \<and>
      fst (finish_stmt branch_transformer (st, s)) = [st]"
    using branch_stmt_counts[of st s]
    by (auto simp: finish_stmt_def branch_transformer_def count_branch_def)
qed

abbreviation nonempty :: "stmt list \<Rightarrow> stmt list" where
  "nonempty b \<equiv> filter (\<lambda>st. \<not> is_empty_stmt st) b"

definition clean_expr :: "expr \<Rightarrow> expr" where
  "clean_expr e = (case e of FunctionExpression ps va b \<Rightarrow> FunctionExpression ps va (nonempty b) | _ \<Rightarrow> e)"

definition clean_stmt :: "stmt \<Rightarrow> stmt list" where
  "clean_stmt st = (case with_body st of None \<Rightarrow> [st] | Some (build, b) \<Rightarrow> [build (nonempty b)])"

lemma cleanBlock_result [simp]: "fst (cleanBlock b s) = nonempty b"
  by (simp add: cleanBlock_def Let_def)

lemma cleanBlock_counts:
  "removed s < removed (snd (cleanBlock b s)) \<or> snd (cleanBlock b s) = s \<and> nonempty b = b"
proof (cases "length (filter is_empty_stmt b) = 0")
  case True
  then have "\<forall>st\<in>set b. \<not> is_empty_stmt st" by (simp add: filter_empty_conv)
  with True show ?thesis by (simp add: cleanBlock_def)
qed (simp add: cleanBlock_def Let_def)

lemma cleanBlock_flag: "empty_flag n s \<Longrightarrow> empty_flag n (snd (cleanBlock b s))"
  by (auto simp: cleanBlock_def Let_def empty_flag_def)

lemma with_body_build: "with_body st = Some (build, b) \<Longrightarrow> build b = st"
  by (cases st) (auto simp: with_body_def)

interpretation empties: tree_rewrite empty_transformer clean_expr clean_stmt "empty_flag n"
proof
  fix s :: empty_state and e st
  assume I: "empty_flag n s"
  then show "fst (finish_expr empty_transformer (e, s)) = clean_expr e \<and>
      empty_flag n (snd (finish_expr empty_transformer (e, s)))"
    by (cases e)
      (simp_all add: finish_expr_def empty_transformer_def empty_expr_def clean_expr_def split_beta cleanBlock_flag)
  show "fst (finish_stmt empty_transformer (st, s)) = clean_stmt st \<and>
      empty_flag n (snd (finish_stmt empty_transformer (st, s)))"
    using I by (cases "with_body st")
      (auto simp: finish_stmt_def empty_transformer_def empty_stmt_def clean_stmt_def split_beta cleanBlock_flag)
qed

interpretation empties: counting_rewrite empty_transformer removed
proof
  fix s :: empty_state and e st
  show "removed s < removed (snd (finish_expr empty_transformer (e, s))) \<or>
      removed s = removed (snd (finish_expr empty_transformer (e, s))) \<and>
      fst (finish_expr empty_transformer (e, s)) = e"
    by (cases e) (use cleanBlock_counts[of s] in
      \<open>force simp: finish_expr_def empty_transformer_def empty_expr_def split_beta\<close>)+
  show "removed s < removed (snd (finish_stmt empty_transformer (st, s))) \<or>
      removed s = removed (snd (finish_stmt empty_transformer (st, s))) \<and>
      fst (finish_stmt empty_transformer (st, s)) = [st]"
  proof (cases "with_body st")
    case (Some p)
    then show ?thesis
      using cleanBlock_counts[of s "snd p"] with_body_build[of st "fst p" "snd p"]
      by (auto simp: finish_stmt_def empty_transformer_def empty_stmt_def split_beta)
  qed (simp add: finish_stmt_def empty_transformer_def empty_stmt_def)
qed

lemma flag_start: "branch_flag n \<lparr>eliminated = n, branch_changed = False\<rparr>"
  "empty_flag n \<lparr>removed = n, empty_changed = False\<rparr>"
  by (simp_all add: branch_flag_def empty_flag_def)

lemma eliminateDeadBranches_rewrite:
  "fst (eliminateDeadBranches c n) = rewrite_block (\<lambda>e. e) taken_branch c"
  unfolding eliminateDeadBranches_def by (rule branches.transform_is_rewrite(4)) (rule flag_start)

lemma eliminateEmptyBlocks_rewrite:
  "fst (eliminateEmptyBlocks c n) = nonempty (rewrite_block clean_expr clean_stmt c)"
  using empties.transform_is_rewrite(4)[OF flag_start(2)]
  by (simp add: eliminateEmptyBlocks_def split_beta)

section \<open>Dead code under the laws\<close>

definition branches_declare_nothing :: if_pred where
  "branches_declare_nothing cs el \<longleftrightarrow>
     list_all (\<lambda>c. case c of Clause e b \<Rightarrow> no_locals b) cs \<and> pred_option no_locals el"

lemma no_locals_append [simp]: "no_locals (a @ b) \<longleftrightarrow> no_locals a \<and> no_locals b"
  by (simp add: no_locals_def)

lemma no_locals_simps [simp]: "no_locals []" "no_locals (st # b) \<longleftrightarrow> \<not> declares st \<and> no_locals b"
  by (simp_all add: no_locals_def)

lemma taken_other [simp]: "(\<And>cs el. st \<noteq> IfStatement cs el) \<Longrightarrow> taken_branch st = [st]"
  by (cases st) (auto simp: taken_branch_def branch_stmt_def)

lemma taken_if:
  "taken_branch (IfStatement cs el) =
     (case cs of
        Clause (BooleanLiteral b) body # cs' \<Rightarrow>
          if b then body else if cs' \<noteq> [] then [IfStatement cs' el]
          else (case el of Some (x # xs) \<Rightarrow> x # xs | _ \<Rightarrow> [EmptyStatement])
      | _ \<Rightarrow> [IfStatement cs el])"
  by (simp add: taken_branch_def branch_stmt_def split: list.split clause.split expr.split option.split)

lemma taken_declares_nothing:
  "branches_declare_nothing cs el \<Longrightarrow> no_locals (taken_branch (IfStatement cs el))"
  by (auto simp: taken_if branches_declare_nothing_def declares_def
      split: list.splits clause.splits expr.splits option.splits)

text \<open>The rewritten branches still declare nothing.\<close>

lemma rewrite_block_declares_nothing:
  assumes "\<And>st. st \<in> set b \<Longrightarrow> ifs_stmt P st \<Longrightarrow> \<not> declares st \<Longrightarrow> no_locals (rewrite_stmt g h st)"
  shows "list_all (ifs_stmt P) b \<Longrightarrow> no_locals b \<Longrightarrow> no_locals (rewrite_block g h b)"
  using assms by (induction b) simp_all

abbreviation quiet_clause :: "clause \<Rightarrow> bool" where
  "quiet_clause c \<equiv> case c of Clause e b \<Rightarrow> no_locals b"

lemma branches_parts:
  assumes "branches_declare_nothing cs el"
  shows "list_all quiet_clause cs" "pred_option no_locals el"
  using assms by (simp_all add: branches_declare_nothing_def)

lemma branches_join:
  "list_all quiet_clause cs \<Longrightarrow> pred_option no_locals el \<Longrightarrow> branches_declare_nothing cs el"
  by (simp add: branches_declare_nothing_def)

lemma rewrite_declares_nothing:
  "(e :: expr) = e" "(fl :: table_field) = fl"
  "ifs_stmt branches_declare_nothing st \<Longrightarrow> \<not> declares st \<Longrightarrow> no_locals (rewrite_stmt (\<lambda>e. e) taken_branch st)"
  "ifs_clause branches_declare_nothing c \<Longrightarrow> quiet_clause c \<Longrightarrow>
    quiet_clause (rewrite_clause (\<lambda>e. e) taken_branch c)"
proof (induction e and fl and st and c)
  case (IfStatement cs el)
  let ?cs = "map (rewrite_clause (\<lambda>e. e) taken_branch) cs"
  let ?el = "map_option (rewrite_block (\<lambda>e. e) taken_branch) el"
  from IfStatement.prems(1) have P: "branches_declare_nothing cs el"
    and c: "list_all (ifs_clause branches_declare_nothing) cs"
    and b: "pred_option (list_all (ifs_stmt branches_declare_nothing)) el" by simp_all
  have "list_all quiet_clause ?cs"
    using IfStatement.IH(1) c branches_parts(1)[OF P] by (simp add: list_all_iff)
  moreover have "pred_option no_locals ?el"
  proof (cases el)
    case (Some body)
    have "no_locals (rewrite_block (\<lambda>e. e) taken_branch body)"
      by (rule rewrite_block_declares_nothing[OF IfStatement.IH(2)])
        (use Some b branches_parts(2)[OF P] in simp_all)
    then show ?thesis by (simp add: Some)
  qed simp
  ultimately have "branches_declare_nothing ?cs ?el" by (rule branches_join)
  from taken_declares_nothing[OF this] show ?case by simp
next
  case (Clause e b)
  have "no_locals (rewrite_block (\<lambda>e. e) taken_branch b)"
    by (rule rewrite_block_declares_nothing[of _ branches_declare_nothing]) (use Clause in auto)
  then show ?case by simp
qed (simp_all add: declares_def)

lemma rewritten_ifs:
  assumes "ifs_stmt branches_declare_nothing (IfStatement cs el)"
  shows "branches_declare_nothing (map (rewrite_clause (\<lambda>e. e) taken_branch) cs)
    (map_option (rewrite_block (\<lambda>e. e) taken_branch) el)"
proof (rule branches_join)
  from assms have P: "branches_declare_nothing cs el"
    and c: "list_all (ifs_clause branches_declare_nothing) cs"
    and b: "pred_option (list_all (ifs_stmt branches_declare_nothing)) el" by simp_all
  show "list_all quiet_clause (map (rewrite_clause (\<lambda>e. e) taken_branch) cs)"
    using c branches_parts(1)[OF P] rewrite_declares_nothing(4) by (simp add: list_all_iff)
  show "pred_option no_locals (map_option (rewrite_block (\<lambda>e. e) taken_branch) el)"
    using rewrite_block_declares_nothing[OF rewrite_declares_nothing(3)] b branches_parts(2)[OF P]
    by (cases el) simp_all
qed

context block_laws
begin

lemma taken_keeps:
  assumes "branches_declare_nothing cs el"
  shows "B (taken_branch (IfStatement cs el)) = B [IfStatement cs el]"
proof (cases "\<exists>t body cs'. cs = Clause (BooleanLiteral t) body # cs'")
  case False
  then have "taken_branch (IfStatement cs el) = [IfStatement cs el]"
    by (auto simp: taken_if split: list.split clause.split expr.split)
  then show ?thesis by simp
next
  case True
  then obtain t body cs' where cs: "cs = Clause (BooleanLiteral t) body # cs'" by blast
  show ?thesis
  proof (cases t)
    case True
    with branches_parts(1)[OF assms] cs show ?thesis by (simp add: taken_if if_true unscope)
  next
    case False
    show ?thesis
    proof (cases "cs' = []")
      case True
      show ?thesis
      proof (cases el)
        case None
        then show ?thesis by (simp add: cs False True taken_if if_false skip)
      next
        case (Some b)
        with branches_parts(2)[OF assms] have "B [DoStatement b] = B b" by (simp add: unscope)
        then show ?thesis
          by (cases b) (simp_all add: cs False True Some taken_if if_false_else skip)
      qed
    qed (simp add: cs False taken_if if_false_clauses)
  qed
qed

lemma dead_branches_keep:
  assumes "list_all (ifs_stmt branches_declare_nothing) b"
  shows "B (rewrite_block (\<lambda>e. e) taken_branch b) = B b"
  by (rule rewrite_keeps_block[where P = branches_declare_nothing])
    (simp_all only: taken_keeps rewritten_ifs assms, simp)

lemma empty_stmt_keeps: "is_empty_stmt st \<Longrightarrow> B [st] = B []"
  by (auto simp: is_empty_stmt_def skip empty_do)

lemma nonempty_keeps: "B (nonempty b) = B b"
proof (induction b)
  case (Cons st b)
  have "B ([] @ nonempty b) = B ([st] @ b)" if "is_empty_stmt st"
    by (rule block_append) (simp_all add: empty_stmt_keeps that Cons)
  moreover have "B ([st] @ nonempty b) = B ([st] @ b)"
    by (rule block_append) (simp_all add: Cons)
  ultimately show ?case by simp
qed simp

lemma clean_expr_keeps: "E (clean_expr e) = E e"
  unfolding clean_expr_def
  by (cases e; simp only: expr.case) (rule FunctionExpression_cong[OF refl nonempty_keeps])

lemma clean_stmt_keeps: "B (clean_stmt st) = B [st]"
  unfolding clean_stmt_def with_body_def
  by (cases st; simp only: stmt.case option.case prod.case)
    (rule node_congs; (rule refl nonempty_keeps)?)+

lemma empty_blocks_keep: "B (rewrite_block clean_expr clean_stmt b) = B b"
  by (rule rewrite_keeps_block[where P = "\<lambda>cs el. True"])
    (simp_all add: clean_expr_keeps clean_stmt_keeps no_ifs list_all_iff del: ifs_stmt.simps)

lemma dead_code_keeps:
  "list_all (ifs_stmt branches_declare_nothing) b \<Longrightarrow>
    B (nonempty (rewrite_block clean_expr clean_stmt (rewrite_block (\<lambda>e. e) taken_branch b))) = B b"
  by (simp add: nonempty_keeps empty_blocks_keep dead_branches_keep)

end

section \<open>Where the loop ends\<close>

lemma branches_unchanged:
  assumes "\<not> branch_changed (snd (eliminateDeadBranches c n))"
  shows "fst (eliminateDeadBranches c n) = c"
proof -
  let ?s = "\<lparr>eliminated = n, branch_changed = False\<rparr>"
  have "branch_flag n (snd (transform_block branch_transformer c ?s))"
    using branches.lists_are_rewrites(3)[OF branches.transform_results(3) flag_start(1)] by blast
  with assms have "eliminated (snd (transform_block branch_transformer c ?s)) = n"
    by (simp add: eliminateDeadBranches_def branch_flag_def)
  with branches.unchanged[of c ?s] show ?thesis by (simp add: eliminateDeadBranches_def)
qed

lemma empties_unchanged:
  assumes "\<not> empty_changed (snd (eliminateEmptyBlocks c n))"
  shows "fst (eliminateEmptyBlocks c n) = c"
proof -
  let ?r = "transform_block empty_transformer c \<lparr>removed = n, empty_changed = False\<rparr>"
  have f: "empty_flag n (snd ?r)"
    using empties.lists_are_rewrites(3)[OF empties.transform_results(3) flag_start(2)] by blast
  from cleanBlock_flag[OF this, of "fst ?r"] assms have "removed (snd (cleanBlock (fst ?r) (snd ?r))) = n"
    by (simp add: eliminateEmptyBlocks_def empty_flag_def split_beta)
  with f cleanBlock_counts[of "snd ?r" "fst ?r"] have "removed (snd ?r) = n" "nonempty (fst ?r) = fst ?r"
    by (auto simp: empty_flag_def)
  with empties.unchanged[of c "\<lparr>removed = n, empty_changed = False\<rparr>"] show ?thesis
    by (simp add: eliminateEmptyBlocks_def split_beta)
qed

interpretation fold_counts: counting_rewrite "fold_transformer pow" expressionsSimplified
  by unfold_locales
    (auto simp: finish_expr_def finish_stmt_def fold_transformer_def fold_expr_def Let_def split: option.split)

text \<open>A tree on which none of the four passes has anything to do.\<close>

definition settled :: "(jsnum \<Rightarrow> jsnum \<Rightarrow> jsnum) \<Rightarrow> chunk \<Rightarrow> bool" where
  "settled pow c \<longleftrightarrow>
     propagateLocalConstants c = (c, False) \<and> rewrite_block (fold_top pow) keep c = c \<and>
     rewrite_block (\<lambda>e. e) taken_branch c = c \<and> nonempty (rewrite_block clean_expr clean_stmt c) = c"

lemma cleanup_round_settles:
  assumes "cleanup_round pow c cl = (c', False, cl')"
  shows "c' = c \<and> settled pow c"
proof -
  obtain c1 ch1 where p: "propagateLocalConstants c = (c1, ch1)" by fastforce
  obtain c2 ev where f: "fold_chunk pow c1 (cl_evaluator cl) = (c2, ev)" by fastforce
  obtain c3 bs where b: "eliminateDeadBranches c2 (deadBranchesEliminated cl) = (c3, bs)" by fastforce
  obtain c4 es where e: "eliminateEmptyBlocks c3 (emptyStatementsRemoved cl) = (c4, es)" by fastforce
  from assms have r: "c' = c4" "\<not> ch1" "\<not> branch_changed bs" "\<not> empty_changed es"
    "\<not> expressionsSimplified (cl_evaluator cl) < expressionsSimplified ev"
    by (auto simp: cleanup_round_def p f b e)
  have 1: "c1 = c" using p r(2) by (auto simp: propagateLocalConstants_def Let_def)
  have "expressionsSimplified ev = expressionsSimplified (cl_evaluator cl)"
    using fold_counts.count_grows[of "cl_evaluator cl" pow c1] r(5) f by (simp add: fold_chunk_def)
  then have 2: "c2 = c1"
    using fold_counts.unchanged[of pow c1 "cl_evaluator cl"] f by (simp add: fold_chunk_def)
  have 3: "c3 = c2" using branches_unchanged[of c2] b r(3) by (metis fst_conv snd_conv)
  have 4: "c4 = c3" using empties_unchanged[of c3] e r(4) by (metis fst_conv snd_conv)
  show ?thesis unfolding settled_def
    using p f b e r 1 2 3 4 folded_lists(2)[of pow c1 "cl_evaluator cl"]
      eliminateDeadBranches_rewrite[of c2 "deadBranchesEliminated cl"]
      eliminateEmptyBlocks_rewrite[of c3 "emptyStatementsRemoved cl"]
    by (auto simp: fold_chunk_def)
qed

lemma settled_round:
  assumes "settled pow c"
  shows "fst (cleanup_round pow c cl) = c"
  using assms
  by (simp add: settled_def cleanup_round_def split_beta Let_def folded_lists(2)
      eliminateDeadBranches_rewrite eliminateEmptyBlocks_rewrite)

lemma settled_loop: "settled pow c \<Longrightarrow> fst (cleanup_loop pow n pass c cl) = c"
  by (induction n arbitrary: pass cl) (auto simp: split_beta settled_round)

lemma cleanup_loop_settles:
  "cleanup_loop pow n pass c cl = (c', cl') \<Longrightarrow>
     passesRun cl' \<le> pass + n \<and> (passesRun cl' < pass + n \<longrightarrow> settled pow c')"
proof (induction n arbitrary: pass c cl)
  case (Suc n)
  obtain d ch cl1 where r: "cleanup_round pow c cl = (d, ch, cl1)" by (rule prod_cases3)
  show ?case
  proof (cases ch)
    case True
    with Suc.prems r have "cleanup_loop pow n (pass + 1) d cl1 = (c', cl')" by simp
    from Suc.IH[OF this] show ?thesis by simp
  next
    case False
    with r have "d = c" "settled pow c" using cleanup_round_settles[of pow c cl d cl1] by simp_all
    with Suc.prems r False show ?thesis by auto
  qed
qed auto

text \<open>C25. The cleanup loop ends in a fixed point unless it runs out of rounds: it runs at most
  \<open>maxPasses\<close> rounds, and when it stops earlier, no pass finds anything in the resulting tree and
  every later run, with any limit and any counters, returns that tree.\<close>

theorem cleanup_reaches_fixed_point:
  assumes "run_cleanup pow maxPasses c cl = (c', cl')"
  shows "passesRun cl' \<le> maxPasses \<and>
    (passesRun cl' < maxPasses \<longrightarrow> settled pow c' \<and> (\<forall>m st. fst (run_cleanup pow m c' st) = c'))"
  using cleanup_loop_settles[of pow maxPasses 0 c cl c' cl'] assms settled_loop[of pow c']
  by (simp_all add: run_cleanup_def)

definition demo_cleanup :: chunk where
  "demo_cleanup =
     [LocalStatement [Identifier [120]] [BooleanLiteral True],
      IfStatement [Clause (UnaryExpression ''not'' (Identifier [120])) [CallStatement (CallExpression (Identifier [102]) [])]]
        (Some [CallStatement (CallExpression (Identifier [103]) [Identifier [120]])])]"

definition demo_cleaned :: chunk where
  "demo_cleaned =
     [LocalStatement [Identifier [120]] [BooleanLiteral True],
      CallStatement (CallExpression (Identifier [103]) [BooleanLiteral True])]"

lemma demo_cleanup_run:
  "fst (run_cleanup num_mul 10 demo_cleanup CleanupPasses) = demo_cleaned"
  "passesRun (snd (run_cleanup num_mul 10 demo_cleanup CleanupPasses)) = 2"
  by code_simp+

theorem cleanup_reaches_fixed_point_witness:
  "passesRun (snd (run_cleanup num_mul 10 demo_cleanup CleanupPasses)) = 2 \<and>
   fst (run_cleanup num_mul 7 demo_cleaned CleanupPasses) = demo_cleaned"
  using cleanup_reaches_fixed_point[of num_mul 10 demo_cleanup CleanupPasses, OF surjective_pairing]
  by (simp add: demo_cleanup_run)

text \<open>C24. Removing dead code keeps the meaning of a program: if no branch of an if statement
  declares a local variable in its own block, the program left by the two passes transforms every
  state as the original does: same locals, globals, calls, stores, results and errors, whatever
  the host's functions, tables and operators do.\<close>

theorem dead_code_removal_keeps_meaning:
  assumes "list_all (ifs_stmt branches_declare_nothing) c"
  shows "mean_block H (fst (eliminateEmptyBlocks (fst (eliminateDeadBranches c n)) k)) = mean_block H c"
  unfolding eliminateDeadBranches_rewrite eliminateEmptyBlocks_rewrite
  by (rule lua.dead_code_keeps[OF assms])

definition demo_dead :: chunk where
  "demo_dead =
     [IfStatement [Clause (BooleanLiteral False) [EmptyStatement],
        Clause (BooleanLiteral True) [AssignmentStatement [Identifier [120]] [NilLiteral]]] None,
      WhileStatement (Identifier [120]) [DoStatement [], BreakStatement]]"

theorem dead_code_removal_keeps_meaning_witness:
  "\<forall>H. mean_block H
     [IfStatement [Clause (BooleanLiteral True) [AssignmentStatement [Identifier [120]] [NilLiteral]]] None,
      WhileStatement (Identifier [120]) [BreakStatement]] = mean_block H demo_dead"
proof -
  have "list_all (ifs_stmt branches_declare_nothing) demo_dead"
    by (simp add: demo_dead_def branches_declare_nothing_def declares_def)
  moreover have "fst (eliminateEmptyBlocks (fst (eliminateDeadBranches demo_dead 0)) 0) =
     [IfStatement [Clause (BooleanLiteral True) [AssignmentStatement [Identifier [120]] [NilLiteral]]] None,
      WhileStatement (Identifier [120]) [BreakStatement]]"
    by code_simp
  ultimately show ?thesis using dead_code_removal_keeps_meaning[of demo_dead _ 0 0] by simp
qed

section \<open>Where the passes change a program\<close>

text \<open>A taken branch is spliced into its block without a scope, so its local variables capture
  later uses of the name: \<open>if true then local x = nil end x = "a"\<close> assigns the global \<open>x\<close>, the
  result of the pass assigns a local variable and leaves the global alone.\<close>

definition demo_leak :: chunk where
  "demo_leak =
     [IfStatement [Clause (BooleanLiteral True) [LocalStatement [Identifier [120]] [NilLiteral]]] None,
      AssignmentStatement [Identifier [120]] [StringLiteral [97] []]]"

lemma set_first_lookup: "n \<in> fst ` set ls \<Longrightarrow> map_of (set_first ls n v) n = Some v"
  by (induction ls n v rule: set_first.induct) auto

lemma lookup_assign [simp]: "lookup_var (assign_var s n v) n = v"
  by (auto simp: assign_var_def lookup_var_def set_first_lookup map_of_eq_None_iff[THEN iffD2] split: option.split)

lemma assign_top [simp]:
  "assign_var (s\<lparr>locals := (n, w) # ls\<rparr>) n v = s\<lparr>locals := (n, v) # ls\<rparr>"
  by (simp add: assign_var_def)

lemma lookup_top [simp]: "lookup_var (s\<lparr>locals := (n, w) # ls\<rparr>) n = w"
  by (simp add: lookup_var_def)

lemmas run_block = mean_block_def seq_def followed_by_def mean_stmt_If branch_on_def scoped_def
  with_value_def values_of_def bind_def give_def pure_def bind_names_def declare_var_def store_all_def
  store_at_def leave_def

theorem spliced_branch_leaks_locals:
  "mean_block H demo_leak s =
     Next (assign_var s [120] (LStr [97])) \<and>
   mean_block H (fst (eliminateDeadBranches demo_leak n)) s =
     Next (s\<lparr>locals := ([120], LStr [97]) # locals s\<rparr>)"
proof -
  have "fst (eliminateDeadBranches demo_leak n) =
      [LocalStatement [Identifier [120]] [NilLiteral], AssignmentStatement [Identifier [120]] [StringLiteral [97] []]]"
    by (simp add: eliminateDeadBranches_rewrite demo_leak_def taken_if)
  then show ?thesis
    by (simp add: demo_leak_def run_block)
qed

text \<open>Constants are propagated past assignments in nested blocks: only assignments that stand
  directly in the block are looked at. \<open>local x = "a" do x = "b" end y = x\<close> sets \<open>y\<close> to
  \<open>"b"\<close>, the result of the pass to \<open>"a"\<close>.\<close>

definition demo_nested :: chunk where
  "demo_nested =
     [LocalStatement [Identifier [120]] [StringLiteral [97] []],
      DoStatement [AssignmentStatement [Identifier [120]] [StringLiteral [98] []]],
      AssignmentStatement [Identifier [121]] [Identifier [120]]]"

theorem propagation_ignores_nested_assignment:
  "(\<exists>s'. mean_block H demo_nested s = Next s' \<and> lookup_var s' [121] = LStr [98]) \<and>
   (\<exists>s'. mean_block H (fst (propagateLocalConstants demo_nested)) s = Next s' \<and>
      lookup_var s' [121] = LStr [97])"
proof -
  have "fst (propagateLocalConstants demo_nested) =
     [LocalStatement [Identifier [120]] [StringLiteral [97] []],
      DoStatement [AssignmentStatement [Identifier [120]] [StringLiteral [98] []]],
      AssignmentStatement [Identifier [121]] [StringLiteral [97] []]]"
    by code_simp
  then show ?thesis
    by (simp add: demo_nested_def run_block)
qed

end
