(* ===== verification/Gateway_Metrics.thy ===== *)
theory Gateway_Metrics
  imports JS_Map
begin

text \<open>
  The metrics of the gateway (\<open>packages/gateway/src/metrics.js\<close>): named counters and the durations of
  the last thousand jobs. Durations are whole milliseconds. The average is computed here without the
  rounding errors of double arithmetic; counters are only asked for by names that no object inherits.
\<close>

record metrics =
  counters :: "(string, nat) js_map"
  durationsMs :: "int list"

definition counter_names :: "string list" where
  "counter_names =
     [''jobs_submitted_total'', ''jobs_completed_total'', ''jobs_failed_total'', ''jobs_cancelled_total'',
      ''jobs_timed_out_total'', ''rate_limit_rejections_total'', ''admissions_l5w_total'',
      ''admissions_l4_total'', ''admissions_none_total'']"

definition new_metrics :: metrics where
  "new_metrics = \<lparr>counters = map (\<lambda>n. (n, 0)) counter_names, durationsMs = []\<rparr>"

definition inc :: "string \<Rightarrow> nat \<Rightarrow> metrics \<Rightarrow> metrics" where
  "inc name amount m =
     (case map_get (counters m) name of
        None \<Rightarrow> m
      | Some n \<Rightarrow> m\<lparr>counters := map_set (counters m) name (n + amount)\<rparr>)"

definition count :: "metrics \<Rightarrow> string \<Rightarrow> nat" where
  "count m name = (case map_get (counters m) name of None \<Rightarrow> 0 | Some n \<Rightarrow> n)"

definition recordJobDuration :: "int \<Rightarrow> metrics \<Rightarrow> metrics" where
  "recordJobDuration d m =
     (if d \<ge> 0 then
        let ds = durationsMs m @ [d]
        in m\<lparr>durationsMs := (if length ds > 1000 then tl ds else ds)\<rparr>
      else m)"

definition recordAdmission :: "string \<Rightarrow> bool \<Rightarrow> metrics \<Rightarrow> metrics" where
  "recordAdmission tier isL5WEligible m =
     (if isL5WEligible \<or> tier = ''L5-W'' then inc ''admissions_l5w_total'' 1 m
      else if tier = ''L4'' then inc ''admissions_l4_total'' 1 m
      else inc ''admissions_none_total'' 1 m)"

record snapshot =
  sn_counters :: "(string, nat) js_map"
  samples :: nat
  avg_hundredths :: int
  p50DurationMs :: int
  p95DurationMs :: int

text \<open>The value at a place of the sorted list, \<open>0\<close> when there is none.\<close>

definition percentile :: "int list \<Rightarrow> nat \<Rightarrow> int" where
  "percentile xs i = (let s = sort xs in if i < length s then s ! i else 0)"

text \<open>\<open>Math.round(avg * 100)\<close> rounds halves up; the snapshot reports this number divided by 100.\<close>

definition getSnapshot :: "metrics \<Rightarrow> snapshot" where
  "getSnapshot m =
     (let ds = durationsMs m; n = length ds
      in \<lparr>sn_counters = counters m, samples = n,
          avg_hundredths = (if n = 0 then 0 else (200 * sum_list ds + int n) div (2 * int n)),
          p50DurationMs = percentile ds (n div 2),
          p95DurationMs = percentile ds (95 * n div 100)\<rparr>)"

definition reset_metrics :: "metrics \<Rightarrow> metrics" where
  "reset_metrics m = \<lparr>counters = map (\<lambda>e. (fst e, 0)) (counters m), durationsMs = []\<rparr>"

section \<open>Observations\<close>

definition same_counters :: "metrics \<Rightarrow> bool" where
  "same_counters m \<longleftrightarrow> map_keys (counters m) = counter_names"

lemma new_metrics_names: "same_counters new_metrics"
  by (simp add: same_counters_def new_metrics_def map_keys_def o_def)

lemma inc_names: "same_counters m \<Longrightarrow> same_counters (inc name k m)"
  using map_get_None_keys[of "counters m" name]
  by (auto simp: same_counters_def inc_def map_keys_set split: option.split)

lemma count_inc: "same_counters m \<Longrightarrow> name \<in> set counter_names \<Longrightarrow>
    count (inc name k m) n = count m n + (if n = name then k else 0)"
  using map_get_None_keys[of "counters m" name]
  by (auto simp: same_counters_def count_def inc_def split: option.splits)

lemma count_duration [simp]: "count (recordJobDuration d m) n = count m n"
  "same_counters (recordJobDuration d m) = same_counters m"
  by (simp_all add: recordJobDuration_def count_def same_counters_def Let_def)

lemma admission_names: "same_counters m \<Longrightarrow> same_counters (recordAdmission t e m)"
  by (simp add: recordAdmission_def inc_names)

lemma durations_bounded: "length (durationsMs m) \<le> 1000 \<Longrightarrow> length (durationsMs (recordJobDuration d m)) \<le> 1000"
  by (simp add: recordJobDuration_def Let_def)

lemma percentile_mem: "percentile xs i \<noteq> 0 \<Longrightarrow> percentile xs i \<in> set xs"
proof -
  assume "percentile xs i \<noteq> 0"
  then have "percentile xs i \<in> set (sort xs)"
    by (auto simp: percentile_def Let_def simp del: set_sort split: if_splits)
  then show ?thesis by simp
qed

end
