(* ===== verification/Artifact_Store.thy ===== *)
theory Artifact_Store
  imports JS_Map Job_State Resp
begin

text \<open>
  The artifact stores (\<open>packages/gateway/src/artifact-store.js\<close>): the one in memory, the one shaped
  for S3 and the one on the file system. Each call reads the clock once (\<open>now\<close>, milliseconds).
  \<open>JSON.stringify\<close> and \<open>JSON.parse\<close> of a report are parameters. A report is an object.
\<close>

section \<open>Artifacts and errors\<close>

text \<open>What a lookup can return: a text, a report, or another value the record holds under the name
  (a property that every object inherits, a field of the record itself).\<close>

datatype 'r artifact = A_text js_string | A_report 'r | A_field string

datatype store_error =
  NOT_FOUND | FORBIDDEN | ARTIFACT_NOT_FOUND | ARTIFACT_EXPIRED | NO_RECORD | TOO_LARGE nat | IO_ERROR

definition MAX_CODE_BYTES :: nat where "MAX_CODE_BYTES = 5 * 1024 * 1024"
definition MAX_REPORT_BYTES :: nat where "MAX_REPORT_BYTES = 2 * 1024 * 1024"
definition MAX_LOG_BYTES :: nat where "MAX_LOG_BYTES = 1 * 1024 * 1024"

definition checked_size :: "nat \<Rightarrow> js_string \<Rightarrow> (store_error, nat) outcome" where
  "checked_size limit s =
     (let bytes = utf8_length s in if bytes > limit then throw (TOO_LARGE limit) else return bytes)"

section \<open>In memory\<close>

record 'r artifacts =
  sourceCode :: "js_string option"
  recoveredCode :: "js_string option"
  report :: "'r option"
  logs :: "js_string option"

record 'r entry =
  ownerPrincipalId :: string
  entry_createdAt :: int
  entry_expiresAt :: int
  entry_artifacts :: "'r artifacts"

record 'r local_store =
  retentionMs :: int
  storage :: "(string, 'r entry) js_map"

text \<open>The constructor; the default retention comes from the environment.\<close>

definition new_local :: "int option \<Rightarrow> int \<Rightarrow> 'r local_store" where
  "new_local opt_retentionMs artifactRetentionSeconds =
     \<lparr>retentionMs = js_or_num opt_retentionMs (artifactRetentionSeconds * 1000), storage = []\<rparr>"

definition local_init ::
  "string \<Rightarrow> string \<Rightarrow> js_string option \<Rightarrow> int \<Rightarrow> 'r local_store \<Rightarrow> 'r local_store" where
  "local_init jid owner source now s =
     s\<lparr>storage := map_set (storage s) jid
        \<lparr>ownerPrincipalId = owner, entry_createdAt = now, entry_expiresAt = now + retentionMs s,
         entry_artifacts = \<lparr>sourceCode = (if source = Some [] then None else source),
           recoveredCode = None, report = None, logs = None\<rparr>\<rparr>\<rparr>"

definition put_artifacts ::
  "string \<Rightarrow> 'r entry \<Rightarrow> 'r artifacts \<Rightarrow> 'r local_store \<Rightarrow> 'r local_store" where
  "put_artifacts jid e a s = s\<lparr>storage := map_set (storage s) jid (e\<lparr>entry_artifacts := a\<rparr>)\<rparr>"

definition local_saveCode ::
  "string \<Rightarrow> js_string \<Rightarrow> 'r local_store \<Rightarrow> 'r local_store \<times> (store_error, nat) outcome" where
  "local_saveCode jid code s =
     (case map_get (storage s) jid of
        None \<Rightarrow> (s, throw NO_RECORD)
      | Some e \<Rightarrow>
          (case checked_size MAX_CODE_BYTES code of
             Inl err \<Rightarrow> (s, throw err)
           | Inr bytes \<Rightarrow>
               (put_artifacts jid e ((entry_artifacts e)\<lparr>recoveredCode := Some code\<rparr>) s, return bytes)))"

definition local_saveReport ::
  "('r \<Rightarrow> js_string) \<Rightarrow> string \<Rightarrow> 'r \<Rightarrow> 'r local_store \<Rightarrow> 'r local_store \<times> (store_error, nat) outcome" where
  "local_saveReport stringify jid rep s =
     (case map_get (storage s) jid of
        None \<Rightarrow> (s, throw NO_RECORD)
      | Some e \<Rightarrow>
          (case checked_size MAX_REPORT_BYTES (stringify rep) of
             Inl err \<Rightarrow> (s, throw err)
           | Inr bytes \<Rightarrow>
               (put_artifacts jid e ((entry_artifacts e)\<lparr>report := Some rep\<rparr>) s, return bytes)))"

definition local_saveLogs ::
  "string \<Rightarrow> js_string \<Rightarrow> 'r local_store \<Rightarrow> 'r local_store \<times> (store_error, nat) outcome" where
  "local_saveLogs jid txt s =
     (case map_get (storage s) jid of
        None \<Rightarrow> (s, throw NO_RECORD)
      | Some e \<Rightarrow>
          (case checked_size MAX_LOG_BYTES txt of
             Inl err \<Rightarrow> (s, throw err)
           | Inr bytes \<Rightarrow>
               (put_artifacts jid e ((entry_artifacts e)\<lparr>logs := Some txt\<rparr>) s, return bytes)))"

definition local_purgeSource :: "string \<Rightarrow> 'r local_store \<Rightarrow> 'r local_store" where
  "local_purgeSource jid s =
     (case map_get (storage s) jid of
        None \<Rightarrow> s
      | Some e \<Rightarrow> put_artifacts jid e ((entry_artifacts e)\<lparr>sourceCode := None\<rparr>) s)"

text \<open>\<open>for ... of storage.entries()\<close> with deletions: the entries that stay, and how many went.\<close>

definition local_cleanup :: "int \<Rightarrow> 'r local_store \<Rightarrow> 'r local_store \<times> nat" where
  "local_cleanup now s =
     (let kept = filter (\<lambda>e. \<not> now > entry_expiresAt (snd e)) (storage s)
      in (s\<lparr>storage := kept\<rparr>, length (storage s) - length kept))"

definition artifact_field :: "string \<Rightarrow> 'r artifacts \<Rightarrow> 'r artifact option" where
  "artifact_field ty a =
     (if ty = ''sourceCode'' then map_option A_text (sourceCode a)
      else if ty = ''recoveredCode'' then map_option A_text (recoveredCode a)
      else if ty = ''report'' then map_option A_report (report a)
      else if ty = ''logs'' then map_option A_text (logs a)
      else if ty \<in> set inherited_names then Some (A_field ty)
      else None)"

definition local_getArtifact ::
  "string \<Rightarrow> string \<Rightarrow> string \<Rightarrow> int \<Rightarrow> 'r local_store \<Rightarrow> 'r local_store \<times> (store_error, 'r artifact) outcome" where
  "local_getArtifact jid ty requester now s0 =
     (let s = fst (local_cleanup now s0)
      in (s, case map_get (storage s) jid of
               None \<Rightarrow> throw NOT_FOUND
             | Some e \<Rightarrow>
                 if ownerPrincipalId e \<noteq> requester then throw FORBIDDEN
                 else (case artifact_field ty (entry_artifacts e) of
                         None \<Rightarrow> throw ARTIFACT_NOT_FOUND
                       | Some a \<Rightarrow> return a)))"

section \<open>Shaped for S3\<close>

text \<open>The metadata of a job; \<open>keys\<close> names the objects that would be written.\<close>

record 'r s3_meta =
  s3_owner :: string
  s3_createdAt :: int
  s3_expiresAt :: int
  s3_keys :: "(string, string) js_map"
  s3_code :: "js_string option"
  s3_report :: "'r option"
  s3_logs :: "js_string option"

record 'r s3_store =
  keyPrefix :: string
  s3_retentionMs :: int
  jobMetadata :: "(string, 'r s3_meta) js_map"

definition DEFAULT_RETENTION_MS :: int where
  "DEFAULT_RETENTION_MS = 24 * 60 * 60 * 1000"

text \<open>The constructor refuses options without a bucket.\<close>

definition new_s3 ::
  "string option \<Rightarrow> string option \<Rightarrow> int option \<Rightarrow> (string, 'r s3_store) outcome" where
  "new_s3 bucket prefix retention =
     (if truthy_str bucket then
        return \<lparr>keyPrefix = the (js_or_str prefix (Some ''artifacts/'')),
           s3_retentionMs = js_or_num retention DEFAULT_RETENTION_MS, jobMetadata = []\<rparr>
      else throw ''S3CompatibleArtifactStore requires a target bucket'')"

definition put_meta :: "string \<Rightarrow> 'r s3_meta \<Rightarrow> 'r s3_store \<Rightarrow> 'r s3_store" where
  "put_meta jid m s = s\<lparr>jobMetadata := map_set (jobMetadata s) jid m\<rparr>"

definition s3_init ::
  "string \<Rightarrow> string \<Rightarrow> js_string option \<Rightarrow> int \<Rightarrow> 'r s3_store \<Rightarrow> 'r s3_store" where
  "s3_init jid owner source now s =
     put_meta jid \<lparr>s3_owner = owner, s3_createdAt = now, s3_expiresAt = now + s3_retentionMs s,
       s3_keys = [], s3_code = None, s3_report = None, s3_logs = None\<rparr> s"

definition object_key :: "string \<Rightarrow> string \<Rightarrow> 'r s3_store \<Rightarrow> string" where
  "object_key jid name s = keyPrefix s @ jid @ ''/'' @ name"

definition s3_saveCode ::
  "string \<Rightarrow> js_string \<Rightarrow> 'r s3_store \<Rightarrow> 'r s3_store \<times> (store_error, nat) outcome" where
  "s3_saveCode jid code s =
     (case map_get (jobMetadata s) jid of
        None \<Rightarrow> (s, throw NO_RECORD)
      | Some m \<Rightarrow>
          (case checked_size MAX_CODE_BYTES code of
             Inl err \<Rightarrow> (s, throw err)
           | Inr bytes \<Rightarrow>
               (put_meta jid (m\<lparr>s3_keys := map_set (s3_keys m) ''recoveredCode'' (object_key jid ''recovered.lua'' s),
                  s3_code := Some code\<rparr>) s, return bytes)))"

definition s3_saveReport ::
  "('r \<Rightarrow> js_string) \<Rightarrow> string \<Rightarrow> 'r \<Rightarrow> 'r s3_store \<Rightarrow> 'r s3_store \<times> (store_error, nat) outcome" where
  "s3_saveReport stringify jid rep s =
     (case map_get (jobMetadata s) jid of
        None \<Rightarrow> (s, throw NO_RECORD)
      | Some m \<Rightarrow>
          (case checked_size MAX_REPORT_BYTES (stringify rep) of
             Inl err \<Rightarrow> (s, throw err)
           | Inr bytes \<Rightarrow>
               (put_meta jid (m\<lparr>s3_keys := map_set (s3_keys m) ''report'' (object_key jid ''report.json'' s),
                  s3_report := Some rep\<rparr>) s, return bytes)))"

definition s3_saveLogs ::
  "string \<Rightarrow> js_string \<Rightarrow> 'r s3_store \<Rightarrow> 'r s3_store \<times> (store_error, nat) outcome" where
  "s3_saveLogs jid txt s =
     (case map_get (jobMetadata s) jid of
        None \<Rightarrow> (s, throw NO_RECORD)
      | Some m \<Rightarrow>
          (case checked_size MAX_LOG_BYTES txt of
             Inl err \<Rightarrow> (s, throw err)
           | Inr bytes \<Rightarrow>
               (put_meta jid (m\<lparr>s3_keys := map_set (s3_keys m) ''logs'' (object_key jid ''execution.log'' s),
                  s3_logs := Some txt\<rparr>) s, return bytes)))"

text \<open>\<open>delete meta.sourceCode\<close> removes a property that is never set.\<close>

definition s3_purgeSource :: "string \<Rightarrow> 'r s3_store \<Rightarrow> 'r s3_store" where
  "s3_purgeSource jid s = s"

text \<open>\<open>meta[artifactType]\<close> reaches every property of the metadata.\<close>

definition meta_field :: "string \<Rightarrow> 'r s3_meta \<Rightarrow> 'r artifact option" where
  "meta_field ty m =
     (if ty = ''recoveredCode'' then map_option A_text (s3_code m)
      else if ty = ''report'' then map_option A_report (s3_report m)
      else if ty = ''logs'' then map_option A_text (s3_logs m)
      else if ty \<in> set ([''jobId'', ''ownerPrincipalId'', ''createdAt'', ''expiresAt'', ''keys''] @ inherited_names)
        then Some (A_field ty)
      else None)"

definition s3_getArtifact ::
  "string \<Rightarrow> string \<Rightarrow> string \<Rightarrow> int \<Rightarrow> 'r s3_store \<Rightarrow> 'r s3_store \<times> (store_error, 'r artifact) outcome" where
  "s3_getArtifact jid ty requester now s =
     (s, case map_get (jobMetadata s) jid of
           None \<Rightarrow> throw NOT_FOUND
         | Some m \<Rightarrow>
             if s3_owner m \<noteq> requester then throw FORBIDDEN
             else (case meta_field ty m of
                     None \<Rightarrow> throw ARTIFACT_NOT_FOUND
                   | Some a \<Rightarrow> return a))"

definition s3_cleanup :: "int \<Rightarrow> 'r s3_store \<Rightarrow> 'r s3_store \<times> nat" where
  "s3_cleanup now s =
     (let kept = filter (\<lambda>e. \<not> now > s3_expiresAt (snd e)) (jobMetadata s)
      in (s\<lparr>jobMetadata := kept\<rparr>, length (jobMetadata s) - length kept))"

end
