(* ===== verification/Recovery_Gateway.thy ===== *)
theory Recovery_Gateway
  imports Gateway_Metrics Rate_Limiter Job_Queue Artifact_Store
begin

text \<open>
  The gateway (\<open>packages/gateway/src/recovery-gateway.js\<close>) over the components it makes by default: the
  limiter, the queue and the store of one process. One call reads the clock once. Parameters: the
  SHA-256 digest, the random part of an identifier, and the worker, which returns a response or
  throws. Principals and identifiers are strings, sources are sequences of code units.
\<close>

section \<open>Data\<close>

record job_input =
  in_filename :: string
  in_sha256 :: string
  in_bytes :: nat
  in_source :: js_string

record worker_limits =
  timeoutMs :: nat
  maxInputBytes :: nat
  maxOutputBytes :: nat

record job_payload =
  schemaVersion :: string
  pl_jobId :: string
  pl_idempotencyKey :: string
  pl_input :: job_input
  requestedStage :: string
  semanticValidation :: bool
  pl_limits :: worker_limits

record admission =
  admittedTier :: string
  isL5WEligible :: bool

record worker_metrics =
  wm_durationMs :: int

record worker_artifacts =
  wa_recoveredCode :: "js_string option"
  wa_recoveredCodeSha256 :: "string option"
  wa_recoveredCodeBytes :: nat

record response =
  wr_status :: string
  wr_admission :: "admission option"
  wr_metrics :: "worker_metrics option"
  wr_artifacts :: "worker_artifacts option"
  wr_error :: "job_error option"

record recovery_report =
  rep_admission :: admission
  rep_metrics :: "worker_metrics option"

record submission =
  sub_principalId :: string
  sub_source :: js_string
  sub_filename :: "string option"
  sub_idempotencyKey :: "string option"
  sub_skipRateCheck :: bool
  sub_requestedStage :: "string option"
  sub_semanticValidation :: "bool option"
  sub_timeoutMs :: "nat option"
  sub_maxInputBytes :: "nat option"
  sub_maxOutputBytes :: "nat option"

record gateway =
  rateLimiter :: limiter
  g_queue :: "(job_payload, response) queue"
  artifactStore :: "recovery_report local_store"
  g_metrics :: metrics

datatype gateway_error =
  G_NO_PRINCIPAL | G_NO_SOURCE | G_RATE_LIMIT "limit_reason option" int | G_QUEUE queue_error |
  G_NOT_FOUND string | G_FORBIDDEN string string

definition RecoveryGateway :: "int \<Rightarrow> gateway" where
  "RecoveryGateway retentionSeconds =
     \<lparr>rateLimiter = RateLimiter \<lparr>lo_windowMs = None, lo_maxRequestsPerWindow = None, lo_burstLimit = None,
        lo_maxConcurrentPerPrincipal = None\<rparr>,
      g_queue = new_queue \<lparr>opt_maxQueueDepth = None, opt_maxRunningJobs = None,
        opt_defaultLeaseDurationMs = None, opt_maxRetries = None\<rparr>,
      artifactStore = new_local None retentionSeconds, g_metrics = new_metrics\<rparr>"

abbreviation bump :: "string \<Rightarrow> gateway \<Rightarrow> gateway" where
  "bump name g \<equiv> g\<lparr>g_metrics := inc name 1 (g_metrics g)\<rparr>"

section \<open>Submission\<close>

definition PROTOCOL_VERSION :: string where "PROTOCOL_VERSION = ''1''"

definition job_payload_of :: "(js_string \<Rightarrow> string) \<Rightarrow> string \<Rightarrow> submission \<Rightarrow> job_payload" where
  "job_payload_of sha jid s =
     \<lparr>schemaVersion = PROTOCOL_VERSION, pl_jobId = jid,
      pl_idempotencyKey = the (js_or_str (sub_idempotencyKey s) (Some jid)),
      pl_input = \<lparr>in_filename = js_nullish (sub_filename s) ''input.lua'', in_sha256 = sha (sub_source s),
        in_bytes = utf8_length (sub_source s), in_source = sub_source s\<rparr>,
      requestedStage = the (js_or_str (sub_requestedStage s) (Some ''auto'')),
      semanticValidation = (sub_semanticValidation s \<noteq> Some False),
      pl_limits = \<lparr>timeoutMs = js_or_num (sub_timeoutMs s) 30000,
        maxInputBytes = js_or_num (sub_maxInputBytes s) (5 * 1024 * 1024),
        maxOutputBytes = js_or_num (sub_maxOutputBytes s) (2 * 1024 * 1024)\<rparr>\<rparr>"

record receipt =
  rc_jobId :: string
  rc_state :: job_state
  rc_idempotencyKey :: "string option"
  rc_isDuplicate :: bool
  rc_createdAt :: int

definition receipt_of :: "('p, 'r) job \<Rightarrow> bool \<Rightarrow> receipt" where
  "receipt_of j dup = \<lparr>rc_jobId = jobId j, rc_state = state j, rc_idempotencyKey = idempotencyKey j,
     rc_isDuplicate = dup, rc_createdAt = createdAt j\<rparr>"

text \<open>The rate check, unless the caller asks to skip it.\<close>

definition submit_check :: "submission \<Rightarrow> int \<Rightarrow> gateway \<Rightarrow> gateway \<times> (gateway_error, unit) outcome" where
  "submit_check s now g =
     (if sub_skipRateCheck s then (g, return ())
      else (case checkLimit (sub_principalId s) ''submit'' now (rateLimiter g) of (l, d) \<Rightarrow>
        let g1 = g\<lparr>rateLimiter := l\<rparr>
        in if allowed d then (g1, return ())
           else (bump ''rate_limit_rejections_total'' g1, throw (G_RATE_LIMIT (reason d) (resetMs d)))))"

definition submit_data :: "(js_string \<Rightarrow> string) \<Rightarrow> string \<Rightarrow> submission \<Rightarrow> job_payload job_data" where
  "submit_data sha jid s =
     \<lparr>jd_jobId = Some jid, jd_idempotencyKey = sub_idempotencyKey s, jd_principalId = Some (sub_principalId s),
      jd_payload = job_payload_of sha jid s\<rparr>"

definition submitJobSync ::
  "(js_string \<Rightarrow> string) \<Rightarrow> string \<Rightarrow> submission \<Rightarrow> int \<Rightarrow> gateway \<Rightarrow> gateway \<times> (gateway_error, receipt) outcome" where
  "submitJobSync sha rnd s now g =
     (if sub_principalId s = [] then (g, throw G_NO_PRINCIPAL)
      else if sub_source s = [] then (g, throw G_NO_SOURCE)
      else (case submit_check s now g of
        (g1, Inl e) \<Rightarrow> (g1, throw e)
      | (g1, Inr _) \<Rightarrow>
          (let jid = ''job-'' @ rnd
           in case enqueue (g_queue g1) (submit_data sha jid s) [] now of
                Inl e \<Rightarrow> (g1, throw (G_QUEUE e))
              | Inr (q, j, True) \<Rightarrow> (g1\<lparr>g_queue := q\<rparr>, return (receipt_of j True))
              | Inr (q, j, False) \<Rightarrow>
                  let g2 = bump ''jobs_submitted_total'' (g1\<lparr>g_queue := q\<rparr>)
                  in (g2\<lparr>artifactStore := local_init (jobId j) (sub_principalId s) (Some (sub_source s)) now
                          (artifactStore g2)\<rparr>,
                      return (receipt_of j False)))))"

section \<open>Processing\<close>

text \<open>A number in a template string.\<close>

fun decimal :: "nat \<Rightarrow> string" where
  "decimal n =
     (if n < 10 then [char_of (48 + n)] else decimal (n div 10) @ [char_of (48 + n mod 10)])"

declare decimal.simps [simp del]

definition PRINCIPAL_CONCURRENCY_EXCEEDED :: "string \<Rightarrow> nat \<Rightarrow> job_error" where
  "PRINCIPAL_CONCURRENCY_EXCEEDED p m = \<lparr>err_code = ''PRINCIPAL_CONCURRENCY_EXCEEDED'',
     err_message = ''Principal '' @ [CHR 0x27] @ p @ [CHR 0x27] @
       '' has reached max concurrent jobs ('' @ decimal m @ '')''\<rparr>"

text \<open>The message of an error thrown by a save.\<close>

definition store_message :: "string \<Rightarrow> string \<Rightarrow> store_error \<Rightarrow> string" where
  "store_message what jid e =
     (case e of
        TOO_LARGE n \<Rightarrow> what @ '' exceeds maximum size limit of '' @ decimal n @ '' bytes''
      | _ \<Rightarrow> ''Artifact record not found for job: '' @ jid)"

text \<open>The two saves; the first error ends them.\<close>

definition save_results ::
  "(recovery_report \<Rightarrow> js_string) \<Rightarrow> string \<Rightarrow> response \<Rightarrow> recovery_report local_store \<Rightarrow>
   recovery_report local_store \<times> (string, unit) outcome" where
  "save_results stringify jid r st =
     (let (st1, saved) =
        (case wr_artifacts r of
           None \<Rightarrow> (st, return 0)
         | Some a \<Rightarrow>
             (case wa_recoveredCode a of
                None \<Rightarrow> (st, return 0)
              | Some c \<Rightarrow> if c = [] then (st, return 0) else local_saveCode jid c st))
      in case saved of
           Inl e \<Rightarrow> (st1, throw (store_message ''Recovered code'' jid e))
         | Inr _ \<Rightarrow>
             (case wr_admission r of
                None \<Rightarrow> (st1, return ())
              | Some a \<Rightarrow>
                  (case local_saveReport stringify jid \<lparr>rep_admission = a, rep_metrics = wr_metrics r\<rparr> st1 of
                     (st2, Inl e) \<Rightarrow> (st2, throw (store_message ''Report'' jid e))
                   | (st2, Inr _) \<Rightarrow> (st2, return ()))))"

definition record_duration :: "response \<Rightarrow> metrics \<Rightarrow> metrics" where
  "record_duration r m =
     (case wr_metrics r of
        None \<Rightarrow> m
      | Some wm \<Rightarrow> if wm_durationMs wm = 0 then m else recordJobDuration (wm_durationMs wm) m)"

definition record_admission :: "response \<Rightarrow> metrics \<Rightarrow> metrics" where
  "record_admission r m =
     (case wr_admission r of None \<Rightarrow> m | Some a \<Rightarrow> recordAdmission (admittedTier a) (isL5WEligible a) m)"

text \<open>What the end of the try block does with the response.\<close>

definition settle_job :: "string \<Rightarrow> string \<Rightarrow> response \<Rightarrow> int \<Rightarrow> gateway \<Rightarrow> gateway" where
  "settle_job jid tok r now g =
     (if wr_status r = ''completed'' then
        let g1 = bump ''jobs_completed_total'' g;
            g2 = g1\<lparr>g_metrics := record_admission r (record_duration r (g_metrics g1))\<rparr>
        in g2\<lparr>g_queue := fst (completeJob (g_queue g2) jid tok r now)\<rparr>
      else if wr_status r = ''timed_out'' then
        let g1 = bump ''jobs_timed_out_total'' g
        in g1\<lparr>g_queue := fst (failJob (g_queue g1) jid tok (wr_error r) now)\<rparr>
      else
        let g1 = bump ''jobs_failed_total'' g
        in g1\<lparr>g_queue := fst (failJob (g_queue g1) jid tok (wr_error r) now)\<rparr>)"

text \<open>The catch block.\<close>

definition dispatch_error :: "string \<Rightarrow> string \<Rightarrow> string \<Rightarrow> int \<Rightarrow> gateway \<Rightarrow> gateway" where
  "dispatch_error jid tok msg now g =
     (let g1 = bump ''jobs_failed_total'' g;
          g2 = g1\<lparr>artifactStore := local_purgeSource jid (artifactStore g1)\<rparr>
      in g2\<lparr>g_queue := fst (failJob (g_queue g2) jid tok
              (Some \<lparr>err_code = ''DISPATCH_ERROR'', err_message = msg\<rparr>) now)\<rparr>)"

text \<open>The try statement without its \<open>finally\<close>.\<close>

definition run_job ::
  "(job_payload \<Rightarrow> (string, response) outcome) \<Rightarrow> (recovery_report \<Rightarrow> js_string) \<Rightarrow> job_payload \<Rightarrow> string \<Rightarrow>
   string \<Rightarrow> int \<Rightarrow> gateway \<Rightarrow> gateway \<times> (string, response option) outcome" where
  "run_job worker stringify pl jid tok now g =
     (case worker pl of
        Inl msg \<Rightarrow> (dispatch_error jid tok msg now g, throw msg)
      | Inr r \<Rightarrow>
          (case save_results stringify jid r (artifactStore g) of
             (st, Inl msg) \<Rightarrow> (dispatch_error jid tok msg now (g\<lparr>artifactStore := st\<rparr>), throw msg)
           | (st, Inr _) \<Rightarrow>
               (settle_job jid tok r now (g\<lparr>artifactStore := local_purgeSource jid st\<rparr>), return (Some r))))"

definition processNextJobSync ::
  "(job_payload \<Rightarrow> (string, response) outcome) \<Rightarrow> (recovery_report \<Rightarrow> js_string) \<Rightarrow> string \<Rightarrow> string \<Rightarrow> int \<Rightarrow>
   gateway \<Rightarrow> gateway \<times> (string, response option) outcome" where
  "processNextJobSync worker stringify wid rnd now g =
     (case leaseNextJob (g_queue g) wid None rnd now of
        (q, None) \<Rightarrow> (g\<lparr>g_queue := q\<rparr>, return None)
      | (q, Some (j, tok, _)) \<Rightarrow>
          (let p = principalId j; (l, conc) = acquireConcurrency p (rateLimiter g);
               g1 = g\<lparr>g_queue := q, rateLimiter := l\<rparr>
           in if \<not> acquired conc then
                (g1\<lparr>g_queue := fst (failJob q (jobId j) tok
                      (Some (PRINCIPAL_CONCURRENCY_EXCEEDED p (maxAllowed conc))) now)\<rparr>, return None)
              else
                (case run_job worker stringify (payload j) (jobId j) tok now g1 of (g2, res) \<Rightarrow>
                   (g2\<lparr>rateLimiter := releaseConcurrency p (rateLimiter g2)\<rparr>, res))))"

section \<open>Looking at jobs\<close>

record result_view =
  rv_status :: string
  rv_admission :: "admission option"
  rv_metrics :: "worker_metrics option"
  rv_codeSha256 :: "string option"
  rv_codeBytes :: "nat option"

record job_view =
  jv_jobId :: string
  jv_state :: job_state
  jv_createdAt :: int
  jv_updatedAt :: int
  jv_attempts :: nat
  jv_result :: "result_view option"
  jv_error :: "job_error option"

definition result_view_of :: "response \<Rightarrow> result_view" where
  "result_view_of r =
     \<lparr>rv_status = wr_status r, rv_admission = wr_admission r, rv_metrics = wr_metrics r,
      rv_codeSha256 = (case wr_artifacts r of None \<Rightarrow> None | Some a \<Rightarrow> wa_recoveredCodeSha256 a),
      rv_codeBytes = map_option wa_recoveredCodeBytes (wr_artifacts r)\<rparr>"

definition formatJob ::
  "('p, response) job option \<Rightarrow> string \<Rightarrow> string \<Rightarrow> (gateway_error, job_view) outcome" where
  "formatJob job jid p =
     (case job of
        None \<Rightarrow> throw (G_NOT_FOUND jid)
      | Some j \<Rightarrow>
          if principalId j \<noteq> p then throw (G_FORBIDDEN p jid)
          else return \<lparr>jv_jobId = jobId j, jv_state = state j, jv_createdAt = createdAt j,
            jv_updatedAt = updatedAt j, jv_attempts = attempts j,
            jv_result = map_option result_view_of (result j), jv_error = error j\<rparr>)"

definition gateway_getJob :: "string \<Rightarrow> string \<Rightarrow> gateway \<Rightarrow> (gateway_error, job_view) outcome" where
  "gateway_getJob jid p g = formatJob (getJob (g_queue g) jid) jid p"

definition gateway_getArtifact ::
  "string \<Rightarrow> string \<Rightarrow> string \<Rightarrow> int \<Rightarrow> gateway \<Rightarrow> gateway \<times> (store_error, recovery_report artifact) outcome" where
  "gateway_getArtifact jid ty p now g =
     (case local_getArtifact jid ty p now (artifactStore g) of (st, res) \<Rightarrow> (g\<lparr>artifactStore := st\<rparr>, res))"

definition gateway_cancelJob ::
  "string \<Rightarrow> string \<Rightarrow> string option \<Rightarrow> int \<Rightarrow> gateway \<Rightarrow> gateway \<times> (gateway_error, bool) outcome" where
  "gateway_cancelJob jid p why now g =
     (case getJob (g_queue g) jid of
        None \<Rightarrow> (g, throw (G_NOT_FOUND jid))
      | Some j \<Rightarrow>
          if principalId j \<noteq> p then (g, throw (G_FORBIDDEN p jid))
          else (case cancelJob (g_queue g) jid why now of (q, cancelled) \<Rightarrow>
            let g1 = g\<lparr>g_queue := q\<rparr>
            in (if cancelled then
                  let g2 = bump ''jobs_cancelled_total'' g1
                  in g2\<lparr>artifactStore := local_purgeSource jid (artifactStore g2)\<rparr>
                else g1, return cancelled)))"

section \<open>Readiness\<close>

record baseline =
  verified :: bool
  baselineTag :: string
  totalChecked :: nat

datatype readiness = Ready bool baseline stats | Not_ready string

definition getReadiness :: "(string, baseline) outcome \<Rightarrow> int \<Rightarrow> gateway \<Rightarrow> gateway \<times> readiness" where
  "getReadiness verify now g =
     (case verify of
        Inl msg \<Rightarrow> (g, Not_ready msg)
      | Inr b \<Rightarrow> (case getStats (g_queue g) now of (q, st) \<Rightarrow>
          (g\<lparr>g_queue := q\<rparr>, Ready (verified b) b st)))"

end
