(* ===== verification/File_Store.thy ===== *)
theory File_Store
  imports Artifact_Store
begin

text \<open>
  The artifact store on the file system (\<open>FilesystemArtifactStore\<close> of
  \<open>packages/gateway/src/artifact-store.js\<close>), with the file system as directories and files under
  normalised POSIX paths. Names hold no NUL. What is written to \<open>meta.json\<close> is read back as written.
\<close>

section \<open>Paths\<close>

type_synonym path = "string list"

fun components :: "string \<Rightarrow> string list" where
  "components [] = [[]]"
| "components (c # s) =
     (if c = CHR ''/'' then [] # components s
      else (case components s of w # ws \<Rightarrow> (c # w) # ws | [] \<Rightarrow> [[c]]))"

text \<open>\<open>path.join(p, s)\<close> for a normalised absolute \<open>p\<close>.\<close>

definition enter_dir :: "path \<Rightarrow> string \<Rightarrow> path" where
  "enter_dir p c =
     (if c = '''' \<or> c = ''.'' then p else if c = ''..'' then butlast p else p @ [c])"

definition path_join :: "path \<Rightarrow> string \<Rightarrow> path" where
  "path_join p s = foldl enter_dir p (components s)"

definition below :: "path \<Rightarrow> path \<Rightarrow> bool" where
  "below p q \<longleftrightarrow> take (length p) q = p"

fun prefixes :: "'a list \<Rightarrow> 'a list list" where
  "prefixes [] = [[]]"
| "prefixes (x # xs) = [] # map ((#) x) (prefixes xs)"

section \<open>The file system\<close>

record job_meta =
  meta_owner :: string
  meta_createdAt :: int
  meta_expiresAt :: int

datatype content = F_text js_string | F_meta job_meta

record file_system =
  directories :: "path list"
  files :: "(path, content) js_map"

definition existsSync :: "path \<Rightarrow> file_system \<Rightarrow> bool" where
  "existsSync p fs \<longleftrightarrow> p \<in> set (directories fs) \<or> map_get (files fs) p \<noteq> None"

definition mkdirSync :: "path \<Rightarrow> file_system \<Rightarrow> (store_error, file_system) outcome" where
  "mkdirSync p fs =
     (if \<exists>q\<in>set (prefixes p). map_get (files fs) q \<noteq> None then throw IO_ERROR
      else return (fs\<lparr>directories := directories fs @ filter (\<lambda>q. q \<notin> set (directories fs)) (prefixes p)\<rparr>))"

definition writeFileSync :: "path \<Rightarrow> content \<Rightarrow> file_system \<Rightarrow> (store_error, file_system) outcome" where
  "writeFileSync p c fs =
     (if p \<in> set (directories fs) \<or> butlast p \<notin> set (directories fs) then throw IO_ERROR
      else return (fs\<lparr>files := map_set (files fs) p c\<rparr>))"

definition readFileSync :: "path \<Rightarrow> file_system \<Rightarrow> (store_error, content) outcome" where
  "readFileSync p fs = (case map_get (files fs) p of None \<Rightarrow> throw IO_ERROR | Some c \<Rightarrow> return c)"

definition rmSync :: "path \<Rightarrow> file_system \<Rightarrow> file_system" where
  "rmSync p fs =
     fs\<lparr>directories := filter (\<lambda>q. \<not> below p q) (directories fs),
        files := filter (\<lambda>e. \<not> below p (fst e)) (files fs)\<rparr>"

section \<open>The store\<close>

record file_store =
  baseDir :: path
  fs_retentionMs :: int
  disk :: file_system

text \<open>The constructor creates the directory.\<close>

definition new_file_store ::
  "path \<Rightarrow> int option \<Rightarrow> int \<Rightarrow> file_system \<Rightarrow> (store_error, file_store) outcome" where
  "new_file_store base opt_retentionMs artifactRetentionSeconds fs =
     and_then (mkdirSync base fs) (\<lambda>fs'.
       return \<lparr>baseDir = base,
         fs_retentionMs = js_or_num opt_retentionMs (artifactRetentionSeconds * 1000), disk = fs'\<rparr>)"

definition jobDir :: "string \<Rightarrow> file_store \<Rightarrow> path" where
  "jobDir jid s = path_join (baseDir s) jid"

definition metaFile :: "string \<Rightarrow> file_store \<Rightarrow> path" where
  "metaFile jid s = path_join (jobDir jid s) ''meta.json''"

definition on_disk :: "file_store \<Rightarrow> (store_error, file_system) outcome \<Rightarrow> file_store \<times> (store_error, unit) outcome" where
  "on_disk s r = (case r of Inl e \<Rightarrow> (s, throw e) | Inr fs \<Rightarrow> (s\<lparr>disk := fs\<rparr>, return ()))"

definition file_init ::
  "string \<Rightarrow> string \<Rightarrow> js_string option \<Rightarrow> int \<Rightarrow> file_store \<Rightarrow> file_store \<times> (store_error, unit) outcome" where
  "file_init jid owner source now s =
     on_disk s
       (and_then (mkdirSync (jobDir jid s) (disk s)) (\<lambda>fs1.
        and_then (writeFileSync (metaFile jid s)
          (F_meta \<lparr>meta_owner = owner, meta_createdAt = now, meta_expiresAt = now + fs_retentionMs s\<rparr>) fs1) (\<lambda>fs2.
        case source of
          None \<Rightarrow> return fs2
        | Some txt \<Rightarrow>
            if txt = [] then return fs2
            else writeFileSync (path_join (jobDir jid s) ''sourceCode.lua'') (F_text txt) fs2)))"

text \<open>The three \<open>save\<close> methods: a file of the job's directory, which is created when it is missing.\<close>

definition file_save ::
  "nat \<Rightarrow> string \<Rightarrow> string \<Rightarrow> js_string \<Rightarrow> file_store \<Rightarrow> file_store \<times> (store_error, unit) outcome" where
  "file_save limit name jid txt s =
     (case mkdirSync (jobDir jid s) (disk s) of
        Inl e \<Rightarrow> (s, throw e)
      | Inr fs1 \<Rightarrow>
          on_disk (s\<lparr>disk := fs1\<rparr>)
            (and_then (checked_size limit txt) (\<lambda>bytes.
               writeFileSync (path_join (jobDir jid s) name) (F_text txt) fs1)))"

definition file_saveCode :: "string \<Rightarrow> js_string \<Rightarrow> file_store \<Rightarrow> file_store \<times> (store_error, unit) outcome" where
  "file_saveCode = file_save MAX_CODE_BYTES ''recoveredCode''"

definition file_saveReport ::
  "('r \<Rightarrow> js_string) \<Rightarrow> string \<Rightarrow> 'r \<Rightarrow> file_store \<Rightarrow> file_store \<times> (store_error, unit) outcome" where
  "file_saveReport stringify jid rep = file_save MAX_REPORT_BYTES ''report'' jid (stringify rep)"

definition file_saveLogs :: "string \<Rightarrow> js_string \<Rightarrow> file_store \<Rightarrow> file_store \<times> (store_error, unit) outcome" where
  "file_saveLogs = file_save MAX_LOG_BYTES ''logs''"

text \<open>A failing \<open>unlink\<close> (of a directory) is ignored.\<close>

definition file_purgeSource :: "string \<Rightarrow> file_store \<Rightarrow> file_store" where
  "file_purgeSource jid s =
     s\<lparr>disk := (disk s)\<lparr>files := map_delete (files (disk s)) (path_join (jobDir jid s) ''sourceCode.lua'')\<rparr>\<rparr>"

definition read_artifact ::
  "(js_string \<Rightarrow> 'r option) \<Rightarrow> string \<Rightarrow> path \<Rightarrow> file_system \<Rightarrow> (store_error, 'r artifact) outcome" where
  "read_artifact parse_json ty p fs =
     (if \<not> existsSync p fs then throw ARTIFACT_NOT_FOUND
      else and_then (readFileSync p fs) (\<lambda>c.
        case c of
          F_meta m \<Rightarrow> return (A_field ''meta.json'')
        | F_text txt \<Rightarrow>
            (if ty = ''report'' then
               (case parse_json txt of Some rep \<Rightarrow> return (A_report rep) | None \<Rightarrow> return (A_text txt))
             else return (A_text txt))))"

definition file_getArtifact ::
  "(js_string \<Rightarrow> 'r option) \<Rightarrow> string \<Rightarrow> string \<Rightarrow> string \<Rightarrow> int \<Rightarrow> file_store \<Rightarrow>
   file_store \<times> (store_error, 'r artifact) outcome" where
  "file_getArtifact parse_json jid ty requester now s =
     (if \<not> existsSync (metaFile jid s) (disk s) then (s, throw NOT_FOUND)
      else case readFileSync (metaFile jid s) (disk s) of
             Inr (F_meta m) \<Rightarrow>
               (if now > meta_expiresAt m then
                  (s\<lparr>disk := rmSync (jobDir jid s) (disk s)\<rparr>, throw ARTIFACT_EXPIRED)
                else if meta_owner m \<noteq> requester then (s, throw FORBIDDEN)
                else (s, read_artifact parse_json ty (path_join (jobDir jid s) ty) (disk s)))
           | _ \<Rightarrow> (s, throw IO_ERROR))"

text \<open>\<open>readdirSync\<close>: the names directly under the base directory.\<close>

definition entries_of :: "file_store \<Rightarrow> string list" where
  "entries_of s =
     map last (filter (\<lambda>p. length p = Suc (length (baseDir s)) \<and> below (baseDir s) p)
       (directories (disk s) @ map_keys (files (disk s))))"

definition prune_entry :: "int \<Rightarrow> file_store \<times> nat \<Rightarrow> string \<Rightarrow> file_store \<times> nat" where
  "prune_entry now r name =
     (case r of (s, pruned) \<Rightarrow>
        (case map_get (files (disk s)) (baseDir s @ [name, ''meta.json'']) of
           Some (F_meta m) \<Rightarrow>
             (if now > meta_expiresAt m
              then (s\<lparr>disk := rmSync (baseDir s @ [name]) (disk s)\<rparr>, pruned + 1) else (s, pruned))
         | _ \<Rightarrow> (s, pruned)))"

definition file_cleanup :: "int \<Rightarrow> file_store \<Rightarrow> file_store \<times> nat" where
  "file_cleanup now s =
     (if existsSync (baseDir s) (disk s) then foldl (prune_entry now) (s, 0) (entries_of s) else (s, 0))"

end
