(* ===== verification/Artifact_Props.thy ===== *)
theory Artifact_Props
  imports File_Store
begin

text \<open>
  The three artifact stores keep one contract (locale \<open>artifact_store\<close>): a job has the owner of its
  last initialisation, only the owner is served, and what was saved is returned until it expires.
\<close>

section \<open>Histories\<close>

datatype store_op =
  Op_init string string "js_string option" int
| Op_save string js_string
| Op_purge string
| Op_get string string string int
| Op_cleanup int

definition op_ids :: "store_op \<Rightarrow> string set" where
  "op_ids op = (case op of Op_init j p src now \<Rightarrow> {j} | Op_save j c \<Rightarrow> {j} | Op_purge j \<Rightarrow> {j}
     | Op_get j ty q now \<Rightarrow> {j} | Op_cleanup now \<Rightarrow> {})"

text \<open>The principal that initialised the job last.\<close>

definition note_owner :: "(string \<Rightarrow> string option) \<Rightarrow> store_op \<Rightarrow> string \<Rightarrow> string option" where
  "note_owner h op = (case op of Op_init j p src now \<Rightarrow> h(j := Some p) | _ \<Rightarrow> h)"

definition last_owner :: "store_op list \<Rightarrow> string \<Rightarrow> string option" where
  "last_owner ops = foldl note_owner (\<lambda>j. None) ops"

type_synonym 's initialising = "string \<Rightarrow> string \<Rightarrow> js_string option \<Rightarrow> int \<Rightarrow> 's \<Rightarrow> 's"
type_synonym ('s, 'r) getting =
  "string \<Rightarrow> string \<Rightarrow> string \<Rightarrow> int \<Rightarrow> 's \<Rightarrow> 's \<times> (store_error, 'r artifact) outcome"

definition store_step ::
  "'s initialising \<Rightarrow> (string \<Rightarrow> js_string \<Rightarrow> 's \<Rightarrow> 's) \<Rightarrow> (string \<Rightarrow> 's \<Rightarrow> 's) \<Rightarrow> ('s, 'r) getting \<Rightarrow>
   (int \<Rightarrow> 's \<Rightarrow> 's) \<Rightarrow> store_op \<Rightarrow> 's \<Rightarrow> 's" where
  "store_step init save purge get cleanup op s =
     (case op of Op_init j p src now \<Rightarrow> init j p src now s | Op_save j c \<Rightarrow> save j c s
      | Op_purge j \<Rightarrow> purge j s | Op_get j ty q now \<Rightarrow> fst (get j ty q now s) | Op_cleanup now \<Rightarrow> cleanup now s)"

section \<open>The contract\<close>

locale artifact_store =
  fixes inv :: "'s \<Rightarrow> bool" and ok_id :: "string \<Rightarrow> bool"
    and init :: "'s initialising"
    and save :: "string \<Rightarrow> js_string \<Rightarrow> 's \<Rightarrow> 's"
    and purge :: "string \<Rightarrow> 's \<Rightarrow> 's"
    and get :: "('s, 'r) getting"
    and cleanup :: "int \<Rightarrow> 's \<Rightarrow> 's"
    and holder :: "'s \<Rightarrow> string \<Rightarrow> (string \<times> int) option"
    and code_of :: "'s \<Rightarrow> string \<Rightarrow> js_string option"
  assumes inv_init: "inv s \<Longrightarrow> ok_id j \<Longrightarrow> inv (init j p src now s)"
    and inv_save: "inv s \<Longrightarrow> ok_id j \<Longrightarrow> inv (save j c s)"
    and inv_purge: "inv s \<Longrightarrow> ok_id j \<Longrightarrow> inv (purge j s)"
    and inv_get: "inv s \<Longrightarrow> ok_id j \<Longrightarrow> inv (fst (get j ty q now s))"
    and inv_cleanup: "inv s \<Longrightarrow> inv (cleanup now s)"
    and init_holder: "inv s \<Longrightarrow> ok_id j \<Longrightarrow> ok_id j' \<Longrightarrow>
      map_option fst (holder (init j p src now s) j') = (if j' = j then Some p else map_option fst (holder s j'))"
    and save_holder: "inv s \<Longrightarrow> ok_id j \<Longrightarrow> ok_id j' \<Longrightarrow> holder (save j c s) j' = holder s j'"
    and purge_holder: "inv s \<Longrightarrow> ok_id j \<Longrightarrow> ok_id j' \<Longrightarrow> holder (purge j s) j' = holder s j'"
    and get_holder: "inv s \<Longrightarrow> ok_id j \<Longrightarrow> ok_id j' \<Longrightarrow>
      holder (fst (get j ty q now s)) j' = holder s j' \<or> holder (fst (get j ty q now s)) j' = None"
    and cleanup_holder: "inv s \<Longrightarrow> ok_id j' \<Longrightarrow>
      holder (cleanup now s) j' = holder s j' \<or> holder (cleanup now s) j' = None"
    and get_serves: "inv s \<Longrightarrow> ok_id j \<Longrightarrow> snd (get j ty q now s) = return a \<Longrightarrow>
      map_option fst (holder s j) = Some q"
    and save_code: "inv s \<Longrightarrow> ok_id j \<Longrightarrow> ok_id j' \<Longrightarrow> holder s j \<noteq> None \<Longrightarrow>
      utf8_length c \<le> MAX_CODE_BYTES \<Longrightarrow>
      code_of (save j c s) j' = (if j' = j then Some c else code_of s j')"
    and get_code: "inv s \<Longrightarrow> ok_id j \<Longrightarrow> holder s j = Some (q, ex) \<Longrightarrow> now \<le> ex \<Longrightarrow>
      code_of s j = Some c \<Longrightarrow> snd (get j ''recoveredCode'' q now s) = return (A_text c)"
begin

abbreviation do_op :: "store_op \<Rightarrow> 's \<Rightarrow> 's" where
  "do_op \<equiv> store_step init save purge get cleanup"

definition agrees :: "(string \<Rightarrow> string option) \<Rightarrow> 's \<Rightarrow> bool" where
  "agrees h s \<longleftrightarrow> inv s \<and>
     (\<forall>j. ok_id j \<longrightarrow> map_option fst (holder s j) = h j \<or> holder s j = None)"

lemma step_agrees:
  assumes "agrees h s" and "\<forall>j\<in>op_ids op. ok_id j"
  shows "agrees (note_owner h op) (do_op op s)"
proof (cases op)
  case (Op_init j p src now)
  with assms have j: "ok_id j" and s: "inv s" by (simp_all add: op_ids_def agrees_def)
  have "map_option fst (holder (init j p src now s) j') = (h(j := Some p)) j' \<or>
      holder (init j p src now s) j' = None" if "ok_id j'" for j'
    using init_holder[OF s j that, of p src now] assms(1) that by (cases "j' = j") (auto simp: agrees_def)
  then show ?thesis
    by (simp add: Op_init agrees_def note_owner_def store_step_def inv_init s j)
next
  case (Op_save j c)
  with assms show ?thesis
    by (simp add: agrees_def note_owner_def store_step_def op_ids_def inv_save save_holder)
next
  case (Op_purge j)
  with assms show ?thesis
    by (simp add: agrees_def note_owner_def store_step_def op_ids_def inv_purge purge_holder)
next
  case (Op_get j ty q now)
  with assms have "ok_id j" "inv s" by (simp_all add: op_ids_def agrees_def)
  then show ?thesis using assms(1) get_holder[of s j]
    by (simp add: Op_get agrees_def note_owner_def store_step_def inv_get) metis
next
  case (Op_cleanup now)
  with assms show ?thesis using cleanup_holder[of s]
    by (simp add: agrees_def note_owner_def store_step_def inv_cleanup) metis
qed

lemma history_agrees:
  "agrees h s \<Longrightarrow> \<forall>op\<in>set ops. \<forall>j\<in>op_ids op. ok_id j \<Longrightarrow>
    agrees (foldl note_owner h ops) (fold do_op ops s)"
proof (induction ops arbitrary: h s)
  case (Cons op ops)
  from Cons.IH[OF step_agrees[OF Cons.prems(1)]] Cons.prems(2) show ?case by simp
qed simp

lemma only_owner_is_served:
  assumes "inv s" and "\<And>j. ok_id j \<Longrightarrow> holder s j = None" and "\<forall>op\<in>set ops. \<forall>j\<in>op_ids op. ok_id j"
    and "ok_id j" and "snd (get j ty q now (fold do_op ops s)) = return a"
  shows "last_owner ops j = Some q"
proof -
  have "agrees (\<lambda>j. None) s" using assms(1,2) by (simp add: agrees_def)
  from history_agrees[OF this assms(3)] have a: "agrees (last_owner ops) (fold do_op ops s)"
    by (simp add: last_owner_def)
  then have "map_option fst (holder (fold do_op ops s) j) = Some q"
    using get_serves[OF _ assms(4,5)] by (simp add: agrees_def)
  with a assms(4) show ?thesis by (auto simp: agrees_def)
qed

lemma saved_code_is_returned:
  assumes "inv s" and "ok_id j" and "holder s j = Some (q, ex)" and "now \<le> ex"
    and "utf8_length c \<le> MAX_CODE_BYTES"
  shows "snd (get j ''recoveredCode'' q now (save j c s)) = return (A_text c)"
proof (rule get_code)
  show "inv (save j c s)" using assms by (simp add: inv_save)
  show "code_of (save j c s) j = Some c" using assms by (simp add: save_code)
  show "holder (save j c s) j = Some (q, ex)" using assms by (simp add: save_holder)
qed (use assms in simp_all)

end

section \<open>The store in memory\<close>

lemma map_get_filter: "map_wf m \<Longrightarrow> map_get (filter (\<lambda>e. P (snd e)) m) k =
    (case map_get m k of None \<Rightarrow> None | Some e \<Rightarrow> if P e then Some e else None)"
proof (induction m)
  case (Cons e m)
  then have "map_wf m" "fst e \<notin> fst ` set m" by (auto simp: map_wf_def map_keys_def)
  then show ?case using Cons.IH
    by (auto simp: map_get_def dest: map_of_SomeD intro: rev_image_eqI split: option.splits)
qed simp

lemma map_wf_filter: "map_wf m \<Longrightarrow> map_wf (filter P m)"
  by (induction m) (auto simp: map_wf_def map_keys_def)

definition local_holder :: "'r local_store \<Rightarrow> string \<Rightarrow> (string \<times> int) option" where
  "local_holder s j = map_option (\<lambda>e. (ownerPrincipalId e, entry_expiresAt e)) (map_get (storage s) j)"

definition local_code :: "'r local_store \<Rightarrow> string \<Rightarrow> js_string option" where
  "local_code s j = Option.bind (map_get (storage s) j) (\<lambda>e. recoveredCode (entry_artifacts e))"

lemmas local_defs = local_init_def local_saveCode_def local_purgeSource_def local_getArtifact_def
  local_cleanup_def put_artifacts_def local_holder_def local_code_def checked_size_def Let_def

lemma local_cleanup_get: "map_wf (storage s) \<Longrightarrow> map_get (filter (\<lambda>e. \<not> entry_expiresAt (snd e) < now) (storage s)) k =
    (case map_get (storage s) k of None \<Rightarrow> None | Some e \<Rightarrow> if \<not> entry_expiresAt e < now then Some e else None)"
  by (rule map_get_filter)

interpretation local: artifact_store "\<lambda>s. map_wf (storage s)" "\<lambda>j. True" local_init
  "\<lambda>j c s. fst (local_saveCode j c s)" local_purgeSource local_getArtifact
  "\<lambda>now s. fst (local_cleanup now s)" local_holder local_code
proof
  fix s :: "'r local_store" and j j' ty q c ex a and p :: string and src and now :: int
  note simps = local_defs map_wf_filter local_cleanup_get
  assume wf: "map_wf (storage s)"
  show "map_wf (storage (local_init j p src now s))" using wf by (simp add: simps)
  show "map_wf (storage (fst (local_saveCode j c s)))" using wf by (simp add: simps split: option.split)
  show "map_wf (storage (local_purgeSource j s))" using wf by (simp add: simps split: option.split)
  show "map_wf (storage (fst (local_getArtifact j ty q now s)))" using wf by (simp add: simps)
  show "map_wf (storage (fst (local_cleanup now s)))" using wf by (simp add: simps)
  show "map_option fst (local_holder (local_init j p src now s) j') =
      (if j' = j then Some p else map_option fst (local_holder s j'))"
    by (simp add: simps)
  show "local_holder (fst (local_saveCode j c s)) j' = local_holder s j'"
    by (auto simp: simps split: option.split)
  show "local_holder (local_purgeSource j s) j' = local_holder s j'"
    by (auto simp: simps split: option.split)
  show "local_holder (fst (local_getArtifact j ty q now s)) j' = local_holder s j' \<or>
      local_holder (fst (local_getArtifact j ty q now s)) j' = None"
    using wf by (auto simp: simps split: option.split)
  show "local_holder (fst (local_cleanup now s)) j' = local_holder s j' \<or>
      local_holder (fst (local_cleanup now s)) j' = None"
    using wf by (auto simp: simps split: option.split)
  show "map_option fst (local_holder s j) = Some q" if "snd (local_getArtifact j ty q now s) = return a"
    using wf that by (auto simp: simps split: option.splits if_splits)
  show "local_code (fst (local_saveCode j c s)) j' = (if j' = j then Some c else local_code s j')"
    if "local_holder s j \<noteq> None" "utf8_length c \<le> MAX_CODE_BYTES"
    using that by (auto simp: simps split: option.splits)
  show "snd (local_getArtifact j ''recoveredCode'' q now s) = return (A_text c)"
    if "local_holder s j = Some (q, ex)" "now \<le> ex" "local_code s j = Some c"
    using wf that by (auto simp: simps artifact_field_def bind_eq_Some_conv split: option.splits)
qed

section \<open>The store shaped for S3\<close>

definition s3_holder :: "'r s3_store \<Rightarrow> string \<Rightarrow> (string \<times> int) option" where
  "s3_holder s j = map_option (\<lambda>m. (s3_owner m, s3_expiresAt m)) (map_get (jobMetadata s) j)"

definition s3_codes :: "'r s3_store \<Rightarrow> string \<Rightarrow> js_string option" where
  "s3_codes s j = Option.bind (map_get (jobMetadata s) j) s3_code"

lemmas s3_defs = s3_init_def s3_saveCode_def s3_purgeSource_def s3_getArtifact_def s3_cleanup_def
  put_meta_def s3_holder_def s3_codes_def checked_size_def Let_def

lemma s3_cleanup_get: "map_wf (jobMetadata s) \<Longrightarrow> map_get (filter (\<lambda>e. \<not> s3_expiresAt (snd e) < now) (jobMetadata s)) k =
    (case map_get (jobMetadata s) k of None \<Rightarrow> None | Some e \<Rightarrow> if \<not> s3_expiresAt e < now then Some e else None)"
  by (rule map_get_filter)

interpretation s3: artifact_store "\<lambda>s. map_wf (jobMetadata s)" "\<lambda>j. True" s3_init
  "\<lambda>j c s. fst (s3_saveCode j c s)" s3_purgeSource s3_getArtifact
  "\<lambda>now s. fst (s3_cleanup now s)" s3_holder s3_codes
proof
  fix s :: "'r s3_store" and j j' ty q c ex a and p :: string and src and now :: int
  note simps = s3_defs map_wf_filter s3_cleanup_get
  assume wf: "map_wf (jobMetadata s)"
  show "map_wf (jobMetadata (s3_init j p src now s))" using wf by (simp add: simps)
  show "map_wf (jobMetadata (fst (s3_saveCode j c s)))" using wf by (simp add: simps split: option.split)
  show "map_wf (jobMetadata (s3_purgeSource j s))" using wf by (simp add: simps)
  show "map_wf (jobMetadata (fst (s3_getArtifact j ty q now s)))" using wf by (simp add: simps)
  show "map_wf (jobMetadata (fst (s3_cleanup now s)))" using wf by (simp add: simps)
  show "map_option fst (s3_holder (s3_init j p src now s) j') =
      (if j' = j then Some p else map_option fst (s3_holder s j'))"
    by (simp add: simps)
  show "s3_holder (fst (s3_saveCode j c s)) j' = s3_holder s j'"
    by (auto simp: simps split: option.split)
  show "s3_holder (s3_purgeSource j s) j' = s3_holder s j'"
    by (simp add: simps)
  show "s3_holder (fst (s3_getArtifact j ty q now s)) j' = s3_holder s j' \<or>
      s3_holder (fst (s3_getArtifact j ty q now s)) j' = None"
    by (simp add: simps)
  show "s3_holder (fst (s3_cleanup now s)) j' = s3_holder s j' \<or>
      s3_holder (fst (s3_cleanup now s)) j' = None"
    using wf by (auto simp: simps split: option.split)
  show "map_option fst (s3_holder s j) = Some q" if "snd (s3_getArtifact j ty q now s) = return a"
    using that by (auto simp: simps split: option.splits if_splits)
  show "s3_codes (fst (s3_saveCode j c s)) j' = (if j' = j then Some c else s3_codes s j')"
    if "s3_holder s j \<noteq> None" "utf8_length c \<le> MAX_CODE_BYTES"
    using that by (auto simp: simps split: option.splits)
  show "snd (s3_getArtifact j ''recoveredCode'' q now s) = return (A_text c)"
    if "s3_holder s j = Some (q, ex)" "now \<le> ex" "s3_codes s j = Some c"
    using that by (auto simp: simps meta_field_def bind_eq_Some_conv split: option.splits)
qed

section \<open>The store on the file system\<close>

text \<open>Identifiers that name one directory under the base directory.\<close>

definition plain :: "string \<Rightarrow> bool" where
  "plain j \<longleftrightarrow> j \<noteq> '''' \<and> j \<noteq> ''.'' \<and> j \<noteq> ''..'' \<and> CHR ''/'' \<notin> set j"

lemma components_plain: "CHR ''/'' \<notin> set w \<Longrightarrow> components w = [w]"
  by (induction w) auto

lemma components_slash: "CHR ''/'' \<notin> set w \<Longrightarrow> components (w @ CHR ''/'' # s) = w # components s"
  by (induction w) auto

lemma join_plain: "plain j \<Longrightarrow> path_join p j = p @ [j]"
  by (simp add: plain_def path_join_def components_plain enter_dir_def)

lemma plain_names: "plain ''meta.json''" "plain ''recoveredCode''" "plain ''sourceCode.lua''"
  by (simp_all add: plain_def)

lemma prefixes_append: "prefixes (p @ [x]) = prefixes p @ [p @ [x]]"
  by (induction p) auto

lemma prefixes_length: "q \<in> set (prefixes p) \<Longrightarrow> length q \<le> length p"
  by (induction p arbitrary: q) auto

lemma long_no_prefix: "p @ [j, n] \<notin> set (prefixes (p @ [j]))"
  using prefixes_length[of "p @ [j, n]" "p @ [j]"] by auto

lemma self_prefix: "p \<in> set (prefixes p)"
  by (induction p) auto

definition file_inv :: "file_store \<Rightarrow> bool" where
  "file_inv s \<longleftrightarrow>
     (\<forall>q. map_get (files (disk s)) q \<noteq> None \<longrightarrow> length q = length (baseDir s) + 2) \<and>
     (\<forall>d\<in>set (directories (disk s)). length d \<le> length (baseDir s) + 1)"

definition file_holder :: "file_store \<Rightarrow> string \<Rightarrow> (string \<times> int) option" where
  "file_holder s j =
     (case map_get (files (disk s)) (baseDir s @ [j, ''meta.json'']) of
        Some (F_meta m) \<Rightarrow> Some (meta_owner m, meta_expiresAt m) | _ \<Rightarrow> None)"

definition file_code :: "file_store \<Rightarrow> string \<Rightarrow> js_string option" where
  "file_code s j =
     (case map_get (files (disk s)) (baseDir s @ [j, ''recoveredCode'']) of
        Some (F_text t) \<Rightarrow> Some t | _ \<Rightarrow> None)"

lemma job_paths:
  assumes "plain j"
  shows "jobDir j s = baseDir s @ [j]" "metaFile j s = baseDir s @ [j, ''meta.json'']"
    "path_join (jobDir j s) ''recoveredCode'' = baseDir s @ [j, ''recoveredCode'']"
    "path_join (jobDir j s) ''sourceCode.lua'' = baseDir s @ [j, ''sourceCode.lua'']"
  using assms by (simp_all add: jobDir_def metaFile_def join_plain plain_names)

text \<open>Under the invariant a directory can be made and a file of it written.\<close>

definition with_dir :: "path \<Rightarrow> file_system \<Rightarrow> file_system" where
  "with_dir p fs = fs\<lparr>directories := directories fs @ filter (\<lambda>q. q \<notin> set (directories fs)) (prefixes p)\<rparr>"

lemma with_dir_simps [simp]: "files (with_dir p fs) = files fs" "p \<in> set (directories (with_dir p fs))"
  by (auto simp: with_dir_def self_prefix)

lemma mkdir_works: "file_inv s \<Longrightarrow> mkdirSync (baseDir s @ [j]) (disk s) = return (with_dir (baseDir s @ [j]) (disk s))"
  using prefixes_length[of _ "baseDir s @ [j]"]
  by (fastforce simp: mkdirSync_def file_inv_def with_dir_def)

lemma write_works:
  assumes "file_inv s" and "files fs = m" and "set (directories fs) = set (directories (with_dir (baseDir s @ [j]) (disk s)))"
  shows "writeFileSync (baseDir s @ [j, n]) c fs = return (fs\<lparr>files := map_set m (baseDir s @ [j, n]) c\<rparr>)"
proof -
  have "baseDir s @ [j, n] \<notin> set (directories fs)"
    using assms(1,3) long_no_prefix[of "baseDir s" j n] by (auto simp: file_inv_def with_dir_def)
  moreover have "butlast (baseDir s @ [j, n]) = baseDir s @ [j]"
    by (simp add: butlast_append)
  ultimately show ?thesis using assms(2,3) self_prefix[of "baseDir s @ [j]"]
      long_no_prefix[of "baseDir s" j n]
    by (simp add: writeFileSync_def with_dir_def)
qed

lemma inv_with_dir: "file_inv s \<Longrightarrow> file_inv (s\<lparr>disk := with_dir (baseDir s @ [j]) (disk s)\<rparr>)"
  using prefixes_length[of _ "baseDir s @ [j]"] by (fastforce simp: file_inv_def with_dir_def)

lemma map_get_filter_key: "map_get (filter (\<lambda>e. P (fst e)) m) k = (if P k then map_get m k else None)"
  by (induction m) (auto simp: map_get_def)

lemma rm_get: "map_get (files (rmSync p fs)) q = (if below p q then None else map_get (files fs) q)"
  using map_get_filter_key[of "\<lambda>q. \<not> below p q" "files fs" q] by (simp add: rmSync_def)

lemma inv_rm: "file_inv s \<Longrightarrow> file_inv (s\<lparr>disk := rmSync p (disk s)\<rparr>)"
  by (auto simp: file_inv_def rm_get) (simp add: rmSync_def)

definition init_files :: "string \<Rightarrow> string \<Rightarrow> js_string option \<Rightarrow> int \<Rightarrow> file_store \<Rightarrow> (path, content) js_map" where
  "init_files j p src now s =
     (let m = map_set (files (disk s)) (baseDir s @ [j, ''meta.json''])
           (F_meta \<lparr>meta_owner = p, meta_createdAt = now, meta_expiresAt = now + fs_retentionMs s\<rparr>)
      in case src of None \<Rightarrow> m | Some txt \<Rightarrow> if txt = [] then m
         else map_set m (baseDir s @ [j, ''sourceCode.lua'']) (F_text txt))"

lemma file_init_result:
  assumes "file_inv s" and "plain j"
  shows "fst (file_init j p src now s) =
    s\<lparr>disk := (with_dir (baseDir s @ [j]) (disk s))\<lparr>files := init_files j p src now s\<rparr>\<rparr>"
  by (cases src)
    (simp_all add: file_init_def on_disk_def job_paths join_plain plain_names assms mkdir_works write_works Let_def init_files_def)

definition saved_files :: "string \<Rightarrow> js_string \<Rightarrow> file_store \<Rightarrow> (path, content) js_map" where
  "saved_files j c s =
     (if utf8_length c \<le> MAX_CODE_BYTES
      then map_set (files (disk s)) (baseDir s @ [j, ''recoveredCode'']) (F_text c)
      else files (disk s))"

lemma file_save_result:
  assumes "file_inv s" and "plain j"
  shows "fst (file_saveCode j c s) =
    s\<lparr>disk := (with_dir (baseDir s @ [j]) (disk s))\<lparr>files := saved_files j c s\<rparr>\<rparr>"
  by (simp add: file_saveCode_def file_save_def on_disk_def job_paths join_plain plain_names assms mkdir_works write_works
      checked_size_def Let_def saved_files_def)

lemma inv_frame:
  assumes "file_inv s" and "\<And>q. map_get m q \<noteq> None \<Longrightarrow> length q = length (baseDir s) + 2"
  shows "file_inv (s\<lparr>disk := (with_dir (baseDir s @ [j]) (disk s))\<lparr>files := m\<rparr>\<rparr>)"
  using inv_with_dir[OF assms(1), of j] assms(2) by (auto simp: file_inv_def)

text \<open>Pruning removes jobs and changes no other.\<close>

definition pruned_from :: "file_store \<Rightarrow> file_store \<times> nat \<Rightarrow> bool" where
  "pruned_from s r \<longleftrightarrow> baseDir (fst r) = baseDir s \<and> file_inv (fst r) \<and>
     (\<forall>j. file_holder (fst r) j = file_holder s j \<or> file_holder (fst r) j = None)"

lemma rm_holder: "file_holder (s\<lparr>disk := rmSync p (disk s)\<rparr>) j = file_holder s j \<or>
    file_holder (s\<lparr>disk := rmSync p (disk s)\<rparr>) j = None"
  by (simp add: file_holder_def rm_get)

lemma prune_step:
  assumes "pruned_from s r"
  shows "pruned_from s (prune_entry now r name)"
proof -
  obtain t k where r: "r = (t, k)" by fastforce
  have "pruned_from s (t\<lparr>disk := rmSync p (disk t)\<rparr>, n)" for p n
    using assms inv_rm[where s = t] rm_holder[where s = t] by (simp add: pruned_from_def r) metis
  then show ?thesis using assms
    by (auto simp: prune_entry_def r pruned_from_def split: option.split content.split)
qed

lemma cleanup_prunes: "file_inv s \<Longrightarrow> pruned_from s (file_cleanup now s)"
proof -
  assume "file_inv s"
  then have "pruned_from s (s, 0)" by (simp add: pruned_from_def)
  then show ?thesis unfolding file_cleanup_def
    using foldl_invariant[of "pruned_from s" "(s, 0)" "entries_of s" "prune_entry now"] prune_step by simp
qed

interpretation disk: artifact_store file_inv plain "\<lambda>j p src now s. fst (file_init j p src now s)"
  "\<lambda>j c s. fst (file_saveCode j c s)" file_purgeSource "file_getArtifact parse_json"
  "\<lambda>now s. fst (file_cleanup now s)" file_holder file_code
proof
  fix s :: file_store and j j' ty q c ex a and p :: string and src and now :: int
  assume s: "file_inv s"
  have len: "length k = length (baseDir s) + 2" if "map_get (files (disk s)) k \<noteq> None" for k
    using s that by (simp add: file_inv_def)
  show "file_inv (fst (file_init j p src now s))" if "plain j"
    unfolding file_init_result[OF s that]
    by (rule inv_frame[OF s]) (auto simp: init_files_def Let_def len split: option.splits if_splits)
  show "file_inv (fst (file_saveCode j c s))" if "plain j"
    unfolding file_save_result[OF s that]
    by (rule inv_frame[OF s]) (auto simp: saved_files_def len split: if_splits)
  show "file_inv (file_purgeSource j s)" if "plain j"
    using s by (auto simp: file_purgeSource_def file_inv_def)
  show "file_inv (fst (file_getArtifact parse_json j ty q now s))" if "plain j"
    using s inv_rm[OF s] by (auto simp: file_getArtifact_def split: sum.split content.split)
  show "file_inv (fst (file_cleanup now s))"
    using cleanup_prunes[OF s] by (simp add: pruned_from_def)
  show "map_option fst (file_holder (fst (file_init j p src now s)) j') =
      (if j' = j then Some p else map_option fst (file_holder s j'))" if "plain j"
    by (simp add: file_init_result[OF s that] file_holder_def init_files_def Let_def split: option.split)
  show "file_holder (fst (file_saveCode j c s)) j' = file_holder s j'" if "plain j"
    by (simp add: file_save_result[OF s that] file_holder_def saved_files_def)
  show "file_holder (file_purgeSource j s) j' = file_holder s j'" if "plain j"
    by (simp add: file_purgeSource_def file_holder_def job_paths[OF that] join_plain plain_names)
  show "file_holder (fst (file_getArtifact parse_json j ty q now s)) j' = file_holder s j' \<or>
      file_holder (fst (file_getArtifact parse_json j ty q now s)) j' = None"
    using rm_holder[where s = s] by (simp add: file_getArtifact_def split: sum.split content.split)
  show "file_holder (fst (file_cleanup now s)) j' = file_holder s j' \<or>
      file_holder (fst (file_cleanup now s)) j' = None"
    using cleanup_prunes[OF s] by (simp add: pruned_from_def)
  show "map_option fst (file_holder s j) = Some q"
    if "plain j" "snd (file_getArtifact parse_json j ty q now s) = return a"
    using that(2) by (auto simp: file_getArtifact_def file_holder_def readFileSync_def job_paths[OF that(1)]
        split: if_splits option.splits content.splits)
  show "file_code (fst (file_saveCode j c s)) j' = (if j' = j then Some c else file_code s j')"
    if "plain j" "utf8_length c \<le> MAX_CODE_BYTES"
    using that(2) by (simp add: file_save_result[OF s that(1)] file_code_def saved_files_def)
  show "snd (file_getArtifact parse_json j ''recoveredCode'' q now s) = return (A_text c)"
    if "plain j" "file_holder s j = Some (q, ex)" "now \<le> ex" "file_code s j = Some c"
    using that(2-) by (auto simp: file_getArtifact_def file_holder_def file_code_def readFileSync_def
        existsSync_def read_artifact_def job_paths[OF that(1)] join_plain plain_names split: option.splits content.splits)
qed

section \<open>The stores\<close>

definition local_step :: "store_op \<Rightarrow> 'r local_store \<Rightarrow> 'r local_store" where
  "local_step = store_step local_init (\<lambda>j c s. fst (local_saveCode j c s)) local_purgeSource
     local_getArtifact (\<lambda>now s. fst (local_cleanup now s))"

definition s3_step :: "store_op \<Rightarrow> 'r s3_store \<Rightarrow> 'r s3_store" where
  "s3_step = store_step s3_init (\<lambda>j c s. fst (s3_saveCode j c s)) s3_purgeSource
     s3_getArtifact (\<lambda>now s. fst (s3_cleanup now s))"

definition file_step :: "(js_string \<Rightarrow> 'r option) \<Rightarrow> store_op \<Rightarrow> file_store \<Rightarrow> file_store" where
  "file_step parse_json = store_step (\<lambda>j p src now s. fst (file_init j p src now s))
     (\<lambda>j c s. fst (file_saveCode j c s)) file_purgeSource (file_getArtifact parse_json)
     (\<lambda>now s. fst (file_cleanup now s))"

definition empty_disk :: "path \<Rightarrow> file_system" where
  "empty_disk base = \<lparr>directories = prefixes base, files = []\<rparr>"

lemma empty_disk_inv: "file_inv \<lparr>baseDir = base, fs_retentionMs = r, disk = empty_disk base\<rparr>"
  using prefixes_length[of _ base] by (fastforce simp: file_inv_def empty_disk_def)

text \<open>An artifact is served to nobody but the owner of its job: whatever calls were made on a new
  store, if one of the three stores returns an artifact of a job to a principal, that principal
  is the one the job was last initialised for. On the file system the identifiers must name
  single directories.\<close>

theorem artifacts_served_to_owner:
  assumes "\<forall>op\<in>set ops. \<forall>i\<in>op_ids op. plain i" and "plain j"
  shows "(snd (local_getArtifact j ty q now (fold local_step ops (new_local r1 r2))) = return a1 \<longrightarrow>
      last_owner ops j = Some q) \<and>
    (snd (s3_getArtifact j ty q now (fold s3_step ops \<lparr>keyPrefix = pre, s3_retentionMs = r3, jobMetadata = []\<rparr>)) =
      return a2 \<longrightarrow> last_owner ops j = Some q) \<and>
    (snd (file_getArtifact parse_json j ty q now (fold (file_step parse_json) ops
      \<lparr>baseDir = base, fs_retentionMs = r4, disk = empty_disk base\<rparr>)) = return a3 \<longrightarrow>
      last_owner ops j = Some q)"
  using local.only_owner_is_served[of "new_local r1 r2" ops j ty q now a1]
    s3.only_owner_is_served[of "\<lparr>keyPrefix = pre, s3_retentionMs = r3, jobMetadata = []\<rparr>" ops j ty q now a2]
    disk.only_owner_is_served[of "\<lparr>baseDir = base, fs_retentionMs = r4, disk = empty_disk base\<rparr>" ops j parse_json ty q now a3]
    assms empty_disk_inv
  by (auto simp: local_step_def s3_step_def file_step_def new_local_def local_holder_def s3_holder_def
      file_holder_def empty_disk_def)

definition demo_ops :: "store_op list" where
  "demo_ops = [Op_init ''job-1'' ''ann'' (Some [120]) 0, Op_save ''job-1'' [121], Op_purge ''job-1'']"

theorem artifacts_served_to_owner_witness:
  "snd (local_getArtifact ''job-1'' ''recoveredCode'' ''ann'' 5 (fold local_step demo_ops (new_local (Some 10) 20 :: bool local_store))) =
     return (A_text [121]) \<and> last_owner demo_ops ''job-1'' = Some ''ann''"
proof -
  have served: "snd (local_getArtifact ''job-1'' ''recoveredCode'' ''ann'' 5 (fold local_step demo_ops (new_local (Some 10) 20 :: bool local_store))) =
     return (A_text [121])"
    by (simp add: demo_ops_def local_step_def store_step_def new_local_def local_init_def local_saveCode_def
        local_purgeSource_def put_artifacts_def checked_size_def MAX_CODE_BYTES_def local_getArtifact_def
        local_cleanup_def artifact_field_def js_or_num_def map_get_def)
  have names: "\<forall>op\<in>set demo_ops. \<forall>i\<in>op_ids op. plain i"
    by (simp add: demo_ops_def op_ids_def plain_def)
  have job: "plain ''job-1''" by (simp add: plain_def)
  have "last_owner demo_ops ''job-1'' = Some ''ann''"
    by (rule mp[OF conjunct1[OF artifacts_served_to_owner[OF names job]] served])
  with served show ?thesis by (rule conjI)
qed

text \<open>The file store does not confine the name of the artifact to the directory of the job: the owner of
  any job reads the recovered code of another job as \<open>../<other job>/recoveredCode\<close>.\<close>

theorem artifact_name_escapes:
  assumes "plain a" and "plain b" and "a \<noteq> b" and "utf8_length c \<le> MAX_CODE_BYTES" and "now \<le> t + r"
  shows "snd (file_getArtifact parse_json a (''../'' @ b @ ''/recoveredCode'') p now
     (fold (file_step parse_json) [Op_init a p None t, Op_init b q None t, Op_save b c]
       \<lparr>baseDir = base, fs_retentionMs = r, disk = empty_disk base\<rparr>)) = return (A_text c)"
proof -
  define s0 :: file_store where "s0 = \<lparr>baseDir = base, fs_retentionMs = r, disk = empty_disk base\<rparr>"
  define s1 where "s1 = fst (file_init a p None t s0)"
  define s2 where "s2 = fst (file_init b q None t s1)"
  define s3 where "s3 = fst (file_saveCode b c s2)"
  have 0: "file_inv s0" by (simp add: s0_def empty_disk_inv)
  have 1: "file_inv s1" unfolding s1_def by (rule disk.inv_init[OF 0 assms(1)])
  have 2: "file_inv s2" unfolding s2_def by (rule disk.inv_init[OF 1 assms(2)])
  note results = file_init_result[OF 0 assms(1), of p None t, folded s1_def]
    file_init_result[OF 1 assms(2), of q None t, folded s2_def]
    file_save_result[OF 2 assms(2), of c, folded s3_def]
  have base: "baseDir s1 = base" "baseDir s2 = base" "baseDir s3 = base"
    by (simp_all add: results s0_def)
  have "files (disk s1) = map_set [] (base @ [a, ''meta.json''])
      (F_meta \<lparr>meta_owner = p, meta_createdAt = t, meta_expiresAt = t + r\<rparr>)"
    by (simp add: results(1) init_files_def s0_def empty_disk_def)
  then have meta: "map_get (files (disk s2)) (base @ [a, ''meta.json'']) =
      Some (F_meta \<lparr>meta_owner = p, meta_createdAt = t, meta_expiresAt = t + r\<rparr>)"
    using assms(3) by (simp add: results(2) init_files_def base map_get_def)
  have get: "map_get (files (disk s3)) (base @ [b, ''recoveredCode'']) = Some (F_text c)"
    "map_get (files (disk s3)) (base @ [a, ''meta.json'']) =
      Some (F_meta \<lparr>meta_owner = p, meta_createdAt = t, meta_expiresAt = t + r\<rparr>)"
    using assms(4) by (simp_all add: results(3) saved_files_def base meta)
  have "path_join (jobDir a s3) (''../'' @ b @ ''/recoveredCode'') = base @ [b, ''recoveredCode'']"
    using assms(2) components_slash[of "''..''" "b @ ''/recoveredCode''"]
      components_slash[of b "''recoveredCode''"]
    by (simp add: base(3) job_paths[OF assms(1)] path_join_def enter_dir_def plain_def)
  then have "snd (file_getArtifact parse_json a (''../'' @ b @ ''/recoveredCode'') p now s3) = return (A_text c)"
    using assms(5) get base(3)
    by (simp add: file_getArtifact_def existsSync_def readFileSync_def read_artifact_def job_paths[OF assms(1)])
  then show ?thesis by (simp add: file_step_def store_step_def s0_def s1_def s2_def s3_def)
qed

theorem artifact_name_escapes_witness:
  "snd (file_getArtifact (\<lambda>s. Some s) ''job-1'' ''../job-2/recoveredCode'' ''ann'' 5
     (fold (file_step (\<lambda>s. Some s)) [Op_init ''job-1'' ''ann'' None 0, Op_init ''job-2'' ''bob'' None 0, Op_save ''job-2'' [121]]
       \<lparr>baseDir = [''srv''], fs_retentionMs = 10, disk = empty_disk [''srv'']\<rparr>)) = return (A_text [121])"
  using artifact_name_escapes [of "''job-1''" "''job-2''" "[121]" 5 0 10 "\<lambda>s. Some s" "''ann''" "''bob''" "[''srv'']"]
  by (simp add: plain_def MAX_CODE_BYTES_def)

end
