(* ===== verification/Gateway_Props.thy ===== *)
theory Gateway_Props
  imports Recovery_Gateway Job_Queue_Claims Rate_Limiter_Props Artifact_Props
begin

text \<open>
  The gateway as a whole: between two calls no lease and no slot is held, the owner of the artifacts
  is the owner of the job, and every job that waits is run.
\<close>

section \<open>The queue between calls\<close>

text \<open>A job that was just leased: it runs, and its lease is the only one.\<close>

definition in_hand :: "('p, 'r) queue \<Rightarrow> string \<Rightarrow> ('p, 'r) job \<Rightarrow> string \<Rightarrow> bool" where
  "in_hand q jid j tok \<longleftrightarrow> map_get (jobs q) jid = Some j \<and> state j = RUNNING \<and>
     (\<exists>l. leases q = [(jid, l)] \<and> token l = tok)"

definition started :: "('p, 'r) job \<Rightarrow> int \<Rightarrow> ('p, 'r) job" where
  "started j now = j\<lparr>state := RUNNING, attempts := attempts j + 1, updatedAt := now\<rparr>"

lemma started_simps [simp]:
  "state (started j now) = RUNNING" "attempts (started j now) = attempts j + 1"
  "principalId (started j now) = principalId j" "payload (started j now) = payload j"
  "maxRetries (started j now) = maxRetries j" "jobId (started j now) = jobId j"
  by (simp_all add: started_def)

text \<open>The queue \<open>q'\<close> has the jobs of \<open>q\<close>, except that \<open>jid\<close> is now \<open>j\<close>.\<close>

definition one_job :: "('p, 'r) queue \<Rightarrow> ('p, 'r) queue \<Rightarrow> string \<Rightarrow> ('p, 'r) job \<Rightarrow> bool" where
  "one_job q q' jid j \<longleftrightarrow> (\<forall>i. map_get (jobs q') i = (if i = jid then Some j else map_get (jobs q) i)) \<and>
     length (jobs q') = length (jobs q) \<and> q_maxRetries q' = q_maxRetries q \<and>
     maxRunningJobs q' = maxRunningJobs q \<and> idempotencyMap q' = idempotencyMap q"

lemma one_job_trans: "one_job q q1 jid j \<Longrightarrow> one_job q1 q2 jid j' \<Longrightarrow> one_job q q2 jid j'"
  by (simp add: one_job_def)

lemma lease_idle:
  assumes ok: "queue_ok q" and idle: "leases q = []" and some: "0 < maxRunningJobs q"
    and w: "waitingQueue q = jid # rest"
  obtains j q1 ex where "map_get (jobs q) jid = Some j" and "state j = QUEUED" and "jobId j = jid"
    and "leaseNextJob q wid None rnd now = (q1, Some (started j now, rnd, ex))"
    and "in_hand q1 jid (started j now) rnd" and "one_job q q1 jid (started j now)" and "waitingQueue q1 = rest"
proof -
  from waiting_queued[OF ok, of jid] w obtain j where
    j: "map_get (jobs q) jid = Some j" "state j = QUEUED" by auto
  have id: "jobId j = jid" using queue_ok_slot[OF ok, of jid] j by (simp add: slot_ok_Some)
  have same: "reclaimStaleLeases now q = q" by (simp add: reclaimStaleLeases_def idle)
  obtain q1 ex where "leaseNextJob q wid None rnd now = (q1, Some (started j now, rnd, ex))"
    "in_hand q1 jid (started j now) rnd" "one_job q q1 jid (started j now)" "waitingQueue q1 = rest"
    using j w some by (simp add: leaseNextJob_def same getActiveLeaseCount_def idle Let_def in_hand_def
        one_job_def started_def length_map_set)
  with j id that show thesis by blast
qed

lemma lease_none: "leases q = [] \<Longrightarrow> waitingQueue q = [] \<Longrightarrow> leaseNextJob q wid d rnd now = (q, None)"
  by (simp add: leaseNextJob_def reclaimStaleLeases_def Let_def)

lemma complete_in_hand:
  assumes "in_hand q jid j tok"
  shows "\<exists>q'. completeJob q jid tok r now = (q', True) \<and> leases q' = [] \<and> waitingQueue q' = waitingQueue q \<and>
    one_job q q' jid (j\<lparr>state := COMPLETED, result := Some r, updatedAt := now\<rparr>)"
proof -
  obtain l where l: "leases q = [(jid, l)]" "token l = tok" using assms by (auto simp: in_hand_def)
  have "map_get (leases q) jid = Some l" by (simp add: l map_get_def)
  then show ?thesis using assms l
    by (auto simp: in_hand_def completeJob_def transition_running one_job_def length_map_set map_delete_def
        drop_lease_def)
qed

definition after_failure :: "('p, 'r) job \<Rightarrow> job_error option \<Rightarrow> int \<Rightarrow> ('p, 'r) job" where
  "after_failure j err now =
     (if attempts j < maxRetries j then j\<lparr>state := QUEUED, updatedAt := now\<rparr>
      else j\<lparr>state := FAILED, error := err, updatedAt := now\<rparr>)"

lemma after_failure_simps [simp]:
  "principalId (after_failure j err now) = principalId j" "payload (after_failure j err now) = payload j"
  "maxRetries (after_failure j err now) = maxRetries j" "attempts (after_failure j err now) = attempts j"
  by (simp_all add: after_failure_def)

lemma fail_in_hand:
  assumes "in_hand q jid j tok"
  shows "\<exists>q'. failJob q jid tok err now = (q', True) \<and> leases q' = [] \<and>
    waitingQueue q' = (if attempts j < maxRetries j then jid # waitingQueue q else waitingQueue q) \<and>
    one_job q q' jid (after_failure j err now)"
proof -
  obtain l where l: "leases q = [(jid, l)]" "token l = tok" using assms by (auto simp: in_hand_def)
  have "map_get (leases q) jid = Some l" by (simp add: l map_get_def)
  then show ?thesis using assms l
    by (auto simp: in_hand_def failJob_def one_job_def length_map_set map_delete_def drop_lease_def
        after_failure_def Let_def)
qed

section \<open>Store and metrics\<close>

definition keeps_owners :: "'r local_store \<Rightarrow> 'r local_store \<Rightarrow> bool" where
  "keeps_owners st st' \<longleftrightarrow> (map_wf (storage st) \<longrightarrow> map_wf (storage st') \<and>
     (\<forall>j p. map_option fst (local_holder st' j) = Some p \<longrightarrow> map_option fst (local_holder st j) = Some p))"

lemma keeps_owners_refl [simp]: "keeps_owners st st"
  by (simp add: keeps_owners_def)

lemma keeps_owners_trans: "keeps_owners st st1 \<Longrightarrow> keeps_owners st1 st2 \<Longrightarrow> keeps_owners st st2"
  unfolding keeps_owners_def by blast

lemma purge_keeps_owners: "keeps_owners st (local_purgeSource jid st)"
  using local.inv_purge[of st jid] local.purge_holder[of st jid] by (simp add: keeps_owners_def)

lemma save_keeps_owners: "keeps_owners st (fst (local_saveCode jid c st))"
  using local.inv_save[where s = st and j = jid and c = c] local.save_holder[where s = st and j = jid and c = c] by (simp add: keeps_owners_def)

lemma report_keeps_owners: "keeps_owners st (fst (local_saveReport stringify jid r st))"
  by (auto simp: keeps_owners_def local_saveReport_def put_artifacts_def local_holder_def
      split: option.splits sum.splits if_splits)

lemma get_keeps_owners: "keeps_owners st (fst (local_getArtifact jid ty q now st))"
proof -
  have "map_option fst (local_holder st j) = Some p"
    if "map_wf (storage st)" "map_option fst (local_holder (fst (local_getArtifact jid ty q now st)) j) = Some p" for j p
    using local.get_holder[OF that(1), where j = jid and j' = j and ty = ty and q = q and now = now] that(2) by auto
  then show ?thesis using local.inv_get[where s = st and j = jid and ty = ty and q = q and now = now] by (simp add: keeps_owners_def)
qed

lemma saves_keep_owners: "keeps_owners st (fst (save_results stringify jid r st))"
proof -
  define saved where "saved = (case wr_artifacts r of None \<Rightarrow> (st, return 0)
    | Some a \<Rightarrow> (case wa_recoveredCode a of None \<Rightarrow> (st, return 0)
        | Some c \<Rightarrow> if c = [] then (st, return 0) else local_saveCode jid c st))"
  obtain st1 res where s: "saved = (st1, res)" by fastforce
  have "keeps_owners st (fst saved)"
    by (auto simp: saved_def save_keeps_owners split: option.split)
  then have 1: "keeps_owners st st1" by (simp add: s)
  have "keeps_owners st (fst (local_saveReport stringify jid x st1))" for x
    using keeps_owners_trans[OF 1 report_keeps_owners] .
  with 1 show ?thesis unfolding save_results_def saved_def[symmetric] s
    by (auto split: sum.split option.split prod.split) (metis fst_conv)+
qed

definition keeps_submitted :: "metrics \<Rightarrow> metrics \<Rightarrow> bool" where
  "keeps_submitted m m' \<longleftrightarrow> (same_counters m \<longrightarrow> same_counters m' \<and>
     count m' ''jobs_submitted_total'' = count m ''jobs_submitted_total'')"

lemma keeps_submitted_refl [simp]: "keeps_submitted m m"
  by (simp add: keeps_submitted_def)

lemma keeps_submitted_trans: "keeps_submitted m m1 \<Longrightarrow> keeps_submitted m1 m2 \<Longrightarrow> keeps_submitted m m2"
  by (simp add: keeps_submitted_def)

lemma inc_keeps_submitted: "name \<in> set (tl counter_names) \<Longrightarrow> keeps_submitted m (inc name k m)"
  by (auto simp: keeps_submitted_def inc_names count_inc counter_names_def)

lemma record_keeps_submitted:
  "keeps_submitted m (record_duration r m)" "keeps_submitted m (record_admission r m)"
  by (auto simp: keeps_submitted_def record_duration_def record_admission_def recordAdmission_def
      inc_names count_inc counter_names_def split: option.split)

section \<open>Running a job\<close>

text \<open>The response with which a job is completed.\<close>

definition delivered ::
  "(job_payload \<Rightarrow> (string, response) outcome) \<Rightarrow> (recovery_report \<Rightarrow> js_string) \<Rightarrow> job_payload \<Rightarrow> string \<Rightarrow>
   recovery_report local_store \<Rightarrow> response option" where
  "delivered worker stringify pl jid st =
     (case worker pl of
        Inl _ \<Rightarrow> None
      | Inr r \<Rightarrow> if wr_status r = ''completed'' \<and> snd (save_results stringify jid r st) = return ()
                 then Some r else None)"

lemma run_job_frame:
  "rateLimiter (fst (run_job worker stringify pl jid tok now g)) = rateLimiter g"
  "keeps_owners (artifactStore g) (artifactStore (fst (run_job worker stringify pl jid tok now g)))"
  "keeps_submitted (g_metrics g) (g_metrics (fst (run_job worker stringify pl jid tok now g)))"
proof -
  note defs = run_job_def dispatch_error_def settle_job_def
  have saved: "keeps_owners (artifactStore g) st" if "save_results stringify jid r (artifactStore g) = (st, x)" for r st x
    using saves_keep_owners[of "artifactStore g" stringify jid r] that by simp
  show "rateLimiter (fst (run_job worker stringify pl jid tok now g)) = rateLimiter g"
    by (simp add: defs Let_def split: sum.split prod.split)
  show "keeps_owners (artifactStore g) (artifactStore (fst (run_job worker stringify pl jid tok now g)))"
    by (auto simp: defs Let_def purge_keeps_owners split: sum.split prod.split
        intro: keeps_owners_trans[OF saved purge_keeps_owners])
  have "keeps_submitted m (record_admission r (record_duration r (inc ''jobs_completed_total'' 1 m)))" for r m
    using keeps_submitted_trans[OF inc_keeps_submitted[of "''jobs_completed_total''" m 1]
        keeps_submitted_trans[OF record_keeps_submitted(1) record_keeps_submitted(2)]]
    by (simp add: counter_names_def)
  then show "keeps_submitted (g_metrics g) (g_metrics (fst (run_job worker stringify pl jid tok now g)))"
    by (simp add: defs Let_def inc_keeps_submitted counter_names_def split: sum.split prod.split)
qed

lemma run_job_queue:
  "g_queue (fst (run_job worker stringify pl jid tok now g)) =
     (case delivered worker stringify pl jid (artifactStore g) of Some r \<Rightarrow> fst (completeJob (g_queue g) jid tok r now)
      | None \<Rightarrow> g_queue (fst (run_job worker stringify pl jid tok now g)))"
  "delivered worker stringify pl jid (artifactStore g) = None \<Longrightarrow>
     \<exists>err. g_queue (fst (run_job worker stringify pl jid tok now g)) = fst (failJob (g_queue g) jid tok err now)"
  by (auto simp: run_job_def delivered_def dispatch_error_def settle_job_def Let_def split: sum.split prod.split)

lemma run_job_settles:
  assumes "in_hand (g_queue g) jid j tok"
    and g2_def: "g2 = fst (run_job worker stringify pl jid tok now g)"
  obtains (completed) r where "delivered worker stringify pl jid (artifactStore g) = Some r"
      "one_job (g_queue g) (g_queue g2) jid (j\<lparr>state := COMPLETED, result := Some r, updatedAt := now\<rparr>)"
      "waitingQueue (g_queue g2) = waitingQueue (g_queue g)" "leases (g_queue g2) = []"
  | (failed) err where "delivered worker stringify pl jid (artifactStore g) = None"
      "one_job (g_queue g) (g_queue g2) jid (after_failure j err now)" "leases (g_queue g2) = []"
      "waitingQueue (g_queue g2) = (if attempts j < maxRetries j then jid # waitingQueue (g_queue g) else waitingQueue (g_queue g))"
proof (cases "delivered worker stringify pl jid (artifactStore g)")
  case None
  from run_job_queue(2)[OF None] obtain err where "g_queue g2 = fst (failJob (g_queue g) jid tok err now)"
    unfolding g2_def by blast
  with fail_in_hand[OF assms(1), of err now] show thesis by (auto intro: failed[OF None])
next
  case (Some r)
  then have "g_queue g2 = fst (completeJob (g_queue g) jid tok r now)"
    unfolding g2_def by (subst run_job_queue(1)) simp
  with complete_in_hand[OF assms(1), of r now] show thesis by (auto intro: completed[OF Some])
qed

lemma run_job_ok: "queue_ok (g_queue g) \<Longrightarrow> queue_ok (g_queue (fst (run_job worker stringify pl jid tok now g)))"
proof (cases "delivered worker stringify pl jid (artifactStore g)")
  case None
  assume "queue_ok (g_queue g)"
  with run_job_queue(2)[OF None, of tok now] show ?thesis by (auto intro: fail_ok)
next
  case (Some r)
  assume "queue_ok (g_queue g)"
  with Some show ?thesis by (subst run_job_queue(1)) (simp add: complete_ok)
qed

section \<open>The invariant\<close>

definition owners_agree :: "gateway \<Rightarrow> bool" where
  "owners_agree g \<longleftrightarrow> (\<forall>jid p. map_option fst (local_holder (artifactStore g) jid) = Some p \<longrightarrow>
     (\<exists>j. map_get (jobs (g_queue g)) jid = Some j \<and> principalId j = p))"

definition no_slot_taken :: "limiter \<Rightarrow> bool" where
  "no_slot_taken l \<longleftrightarrow> 0 < maxConcurrent l \<and> (\<forall>p. active_count l p = 0)"

definition gateway_ok :: "gateway \<Rightarrow> bool" where
  "gateway_ok g \<longleftrightarrow> queue_ok (g_queue g) \<and> leases (g_queue g) = [] \<and> 0 < maxRunningJobs (g_queue g) \<and>
     no_slot_taken (rateLimiter g) \<and> map_wf (storage (artifactStore g)) \<and> owners_agree g \<and>
     same_counters (g_metrics g) \<and>
     count (g_metrics g) ''jobs_submitted_total'' = length (jobs (g_queue g))"

text \<open>The owners still agree when artifacts are only dropped and jobs keep their principals.\<close>

lemma owners_agree_step:
  assumes "owners_agree g" and "map_wf (storage (artifactStore g))"
    and "keeps_owners (artifactStore g) (artifactStore g')"
    and "\<And>jid j. map_get (jobs (g_queue g)) jid = Some j \<Longrightarrow>
      \<exists>j'. map_get (jobs (g_queue g')) jid = Some j' \<and> principalId j' = principalId j"
  shows "owners_agree g' \<and> map_wf (storage (artifactStore g'))"
  using assms unfolding owners_agree_def keeps_owners_def by metis

lemma slot_cycle:
  assumes "no_slot_taken l"
  shows "acquired (snd (acquireConcurrency p l))"
    and "no_slot_taken (releaseConcurrency p (fst (acquireConcurrency p l)))"
  using assms by (auto simp: no_slot_taken_def acquireConcurrency_def releaseConcurrency_def active_count_def Let_def
      split: option.splits)

lemma one_job_principal:
  assumes "one_job q q' jid j'" and "map_get (jobs q) jid = Some j" and "principalId j' = principalId j"
    and "map_get (jobs q) i = Some k"
  shows "\<exists>k'. map_get (jobs q') i = Some k' \<and> principalId k' = principalId k"
  using assms by (auto simp: one_job_def)

text \<open>What a call of the worker does, when a job waits.\<close>

lemma process_runs_head:
  assumes ok: "gateway_ok g" and w: "waitingQueue (g_queue g) = jid # rest"
  obtains j g1 where "map_get (jobs (g_queue g)) jid = Some j" and "state j = QUEUED"
    and "in_hand (g_queue g1) jid (started j now) rnd" and "waitingQueue (g_queue g1) = rest"
    and "one_job (g_queue g) (g_queue g1) jid (started j now)" and "queue_ok (g_queue g1)"
    and "artifactStore g1 = artifactStore g" and "g_metrics g1 = g_metrics g"
    and "rateLimiter g1 = fst (acquireConcurrency (principalId j) (rateLimiter g))"
    and "processNextJobSync worker stringify wid rnd now g =
      (case run_job worker stringify (payload j) jid rnd now g1 of (g2, res) \<Rightarrow>
        (g2\<lparr>rateLimiter := releaseConcurrency (principalId j) (rateLimiter g2)\<rparr>, res))"
proof -
  have q: "queue_ok (g_queue g)" "leases (g_queue g) = []" "0 < maxRunningJobs (g_queue g)"
    and slot: "no_slot_taken (rateLimiter g)" using ok by (simp_all add: gateway_ok_def)
  from lease_idle[OF q w, where wid = wid and now = now and rnd = rnd] obtain j q1 ex where
    j: "map_get (jobs (g_queue g)) jid = Some j" "state j = QUEUED" "jobId j = jid"
    and l: "leaseNextJob (g_queue g) wid None rnd now = (q1, Some (started j now, rnd, ex))"
    and h: "in_hand q1 jid (started j now) rnd" "one_job (g_queue g) q1 jid (started j now)" "waitingQueue q1 = rest" .
  have q1: "queue_ok q1" using lease_ok[OF q(1), of wid None rnd now] l by simp
  obtain lim conc where a: "acquireConcurrency (principalId j) (rateLimiter g) = (lim, conc)" by fastforce
  with slot_cycle(1)[OF slot, of "principalId j"] have "acquired conc" by simp
  then have "processNextJobSync worker stringify wid rnd now g =
      (case run_job worker stringify (payload j) jid rnd now (g\<lparr>g_queue := q1, rateLimiter := lim\<rparr>) of (g2, res) \<Rightarrow>
        (g2\<lparr>rateLimiter := releaseConcurrency (principalId j) (rateLimiter g2)\<rparr>, res))"
    by (simp add: processNextJobSync_def l a j(3))
  with that[of j "g\<lparr>g_queue := q1, rateLimiter := lim\<rparr>"] j h q1 a show thesis by simp
qed

lemma process_ok: "gateway_ok g \<Longrightarrow> gateway_ok (fst (processNextJobSync worker stringify wid rnd now g))"
proof (cases "waitingQueue (g_queue g)")
  case Nil
  assume "gateway_ok g"
  with Nil show ?thesis by (simp add: processNextJobSync_def lease_none gateway_ok_def owners_agree_def)
next
  case (Cons jid rest)
  assume ok: "gateway_ok g"
  obtain j g1 where j: "map_get (jobs (g_queue g)) jid = Some j" and q: "state j = QUEUED"
    and h: "in_hand (g_queue g1) jid (started j now) rnd" and w: "waitingQueue (g_queue g1) = rest"
    and o: "one_job (g_queue g) (g_queue g1) jid (started j now)" and q1: "queue_ok (g_queue g1)"
    and same: "artifactStore g1 = artifactStore g" "g_metrics g1 = g_metrics g"
      "rateLimiter g1 = fst (acquireConcurrency (principalId j) (rateLimiter g))"
    and p: "processNextJobSync worker stringify wid rnd now g =
      (case run_job worker stringify (payload j) jid rnd now g1 of (g2, res) \<Rightarrow>
        (g2\<lparr>rateLimiter := releaseConcurrency (principalId j) (rateLimiter g2)\<rparr>, res))"
    by (rule process_runs_head[OF ok Cons, where now = now and rnd = rnd and worker = worker
          and stringify = stringify and wid = wid])
  define g2 where "g2 = fst (run_job worker stringify (payload j) jid rnd now g1)"
  have res: "fst (processNextJobSync worker stringify wid rnd now g) =
      g2\<lparr>rateLimiter := releaseConcurrency (principalId j) (rateLimiter g2)\<rparr>"
    by (simp add: p g2_def split: prod.split)
  obtain j2 where j2: "one_job (g_queue g1) (g_queue g2) jid j2" "principalId j2 = principalId j" "leases (g_queue g2) = []"
  proof (cases rule: run_job_settles[OF h g2_def])
    case (1 r)
    with that show thesis by simp
  next
    case (2 err)
    with that show thesis by simp
  qed
  note o2 = one_job_trans[OF o j2(1)]
  note frame = run_job_frame[where worker = worker and stringify = stringify and pl = "payload j" and jid = jid
      and tok = rnd and now = now and g = g1, folded g2_def, unfolded same]
  have "owners_agree g2 \<and> map_wf (storage (artifactStore g2))"
    using owners_agree_step[of g g2] frame(2) one_job_principal[OF o2 j j2(2)] ok by (simp add: gateway_ok_def)
  moreover have "queue_ok (g_queue g2)" unfolding g2_def by (rule run_job_ok[OF q1])
  moreover have "no_slot_taken (releaseConcurrency (principalId j) (rateLimiter g2))"
    unfolding frame(1) using ok by (simp add: gateway_ok_def slot_cycle(2))
  moreover have "same_counters (g_metrics g2) \<and> count (g_metrics g2) ''jobs_submitted_total'' = length (jobs (g_queue g2))
      \<and> 0 < maxRunningJobs (g_queue g2)"
    using frame(3) o2 ok by (simp add: gateway_ok_def keeps_submitted_def one_job_def)
  ultimately show ?thesis using j2(3) by (simp add: res gateway_ok_def owners_agree_def)
qed

lemma check_frame: "fst (submit_check s now g) = g1 \<Longrightarrow>
    g_queue g1 = g_queue g \<and> artifactStore g1 = artifactStore g \<and> maxConcurrent (rateLimiter g1) = maxConcurrent (rateLimiter g) \<and>
    activeJobs (rateLimiter g1) = activeJobs (rateLimiter g) \<and> keeps_submitted (g_metrics g) (g_metrics g1)"
  by (auto simp: submit_check_def checkLimit_def Let_def inc_keeps_submitted counter_names_def)

lemma gateway_ok_frame:
  assumes "gateway_ok g" and "g_queue g1 = g_queue g" and "artifactStore g1 = artifactStore g"
    and "maxConcurrent (rateLimiter g1) = maxConcurrent (rateLimiter g)"
    and "activeJobs (rateLimiter g1) = activeJobs (rateLimiter g)" and "keeps_submitted (g_metrics g) (g_metrics g1)"
  shows "gateway_ok g1"
  using assms by (simp add: gateway_ok_def no_slot_taken_def active_count_def owners_agree_def keeps_submitted_def)

lemma check_ok: "gateway_ok g \<Longrightarrow> gateway_ok (fst (submit_check s now g))"
  using check_frame[OF refl, of s now g] by (blast intro: gateway_ok_frame)

definition fresh :: "string \<Rightarrow> gateway \<Rightarrow> bool" where
  "fresh rnd g \<longleftrightarrow> map_get (jobs (g_queue g)) (''job-'' @ rnd) = None"

lemma enqueue_gateway:
  assumes ok: "gateway_ok g" and new: "map_get (jobs (g_queue g)) jid = None" and jid: "jid \<noteq> []"
    and e: "enqueue (g_queue g) (submit_data sha jid s) [] now = Inr (q, j, False)"
    and p: "sub_principalId s \<noteq> []"
  shows "gateway_ok (g\<lparr>g_queue := q, g_metrics := inc ''jobs_submitted_total'' 1 (g_metrics g),
    artifactStore := local_init (jobId j) (sub_principalId s) (Some (sub_source s)) now (artifactStore g)\<rparr>)"
    (is "gateway_ok ?g")
proof -
  let ?d = "submit_data sha jid s"
  have id: "new_id ?d [] = jid" using jid by (simp add: new_id_def submit_data_def)
  have q: "j = new_job (g_queue g) ?d [] now" "q = emit (Ev_enqueued (new_id ?d []))
      ((record_key (request_key ?d) (new_id ?d []) (put_job (new_id ?d []) (new_job (g_queue g) ?d [] now) (g_queue g)))
        \<lparr>waitingQueue := waitingQueue (g_queue g) @ [new_id ?d []]\<rparr>)"
    using enqueue_cases[OF e] by blast+
  have jobs: "jobs q = map_set (jobs (g_queue g)) jid j" by (simp add: q id)
  have id_j: "jobId j = jid" by (simp add: q(1) id)
  have owner: "principalId j = sub_principalId s" using p by (simp add: q(1) new_job_def submit_data_def)
  have holder: "map_option fst (local_holder (artifactStore ?g) i) =
      (if i = jid then Some (sub_principalId s) else map_option fst (local_holder (artifactStore g) i))" for i
    using ok local.init_holder[where s = "artifactStore g" and j = jid and j' = i]
    by (simp add: gateway_ok_def id_j)
  have "owners_agree ?g" using ok unfolding owners_agree_def holder
    by (auto simp: jobs owner gateway_ok_def owners_agree_def)
  moreover have "map_wf (storage (artifactStore ?g))"
    using ok local.inv_init[where s = "artifactStore g"] by (simp add: gateway_ok_def)
  moreover have "queue_ok q" using ok enqueue_ok[OF _ e] new by (simp add: gateway_ok_def id)
  moreover have "leases q = [] \<and> maxRunningJobs q = maxRunningJobs (g_queue g)"
    using ok by (simp add: q(2) gateway_ok_def)
  moreover have "length (jobs q) = length (jobs (g_queue g)) + 1"
    using new by (simp add: jobs length_map_set)
  ultimately show ?thesis using ok
    by (simp add: gateway_ok_def inc_names count_inc counter_names_def)
qed

lemma submit_ok: "gateway_ok g \<Longrightarrow> fresh rnd g \<Longrightarrow> gateway_ok (fst (submitJobSync sha rnd s now g))"
proof -
  assume ok: "gateway_ok g" and f: "fresh rnd g"
  obtain g1 r where c: "submit_check s now g = (g1, r)" by fastforce
  have ok1: "gateway_ok g1" using check_ok[OF ok, of s now] c by simp
  have f1: "map_get (jobs (g_queue g1)) (''job-'' @ rnd) = None"
    using check_frame[of s now g g1] c f by (simp add: fresh_def)
  have "gateway_ok (g1\<lparr>g_queue := q\<rparr>)"
    if "enqueue (g_queue g1) (submit_data sha (''job-'' @ rnd) s) [] now = Inr (q, j, True)" for q j
    using that ok1 by (auto elim: enqueue_cases)
  with enqueue_gateway[OF ok1 f1] ok ok1 show ?thesis
    by (auto simp: submitJobSync_def c Let_def split: sum.split prod.split bool.split)
qed

lemma cancel_gateway_ok: "gateway_ok g \<Longrightarrow> gateway_ok (fst (gateway_cancelJob jid p why now g))"
proof (cases "map_get (jobs (g_queue g)) jid")
  case (Some j)
  assume ok: "gateway_ok g"
  obtain q c where q: "cancelJob (g_queue g) jid why now = (q, c)" by fastforce
  have "queue_ok q" using cancel_ok[of "g_queue g" jid why now] ok q by (simp add: gateway_ok_def)
  moreover have "leases q = [] \<and> maxRunningJobs q = maxRunningJobs (g_queue g) \<and> length (jobs q) = length (jobs (g_queue g))"
    using ok q Some by (auto simp: cancelJob_def gateway_ok_def Let_def length_map_set drop_lease_def map_delete_def
        split: if_splits)
  moreover have "\<exists>k'. map_get (jobs q) i = Some k' \<and> principalId k' = principalId k"
    if "map_get (jobs (g_queue g)) i = Some k" for i k
    using q Some that by (auto simp: cancelJob_def Let_def split: if_splits)
  then have "owners_agree g' \<and> map_wf (storage (artifactStore g'))"
    if "g_queue g' = q" "keeps_owners (artifactStore g) (artifactStore g')" for g'
    using owners_agree_step[of g g'] ok that by (simp add: gateway_ok_def)
  ultimately show ?thesis using ok
    by (auto simp: gateway_cancelJob_def getJob_def Some q Let_def gateway_ok_def purge_keeps_owners inc_names
        count_inc counter_names_def)
qed (simp add: gateway_cancelJob_def getJob_def)

lemma artifact_ok: "gateway_ok g \<Longrightarrow> gateway_ok (fst (gateway_getArtifact jid ty p now g))"
proof -
  assume ok: "gateway_ok g"
  obtain st res where r: "local_getArtifact jid ty p now (artifactStore g) = (st, res)" by fastforce
  have "keeps_owners (artifactStore g) st"
    using get_keeps_owners[of "artifactStore g" jid ty p now] by (simp add: r)
  with owners_agree_step[of g "g\<lparr>artifactStore := st\<rparr>"] ok show ?thesis
    by (simp add: gateway_ok_def gateway_getArtifact_def r)
qed

lemma readiness_ok: "gateway_ok g \<Longrightarrow> gateway_ok (fst (getReadiness verify now g))"
proof -
  assume ok: "gateway_ok g"
  then have "reclaimStaleLeases now (g_queue g) = g_queue g" by (simp add: gateway_ok_def reclaimStaleLeases_def)
  with ok show ?thesis by (simp add: getReadiness_def getStats_def Let_def split: sum.split)
qed

section \<open>Runs\<close>

text \<open>The calls a gateway answers; the identifier of a submission is new.\<close>

inductive gateway_step :: "gateway \<Rightarrow> gateway \<Rightarrow> bool" where
  call_submit: "fresh rnd g \<Longrightarrow> gateway_step g (fst (submitJobSync sha rnd s now g))"
| call_process: "gateway_step g (fst (processNextJobSync worker stringify wid rnd now g))"
| call_artifact: "gateway_step g (fst (gateway_getArtifact jid ty p now g))"
| call_cancel: "gateway_step g (fst (gateway_cancelJob jid p why now g))"
| call_readiness: "gateway_step g (fst (getReadiness verify now g))"

inductive gateway_reach :: "gateway \<Rightarrow> bool" where
  gateway_new: "gateway_reach (RecoveryGateway retention)"
| gateway_next: "gateway_reach g \<Longrightarrow> gateway_step g g' \<Longrightarrow> gateway_reach g'"

lemma new_gateway_ok: "gateway_ok (RecoveryGateway retention)"
proof -
  have "queue_ok (g_queue (RecoveryGateway retention))" by (simp add: RecoveryGateway_def new_queue_ok)
  then show ?thesis
    by (simp add: gateway_ok_def RecoveryGateway_def new_queue_def no_slot_taken_def active_count_def RateLimiter_def
        new_local_def owners_agree_def local_holder_def new_metrics_names)
      (simp add: count_def new_metrics_def counter_names_def map_get_def)
qed

lemma gateway_step_ok: "gateway_step g g' \<Longrightarrow> gateway_ok g \<Longrightarrow> gateway_ok g'"
  by (induction rule: gateway_step.induct)
    (auto intro: submit_ok process_ok artifact_ok cancel_gateway_ok readiness_ok)

lemma gateway_reach_ok: "gateway_reach g \<Longrightarrow> gateway_ok g"
  by (induction rule: gateway_reach.induct) (auto intro: new_gateway_ok gateway_step_ok)

section \<open>What the gateway guarantees\<close>

lemma idle_not_running: "gateway_ok g \<Longrightarrow> map_get (jobs (g_queue g)) jid = Some j \<Longrightarrow> state j \<noteq> RUNNING"
proof -
  assume ok: "gateway_ok g" and j: "map_get (jobs (g_queue g)) jid = Some j"
  have "queue_ok (g_queue g)" using ok by (simp add: gateway_ok_def)
  from queue_ok_slot[OF this, of jid] ok j show ?thesis by (auto simp: slot_ok_Some gateway_ok_def)
qed

text \<open>Between two calls of a gateway nothing is held: no job runs, there is no lease, no principal
  occupies a slot, and the counter of submissions is the number of jobs.\<close>

theorem gateway_holds_nothing:
  assumes "gateway_reach g"
  shows "leases (g_queue g) = [] \<and> (\<forall>p. active_count (rateLimiter g) p = 0) \<and>
    (\<forall>jid j. getJob (g_queue g) jid = Some j \<longrightarrow> state j \<noteq> RUNNING) \<and>
    count (g_metrics g) ''jobs_submitted_total'' = length (jobs (g_queue g))"
  using gateway_reach_ok[OF assms] idle_not_running[of g]
  by (auto simp: getJob_def gateway_ok_def no_slot_taken_def)

text \<open>C26. Artifacts are served to the owner of the job only: if the gateway returns an artifact of a job to a
  principal, the queue holds that job, and it is the principal's own.\<close>

theorem artifacts_follow_job_owner:
  assumes "gateway_reach g" and "snd (gateway_getArtifact jid ty p now g) = return a"
  shows "\<exists>j. getJob (g_queue g) jid = Some j \<and> principalId j = p"
proof -
  have ok: "gateway_ok g" by (rule gateway_reach_ok[OF assms(1)])
  have "snd (local_getArtifact jid ty p now (artifactStore g)) = return a"
    using assms(2) by (simp add: gateway_getArtifact_def split: prod.splits)
  then have "map_option fst (local_holder (artifactStore g) jid) = Some p"
    using local.get_serves[where s = "artifactStore g" and j = jid] ok by (simp add: gateway_ok_def)
  with ok show ?thesis by (simp add: gateway_ok_def owners_agree_def getJob_def)
qed

lemma process_settles:
  assumes ok: "gateway_ok g" and w: "waitingQueue (g_queue g) = jid # rest"
    and g': "g' = fst (processNextJobSync worker stringify wid rnd now g)"
  obtains j where "map_get (jobs (g_queue g)) jid = Some j" and "state j = QUEUED"
    and "case delivered worker stringify (payload j) jid (artifactStore g) of
        Some r \<Rightarrow> waitingQueue (g_queue g') = rest \<and>
          one_job (g_queue g) (g_queue g') jid ((started j now)\<lparr>state := COMPLETED, result := Some r, updatedAt := now\<rparr>)
      | None \<Rightarrow> waitingQueue (g_queue g') = (if attempts j + 1 < maxRetries j then jid # rest else rest) \<and>
          (\<exists>err. one_job (g_queue g) (g_queue g') jid (after_failure (started j now) err now))"
proof -
  obtain j g1 where j: "map_get (jobs (g_queue g)) jid = Some j" and q: "state j = QUEUED"
    and h: "in_hand (g_queue g1) jid (started j now) rnd" and w1: "waitingQueue (g_queue g1) = rest"
    and o: "one_job (g_queue g) (g_queue g1) jid (started j now)" and q1: "queue_ok (g_queue g1)"
    and same: "artifactStore g1 = artifactStore g" "g_metrics g1 = g_metrics g"
      "rateLimiter g1 = fst (acquireConcurrency (principalId j) (rateLimiter g))"
    and p: "processNextJobSync worker stringify wid rnd now g =
      (case run_job worker stringify (payload j) jid rnd now g1 of (g2, res) \<Rightarrow>
        (g2\<lparr>rateLimiter := releaseConcurrency (principalId j) (rateLimiter g2)\<rparr>, res))"
    by (rule process_runs_head[OF ok w, where now = now and rnd = rnd and worker = worker
          and stringify = stringify and wid = wid])
  define g2 where "g2 = fst (run_job worker stringify (payload j) jid rnd now g1)"
  have res: "g_queue g' = g_queue g2" by (simp add: g' p g2_def split: prod.split)
  show thesis
  proof (cases rule: run_job_settles[OF h g2_def])
    case (1 r)
    with one_job_trans[OF o 1(2)] w1 same(1) show thesis by (intro that[OF j q]) (simp add: res)
  next
    case (2 err)
    with one_job_trans[OF o 2(2)] w1 same(1) show thesis by (intro that[OF j q]) (auto simp: res)
  qed
qed

text \<open>C27. The limit on jobs per principal never refuses one: the call that processes the next job always runs
  the job that waits first. It ends COMPLETED with the response of the worker when the worker reports
  completion and its results can be saved; otherwise it waits again, first in line, until it has been
  started \<open>maxRetries\<close> times, and is FAILED then.\<close>

theorem waiting_job_is_run:
  assumes "gateway_reach g" and "waitingQueue (g_queue g) = jid # rest"
  shows "\<exists>j j'. getJob (g_queue g) jid = Some j \<and>
    getJob (g_queue (fst (processNextJobSync worker stringify wid rnd now g))) jid = Some j' \<and>
    attempts j' = attempts j + 1 \<and>
    (case delivered worker stringify (payload j) jid (artifactStore g) of
       Some r \<Rightarrow> state j' = COMPLETED \<and> result j' = Some r
     | None \<Rightarrow> state j' = (if attempts j + 1 < maxRetries j then QUEUED else FAILED))"
proof -
  define g' where "g' = fst (processNextJobSync worker stringify wid rnd now g)"
  obtain j where j: "map_get (jobs (g_queue g)) jid = Some j"
    and c: "case delivered worker stringify (payload j) jid (artifactStore g) of
        Some r \<Rightarrow> waitingQueue (g_queue g') = rest \<and>
          one_job (g_queue g) (g_queue g') jid ((started j now)\<lparr>state := COMPLETED, result := Some r, updatedAt := now\<rparr>)
      | None \<Rightarrow> waitingQueue (g_queue g') = (if attempts j + 1 < maxRetries j then jid # rest else rest) \<and>
          (\<exists>err. one_job (g_queue g) (g_queue g') jid (after_failure (started j now) err now))"
    by (rule process_settles[OF gateway_reach_ok[OF assms(1)] assms(2) g'_def])
  show ?thesis
  proof (cases "delivered worker stringify (payload j) jid (artifactStore g)")
    case None
    with c j show ?thesis unfolding g'_def[symmetric]
      by (auto simp: getJob_def one_job_def after_failure_def)
  next
    case (Some r)
    with c j show ?thesis unfolding g'_def[symmetric] by (auto simp: getJob_def one_job_def)
  qed
qed

text \<open>Calls in a row; each draws a token and reads the clock.\<close>

definition process_all ::
  "(job_payload \<Rightarrow> (string, response) outcome) \<Rightarrow> (recovery_report \<Rightarrow> js_string) \<Rightarrow> string \<Rightarrow>
   (string \<times> int) list \<Rightarrow> gateway \<Rightarrow> gateway" where
  "process_all worker stringify wid calls g =
     foldl (\<lambda>g (rnd, now). fst (processNextJobSync worker stringify wid rnd now g)) g calls"

lemma process_all_ok: "gateway_ok g \<Longrightarrow> gateway_ok (process_all worker stringify wid calls g)"
  by (induction calls arbitrary: g) (auto simp: process_all_def process_ok)

lemma failing_job_runs:
  assumes "\<And>st. delivered worker stringify pl jid st = None"
  shows "gateway_ok g \<Longrightarrow> waitingQueue (g_queue g) = jid # rest \<Longrightarrow> map_get (jobs (g_queue g)) jid = Some j \<Longrightarrow>
    payload j = pl \<Longrightarrow> attempts j + length calls = max 1 (maxRetries j) \<Longrightarrow> calls \<noteq> [] \<Longrightarrow>
    waitingQueue (g_queue (process_all worker stringify wid calls g)) = rest \<and>
    (\<exists>j'. map_get (jobs (g_queue (process_all worker stringify wid calls g))) jid = Some j' \<and> state j' = FAILED \<and>
       attempts j' = max 1 (maxRetries j))"
proof (induction calls arbitrary: g j)
  case (Cons call calls)
  obtain rnd now where call: "call = (rnd, now)" by fastforce
  define g' where "g' = fst (processNextJobSync worker stringify wid rnd now g)"
  obtain k where k: "map_get (jobs (g_queue g)) jid = Some k"
    and c: "case delivered worker stringify (payload k) jid (artifactStore g) of
        Some r \<Rightarrow> waitingQueue (g_queue g') = rest \<and>
          one_job (g_queue g) (g_queue g') jid ((started k now)\<lparr>state := COMPLETED, result := Some r, updatedAt := now\<rparr>)
      | None \<Rightarrow> waitingQueue (g_queue g') = (if attempts k + 1 < maxRetries k then jid # rest else rest) \<and>
          (\<exists>err. one_job (g_queue g) (g_queue g') jid (after_failure (started k now) err now))"
    by (rule process_settles[OF Cons.prems(1,2) g'_def])
  have "k = j" using k Cons.prems(3) by simp
  then obtain err where w: "waitingQueue (g_queue g') = (if attempts j + 1 < maxRetries j then jid # rest else rest)"
    and j': "map_get (jobs (g_queue g')) jid = Some (after_failure (started j now) err now)"
    using c Cons.prems(4) by (auto simp: assms one_job_def)
  have ok: "gateway_ok g'" unfolding g'_def by (rule process_ok[OF Cons.prems(1)])
  show ?case
  proof (cases "calls = []")
    case True
    with w j' Cons.prems(5) show ?thesis
      by (simp add: process_all_def call g'_def[symmetric] after_failure_def)
  next
    case False
    with Cons.prems(5) have more: "attempts j + 1 < maxRetries j" by (cases calls) auto
    with Cons.IH[OF ok _ j' _ _ False] w Cons.prems(4,5) show ?thesis
      by (simp add: process_all_def call g'_def[symmetric])
  qed
qed simp

text \<open>C28. A job whose worker never delivers ends: after \<open>maxRetries\<close> runs in a row (one, if it is 0) it is FAILED,
  and the jobs behind it come next.\<close>

theorem failing_job_ends:
  assumes "gateway_reach g" and "waitingQueue (g_queue g) = jid # rest" and "getJob (g_queue g) jid = Some j"
    and "\<And>st. delivered worker stringify (payload j) jid st = None"
    and "length calls = max 1 (maxRetries j) - attempts j"
  shows "waitingQueue (g_queue (process_all worker stringify wid calls g)) = rest \<and>
    (\<exists>j'. getJob (g_queue (process_all worker stringify wid calls g)) jid = Some j' \<and> state j' = FAILED \<and>
       attempts j' = max 1 (maxRetries j))"
proof -
  have ok: "gateway_ok g" by (rule gateway_reach_ok[OF assms(1)])
  have j: "map_get (jobs (g_queue g)) jid = Some j" using assms(3) by (simp add: getJob_def)
  have "queue_ok (g_queue g)" using ok by (simp add: gateway_ok_def)
  from queue_ok_slot[OF this, of jid] j assms(2) have "attempts j < max 1 (maxRetries j)"
    by (auto simp: slot_ok_Some)
  with failing_job_runs[OF assms(4) ok assms(2) j refl, of calls] assms(5) show ?thesis
    by (cases calls) (auto simp: getJob_def)
qed

section \<open>A run used as witness\<close>

definition demo_submission :: submission where
  "demo_submission = \<lparr>sub_principalId = ''ann'', sub_source = [120], sub_filename = None, sub_idempotencyKey = None,
     sub_skipRateCheck = True, sub_requestedStage = None, sub_semanticValidation = None, sub_timeoutMs = None,
     sub_maxInputBytes = None, sub_maxOutputBytes = None\<rparr>"

definition demo_gateway :: gateway where
  "demo_gateway = fst (submitJobSync (\<lambda>s. ''00'') ''1'' demo_submission 0 (RecoveryGateway 60))"

definition broken_worker :: "job_payload \<Rightarrow> (string, response) outcome" where
  "broken_worker pl = throw ''no container''"

lemma demo_gateway_reach: "gateway_reach demo_gateway"
  unfolding demo_gateway_def
  by (rule gateway_next[OF gateway_new call_submit]) (simp add: fresh_def RecoveryGateway_def new_queue_def)

lemma demo_gateway_queue:
  "waitingQueue (g_queue demo_gateway) = [''job-1'']"
  "map_option attempts (getJob (g_queue demo_gateway) ''job-1'') = Some 0"
  "map_option maxRetries (getJob (g_queue demo_gateway) ''job-1'') = Some 2"
  by (simp_all add: demo_gateway_def submitJobSync_def demo_submission_def submit_check_def RecoveryGateway_def
      new_queue_def enqueue_def submit_data_def request_key_def js_or_str_def existing_job_def new_id_def new_job_def
      record_key_def put_job_def emit_def getJob_def js_nullish_def map_get_def Let_def)

lemma broken_worker_delivers_nothing: "delivered broken_worker stringify pl jid st = None"
  by (simp add: delivered_def broken_worker_def)

theorem gateway_holds_nothing_witness: "count (g_metrics demo_gateway) ''jobs_submitted_total'' =
    length (jobs (g_queue demo_gateway))"
  using gateway_holds_nothing [OF demo_gateway_reach] by simp

theorem waiting_job_is_run_witness:
  "\<exists>j'. getJob (g_queue (fst (processNextJobSync broken_worker (\<lambda>r. []) ''w'' ''t'' 5 demo_gateway))) ''job-1'' = Some j' \<and>
     state j' = QUEUED"
  using waiting_job_is_run [OF demo_gateway_reach demo_gateway_queue(1), of broken_worker "\<lambda>r. []" "''w''" "''t''" 5]
    demo_gateway_queue(2,3)
  by (auto simp: broken_worker_delivers_nothing)

theorem failing_job_ends_witness:
  "\<exists>j'. getJob (g_queue (process_all broken_worker (\<lambda>r. []) ''w'' [(''t'', 5), (''u'', 6)] demo_gateway)) ''job-1'' = Some j' \<and>
     state j' = FAILED"
proof -
  obtain j where j: "getJob (g_queue demo_gateway) ''job-1'' = Some j" "attempts j = 0" "maxRetries j = 2"
    using demo_gateway_queue(2,3) by auto
  from failing_job_ends [OF demo_gateway_reach demo_gateway_queue(1) j(1) broken_worker_delivers_nothing,
      of "[(''t'', 5), (''u'', 6)]" "\<lambda>r. []" "''w''"] j show ?thesis by auto
qed

theorem artifacts_follow_job_owner_witness:
  "snd (gateway_getArtifact ''job-1'' ''sourceCode'' ''ann'' 5 demo_gateway) = return (A_text [120]) \<and>
   map_option principalId (getJob (g_queue demo_gateway) ''job-1'') = Some ''ann''"
proof -
  have served: "snd (gateway_getArtifact ''job-1'' ''sourceCode'' ''ann'' 5 demo_gateway) = return (A_text [120])"
    by (simp add: demo_gateway_def submitJobSync_def demo_submission_def submit_check_def RecoveryGateway_def
      new_queue_def enqueue_def submit_data_def request_key_def js_or_str_def existing_job_def new_id_def new_job_def
      record_key_def put_job_def emit_def Let_def gateway_getArtifact_def local_getArtifact_def local_cleanup_def
      local_init_def new_local_def js_or_num_def artifact_field_def map_get_def)
  from artifacts_follow_job_owner [OF demo_gateway_reach served] served show ?thesis by auto
qed

section \<open>From submission to result\<close>

definition report_fits :: "(recovery_report \<Rightarrow> js_string) \<Rightarrow> response \<Rightarrow> bool" where
  "report_fits stringify r = (case wr_admission r of None \<Rightarrow> True
     | Some a \<Rightarrow> utf8_length (stringify \<lparr>rep_admission = a, rep_metrics = wr_metrics r\<rparr>) \<le> MAX_REPORT_BYTES)"

lemma save_results_ok:
  assumes e: "map_get (storage st) jid = Some e" and a: "wr_artifacts r = Some a" "wa_recoveredCode a = Some c"
    and c: "c \<noteq> []" "utf8_length c \<le> MAX_CODE_BYTES" and r: "report_fits stringify r"
  obtains st' e' where "save_results stringify jid r st = (st', return ())" and "map_get (storage st') jid = Some e'"
    and "recoveredCode (entry_artifacts e') = Some c" and "ownerPrincipalId e' = ownerPrincipalId e"
    and "entry_expiresAt e' = entry_expiresAt e"
proof -
  define e1 where "e1 = e\<lparr>entry_artifacts := (entry_artifacts e)\<lparr>recoveredCode := Some c\<rparr>\<rparr>"
  define st1 where "st1 = st\<lparr>storage := map_set (storage st) jid e1\<rparr>"
  have code: "local_saveCode jid c st = (st1, return (utf8_length c))"
    using c(2) by (simp add: local_saveCode_def e checked_size_def put_artifacts_def st1_def e1_def)
  have e1: "map_get (storage st1) jid = Some e1" by (simp add: st1_def)
  show thesis
  proof (cases "wr_admission r")
    case None
    with that[of st1 e1] e1 show thesis by (simp add: save_results_def a c(1) code e1_def)
  next
    case (Some ad)
    let ?rep = "\<lparr>rep_admission = ad, rep_metrics = wr_metrics r\<rparr>"
    define e2 where "e2 = e1\<lparr>entry_artifacts := (entry_artifacts e1)\<lparr>report := Some ?rep\<rparr>\<rparr>"
    have "local_saveReport stringify jid ?rep st1 =
        (st1\<lparr>storage := map_set (storage st1) jid e2\<rparr>, return (utf8_length (stringify ?rep)))"
      using r Some by (simp add: local_saveReport_def e1 checked_size_def put_artifacts_def e2_def report_fits_def)
    with that[of "st1\<lparr>storage := map_set (storage st1) jid e2\<rparr>" e2] Some show thesis
      by (simp add: save_results_def a c(1) code e1_def e2_def)
  qed
qed

lemma settle_job_store [simp]: "artifactStore (settle_job jid tok r now g) = artifactStore g"
  by (simp add: settle_job_def Let_def)

lemma submit_queues:
  assumes ok: "gateway_ok g" and w: "waitingQueue (g_queue g) = []" and f: "fresh rnd g"
    and depth: "0 < maxQueueDepth (g_queue g)"
    and s: "sub_principalId s \<noteq> []" "sub_source s \<noteq> []" "snd (submit_check s now g) = return ()"
    and new: "existing_job (g_queue g) (request_key (submit_data sha (''job-'' @ rnd) s)) = None"
  defines "jid \<equiv> ''job-'' @ rnd"
  shows "let g1 = fst (submitJobSync sha rnd s now g); d = submit_data sha jid s in
    waitingQueue (g_queue g1) = [jid] \<and>
    map_get (jobs (g_queue g1)) jid = Some (new_job (g_queue g) d [] now) \<and>
    map_get (storage (artifactStore g1)) jid = Some
      \<lparr>ownerPrincipalId = sub_principalId s, entry_createdAt = now, entry_expiresAt = now + retentionMs (artifactStore g),
       entry_artifacts = \<lparr>sourceCode = Some (sub_source s), recoveredCode = None, report = None, logs = None\<rparr>\<rparr>"
proof -
  let ?d = "submit_data sha jid s"
  have id: "new_id ?d u = jid" for u by (simp add: new_id_def submit_data_def jid_def)
  obtain g0 where c: "submit_check s now g = (g0, return ())" using s(3) by (metis prod.collapse)
  have g0: "g_queue g0 = g_queue g" "artifactStore g0 = artifactStore g" using check_frame[of s now g g0] c by simp_all
  obtain q where q: "enqueue (g_queue g) ?d [] now = Inr (q, new_job (g_queue g) ?d [] now, False)"
    "waitingQueue q = [jid]" "jobs q = map_set (jobs (g_queue g)) jid (new_job (g_queue g) ?d [] now)"
    using new[folded jid_def] w depth by (simp add: enqueue_def id Let_def)
  show ?thesis
    using s(1,2) q(2,3) unfolding submitJobSync_def c jid_def[symmetric] Let_def
    by (simp add: g0 q(1) Let_def local_init_def id)
qed

definition job_of :: "(js_string \<Rightarrow> string) \<Rightarrow> string \<Rightarrow> submission \<Rightarrow> job_payload" where
  "job_of sha rnd s = job_payload_of sha (''job-'' @ rnd) s"

text \<open>The assumptions of a run that goes well: nothing else waits, the submission is accepted, and the worker
  completes with a code and a report that fit.\<close>

definition good_run ::
  "(js_string \<Rightarrow> string) \<Rightarrow> string \<Rightarrow> submission \<Rightarrow> int \<Rightarrow> (job_payload \<Rightarrow> (string, response) outcome) \<Rightarrow>
   (recovery_report \<Rightarrow> js_string) \<Rightarrow> js_string \<Rightarrow> response \<Rightarrow> gateway \<Rightarrow> bool" where
  "good_run sha rnd s now worker stringify c r g \<longleftrightarrow>
     waitingQueue (g_queue g) = [] \<and> 0 < maxQueueDepth (g_queue g) \<and> fresh rnd g \<and>
     sub_principalId s \<noteq> [] \<and> sub_source s \<noteq> [] \<and> snd (submit_check s now g) = return () \<and>
     existing_job (g_queue g) (request_key (submit_data sha (''job-'' @ rnd) s)) = None \<and>
     worker (job_of sha rnd s) = return r \<and> wr_status r = ''completed'' \<and>
     Option.bind (wr_artifacts r) wa_recoveredCode = Some c \<and> c \<noteq> [] \<and> utf8_length c \<le> MAX_CODE_BYTES \<and>
     report_fits stringify r"

text \<open>C29. A job goes from submission to result: on a gateway whose waiting queue is empty, a submission that is
  accepted under a fresh identifier and a key not used before, and whose worker delivers code that is not empty and
  a report, both within the limits of the store, is completed by the next call that processes a job, in its first
  attempt; the owner can then fetch the recovered code until the artifacts expire, and the artifact store no longer
  has the source; the payload of the job keeps it.\<close>

theorem submitted_job_is_served:
  assumes "gateway_reach g" and "good_run sha rnd s now worker stringify c r g"
    and "time \<le> now + retentionMs (artifactStore g)"
  shows "let jid = ''job-'' @ rnd; p = sub_principalId s;
      g2 = fst (processNextJobSync worker stringify wid tok now' (fst (submitJobSync sha rnd s now g)))
    in (\<exists>v. gateway_getJob jid p g2 = return v \<and> jv_state v = COMPLETED \<and> jv_attempts v = 1 \<and>
          jv_result v = Some (result_view_of r)) \<and>
       snd (gateway_getArtifact jid ''recoveredCode'' p time g2) = return (A_text c) \<and>
       (\<exists>e. map_get (storage (artifactStore g2)) jid = Some e \<and> sourceCode (entry_artifacts e) = None) \<and>
       (\<exists>j. getJob (g_queue g2) jid = Some j \<and> in_source (pl_input (payload j)) = sub_source s)"
proof -
  have ok: "gateway_ok g" by (rule gateway_reach_ok[OF assms(1)])
  define jid where "jid = ''job-'' @ rnd"
  define d where "d = submit_data sha jid s"
  define g1 where "g1 = fst (submitJobSync sha rnd s now g)"
  define g2 where "g2 = fst (processNextJobSync worker stringify wid tok now' g1)"
  note run = assms(2)[unfolded good_run_def]
  obtain a where a: "wr_artifacts r = Some a" "wa_recoveredCode a = Some c"
    using run by (auto simp: bind_eq_Some_conv)
  have r: "waitingQueue (g_queue g) = []" "0 < maxQueueDepth (g_queue g)" "fresh rnd g"
    "sub_principalId s \<noteq> []" "sub_source s \<noteq> []" "snd (submit_check s now g) = return ()"
    "existing_job (g_queue g) (request_key (submit_data sha (''job-'' @ rnd) s)) = None"
    using run by blast+
  have sub: "waitingQueue (g_queue g1) = [jid]" "map_get (jobs (g_queue g1)) jid = Some (new_job (g_queue g) d [] now)"
    "map_get (storage (artifactStore g1)) jid = Some
      \<lparr>ownerPrincipalId = sub_principalId s, entry_createdAt = now, entry_expiresAt = now + retentionMs (artifactStore g),
       entry_artifacts = \<lparr>sourceCode = Some (sub_source s), recoveredCode = None, report = None, logs = None\<rparr>\<rparr>"
    using submit_queues[OF ok r(1) r(3) r(2) r(4-7), unfolded Let_def, folded jid_def, folded d_def g1_def]
    by simp_all
  have ok1: "gateway_ok g1" unfolding g1_def by (rule submit_ok[OF ok r(3)])
  have nj: "payload (new_job (g_queue g) d [] now) = job_of sha rnd s"
    "principalId (new_job (g_queue g) d [] now) = sub_principalId s"
    using run by (simp_all add: new_job_def d_def submit_data_def job_of_def jid_def)
  obtain st e where st: "save_results stringify jid r (artifactStore g1) = (st, return ())" "map_get (storage st) jid = Some e"
    "recoveredCode (entry_artifacts e) = Some c" "ownerPrincipalId e = sub_principalId s"
    "entry_expiresAt e = now + retentionMs (artifactStore g)"
    using save_results_ok[OF sub(3) a, of stringify] run by auto
  have dl: "delivered worker stringify (job_of sha rnd s) jid (artifactStore g1) = Some r"
    using run by (simp add: delivered_def st(1))
  obtain j h1 where j: "map_get (jobs (g_queue g1)) jid = Some j"
    and h: "in_hand (g_queue h1) jid (started j now') tok" and same: "artifactStore h1 = artifactStore g1"
    and p: "processNextJobSync worker stringify wid tok now' g1 =
      (case run_job worker stringify (payload j) jid tok now' h1 of (g2, res) \<Rightarrow>
        (g2\<lparr>rateLimiter := releaseConcurrency (principalId j) (rateLimiter g2)\<rparr>, res))"
    by (rule process_runs_head[OF ok1 sub(1), where now = now' and rnd = tok and worker = worker
          and stringify = stringify and wid = wid])
  have j_new: "j = new_job (g_queue g) d [] now" using j sub(2) by simp
  have pl: "payload j = job_of sha rnd s" by (simp add: j_new nj(1))
  define h2 where "h2 = fst (run_job worker stringify (payload j) jid tok now' h1)"
  have g2: "g_queue g2 = g_queue h2" "artifactStore g2 = artifactStore h2"
    by (simp_all add: g2_def p h2_def split: prod.split)
  have store: "artifactStore g2 = local_purgeSource jid st"
    using run by (simp add: g2(2) h2_def run_job_def pl same st(1))
  have "completeJob (g_queue h1) jid tok r now' = (g_queue h2, True) \<and>
      one_job (g_queue h1) (g_queue h2) jid ((started j now')\<lparr>state := COMPLETED, result := Some r, updatedAt := now'\<rparr>)"
    using complete_in_hand[OF h, of r now'] run_job_queue(1)[of worker stringify "payload j" jid tok now' h1] dl
    by (auto simp: h2_def pl same)
  then have job: "map_get (jobs (g_queue g2)) jid =
      Some ((started j now')\<lparr>state := COMPLETED, result := Some r, updatedAt := now'\<rparr>)"
    by (simp add: g2 one_job_def)
  have entry: "map_get (storage (artifactStore g2)) jid =
      Some (e\<lparr>entry_artifacts := (entry_artifacts e)\<lparr>sourceCode := None\<rparr>\<rparr>)"
    by (simp add: store local_purgeSource_def put_artifacts_def st(2))
  have "gateway_ok g2" unfolding g2_def by (rule process_ok[OF ok1])
  then have "snd (local_getArtifact jid ''recoveredCode'' (sub_principalId s) time (artifactStore g2)) = return (A_text c)"
    using local.get_code[where s = "artifactStore g2" and j = jid] entry st(3-5) assms(3)
    by (simp add: gateway_ok_def local_holder_def local_code_def)
  then have served: "snd (gateway_getArtifact jid ''recoveredCode'' (sub_principalId s) time g2) = return (A_text c)"
    by (cases "local_getArtifact jid ''recoveredCode'' (sub_principalId s) time (artifactStore g2)")
      (simp add: gateway_getArtifact_def)
  show ?thesis unfolding Let_def jid_def[symmetric] g1_def[symmetric] g2_def[symmetric]
    using served entry job nj
    by (simp add: gateway_getJob_def getJob_def formatJob_def j_new job_of_def job_payload_of_def)
qed

definition demo_response :: response where
  "demo_response = \<lparr>wr_status = ''completed'', wr_admission = None, wr_metrics = None,
     wr_artifacts = Some \<lparr>wa_recoveredCode = Some [121], wa_recoveredCodeSha256 = None, wa_recoveredCodeBytes = 1\<rparr>,
     wr_error = None\<rparr>"

theorem submitted_job_is_served_witness:
  "snd (gateway_getArtifact (''job-'' @ ''1'') ''recoveredCode'' ''ann'' 50
     (fst (processNextJobSync (\<lambda>pl. return demo_response) (\<lambda>r. []) ''w'' ''t'' 5
       (fst (submitJobSync (\<lambda>s. ''00'') ''1'' demo_submission 0 (RecoveryGateway 60)))))) = return (A_text [121])"
proof -
  have good: "good_run (\<lambda>s. ''00'') ''1'' demo_submission 0 (\<lambda>pl. return demo_response) (\<lambda>r. []) [121] demo_response
      (RecoveryGateway 60)"
    by (simp add: good_run_def RecoveryGateway_def new_queue_def js_or_num_def fresh_def demo_submission_def
        submit_check_def existing_job_def demo_response_def MAX_CODE_BYTES_def report_fits_def split: option.split)
  have time: "50 \<le> 0 + retentionMs (artifactStore (RecoveryGateway 60))"
    by (simp add: RecoveryGateway_def new_local_def)
  show ?thesis
    using submitted_job_is_served [OF gateway_new good time, of "''w''" "''t''" 5]
    unfolding Let_def by (simp add: demo_submission_def)
qed

end
