(* ===== verification/Session_Store.thy ===== *)
theory Session_Store
  imports JS_Map
begin

text \<open>
  Browser sessions (\<open>packages/api/src/auth/session-store.js\<close>): the store in memory and the store on a
  MongoDB collection. Tokens and CSRF tokens are drawn by the caller of a definition, the hash is a
  parameter; times are milliseconds, kept as the dates the records hold; one call reads the clock once.
  A collection is its documents with what the store uses of it: \<open>deleteOne\<close> and \<open>updateOne\<close> may be
  missing, as on the collection in memory of \<open>identity-store.js\<close>.
\<close>

section \<open>Sessions\<close>

record principal =
  pr_principalId :: string
  pr_provider :: string
  pr_providerSubject :: string
  pr_roles :: "string list"

record 'm session =
  sessionIdHash :: string
  se_principalId :: string
  se_principal :: principal
  csrfToken :: string
  se_createdAt :: int
  lastSeenAt :: int
  rotationVersion :: nat
  se_metadata :: 'm

record ttl =
  idleTtlSec :: int
  absoluteTtlSec :: int

definition DEFAULT_IDLE_TTL_SECONDS :: int where "DEFAULT_IDLE_TTL_SECONDS = 1800"
definition DEFAULT_ABSOLUTE_TTL_SECONDS :: int where "DEFAULT_ABSOLUTE_TTL_SECONDS = 86400"

text \<open>The options, then the environment (a text that is no number is \<open>NaN\<close>, here \<open>None\<close>), then the default.\<close>

definition new_ttl :: "int option \<Rightarrow> int option \<Rightarrow> int option \<Rightarrow> int option \<Rightarrow> ttl" where
  "new_ttl opt_idle env_idle opt_abs env_abs =
     \<lparr>idleTtlSec = js_or_num opt_idle (js_or_num env_idle DEFAULT_IDLE_TTL_SECONDS),
      absoluteTtlSec = js_or_num opt_abs (js_or_num env_abs DEFAULT_ABSOLUTE_TTL_SECONDS)\<rparr>"

definition hashToken :: "(string \<Rightarrow> string) \<Rightarrow> string \<Rightarrow> string option" where
  "hashToken sha tok = (if tok = [] then None else Some (sha tok))"

definition isExpired :: "ttl \<Rightarrow> int \<Rightarrow> 'm session \<Rightarrow> bool" where
  "isExpired t now s =
     (if now - se_createdAt s > absoluteTtlSec t * 1000 then True
      else if now - lastSeenAt s > idleTtlSec t * 1000 then True
      else False)"

definition new_session :: "string \<Rightarrow> principal \<Rightarrow> string \<Rightarrow> 'm \<Rightarrow> int \<Rightarrow> 'm session" where
  "new_session h p csrf meta now =
     \<lparr>sessionIdHash = h, se_principalId = pr_principalId p, se_principal = p, csrfToken = csrf,
      se_createdAt = now, lastSeenAt = now, rotationVersion = 1, se_metadata = meta\<rparr>"

definition rotated :: "string \<Rightarrow> string \<Rightarrow> int \<Rightarrow> 'm session \<Rightarrow> 'm session" where
  "rotated h csrf now s = s\<lparr>sessionIdHash := h, csrfToken := csrf, lastSeenAt := now,
     rotationVersion := (if rotationVersion s = 0 then 1 else rotationVersion s) + 1\<rparr>"

section \<open>In memory\<close>

type_synonym 'm sessions = "(string, 'm session) js_map"

definition memory_create ::
  "(string \<Rightarrow> string) \<Rightarrow> string \<Rightarrow> string \<Rightarrow> principal \<Rightarrow> 'm \<Rightarrow> int \<Rightarrow> 'm sessions \<Rightarrow> 'm sessions \<times> 'm session" where
  "memory_create sha tok csrf p meta now ss =
     (let s = new_session (sha tok) p csrf meta now in (map_set ss (sha tok) s, s))"

definition memory_get ::
  "(string \<Rightarrow> string) \<Rightarrow> ttl \<Rightarrow> string \<Rightarrow> int \<Rightarrow> 'm sessions \<Rightarrow> 'm sessions \<times> 'm session option" where
  "memory_get sha t tok now ss =
     (case hashToken sha tok of
        None \<Rightarrow> (ss, None)
      | Some h \<Rightarrow>
          (case map_get ss h of
             None \<Rightarrow> (ss, None)
           | Some s \<Rightarrow>
               if isExpired t now s then (map_delete ss h, None)
               else let s' = s\<lparr>lastSeenAt := now\<rparr> in (map_set ss h s', Some s')))"

datatype session_error = INVALID_SESSION

definition memory_rotate ::
  "(string \<Rightarrow> string) \<Rightarrow> ttl \<Rightarrow> string \<Rightarrow> string \<Rightarrow> string \<Rightarrow> int \<Rightarrow> 'm sessions \<Rightarrow>
   'm sessions \<times> (session_error, 'm session) outcome" where
  "memory_rotate sha t tok new csrf now ss =
     (case hashToken sha tok of
        None \<Rightarrow> (ss, throw INVALID_SESSION)
      | Some h \<Rightarrow>
          (case map_get ss h of
             None \<Rightarrow> (map_delete ss h, throw INVALID_SESSION)
           | Some s \<Rightarrow>
               if isExpired t now s then (map_delete ss h, throw INVALID_SESSION)
               else let s' = rotated (sha new) csrf now s
                    in (map_set (map_delete ss h) (sha new) s', return s')))"

definition memory_destroy :: "(string \<Rightarrow> string) \<Rightarrow> string \<Rightarrow> 'm sessions \<Rightarrow> 'm sessions" where
  "memory_destroy sha tok ss =
     (case hashToken sha tok of None \<Rightarrow> ss | Some h \<Rightarrow> map_delete ss h)"

definition memory_clear :: "'m sessions \<Rightarrow> 'm sessions" where
  "memory_clear ss = []"

section \<open>On a collection\<close>

record 'm collection =
  documents :: "'m session list"
  has_deleteOne :: bool
  has_updateOne :: bool

definition findOne :: "string \<Rightarrow> 'm collection \<Rightarrow> 'm session option" where
  "findOne h c = List.find (\<lambda>s. sessionIdHash s = h) (documents c)"

definition insertOne :: "'m session \<Rightarrow> 'm collection \<Rightarrow> 'm collection" where
  "insertOne s c = c\<lparr>documents := documents c @ [s]\<rparr>"

fun remove_first :: "('a \<Rightarrow> bool) \<Rightarrow> 'a list \<Rightarrow> 'a list" where
  "remove_first P [] = []"
| "remove_first P (x # xs) = (if P x then xs else x # remove_first P xs)"

fun change_first :: "('a \<Rightarrow> bool) \<Rightarrow> ('a \<Rightarrow> 'a) \<Rightarrow> 'a list \<Rightarrow> 'a list" where
  "change_first P f [] = []"
| "change_first P f (x # xs) = (if P x then f x # xs else x # change_first P f xs)"

text \<open>The guarded calls \<open>if (collection.deleteOne) ...\<close> and \<open>if (collection.updateOne) ...\<close>.\<close>

definition delete_one :: "string \<Rightarrow> 'm collection \<Rightarrow> 'm collection" where
  "delete_one h c =
     (if has_deleteOne c then c\<lparr>documents := remove_first (\<lambda>s. sessionIdHash s = h) (documents c)\<rparr> else c)"

definition set_last_seen :: "string \<Rightarrow> int \<Rightarrow> 'm collection \<Rightarrow> 'm collection" where
  "set_last_seen h now c =
     (if has_updateOne c
      then c\<lparr>documents := change_first (\<lambda>s. sessionIdHash s = h) (\<lambda>s. s\<lparr>lastSeenAt := now\<rparr>) (documents c)\<rparr>
      else c)"

datatype 'm mongo_store = On_collection "'m collection" | In_memory "'m sessions"

definition MongoSessionStore :: "'m collection option \<Rightarrow> 'm mongo_store" where
  "MongoSessionStore c = (case c of None \<Rightarrow> In_memory [] | Some c \<Rightarrow> On_collection c)"

definition on_memory :: "('m sessions \<times> 'a) \<Rightarrow> 'm mongo_store \<times> 'a" where
  "on_memory r = (In_memory (fst r), snd r)"

definition mongo_create ::
  "(string \<Rightarrow> string) \<Rightarrow> string \<Rightarrow> string \<Rightarrow> principal \<Rightarrow> 'm \<Rightarrow> int \<Rightarrow> 'm mongo_store \<Rightarrow> 'm mongo_store \<times> 'm session" where
  "mongo_create sha tok csrf p meta now st =
     (case st of
        In_memory ss \<Rightarrow> on_memory (memory_create sha tok csrf p meta now ss)
      | On_collection c \<Rightarrow>
          let s = new_session (sha tok) p csrf meta now in (On_collection (insertOne s c), s))"

definition mongo_get ::
  "(string \<Rightarrow> string) \<Rightarrow> ttl \<Rightarrow> string \<Rightarrow> int \<Rightarrow> 'm mongo_store \<Rightarrow> 'm mongo_store \<times> 'm session option" where
  "mongo_get sha t tok now st =
     (case st of
        In_memory ss \<Rightarrow> on_memory (memory_get sha t tok now ss)
      | On_collection c \<Rightarrow>
          (case hashToken sha tok of
             None \<Rightarrow> (st, None)
           | Some h \<Rightarrow>
               (case findOne h c of
                  None \<Rightarrow> (st, None)
                | Some s \<Rightarrow>
                    if isExpired t now s then (On_collection (delete_one h c), None)
                    else (On_collection (set_last_seen h now c), Some (s\<lparr>lastSeenAt := now\<rparr>)))))"

definition mongo_rotate ::
  "(string \<Rightarrow> string) \<Rightarrow> ttl \<Rightarrow> string \<Rightarrow> string \<Rightarrow> string \<Rightarrow> int \<Rightarrow> 'm mongo_store \<Rightarrow>
   'm mongo_store \<times> (session_error, 'm session) outcome" where
  "mongo_rotate sha t tok new csrf now st =
     (case st of
        In_memory ss \<Rightarrow> on_memory (memory_rotate sha t tok new csrf now ss)
      | On_collection c \<Rightarrow>
          (case hashToken sha tok of
             None \<Rightarrow> (st, throw INVALID_SESSION)
           | Some h \<Rightarrow>
               (case findOne h c of
                  None \<Rightarrow> (On_collection (delete_one h c), throw INVALID_SESSION)
                | Some s \<Rightarrow>
                    if isExpired t now s then (On_collection (delete_one h c), throw INVALID_SESSION)
                    else let s' = rotated (sha new) csrf now s
                         in (On_collection (insertOne s' (delete_one h c)), return s'))))"

definition mongo_destroy :: "(string \<Rightarrow> string) \<Rightarrow> string \<Rightarrow> 'm mongo_store \<Rightarrow> 'm mongo_store" where
  "mongo_destroy sha tok st =
     (case st of
        In_memory ss \<Rightarrow> In_memory (memory_destroy sha tok ss)
      | On_collection c \<Rightarrow>
          (case hashToken sha tok of None \<Rightarrow> st | Some h \<Rightarrow> On_collection (delete_one h c)))"

section \<open>A common contract\<close>

text \<open>
  What both stores promise, over the session that a hash names: the clients are the requests and the
  login of the server. \<open>inv\<close> is the shape of the store; new tokens have unused hashes.
\<close>

datatype 'm session_op =
  S_create string string principal 'm int
| S_get string int
| S_rotate string string string int
| S_destroy string

datatype 'm session_answer =
  A_session "'m session" | A_found "'m session option" | A_rotated "(session_error, 'm session) outcome" | A_done

type_synonym ('s, 'm) creating = "string \<Rightarrow> string \<Rightarrow> principal \<Rightarrow> 'm \<Rightarrow> int \<Rightarrow> 's \<Rightarrow> 's \<times> 'm session"
type_synonym ('s, 'm) finding = "string \<Rightarrow> int \<Rightarrow> 's \<Rightarrow> 's \<times> 'm session option"
type_synonym ('s, 'm) rotating =
  "string \<Rightarrow> string \<Rightarrow> string \<Rightarrow> int \<Rightarrow> 's \<Rightarrow> 's \<times> (session_error, 'm session) outcome"

definition session_call ::
  "('s, 'm) creating \<Rightarrow> ('s, 'm) finding \<Rightarrow> ('s, 'm) rotating \<Rightarrow> (string \<Rightarrow> 's \<Rightarrow> 's) \<Rightarrow>
   'm session_op \<Rightarrow> 's \<Rightarrow> 's \<times> 'm session_answer" where
  "session_call create get turn destroy op s =
     (case op of
        S_create tok c p m now \<Rightarrow> map_prod id A_session (create tok c p m now s)
      | S_get tok now \<Rightarrow> map_prod id A_found (get tok now s)
      | S_rotate tok new c now \<Rightarrow> map_prod id A_rotated (turn tok new c now s)
      | S_destroy tok \<Rightarrow> (destroy tok s, A_done))"

primrec session_calls ::
  "('s, 'm) creating \<Rightarrow> ('s, 'm) finding \<Rightarrow> ('s, 'm) rotating \<Rightarrow> (string \<Rightarrow> 's \<Rightarrow> 's) \<Rightarrow>
   'm session_op list \<Rightarrow> 's \<Rightarrow> 's \<times> 'm session_answer list" where
  "session_calls create get turn destroy [] s = (s, [])"
| "session_calls create get turn destroy (op # ops) s =
     (case session_call create get turn destroy op s of (s', a) \<Rightarrow>
        map_prod id ((#) a) (session_calls create get turn destroy ops s'))"

locale session_store =
  fixes sha :: "string \<Rightarrow> string" and t :: ttl
    and look :: "'s \<Rightarrow> string \<Rightarrow> 'm session option"
    and inv :: "'s \<Rightarrow> bool"
    and create :: "('s, 'm) creating" and get :: "('s, 'm) finding" and turn :: "('s, 'm) rotating"
    and destroy :: "string \<Rightarrow> 's \<Rightarrow> 's"
  assumes inv_create: "inv s \<Longrightarrow> look s (sha tok) = None \<Longrightarrow> inv (fst (create tok c p m now s))"
    and inv_get: "inv s \<Longrightarrow> inv (fst (get tok now s))"
    and inv_rotate: "inv s \<Longrightarrow> look s (sha new) = None \<Longrightarrow> inv (fst (turn tok new c now s))"
    and inv_destroy: "inv s \<Longrightarrow> inv (destroy tok s)"
    and create_look: "inv s \<Longrightarrow> look s (sha tok) = None \<Longrightarrow>
      look (fst (create tok c p m now s)) h =
        (if h = sha tok then Some (new_session (sha tok) p c m now) else look s h)"
    and create_answer: "snd (create tok c p m now s) = new_session (sha tok) p c m now"
    and get_answer: "inv s \<Longrightarrow> snd (get tok now s) =
      (if tok = [] then None else case look s (sha tok) of None \<Rightarrow> None
       | Some x \<Rightarrow> if isExpired t now x then None else Some (x\<lparr>lastSeenAt := now\<rparr>))"
    and get_look: "inv s \<Longrightarrow> look (fst (get tok now s)) h =
      (if tok \<noteq> [] \<and> h = sha tok then snd (get tok now s) else look s h)"
    and rotate_answer: "inv s \<Longrightarrow> snd (turn tok new c now s) =
      (if tok = [] then throw INVALID_SESSION else case look s (sha tok) of None \<Rightarrow> throw INVALID_SESSION
       | Some x \<Rightarrow> if isExpired t now x then throw INVALID_SESSION else return (rotated (sha new) c now x))"
    and rotate_look: "inv s \<Longrightarrow> look s (sha new) = None \<Longrightarrow> look (fst (turn tok new c now s)) h =
      (case snd (turn tok new c now s) of
         Inr x \<Rightarrow> if h = sha new then Some x else if h = sha tok then None else look s h
       | Inl e \<Rightarrow> if tok \<noteq> [] \<and> h = sha tok then None else look s h)"
    and destroy_look: "inv s \<Longrightarrow> look (destroy tok s) h = (if tok \<noteq> [] \<and> h = sha tok then None else look s h)"
begin

abbreviation answer :: "'m session_op \<Rightarrow> 's \<Rightarrow> 's \<times> 'm session_answer" where
  "answer \<equiv> session_call create get turn destroy"

abbreviation answers :: "'m session_op list \<Rightarrow> 's \<Rightarrow> 's \<times> 'm session_answer list" where
  "answers \<equiv> session_calls create get turn destroy"

end

end
