(* ===== verification/Session_Props.thy ===== *)
theory Session_Props
  imports Session_Store
begin

text \<open>
  Both session stores answer as an abstract store that is a function from hashes to sessions: what that
  store promises of logins, rotations and expiry holds of both.
\<close>

section \<open>The abstract store\<close>

type_synonym 'm named_sessions = "string \<Rightarrow> 'm session option"

definition found :: "(string \<Rightarrow> string) \<Rightarrow> ttl \<Rightarrow> string \<Rightarrow> int \<Rightarrow> 'm named_sessions \<Rightarrow> 'm session option" where
  "found sha t tok now f =
     (if tok = [] then None
      else case f (sha tok) of None \<Rightarrow> None | Some x \<Rightarrow> if isExpired t now x then None else Some x)"

definition spec_answer ::
  "(string \<Rightarrow> string) \<Rightarrow> ttl \<Rightarrow> 'm session_op \<Rightarrow> 'm named_sessions \<Rightarrow> 'm named_sessions \<times> 'm session_answer" where
  "spec_answer sha t op f =
     (case op of
        S_create tok c p m now \<Rightarrow>
          let x = new_session (sha tok) p c m now in (f(sha tok := Some x), A_session x)
      | S_get tok now \<Rightarrow>
          let r = map_option (\<lambda>x. x\<lparr>lastSeenAt := now\<rparr>) (found sha t tok now f)
          in (if tok = [] then f else f(sha tok := r), A_found r)
      | S_rotate tok new c now \<Rightarrow>
          (case found sha t tok now f of
             None \<Rightarrow> (if tok = [] then f else f(sha tok := None), A_rotated (throw INVALID_SESSION))
           | Some x \<Rightarrow>
               let x' = rotated (sha new) c now x
               in (f(sha tok := None, sha new := Some x'), A_rotated (return x')))
      | S_destroy tok \<Rightarrow> (if tok = [] then f else f(sha tok := None), A_done))"

primrec spec_answers ::
  "(string \<Rightarrow> string) \<Rightarrow> ttl \<Rightarrow> 'm session_op list \<Rightarrow> 'm named_sessions \<Rightarrow>
   'm named_sessions \<times> 'm session_answer list" where
  "spec_answers sha t [] f = (f, [])"
| "spec_answers sha t (op # ops) f =
     (case spec_answer sha t op f of (f', a) \<Rightarrow> map_prod id ((#) a) (spec_answers sha t ops f'))"

text \<open>The tokens that are handed out.\<close>

definition issued :: "'m session_op \<Rightarrow> string list" where
  "issued op = (case op of S_create tok c p m now \<Rightarrow> [tok] | S_get tok now \<Rightarrow> []
     | S_rotate tok new c now \<Rightarrow> [new] | S_destroy tok \<Rightarrow> [])"

abbreviation all_issued :: "'m session_op list \<Rightarrow> string list" where
  "all_issued ops \<equiv> concat (map issued ops)"

section \<open>Refinement\<close>

context session_store
begin

lemma answer_spec:
  assumes s: "inv s" and new: "\<forall>tok\<in>set (issued op). look s (sha tok) = None"
  shows "inv (fst (answer op s)) \<and> look (fst (answer op s)) = fst (spec_answer sha t op (look s)) \<and>
    snd (answer op s) = snd (spec_answer sha t op (look s))"
proof (cases op)
  case (S_create tok c p m now)
  with s new show ?thesis
    by (auto simp: session_call_def spec_answer_def issued_def create_look create_answer inv_create Let_def)
next
  case (S_get tok now)
  have "snd (get tok now s) = map_option (\<lambda>x. x\<lparr>lastSeenAt := now\<rparr>) (found sha t tok now (look s))"
    using get_answer[OF s, of tok now] by (auto simp: found_def split: option.split)
  with s show ?thesis
    by (auto simp: S_get session_call_def spec_answer_def get_look[OF s] inv_get Let_def)
next
  case (S_rotate tok new c now)
  have "snd (turn tok new c now s) = (case found sha t tok now (look s) of None \<Rightarrow> throw INVALID_SESSION
      | Some x \<Rightarrow> return (rotated (sha new) c now x))"
    using rotate_answer[OF s, of tok new c now] by (auto simp: found_def split: option.split)
  moreover have fresh: "look s (sha new) = None" using new S_rotate by (simp add: issued_def)
  moreover have "tok \<noteq> []" if "found sha t tok now (look s) \<noteq> None" using that by (auto simp: found_def)
  ultimately show ?thesis using s
    by (auto simp: S_rotate session_call_def spec_answer_def rotate_look[OF s fresh] inv_rotate Let_def
        split: option.split)
next
  case (S_destroy tok)
  with s show ?thesis by (auto simp: session_call_def spec_answer_def destroy_look inv_destroy)
qed

end

lemma spec_answer_dom: "fst (spec_answer sha t op f) h \<noteq> None \<Longrightarrow> f h \<noteq> None \<or> h \<in> sha ` set (issued op)"
  by (auto simp: spec_answer_def issued_def Let_def found_def split: session_op.splits option.splits if_splits)

context session_store
begin

lemma answers_spec:
  assumes "inv s" and "distinct (map sha (all_issued ops))"
    and "\<And>h. look s h \<noteq> None \<Longrightarrow> h \<notin> sha ` set (all_issued ops)"
  shows "look (fst (answers ops s)) = fst (spec_answers sha t ops (look s)) \<and>
    snd (answers ops s) = snd (spec_answers sha t ops (look s))"
  using assms
proof (induction ops arbitrary: s)
  case (Cons op ops)
  have "\<forall>tok\<in>set (issued op). look s (sha tok) = None" using Cons.prems(3) by force
  from answer_spec[OF Cons.prems(1) this] have a: "inv (fst (answer op s))"
    "look (fst (answer op s)) = fst (spec_answer sha t op (look s))"
    "snd (answer op s) = snd (spec_answer sha t op (look s))" by simp_all
  have "h \<notin> sha ` set (all_issued ops)" if "look (fst (answer op s)) h \<noteq> None" for h
  proof -
    have disjoint: "sha ` set (issued op) \<inter> sha ` set (all_issued ops) = {}" using Cons.prems(2) by simp
    have "look s h \<noteq> None \<or> h \<in> sha ` set (issued op)"
      using spec_answer_dom[of sha t op "look s" h] that by (simp add: a(2))
    then show ?thesis using Cons.prems(3)[of h] disjoint by auto
  qed
  with Cons.IH[OF a(1)] Cons.prems(2) a show ?case
    by (simp split: prod.split) (metis fst_conv snd_conv)
qed simp

end

section \<open>The two stores\<close>

definition store_look :: "'m mongo_store \<Rightarrow> string \<Rightarrow> 'm session option" where
  "store_look st h = (case st of In_memory ss \<Rightarrow> map_get ss h | On_collection c \<Rightarrow> findOne h c)"

definition store_inv :: "'m mongo_store \<Rightarrow> bool" where
  "store_inv st = (case st of In_memory ss \<Rightarrow> map_wf ss
     | On_collection c \<Rightarrow> has_deleteOne c \<and> has_updateOne c \<and> distinct (map sessionIdHash (documents c)))"

interpretation memory: session_store sha t map_get map_wf "memory_create sha" "memory_get sha t"
  "memory_rotate sha t" "memory_destroy sha"
  by unfold_locales
    (auto simp: memory_create_def memory_get_def memory_rotate_def memory_destroy_def hashToken_def Let_def
      split: option.split)

lemma find_snoc_session: "List.find P (xs @ ys) = (case List.find P xs of None \<Rightarrow> List.find P ys | Some x \<Rightarrow> Some x)"
  by (induction xs) auto

lemma find_hash_None: "List.find (\<lambda>s. sessionIdHash s = h) ds = None \<longleftrightarrow> h \<notin> sessionIdHash ` set ds"
  by (auto simp: find_None_iff)

lemma find_remove: "distinct (map sessionIdHash ds) \<Longrightarrow>
    List.find (\<lambda>s. sessionIdHash s = h) (remove_first (\<lambda>s. sessionIdHash s = k) ds) =
      (if h = k then None else List.find (\<lambda>s. sessionIdHash s = h) ds)"
  by (induction ds) (auto simp: find_hash_None)

lemma remove_first_subset: "set (remove_first P xs) \<subseteq> set xs"
  by (induction xs) auto

lemma distinct_remove: "distinct (map f ds) \<Longrightarrow> distinct (map f (remove_first P ds))"
  using remove_first_subset[of P] by (induction ds) auto

lemma change_hash: "(\<And>s. sessionIdHash (f s) = sessionIdHash s) \<Longrightarrow>
    map sessionIdHash (change_first P f ds) = map sessionIdHash ds"
  by (induction ds) auto

lemma find_change: "(\<And>s. sessionIdHash (f s) = sessionIdHash s) \<Longrightarrow>
    List.find (\<lambda>s. sessionIdHash s = h) (change_first (\<lambda>s. sessionIdHash s = k) f ds) =
      (if h = k then map_option f (List.find (\<lambda>s. sessionIdHash s = h) ds)
       else List.find (\<lambda>s. sessionIdHash s = h) ds)"
  by (induction ds) auto

lemmas collection_defs = findOne_def insertOne_def delete_one_def set_last_seen_def find_snoc_session find_remove
  distinct_remove change_hash find_change

interpretation mongo: session_store sha t store_look store_inv "mongo_create sha" "mongo_get sha t"
  "mongo_rotate sha t" "mongo_destroy sha"
proof
  fix s :: "'m mongo_store" and tok new c h :: string and p m and now :: int
  note defs = store_look_def mongo_create_def mongo_get_def mongo_rotate_def mongo_destroy_def on_memory_def
    hashToken_def Let_def
  note coll = defs store_inv_def collection_defs rotated_def new_session_def
  show "snd (mongo_create sha tok c p m now s) = new_session (sha tok) p c m now"
    by (cases s) (simp_all add: defs memory.create_answer)
  assume s: "store_inv s"
  have wf: "map_wf ss" if "s = In_memory ss" for ss using s that by (simp add: store_inv_def)
  show "store_inv (fst (mongo_create sha tok c p m now s))" if "store_look s (sha tok) = None"
    using s that by (cases s) (auto simp: coll find_hash_None intro: memory.inv_create)
  show "store_inv (fst (mongo_get sha t tok now s))"
    using s by (cases s) (auto simp: coll intro: memory.inv_get split: option.split)
  show "store_inv (fst (mongo_rotate sha t tok new c now s))" if "store_look s (sha new) = None"
    using s that
    by (cases s) (auto simp: coll find_hash_None intro: memory.inv_rotate dest: subsetD[OF remove_first_subset]
        split: option.split)
  show "store_inv (mongo_destroy sha tok s)"
    using s by (cases s) (auto simp: coll intro: memory.inv_destroy)
  show "store_look (fst (mongo_create sha tok c p m now s)) h =
      (if h = sha tok then Some (new_session (sha tok) p c m now) else store_look s h)"
    if "store_look s (sha tok) = None"
    using s that by (cases s) (auto simp: coll memory.create_look split: option.split)
  show "snd (mongo_get sha t tok now s) = (if tok = [] then None else case store_look s (sha tok) of None \<Rightarrow> None
       | Some x \<Rightarrow> if isExpired t now x then None else Some (x\<lparr>lastSeenAt := now\<rparr>))"
    using wf by (cases s) (auto simp: defs memory.get_answer split: option.split)
  show "store_look (fst (mongo_get sha t tok now s)) h =
      (if tok \<noteq> [] \<and> h = sha tok then snd (mongo_get sha t tok now s) else store_look s h)"
    using s by (cases s) (auto simp: coll memory.get_look split: option.split)
  show "snd (mongo_rotate sha t tok new c now s) = (if tok = [] then throw INVALID_SESSION
      else case store_look s (sha tok) of None \<Rightarrow> throw INVALID_SESSION
       | Some x \<Rightarrow> if isExpired t now x then throw INVALID_SESSION else return (rotated (sha new) c now x))"
    using wf by (cases s) (auto simp: defs memory.rotate_answer split: option.split)
  show "store_look (fst (mongo_rotate sha t tok new c now s)) h =
      (case snd (mongo_rotate sha t tok new c now s) of
         Inr x \<Rightarrow> if h = sha new then Some x else if h = sha tok then None else store_look s h
       | Inl e \<Rightarrow> if tok \<noteq> [] \<and> h = sha tok then None else store_look s h)"
    if "store_look s (sha new) = None"
    using s that by (cases s) (auto simp: coll memory.rotate_look split: option.split sum.split)
  show "store_look (mongo_destroy sha tok s) h = (if tok \<noteq> [] \<and> h = sha tok then None else store_look s h)"
    using s by (cases s) (auto simp: coll memory.destroy_look)
qed

section \<open>What both stores do\<close>

definition memory_calls ::
  "(string \<Rightarrow> string) \<Rightarrow> ttl \<Rightarrow> 'm session_op list \<Rightarrow> 'm sessions \<times> 'm session_answer list" where
  "memory_calls sha t ops =
     session_calls (memory_create sha) (memory_get sha t) (memory_rotate sha t) (memory_destroy sha) ops []"

definition mongo_calls ::
  "(string \<Rightarrow> string) \<Rightarrow> ttl \<Rightarrow> 'm session_op list \<Rightarrow> 'm collection \<Rightarrow> 'm mongo_store \<times> 'm session_answer list" where
  "mongo_calls sha t ops c =
     session_calls (mongo_create sha) (mongo_get sha t) (mongo_rotate sha t) (mongo_destroy sha) ops
       (MongoSessionStore (Some c))"

definition empty_collection :: "bool \<Rightarrow> 'm collection" where
  "empty_collection deletes = \<lparr>documents = [], has_deleteOne = deletes, has_updateOne = True\<rparr>"

definition fresh_tokens :: "(string \<Rightarrow> string) \<Rightarrow> 'm session_op list \<Rightarrow> bool" where
  "fresh_tokens sha ops \<longleftrightarrow> distinct (map sha (all_issued ops))"

lemma empty_map: "map_get [] = (\<lambda>h. None)"
  by (simp add: fun_eq_iff)

lemma memory_spec: "fresh_tokens sha ops \<Longrightarrow> snd (memory_calls sha t ops) = snd (spec_answers sha t ops (\<lambda>h. None))"
proof -
  assume "fresh_tokens sha ops"
  then show ?thesis
    using memory.answers_spec[of "[]" sha ops t] by (simp add: memory_calls_def fresh_tokens_def empty_map)
qed


text \<open>Runs of the abstract store.\<close>

lemma spec_answers_append:
  "fst (spec_answers sha t (xs @ ys) f) = fst (spec_answers sha t ys (fst (spec_answers sha t xs f)))"
  "snd (spec_answers sha t (xs @ ys) f) =
     snd (spec_answers sha t xs f) @ snd (spec_answers sha t ys (fst (spec_answers sha t xs f)))"
  by (induction xs arbitrary: f) (simp_all split: prod.split)

lemma spec_answers_Cons:
  "fst (spec_answers sha t (op # ops) f) = fst (spec_answers sha t ops (fst (spec_answer sha t op f)))"
  by (simp split: prod.split)

lemma spec_answers_last:
  "last (snd (spec_answers sha t (xs @ [op]) f)) = snd (spec_answer sha t op (fst (spec_answers sha t xs f)))"
  by (simp add: spec_answers_append(2) split: prod.split)

lemma absent_stays_absent:
  "f h = None \<Longrightarrow> h \<notin> sha ` set (all_issued ops) \<Longrightarrow> fst (spec_answers sha t ops f) h = None"
proof (induction ops arbitrary: f)
  case (Cons op ops)
  obtain f' a where a: "spec_answer sha t op f = (f', a)" by fastforce
  have "f' h = None" using spec_answer_dom[of sha t op f h] a Cons.prems by (auto simp: image_Un)
  with Cons.IH[of f'] Cons.prems(2) a show ?case by (simp add: image_Un)
qed simp

definition ends :: "string \<Rightarrow> 'm session_op \<Rightarrow> bool" where
  "ends tok op \<longleftrightarrow> (case op of S_destroy k \<Rightarrow> k = tok | S_rotate k new c now \<Rightarrow> k = tok \<and> new \<noteq> tok | _ \<Rightarrow> False)"

text \<open>C33. A token that was logged out or rotated is dead: until it is handed out again, no later request finds a
  session under it, and no later rotation succeeds.\<close>

theorem ended_session_stays_ended:
  assumes "fresh_tokens sha (pre @ [op] @ post @ [S_get tok now])" and "ends tok op"
    and "sha tok \<notin> sha ` set (all_issued (op # post))"
  shows "last (snd (memory_calls sha t (pre @ [op] @ post @ [S_get tok now]))) = A_found None"
proof -
  define f where "f = fst (spec_answers sha t pre (\<lambda>h. None))"
  define f1 where "f1 = fst (spec_answer sha t op f)"
  have "tok = [] \<or> f1 (sha tok) = None"
    using assms(2,3) by (auto simp: f1_def ends_def spec_answer_def issued_def Let_def split: session_op.splits option.splits)
  then have "tok = [] \<or> fst (spec_answers sha t post f1) (sha tok) = None"
    using absent_stays_absent[of f1 "sha tok" sha post t] assms(3) by (auto simp: image_Un)
  then have "snd (spec_answer sha t (S_get tok now) (fst (spec_answers sha t post f1))) = A_found None"
    by (auto simp: spec_answer_def found_def Let_def)
  moreover have "fst (spec_answers sha t (pre @ op # post) (\<lambda>h. None)) = fst (spec_answers sha t post f1)"
    by (simp add: spec_answers_append(1) spec_answers_Cons f_def f1_def del: spec_answers.simps)
  ultimately show ?thesis
    using spec_answers_last[of sha t "pre @ op # post" "S_get tok now" "\<lambda>h. None"] memory_spec[OF assms(1), of t]
    by simp
qed

text \<open>Where the sessions of the abstract store come from.\<close>

definition login_in :: "'m session_op list \<Rightarrow> 'm session \<Rightarrow> bool" where
  "login_in ops x \<longleftrightarrow> (\<exists>tok c m. S_create tok c (se_principal x) m (se_createdAt x) \<in> set ops)"

lemma spec_answer_login:
  assumes "\<And>h x. f h = Some x \<Longrightarrow> login_in ops x" and "op \<in> set ops" and "fst (spec_answer sha t op f) h = Some x"
  shows "login_in ops x"
proof -
  have keep: "login_in ops (y\<lparr>lastSeenAt := now\<rparr>) = login_in ops y" "login_in ops (rotated k c now y) = login_in ops y"
    for y now k c by (simp_all add: login_in_def rotated_def)
  have "login_in ops (new_session (sha tok) p c m now)" if "op = S_create tok c p m now" for tok c p m now
    using assms(2) that by (auto simp: login_in_def new_session_def)
  moreover have "login_in ops y" if "found sha t tok now f = Some y" for tok now y
    using assms(1) that by (auto simp: found_def split: if_splits option.splits)
  ultimately show ?thesis using assms(1,3)
    by (auto simp: spec_answer_def Let_def keep split: session_op.splits option.splits if_splits)
qed

lemma spec_answers_login:
  "(\<And>h x. f h = Some x \<Longrightarrow> login_in ops x) \<Longrightarrow> set ops' \<subseteq> set ops \<Longrightarrow>
    fst (spec_answers sha t ops' f) h = Some x \<Longrightarrow> login_in ops x"
proof (induction ops' arbitrary: f)
  case (Cons op ops')
  have "login_in ops x" if "fst (spec_answer sha t op f) h = Some x" for h x
    using spec_answer_login[OF Cons.prems(1) _ that] Cons.prems(2) by simp
  with Cons.IH[of "fst (spec_answer sha t op f)"] Cons.prems(2,3) show ?case by (simp add: spec_answers_Cons del: spec_answers.simps)
qed simp

text \<open>When the session under a hash was last used: by the login or the rotation that issued its token, or by a
  request that presented the token.\<close>

definition use_time :: "(string \<Rightarrow> string) \<Rightarrow> string \<Rightarrow> 'm session_op \<Rightarrow> int option" where
  "use_time sha h op =
     (case op of
        S_create tok c p m u \<Rightarrow> if sha tok = h then Some u else None
      | S_get tok u \<Rightarrow> if tok \<noteq> [] \<and> sha tok = h then Some u else None
      | S_rotate tok new c u \<Rightarrow> if sha new = h then Some u else None
      | S_destroy tok \<Rightarrow> None)"

definition last_use :: "(string \<Rightarrow> string) \<Rightarrow> string \<Rightarrow> 'm session_op list \<Rightarrow> int option" where
  "last_use sha h ops = foldl (\<lambda>u op. case use_time sha h op of None \<Rightarrow> u | Some v \<Rightarrow> Some v) None ops"

lemma last_use_snoc:
  "last_use sha h (ops @ [op]) = (case use_time sha h op of None \<Rightarrow> last_use sha h ops | Some v \<Rightarrow> Some v)"
  unfolding last_use_def by simp

lemma spec_answer_seen:
  assumes "\<And>x. f h = Some x \<Longrightarrow> u = Some (lastSeenAt x)" and "\<forall>k\<in>set (issued op). f (sha k) = None"
    and "fst (spec_answer sha t op f) h = Some x"
  shows "(case use_time sha h op of None \<Rightarrow> u | Some v \<Rightarrow> Some v) = Some (lastSeenAt x)"
  using assms
  by (auto simp: spec_answer_def use_time_def issued_def Let_def new_session_def rotated_def found_def
      split: session_op.splits option.splits if_splits)

lemma spec_answers_seen:
  "distinct (map sha (all_issued ops)) \<Longrightarrow> fst (spec_answers sha t ops (\<lambda>h. None)) h = Some x \<Longrightarrow>
    last_use sha h ops = Some (lastSeenAt x)"
proof (induction ops arbitrary: x rule: rev_induct)
  case (snoc op ops)
  let ?f = "fst (spec_answers sha t ops (\<lambda>h. None))"
  have "sha k \<notin> sha ` set (all_issued ops)" if "k \<in> set (issued op)" for k
    using snoc.prems(1) that by auto
  then have "\<forall>k\<in>set (issued op). ?f (sha k) = None" by (simp add: absent_stays_absent)
  moreover have "last_use sha h ops = Some (lastSeenAt y)" if "?f h = Some y" for y
    using snoc.IH[OF _ that] snoc.prems(1) by simp
  moreover have "fst (spec_answer sha t op ?f) h = Some x"
    using snoc.prems(2) by (simp add: spec_answers_append(1) split: prod.splits)
  ultimately show ?case using spec_answer_seen[of ?f h "last_use sha h ops" op sha t x] by (simp add: last_use_snoc)
qed simp

text \<open>C34. A session that is served belongs to a login of its principal that is no older than the absolute limit,
  however often it was rotated and however active it has been, and the last use of its token before the
  request is no longer ago than the idle limit.\<close>

theorem served_session_is_recent_login:
  assumes "fresh_tokens sha (ops @ [S_get tok now])"
    and "last (snd (memory_calls sha t (ops @ [S_get tok now]))) = A_found (Some s)"
  shows "\<exists>k c m used. S_create k c (se_principal s) m (se_createdAt s) \<in> set ops \<and>
    now - se_createdAt s \<le> absoluteTtlSec t * 1000 \<and>
    last_use sha (sha tok) ops = Some used \<and> now - used \<le> idleTtlSec t * 1000 \<and> lastSeenAt s = now"
proof -
  define f where "f = fst (spec_answers sha t ops (\<lambda>h. None))"
  have "snd (spec_answer sha t (S_get tok now) f) = A_found (Some s)"
    using assms(2) spec_answers_last[of sha t ops "S_get tok now" "\<lambda>h. None"] memory_spec[OF assms(1), of t]
    by (simp add: f_def)
  then obtain x where x: "found sha t tok now f = Some x" "s = x\<lparr>lastSeenAt := now\<rparr>"
    by (auto simp: spec_answer_def Let_def)
  then have here: "f (sha tok) = Some x" "\<not> isExpired t now x"
    by (auto simp: found_def split: if_splits option.splits)
  have "login_in ops x"
    using spec_answers_login[of "\<lambda>h. None" ops ops sha t "sha tok" x] here(1) by (simp add: f_def)
  moreover have "last_use sha (sha tok) ops = Some (lastSeenAt x)"
    using spec_answers_seen[of sha ops t "sha tok" x] assms(1) here(1) by (simp add: f_def fresh_tokens_def)
  ultimately show ?thesis using x(2) here(2) by (auto simp: login_in_def isExpired_def split: if_splits)
qed

text \<open>C35. On a collection without \<open>deleteOne\<close>, which the one in memory is, logging out and rotating end nothing:
  the old token finds its session as before.\<close>

theorem collection_without_delete_keeps_sessions:
  assumes "\<not> has_deleteOne c" and "findOne (sha tok) c = Some s" and "tok \<noteq> []" and "\<not> isExpired t now s"
  shows "snd (mongo_get sha t tok now (mongo_destroy sha tok (On_collection c))) = Some (s\<lparr>lastSeenAt := now\<rparr>) \<and>
    snd (mongo_get sha t tok now (fst (mongo_rotate sha t tok new csrf before (On_collection c)))) =
      Some (s\<lparr>lastSeenAt := now\<rparr>)"
  using assms by (auto simp: mongo_get_def mongo_destroy_def mongo_rotate_def hashToken_def delete_one_def Let_def
      findOne_def insertOne_def find_snoc_session)

definition demo_principal :: principal where
  "demo_principal = \<lparr>pr_principalId = ''u-1'', pr_provider = ''discord'', pr_providerSubject = ''42'', pr_roles = [''user'']\<rparr>"

definition demo_ttl :: ttl where "demo_ttl = \<lparr>idleTtlSec = 10, absoluteTtlSec = 20\<rparr>"

definition demo_login :: "nat session_op list" where
  "demo_login = [S_create ''a'' ''x'' demo_principal 0 100, S_rotate ''a'' ''b'' ''y'' 200]"

lemmas demo_session_eval = demo_login_def demo_ttl_def demo_principal_def fresh_tokens_def issued_def memory_calls_def
  session_call_def memory_create_def memory_rotate_def memory_get_def memory_destroy_def hashToken_def new_session_def
  rotated_def isExpired_def Let_def map_get_def map_delete_def


theorem ended_session_stays_ended_witness:
  "last (snd (memory_calls (\<lambda>k. k) demo_ttl ([S_create ''a'' ''x'' demo_principal (0 :: nat) 100] @
     [S_rotate ''a'' ''b'' ''y'' 200] @ [] @ [S_get ''a'' 300]))) = A_found None"
  by (rule ended_session_stays_ended) (simp_all add: fresh_tokens_def issued_def ends_def)

theorem served_session_is_recent_login_witness:
  "\<exists>s used. last (snd (memory_calls (\<lambda>k. k) demo_ttl (demo_login @ [S_get ''b'' 300]))) = A_found (Some s) \<and>
     300 - se_createdAt s \<le> absoluteTtlSec demo_ttl * 1000 \<and>
     last_use (\<lambda>k. k) ''b'' demo_login = Some used \<and> 300 - used \<le> idleTtlSec demo_ttl * 1000"
proof -
  have fresh: "fresh_tokens (\<lambda>k. k) (demo_login @ [S_get ''b'' 300])" by (simp add: demo_session_eval)
  have "\<exists>s. last (snd (memory_calls (\<lambda>k. k) demo_ttl (demo_login @ [S_get ''b'' 300]))) = A_found (Some s)"
    by (simp add: demo_session_eval)
  then obtain s where s: "last (snd (memory_calls (\<lambda>k. k) demo_ttl (demo_login @ [S_get ''b'' 300]))) = A_found (Some s)"
    by blast
  with served_session_is_recent_login [OF fresh s] show ?thesis by blast
qed

theorem collection_without_delete_keeps_sessions_witness:
  "snd (mongo_get (\<lambda>k. k) demo_ttl ''a'' 300 (mongo_destroy (\<lambda>k. k) ''a''
     (On_collection \<lparr>documents = [new_session ''a'' demo_principal ''x'' (0 :: nat) 100], has_deleteOne = False, has_updateOne = True\<rparr>)))
   \<noteq> None"
  using collection_without_delete_keeps_sessions [of "\<lparr>documents = [new_session ''a'' demo_principal ''x'' (0 :: nat) 100],
      has_deleteOne = False, has_updateOne = True\<rparr>" "\<lambda>k. k" "''a''" "new_session ''a'' demo_principal ''x'' 0 100" demo_ttl 300]
  by (simp add: findOne_def new_session_def isExpired_def demo_ttl_def)

end
