(* ===== verification/Discord_OAuth.thy ===== *)
theory Discord_OAuth
  imports Session_Store
begin

text \<open>
  Logins and assertions (\<open>packages/api/src/auth/discord-oauth.js\<close>). Parameters: the keyed hashes, the
  decoding of a base64url JSON body, \<open>decodeURI\<close>, and what Discord answers. One call reads the clock once
  (milliseconds). Dates inside an assertion are whole seconds.
\<close>

section \<open>Text\<close>

fun split_on :: "char \<Rightarrow> string \<Rightarrow> string list" where
  "split_on c [] = [[]]"
| "split_on c (x # s) =
     (if x = c then [] # split_on c s
      else (case split_on c s of w # ws \<Rightarrow> (x # w) # ws | [] \<Rightarrow> [[x]]))"

definition join_with :: "string \<Rightarrow> string list \<Rightarrow> string" where
  "join_with sep ws = (case ws of [] \<Rightarrow> [] | w # ws \<Rightarrow> w @ concat (map (\<lambda>v. sep @ v) ws))"

definition is_space :: "char \<Rightarrow> bool" where
  "is_space c \<longleftrightarrow> c = CHR '' '' \<or> (9 \<le> (of_char c :: nat) \<and> (of_char c :: nat) \<le> 13) \<or> (of_char c :: nat) = 160"

definition trim :: "string \<Rightarrow> string" where
  "trim s = rev (dropWhile is_space (rev (dropWhile is_space s)))"

section \<open>Principal assertions\<close>

record assertion =
  iss :: "string option"
  aud :: "string option"
  exp_s :: "int option"
  iat_s :: "int option"
  nonce :: "string option"
  as_provider :: "string option"
  as_sub :: "string option"
  as_providerSubject :: "string option"

datatype auth_error =
  MISSING_ASSERTION | INVALID_FORMAT | INVALID_SIGNATURE | MALFORMED_PAYLOAD | INVALID_ISSUER | INVALID_AUDIENCE |
  ASSERTION_EXPIRED | ISSUED_IN_FUTURE | MISSING_NONCE | REPLAYED_NONCE |
  OAUTH_ERROR string | MISSING_CODE | MISSING_STATE | MALFORMED_STATE | INVALID_STATE_SIGNATURE | UNKNOWN_STATE |
  TRANSACTION_EXPIRED | STATE_MISMATCH | EXCHANGE_FAILED

definition signPrincipalAssertion :: "(string \<Rightarrow> string) \<Rightarrow> string \<Rightarrow> string \<Rightarrow> string" where
  "signPrincipalAssertion hmac header body = header @ ''.'' @ body @ ''.'' @ hmac (header @ ''.'' @ body)"

text \<open>The checks of the decoded payload, before the nonce.\<close>

definition check_claims :: "assertion \<Rightarrow> int \<Rightarrow> (auth_error, string \<times> int) outcome" where
  "check_claims a now =
     (if iss a \<noteq> Some ''valax-discord-bot'' then throw INVALID_ISSUER
      else if aud a \<noteq> Some ''valax-product-api'' then throw INVALID_AUDIENCE
      else if (case exp_s a of None \<Rightarrow> True | Some e \<Rightarrow> e = 0 \<or> e < now) then throw ASSERTION_EXPIRED
      else if (case iat_s a of None \<Rightarrow> True | Some i \<Rightarrow> i = 0 \<or> i > now + 30) then throw ISSUED_IN_FUTURE
      else if \<not> truthy_str (nonce a) then throw MISSING_NONCE
      else return (the (nonce a), the (exp_s a)))"

type_synonym nonces = "(string, int) js_map"

definition purge_nonces :: "int \<Rightarrow> nonces \<Rightarrow> nonces" where
  "purge_nonces curMs seen = filter (\<lambda>e. \<not> curMs > snd e) seen"

definition use_nonce :: "assertion \<Rightarrow> int \<Rightarrow> nonces \<Rightarrow> nonces \<times> (auth_error, assertion) outcome" where
  "use_nonce a ms seen =
     (case check_claims a (ms div 1000) of
        Inl e \<Rightarrow> (seen, throw e)
      | Inr (n, e) \<Rightarrow>
          if map_get seen n \<noteq> None then (seen, throw REPLAYED_NONCE)
          else (purge_nonces ms (map_set seen n (e * 1000)), return a))"

definition verifyPrincipalAssertion ::
  "(string \<Rightarrow> string) \<Rightarrow> (string \<Rightarrow> assertion option) \<Rightarrow> string \<Rightarrow> int \<Rightarrow> nonces \<Rightarrow>
   nonces \<times> (auth_error, assertion) outcome" where
  "verifyPrincipalAssertion hmac decode s ms seen =
     (if s = [] then (seen, throw MISSING_ASSERTION)
      else (case split_on (CHR ''.'') s of
        [header, body, sig] \<Rightarrow>
          if sig \<noteq> hmac (header @ ''.'' @ body) then (seen, throw INVALID_SIGNATURE)
          else (case decode body of
                  None \<Rightarrow> (seen, throw MALFORMED_PAYLOAD)
                | Some a \<Rightarrow> use_nonce a ms seen)
      | _ \<Rightarrow> (seen, throw INVALID_FORMAT)))"

section \<open>Cookies\<close>

text \<open>\<open>Object.entries\<close> order does not matter here; names that every object inherits are not asked for.\<close>

definition parse_cookie :: "(string \<Rightarrow> string) \<Rightarrow> (string, string) js_map \<Rightarrow> string \<Rightarrow> (string, string) js_map" where
  "parse_cookie decodeURI m cookie =
     (case split_on (CHR ''='') cookie of
        name # parts \<Rightarrow> map_set m (trim name) (decodeURI (join_with ''='' parts))
      | [] \<Rightarrow> m)"

definition parseCookies :: "(string \<Rightarrow> string) \<Rightarrow> string option \<Rightarrow> (string, string) js_map" where
  "parseCookies decodeURI rc =
     (if truthy_str rc then foldl (parse_cookie decodeURI) [] (split_on (CHR '';'') (the rc)) else [])"

record cookie_options =
  co_path :: "string option"
  co_maxAge :: "string option"
  co_httpOnly :: "bool option"
  co_secure :: bool
  co_sameSite :: "string option"

definition buildCookieHeader :: "(string \<Rightarrow> string) \<Rightarrow> bool \<Rightarrow> string \<Rightarrow> string \<Rightarrow> cookie_options \<Rightarrow> string" where
  "buildCookieHeader encode isProd name v opts =
     join_with ''; '' ([name @ ''='' @ encode v, ''Path='' @ the (js_or_str (co_path opts) (Some ''/''))] @
       (case co_maxAge opts of None \<Rightarrow> [] | Some n \<Rightarrow> [''Max-Age='' @ n]) @
       (if co_httpOnly opts \<noteq> Some False then [''HttpOnly''] else []) @
       (if co_secure opts \<or> isProd then [''Secure''] else []) @
       [''SameSite='' @ the (js_or_str (co_sameSite opts) (Some ''Lax''))])"

section \<open>The login\<close>

record pending =
  codeVerifier :: string
  initiatingSessionId :: "string option"
  pe_expiresAt :: int

type_synonym pending_states = "(string, pending) js_map"

text \<open>\<open>handleAuthorize\<close>: the state of the redirect and of the cookie, for a random \<open>st\<close>.\<close>

definition handleAuthorize ::
  "(string \<Rightarrow> string) \<Rightarrow> string \<Rightarrow> string \<Rightarrow> (string, string) js_map \<Rightarrow> int \<Rightarrow> pending_states \<Rightarrow> pending_states \<times> string" where
  "handleAuthorize signState st verifier cookies now ps =
     (map_set ps st \<lparr>codeVerifier = verifier,
        initiatingSessionId = js_or_str (map_get cookies ''valax_session'') None,
        pe_expiresAt = now + 10 * 60 * 1000\<rparr>,
      st @ ''.'' @ signState st)"

record callback_query =
  cq_state :: "string option"
  cq_code :: "string option"
  cq_error :: "string option"

text \<open>The destructuring \<open>[rawState, sig]\<close>; further parts are ignored.\<close>

definition state_parts :: "string \<Rightarrow> (string \<times> string) option" where
  "state_parts s =
     (case split_on (CHR ''.'') s of
        rawState # sig # _ \<Rightarrow> if rawState = [] \<or> sig = [] then None else Some (rawState, sig)
      | _ \<Rightarrow> None)"

text \<open>The checks of \<open>handleCallback\<close>: on success the code and the verifier of the token exchange.\<close>

definition check_callback ::
  "(string \<Rightarrow> string) \<Rightarrow> callback_query \<Rightarrow> (string, string) js_map \<Rightarrow> int \<Rightarrow> pending_states \<Rightarrow>
   pending_states \<times> (auth_error, string \<times> string) outcome" where
  "check_callback signState q cookies now ps =
     (if truthy_str (cq_error q) then (ps, throw (OAUTH_ERROR (the (cq_error q))))
      else if \<not> truthy_str (cq_code q) then (ps, throw MISSING_CODE)
      else if \<not> truthy_str (cq_state q) then (ps, throw MISSING_STATE)
      else (case state_parts (the (cq_state q)) of
        None \<Rightarrow> (ps, throw MALFORMED_STATE)
      | Some (rawState, sig) \<Rightarrow>
          if sig \<noteq> signState rawState then (ps, throw INVALID_STATE_SIGNATURE)
          else (case map_get ps rawState of
            None \<Rightarrow> (ps, throw UNKNOWN_STATE)
          | Some p \<Rightarrow>
              let ps' = map_delete ps rawState
              in if now > pe_expiresAt p then (ps', throw TRANSACTION_EXPIRED)
                 else if truthy_str (map_get cookies ''valax_oauth_state'') \<and>
                   map_get cookies ''valax_oauth_state'' \<noteq> Some rawState then (ps', throw STATE_MISMATCH)
                 else (ps', return (the (cq_code q), codeVerifier p)))))"

text \<open>What follows when Discord answers with a user whose principal is \<open>p\<close>: the old session of the browser ends, a
  new one with the drawn tokens begins, on the store in memory.\<close>

definition finish_login ::
  "(string \<Rightarrow> string) \<Rightarrow> (string, string) js_map \<Rightarrow> principal \<Rightarrow> 'm \<Rightarrow> string \<Rightarrow> string \<Rightarrow> int \<Rightarrow> 'm sessions \<Rightarrow>
   'm sessions \<times> 'm session" where
  "finish_login sha cookies p meta tok csrf now ss =
     (let ss1 = (case map_get cookies ''valax_session'' of
                   None \<Rightarrow> ss | Some old \<Rightarrow> if old = [] then ss else memory_destroy sha old ss)
      in memory_create sha tok csrf p meta now ss1)"

record 'm oauth =
  pendingStates :: pending_states
  seenNonces :: nonces
  oauth_sessions :: "'m sessions"

definition handleCallback ::
  "(string \<Rightarrow> string) \<Rightarrow> (string \<Rightarrow> string) \<Rightarrow> (string \<times> string \<Rightarrow> (principal \<times> 'm) option) \<Rightarrow> callback_query \<Rightarrow>
   (string, string) js_map \<Rightarrow> string \<Rightarrow> string \<Rightarrow> int \<Rightarrow> 'm oauth \<Rightarrow> 'm oauth \<times> (auth_error, 'm session) outcome" where
  "handleCallback sha signState discord q cookies tok csrf now ctl =
     (case check_callback signState q cookies now (pendingStates ctl) of
        (ps, Inl e) \<Rightarrow> (ctl\<lparr>pendingStates := ps\<rparr>, throw e)
      | (ps, Inr request) \<Rightarrow>
          (case discord request of
             None \<Rightarrow> (ctl\<lparr>pendingStates := ps\<rparr>, throw EXCHANGE_FAILED)
           | Some (p, meta) \<Rightarrow>
               (case finish_login sha cookies p meta tok csrf now (oauth_sessions ctl) of (ss, s) \<Rightarrow>
                  (ctl\<lparr>pendingStates := ps, oauth_sessions := ss\<rparr>, return s))))"

text \<open>Logging out.\<close>

definition handleLogout :: "(string \<Rightarrow> string) \<Rightarrow> (string, string) js_map \<Rightarrow> 'm sessions \<Rightarrow> 'm sessions" where
  "handleLogout sha cookies ss =
     (case map_get cookies ''valax_session'' of
        None \<Rightarrow> ss | Some tok \<Rightarrow> if tok = [] then ss else memory_destroy sha tok ss)"

section \<open>Splitting\<close>

lemma split_on_nonempty [simp]: "split_on c s \<noteq> []"
  by (cases s) (auto split: list.split)

lemma split_on_join: "\<forall>w\<in>set (w # ws). c \<notin> set w \<Longrightarrow> split_on c (join_with [c] (w # ws)) = w # ws"
proof (induction ws arbitrary: w)
  case Nil
  have "c \<notin> set w \<Longrightarrow> split_on c w = [w]" by (induction w) auto
  with Nil show ?case by (simp add: join_with_def)
next
  case (Cons v ws)
  have "split_on c (w @ c # s) = w # split_on c s" if "c \<notin> set w" for s
    using that by (induction w) auto
  with Cons.IH[of v] Cons.prems show ?case by (simp add: join_with_def)
qed

lemma split_three: "CHR ''.'' \<notin> set a \<Longrightarrow> CHR ''.'' \<notin> set b \<Longrightarrow> CHR ''.'' \<notin> set c \<Longrightarrow>
    split_on (CHR ''.'') (a @ ''.'' @ b @ ''.'' @ c) = [a, b, c]"
  using split_on_join[of a "[b, c]" "CHR ''.''"] by (simp add: join_with_def)

section \<open>Replays\<close>

text \<open>Verifications in a row, with their times.\<close>

primrec verify_all ::
  "(string \<Rightarrow> string) \<Rightarrow> (string \<Rightarrow> assertion option) \<Rightarrow> (string \<times> int) list \<Rightarrow> nonces \<Rightarrow>
   nonces \<times> (auth_error, assertion) outcome list" where
  "verify_all hmac decode [] seen = (seen, [])"
| "verify_all hmac decode (call # calls) seen =
     (case verifyPrincipalAssertion hmac decode (fst call) (snd call) seen of
        (seen1, r) \<Rightarrow> map_prod id ((#) r) (verify_all hmac decode calls seen1))"

lemma purge_get: "map_wf m \<Longrightarrow> map_get (purge_nonces ms m) n =
    (case map_get m n of None \<Rightarrow> None | Some e \<Rightarrow> if ms > e then None else Some e)"
proof (induction m)
  case (Cons x m)
  then have "map_wf m" "map_get m (fst x) = None"
    by (auto simp: map_wf_def map_keys_def map_get_None_keys)
  with Cons.IH show ?case
    by (cases x) (auto simp: purge_nonces_def map_get_def split: option.splits)
qed (simp add: purge_nonces_def)

lemma purge_wf: "map_wf m \<Longrightarrow> map_wf (purge_nonces ms m)"
  by (induction m) (auto simp: map_wf_def map_keys_def purge_nonces_def)

lemma claims_accepted:
  assumes "check_claims a now = return (n, e)"
  shows "nonce a = Some n \<and> exp_s a = Some e \<and> now \<le> e"
proof -
  have "truthy_str (nonce a)" "n = the (nonce a)" "e = the (exp_s a)" "\<not> (case exp_s a of None \<Rightarrow> True | Some e \<Rightarrow> e = 0 \<or> e < now)"
    using assms unfolding check_claims_def by (auto split: if_splits)
  then show ?thesis by (auto split: option.splits)
qed

lemma verify_uses_nonce:
  assumes "verifyPrincipalAssertion hmac decode s ms seen = (seen', return a)"
  shows "verifyPrincipalAssertion hmac decode s ms = use_nonce a ms"
proof -
  obtain header body sig where w: "split_on (CHR ''.'') s = [header, body, sig]" "s \<noteq> []"
    "sig = hmac (header @ ''.'' @ body)"
    using assms unfolding verifyPrincipalAssertion_def by (auto split: if_splits list.splits)
  obtain b where b: "decode body = Some b"
    using assms by (auto simp: verifyPrincipalAssertion_def w split: option.splits)
  then have eq: "verifyPrincipalAssertion hmac decode s ms = use_nonce b ms"
    using w(2,3) by (simp add: verifyPrincipalAssertion_def w(1) fun_eq_iff)
  then have "b = a" using assms by (auto simp: use_nonce_def split: sum.splits if_splits prod.splits)
  with eq show ?thesis by simp
qed

lemma verify_accepted:
  assumes "verifyPrincipalAssertion hmac decode s ms seen = (seen', return a)"
  obtains n e where "nonce a = Some n" "exp_s a = Some e" "ms div 1000 \<le> e" "map_get seen n = None"
    "seen' = purge_nonces ms (map_set seen n (e * 1000))" "check_claims a (ms div 1000) = return (n, e)"
proof -
  obtain n e where c: "check_claims a (ms div 1000) = return (n, e)" "map_get seen n = None"
    "seen' = purge_nonces ms (map_set seen n (e * 1000))"
    using assms unfolding verify_uses_nonce[OF assms] use_nonce_def
    by (auto split: sum.splits if_splits)
  with claims_accepted[OF c(1)] that show thesis by blast
qed

lemma verify_refused: "verifyPrincipalAssertion hmac decode s ms seen = (seen', Inl e) \<Longrightarrow> seen' = seen"
  by (auto simp: verifyPrincipalAssertion_def use_nonce_def split: if_splits list.splits option.splits sum.splits)

lemma remembered_until_expiry:
  "map_wf seen \<Longrightarrow> sorted (map snd calls) \<Longrightarrow> map_get seen n = Some v \<Longrightarrow> j < length calls \<Longrightarrow>
    snd (verify_all hmac decode calls seen) ! j = return b \<Longrightarrow> nonce b = Some n \<Longrightarrow> v < snd (calls ! j)"
proof (induction calls arbitrary: seen j)
  case (Cons call calls)
  obtain seen1 r where r: "verifyPrincipalAssertion hmac decode (fst call) (snd call) seen = (seen1, r)" by fastforce
  have later: "snd call \<le> snd ((call # calls) ! j)"
    using Cons.prems(2,4) by (cases j) auto
  have step: "map_wf seen1 \<and> (map_get seen1 n = Some v \<or> v < snd call) \<and> (\<forall>b. r = return b \<longrightarrow> nonce b \<noteq> Some n)"
  proof (cases r)
    case (Inl e)
    have "seen1 = seen" using r unfolding Inl by (rule verify_refused)
    with Inl Cons.prems(1,3) show ?thesis by simp
  next
    case (Inr a)
    obtain k e where k: "nonce a = Some k" "map_get seen k = None"
      "seen1 = purge_nonces (snd call) (map_set seen k (e * 1000))"
      using r Inr by (auto elim: verify_accepted)
    with Cons.prems(1,3) Inr show ?thesis by (auto simp: purge_get purge_wf)
  qed
  show ?case
  proof (cases j)
    case 0
    with step Cons.prems(5,6) r show ?thesis by (simp add: map_prod_def split: prod.splits)
  next
    case (Suc i)
    have "snd (verify_all hmac decode calls seen1) ! i = return b" using Cons.prems(5) r Suc by simp
    then have "v < snd (calls ! i)" if "map_get seen1 n = Some v"
      using Cons.IH[of seen1 i] Cons.prems(2,4,6) step Suc that by simp
    moreover have "v < snd (calls ! i)" if "v < snd call" using that later Suc by simp
    ultimately show ?thesis using step Suc by auto
  qed
qed simp

text \<open>C37. A nonce is accepted once while its assertion lives: among verifications in the order of time, an accepted
  assertion whose nonce was accepted before is verified after the expiry of the first.\<close>

theorem replay_only_after_expiry:
  assumes "map_wf seen" and "sorted (map snd calls)" and "i < j" and "j < length calls"
    and "snd (verify_all hmac decode calls seen) ! i = return a"
    and "snd (verify_all hmac decode calls seen) ! j = return b"
    and "nonce b = nonce a" and "exp_s a = Some e"
  shows "e * 1000 < snd (calls ! j)"
  using assms(1-6)
proof (induction calls arbitrary: seen i j)
  case (Cons call calls)
  obtain seen1 r where r: "verifyPrincipalAssertion hmac decode (fst call) (snd call) seen = (seen1, r)" by fastforce
  obtain k where j: "j = Suc k" using Cons.prems(3) by (cases j) auto
  have kb: "snd (verify_all hmac decode calls seen1) ! k = return b" using Cons.prems(6) r j by simp
  show ?case
  proof (cases i)
    case 0
    then have "r = return a" using Cons.prems(5) r by simp
    with r obtain n where n: "nonce a = Some n" "seen1 = purge_nonces (snd call) (map_set seen n (e * 1000))"
      using assms(8) by (auto elim: verify_accepted)
    have "calls ! k \<in> set calls" using Cons.prems(4) j by simp
    then have later: "snd call \<le> snd (calls ! k)" using Cons.prems(2) by auto
    have "map_wf seen1" "map_get seen1 n = Some (e * 1000) \<or> e * 1000 < snd call"
      using n Cons.prems(1) by (auto simp: purge_get purge_wf)
    moreover have "e * 1000 < snd (calls ! k)" if "map_get seen1 n = Some (e * 1000)"
      using remembered_until_expiry[OF \<open>map_wf seen1\<close> _ that] Cons.prems(2,4) kb assms(7) n(1) j by simp
    moreover have "e * 1000 < snd (calls ! k)" if "e * 1000 < snd call" using that later by simp
    ultimately show ?thesis using j by auto
  next
    case (Suc l)
    have "map_wf seen1"
    proof (cases r)
      case (Inl e')
      have "seen1 = seen" using r unfolding Inl by (rule verify_refused)
      with Cons.prems(1) show ?thesis by simp
    next
      case (Inr c)
      with r Cons.prems(1) show ?thesis by (auto elim!: verify_accepted simp: purge_wf)
    qed
    with Cons.IH[of seen1 l k] Cons.prems kb r Suc j show ?thesis by auto
  qed
qed simp

text \<open>In the last second of its life an assertion is not remembered: it is accepted again, as often as it is sent.\<close>

theorem late_assertion_replays:
  assumes "map_wf seen" and "verifyPrincipalAssertion hmac decode s ms seen = (seen', return a)"
    and "exp_s a = Some e" and "e * 1000 < ms"
  shows "snd (verifyPrincipalAssertion hmac decode s ms seen') = return a"
proof -
  obtain n where n: "check_claims a (ms div 1000) = return (n, e)" "seen' = purge_nonces ms (map_set seen n (e * 1000))"
    using assms(2,3) by (auto elim: verify_accepted)
  with assms(1,4) have "map_get seen' n = None" by (simp add: purge_get)
  with n(1) show ?thesis unfolding verify_uses_nonce[OF assms(2)] by (simp add: use_nonce_def)
qed

section \<open>States of logins\<close>

primrec callbacks ::
  "(string \<Rightarrow> string) \<Rightarrow> (callback_query \<times> (string, string) js_map \<times> int) list \<Rightarrow> pending_states \<Rightarrow>
   pending_states \<times> (auth_error, string \<times> string) outcome list" where
  "callbacks signState [] ps = (ps, [])"
| "callbacks signState (c # cs) ps =
     (case check_callback signState (fst c) (fst (snd c)) (snd (snd c)) ps of
        (ps1, r) \<Rightarrow> map_prod id ((#) r) (callbacks signState cs ps1))"

lemma check_callback_uses:
  "check_callback signState q cookies now ps = (ps', r) \<Longrightarrow> map_get ps k = None \<Longrightarrow> map_get ps' k = None"
  by (auto simp: check_callback_def Let_def split: if_splits option.splits prod.splits)

lemma check_callback_ok:
  assumes "check_callback signState q cookies now ps = (ps', return x)"
  obtains k sig where "state_parts (the (cq_state q)) = Some (k, sig)" "sig = signState k" "map_get ps k \<noteq> None"
    "map_get ps' k = None"
  using assms that by (auto simp: check_callback_def Let_def split: if_splits option.splits prod.splits)

lemma used_state_refused:
  "map_get ps k = None \<Longrightarrow> j < length cs \<Longrightarrow> snd (callbacks signState cs ps) ! j = return x \<Longrightarrow>
    map_option fst (state_parts (the (cq_state (fst (cs ! j))))) \<noteq> Some k"
proof (induction cs arbitrary: ps j)
  case (Cons c cs)
  obtain ps1 r where r: "check_callback signState (fst c) (fst (snd c)) (snd (snd c)) ps = (ps1, r)" by fastforce
  show ?case
  proof (cases j)
    case 0
    with Cons.prems r show ?thesis by (auto elim!: check_callback_ok)
  next
    case (Suc i)
    with Cons.IH[OF check_callback_uses[OF r Cons.prems(1)], of i] Cons.prems r show ?thesis by simp
  qed
qed simp

text \<open>C38. The state of a login is used once: of the callbacks that follow a login, in any order and with any cookies,
  no two that reach the token exchange carry the same state, and each carries one that was signed and pending.\<close>

theorem login_state_used_once:
  assumes "i < j" and "j < length cs"
    and "snd (callbacks signState cs ps) ! i = return x" and "snd (callbacks signState cs ps) ! j = return y"
  shows "\<exists>k sig. state_parts (the (cq_state (fst (cs ! i)))) = Some (k, sig) \<and> sig = signState k \<and> map_get ps k \<noteq> None \<and>
    map_option fst (state_parts (the (cq_state (fst (cs ! j))))) \<noteq> Some k"
  using assms
proof (induction cs arbitrary: ps i j)
  case (Cons c cs)
  obtain ps1 r where r: "check_callback signState (fst c) (fst (snd c)) (snd (snd c)) ps = (ps1, r)" by fastforce
  obtain l where j: "j = Suc l" using Cons.prems(1) by (cases j) auto
  have y: "snd (callbacks signState cs ps1) ! l = return y" using Cons.prems(4) r j by simp
  show ?case
  proof (cases i)
    case 0
    then have "r = return x" using Cons.prems(3) r by simp
    with r obtain k sig where k: "state_parts (the (cq_state (fst c))) = Some (k, sig)" "sig = signState k"
      "map_get ps k \<noteq> None" "map_get ps1 k = None" by (auto elim: check_callback_ok)
    with used_state_refused[OF k(4), of l cs signState y] y Cons.prems(2) 0 j show ?thesis by auto
  next
    case (Suc m)
    obtain k sig where k: "state_parts (the (cq_state (fst (cs ! m)))) = Some (k, sig)" "sig = signState k"
      "map_get ps1 k \<noteq> None" "map_option fst (state_parts (the (cq_state (fst (cs ! l))))) \<noteq> Some k"
      using Cons.IH[of m l ps1] Cons.prems r Suc j y by auto
    with check_callback_uses[OF r, of k] Suc j show ?thesis by auto
  qed
qed simp

section \<open>Witnesses\<close>

definition demo_assertion :: assertion where
  "demo_assertion = \<lparr>iss = Some ''valax-discord-bot'', aud = Some ''valax-product-api'', exp_s = Some 100, iat_s = Some 40,
     nonce = Some ''n'', as_provider = None, as_sub = Some ''42'', as_providerSubject = None\<rparr>"

definition demo_verify :: "int \<Rightarrow> nonces \<Rightarrow> nonces \<times> (auth_error, assertion) outcome" where
  "demo_verify = verifyPrincipalAssertion (\<lambda>s. ''k'') (\<lambda>s. Some demo_assertion) ''h.b.k''"

lemmas demo_verify_eval = demo_verify_def verifyPrincipalAssertion_def use_nonce_def check_claims_def demo_assertion_def
  purge_nonces_def map_get_def

theorem late_assertion_replays_witness:
  "snd (demo_verify 100500 (fst (demo_verify 100500 []))) = return demo_assertion"
proof -
  obtain seen where first: "demo_verify 100500 [] = (seen, return demo_assertion)" by (simp add: demo_verify_eval)
  have wf: "map_wf ([] :: nonces)" by simp
  have e: "exp_s demo_assertion = Some 100" by (simp add: demo_assertion_def)
  show ?thesis
    using late_assertion_replays [OF wf first[unfolded demo_verify_def] e] first by (simp add: demo_verify_def)
qed

theorem replay_only_after_expiry_witness:
  "let r = snd (verify_all (\<lambda>s. ''k'') (\<lambda>s. Some demo_assertion) [(''h.b.k'', 100200), (''h.b.k'', 100300)] [])
   in r = [return demo_assertion, return demo_assertion] \<and> 100 * 1000 < (100300 :: int)"
proof -
  let ?calls = "[(''h.b.k'', 100200), (''h.b.k'', 100300 :: int)]"
  have r: "snd (verify_all (\<lambda>s. ''k'') (\<lambda>s. Some demo_assertion) ?calls []) =
      [return demo_assertion, return demo_assertion]"
    by (simp add: demo_verify_eval)
  have e: "exp_s demo_assertion = Some 100" by (simp add: demo_assertion_def)
  have "100 * 1000 < snd (?calls ! 1)"
    by (rule replay_only_after_expiry [of "[]" ?calls 0 1 "\<lambda>s. ''k''" "\<lambda>s. Some demo_assertion" demo_assertion demo_assertion])
      (simp_all add: r e del: verify_all.simps)
  with r show ?thesis by simp
qed

definition demo_callback :: "callback_query \<times> (string, string) js_map \<times> int" where
  "demo_callback = (\<lparr>cq_state = Some ''st.k'', cq_code = Some ''c'', cq_error = None\<rparr>, [], 5)"

theorem login_state_used_once_witness:
  "snd (callbacks (\<lambda>s. ''k'') [demo_callback, (\<lparr>cq_state = Some ''tu.k'', cq_code = Some ''c'', cq_error = None\<rparr>, [], 6)]
     [(''st'', \<lparr>codeVerifier = ''v'', initiatingSessionId = None, pe_expiresAt = 10\<rparr>),
      (''tu'', \<lparr>codeVerifier = ''w'', initiatingSessionId = None, pe_expiresAt = 10\<rparr>)]) =
   [return (''c'', ''v''), return (''c'', ''w'')] \<and> map_option fst (state_parts ''tu.k'') \<noteq> Some ''st''"
proof -
  let ?cs = "[demo_callback, (\<lparr>cq_state = Some ''tu.k'', cq_code = Some ''c'', cq_error = None\<rparr>, [], 6)]"
  let ?ps = "[(''st'', \<lparr>codeVerifier = ''v'', initiatingSessionId = None, pe_expiresAt = 10\<rparr>),
      (''tu'', \<lparr>codeVerifier = ''w'', initiatingSessionId = None, pe_expiresAt = 10\<rparr>)]"
  have r: "snd (callbacks (\<lambda>s. ''k'') ?cs ?ps) = [return (''c'', ''v''), return (''c'', ''w'')]"
    by (simp add: demo_callback_def check_callback_def state_parts_def map_get_def map_delete_def Let_def)
  have "\<exists>k sig. state_parts (the (cq_state (fst (?cs ! 0)))) = Some (k, sig) \<and> sig = ''k'' \<and> map_get ?ps k \<noteq> None \<and>
      map_option fst (state_parts (the (cq_state (fst (?cs ! 1))))) \<noteq> Some k"
    by (rule login_state_used_once [of 0 1 ?cs "\<lambda>s. ''k''" ?ps "(''c'', ''v'')" "(''c'', ''w'')"])
      (simp_all add: r del: callbacks.simps)
  with r show ?thesis by (simp add: demo_callback_def state_parts_def)
qed

end
