(* ===== verification/Identity_Store.thy ===== *)
theory Identity_Store
  imports Session_Store
begin

text \<open>
  External identities (\<open>packages/api/src/auth/identity-store.js\<close>): \<open>getOrCreatePrincipal\<close> as the steps
  between which other requests run. Requests are served by processes that share the collection; each
  process has its own table of locks. A collection that is a MongoDB server checks its unique index and
  inserts in one step, the collection in memory awaits its search in between. The user name, avatar and
  time stamps of a document are left out: nothing reads them.
\<close>

record identity =
  id_principalId :: string
  id_provider :: string
  id_subject :: string
  id_roles :: "string list option"

text \<open>Where a request stands: waiting for the lock, before the first search, before the insertion, between the
  check of the index and the push, before the search after a duplicate key, and at its end.\<close>

datatype stage =
  Waiting | Searching | Inserting | Pushing | Rereading | Resolved principal | Failed string

record request =
  rq_process :: nat
  rq_provider :: string
  rq_subject :: string
  rq_uuid :: string
  rq_stage :: stage

record identity_state =
  identities :: "identity list"
  locks :: "(nat \<times> string) list"
  requests :: "request list"

definition find_identity :: "string \<Rightarrow> string \<Rightarrow> identity list \<Rightarrow> identity option" where
  "find_identity provider subject docs =
     List.find (\<lambda>d. id_provider d = provider \<and> id_subject d = subject) docs"

definition principal_of :: "identity \<Rightarrow> principal" where
  "principal_of d =
     \<lparr>pr_principalId = id_principalId d, pr_provider = id_provider d, pr_providerSubject = id_subject d,
      pr_roles = js_nullish (id_roles d) [''user'']\<rparr>"

definition new_identity :: "request \<Rightarrow> identity" where
  "new_identity r =
     \<lparr>id_principalId = rq_uuid r, id_provider = rq_provider r, id_subject = rq_subject r, id_roles = Some [''user'']\<rparr>"

definition lock_key :: "request \<Rightarrow> nat \<times> string" where
  "lock_key r = (rq_process r, rq_provider r @ '':'' @ rq_subject r)"

text \<open>The argument checks before the first await.\<close>

definition getOrCreatePrincipal :: "nat \<Rightarrow> string \<Rightarrow> string \<Rightarrow> string \<Rightarrow> request" where
  "getOrCreatePrincipal process provider subject uuid =
     \<lparr>rq_process = process, rq_provider = provider, rq_subject = subject, rq_uuid = uuid,
      rq_stage = (if provider = [] then Failed ''INVALID_PROVIDER''
                  else if subject = [] then Failed ''INVALID_PROVIDER_SUBJECT'' else Waiting)\<rparr>"

text \<open>One step of a request; \<open>None\<close> when it cannot move. \<open>atomic\<close>: the collection checks and inserts at once.\<close>

definition request_step ::
  "bool \<Rightarrow> request \<Rightarrow> identity list \<Rightarrow> (nat \<times> string) list \<Rightarrow>
   (stage \<times> identity list \<times> (nat \<times> string) list) option" where
  "request_step atomic r docs locked =
     (let unlocked = removeAll (lock_key r) locked;
          here = find_identity (rq_provider r) (rq_subject r) docs
      in case rq_stage r of
           Waiting \<Rightarrow>
             if lock_key r \<in> set locked then None else Some (Searching, docs, lock_key r # locked)
         | Searching \<Rightarrow>
             (case here of
                Some d \<Rightarrow> Some (Resolved (principal_of d), docs, unlocked)
              | None \<Rightarrow> Some (Inserting, docs, locked))
         | Inserting \<Rightarrow>
             (case here of
                Some _ \<Rightarrow> Some (Rereading, docs, locked)
              | None \<Rightarrow>
                  if atomic then Some (Resolved (principal_of (new_identity r)), docs @ [new_identity r], unlocked)
                  else Some (Pushing, docs, locked))
         | Pushing \<Rightarrow> Some (Resolved (principal_of (new_identity r)), docs @ [new_identity r], unlocked)
         | Rereading \<Rightarrow>
             (case here of
                Some d \<Rightarrow> Some (Resolved (principal_of d), docs, unlocked)
              | None \<Rightarrow> Some (Failed ''duplicate key'', docs, unlocked))
         | Resolved p \<Rightarrow> None
         | Failed e \<Rightarrow> None)"

definition step_request :: "bool \<Rightarrow> nat \<Rightarrow> identity_state \<Rightarrow> identity_state option" where
  "step_request atomic i s =
     (if i < length (requests s) then
        let r = requests s ! i
        in case request_step atomic r (identities s) (locks s) of
             None \<Rightarrow> None
           | Some (st, docs, locked) \<Rightarrow>
               Some \<lparr>identities = docs, locks = locked, requests = (requests s)[i := r\<lparr>rq_stage := st\<rparr>]\<rparr>
      else None)"

text \<open>A schedule names the request that moves next; a request that cannot move is skipped.\<close>

definition run_schedule :: "bool \<Rightarrow> nat list \<Rightarrow> identity_state \<Rightarrow> identity_state" where
  "run_schedule atomic = fold (\<lambda>i s. case step_request atomic i s of None \<Rightarrow> s | Some s' \<Rightarrow> s')"

definition fresh_store :: "request list \<Rightarrow> identity_state" where
  "fresh_store rs = \<lparr>identities = [], locks = [], requests = rs\<rparr>"

section \<open>Lookups\<close>

definition getBySubject :: "string \<Rightarrow> string \<Rightarrow> identity_state \<Rightarrow> principal option" where
  "getBySubject provider subject s = map_option principal_of (find_identity provider subject (identities s))"

definition getByPrincipalId :: "string \<Rightarrow> identity_state \<Rightarrow> principal option" where
  "getByPrincipalId pid s = map_option principal_of (List.find (\<lambda>d. id_principalId d = pid) (identities s))"

section \<open>One identity per subject\<close>

abbreviation subject_of :: "identity \<Rightarrow> string \<times> string" where
  "subject_of d \<equiv> (id_provider d, id_subject d)"

abbreviation rq_key :: "request \<Rightarrow> string \<times> string" where
  "rq_key r \<equiv> (rq_provider r, rq_subject r)"

definition holds_lock :: "request \<Rightarrow> bool" where
  "holds_lock r \<longleftrightarrow> rq_stage r \<in> {Searching, Inserting, Pushing, Rereading}"

definition request_ok :: "identity list \<Rightarrow> request \<Rightarrow> bool" where
  "request_ok docs r \<longleftrightarrow>
     (case rq_stage r of
        Pushing \<Rightarrow> rq_key r \<notin> subject_of ` set docs
      | Rereading \<Rightarrow> rq_key r \<in> subject_of ` set docs
      | Resolved p \<Rightarrow> (\<exists>d\<in>set docs. subject_of d = rq_key r \<and> p = principal_of d)
      | _ \<Rightarrow> True)"

text \<open>No lock is held twice, and no two requests of a process that hold one have the same key.\<close>

definition locks_ok :: "identity_state \<Rightarrow> bool" where
  "locks_ok s \<longleftrightarrow>
     (\<forall>i<length (requests s). holds_lock (requests s ! i) \<longrightarrow> lock_key (requests s ! i) \<in> set (locks s)) \<and>
     (\<forall>i<length (requests s). \<forall>j<length (requests s). i \<noteq> j \<longrightarrow> holds_lock (requests s ! i) \<longrightarrow>
        holds_lock (requests s ! j) \<longrightarrow> lock_key (requests s ! i) \<noteq> lock_key (requests s ! j))"

definition one_process :: "request list \<Rightarrow> bool" where
  "one_process rs \<longleftrightarrow> (\<exists>p. \<forall>r\<in>set rs. rq_process r = p)"

definition identities_ok :: "bool \<Rightarrow> identity_state \<Rightarrow> bool" where
  "identities_ok atomic s \<longleftrightarrow> distinct (map subject_of (identities s)) \<and> locks_ok s \<and>
     (\<forall>r\<in>set (requests s). request_ok (identities s) r) \<and>
     (atomic \<longrightarrow> (\<forall>r\<in>set (requests s). rq_stage r \<noteq> Pushing)) \<and> (\<not> atomic \<longrightarrow> one_process (requests s))"

lemma find_identity_Some: "find_identity p x docs = Some d \<Longrightarrow> d \<in> set docs \<and> subject_of d = (p, x)"
  by (auto simp: find_identity_def find_Some_iff)

lemma find_identity_None: "find_identity p x docs = None \<longleftrightarrow> (p, x) \<notin> subject_of ` set docs"
  by (auto simp: find_identity_def find_None_iff)

text \<open>What a step does to a document list: nothing, or it adds the identity of the request that had none.\<close>

lemma request_step_docs:
  assumes "request_step atomic r docs locked = Some (st, docs', locked')" and "request_ok docs r"
  shows "docs' = docs \<and> request_ok docs (r\<lparr>rq_stage := st\<rparr>) \<or>
    docs' = docs @ [new_identity r] \<and> rq_key r \<notin> subject_of ` set docs \<and> st = Resolved (principal_of (new_identity r)) \<and>
    (atomic \<and> rq_stage r = Inserting \<or> rq_stage r = Pushing)"
  using assms find_identity_Some[of "rq_provider r" "rq_subject r" docs]
    find_identity_None[of "rq_provider r" "rq_subject r" docs]
  by (auto simp: request_step_def request_ok_def Let_def split: stage.splits option.splits if_splits)

lemma request_step_locks:
  assumes "request_step atomic r docs locked = Some (st, docs', locked')"
  shows "(if rq_stage r = Waiting then lock_key r \<notin> set locked \<and> set locked' = insert (lock_key r) (set locked)
     else holds_lock r \<and> (if holds_lock (r\<lparr>rq_stage := st\<rparr>) then locked' = locked else locked' = removeAll (lock_key r) locked))"
    and "atomic \<Longrightarrow> rq_stage r \<noteq> Pushing \<Longrightarrow> st \<noteq> Pushing"
  using assms by (auto simp: request_step_def holds_lock_def Let_def split: stage.splits option.splits if_splits)

lemma request_ok_more:
  assumes "request_ok docs r" and "rq_stage r = Pushing \<Longrightarrow> rq_key r \<noteq> subject_of d"
  shows "request_ok (docs @ [d]) r"
  using assms by (auto simp: request_ok_def split: stage.splits)

lemma nth_update: "i < length xs \<Longrightarrow> j < length xs \<Longrightarrow> xs[i := x] ! j = (if i = j then x else xs ! j)"
  by simp

lemma step_request_locks:
  assumes ok: "locks_ok s" and i: "i < length (requests s)" and r: "r = requests s ! i"
    and step: "request_step atomic r (identities s) (locks s) = Some (st, docs, locked)"
  shows "locks_ok \<lparr>identities = docs, locks = locked, requests = (requests s)[i := r\<lparr>rq_stage := st\<rparr>]\<rparr>"
proof -
  have key: "lock_key (r\<lparr>rq_stage := st\<rparr>) = lock_key r" by (simp add: lock_key_def)
  have others: "lock_key (requests s ! j) \<in> set (locks s) \<and> (holds_lock r \<longrightarrow> lock_key (requests s ! j) \<noteq> lock_key r)"
    if "j < length (requests s)" "j \<noteq> i" "holds_lock (requests s ! j)" for j
    using ok that i r unfolding locks_ok_def by metis
  note lk = request_step_locks(1)[OF step]
  have pairs: "lock_key (requests s ! j) \<noteq> lock_key (requests s ! k)"
    if "j < length (requests s)" "k < length (requests s)" "j \<noteq> k" "holds_lock (requests s ! j)" "holds_lock (requests s ! k)" for j k
    using ok that unfolding locks_ok_def by metis
  show ?thesis
  proof (cases "rq_stage r = Waiting")
    case True
    have "lock_key (requests s ! j) \<noteq> lock_key r"
      if "j < length (requests s)" "j \<noteq> i" "holds_lock (requests s ! j)" for j
      using others[OF that] lk True by auto
    with True lk others pairs i show ?thesis by (auto simp: locks_ok_def nth_update key)
  next
    case False
    with lk have h: "holds_lock r" by simp
    have mine: "lock_key r \<in> set (locks s)" using ok i h unfolding locks_ok_def r by blast
    have "lock_key (requests s ! j) \<noteq> lock_key r \<and> lock_key r \<noteq> lock_key (requests s ! j)"
      if "j < length (requests s)" "j \<noteq> i" "holds_lock (requests s ! j)" for j
      using others[OF that] h by auto
    with mine h lk False others pairs i show ?thesis
      by (auto simp: locks_ok_def nth_update key split: if_splits)
  qed
qed

lemma step_request_ok:
  assumes ok: "identities_ok atomic s" and step: "step_request atomic i s = Some s'"
  shows "identities_ok atomic s'"
proof -
  define r where "r = requests s ! i"
  obtain st docs locked where i: "i < length (requests s)"
    and rs: "request_step atomic r (identities s) (locks s) = Some (st, docs, locked)"
    and s': "s' = \<lparr>identities = docs, locks = locked, requests = (requests s)[i := r\<lparr>rq_stage := st\<rparr>]\<rparr>"
    using step by (auto simp: step_request_def Let_def r_def split: if_splits option.splits)
  have r: "r \<in> set (requests s)" "request_ok (identities s) r" using ok i by (auto simp: r_def identities_ok_def)
  have lk: "locks_ok s" using ok by (simp add: identities_ok_def)
  have new: "set (requests s') \<subseteq> insert (r\<lparr>rq_stage := st\<rparr>) (set (requests s))"
    by (simp add: s' set_update_subset_insert)
  have proc: "one_process (requests s')" if na: "\<not> atomic"
  proof -
    obtain p where p: "\<forall>q\<in>set (requests s). rq_process q = p"
      using ok na by (auto simp: identities_ok_def one_process_def)
    then have "rq_process q = p" if "q \<in> set (requests s')" for q using subsetD[OF new that] r(1) by auto
    then show ?thesis by (auto simp: one_process_def)
  qed
  have push: "\<forall>q\<in>set (requests s'). rq_stage q \<noteq> Pushing" if atomic
    using ok that new r request_step_locks(2)[OF rs] by (auto simp: identities_ok_def)
  have clash: "rq_key (requests s ! j) \<noteq> rq_key r"
    if "j < length (requests s)" "j \<noteq> i" "rq_stage (requests s ! j) = Pushing" "rq_stage r = Pushing \<or> atomic" for j
  proof -
    have "\<not> atomic" using ok that nth_mem[of j "requests s"] by (auto simp: identities_ok_def)
    with ok r(1) nth_mem[OF that(1)] have "rq_process (requests s ! j) = rq_process r"
      by (auto simp: identities_ok_def one_process_def)
    moreover have "holds_lock r" "holds_lock (requests s ! j)"
      using that \<open>\<not> atomic\<close> by (auto simp: holds_lock_def)
    then have "lock_key (requests s ! j) \<noteq> lock_key r" using lk that(1,2) i unfolding locks_ok_def r_def by metis
    ultimately show ?thesis by (auto simp: lock_key_def)
  qed
  have "distinct (map subject_of docs) \<and> (\<forall>q\<in>set (requests s'). request_ok docs q)"
    using request_step_docs[OF rs r(2)]
  proof
    assume "docs = identities s \<and> request_ok (identities s) (r\<lparr>rq_stage := st\<rparr>)"
    with ok new show ?thesis by (auto simp: identities_ok_def)
  next
    assume a: "docs = identities s @ [new_identity r] \<and> rq_key r \<notin> subject_of ` set (identities s) \<and>
      st = Resolved (principal_of (new_identity r)) \<and> (atomic \<and> rq_stage r = Inserting \<or> rq_stage r = Pushing)"
    have key: "subject_of (new_identity r) = rq_key r" by (simp add: new_identity_def)
    have "request_ok docs (requests s' ! j)" if "j < length (requests s')" for j
    proof (cases "j = i")
      case True
      with a i key show ?thesis by (simp add: s' request_ok_def)
    next
      case False
      have "request_ok (identities s) (requests s ! j)" using ok that by (simp add: identities_ok_def s')
      moreover have "rq_key (requests s ! j) \<noteq> rq_key r" if "rq_stage (requests s ! j) = Pushing"
        using clash[of j] False that \<open>j < length (requests s')\<close> a by (auto simp: s')
      ultimately show ?thesis using a key False by (simp add: s' request_ok_more)
    qed
    with a ok key show ?thesis by (auto simp: identities_ok_def in_set_conv_nth)
  qed
  with proc push step_request_locks[OF lk i r_def rs] show ?thesis by (simp add: identities_ok_def s')
qed

section \<open>The claim\<close>

lemma run_schedule_ok: "identities_ok atomic s \<Longrightarrow> identities_ok atomic (run_schedule atomic schedule s)"
  unfolding run_schedule_def
  by (induction schedule arbitrary: s) (auto split: option.split intro: step_request_ok)

definition starting :: "request \<Rightarrow> bool" where
  "starting r \<longleftrightarrow> rq_stage r = Waiting \<or> (\<exists>e. rq_stage r = Failed e)"

lemma fresh_store_ok:
  assumes "\<forall>r\<in>set rs. starting r" and "atomic \<or> one_process rs"
  shows "identities_ok atomic (fresh_store rs)"
proof -
  have "\<not> holds_lock r \<and> request_ok docs r \<and> rq_stage r \<noteq> Pushing" if "starting r" for r docs
    using that by (auto simp: starting_def holds_lock_def request_ok_def)
  with assms show ?thesis by (auto simp: identities_ok_def locks_ok_def fresh_store_def)
qed

text \<open>C36. An external subject has one internal principal: however the steps of concurrent requests are interleaved,
  two requests for the same subject that end with a principal end with the same one. The requests may come
  from several processes when the collection checks its index and inserts at once; on the collection in
  memory, which does not, they must share the locks of one process.\<close>

theorem one_principal_per_subject:
  assumes "atomic \<or> one_process rs" and "\<forall>r\<in>set rs. starting r"
    and "q1 \<in> set (requests (run_schedule atomic schedule (fresh_store rs)))" and "rq_stage q1 = Resolved p1"
    and "q2 \<in> set (requests (run_schedule atomic schedule (fresh_store rs)))" and "rq_stage q2 = Resolved p2"
    and "rq_provider q1 = rq_provider q2" and "rq_subject q1 = rq_subject q2"
  shows "p1 = p2"
proof -
  define s where "s = run_schedule atomic schedule (fresh_store rs)"
  have ok: "identities_ok atomic s" unfolding s_def by (rule run_schedule_ok[OF fresh_store_ok[OF assms(2,1)]])
  obtain d1 where d1: "d1 \<in> set (identities s)" "subject_of d1 = rq_key q1" "p1 = principal_of d1"
    using ok assms(3,4) by (force simp: identities_ok_def request_ok_def s_def)
  obtain d2 where d2: "d2 \<in> set (identities s)" "subject_of d2 = rq_key q2" "p2 = principal_of d2"
    using ok assms(5,6) by (force simp: identities_ok_def request_ok_def s_def)
  have "inj_on subject_of (set (identities s))" using ok by (simp add: identities_ok_def distinct_map)
  moreover have "subject_of d1 = subject_of d2" using d1 d2 assms(7,8) by simp
  ultimately have "d1 = d2" using d1(1) d2(1) by (rule inj_onD)
  with d1 d2 show ?thesis by simp
qed

text \<open>Without a shared lock the collection in memory takes two identities for one subject: it awaits the search of
  its unique index and inserts later.\<close>

theorem memory_collection_takes_duplicates:
  "let s = run_schedule False [0, 1, 0, 1, 0, 1, 0, 1]
      (fresh_store [getOrCreatePrincipal 0 ''discord'' ''42'' ''u-1'', getOrCreatePrincipal 1 ''discord'' ''42'' ''u-2''])
   in map (\<lambda>d. (id_principalId d, id_provider d, id_subject d)) (identities s) =
        [(''u-1'', ''discord'', ''42''), (''u-2'', ''discord'', ''42'')]"
  by (simp add: run_schedule_def fresh_store_def getOrCreatePrincipal_def step_request_def request_step_def Let_def
      lock_key_def find_identity_def new_identity_def)

definition demo_requests :: "request list" where
  "demo_requests = [getOrCreatePrincipal 0 ''discord'' ''42'' ''u-1'', getOrCreatePrincipal 1 ''discord'' ''42'' ''u-2'']"

theorem one_principal_per_subject_witness:
  "map rq_stage (requests (run_schedule True [0, 1, 0, 1, 0, 1, 1] (fresh_store demo_requests))) =
     (let p = \<lparr>pr_principalId = ''u-1'', pr_provider = ''discord'', pr_providerSubject = ''42'', pr_roles = [''user'']\<rparr>
      in [Resolved p, Resolved p])"
proof -
  define s where "s = run_schedule True [0, 1, 0, 1, 0, 1, 1] (fresh_store demo_requests)"
  let ?p = "\<lparr>pr_principalId = ''u-1'', pr_provider = ''discord'', pr_providerSubject = ''42'', pr_roles = [''user'']\<rparr>"
  note eval = s_def run_schedule_def fresh_store_def demo_requests_def getOrCreatePrincipal_def step_request_def
    request_step_def Let_def lock_key_def find_identity_def new_identity_def principal_of_def js_nullish_def
  have len: "length (requests s) = 2" by (simp add: eval)
  have first: "rq_stage (requests s ! 0) = Resolved ?p" by (simp add: eval)
  obtain p2 where second: "rq_stage (requests s ! 1) = Resolved p2" by (simp add: eval)
  have key: "rq_provider (requests s ! 0) = rq_provider (requests s ! 1)"
    "rq_subject (requests s ! 0) = rq_subject (requests s ! 1)" by (simp_all add: eval)
  have start: "\<forall>r\<in>set demo_requests. starting r"
    by (simp add: demo_requests_def getOrCreatePrincipal_def starting_def)
  have mem: "requests s ! 0 \<in> set (requests s)" "requests s ! 1 \<in> set (requests s)" using len by simp_all
  have "?p = p2"
    using one_principal_per_subject [OF _ start mem(1)[unfolded s_def] first[unfolded s_def] mem(2)[unfolded s_def]
      second[unfolded s_def] key[unfolded s_def]] by simp
  moreover have "map rq_stage (requests s) = [rq_stage (requests s ! 0), rq_stage (requests s ! 1)]"
    using len by (cases "requests s") (auto simp: length_Suc_conv numeral_2_eq_2)
  ultimately show ?thesis using first second unfolding s_def[symmetric] Let_def by simp
qed

end
