(* ===== verification/Product_Api.thy ===== *)
theory Product_Api
  imports Discord_OAuth Identity_Store Recovery_Gateway
begin

text \<open>
  The product server (\<open>packages/api/src/server.js\<close>, \<open>auth.js\<close>, \<open>errors.js\<close>) over the gateway, the session
  store in memory and the identities. Parameters: the digests, the decoding of UTF-8, JSON and cookies, the
  random values; one call reads the clock once. HTTP itself, the headers of the answers and the log are left out.
  Names of files are sequences of code units, other texts of a request are ASCII.
\<close>

section \<open>Errors\<close>

definition HTTP_STATUS_MAP :: "(string \<times> nat) list" where
  "HTTP_STATUS_MAP =
     [(''INVALID_FILE'', 400), (''INVALID_ENCODING'', 400), (''FILE_TOO_LARGE'', 413), (''UNAUTHORIZED'', 401),
      (''FORBIDDEN'', 403), (''JOB_NOT_FOUND'', 404), (''ARTIFACT_NOT_FOUND'', 404), (''ARTIFACT_EXPIRED'', 410),
      (''JOB_NOT_CANCELLABLE'', 409), (''IDEMPOTENCY_CONFLICT'', 409), (''RATE_LIMITED'', 429), (''QUOTA_EXCEEDED'', 429),
      (''QUEUE_SATURATED'', 503), (''TIMEOUT'', 504), (''WORKER_FAILED'', 502), (''RECOVERY_FAILED'', 500),
      (''INTERNAL_ERROR'', 500)]"

text \<open>The enumeration has the same names; another property of it is \<open>undefined\<close>.\<close>

definition ApiErrorCode :: "string \<Rightarrow> string option" where
  "ApiErrorCode name = (if name \<in> set (map fst HTTP_STATUS_MAP) then Some name else None)"

record api_error =
  ae_code :: string
  ae_status :: nat

text \<open>\<open>new ApiError(ApiErrorCode.NAME, message, status)\<close>.\<close>

definition ApiError :: "string \<Rightarrow> nat option \<Rightarrow> api_error" where
  "ApiError name status =
     (let code = the (js_or_str (ApiErrorCode name) (Some ''INTERNAL_ERROR''))
      in \<lparr>ae_code = code,
          ae_status = js_or_num status (js_or_num (map_of HTTP_STATUS_MAP code) 500)\<rparr>)"

abbreviation api_throw :: "string \<Rightarrow> nat \<Rightarrow> (api_error, 'a) outcome" where
  "api_throw name status \<equiv> throw (ApiError name (Some status))"

section \<open>Names of files\<close>

abbreviation unit_of :: "char \<Rightarrow> nat" where
  "unit_of c \<equiv> of_char c"

definition is_letter :: "nat \<Rightarrow> bool" where
  "is_letter u \<longleftrightarrow> (65 \<le> u \<and> u \<le> 90) \<or> (97 \<le> u \<and> u \<le> 122)"

definition is_digit_unit :: "nat \<Rightarrow> bool" where
  "is_digit_unit u \<longleftrightarrow> 48 \<le> u \<and> u \<le> 57"

definition starts_with :: "'a list \<Rightarrow> 'a list \<Rightarrow> bool" where
  "starts_with p s \<longleftrightarrow> take (length p) s = p"

fun contains :: "'a list \<Rightarrow> 'a list \<Rightarrow> bool" where
  "contains p [] = (p = [])"
| "contains p (x # s) = (starts_with p (x # s) \<or> contains p s)"

definition has_scheme :: "nat list \<Rightarrow> bool" where
  "has_scheme s =
     (case s of [] \<Rightarrow> False
      | c # rest \<Rightarrow> is_letter c \<and>
          starts_with (map unit_of ''://'')
            (dropWhile (\<lambda>u. is_letter u \<or> is_digit_unit u \<or> u \<in> {43, 46, 45}) rest))"

definition has_drive :: "nat list \<Rightarrow> bool" where
  "has_drive s = (case s of a # b # c # _ \<Rightarrow> is_letter a \<and> b = 58 \<and> (c = 92 \<or> c = 47) | _ \<Rightarrow> False)"

definition name_unit :: "nat \<Rightarrow> bool" where
  "name_unit u \<longleftrightarrow> is_letter u \<or> is_digit_unit u \<or> u = 46 \<or> u = 95 \<or> u = 45"

definition replace_units :: "nat list \<Rightarrow> string" where
  "replace_units s = map (\<lambda>u. if name_unit u then char_of u else CHR ''_'') s"

text \<open>\<open>path.extname\<close> of a name without separators that is not \<open>..\<close>.\<close>

definition extname :: "string \<Rightarrow> string" where
  "extname s =
     (let ext = rev (takeWhile (\<lambda>c. c \<noteq> CHR ''.'') (rev s))
      in if length ext + 1 \<ge> length s then [] else CHR ''.'' # ext)"

definition lower :: "string \<Rightarrow> string" where
  "lower s = map (\<lambda>c. let u = unit_of c in if 65 \<le> u \<and> u \<le> 90 then char_of (u + 32) else c) s"

definition ALLOWED_EXTENSIONS :: "string list" where
  "ALLOWED_EXTENSIONS = [''.lua'', ''.luau'', ''.txt'']"

definition sanitizeFilename :: "nat list option \<Rightarrow> (api_error, string) outcome" where
  "sanitizeFilename filename =
     (case filename of
        None \<Rightarrow> return ''recovered.lua''
      | Some f \<Rightarrow>
          if f = [] then return ''recovered.lua''
          else if length f > 255 then api_throw ''INVALID_FILE'' 400
          else if 0 \<in> set f then api_throw ''INVALID_FILE'' 400
          else if has_scheme f then api_throw ''INVALID_FILE'' 400
          else if has_drive f then api_throw ''INVALID_FILE'' 400
          else if hd f = 47 \<or> hd f = 92 then api_throw ''INVALID_FILE'' 400
          else if contains [46, 46] f \<or> 47 \<in> set f \<or> 92 \<in> set f then api_throw ''INVALID_FILE'' 400
          else
            let base = replace_units f; ext = lower (extname base)
            in if ext \<noteq> [] \<and> ext \<notin> set ALLOWED_EXTENSIONS then api_throw ''UNSUPPORTED_TYPE'' 415
               else return (if base = [] then ''recovered.lua'' else base))"

section \<open>Who asks\<close>

record api_request =
  ar_method :: string
  ar_path :: string
  h_assertion :: "string option"
  h_authorization :: "string option"
  h_cookie :: "string option"
  h_csrf :: "string option"
  h_dev :: "string option"
  h_idempotency :: "string option"
  ar_body :: "nat list"

record product_config =
  production :: bool
  maxSourceBytes :: nat
  maxConcurrentJobs :: nat
  maxJobsPerDay :: nat

record registered =
  reg_jobId :: string
  contentSha256 :: string

record 'm server =
  srv_gateway :: gateway
  srv_oauth :: "'m oauth"
  srv_identities :: "identity list"
  idempotencyRegistry :: "(string, registered) js_map"
  dailyJobCounts :: "(string, nat) js_map"
  jobFilenames :: "(string, string) js_map"

definition new_config :: "bool \<Rightarrow> nat option \<Rightarrow> nat option \<Rightarrow> nat option \<Rightarrow> product_config" where
  "new_config env bytes active daily =
     \<lparr>production = env, maxSourceBytes = js_or_num bytes (5 * 1024 * 1024),
      maxConcurrentJobs = js_or_num active 5, maxJobsPerDay = js_or_num daily 100\<rparr>"

datatype how = By_assertion | By_session "string" | By_development

text \<open>\<open>/^Bearer\\s+dev-(.+)$/i\<close>.\<close>

definition dev_bearer :: "string \<Rightarrow> string option" where
  "dev_bearer h =
     (let rest = drop 6 h; after = dropWhile is_space rest
      in if lower (take 6 h) = ''bearer'' \<and> rest \<noteq> after \<and> lower (take 4 after) = ''dev-'' \<and> drop 4 after \<noteq> []
         then Some (drop 4 after) else None)"

definition dev_subject :: "api_request \<Rightarrow> string option" where
  "dev_subject r =
     (if truthy_str (h_dev r) \<and> trim (the (h_dev r)) \<noteq> [] then Some (trim (the (h_dev r)))
      else (case h_authorization r of
              None \<Rightarrow> None
            | Some h \<Rightarrow> map_option trim (dev_bearer h)))"

text \<open>The identifier made from the hexadecimal digest of the subject.\<close>

definition dev_principal_id :: "string \<Rightarrow> string" where
  "dev_principal_id h =
     join_with ''-'' [take 8 h, take 4 (drop 8 h), ''4'' @ take 3 (drop 13 h), ''8'' @ take 3 (drop 17 h), take 12 (drop 20 h)]"

definition dev_authenticate :: "(string \<Rightarrow> string) \<Rightarrow> api_request \<Rightarrow> principal option" where
  "dev_authenticate sha256 r =
     (case dev_subject r of
        None \<Rightarrow> None
      | Some subject \<Rightarrow>
          if subject = [] then None
          else Some \<lparr>pr_principalId = dev_principal_id (sha256 (''valax-dev-principal:'' @ subject)),
            pr_provider = ''development'', pr_providerSubject = subject,
            pr_roles = (if contains ''admin'' subject then [''user'', ''admin''] else [''user''])\<rparr>)"

text \<open>\<open>getOrCreatePrincipal\<close> with nothing running beside it.\<close>

definition get_or_create ::
  "string \<Rightarrow> string \<Rightarrow> string \<Rightarrow> identity list \<Rightarrow> identity list \<times> (string, principal) outcome" where
  "get_or_create provider subject uuid docs =
     (case rq_stage (getOrCreatePrincipal 0 provider subject uuid) of
        Failed e \<Rightarrow> (docs, throw e)
      | _ \<Rightarrow>
          (case find_identity provider subject docs of
             Some d \<Rightarrow> (docs, return (principal_of d))
           | None \<Rightarrow>
               let d = new_identity (getOrCreatePrincipal 0 provider subject uuid)
               in (docs @ [d], return (principal_of d))))"

record params =
  p_hmac :: "string \<Rightarrow> string"
  p_decode_assertion :: "string \<Rightarrow> assertion option"
  p_sha_token :: "string \<Rightarrow> string"
  p_sha256 :: "string \<Rightarrow> string"
  p_sha_source :: "js_string \<Rightarrow> string"
  p_decodeURI :: "string \<Rightarrow> string"
  p_ttl :: ttl

definition session_token :: "params \<Rightarrow> api_request \<Rightarrow> string option" where
  "session_token p r = map_get (parseCookies (p_decodeURI p) (h_cookie r)) ''valax_session''"

text \<open>An assertion decides alone; then the session of the cookie; then the headers of development.\<close>

definition resolvePrincipal ::
  "params \<Rightarrow> product_config \<Rightarrow> api_request \<Rightarrow> string \<Rightarrow> int \<Rightarrow> 'm server \<Rightarrow>
   'm server \<times> (api_error, principal \<times> how) outcome" where
  "resolvePrincipal p c r uuid now s =
     (if truthy_str (h_assertion r) then
        (case verifyPrincipalAssertion (p_hmac p) (p_decode_assertion p) (the (h_assertion r)) now
            (seenNonces (srv_oauth s)) of
          (seen, Inl _) \<Rightarrow> (s\<lparr>srv_oauth := (srv_oauth s)\<lparr>seenNonces := seen\<rparr>\<rparr>, api_throw ''UNAUTHORIZED'' 401)
        | (seen, Inr a) \<Rightarrow>
            (case get_or_create (the (js_or_str (as_provider a) (Some ''discord'')))
                (js_nullish (js_or_str (as_sub a) (as_providerSubject a)) []) uuid (srv_identities s) of
              (docs, res) \<Rightarrow>
                (s\<lparr>srv_oauth := (srv_oauth s)\<lparr>seenNonces := seen\<rparr>, srv_identities := docs\<rparr>,
                 case res of Inl _ \<Rightarrow> api_throw ''UNAUTHORIZED'' 401 | Inr pr \<Rightarrow> return (pr, By_assertion))))
      else
        (let (s1, session) =
           (case session_token p r of
              None \<Rightarrow> (s, None)
            | Some tok \<Rightarrow>
                if tok = [] then (s, None)
                else (case memory_get (p_sha_token p) (p_ttl p) tok now (oauth_sessions (srv_oauth s)) of
                  (ss, found) \<Rightarrow> (s\<lparr>srv_oauth := (srv_oauth s)\<lparr>oauth_sessions := ss\<rparr>\<rparr>, found)))
         in case session of
              Some x \<Rightarrow> (s1, return (se_principal x, By_session (csrfToken x)))
            | None \<Rightarrow>
                if production c then (s1, api_throw ''UNAUTHORIZED'' 401)
                else (case dev_authenticate (p_sha256 p) r of
                        Some pr \<Rightarrow> (s1, return (pr, By_development))
                      | None \<Rightarrow> (s1, api_throw ''UNAUTHORIZED'' 401))))"

definition validateCsrf :: "api_request \<Rightarrow> how \<Rightarrow> (api_error, unit) outcome" where
  "validateCsrf r how =
     (case how of
        By_session sessionToken \<Rightarrow>
          if \<not> truthy_str (h_csrf r) \<or> sessionToken = [] \<or> h_csrf r \<noteq> Some sessionToken
          then api_throw ''UNAUTHORIZED'' 403 else return ()
      | _ \<Rightarrow> return ())"

end
