(* ===== verification/Product_Handlers.thy ===== *)
theory Product_Handlers
  imports Product_Api
begin

text \<open>
  The routes and handlers of the product server. A submission has two parts: what runs before its body is
  read, and what runs when it is there; other requests run in between.
\<close>

section \<open>Submission\<close>

record api_payload =
  ap_filename :: "nat list option"
  ap_source :: "js_string option"
  ap_idempotencyKey :: "string option"
  ap_skipRateCheck :: bool
  ap_requestedStage :: "string option"
  ap_semanticValidation :: "bool option"

datatype api_reply =
  R_error api_error
| R_public
| R_logged_out
| R_session principal "string option"
| R_me principal
| R_submitted string string string
| R_replayed string string string
| R_job job_view string string
| R_cancelled string
| R_artifacts string "string list"
| R_download "recovery_report artifact"

definition today_key :: "principal \<Rightarrow> string \<Rightarrow> string" where
  "today_key pr day = pr_principalId pr @ '':'' @ day"

definition daily_count :: "string \<Rightarrow> 'm server \<Rightarrow> nat" where
  "daily_count key s = js_or_num (map_get (dailyJobCounts s) key) 0"

text \<open>Before the body: the daily quota; its count is kept until the end.\<close>

definition submit_begin :: "product_config \<Rightarrow> principal \<Rightarrow> string \<Rightarrow> 'm server \<Rightarrow> (api_error, nat) outcome" where
  "submit_begin c pr day s =
     (let current = daily_count (today_key pr day) s
      in if current \<ge> maxJobsPerDay c then api_throw ''QUOTA_EXCEEDED'' 429 else return current)"

text \<open>The bounded reader and the two decoders.\<close>

definition read_payload ::
  "(nat list \<Rightarrow> js_string option) \<Rightarrow> (js_string \<Rightarrow> api_payload option) \<Rightarrow> product_config \<Rightarrow> nat list \<Rightarrow>
   (api_error, api_payload) outcome" where
  "read_payload decode parse c body =
     (if length body > maxSourceBytes c then api_throw ''FILE_TOO_LARGE'' 413
      else (case decode body of
        None \<Rightarrow> api_throw ''INVALID_ENCODING'' 400
      | Some str \<Rightarrow> (case parse str of None \<Rightarrow> api_throw ''INVALID_FILE'' 400 | Some p \<Rightarrow> return p)))"

definition check_payload :: "product_config \<Rightarrow> api_payload \<Rightarrow> (api_error, string \<times> js_string) outcome" where
  "check_payload c p =
     and_then (sanitizeFilename (ap_filename p)) (\<lambda>name.
       case ap_source p of
         None \<Rightarrow> api_throw ''INVALID_FILE'' 400
       | Some src \<Rightarrow>
           if src = [] then api_throw ''INVALID_FILE'' 400
           else if 0 \<in> set src then api_throw ''INVALID_FILE'' 400
           else if utf8_length src > maxSourceBytes c then api_throw ''FILE_TOO_LARGE'' 413
           else return (name, src))"

text \<open>The submission the gateway gets; the idempotency key is not passed on.\<close>

definition gateway_submission :: "principal \<Rightarrow> string \<Rightarrow> js_string \<Rightarrow> api_payload \<Rightarrow> submission" where
  "gateway_submission pr name src p =
     \<lparr>sub_principalId = pr_principalId pr, sub_source = src, sub_filename = Some name, sub_idempotencyKey = None,
      sub_skipRateCheck = ap_skipRateCheck p, sub_requestedStage = ap_requestedStage p,
      sub_semanticValidation = ap_semanticValidation p, sub_timeoutMs = None, sub_maxInputBytes = None,
      sub_maxOutputBytes = None\<rparr>"

definition submit_error :: "gateway_error \<Rightarrow> api_error" where
  "submit_error e =
     (case e of
        G_RATE_LIMIT why ms \<Rightarrow> ApiError ''RATE_LIMITED'' (Some 429)
      | G_QUEUE f \<Rightarrow> ApiError ''QUEUE_SATURATED'' (Some 503)
      | _ \<Rightarrow> ApiError ''INTERNAL_ERROR'' (Some 500))"

definition registry_key :: "principal \<Rightarrow> string \<Rightarrow> string" where
  "registry_key pr key = pr_principalId pr @ '':'' @ key"

text \<open>The answer to a repeated key; \<open>None\<close> when the key is new.\<close>

definition replay_answer ::
  "principal \<Rightarrow> string option \<Rightarrow> string \<Rightarrow> 'm server \<Rightarrow> api_reply option" where
  "replay_answer pr key sha s =
     (if \<not> truthy_str key then None
      else (case map_get (idempotencyRegistry s) (registry_key pr (the key)) of
        None \<Rightarrow> None
      | Some e \<Rightarrow>
          if contentSha256 e \<noteq> sha then Some (R_error (ApiError ''IDEMPOTENCY_CONFLICT'' (Some 409)))
          else (case gateway_getJob (reg_jobId e) (pr_principalId pr) (srv_gateway s) of
                  Inl _ \<Rightarrow> Some (R_error (ApiError ''INTERNAL_ERROR'' (Some 500)))
                | Inr v \<Rightarrow> Some (R_replayed (jv_jobId v) (to_product (jv_state v))
                    (the (js_or_str (map_get (jobFilenames s) (jv_jobId v)) (Some ''recovered.lua'')))))))"

text \<open>What is recorded of an accepted job; the count is the one read before the body.\<close>

definition record_job ::
  "principal \<Rightarrow> string \<Rightarrow> nat \<Rightarrow> string \<Rightarrow> string \<Rightarrow> string option \<Rightarrow> string \<Rightarrow> 'm server \<Rightarrow> 'm server" where
  "record_job pr day current jid name key sha s =
     s\<lparr>dailyJobCounts := map_set (dailyJobCounts s) (today_key pr day) (current + 1),
       jobFilenames := map_set (jobFilenames s) jid name,
       idempotencyRegistry :=
         (if truthy_str key then map_set (idempotencyRegistry s) (registry_key pr (the key))
            \<lparr>reg_jobId = jid, contentSha256 = sha\<rparr>
          else idempotencyRegistry s)\<rparr>"

definition submit_finish ::
  "params \<Rightarrow> product_config \<Rightarrow> principal \<Rightarrow> string \<Rightarrow> nat \<Rightarrow> string option \<Rightarrow>
   (api_error, api_payload) outcome \<Rightarrow> string \<Rightarrow> int \<Rightarrow> 'm server \<Rightarrow> 'm server \<times> api_reply" where
  "submit_finish p c pr day current header body rnd now s =
     (case body of
        Inl e \<Rightarrow> (s, R_error e)
      | Inr pl \<Rightarrow>
          (case check_payload c pl of
             Inl e \<Rightarrow> (s, R_error e)
           | Inr (name, src) \<Rightarrow>
               (let sha = p_sha_source p src;
                    key = js_or_str header (ap_idempotencyKey pl)
                in case replay_answer pr key sha s of
                     Some answer \<Rightarrow> (s, answer)
                   | None \<Rightarrow>
                       (case submitJobSync (p_sha_source p) rnd (gateway_submission pr name src pl) now (srv_gateway s) of
                          (g, Inl e) \<Rightarrow> (s\<lparr>srv_gateway := g\<rparr>, R_error (submit_error e))
                        | (g, Inr rc) \<Rightarrow>
                            (record_job pr day current (rc_jobId rc) name key sha (s\<lparr>srv_gateway := g\<rparr>),
                             R_submitted (rc_jobId rc) (to_product (rc_state rc)) name)))))"

section \<open>Jobs and artifacts\<close>

definition get_recovery :: "principal \<Rightarrow> string \<Rightarrow> 'm server \<Rightarrow> api_reply" where
  "get_recovery pr jid s =
     (case gateway_getJob jid (pr_principalId pr) (srv_gateway s) of
        Inl (G_NOT_FOUND i) \<Rightarrow> R_error (ApiError ''JOB_NOT_FOUND'' (Some 404))
      | Inl (G_FORBIDDEN q i) \<Rightarrow> R_error (ApiError ''FORBIDDEN'' (Some 403))
      | Inl e \<Rightarrow> R_error (ApiError ''INTERNAL_ERROR'' (Some 500))
      | Inr v \<Rightarrow> R_job v (to_product (jv_state v))
          (the (js_or_str (map_get (jobFilenames s) jid) (Some ''recovered.lua''))))"

definition owned_job :: "principal \<Rightarrow> string \<Rightarrow> 'm server \<Rightarrow> (api_error, job_view) outcome" where
  "owned_job pr jid s =
     (case gateway_getJob jid (pr_principalId pr) (srv_gateway s) of
        Inl (G_FORBIDDEN q i) \<Rightarrow> api_throw ''FORBIDDEN'' 403
      | Inl e \<Rightarrow> api_throw ''JOB_NOT_FOUND'' 404
      | Inr v \<Rightarrow> return v)"

definition cancel_recovery :: "principal \<Rightarrow> string \<Rightarrow> int \<Rightarrow> 'm server \<Rightarrow> 'm server \<times> api_reply" where
  "cancel_recovery pr jid now s =
     (case owned_job pr jid s of
        Inl e \<Rightarrow> (s, R_error e)
      | Inr v \<Rightarrow>
          if to_product (jv_state v) \<notin> set CANCELLABLE_PRODUCT_STATES
          then (s, R_error (ApiError ''JOB_NOT_CANCELLABLE'' (Some 409)))
          else (case gateway_cancelJob jid (pr_principalId pr) (Some ''User requested cancellation'') now (srv_gateway s) of
            (g, Inl (G_FORBIDDEN q i)) \<Rightarrow> (s\<lparr>srv_gateway := g\<rparr>, R_error (ApiError ''FORBIDDEN'' (Some 403)))
          | (g, Inl e) \<Rightarrow> (s\<lparr>srv_gateway := g\<rparr>, R_error (ApiError ''INTERNAL_ERROR'' (Some 500)))
          | (g, Inr b) \<Rightarrow> (s\<lparr>srv_gateway := g\<rparr>, R_cancelled jid)))"

definition list_artifacts :: "principal \<Rightarrow> string \<Rightarrow> 'm server \<Rightarrow> api_reply" where
  "list_artifacts pr jid s =
     (case owned_job pr jid s of
        Inl e \<Rightarrow> R_error e
      | Inr v \<Rightarrow>
          if to_product (jv_state v) \<noteq> ''SUCCEEDED'' then R_artifacts jid []
          else R_artifacts jid [''recoveredCode'', ''report''])"

definition empty_artifact :: "'r artifact \<Rightarrow> bool" where
  "empty_artifact a \<longleftrightarrow> (case a of A_text t \<Rightarrow> t = [] | _ \<Rightarrow> False)"

definition download_artifact :: "principal \<Rightarrow> string \<Rightarrow> string \<Rightarrow> int \<Rightarrow> 'm server \<Rightarrow> 'm server \<times> api_reply" where
  "download_artifact pr jid aid now s =
     (if aid \<notin> set [''recoveredCode'', ''report'', ''logs''] then (s, R_error (ApiError ''ARTIFACT_NOT_FOUND'' (Some 404)))
      else (case gateway_getArtifact jid aid (pr_principalId pr) now (srv_gateway s) of (g, res) \<Rightarrow>
        (s\<lparr>srv_gateway := g\<rparr>,
         case res of
           Inl FORBIDDEN \<Rightarrow> R_error (ApiError ''FORBIDDEN'' (Some 403))
         | Inl NOT_FOUND \<Rightarrow> R_error (ApiError ''ARTIFACT_EXPIRED'' (Some 410))
         | Inl ARTIFACT_EXPIRED \<Rightarrow> R_error (ApiError ''ARTIFACT_EXPIRED'' (Some 410))
         | Inl e \<Rightarrow> R_error (ApiError ''INTERNAL_ERROR'' (Some 500))
         | Inr a \<Rightarrow> if empty_artifact a then R_error (ApiError ''ARTIFACT_NOT_FOUND'' (Some 404)) else R_download a)))"

section \<open>Routes\<close>

definition normal_path :: "string \<Rightarrow> string" where
  "normal_path path = (let q = rev (dropWhile (\<lambda>c. c = CHR ''/'') (rev path)) in if q = [] then ''/'' else q)"

definition is_id :: "(nat \<Rightarrow> bool) \<Rightarrow> string \<Rightarrow> bool" where
  "is_id ok s \<longleftrightarrow> s \<noteq> [] \<and> list_all (\<lambda>c. ok (unit_of c)) s"

definition id_unit :: "nat \<Rightarrow> bool" where
  "id_unit u \<longleftrightarrow> is_letter u \<or> is_digit_unit u \<or> u = 95 \<or> u = 45"

datatype route =
  To_public | To_authorize | To_callback | To_logout | To_session | To_me |
  To_submit | To_job string | To_cancel string | To_artifacts string | To_artifact string string |
  Not_allowed | No_route

definition public_route :: "string \<Rightarrow> string \<Rightarrow> route option" where
  "public_route path m =
     (if path = ''/favicon.ico'' \<or> path = ''/favicon.png'' then Some To_public
      else if path \<in> set [''/'', ''/health'', ''/health/live'', ''/health/ready''] \<and> m = ''GET'' then Some To_public
      else if path = ''/auth/discord'' \<and> m = ''GET'' then Some To_authorize
      else if path = ''/auth/discord/callback'' \<and> m = ''GET'' then Some To_callback
      else None)"

definition account_route :: "string \<Rightarrow> string \<Rightarrow> route option" where
  "account_route path m =
     (if path = ''/auth/logout'' \<and> m = ''POST'' then Some To_logout
      else if path = ''/auth/session'' \<and> m = ''GET'' then Some To_session
      else if path = ''/api/v1/me'' \<and> m = ''GET'' then Some To_me
      else None)"

definition api_route :: "string \<Rightarrow> string \<Rightarrow> route" where
  "api_route path m =
     (case split_on (CHR ''/'') path of
        [a, b, c, d] \<Rightarrow>
          if [a, b, c, d] \<noteq> [[], ''api'', ''v1'', ''recoveries''] then No_route
          else if m = ''POST'' then To_submit else Not_allowed
      | [a, b, c, d, jid] \<Rightarrow>
          if [a, b, c, d] \<noteq> [[], ''api'', ''v1'', ''recoveries''] \<or> \<not> is_id id_unit jid then No_route
          else if m = ''GET'' then To_job jid else if m = ''DELETE'' then To_cancel jid else Not_allowed
      | [a, b, c, d, jid, e] \<Rightarrow>
          if [a, b, c, d] \<noteq> [[], ''api'', ''v1'', ''recoveries''] \<or> \<not> is_id id_unit jid \<or> e \<noteq> ''artifacts'' then No_route
          else if m = ''GET'' then To_artifacts jid else Not_allowed
      | [a, b, c, d, jid, e, aid] \<Rightarrow>
          if [a, b, c, d] \<noteq> [[], ''api'', ''v1'', ''recoveries''] \<or> \<not> is_id id_unit jid \<or> e \<noteq> ''artifacts'' \<or>
            \<not> is_id (\<lambda>u. id_unit u \<or> u = 46) aid then No_route
          else if m = ''GET'' then To_artifact jid aid else Not_allowed
      | _ \<Rightarrow> No_route)"

definition rate_action :: "string \<Rightarrow> string \<Rightarrow> string" where
  "rate_action path m =
     (if path = ''/api/v1/recoveries'' \<and> m = ''POST'' then ''submit''
      else if contains ''/artifacts/'' path then ''download''
      else if contains ''/artifacts'' path then ''list''
      else if starts_with ''/api/v1/recoveries/'' path \<and> m = ''GET'' then ''status''
      else ''request'')"

definition server_check :: "principal \<Rightarrow> string \<Rightarrow> string \<Rightarrow> int \<Rightarrow> 'm server \<Rightarrow> 'm server \<times> (api_error, unit) outcome" where
  "server_check pr path m now s =
     (case checkLimit (pr_principalId pr) (rate_action path m) now (rateLimiter (srv_gateway s)) of (l, d) \<Rightarrow>
        (s\<lparr>srv_gateway := (srv_gateway s)\<lparr>rateLimiter := l\<rparr>\<rparr>,
         if allowed d then return () else api_throw ''RATE_LIMITED'' 429))"

text \<open>A request as far as its handler: for a submission the handler still has to read the body.\<close>

datatype handled = Replied api_reply | Must_read principal nat

definition handle_account :: "params \<Rightarrow> api_request \<Rightarrow> principal \<Rightarrow> how \<Rightarrow> route \<Rightarrow> 'm server \<Rightarrow> 'm server \<times> api_reply" where
  "handle_account p r pr how rt s =
     (case rt of
        To_logout \<Rightarrow>
          (case validateCsrf r how of
             Inl e \<Rightarrow> (s, R_error e)
           | Inr _ \<Rightarrow>
               (s\<lparr>srv_oauth := (srv_oauth s)\<lparr>oauth_sessions := handleLogout (p_sha_token p)
                    (parseCookies (p_decodeURI p) (h_cookie r)) (oauth_sessions (srv_oauth s))\<rparr>\<rparr>, R_logged_out))
      | To_session \<Rightarrow> (s, R_session pr (case how of By_session t \<Rightarrow> Some t | _ \<Rightarrow> None))
      | _ \<Rightarrow> (s, R_me pr))"

definition handle_api ::
  "product_config \<Rightarrow> api_request \<Rightarrow> principal \<Rightarrow> how \<Rightarrow> string \<Rightarrow> int \<Rightarrow> route \<Rightarrow> 'm server \<Rightarrow> 'm server \<times> handled" where
  "handle_api c r pr how day now rt s =
     (case rt of
        To_submit \<Rightarrow>
          (case and_then (validateCsrf r how) (\<lambda>_. submit_begin c pr day s) of
             Inl e \<Rightarrow> (s, Replied (R_error e))
           | Inr current \<Rightarrow> (s, Must_read pr current))
      | To_job jid \<Rightarrow> (s, Replied (get_recovery pr jid s))
      | To_cancel jid \<Rightarrow>
          (case validateCsrf r how of
             Inl e \<Rightarrow> (s, Replied (R_error e))
           | Inr _ \<Rightarrow> map_prod id Replied (cancel_recovery pr jid now s))
      | To_artifacts jid \<Rightarrow> (s, Replied (list_artifacts pr jid s))
      | To_artifact jid aid \<Rightarrow> map_prod id Replied (download_artifact pr jid aid now s)
      | Not_allowed \<Rightarrow> (s, Replied (R_error (ApiError ''INTERNAL_ERROR'' (Some 405))))
      | _ \<Rightarrow> (s, Replied (R_error (ApiError ''JOB_NOT_FOUND'' (Some 404)))))"

text \<open>\<open>_handleRequest\<close>; the two public routes of the login are the operations of \<open>Discord_OAuth\<close>.\<close>

definition handleRequest ::
  "params \<Rightarrow> product_config \<Rightarrow> api_request \<Rightarrow> string \<Rightarrow> string \<Rightarrow> int \<Rightarrow> 'm server \<Rightarrow> 'm server \<times> handled" where
  "handleRequest p c r uuid day now s =
     (let path = normal_path (ar_path r); m = ar_method r
      in case public_route path m of
           Some _ \<Rightarrow> (s, Replied R_public)
         | None \<Rightarrow>
             (case resolvePrincipal p c r uuid now s of
                (s1, Inl e) \<Rightarrow> (s1, Replied (R_error e))
              | (s1, Inr (pr, how)) \<Rightarrow>
                  (case account_route path m of
                     Some rt \<Rightarrow> map_prod id Replied (handle_account p r pr how rt s1)
                   | None \<Rightarrow>
                       (case server_check pr path m now s1 of
                          (s2, Inl e) \<Rightarrow> (s2, Replied (R_error e))
                        | (s2, Inr _) \<Rightarrow> handle_api c r pr how day now (api_route path m) s2))))"

end
