(* ===== verification/Product_Limits.thy ===== *)
theory Product_Limits
  imports Product_Handlers
begin

text \<open>
  Names of files, the daily quota and the counting of submissions.
\<close>

section \<open>Names of files\<close>

definition safe_char :: "char \<Rightarrow> bool" where
  "safe_char c \<longleftrightarrow> name_unit (unit_of c)"

lemma name_unit_small: "name_unit u \<Longrightarrow> u < 256"
  by (auto simp: name_unit_def is_letter_def is_digit_unit_def)

lemma replace_safe: "list_all safe_char (replace_units f)"
  by (auto simp: replace_units_def list_all_iff safe_char_def name_unit_small name_unit_def)

lemma replace_length [simp]: "length (replace_units f) = length f"
  by (simp add: replace_units_def)

lemma char_of_dot: "char_of (46 :: nat) = CHR ''.''"
  by (simp add: char_of_def bit_0)

lemma replace_dot: "replace_units f ! i = CHR ''.'' \<longleftrightarrow> f ! i = 46" if "i < length f"
proof -
  have "f ! i = 46" if "char_of (f ! i) = CHR ''.''" "name_unit (f ! i)"
  proof -
    have "f ! i = of_char (char_of (f ! i))" using name_unit_small[OF that(2)] by simp
    then show ?thesis using that(1) by simp
  qed
  then show ?thesis using that by (auto simp: replace_units_def name_unit_def char_of_dot)
qed

lemma contains_pair: "contains [a, a] s \<longleftrightarrow> (\<exists>i. Suc i < length s \<and> s ! i = a \<and> s ! Suc i = a)"
proof (induction s)
  case (Cons x s)
  have start: "starts_with [a, a] (x # s) \<longleftrightarrow> x = a \<and> s \<noteq> [] \<and> s ! 0 = a"
    by (cases s) (auto simp: starts_with_def)
  show ?case
  proof
    assume "contains [a, a] (x # s)"
    then consider "x = a \<and> s \<noteq> [] \<and> s ! 0 = a" | i where "Suc i < length s" "s ! i = a" "s ! Suc i = a"
      using start Cons.IH by auto
    then show "\<exists>i. Suc i < length (x # s) \<and> (x # s) ! i = a \<and> (x # s) ! Suc i = a"
    proof cases
      case 1
      then show ?thesis by (intro exI[of _ 0]) auto
    next
      case (2 i)
      then show ?thesis by (intro exI[of _ "Suc i"]) auto
    qed
  next
    assume "\<exists>i. Suc i < length (x # s) \<and> (x # s) ! i = a \<and> (x # s) ! Suc i = a"
    then obtain i where i: "Suc i < length (x # s)" "(x # s) ! i = a" "(x # s) ! Suc i = a" by blast
    show "contains [a, a] (x # s)"
    proof (cases i)
      case 0
      with i have "starts_with [a, a] (x # s)" unfolding start by auto
      then show ?thesis by simp
    next
      case (Suc k)
      with i have "contains [a, a] s" using Cons.IH by auto
      then show ?thesis by simp
    qed
  qed
qed simp

definition safe_name :: "string \<Rightarrow> bool" where
  "safe_name b \<longleftrightarrow> b \<noteq> [] \<and> length b \<le> 255 \<and> list_all safe_char b \<and> \<not> contains ''..'' b \<and>
     lower (extname b) \<in> set ([] # ALLOWED_EXTENSIONS)"

lemma default_name_safe: "safe_name ''recovered.lua''"
  by (simp add: safe_name_def safe_char_def name_unit_def is_letter_def is_digit_unit_def starts_with_def extname_def
      lower_def ALLOWED_EXTENSIONS_def Let_def)

text \<open>C39. A name of a file that the server accepts cannot leave its directory: it is not empty, has at most 255
  characters, all of them letters, digits, dots, dashes or underscores, no two dots in a row, and the extension that
  \<open>path.extname\<close> finds in it, if it finds one, is one of the three allowed. A name without an extension, which a
  name such as \<open>.exe\<close> is for \<open>path.extname\<close>, is accepted.\<close>

theorem accepted_name_is_safe:
  assumes "sanitizeFilename f = return b"
  shows "safe_name b"
proof (cases f)
  case None
  with assms have "b = ''recovered.lua''" by (simp add: sanitizeFilename_def)
  then show ?thesis by (simp only: default_name_safe)
next
  case (Some s)
  show ?thesis
  proof (cases "s = []")
    case True
    with Some assms have "b = ''recovered.lua''" by (simp add: sanitizeFilename_def)
    then show ?thesis by (simp only: default_name_safe)
  next
    case False
    with Some assms have s: "length s \<le> 255" "\<not> contains [46, 46] s" "b = replace_units s"
      "lower (extname b) = [] \<or> lower (extname b) \<in> set ALLOWED_EXTENSIONS"
      by (auto simp: sanitizeFilename_def Let_def replace_units_def split: if_splits)
    have "\<not> contains ''..'' b"
    proof
      assume "contains ''..'' b"
      then obtain i where "Suc i < length s" "b ! i = CHR ''.''" "b ! Suc i = CHR ''.''"
        unfolding contains_pair by (auto simp: s(3))
      then have "contains [46, 46] s" unfolding contains_pair using replace_dot[of _ s] s(3) by auto
      with s(2) show False by simp
    qed
    moreover have "b \<noteq> []" using False s(3) by (simp add: replace_units_def)
    ultimately show ?thesis using s replace_safe[of s] by (auto simp: safe_name_def)
  qed
qed

text \<open>The code for a wrong extension does not exist in the enumeration: the client is told of an internal error,
  with status 415.\<close>

theorem wrong_extension_is_internal_error:
  "sanitizeFilename (Some (map unit_of ''a.exe'')) = throw \<lparr>ae_code = ''INTERNAL_ERROR'', ae_status = 415\<rparr>"
  by (simp add: sanitizeFilename_def has_scheme_def has_drive_def is_letter_def is_digit_unit_def starts_with_def
      replace_units_def name_unit_def extname_def lower_def ALLOWED_EXTENSIONS_def Let_def ApiError_def ApiErrorCode_def
      HTTP_STATUS_MAP_def js_or_str_def js_or_num_def char_of_def bit_0)

section \<open>The daily quota\<close>

record submission_call =
  sc_principal :: principal
  sc_header :: "string option"
  sc_payload :: "(api_error, api_payload) outcome"
  sc_rnd :: string
  sc_time :: int

text \<open>Submissions of one day that do not overlap.\<close>

definition submit_alone :: "params \<Rightarrow> product_config \<Rightarrow> string \<Rightarrow> submission_call \<Rightarrow> 'm server \<Rightarrow> 'm server \<times> api_reply" where
  "submit_alone p c day call s =
     (case submit_begin c (sc_principal call) day s of
        Inl e \<Rightarrow> (s, R_error e)
      | Inr current \<Rightarrow>
          submit_finish p c (sc_principal call) day current (sc_header call) (sc_payload call) (sc_rnd call) (sc_time call) s)"

primrec submit_all ::
  "params \<Rightarrow> product_config \<Rightarrow> string \<Rightarrow> submission_call list \<Rightarrow> 'm server \<Rightarrow> 'm server \<times> api_reply list" where
  "submit_all p c day [] s = (s, [])"
| "submit_all p c day (call # calls) s =
     (case submit_alone p c day call s of (s1, a) \<Rightarrow> map_prod id ((#) a) (submit_all p c day calls s1))"

definition accepted :: "api_reply \<Rightarrow> bool" where
  "accepted a \<longleftrightarrow> (\<exists>jid st name. a = R_submitted jid st name)"

text \<open>The accepted submissions of a principal.\<close>

definition accepted_of :: "string \<Rightarrow> submission_call list \<Rightarrow> api_reply list \<Rightarrow> nat" where
  "accepted_of pid calls replies =
     length (filter (\<lambda>(call, a). pr_principalId (sc_principal call) = pid \<and> accepted a) (zip calls replies))"

lemma submit_finish_count:
  "submit_finish p c pr day current header body rnd now s = (s', a) \<Longrightarrow>
    dailyJobCounts s' = (if accepted a then map_set (dailyJobCounts s) (today_key pr day) (current + 1) else dailyJobCounts s)"
  by (auto simp: submit_finish_def accepted_def replay_answer_def record_job_def Let_def
      split: sum.splits prod.splits option.splits if_splits)

lemma daily_count_set: "map_get (dailyJobCounts s') k = (if k = k0 then Some (Suc n) else map_get (dailyJobCounts s) k) \<Longrightarrow>
    daily_count k s' = (if k = k0 then Suc n else daily_count k s)"
  by (simp add: daily_count_def)

lemma submit_alone_count:
  assumes "submit_alone p c day call s = (s', a)"
  shows "daily_count (pid @ '':'' @ day) s' = daily_count (pid @ '':'' @ day) s +
      (if pr_principalId (sc_principal call) = pid \<and> accepted a then 1 else 0)"
    and "pr_principalId (sc_principal call) = pid \<Longrightarrow> accepted a \<Longrightarrow>
      daily_count (pid @ '':'' @ day) s < maxJobsPerDay c"
proof -
  let ?pr = "sc_principal call"
  have "daily_count (pid @ '':'' @ day) s' = daily_count (pid @ '':'' @ day) s +
      (if pr_principalId ?pr = pid \<and> accepted a then 1 else 0) \<and>
      (pr_principalId ?pr = pid \<longrightarrow> accepted a \<longrightarrow> daily_count (pid @ '':'' @ day) s < maxJobsPerDay c)"
  proof (cases "submit_begin c ?pr day s")
    case (Inl e)
    with assms show ?thesis by (auto simp: submit_alone_def accepted_def)
  next
    case (Inr current)
    then have cur: "current = daily_count (today_key ?pr day) s" "current < maxJobsPerDay c"
      by (auto simp: submit_begin_def Let_def split: if_splits)
    have f: "submit_finish p c ?pr day current (sc_header call) (sc_payload call) (sc_rnd call) (sc_time call) s = (s', a)"
      using assms by (simp add: submit_alone_def Inr)
    have key: "today_key ?pr day = pid @ '':'' @ day \<longleftrightarrow> pr_principalId ?pr = pid" by (simp add: today_key_def)
    show ?thesis
    proof (cases "accepted a")
      case True
      have "map_get (dailyJobCounts s') k = (if k = today_key ?pr day then Some (Suc current) else map_get (dailyJobCounts s) k)" for k
        using submit_finish_count[OF f] True by simp
      then have "daily_count k s' = (if k = today_key ?pr day then Suc current else daily_count k s)" for k
        by (rule daily_count_set)
      then show ?thesis using cur key True by auto
    next
      case False
      then have "dailyJobCounts s' = dailyJobCounts s" using submit_finish_count[OF f] by simp
      with False show ?thesis by (simp add: daily_count_def)
    qed
  qed
  then show "daily_count (pid @ '':'' @ day) s' = daily_count (pid @ '':'' @ day) s +
      (if pr_principalId ?pr = pid \<and> accepted a then 1 else 0)"
    and "pr_principalId ?pr = pid \<Longrightarrow> accepted a \<Longrightarrow> daily_count (pid @ '':'' @ day) s < maxJobsPerDay c"
    by blast+
qed

text \<open>C40. The daily quota holds for submissions that do not overlap: of any sequence of them on one day, whatever
  became of each, at most \<open>maxJobsPerDay\<close> of one principal are accepted.\<close>

theorem daily_quota_holds:
  assumes "daily_count (pid @ '':'' @ day) s = 0"
  shows "accepted_of pid calls (snd (submit_all p c day calls s)) \<le> maxJobsPerDay c"
proof -
  have "n + accepted_of pid calls (snd (submit_all p c day calls s)) \<le> maxJobsPerDay c \<or>
      accepted_of pid calls (snd (submit_all p c day calls s)) = 0"
    if "daily_count (pid @ '':'' @ day) s = n" for n
    using that
  proof (induction calls arbitrary: s n)
    case (Cons call calls)
    obtain s1 a where a: "submit_alone p c day call s = (s1, a)" by fastforce
    have split: "accepted_of pid (call # calls) (snd (submit_all p c day (call # calls) s)) =
        (if pr_principalId (sc_principal call) = pid \<and> accepted a then 1 else 0) +
        accepted_of pid calls (snd (submit_all p c day calls s1))"
      by (simp add: accepted_of_def a)
    from Cons.IH[OF refl, of s1] submit_alone_count[OF a, of pid] Cons.prems show ?case
      unfolding split by (auto split: if_splits)
  qed (simp add: accepted_of_def)
  from this[OF assms] show ?thesis by auto
qed

text \<open>Submissions that overlap escape the quota: two that were begun before either was finished count as one.\<close>

theorem overlapping_submissions_count_once:
  assumes "submit_begin c pr day s = return n" and "submit_begin c pr day s = return m"
    and "submit_finish p c pr day n h1 b1 r1 t1 s = (s1, a1)" and "accepted a1"
    and "submit_finish p c pr day m h2 b2 r2 t2 s1 = (s2, a2)" and "accepted a2"
  shows "daily_count (today_key pr day) s2 = daily_count (today_key pr day) s + 1"
proof -
  have n: "n = daily_count (today_key pr day) s" "m = n"
    using assms(1,2) by (auto simp: submit_begin_def Let_def split: if_splits)
  then show ?thesis using submit_finish_count[OF assms(5)] assms(6) by (simp add: daily_count_def js_or_num_def)
qed

section \<open>Counting submissions\<close>

lemma check_adds:
  assumes "checkLimit pid act now l = (l', d)" and "allowed d"
  shows "map_get (requestTimestamps l') (limit_key pid act) =
    Some (live l now (case map_get (requestTimestamps l) (limit_key pid act) of None \<Rightarrow> [] | Some ts \<Rightarrow> ts) @ [now])"
    and "windowMs l' = windowMs l"
  using assms by (auto simp: checkLimit_def Let_def)

lemma live_twice: "live l now (live l now ts) = live l now ts"
  by (simp add: live_def)

text \<open>A submission through the server is counted twice: the server and the gateway both ask the limiter for a
  \<open>submit\<close> of the same principal, so that half the allowed rate is granted; a client that sends
  \<open>skipRateCheck\<close> is counted once.\<close>

theorem submission_counts_twice:
  assumes "0 < windowMs (rateLimiter (srv_gateway s))"
    and "server_check pr ''/api/v1/recoveries'' ''POST'' now s = (s1, return ())"
    and "submit_check (gateway_submission pr name src pl) now (srv_gateway s1) = (g, return ())"
  shows "\<exists>old. (\<forall>t\<in>set old. now - t < windowMs (rateLimiter (srv_gateway s))) \<and>
    map_get (requestTimestamps (rateLimiter g)) (limit_key (pr_principalId pr) ''submit'') =
      Some (old @ (if ap_skipRateCheck pl then [now] else [now, now]))"
proof -
  let ?l = "rateLimiter (srv_gateway s)" and ?k = "limit_key (pr_principalId pr) ''submit''"
  let ?ts = "case map_get (requestTimestamps ?l) ?k of None \<Rightarrow> [] | Some ts \<Rightarrow> ts"
  obtain l1 d1 where c1: "checkLimit (pr_principalId pr) ''submit'' now ?l = (l1, d1)" "allowed d1"
    "rateLimiter (srv_gateway s1) = l1"
    using assms(2) by (auto simp: server_check_def rate_action_def split: prod.splits if_splits)
  note t1 = check_adds[OF c1(1,2)]
  have old: "\<forall>t\<in>set (live ?l now ?ts). now - t < windowMs ?l" by (auto simp: live_def)
  show ?thesis
  proof (cases "ap_skipRateCheck pl")
    case True
    then have "g = srv_gateway s1" using assms(3) by (simp add: submit_check_def gateway_submission_def)
    with True t1 c1(3) old show ?thesis by (intro exI[of _ "live ?l now ?ts"]) simp
  next
    case False
    then obtain l2 d2 where c2: "checkLimit (pr_principalId pr) ''submit'' now l1 = (l2, d2)" "allowed d2" "rateLimiter g = l2"
      using assms(3) c1(3) by (auto simp: submit_check_def gateway_submission_def Let_def split: prod.splits if_splits)
    have keep: "live l1 now ts = live ?l now ts" for ts by (simp add: live_def t1(2))
    have new: "live ?l now [now] = [now]" using assms(1) by (simp add: live_def)
    have "live l1 now (live ?l now ?ts @ [now]) = live ?l now ?ts @ [now]"
      unfolding keep using new by (simp add: live_def)
    with check_adds(1)[OF c2(1,2)] t1 c2(3) False old show ?thesis
      by (intro exI[of _ "live ?l now ?ts"]) simp
  qed
qed

section \<open>Witnesses\<close>

definition demo_params :: params where
  "demo_params = \<lparr>p_hmac = (\<lambda>s. s), p_decode_assertion = (\<lambda>s. None), p_sha_token = (\<lambda>s. s), p_sha256 = (\<lambda>s. s),
     p_sha_source = (\<lambda>s. ''00''), p_decodeURI = (\<lambda>s. s), p_ttl = \<lparr>idleTtlSec = 10, absoluteTtlSec = 20\<rparr>\<rparr>"

definition demo_server :: "nat server" where
  "demo_server = \<lparr>srv_gateway = RecoveryGateway 60,
     srv_oauth = \<lparr>pendingStates = [], seenNonces = [], oauth_sessions = []\<rparr>, srv_identities = [],
     idempotencyRegistry = [], dailyJobCounts = [], jobFilenames = []\<rparr>"

definition demo_user :: principal where
  "demo_user = \<lparr>pr_principalId = ''ann'', pr_provider = ''discord'', pr_providerSubject = ''42'', pr_roles = [''user'']\<rparr>"

definition demo_payload :: api_payload where
  "demo_payload = \<lparr>ap_filename = None, ap_source = Some [120], ap_idempotencyKey = None, ap_skipRateCheck = True,
     ap_requestedStage = None, ap_semanticValidation = None\<rparr>"

definition demo_config :: product_config where
  "demo_config = \<lparr>production = False, maxSourceBytes = 10, maxConcurrentJobs = 5, maxJobsPerDay = 1\<rparr>"

definition demo_call :: "string \<Rightarrow> int \<Rightarrow> submission_call" where
  "demo_call rnd t = \<lparr>sc_principal = demo_user, sc_header = None, sc_payload = return demo_payload, sc_rnd = rnd, sc_time = t\<rparr>"

lemmas demo_submit_eval = demo_params_def demo_server_def demo_user_def demo_payload_def demo_config_def demo_call_def
  submit_begin_def submit_finish_def daily_count_def today_key_def check_payload_def sanitizeFilename_def replay_answer_def
  submitJobSync_def gateway_submission_def submit_check_def RecoveryGateway_def new_queue_def enqueue_def submit_data_def
  request_key_def js_or_str_def existing_job_def new_id_def new_job_def record_key_def put_job_def emit_def js_or_num_def
  map_get_def Let_def record_job_def receipt_of_def

theorem accepted_name_is_safe_witness: "safe_name ''my_script.lua''"
proof -
  have "sanitizeFilename (Some (map unit_of ''my script.lua'')) = return ''my_script.lua''"
    by (simp add: sanitizeFilename_def has_scheme_def has_drive_def is_letter_def is_digit_unit_def starts_with_def
      replace_units_def name_unit_def extname_def lower_def ALLOWED_EXTENSIONS_def Let_def char_of_def bit_0)
  from accepted_name_is_safe [OF this] show ?thesis .
qed

theorem daily_quota_holds_witness:
  "accepted_of ''ann'' [demo_call ''1'' 0, demo_call ''2'' 5]
     (snd (submit_all demo_params demo_config ''2024-01-01'' [demo_call ''1'' 0, demo_call ''2'' 5] demo_server)) \<le> 1"
proof -
  have "daily_count (''ann'' @ '':'' @ ''2024-01-01'') demo_server = 0"
    by (simp add: daily_count_def demo_server_def js_or_num_def)
  from daily_quota_holds [OF this, of "[demo_call ''1'' 0, demo_call ''2'' 5]" demo_params demo_config] show ?thesis
    by (simp add: demo_config_def del: submit_all.simps)
qed

theorem overlapping_submissions_count_once_witness:
  "\<exists>s2. daily_count (today_key demo_user ''d'') (s2 :: nat server) = 1"
proof -
  have b: "submit_begin demo_config demo_user ''d'' demo_server = return 0" by (simp add: demo_submit_eval)
  obtain s1 a1 where f1: "submit_finish demo_params demo_config demo_user ''d'' 0 None (return demo_payload) ''1'' 0 demo_server = (s1, a1)"
    and a1: "accepted a1" and "jobs (g_queue (srv_gateway s1)) \<noteq> []" by (simp add: demo_submit_eval accepted_def)
  obtain s2 a2 where f2: "submit_finish demo_params demo_config demo_user ''d'' 0 None (return demo_payload) ''2'' 0 s1 = (s2, a2)"
    and a2: "accepted a2"
    using f1 by (auto simp: demo_submit_eval accepted_def)
  from overlapping_submissions_count_once [OF b b f1 a1 f2 a2] show ?thesis
    by (intro exI[of _ s2]) (simp add: daily_count_def demo_server_def js_or_num_def)
qed

theorem submission_counts_twice_witness:
  "\<exists>s1 old. server_check demo_user ''/api/v1/recoveries'' ''POST'' 7 demo_server = (s1, return ()) \<and>
     map_get (requestTimestamps (rateLimiter (srv_gateway s1))) (limit_key ''ann'' ''submit'') = Some (old @ [7])"
proof -
  obtain s1 where c: "server_check demo_user ''/api/v1/recoveries'' ''POST'' 7 demo_server = (s1, return ())"
    by (simp add: server_check_def rate_action_def checkLimit_def decide_def live_def demo_server_def demo_user_def
        RecoveryGateway_def RateLimiter_def js_or_num_def map_get_def Let_def)
  have w: "0 < windowMs (rateLimiter (srv_gateway demo_server))"
    by (simp add: demo_server_def RecoveryGateway_def RateLimiter_def js_or_num_def)
  have k: "submit_check (gateway_submission demo_user ''f'' [120] demo_payload) 7 (srv_gateway s1) = (srv_gateway s1, return ())"
    by (simp add: submit_check_def gateway_submission_def demo_payload_def)
  have skip: "ap_skipRateCheck demo_payload" "pr_principalId demo_user = ''ann''"
    by (simp_all add: demo_payload_def demo_user_def)
  from submission_counts_twice [OF w c k] c show ?thesis unfolding skip(2) by (simp add: skip(1)) blast
qed

end
