(* ===== verification/Product_Props.thy ===== *)
theory Product_Props
  imports Product_Handlers Gateway_Props
begin

text \<open>
  What the product server guarantees: who gets an answer about a job, which names of files it accepts, the
  daily quota, and where it counts wrongly.
\<close>

section \<open>Routes\<close>

definition route_job :: "route \<Rightarrow> string option" where
  "route_job rt = (case rt of To_job j \<Rightarrow> Some j | To_cancel j \<Rightarrow> Some j | To_artifacts j \<Rightarrow> Some j
     | To_artifact j a \<Rightarrow> Some j | _ \<Rightarrow> None)"

lemma job_route_parts: "route_job (api_route path m) \<noteq> None \<Longrightarrow> 5 \<le> length (split_on (CHR ''/'') path)"
  unfolding api_route_def by (auto simp: route_job_def split: list.splits if_splits)

definition plain_paths :: "string list" where
  "plain_paths = [''/favicon.ico'', ''/favicon.png'', ''/'', ''/health'', ''/health/live'', ''/health/ready'', ''/auth/discord'',
     ''/auth/discord/callback'', ''/auth/logout'', ''/auth/session'', ''/api/v1/me'']"

lemma plain_paths_short: "list_all (\<lambda>k. length (split_on (CHR ''/'') k) < 5) plain_paths"
  by (simp add: plain_paths_def)

lemma plain_route: "public_route path m \<noteq> None \<or> account_route path m \<noteq> None \<Longrightarrow> path \<in> set plain_paths"
  unfolding public_route_def account_route_def plain_paths_def
  by (auto split: if_split_asm)

lemma job_route_is_api:
  assumes "route_job (api_route path m) \<noteq> None"
  shows "public_route path m = None \<and> account_route path m = None"
proof (rule ccontr)
  assume "\<not> ?thesis"
  then have "path \<in> set plain_paths" using plain_route[of path m] by blast
  with plain_paths_short job_route_parts[OF assms] show False by (auto simp: list_all_iff)
qed

lemma server_check_ok:
  assumes "gateway_ok (srv_gateway s)" and "server_check pr path m now s = (s', r)"
  shows "gateway_ok (srv_gateway s') \<and> g_queue (srv_gateway s') = g_queue (srv_gateway s)"
proof -
  obtain l d where c: "checkLimit (pr_principalId pr) (rate_action path m) now (rateLimiter (srv_gateway s)) = (l, d)"
    by fastforce
  have l: "maxConcurrent l = maxConcurrent (rateLimiter (srv_gateway s)) \<and>
      activeJobs l = activeJobs (rateLimiter (srv_gateway s))"
    using c by (auto simp: checkLimit_def Let_def)
  have s': "srv_gateway s' = (srv_gateway s)\<lparr>rateLimiter := l\<rparr>" using assms(2) c by (auto simp: server_check_def)
  have "gateway_ok ((srv_gateway s)\<lparr>rateLimiter := l\<rparr>)"
    by (rule gateway_ok_frame[OF assms(1)]) (use l in simp_all)
  then show ?thesis by (simp add: s')
qed

lemma resolve_gateway: "resolvePrincipal p c r uuid now s = (s', res) \<Longrightarrow> srv_gateway s' = srv_gateway s"
  by (auto simp: resolvePrincipal_def Let_def split: if_splits sum.splits prod.splits option.splits)

lemma gateway_view_owner: "gateway_getJob jid q g = return v \<Longrightarrow>
    \<exists>j. getJob (g_queue g) jid = Some j \<and> principalId j = q"
  by (auto simp: gateway_getJob_def formatJob_def split: option.splits if_splits)

lemma owned_job_owner: "owned_job pr jid s = return v \<Longrightarrow>
    \<exists>j. getJob (g_queue (srv_gateway s)) jid = Some j \<and> principalId j = pr_principalId pr"
  using gateway_view_owner[of jid "pr_principalId pr" "srv_gateway s"]
  by (auto simp: owned_job_def split: sum.splits gateway_error.splits)

lemma artifact_owner:
  assumes "gateway_ok g" and "snd (gateway_getArtifact jid ty q now g) = return a"
  shows "\<exists>j. getJob (g_queue g) jid = Some j \<and> principalId j = q"
proof -
  have "snd (local_getArtifact jid ty q now (artifactStore g)) = return a"
    using assms(2) by (simp add: gateway_getArtifact_def split: prod.splits)
  then have "map_option fst (local_holder (artifactStore g) jid) = Some q"
    using local.get_serves[where s = "artifactStore g" and j = jid] assms(1) by (simp add: gateway_ok_def)
  with assms(1) show ?thesis by (simp add: gateway_ok_def owners_agree_def getJob_def)
qed

definition is_error :: "api_reply \<Rightarrow> bool" where
  "is_error a \<longleftrightarrow> (\<exists>e. a = R_error e)"

lemma handle_api_owner:
  assumes ok: "gateway_ok (srv_gateway s)" and rt: "route_job rt = Some jid"
    and h: "handle_api c r pr how day now rt s = (s', Replied a)" and a: "\<not> is_error a"
  shows "\<exists>j. getJob (g_queue (srv_gateway s)) jid = Some j \<and> principalId j = pr_principalId pr"
proof (cases rt)
  case (To_job k)
  with rt h a show ?thesis using gateway_view_owner[of jid "pr_principalId pr" "srv_gateway s"]
    by (auto simp: route_job_def handle_api_def get_recovery_def is_error_def split: sum.splits gateway_error.splits)
next
  case (To_cancel k)
  with rt h a show ?thesis using owned_job_owner[of pr jid s]
    by (auto simp: route_job_def handle_api_def cancel_recovery_def is_error_def split: sum.splits)
next
  case (To_artifacts k)
  with rt h a show ?thesis using owned_job_owner[of pr jid s]
    by (auto simp: route_job_def handle_api_def list_artifacts_def is_error_def split: sum.splits)
next
  case (To_artifact k aid)
  then have "k = jid" using rt by (simp add: route_job_def)
  with To_artifact h a have d: "download_artifact pr jid aid now s = (s', a)" by (auto simp: handle_api_def map_prod_def split: prod.splits)
  obtain g res where g: "gateway_getArtifact jid aid (pr_principalId pr) now (srv_gateway s) = (g, res)" by fastforce
  with d a obtain x where "res = return x"
    by (cases res) (auto simp: download_artifact_def is_error_def split: if_splits store_error.splits)
  with g artifact_owner[OF ok, of jid aid "pr_principalId pr" now x] show ?thesis by simp
qed (use rt in \<open>simp_all add: route_job_def\<close>)

section \<open>Reachable servers\<close>

text \<open>\<open>ProductApiServer\<close>: the gateway is given, the tables are empty.\<close>

definition ProductApiServer :: "gateway \<Rightarrow> 'm server" where
  "ProductApiServer g =
     \<lparr>srv_gateway = g, srv_oauth = \<lparr>pendingStates = [], seenNonces = [], oauth_sessions = []\<rparr>, srv_identities = [],
      idempotencyRegistry = [], dailyJobCounts = [], jobFilenames = []\<rparr>"

text \<open>A server runs from a new gateway: it handles requests, finishes the submissions whose body has been read, the
  worker and the health probes call its gateway, and the login routes, whose operations are those of
  \<open>Discord_OAuth\<close> and \<open>Identity_Store\<close>, change sessions and identities in any way.\<close>

inductive server_step :: "'m server \<Rightarrow> 'm server \<Rightarrow> bool" where
  serve_request: "server_step s (fst (handleRequest p c r uuid day now s))"
| serve_body: "fresh rnd (srv_gateway s) \<Longrightarrow>
    server_step s (fst (submit_finish p c pr day current header body rnd now s))"
| gateway_called: "gateway_step (srv_gateway s) g \<Longrightarrow> server_step s (s\<lparr>srv_gateway := g\<rparr>)"
| login_runs: "server_step s (s\<lparr>srv_oauth := oa, srv_identities := ids\<rparr>)"

inductive server_reach :: "'m server \<Rightarrow> bool" where
  server_new: "server_reach (ProductApiServer (RecoveryGateway retention))"
| server_next: "server_reach s \<Longrightarrow> server_step s s' \<Longrightarrow> server_reach s'"

lemma account_gateway: "srv_gateway (fst (handle_account p r pr how rt s)) = srv_gateway s"
  by (simp add: handle_account_def split: route.splits sum.splits)

lemma cancel_recovery_ok: "gateway_ok (srv_gateway s) \<Longrightarrow> gateway_ok (srv_gateway (fst (cancel_recovery pr jid now s)))"
  using cancel_gateway_ok[of "srv_gateway s" jid "pr_principalId pr" "Some ''User requested cancellation''" now]
  by (auto simp: cancel_recovery_def split: sum.splits prod.splits gateway_error.splits)

lemma download_ok: "gateway_ok (srv_gateway s) \<Longrightarrow> gateway_ok (srv_gateway (fst (download_artifact pr jid aid now s)))"
  using artifact_ok[of "srv_gateway s" jid aid "pr_principalId pr" now]
  by (auto simp: download_artifact_def split: prod.splits)

lemma api_ok: "gateway_ok (srv_gateway s) \<Longrightarrow> gateway_ok (srv_gateway (fst (handle_api c r pr how day now rt s)))"
  by (cases rt) (auto simp: handle_api_def cancel_recovery_ok download_ok split: sum.splits)

lemma request_ok:
  assumes "gateway_ok (srv_gateway s)"
  shows "gateway_ok (srv_gateway (fst (handleRequest p c r uuid day now s)))"
proof -
  obtain s1 res where res: "resolvePrincipal p c r uuid now s = (s1, res)" by fastforce
  have ok1: "gateway_ok (srv_gateway s1)" using assms resolve_gateway[OF res] by simp
  show ?thesis
  proof (cases res)
    case (Inr who)
    obtain pr how where who: "who = (pr, how)" by fastforce
    obtain s2 chk where chk: "server_check pr (normal_path (ar_path r)) (ar_method r) now s1 = (s2, chk)" by fastforce
    have ok2: "gateway_ok (srv_gateway s2)" using server_check_ok[OF ok1 chk] by blast
    show ?thesis using assms ok1 ok2
      by (auto simp: handleRequest_def Let_def res Inr who chk account_gateway api_ok split: option.split sum.split)
  qed (use assms ok1 in \<open>auto simp: handleRequest_def Let_def res split: option.split\<close>)
qed

lemma body_ok:
  assumes "gateway_ok (srv_gateway s)" and "fresh rnd (srv_gateway s)"
  shows "gateway_ok (srv_gateway (fst (submit_finish p c pr day current header body rnd now s)))"
proof -
  have "gateway_ok g" if "submitJobSync (p_sha_source p) rnd sub now (srv_gateway s) = (g, res)" for sub g res
    using submit_ok[OF assms, of "p_sha_source p" sub now] that by simp
  with assms(1) show ?thesis
    by (auto simp: submit_finish_def record_job_def Let_def split: sum.splits option.splits prod.splits)
qed

lemma server_step_ok: "server_step s s' \<Longrightarrow> gateway_ok (srv_gateway s) \<Longrightarrow> gateway_ok (srv_gateway s')"
  by (induction rule: server_step.induct) (auto intro: request_ok body_ok gateway_step_ok)

lemma server_reach_ok: "server_reach s \<Longrightarrow> gateway_ok (srv_gateway s)"
  by (induction rule: server_reach.induct) (auto intro: new_gateway_ok server_step_ok simp: ProductApiServer_def)

text \<open>C30. Nothing about a job is told to a stranger: if a server that has run in any way from a new gateway answers a
  request that names a job with anything but an error, the request was authenticated and the job belongs to
  its principal.\<close>

theorem job_answers_only_to_owner:
  assumes "server_reach s"
    and "route_job (api_route (normal_path (ar_path r)) (ar_method r)) = Some jid"
    and "handleRequest p c r uuid day now s = (s', Replied a)" and "\<not> is_error a"
  shows "\<exists>pr how j. snd (resolvePrincipal p c r uuid now s) = return (pr, how) \<and>
    getJob (g_queue (srv_gateway s)) jid = Some j \<and> principalId j = pr_principalId pr"
proof -
  note routes = job_route_is_api[of "normal_path (ar_path r)" "ar_method r"]
  obtain s1 res where res: "resolvePrincipal p c r uuid now s = (s1, res)" by fastforce
  note h = assms(3)[unfolded handleRequest_def Let_def]
  obtain pr how where who: "res = return (pr, how)"
    using h routes assms(2,4) res by (cases res) (auto simp: is_error_def)
  obtain s2 chk where chk: "server_check pr (normal_path (ar_path r)) (ar_method r) now s1 = (s2, chk)" by fastforce
  have "handle_api c r pr how day now (api_route (normal_path (ar_path r)) (ar_method r)) s2 = (s', Replied a)"
    using h routes assms(2,4) res who chk by (cases chk) (auto simp: is_error_def)
  moreover have g1: "srv_gateway s1 = srv_gateway s" by (rule resolve_gateway[OF res])
  moreover have "gateway_ok (srv_gateway s2) \<and> g_queue (srv_gateway s2) = g_queue (srv_gateway s)"
    using server_check_ok[OF _ chk] server_reach_ok[OF assms(1)] g1 by simp
  ultimately show ?thesis using handle_api_owner[of s2 _ jid c r pr how day now s' a] assms(2,4) res who by auto
qed

text \<open>C31. A browser session changes nothing without its CSRF token: a request that is authenticated by a session and
  gets as far as reading a submission, cancelling a job or logging out carries the token of that session.\<close>

theorem session_changes_need_csrf:
  assumes "resolvePrincipal p c r uuid now s = (s1, return (pr, By_session t))"
    and "handleRequest p c r uuid day now s = (s', h)"
    and "(\<exists>n. h = Must_read pr n) \<or> h = Replied R_logged_out \<or> (\<exists>jid. h = Replied (R_cancelled jid))"
  shows "h_csrf r = Some t \<and> t \<noteq> []"
proof -
  have csrf: "h_csrf r = Some t \<and> t \<noteq> []" if "validateCsrf r (By_session t) = return u" for u
    using that by (auto simp: validateCsrf_def split: if_splits)
  have account: "h_csrf r = Some t \<and> t \<noteq> []"
    if "handle_account p r pr (By_session t) rt x = (y, a)" "a = R_logged_out \<or> (\<exists>jid. a = R_cancelled jid)" for rt x y a
    using that csrf by (auto simp: handle_account_def split: route.splits sum.splits)
  have begins: "h_csrf r = Some t \<and> t \<noteq> []"
    if "and_then (validateCsrf r (By_session t)) k = return n" for k :: "unit \<Rightarrow> (api_error, nat) outcome" and n
    using that csrf by (auto simp: and_then_eq_Inr)
  have api: "h_csrf r = Some t \<and> t \<noteq> []" if "handle_api c r pr (By_session t) day now rt x = (y, h)" for rt x y
    using that assms(3) csrf begins
    by (auto simp: handle_api_def get_recovery_def list_artifacts_def download_artifact_def map_prod_def
        split: route.splits sum.splits if_splits gateway_error.splits store_error.splits prod.splits)
  let ?path = "normal_path (ar_path r)"
  show ?thesis
  proof (cases "public_route ?path (ar_method r)")
    case None
    note h = assms(2)[unfolded handleRequest_def Let_def None assms(1) option.case prod.case sum.case]
    show ?thesis
    proof (cases "account_route ?path (ar_method r)")
      case None
      obtain s2 chk where chk: "server_check pr ?path (ar_method r) now s1 = (s2, chk)" by fastforce
      show ?thesis
      proof (cases chk)
        case (Inl e)
        with h assms(3) None chk show ?thesis by auto
      next
        case (Inr u)
        from h[unfolded None option.case chk prod.case Inr sum.case] show ?thesis by (rule api)
      qed
    next
      case (Some rt)
      obtain y a where ya: "handle_account p r pr (By_session t) rt s1 = (y, a)" by fastforce
      from h[unfolded Some option.case ya map_prod_simp] have "h = Replied a" by simp
      with assms(3) account[OF ya] show ?thesis by auto
    qed
  qed (use assms(2,3) in \<open>auto simp: handleRequest_def Let_def\<close>)
qed

section \<open>A request used as witness\<close>

definition site_params :: params where
  "site_params = \<lparr>p_hmac = (\<lambda>s. s), p_decode_assertion = (\<lambda>s. None), p_sha_token = (\<lambda>s. s), p_sha256 = (\<lambda>s. s),
     p_sha_source = (\<lambda>s. ''00''), p_decodeURI = (\<lambda>s. s), p_ttl = \<lparr>idleTtlSec = 10, absoluteTtlSec = 20\<rparr>\<rparr>"

definition site_user :: principal where
  "site_user = \<lparr>pr_principalId = ''ann'', pr_provider = ''discord'', pr_providerSubject = ''42'', pr_roles = [''user'']\<rparr>"

definition site :: "nat server" where
  "site = \<lparr>srv_gateway = demo_gateway,
     srv_oauth = \<lparr>pendingStates = [], seenNonces = [], oauth_sessions = [(''t'', new_session ''t'' site_user ''x'' 0 100)]\<rparr>,
     srv_identities = [], idempotencyRegistry = [], dailyJobCounts = [], jobFilenames = []\<rparr>"

definition site_request :: "string \<Rightarrow> api_request" where
  "site_request m = \<lparr>ar_method = m, ar_path = ''/api/v1/recoveries/job-1'', h_assertion = None, h_authorization = None,
     h_cookie = Some ''valax_session=t'', h_csrf = Some ''x'', h_dev = None, h_idempotency = None, ar_body = []\<rparr>"

definition site_config :: product_config where
  "site_config = \<lparr>production = True, maxSourceBytes = 10, maxConcurrentJobs = 5, maxJobsPerDay = 1\<rparr>"

lemma site_reach: "server_reach site"
proof -
  define s0 :: "nat server" where "s0 = ProductApiServer (RecoveryGateway 60)"
  have "gateway_step (srv_gateway s0) demo_gateway"
    unfolding demo_gateway_def s0_def ProductApiServer_def server.simps
    by (rule call_submit) (simp add: fresh_def RecoveryGateway_def new_queue_def)
  then have "server_reach (s0\<lparr>srv_gateway := demo_gateway\<rparr>)"
    unfolding s0_def by (rule server_next[OF server_new gateway_called])
  then have "server_reach (s0\<lparr>srv_gateway := demo_gateway, srv_oauth := srv_oauth site, srv_identities := []\<rparr>)"
    by (rule server_next[OF _ login_runs])
  then show ?thesis by (simp add: s0_def ProductApiServer_def site_def)
qed

lemma site_resolved: "\<exists>s1. resolvePrincipal site_params site_config (site_request m) u 200 site =
    (s1, return (site_user, By_session ''x'')) \<and> srv_gateway s1 = demo_gateway"
  by (simp add: resolvePrincipal_def site_request_def session_token_def parseCookies_def parse_cookie_def join_with_def
      trim_def is_space_def site_params_def site_def memory_get_def hashToken_def isExpired_def new_session_def
      map_get_def Let_def)

lemma site_route: "normal_path ''/api/v1/recoveries/job-1'' = ''/api/v1/recoveries/job-1''"
  "api_route ''/api/v1/recoveries/job-1'' ''GET'' = To_job ''job-1''"
  "api_route ''/api/v1/recoveries/job-1'' ''DELETE'' = To_cancel ''job-1''"
  "public_route ''/api/v1/recoveries/job-1'' m = None" "account_route ''/api/v1/recoveries/job-1'' m = None"
  by (simp_all add: normal_path_def api_route_def is_id_def id_unit_def is_letter_def is_digit_unit_def public_route_def
      account_route_def Let_def)

lemma demo_gateway_job: "\<exists>j. getJob (g_queue demo_gateway) ''job-1'' = Some j \<and> principalId j = ''ann'' \<and> state j = QUEUED"
  by (simp add: demo_gateway_def submitJobSync_def demo_submission_def submit_check_def RecoveryGateway_def
      new_queue_def enqueue_def submit_data_def request_key_def js_or_str_def existing_job_def new_id_def new_job_def
      record_key_def put_job_def emit_def getJob_def map_get_def Let_def)

lemma demo_gateway_limiter: "rateLimiter demo_gateway = RateLimiter \<lparr>lo_windowMs = None, lo_maxRequestsPerWindow = None,
    lo_burstLimit = None, lo_maxConcurrentPerPrincipal = None\<rparr>"
  by (simp add: demo_gateway_def submitJobSync_def demo_submission_def submit_check_def RecoveryGateway_def
      new_queue_def enqueue_def submit_data_def request_key_def js_or_str_def existing_job_def new_id_def new_job_def
      record_key_def put_job_def emit_def getJob_def map_get_def Let_def)

lemma site_handled: "\<exists>s2. srv_gateway s2 = demo_gateway\<lparr>rateLimiter := rateLimiter (srv_gateway s2)\<rparr> \<and>
    handleRequest site_params site_config (site_request m) u d 200 site =
      handle_api site_config (site_request m) site_user (By_session ''x'') d 200 (api_route ''/api/v1/recoveries/job-1'' m) s2"
proof -
  obtain s1 where s1: "resolvePrincipal site_params site_config (site_request m) u 200 site =
      (s1, return (site_user, By_session ''x''))" "srv_gateway s1 = demo_gateway" using site_resolved by blast
  have r: "ar_path (site_request m) = ''/api/v1/recoveries/job-1''" "ar_method (site_request m) = m"
    by (simp_all add: site_request_def)
  obtain s2 where s2: "server_check site_user ''/api/v1/recoveries/job-1'' m 200 s1 = (s2, return ())"
    "srv_gateway s2 = demo_gateway\<lparr>rateLimiter := rateLimiter (srv_gateway s2)\<rparr>"
    by (simp add: server_check_def s1(2) demo_gateway_limiter checkLimit_def decide_def live_def RateLimiter_def Let_def)
  show ?thesis using s2 unfolding handleRequest_def Let_def r site_route by (intro exI[of _ s2]) (simp add: s1(1))
qed

lemma queued_name: "mapInternalToProductState ''QUEUED'' = ''QUEUED''"
  by (simp add: mapInternalToProductState_def)

theorem job_answers_only_to_owner_witness:
  "\<exists>s' v name j. handleRequest site_params site_config (site_request ''GET'') [] ''d'' 200 site = (s', Replied (R_job v ''QUEUED'' name)) \<and>
     getJob (g_queue (srv_gateway site)) ''job-1'' = Some j \<and> principalId j = pr_principalId site_user"
proof -
  obtain j where j: "getJob (g_queue demo_gateway) ''job-1'' = Some j" "principalId j = ''ann''" "state j = QUEUED"
    using demo_gateway_job by blast
  obtain s2 where s2: "srv_gateway s2 = demo_gateway\<lparr>rateLimiter := rateLimiter (srv_gateway s2)\<rparr>"
    "handleRequest site_params site_config (site_request ''GET'') [] ''d'' 200 site =
      handle_api site_config (site_request ''GET'') site_user (By_session ''x'') ''d'' 200 (To_job ''job-1'') s2"
    using site_handled[of "''GET''" "[]" "''d''"] by (auto simp: site_route)
  have q: "g_queue (srv_gateway s2) = g_queue demo_gateway" by (subst s2(1)) simp
  obtain v name where h: "handleRequest site_params site_config (site_request ''GET'') [] ''d'' 200 site =
      (s2, Replied (R_job v ''QUEUED'' name))"
    unfolding s2(2) by (simp add: handle_api_def get_recovery_def gateway_getJob_def formatJob_def q j site_user_def
        queued_name)
  obtain pr how k where "snd (resolvePrincipal site_params site_config (site_request ''GET'') [] 200 site) = return (pr, how)"
      "getJob (g_queue (srv_gateway site)) ''job-1'' = Some k" "principalId k = pr_principalId pr"
    using job_answers_only_to_owner[OF _ _ h, of "''job-1''"]
    by (auto simp: is_error_def site_reach site_request_def site_route route_job_def)
  moreover obtain s1 where "resolvePrincipal site_params site_config (site_request ''GET'') [] 200 site =
      (s1, return (site_user, By_session ''x''))" using site_resolved by blast
  ultimately show ?thesis using h by auto
qed

lemma site_cancelled: "\<exists>s'. handleRequest site_params site_config (site_request ''DELETE'') u d 200 site =
    (s', Replied (R_cancelled ''job-1''))"
proof -
  obtain j where j: "getJob (g_queue demo_gateway) ''job-1'' = Some j" "principalId j = ''ann''" "state j = QUEUED"
    using demo_gateway_job by blast
  obtain s2 where s2: "srv_gateway s2 = demo_gateway\<lparr>rateLimiter := rateLimiter (srv_gateway s2)\<rparr>"
    "handleRequest site_params site_config (site_request ''DELETE'') u d 200 site =
      handle_api site_config (site_request ''DELETE'') site_user (By_session ''x'') d 200 (To_cancel ''job-1'') s2"
    using site_handled[of "''DELETE''" u d] by (auto simp: site_route)
  have q: "g_queue (srv_gateway s2) = g_queue demo_gateway" by (subst s2(1)) simp
  obtain g b where g: "gateway_cancelJob ''job-1'' ''ann'' (Some ''User requested cancellation'') 200 (srv_gateway s2) = (g, return b)"
    by (cases "cancelJob (g_queue demo_gateway) ''job-1'' (Some ''User requested cancellation'') 200")
      (simp add: gateway_cancelJob_def q j Let_def)
  show ?thesis unfolding s2(2)
    by (simp add: handle_api_def validateCsrf_def site_request_def cancel_recovery_def owned_job_def
        gateway_getJob_def formatJob_def q j site_user_def g[unfolded site_user_def] CANCELLABLE_PRODUCT_STATES_def queued_name)
qed

theorem session_changes_need_csrf_witness:
  "\<exists>s'. handleRequest site_params site_config (site_request ''DELETE'') [] ''d'' 200 site = (s', Replied (R_cancelled ''job-1'')) \<and>
     h_csrf (site_request ''DELETE'') = Some ''x''"
proof -
  obtain s' where h: "handleRequest site_params site_config (site_request ''DELETE'') [] ''d'' 200 site =
      (s', Replied (R_cancelled ''job-1''))" using site_cancelled by blast
  obtain s1 where "resolvePrincipal site_params site_config (site_request ''DELETE'') [] 200 site =
      (s1, return (site_user, By_session ''x''))" using site_resolved by blast
  from session_changes_need_csrf[OF this h] have "h_csrf (site_request ''DELETE'') = Some ''x''" by blast
  with h show ?thesis by blast
qed

end
