(* ===== verification/Admission.thy ===== *)
theory Admission
  imports Trace_Synthesis "HOL-Library.Sublist"
begin

text \<open>
  The decision whether a program may be replaced as a whole: the validators of proofs
  (\<open>core/src/analysis/required-proof-validator.js\<close>, \<open>proof-integrity-validator.js\<close>), the gate
  (\<open>final-admission-gate.js\<close>) and the categories of failures (\<open>diagnostics/failure-taxonomy.js\<close>). What the
  analyzers found is the input: their reports, with the properties that are read here.
\<close>

section \<open>Failure categories\<close>

datatype failure_category =
  PARSER_FAILURE | DETECTION_FAILURE | STRING_RECOVERY_FAILURE | CONSTANT_FAILURE | CFG_FAILURE |
  CLOSURE_FAILURE | TRANSITION_FAILURE | GENERATOR_FAILURE | SEMANTIC_MISMATCH | SILENT_SEMANTIC_CORRUPTION |
  MULTIRETURN_RECOVERY_FAILURE | MULTIVALUE_FLOW_FAILURE | ASSIGNMENT_EXPANSION_FAILURE |
  CALL_ARGUMENT_EXPANSION_FAILURE | RETURN_PROPAGATION_FAILURE | VARARG_RECOVERY_FAILURE |
  VARARG_BINDING_FAILURE | VARARG_EXPANSION_FAILURE | VARARG_TRUNCATION_FAILURE | VARARG_ESCAPE_UNRESOLVED |
  VARARG_DYNAMIC_SOURCE | MULTIVALUE_VARARG_INTEROP_FAILURE | EVALUATION_ORDER_FAILURE |
  CLOSURE_CAPTURE_RECOVERY_FAILURE | UPVALUE_BINDING_FAILURE | UPVALUE_CAPTURE_SEMANTICS_FAILURE |
  UPVALUE_MUTATION_FAILURE | SHARED_UPVALUE_ALIAS_FAILURE | CLOSURE_ENVIRONMENT_FAILURE |
  CLOSURE_INSTANCE_ALIAS_FAILURE | LEXICAL_SHADOWING_FAILURE | ESCAPING_CLOSURE_UNRESOLVED |
  MIXED_FEATURE_INTERACTION_FAILURE | VARARG_TABLE_EXPANSION_FAILURE | CLOSURE_ENVIRONMENT_IDENTITY_FAILURE |
  CAPTURED_OBJECT_IDENTITY_FAILURE | UPVALUE_STATE_PROPAGATION_FAILURE | INVOCATION_CONTEXT_FAILURE |
  STATEFUL_BRANCH_RECOVERY_FAILURE | MULTIRETURN_INTEROP_FAILURE | WHOLE_PROGRAM_PROOF_FAILURE |
  ORACLE_DRIVEN_PROOF_SYNTHESIS | PROOF_INTEGRITY_FAILURE | MISSING_REQUIRED_L5W_PROOF |
  L5W_ADMISSION_INCONSISTENCY | RESOURCE_LIMIT | UNKNOWN_VARIANT

text \<open>An error is a \<open>DiagnosticError\<close> with its category, or any other error with its message.\<close>

datatype core_error = DiagnosticError failure_category string | Plain_error string

definition mentions_any :: "string list \<Rightarrow> string \<Rightarrow> bool" where
  "mentions_any ws msg \<longleftrightarrow> list_ex (\<lambda>w. sublist w msg) ws"

definition classifyError :: "core_error \<Rightarrow> failure_category" where
  "classifyError err =
     (case err of
        DiagnosticError c msg \<Rightarrow> c
      | Plain_error msg \<Rightarrow>
          if mentions_any [''Unexpected token'', ''Expected'', ''parse''] msg then PARSER_FAILURE
          else if mentions_any [''CFG'', ''block'', ''edge''] msg then CFG_FAILURE
          else if mentions_any [''string'', ''decode'', ''alphabet''] msg then STRING_RECOVERY_FAILURE
          else if mentions_any [''constant'', ''evaluat''] msg then CONSTANT_FAILURE
          else if mentions_any [''closure'', ''context''] msg then CLOSURE_FAILURE
          else UNKNOWN_VARIANT)"

section \<open>Reports\<close>

text \<open>A provenance is its source.\<close>

record mixed_info =
  varargRecovered :: bool
  varargToTableExpansionProven :: bool
  varargProvenance :: "string option"
  mx_closureRecovered :: bool
  closureInstanceCount :: nat
  environmentInstanceCount :: nat
  closureProvenance :: "string option"
  capturedBindings :: "string list"
  capturedTableIdentityProven :: bool
  tableIdentityProvenance :: "string option"
  mutableUpvalueCount :: nat
  invocationCount :: nat
  persistentStateProven :: bool
  stateProvenance :: "string option"
  branchOutcomes :: "bool list"
  branchProvenance :: "string option"
  multiReturnValueCount :: nat
  multiReturnExpansionProven :: bool
  multiReturnProvenance :: "string option"
  evaluationOrderProven :: bool
  evaluationOrderProvenance :: "string option"
  mx_safeReplacement :: bool

record vararg_info =
  varargDetected :: bool
  va_safeToInline :: bool

record closure_info =
  cl_closureRecovered :: bool
  capturedBindingCount :: nat
  cl_safeToInline :: bool

record multi_return =
  functionRecovered :: bool
  mr_safeToInline :: bool

record table_recovery =
  tableRecovered :: bool
  safeToInlineField :: bool
  safeToEliminateTable :: bool

record nested_function =
  outerRecovered :: bool
  innerRecovered :: bool
  safeToInlineInner :: bool
  safeToInlineOuter :: bool

record completeness_info =
  mixedClosed :: "mixed_info option"
  closureCapture :: "closure_info option"
  vararg :: "vararg_info option"
  multiReturn :: "multi_return option"
  tableRecovery :: "table_recovery option"
  nestedFunction :: "nested_function option"
  isDeadBranchEliminationSafe :: bool
  isSafeToInline :: bool
  info_closed :: bool

text \<open>The calls of \<open>print\<close> that the oracle saw.\<close>

definition print_calls :: "event list \<Rightarrow> event list" where
  "print_calls es = filter (\<lambda>e. case e of CALL f xs \<Rightarrow> f = units ''print'' | RETURN a \<Rightarrow> False) es"

section \<open>Required proofs\<close>

text \<open>A property of \<open>MandatoryProofs\<close>; other names are \<open>undefined\<close>.\<close>

definition MandatoryProofs :: "string \<Rightarrow> string option" where
  "MandatoryProofs name =
     (if name \<in> set [''VARARG_TABLE_EXPANSION'', ''CLOSURE_IDENTITY'', ''ENVIRONMENT_IDENTITY'',
           ''CAPTURED_TABLE_IDENTITY'', ''PERSISTENT_UPVALUE_STATE'', ''STATEFUL_BRANCH'', ''MULTIRETURN'',
           ''EVALUATION_ORDER'', ''WHOLE_PROGRAM_REPLACEMENT'', ''CONSTANT_PROPAGATION'',
           ''FUNCTION_RETURN_SEMANTICS'', ''CONSTANT_BRANCH_ELIMINATION'', ''NUMERIC_LOOP_BOUNDS'',
           ''NESTED_FUNCTION_CALL_CHAIN'', ''RETURN_PROPAGATION'', ''TABLE_FIELD_LOOKUP'',
           ''VARARG_BINDING_FLOW'', ''LEXICAL_UPVALUE_CAPTURE'']
      then Some name else None)"

type_synonym proofs = "string option list"

record proof_report =
  pr_pass :: bool
  required :: proofs
  proven :: proofs
  missing :: proofs
  pr_failure :: "failure_category option"

text \<open>One contract: the proofs it requires and whether they are there.\<close>

type_synonym contract = "bool \<times> bool \<times> string list"

definition cross_feature :: "mixed_info option \<Rightarrow> event list option \<Rightarrow> bool" where
  "cross_feature mixed tr \<longleftrightarrow>
     (case tr of Some es \<Rightarrow> length (print_calls es) \<ge> 6 | None \<Rightarrow> False) \<or>
     (case mixed of
        Some m \<Rightarrow> invocationCount m \<ge> 2 \<and>
          (mutableUpvalueCount m > 0 \<or> varargRecovered m \<or> \<not> mx_safeReplacement m)
      | None \<Rightarrow> False)"

definition says :: "'a option \<Rightarrow> ('a \<Rightarrow> bool) \<Rightarrow> bool" where
  "says report P = (case report of None \<Rightarrow> False | Some r \<Rightarrow> P r)"

definition mixed_contracts :: "mixed_info option \<Rightarrow> contract list" where
  "mixed_contracts mixed =
     (let has = says mixed
      in [(True, has varargToTableExpansionProven, [''VARARG_TABLE_EXPANSION'']),
          (True, has (\<lambda>m. mx_closureRecovered m \<and> closureInstanceCount m \<ge> 1), [''CLOSURE_IDENTITY'']),
          (True, has (\<lambda>m. environmentInstanceCount m \<ge> 1), [''ENVIRONMENT_IDENTITY'']),
          (True, has capturedTableIdentityProven, [''CAPTURED_TABLE_IDENTITY'']),
          (True, has persistentStateProven, [''PERSISTENT_UPVALUE_STATE'']),
          (True, has (\<lambda>m. branchOutcomes m \<noteq> [] \<and> branchProvenance m \<noteq> None), [''STATEFUL_BRANCH'']),
          (True, has (\<lambda>m. multiReturnExpansionProven m \<and> multiReturnValueCount m \<ge> 1), [''MULTIRETURN'']),
          (True, has evaluationOrderProven, [''EVALUATION_ORDER'']),
          (True, has mx_safeReplacement, [''WHOLE_PROGRAM_REPLACEMENT''])])"

definition single_contracts :: "completeness_info \<Rightarrow> contract list" where
  "single_contracts info =
     (let closed = info_closed info;
          base =
            [(says (vararg info) varargDetected,
               says (vararg info) va_safeToInline \<or> closed, [''VARARG_BINDING_FLOW''])] @
            [(says (multiReturn info) functionRecovered,
               says (multiReturn info) mr_safeToInline \<or> closed, [''MULTIRETURN_EXPANSION''])] @
            [(says (closureCapture info) (\<lambda>c. cl_closureRecovered c \<and> capturedBindingCount c > 0),
               says (closureCapture info) cl_safeToInline \<or> closed, [''LEXICAL_UPVALUE_CAPTURE''])] @
            [(says (tableRecovery info) tableRecovered,
               says (tableRecovery info) (\<lambda>t. safeToInlineField t \<or> safeToEliminateTable t) \<or> closed,
               [''TABLE_FIELD_LOOKUP''])] @
            [(says (nestedFunction info) (\<lambda>n. outerRecovered n \<and> innerRecovered n),
               says (nestedFunction info) (\<lambda>n. safeToInlineInner n \<and> safeToInlineOuter n) \<or> closed,
               [''NESTED_FUNCTION_CALL_CHAIN'', ''RETURN_PROPAGATION''])] @
            [(isDeadBranchEliminationSafe info, True, [''CONSTANT_BRANCH_ELIMINATION''])] @
            [(isSafeToInline info, True, [''FUNCTION_RETURN_SEMANTICS''])]
      in base @
         [(list_all (\<lambda>c. \<not> fst c) base \<and> closed, True, [''CONSTANT_PROPAGATION'']),
          (closed, True, [''WHOLE_PROGRAM_REPLACEMENT''])])"

definition required_of :: "contract list \<Rightarrow> proofs" where
  "required_of cs = concat (map (\<lambda>(need, holds, names). if need then map MandatoryProofs names else []) cs)"

definition proven_of :: "contract list \<Rightarrow> proofs" where
  "proven_of cs = concat (map (\<lambda>(need, holds, names). if need \<and> holds then map MandatoryProofs names else []) cs)"

definition validate_required :: "completeness_info option \<Rightarrow> event list option \<Rightarrow> proof_report" where
  "validate_required info tr =
     (case info of
        None \<Rightarrow>
          \<lparr>pr_pass = False, required = [MandatoryProofs ''WHOLE_PROGRAM_REPLACEMENT''], proven = [],
           missing = [MandatoryProofs ''WHOLE_PROGRAM_REPLACEMENT''], pr_failure = Some MISSING_REQUIRED_L5W_PROOF\<rparr>
      | Some i \<Rightarrow>
          (let cross = cross_feature (mixedClosed i) tr;
               cs = (if cross then mixed_contracts (mixedClosed i) else single_contracts i);
               req = required_of cs; prv = proven_of cs;
               miss = filter (\<lambda>r. r \<notin> set prv) req;
               inconsistent = (says (mixedClosed i) (\<lambda>m. \<not> mx_safeReplacement m) \<and> cross);
               pass = (miss = [] \<and> \<not> inconsistent)
           in \<lparr>pr_pass = pass, required = req, proven = prv, missing = miss,
               pr_failure = (if pass then None
                 else if inconsistent then Some L5W_ADMISSION_INCONSISTENCY else Some MISSING_REQUIRED_L5W_PROOF)\<rparr>))"

section \<open>Integrity of proofs\<close>

definition VALID_STATIC_SOURCES :: "string list" where
  "VALID_STATIC_SOURCES =
     [''STATIC_AST'', ''STATIC_IR'', ''STATIC_VM_LIFTING'', ''CFG'', ''POINTS_TO'', ''ABSTRACT_INTERPRETATION'']"

definition PROHIBITED_INTERNAL_SOURCES :: "string list" where
  "PROHIBITED_INTERNAL_SOURCES = [''SEMANTIC_TRACE'', ''EXPECTED_SOURCE'', ''FIXTURE_METADATA'', ''ORACLE_TRACE'']"

definition quoted :: "string \<Rightarrow> string" where
  "quoted s = CHR 0x27 # s @ [CHR 0x27]"

text \<open>The name of a proof, its provenance, and whether the proof is claimed.\<close>

definition provenances :: "mixed_info \<Rightarrow> (string \<times> string option \<times> bool) list" where
  "provenances m =
     [(''vararg'', varargProvenance m, varargRecovered m),
      (''closure'', closureProvenance m, mx_closureRecovered m),
      (''state'', stateProvenance m, persistentStateProven m),
      (''branch'', branchProvenance m, branchOutcomes m \<noteq> []),
      (''multiReturn'', multiReturnProvenance m, multiReturnValueCount m > 0),
      (''tableIdentity'', tableIdentityProvenance m, capturedTableIdentityProven m),
      (''evaluationOrder'', evaluationOrderProvenance m, evaluationOrderProven m)]"

definition provenance_violations :: "string \<times> string option \<times> bool \<Rightarrow> string list" where
  "provenance_violations p =
     (case p of (name, prov, claimed) \<Rightarrow>
        (case prov of
           None \<Rightarrow>
             if claimed then [''MISSING_PROVENANCE: Proof for '' @ quoted name @ '' has no provenance record.''] else []
         | Some src \<Rightarrow>
             if src \<in> set PROHIBITED_INTERNAL_SOURCES
             then [''PROHIBITED_SOURCE: Proof for '' @ quoted name @ '' originates from prohibited source '' @ quoted src @
               ''. Internal semantics must be proven via static analysis.'']
             else if src \<notin> set VALID_STATIC_SOURCES
             then [''INVALID_SOURCE: Proof for '' @ quoted name @ '' specifies unrecognized source '' @ quoted src @ ''.'']
             else []))"

text \<open>\<open>branchOutcomes\<close> is an array in every report, so its check adds nothing.\<close>

definition replacement_violations :: "mixed_info \<Rightarrow> string list" where
  "replacement_violations m =
     (if \<not> mx_safeReplacement m then []
      else
        (if \<not> varargToTableExpansionProven m
         then [''UNPROVEN_PREREQUISITE: varargToTableExpansionProven is false''] else []) @
        (if \<not> mx_closureRecovered m then [''UNPROVEN_PREREQUISITE: closureRecovered is false''] else []) @
        (if \<not> capturedTableIdentityProven m
         then [''UNPROVEN_PREREQUISITE: capturedTableIdentityProven is false''] else []) @
        (if \<not> persistentStateProven m then [''UNPROVEN_PREREQUISITE: persistentStateProven is false''] else []) @
        (if \<not> multiReturnExpansionProven m
         then [''UNPROVEN_PREREQUISITE: multiReturnExpansionProven is false''] else []) @
        (if \<not> evaluationOrderProven m then [''UNPROVEN_PREREQUISITE: evaluationOrderProven is false''] else []) @
        (if capturedBindings m = []
         then [''EMPTY_CAPTURED_BINDINGS: capturedBindings cannot be empty when closure is proven.''] else []) @
        (if multiReturnValueCount m < 1
         then [''INVALID_MULTIRETURN_COUNT: multiReturnValueCount must be a positive integer.''] else []))"

record integrity_report =
  ir_pass :: bool
  violations :: "string list"
  ir_failure :: "failure_category option"

definition validate_integrity :: "completeness_info option \<Rightarrow> integrity_report" where
  "validate_integrity info =
     (case info of
        None \<Rightarrow> \<lparr>ir_pass = True, violations = [], ir_failure = None\<rparr>
      | Some i \<Rightarrow>
          (let vs = (case mixedClosed i of
                       None \<Rightarrow> []
                     | Some m \<Rightarrow> concat (map provenance_violations (provenances m)) @ replacement_violations m);
               oracle = list_ex (mentions_any [''PROHIBITED_SOURCE'', ''MISSING_PROVENANCE'']) vs
           in \<lparr>ir_pass = (vs = []), violations = vs,
               ir_failure = (if vs = [] then None
                 else if oracle then Some ORACLE_DRIVEN_PROOF_SYNTHESIS else Some PROOF_INTEGRITY_FAILURE)\<rparr>))"

section \<open>The gate\<close>

record gates =
  g_wholeProgramClosed :: bool
  g_wholeProgramComplete :: bool
  g_requiredProofsPass :: bool
  g_proofIntegrityPass :: bool
  g_proofCompletenessPass :: bool
  g_unresolvedObligations :: "proofs option"
  g_safeReplacement :: bool
  g_vmDetached :: "bool option"
  g_dispatcherStatesAfter :: "int option"
  g_encodedStringsRemaining :: "int option"
  g_runtimeDecoderRemaining :: bool
  g_protectionRuntimeRemaining :: bool
  g_veto :: bool
  g_positiveEvidenceUsed :: bool

datatype gate_reason =
  STATIC_CLOSURE_FAIL | STATIC_COMPLETENESS_FAIL | REQUIRED_PROOFS_FAIL proofs | PROOF_INTEGRITY_FAIL |
  PROOF_COMPLETENESS_FAIL proofs | SAFE_REPLACEMENT_FAIL | VM_NOT_DETACHED | DISPATCHER_STATES_REMAIN int |
  ENCODED_STRINGS_REMAIN int | RUNTIME_DECODER_REMAINS | PROTECTION_RUNTIME_REMAINS | ORACLE_VETO | ORACLE_TAINT

record gate_decision =
  finalEligible :: bool
  failureReasons :: "gate_reason list"
  decisionGraph :: gates

text \<open>The inputs with their defaults; the decision graph holds these.\<close>

definition normal_gates :: "gates \<Rightarrow> gates" where
  "normal_gates g =
     (let obligations = js_nullish (g_unresolvedObligations g) []
      in g\<lparr>g_unresolvedObligations := Some obligations,
           g_proofCompletenessPass := (g_proofCompletenessPass g \<and> obligations = []),
           g_vmDetached := Some (g_vmDetached g \<noteq> Some False),
           g_dispatcherStatesAfter := Some (js_nullish (g_dispatcherStatesAfter g) 0),
           g_encodedStringsRemaining := Some (js_nullish (g_encodedStringsRemaining g) 0)\<rparr>)"

definition evaluate_gate :: "gates \<Rightarrow> gate_decision" where
  "evaluate_gate gs =
     (let g = normal_gates gs;
          obligations = the (g_unresolvedObligations g);
          detached = the (g_vmDetached g);
          states = the (g_dispatcherStatesAfter g);
          encoded = the (g_encodedStringsRemaining g);
          cleanupPass = (detached \<and> states = 0 \<and> encoded = 0 \<and>
            \<not> g_runtimeDecoderRemaining g \<and> \<not> g_protectionRuntimeRemaining g);
          staticPass = (g_wholeProgramClosed g \<and> g_wholeProgramComplete g);
          proofPass = (g_requiredProofsPass g \<and> g_proofIntegrityPass g \<and> g_proofCompletenessPass g \<and> obligations = []);
          oraclePass = (\<not> g_veto g \<and> \<not> g_positiveEvidenceUsed g)
      in \<lparr>finalEligible = (staticPass \<and> proofPass \<and> g_safeReplacement g \<and> cleanupPass \<and> oraclePass),
          failureReasons =
            (if \<not> g_wholeProgramClosed g then [STATIC_CLOSURE_FAIL] else []) @
            (if \<not> g_wholeProgramComplete g then [STATIC_COMPLETENESS_FAIL] else []) @
            (if \<not> g_requiredProofsPass g then [REQUIRED_PROOFS_FAIL obligations] else []) @
            (if \<not> g_proofIntegrityPass g then [PROOF_INTEGRITY_FAIL] else []) @
            (if \<not> g_proofCompletenessPass g then [PROOF_COMPLETENESS_FAIL obligations] else []) @
            (if \<not> g_safeReplacement g then [SAFE_REPLACEMENT_FAIL] else []) @
            (if \<not> detached then [VM_NOT_DETACHED] else []) @
            (if states > 0 then [DISPATCHER_STATES_REMAIN states] else []) @
            (if encoded > 0 then [ENCODED_STRINGS_REMAIN encoded] else []) @
            (if g_runtimeDecoderRemaining g then [RUNTIME_DECODER_REMAINS] else []) @
            (if g_protectionRuntimeRemaining g then [PROTECTION_RUNTIME_REMAINS] else []) @
            (if g_veto g then [ORACLE_VETO] else []) @
            (if g_positiveEvidenceUsed g then [ORACLE_TAINT] else []),
          decisionGraph = g\<rparr>)"

section \<open>What the gates mean\<close>

text \<open>A program is admitted exactly when the gate finds nothing against it: what the static analysis, the proofs,
  the cleanup and the oracle say must all be favourable, and every refusal names its reason. Counts are not
  negative.\<close>

theorem admitted_iff_no_reason:
  assumes "0 \<le> js_nullish (g_dispatcherStatesAfter g) 0" and "0 \<le> js_nullish (g_encodedStringsRemaining g) 0"
  shows "finalEligible (evaluate_gate g) \<longleftrightarrow> failureReasons (evaluate_gate g) = []"
  using assms by (auto simp: evaluate_gate_def normal_gates_def Let_def)

text \<open>The decision that the gate returns leads to the same decision when it is used as input.\<close>

theorem decision_is_stable:
  "evaluate_gate (decisionGraph (evaluate_gate g)) = evaluate_gate g"
  by (simp add: evaluate_gate_def normal_gates_def js_nullish_def Let_def split: option.split)

text \<open>With a negative count a program is refused without a reason.\<close>

lemma negative_count_has_no_reason:
  "\<not> finalEligible (evaluate_gate (g\<lparr>g_dispatcherStatesAfter := Some (- 1)\<rparr>))"
  by (simp add: evaluate_gate_def normal_gates_def js_nullish_def Let_def)

text \<open>A report that passes the integrity check has a static source for every proof that it claims, and a report
  that claims the replacement has all its prerequisites.\<close>

theorem integrity_means_static_proofs:
  assumes "ir_pass (validate_integrity (Some i))" and "mixedClosed i = Some m"
  shows "(\<forall>(name, prov, claimed)\<in>set (provenances m). claimed \<longrightarrow> (\<exists>src\<in>set VALID_STATIC_SOURCES. prov = Some src)) \<and>
    (mx_safeReplacement m \<longrightarrow> varargToTableExpansionProven m \<and> mx_closureRecovered m \<and> capturedTableIdentityProven m \<and>
       persistentStateProven m \<and> multiReturnExpansionProven m \<and> evaluationOrderProven m \<and> capturedBindings m \<noteq> [] \<and>
       1 \<le> multiReturnValueCount m)"
proof
  have none: "concat (map provenance_violations (provenances m)) = []" "replacement_violations m = []"
    using assms by (simp_all add: validate_integrity_def Let_def)
  have "provenance_violations p = []" if "p \<in> set (provenances m)" for p using none(1) that by simp
  then show "\<forall>(name, prov, claimed)\<in>set (provenances m). claimed \<longrightarrow> (\<exists>src\<in>set VALID_STATIC_SOURCES. prov = Some src)"
    by (fastforce simp: provenance_violations_def split: option.splits if_splits)
  show "mx_safeReplacement m \<longrightarrow> varargToTableExpansionProven m \<and> mx_closureRecovered m \<and> capturedTableIdentityProven m \<and>
      persistentStateProven m \<and> multiReturnExpansionProven m \<and> evaluationOrderProven m \<and> capturedBindings m \<noteq> [] \<and>
      1 \<le> multiReturnValueCount m"
    using none(2) by (auto simp: replacement_violations_def split: if_splits)
qed

text \<open>The proofs of single features are met by the closedness that they are to support: a closed program without
  a mixed report passes both validators whatever the analyzers found, unless it prints six times or more.\<close>

theorem closed_program_needs_no_proof:
  assumes "mixedClosed i = None" and "info_closed i"
  shows "pr_pass (validate_required (Some i) tr) \<longleftrightarrow>
      (case tr of None \<Rightarrow> True | Some es \<Rightarrow> length (print_calls es) < 6)"
    and "ir_pass (validate_integrity (Some i))"
proof -
  have "r \<in> set (proven_of (single_contracts i))" if "r \<in> set (required_of (single_contracts i))" for r
    using that assms(2) by (auto simp: required_of_def proven_of_def single_contracts_def Let_def split: if_splits)
  then have single: "filter (\<lambda>r. r \<notin> set (proven_of (single_contracts i))) (required_of (single_contracts i)) = []"
    by (simp add: filter_empty_conv)
  have mixed: "filter (\<lambda>r. r \<notin> set (proven_of (mixed_contracts None))) (required_of (mixed_contracts None)) \<noteq> []"
    by (simp add: required_of_def proven_of_def mixed_contracts_def says_def MandatoryProofs_def)
  show "pr_pass (validate_required (Some i) tr) \<longleftrightarrow>
      (case tr of None \<Rightarrow> True | Some es \<Rightarrow> length (print_calls es) < 6)"
    using single mixed assms(1) by (simp add: validate_required_def cross_feature_def says_def Let_def split: option.split)
  show "ir_pass (validate_integrity (Some i))" using assms(1) by (simp add: validate_integrity_def)
qed

end
