(* ===== verification/Spec2Isabelle.thy ===== *)
theory Spec2Isabelle
  imports Redis_Races Resp_Props Rate_Limiter_Props Job_Queue_Claims Evaluator_Props Front_Findings Transition_Props Residual_Props Restructure_Props Ownership_Props
    String_Recovery_Props Alias_Recovery_Props Trace_Props Cleanup_Props Gateway_Props
    Session_Props Product_Limits Product_Props Admission
begin

text \<open>
  A model of the recovery service in Isabelle/HOL: the front end and the passes that turn a script
  protected by the WeAreDevs obfuscator into readable Lua, and the services that run such recoveries
  as jobs. Every definition follows a function of the sources; the comments name it.

  \<^bold>\<open>The program.\<close> A source text is scanned (\<open>core/src/lexer\<close>), parsed (\<open>core/src/parser\<close>), rewritten
  by a pipeline of passes on the tree (\<open>core/src/evaluator\<close>, \<open>adapters\<close>, \<open>transforms\<close>), partly by
  way of a control-flow graph of the dispatcher loop (\<open>core/src/cfg\<close>), and printed
  (\<open>core/src/generator\<close>). The gateway (\<open>gateway/src\<close>) checks rate limits, puts a job into the queue
  (\<open>queue/src\<close>), hands it to a worker and stores the results; the API (\<open>api/src\<close>) identifies the
  caller. All paths below are under \<open>src/packages\<close>.

  \<^bold>\<open>Theories and sources.\<close>

  \<^item> \<open>Prelude\<close>, \<open>JS_Map\<close>, \<open>JS_Number\<close>: the language. A value that may be absent is an option, a
    thrown error the left side of a sum (\<open>outcome\<close>), a \<open>Map\<close> an association list in insertion order
    (locale \<open>keyed_store\<close>), a number an IEEE double with exact rationals and rounding.
  \<^item> \<open>Byte_String\<close>: \<open>shared/src/bytestring.js\<close>. A Lua string is a list of bytes.
  \<^item> \<open>Tokens\<close>, \<open>Lexer\<close>, \<open>Lexer_Props\<close>: \<open>core/src/lexer\<close>. The state of the scanner is the rest of the
    text with offset, line and column.
  \<^item> \<open>AST\<close>, \<open>Traverse\<close>, \<open>Rewrite\<close>, \<open>Rewrite_Counts\<close>: \<open>core/src/ast\<close>. A node is a
    constructor; \<open>transform\<close> threads the state of its callback. Locale \<open>tree_rewrite\<close>: a pass whose
    callback decides by the node alone is a plain recursion; \<open>compositional\<close>: such a recursion keeps
    every compositional meaning that its replacements keep; \<open>counting_rewrite\<close>: a pass that counts
    its changes leaves the tree alone when the counter does not move.
  \<^item> \<open>Parser\<close>, \<open>Parser_Props\<close>: \<open>core/src/parser/parser.js\<close>, recursive descent with fuel.
  \<^item> \<open>Generator\<close>, \<open>Print_Lex\<close>, \<open>Print_Parse\<close>, \<open>Front_Findings\<close>: \<open>core/src/generator\<close> and its agreement
    with scanner and parser.
  \<^item> \<open>Evaluator\<close>, \<open>Evaluator_Props\<close>, \<open>Fold_Fixpoint\<close>: \<open>core/src/evaluator\<close>.
  \<^item> \<open>WeAreDevs\<close>, \<open>WeAreDevs_Decode\<close>, \<open>WeAreDevs_Props\<close>: \<open>core/src/adapters/wearedevs\<close> and
    \<open>core/src/detectors/format-detector.js\<close>.
  \<^item> \<open>String_Recovery\<close>, \<open>Alias_Recovery\<close>, \<open>Cleanup\<close> and their \<open>_Props\<close>: the passes of the same names
    in \<open>core/src/transforms\<close>. \<open>Lua_Semantics\<close> is the reference semantics they are measured by,
    \<open>Lua_Semantics_Props\<close> its laws (locale \<open>block_laws\<close>).
  \<^item> \<open>CFG\<close>, \<open>Dispatcher\<close>, \<open>Transition_Props\<close>, \<open>CFG_Props\<close>, \<open>Dispatcher_Props\<close>: \<open>core/src/cfg\<close>;
    \<open>Residual_Dispatcher\<close>, \<open>Restructure\<close> and their \<open>_Props\<close>: the passes on dispatchers;
    \<open>Multi_Entry\<close>, \<open>Multi_Entry_Props\<close>, \<open>Dominator_Props\<close>, \<open>Ownership_Props\<close>: \<open>multi-entry-cfg.js\<close>.
  \<^item> \<open>Job_State\<close>, \<open>Job_Queue\<close>, \<open>Job_Queue_Props\<close>, \<open>Job_Queue_Claims\<close>: \<open>queue/src/types.js\<close>,
    \<open>queue/src/in-memory-queue.js\<close>, \<open>api/src/state-machine.js\<close>.
  \<^item> \<open>Redis_Client\<close>, \<open>Redis_Queue\<close>, \<open>Redis_Queue_Props\<close>, \<open>Redis_Races\<close>, \<open>Resp\<close>, \<open>Resp_Props\<close>:
    \<open>queue/src/redis-queue-adapter.js\<close>; an operation is the program of the commands it issues, and
    concurrent clients interleave at commands.
  \<^item> \<open>Rate_Limiter\<close>, \<open>Rate_Limiter_Props\<close>: \<open>gateway/src/rate-limiter.js\<close>.
  \<^item> \<open>Trace_Synthesis\<close>, \<open>Trace_Props\<close>: \<open>core/src/oracle/semantic-oracle.js\<close>, the comparison of traces and
    the program that a trace is turned into; \<open>replay\<close> runs such a program.
  \<^item> \<open>Admission\<close>: \<open>required-proof-validator.js\<close>, \<open>proof-integrity-validator.js\<close> and
    \<open>final-admission-gate.js\<close> of \<open>core/src/analysis\<close> with \<open>diagnostics/failure-taxonomy.js\<close>.
  \<^item> \<open>Artifact_Store\<close>, \<open>File_Store\<close>, \<open>Artifact_Props\<close>: \<open>gateway/src/artifact-store.js\<close>, the store in
    memory, the one on disk, on a tree of directories, and the one on S3 (a locale holds what they share).
  \<^item> \<open>Gateway_Metrics\<close>, \<open>Recovery_Gateway\<close>, \<open>Gateway_Props\<close>: \<open>gateway/src/metrics.js\<close> and
    \<open>recovery-gateway.js\<close>; the gateway holds its queue, limiter, store and metrics, one call is one step.
  \<^item> \<open>Session_Store\<close>, \<open>Session_Props\<close>, \<open>Identity_Store\<close>, \<open>Discord_OAuth\<close>: \<open>api/src/auth\<close>; both session
    stores answer as one abstract store (locale \<open>session_store\<close>), requests for an identity interleave.
  \<^item> \<open>Product_Api\<close>, \<open>Product_Handlers\<close>, \<open>Product_Limits\<close>, \<open>Product_Props\<close>: \<open>api/src/server.js\<close> with
    \<open>auth.js\<close> and \<open>errors.js\<close>; a request is a step of the server, a submission has a part before its body
    is read and one after.

  \<^bold>\<open>What is shown.\<close> Front end: the tokens cover the source, string literals and printable expressions
  survive printing and reading, parsing ends. Passes: folding keeps the value of expressions and the
  removal of dead code the meaning of programs under stated conditions, cleanup ends in a fixed point, the
  pool of a protected script is recovered, and hidden strings come back. A program synthesized from a plain
  trace makes its calls. Graphs: the dispatcher analysis recovers the leaves and transitions,
  reachability, dominators and ownership are exact, removing states keeps the others. Queue: its tables
  agree in every reachable state, every entry of the waiting list is handed out once, the Redis adapter
  refines the in-memory queue where both agree on leases, replies are parsed however they are split, the
  limiter decides as the full history would. Gateway and API: jobs and artifacts are shown to their owner
  only, waiting jobs are run and failing ones end, sessions end and expire, nonces and states of a login are
  used once, a subject has one principal, names of files are safe and quotas hold. Where the code does
  not do what it means to, a theorem shows the wrong result.

  \<^bold>\<open>Bounds and fuel.\<close> The parser runs with a fuel of twice the number of tokens plus two, which is never
  used up (\<open>Parser_Props\<close>); walks over a graph with one more step than it has blocks; the work list of
  the multi-entry analysis with five times the edges plus two; the dominator iteration with one more
  round than the square of the blocks; replies of the wire protocol with the length of the buffer.
  Loops of the reference semantics are cut off after \<open>rounds\<close> iterations, and both sides of an
  equation are cut off alike. The cleanup loop has the limit \<open>maxPasses\<close> of the code.

  \<^bold>\<open>Parameters.\<close> \<open>Math.pow\<close>, the clock, random tokens and identifiers, hashes and signatures, the decoders of
  requests, the worker, the Redis server behind the wire protocol, and in the reference semantics the host
  (calls, tables, metamethods).

  \<^bold>\<open>Not modelled.\<close> Connections, processes and HTTP (the worker process, the sandbox, the Discord bot,
  the web application, the command line, the scripts), the sequence of the stages of the pipeline, and of
  the core the heuristic analyses whose result is a report (closure splitting, environment access,
  points-to, vararg and closure analyses, completeness verification and the lifter), as the manifest lists.
\<close>

end
